(* ===== verification/JsNum.thy ===== *)
theory JsNum
  imports Prelude Complex_Main "HOL-Library.Log_Nat"
begin

text \<open>
  JavaScript numbers: IEEE 754 doubles. A finite double is the rational number it denotes (the
  two zeros are one value: no code modelled here tells them apart), next to NaN and the two
  infinities. Arithmetic is the exact result rounded to the nearest double, ties to even.
  \<open>jint i\<close> is the number with integer value \<open>i\<close>; on the safe integers the operations are those
  of \<open>int\<close>, which is what the lemmas of this theory say.
\<close>

datatype jsnum = NaN | PInf | NInf | Fin rat

definition jint :: "int \<Rightarrow> jsnum" where
  "jint i = Fin (of_int i)"

definition max_safe :: int where
  "max_safe = 9007199254740991"

section \<open>Predicates of \<open>Number\<close>\<close>

fun is_finite :: "jsnum \<Rightarrow> bool" where
  "is_finite (Fin r) = True"
| "is_finite _ = False"

fun is_nan :: "jsnum \<Rightarrow> bool" where
  "is_nan NaN = True"
| "is_nan _ = False"

fun is_integer :: "jsnum \<Rightarrow> bool" where
  "is_integer (Fin r) = (of_int \<lfloor>r\<rfloor> = r)"
| "is_integer _ = False"

fun is_safe_integer :: "jsnum \<Rightarrow> bool" where
  "is_safe_integer (Fin r) = (of_int \<lfloor>r\<rfloor> = r \<and> \<bar>\<lfloor>r\<rfloor>\<bar> \<le> max_safe)"
| "is_safe_integer _ = False"

fun num_lt :: "jsnum \<Rightarrow> jsnum \<Rightarrow> bool" where
  "num_lt (Fin a) (Fin b) = (a < b)"
| "num_lt NInf (Fin b) = True"
| "num_lt NInf PInf = True"
| "num_lt (Fin a) PInf = True"
| "num_lt _ _ = False"

definition num_eq :: "jsnum \<Rightarrow> jsnum \<Rightarrow> bool" where
  "num_eq a b = (a = b \<and> a \<noteq> NaN)"

definition num_le :: "jsnum \<Rightarrow> jsnum \<Rightarrow> bool" where
  "num_le a b = (num_lt a b \<or> num_eq a b)"

definition num_max :: "jsnum \<Rightarrow> jsnum \<Rightarrow> jsnum" where
  "num_max a b = (if is_nan a \<or> is_nan b then NaN else if num_lt a b then b else a)"

section \<open>Rounding and arithmetic\<close>

definition round_even :: "rat \<Rightarrow> int" where
  "round_even x =
     (let f = \<lfloor>x\<rfloor>; d = x - of_int f
      in if d < 1 / 2 then f else if 1 / 2 < d then f + 1 else if even f then f else f + 1)"

definition floor_log2 :: "rat \<Rightarrow> int" where
  "floor_log2 r =
     (let (p, q) = quotient_of r; k = bitlen p - bitlen q
      in if 2 powi k \<le> r then k else k - 1)"

definition rnd :: "rat \<Rightarrow> jsnum" where
  "rnd r =
     (if r = 0 then Fin 0
      else let e = max (floor_log2 \<bar>r\<bar> - 52) (- 1074);
               v = of_int (round_even (r / 2 powi e)) * 2 powi e
           in if \<bar>v\<bar> \<ge> 2 ^ 1024 then (if 0 < r then PInf else NInf) else Fin v)"

fun num_neg :: "jsnum \<Rightarrow> jsnum" where
  "num_neg (Fin a) = Fin (- a)"
| "num_neg PInf = NInf"
| "num_neg NInf = PInf"
| "num_neg NaN = NaN"

fun num_add :: "jsnum \<Rightarrow> jsnum \<Rightarrow> jsnum" where
  "num_add (Fin a) (Fin b) = rnd (a + b)"
| "num_add NaN _ = NaN"
| "num_add _ NaN = NaN"
| "num_add PInf NInf = NaN"
| "num_add NInf PInf = NaN"
| "num_add PInf _ = PInf"
| "num_add NInf _ = NInf"
| "num_add _ b = b"

definition num_sub :: "jsnum \<Rightarrow> jsnum \<Rightarrow> jsnum" where
  "num_sub a b = num_add a (num_neg b)"

section \<open>Integers\<close>

lemma jint_inject [simp]: "jint i = jint j \<longleftrightarrow> i = j"
  by (simp add: jint_def)

lemma jint_distinct [simp]:
  "jint i \<noteq> NaN" "jint i \<noteq> PInf" "jint i \<noteq> NInf"
  "NaN \<noteq> jint i" "PInf \<noteq> jint i" "NInf \<noteq> jint i"
  by (simp_all add: jint_def)

lemma jint_preds [simp]:
  "is_finite (jint i)"
  "\<not> is_nan (jint i)"
  "is_integer (jint i)"
  "is_safe_integer (jint i) \<longleftrightarrow> \<bar>i\<bar> \<le> max_safe"
  by (simp_all add: jint_def)

lemma jint_less [simp]: "num_lt (jint i) (jint j) \<longleftrightarrow> i < j"
  by (simp add: jint_def)

lemma jint_eq [simp]: "num_eq (jint i) (jint j) \<longleftrightarrow> i = j"
  by (simp add: num_eq_def)

lemma jint_le [simp]: "num_le (jint i) (jint j) \<longleftrightarrow> i \<le> j"
  by (auto simp: num_le_def)

lemma jint_inf [simp]:
  "num_lt (jint i) PInf" "num_lt NInf (jint i)" "\<not> num_lt PInf (jint i)" "\<not> num_lt (jint i) NInf"
  "num_le (jint i) PInf" "num_le NInf (jint i)" "\<not> num_le PInf (jint i)" "\<not> num_le (jint i) NInf"
  by (simp_all add: jint_def num_le_def num_eq_def)

lemma nan_cmp [simp]:
  "\<not> num_lt NaN b" "\<not> num_lt a NaN" "\<not> num_le NaN b" "\<not> num_le a NaN"
  by (cases a; cases b; simp add: num_le_def num_eq_def)+

lemma is_integer_jint: "is_integer n \<longleftrightarrow> (\<exists>i. n = jint i)"
  by (cases n) (auto simp: jint_def)

lemma is_safe_integer_jint: "is_safe_integer n \<longleftrightarrow> (\<exists>i. n = jint i \<and> \<bar>i\<bar> \<le> max_safe)"
  by (cases n) (auto simp: jint_def)

lemma is_safe_integerE:
  assumes "is_safe_integer n"
  obtains i where "n = jint i" "\<bar>i\<bar> \<le> max_safe"
  using assms by (auto simp: is_safe_integer_jint)

lemma num_le_not_less: "\<not> is_nan a \<Longrightarrow> \<not> is_nan b \<Longrightarrow> num_le a b \<longleftrightarrow> \<not> num_lt b a"
  by (cases a; cases b) (auto simp: num_le_def num_eq_def)

lemma num_le_trans: "num_le a b \<Longrightarrow> num_le b c \<Longrightarrow> num_le a c"
  by (cases a; cases b; cases c) (auto simp: num_le_def num_eq_def)

lemma num_max_jint [simp]: "num_max (jint i) (jint j) = jint (max i j)"
  by (simp add: num_max_def max_def)

lemma num_max_ge:
  "\<not> is_nan a \<Longrightarrow> \<not> is_nan b \<Longrightarrow> num_le a (num_max a b) \<and> num_le b (num_max a b)"
  by (cases a; cases b) (auto simp: num_max_def num_le_def num_eq_def)

lemma num_neg_jint [simp]: "num_neg (jint i) = jint (- i)"
  by (simp add: jint_def)

subsection \<open>Integer arithmetic is exact below \<open>2 ^ 53\<close>\<close>

lemma round_even_int [simp]: "round_even (of_int i) = i"
  by (simp add: round_even_def)

lemma floor_log2_int_le:
  assumes "0 < i" and "i < 2 ^ 53"
  shows "floor_log2 (of_int i) \<le> 52"
proof -
  have "bitlen i \<le> 53"
    using assms by (simp add: bitlen_le_iff_power)
  moreover have "bitlen 1 = 1"
    by (simp add: bitlen_eq_zero_iff bitlen_def floorlog_def)
  ultimately show ?thesis
    by (auto simp: floor_log2_def Let_def)
qed

lemma rnd_small_exponent:
  assumes "i \<noteq> 0" and "e \<le> 0"
  shows "of_int (round_even (of_int i / 2 powi e)) * 2 powi e = (of_int i :: rat)"
proof -
  define n where "n = nat (- e)"
  have e: "e = - int n" using assms(2) by (simp add: n_def)
  have "of_int i / 2 powi e = (of_int (i * 2 ^ n) :: rat)"
    by (simp add: e power_int_minus field_simps)
  then have "round_even (of_int i / 2 powi e) = i * 2 ^ n"
    by (simp only: round_even_int)
  then show ?thesis
    by (simp add: e power_int_minus field_simps)
qed

lemma rnd_int:
  assumes "\<bar>i\<bar> < 2 ^ 53"
  shows "rnd (of_int i) = jint i"
proof (cases "i = 0")
  case True
  then show ?thesis by (simp add: rnd_def jint_def)
next
  case False
  define e where "e = max (floor_log2 \<bar>of_int i :: rat\<bar> - 52) (- 1074)"
  have "floor_log2 (of_int \<bar>i\<bar>) \<le> 52"
    using False assms by (intro floor_log2_int_le) auto
  then have "e \<le> 0" by (simp add: e_def)
  then have v: "of_int (round_even (of_int i / 2 powi e)) * 2 powi e = (of_int i :: rat)"
    using False by (rule rnd_small_exponent [rotated])
  have "\<bar>i\<bar> < (2 :: int) ^ 1024"
    by (rule less_trans [OF assms]) simp
  then have "\<not> 2 ^ 1024 \<le> \<bar>of_int i :: rat\<bar>"
    by (metis of_int_abs of_int_le_iff of_int_numeral of_int_power not_le)
  then show ?thesis
    using False v by (simp add: rnd_def Let_def e_def [symmetric] jint_def)
qed

lemma num_add_jint: "\<bar>i + j\<bar> < 2 ^ 53 \<Longrightarrow> num_add (jint i) (jint j) = jint (i + j)"
  using rnd_int [of "i + j"] by (simp add: jint_def)

lemma num_sub_jint: "\<bar>i - j\<bar> < 2 ^ 53 \<Longrightarrow> num_sub (jint i) (jint j) = jint (i - j)"
  using num_add_jint [of i "- j"] by (simp add: num_sub_def)

text \<open>Seconds are non-negative safe integers; their differences and bounded sums are exact.\<close>

lemma num_sub_seconds:
  assumes "0 \<le> i" "i \<le> max_safe" "0 \<le> j" "j \<le> max_safe"
  shows "num_sub (jint i) (jint j) = jint (i - j)"
  using assms by (intro num_sub_jint) (simp add: max_safe_def)

lemma num_add_seconds:
  assumes "0 \<le> i" "0 \<le> j" "i + j \<le> max_safe"
  shows "num_add (jint i) (jint j) = jint (i + j)"
  using assms by (intro num_add_jint) (simp add: max_safe_def)

lemma num_sub_inf [simp]: "num_sub (jint i) PInf = NInf"
  by (simp add: num_sub_def jint_def)

subsection \<open>Rounding does not pass a safe integer\<close>

lemma round_even_le: "x \<le> of_int n \<Longrightarrow> round_even x \<le> n"
proof -
  assume x: "x \<le> of_int n"
  show ?thesis
  proof (cases "x = of_int n")
    case False
    with x have "\<lfloor>x\<rfloor> < n" by (simp add: floor_less_iff)
    then show ?thesis by (simp add: round_even_def Let_def)
  qed simp
qed

lemma floor_log2_le:
  assumes "0 < r"
  shows "2 powi floor_log2 r \<le> r"
proof -
  obtain p q where pq: "quotient_of r = (p, q)" by (cases "quotient_of r")
  then have r: "r = of_int p / of_int q" and q: "0 < q"
    by (simp_all add: quotient_of_div quotient_of_denom_pos)
  with assms have p: "0 < p" by (simp add: zero_less_divide_iff)
  have "2 powi (bitlen p - bitlen q - 1) \<le> r"
  proof -
    have bp: "1 \<le> bitlen p" "1 \<le> bitlen q"
      using p q bitlen_eq_zero_iff [of p] bitlen_eq_zero_iff [of q] bitlen_nonneg [of p] bitlen_nonneg [of q]
      by linarith+
    have "2 ^ nat (bitlen p - 1) \<le> p" using bitlen_bounds [OF p] by simp
    then have a: "(2 :: rat) powi (bitlen p - 1) \<le> of_int p"
      using bp by (simp add: power_int_def)
    have "q \<le> 2 ^ nat (bitlen q)" using bitlen_bounds [OF q] by simp
    then have b: "of_int q \<le> (2 :: rat) powi bitlen q"
      using bp by (simp add: power_int_def)
    have "(2 :: rat) powi (bitlen p - bitlen q - 1) = 2 powi (bitlen p - 1) / 2 powi bitlen q"
      by (simp add: power_int_diff power_int_add field_simps)
    also have "\<dots> \<le> of_int p / of_int q"
      using a b q p by (intro frac_le) auto
    finally show ?thesis by (simp add: r)
  qed
  then show ?thesis by (simp add: floor_log2_def pq Let_def)
qed

lemma rnd_le_jint:
  assumes x: "x \<le> of_int i" and i: "\<bar>i\<bar> < 2 ^ 53"
  shows "num_le (rnd x) (jint i)"
proof (cases "x = 0")
  case True
  with x show ?thesis by (auto simp: rnd_def jint_def num_le_def num_eq_def)
next
  case False
  define e where "e = max (floor_log2 \<bar>x\<bar> - 52) (- 1074)"
  define v where "v = of_int (round_even (x / 2 powi e)) * (2 powi e :: rat)"
  have "v \<le> of_int i"
  proof (cases "e \<le> 0")
    case True
    define n where "n = nat (- e)"
    have e: "e = - int n" using True by (simp add: n_def)
    have "x / 2 powi e = x * 2 ^ n" by (simp add: e power_int_minus field_simps)
    also have "\<dots> \<le> of_int (i * 2 ^ n)" using x by simp
    finally have "round_even (x / 2 powi e) \<le> i * 2 ^ n" by (rule round_even_le)
    then have "of_int (round_even (x / 2 powi e)) \<le> (of_int (i * 2 ^ n) :: rat)" by (simp only: of_int_le_iff)
    then show ?thesis by (simp add: v_def e power_int_minus field_simps)
  next
    case e: False
    then have e': "e = floor_log2 \<bar>x\<bar> - 52" by (simp add: e_def)
    have "2 powi (e + 52) \<le> \<bar>x\<bar>" using floor_log2_le [of "\<bar>x\<bar>"] False by (simp add: e')
    then have big: "2 ^ 52 \<le> \<bar>x\<bar> / 2 powi e"
      by (simp add: power_int_add field_simps)
    have "(2 :: rat) powi 1 \<le> 2 powi e" using e by (intro power_int_increasing) auto
    then have two: "2 \<le> (2 :: rat) powi e" by simp
    have "\<not> 0 < x"
    proof
      assume "0 < x"
      then have "2 ^ 52 * 2 powi e \<le> x" using big by (simp add: field_simps)
      moreover have "(2 :: rat) ^ 52 * 2 \<le> 2 ^ 52 * 2 powi e" using two by (intro mult_left_mono) auto
      ultimately have "(2 :: rat) ^ 52 * 2 \<le> of_int i" using x by linarith
      then have "of_int (2 ^ 53) \<le> (of_int i :: rat)" by simp
      then show False using i unfolding of_int_le_iff by linarith
    qed
    then have "x / 2 powi e \<le> of_int (- (2 ^ 52))" using big by simp
    then have "round_even (x / 2 powi e) \<le> - (2 ^ 52)" by (rule round_even_le)
    then have "of_int (round_even (x / 2 powi e)) \<le> (of_int (- (2 ^ 52)) :: rat)" by (simp only: of_int_le_iff)
    then have "v \<le> - (2 ^ 52) * 2 powi e" unfolding v_def by (intro mult_right_mono) auto
    also have "\<dots> \<le> - (2 ^ 52) * 2" using two by simp
    also have "\<dots> = (of_int (- (2 ^ 53)) :: rat)" by simp
    also have "\<dots> \<le> of_int i" unfolding of_int_le_iff using i by linarith
    finally show ?thesis .
  qed
  moreover have "(of_int i :: rat) < 2 ^ 1024"
  proof -
    have "i < 2 ^ 1024" using i by (rule_tac less_trans [of _ "2 ^ 53"]) auto
    then show ?thesis by (metis of_int_less_iff of_int_numeral of_int_power)
  qed
  moreover have "0 \<le> v" if "0 < x"
  proof -
    have "0 \<le> \<lfloor>x / 2 powi e\<rfloor>" using that by simp
    then have "0 \<le> round_even (x / 2 powi e)" by (simp add: round_even_def Let_def)
    then show ?thesis by (simp add: v_def)
  qed
  ultimately show ?thesis
    using False by (auto simp: rnd_def Let_def e_def [symmetric] v_def [symmetric] jint_def num_le_def num_eq_def)
qed

lemma num_sub_le:
  assumes "num_le (jint z) r" and "\<bar>now - z\<bar> < 2 ^ 53"
  shows "num_le (num_sub (jint now) r) (jint (now - z))"
proof (cases r)
  case (Fin q)
  with assms(1) have "of_int now - q \<le> of_int (now - z)" by (auto simp: jint_def num_le_def num_eq_def)
  from rnd_le_jint [OF this assms(2)] Fin show ?thesis by (simp add: num_sub_def jint_def)
qed (use assms in auto)

text \<open>The same from below, for sums that are not negative.\<close>

lemma round_even_ge: "of_int n \<le> x \<Longrightarrow> n \<le> round_even x"
proof -
  assume "of_int n \<le> x"
  then have "n \<le> \<lfloor>x\<rfloor>" by (simp add: le_floor_iff)
  then show ?thesis by (simp add: round_even_def Let_def)
qed

lemma rnd_ge_jint:
  assumes x: "of_int i \<le> x" and i: "0 \<le> i" "i < 2 ^ 53"
  shows "num_le (jint i) (rnd x)"
proof (cases "x = 0")
  case True
  with x show ?thesis by (auto simp: rnd_def jint_def num_le_def num_eq_def)
next
  case False
  have "(0 :: rat) \<le> of_int i" using i(1) by simp
  with x False have pos: "0 < x" by linarith
  define e where "e = max (floor_log2 \<bar>x\<bar> - 52) (- 1074)"
  define v where "v = of_int (round_even (x / 2 powi e)) * (2 powi e :: rat)"
  have "of_int i \<le> v"
  proof (cases "e \<le> 0")
    case True
    define n where "n = nat (- e)"
    have e: "e = - int n" using True by (simp add: n_def)
    have "of_int (i * 2 ^ n) \<le> x * 2 ^ n" using x by simp
    also have "\<dots> = x / 2 powi e" by (simp add: e power_int_minus field_simps)
    finally have "i * 2 ^ n \<le> round_even (x / 2 powi e)" by (rule round_even_ge)
    then have "(of_int (i * 2 ^ n) :: rat) \<le> of_int (round_even (x / 2 powi e))" by (simp only: of_int_le_iff)
    then show ?thesis by (simp add: v_def e power_int_minus field_simps)
  next
    case e: False
    then have e': "e = floor_log2 \<bar>x\<bar> - 52" by (simp add: e_def)
    have "2 powi (e + 52) \<le> \<bar>x\<bar>" using floor_log2_le [of "\<bar>x\<bar>"] False by (simp add: e')
    then have "of_int (2 ^ 52) \<le> x / 2 powi e" using pos by (simp add: power_int_add field_simps)
    then have "2 ^ 52 \<le> round_even (x / 2 powi e)" by (rule round_even_ge)
    then have r: "(of_int (2 ^ 52) :: rat) \<le> of_int (round_even (x / 2 powi e))" by (simp only: of_int_le_iff)
    have "(2 :: rat) powi 1 \<le> 2 powi e" using e by (intro power_int_increasing) auto
    then have two: "2 \<le> (2 :: rat) powi e" by simp
    have "(of_int i :: rat) \<le> of_int (2 ^ 53)" unfolding of_int_le_iff using i(2) by linarith
    also have "\<dots> = of_int (2 ^ 52) * 2" by simp
    also have "\<dots> \<le> v" unfolding v_def using r two by (intro mult_mono) auto
    finally show ?thesis .
  qed
  moreover have "rnd x = (if 2 ^ 1024 \<le> \<bar>v\<bar> then PInf else Fin v)"
    using False pos unfolding rnd_def Let_def e_def [symmetric] v_def [symmetric] by simp
  ultimately show ?thesis by (auto simp: jint_def num_le_def num_eq_def)
qed

lemma num_add_ge:
  assumes "0 \<le> d" "d < 2 ^ 53" "d \<le> i + j"
  shows "num_le (jint d) (num_add (jint i) (jint j))"
proof -
  have "(of_int d :: rat) \<le> of_int (i + j)" using assms(3) by (simp only: of_int_le_iff)
  then have "num_le (jint d) (rnd (of_int (i + j)))" using assms(1,2) by (intro rnd_ge_jint) simp_all
  then show ?thesis by (simp add: jint_def)
qed

end
