(* ===== verification/JsValue.thy ===== *)
theory JsValue
  imports JsNum
begin

text \<open>
  JavaScript values as the modelled code sees them. \<open>JFun\<close> stands for every function value, own
  or inherited; \<open>JObj\<close> is a plain object, its entries in insertion order. Property access reads
  own properties first and then the names every object inherits from \<open>Object.prototype\<close>
  (an inherited method is a function, so it never looks like missing data). The name
  \<open>__proto__\<close> is treated as an ordinary property.
\<close>

datatype jsval =
    JUndef
  | JNull
  | JBool bool
  | JNum jsnum
  | JBig int
  | JStr string
  | JArr "jsval list"
  | JObj "(string \<times> jsval) list"
  | JFun

type_synonym 'a res = "exn + 'a"

section \<open>Decimal notation\<close>

definition digit_char :: "nat \<Rightarrow> char" where
  "digit_char d = char_of (48 + d)"

fun nat_str :: "nat \<Rightarrow> string" where
  "nat_str n = (if n < 10 then [digit_char n] else nat_str (n div 10) @ [digit_char (n mod 10)])"

declare nat_str.simps [simp del]

definition int_str :: "int \<Rightarrow> string" where
  "int_str i = (if i < 0 then CHR ''-'' # nat_str (nat (- i)) else nat_str (nat i))"

definition is_digit :: "char \<Rightarrow> bool" where
  "is_digit c = (48 \<le> (of_char c :: nat) \<and> (of_char c :: nat) \<le> 57)"

definition digit_val :: "char \<Rightarrow> nat" where
  "digit_val c = of_char c - 48"

fun digits_val :: "nat \<Rightarrow> string \<Rightarrow> nat" where
  "digits_val acc [] = acc"
| "digits_val acc (c # cs) = digits_val (10 * acc + digit_val c) cs"

lemma of_digit_char: "d < 10 \<Longrightarrow> of_char (digit_char d) = (48 + d :: nat)"
  by (simp add: digit_char_def)

lemma digit_char_simps [simp]:
  "d < 10 \<Longrightarrow> is_digit (digit_char d)"
  "d < 10 \<Longrightarrow> digit_val (digit_char d) = d"
  by (simp_all add: is_digit_def digit_val_def of_digit_char)

lemma nat_str_digits: "c \<in> set (nat_str n) \<Longrightarrow> is_digit c"
proof (induction n rule: nat_str.induct)
  case (1 n)
  show ?case
  proof (cases "n < 10")
    case True
    with "1.prems" show ?thesis by (simp add: nat_str.simps [of n])
  next
    case False
    with 1 show ?thesis by (auto simp: nat_str.simps [of n])
  qed
qed

lemma nat_str_not_Nil [simp]: "nat_str n \<noteq> []"
  by (subst nat_str.simps) simp

lemma digits_val_append: "digits_val acc (xs @ ys) = digits_val (digits_val acc xs) ys"
  by (induction xs arbitrary: acc) auto

lemma digits_val_nat_str [simp]: "digits_val 0 (nat_str n) = n"
proof (induction n rule: nat_str.induct)
  case (1 n)
  then show ?case
    by (cases "n < 10") (simp_all add: nat_str.simps [of n] digits_val_append)
qed

lemma nat_str_inject: "nat_str m = nat_str n \<longleftrightarrow> m = n"
  by (metis digits_val_nat_str)

text \<open>No leading zero: the first digit of a positive number is positive.\<close>

lemma nat_str_hd_zero: "0 < n \<Longrightarrow> hd (nat_str n) \<noteq> CHR ''0''"
proof (induction n rule: nat_str.induct)
  case (1 n)
  show ?case
  proof (cases "n < 10")
    case True
    then have "of_char (digit_char n) \<noteq> (of_char (CHR ''0'') :: nat)"
      using "1.prems" by (simp add: of_digit_char)
    with True show ?thesis by (auto simp: nat_str.simps [of n])
  next
    case False
    with "1.IH" show ?thesis by (simp add: nat_str.simps [of n] hd_append)
  qed
qed

section \<open>Properties\<close>

definition object_prototype :: "string list" where
  "object_prototype =
     [''constructor'', ''hasOwnProperty'', ''isPrototypeOf'', ''propertyIsEnumerable'',
      ''toLocaleString'', ''toString'', ''valueOf'', ''__defineGetter__'', ''__defineSetter__'',
      ''__lookupGetter__'', ''__lookupSetter__'']"

definition inherited :: "string \<Rightarrow> jsval" where
  "inherited k = (if k \<in> set object_prototype then JFun else JUndef)"

text \<open>
  The code units of a string, each as its own text; a character outside the basic plane is two
  units (the encoding of a lone surrogate). Strings are compared by code units, which on UTF-8
  is the order of the bytes except that the lead bytes of the astral planes come before those
  of U+E000 to U+FFFF.
\<close>

definition utf8_bytes :: "nat \<Rightarrow> string" where
  "utf8_bytes u =
     (if u < 0x80 then [char_of u]
      else if u < 0x800 then [char_of (0xC0 + u div 0x40), char_of (0x80 + u mod 0x40)]
      else if u < 0x10000
      then [char_of (0xE0 + u div 0x1000), char_of (0x80 + u div 0x40 mod 0x40), char_of (0x80 + u mod 0x40)]
      else [char_of (0xF0 + u div 0x40000), char_of (0x80 + u div 0x1000 mod 0x40),
            char_of (0x80 + u div 0x40 mod 0x40), char_of (0x80 + u mod 0x40)])"

text \<open>The two surrogates of the character whose bytes follow.\<close>

definition surrogates :: "string \<Rightarrow> string list" where
  "surrogates cs =
     (let u = foldl (\<lambda>acc c. acc * 64 + of_char c mod 64) (of_char (hd cs) mod 8) (tl cs) - 65536 :: nat
      in [utf8_bytes (0xD800 + u div 1024), utf8_bytes (0xDC00 + u mod 1024)])"

fun units :: "string \<Rightarrow> string list" where
  "units [] = []"
| "units (c # cs) =
     (let b = (of_char c :: nat)
      in if b < 192 then [c] # units cs
         else if b < 224 then (c # take 1 cs) # units (drop 1 cs)
         else if b < 240 then (c # take 2 cs) # units (drop 2 cs)
         else surrogates (c # take 3 cs) @ units (drop 3 cs))"

definition js_length :: "string \<Rightarrow> nat" where
  "js_length s = length (units s)"

definition u16_rank :: "char \<Rightarrow> nat" where
  "u16_rank c = (let b = (of_char c :: nat)
     in if b < 238 then b else if b < 240 then b + 16 else b - 2)"

definition u16_key :: "string \<Rightarrow> nat list" where
  "u16_key s = map u16_rank s"

definition sort_u16 :: "string list \<Rightarrow> string list" where  \<comment> \<open>sorting by \<open>a < b\<close>\<close>
  "sort_u16 = sort_key u16_key"

definition arr_index :: "jsval list \<Rightarrow> string \<Rightarrow> jsval option" where
  "arr_index xs k = map_option (\<lambda>i. xs ! i) (find (\<lambda>i. nat_str i = k) [0..<length xs])"

text \<open>
  \<open>getp v k\<close> is \<open>v?.[k]\<close>, the access that yields \<open>undefined\<close> on \<open>undefined\<close> and \<open>null\<close>;
  \<open>propE v k\<close> is \<open>v[k]\<close>, which throws there.
\<close>

fun getp :: "jsval \<Rightarrow> string \<Rightarrow> jsval" where
  "getp (JObj kvs) k = (case map_of kvs k of Some v \<Rightarrow> v | None \<Rightarrow> inherited k)"
| "getp (JArr xs) k =
     (if k = ''length'' then JNum (jint (int (length xs)))
      else case arr_index xs k of Some v \<Rightarrow> v | None \<Rightarrow> inherited k)"
| "getp (JStr s) k =
     (if k = ''length'' then JNum (jint (int (js_length s)))
      else case arr_index (map JStr (units s)) k of Some v \<Rightarrow> v | None \<Rightarrow> inherited k)"
| "getp JUndef k = JUndef"
| "getp JNull k = JUndef"
| "getp _ k = inherited k"

definition propE :: "jsval \<Rightarrow> string \<Rightarrow> jsval res" where
  "propE v k = (if v = JUndef \<or> v = JNull then Inl TypeError else Inr (getp v k))"

text \<open>\<open>k in v\<close> for an object or array.\<close>

fun has_prop :: "jsval \<Rightarrow> string \<Rightarrow> bool" where
  "has_prop (JObj kvs) k = (map_of kvs k \<noteq> None \<or> k \<in> set object_prototype)"
| "has_prop (JArr xs) k = (k = ''length'' \<or> arr_index xs k \<noteq> None \<or> k \<in> set object_prototype)"
| "has_prop _ k = False"

text \<open>Own enumerable entries: \<open>Object.entries\<close>, and what a spread \<open>...v\<close> copies.\<close>

fun entries :: "jsval \<Rightarrow> (string \<times> jsval) list" where
  "entries (JObj kvs) = kvs"
| "entries (JArr xs) = map (\<lambda>i. (nat_str i, xs ! i)) [0..<length xs]"
| "entries (JStr s) = map (\<lambda>i. (nat_str i, JStr (units s ! i))) [0..<js_length s]"
| "entries _ = []"

definition obj_keys :: "jsval \<Rightarrow> string list" where
  "obj_keys v = map fst (entries v)"

text \<open>\<open>{...v, [k]: x}\<close>\<close>

definition spread_set :: "jsval \<Rightarrow> string \<Rightarrow> jsval \<Rightarrow> jsval" where
  "spread_set v k x = JObj (AList.update k x (entries v))"

definition has_own :: "jsval \<Rightarrow> string \<Rightarrow> bool" where
  "has_own v k = (k \<in> fst ` set (entries v))"

section \<open>Type tests and conversions\<close>

fun is_object :: "jsval \<Rightarrow> bool" where  \<comment> \<open>\<open>typeof v === "object" && v !== null\<close>\<close>
  "is_object (JObj _) = True"
| "is_object (JArr _) = True"
| "is_object _ = False"

fun is_array :: "jsval \<Rightarrow> bool" where
  "is_array (JArr _) = True"
| "is_array _ = False"

fun is_plain :: "jsval \<Rightarrow> bool" where  \<comment> \<open>an object that is no array\<close>
  "is_plain (JObj _) = True"
| "is_plain _ = False"

fun is_string :: "jsval \<Rightarrow> bool" where
  "is_string (JStr _) = True"
| "is_string _ = False"

fun is_bool :: "jsval \<Rightarrow> bool" where
  "is_bool (JBool _) = True"
| "is_bool _ = False"

fun is_bigint :: "jsval \<Rightarrow> bool" where
  "is_bigint (JBig _) = True"
| "is_bigint _ = False"

fun is_number :: "jsval \<Rightarrow> bool" where
  "is_number (JNum _) = True"
| "is_number _ = False"

fun v_finite :: "jsval \<Rightarrow> bool" where  \<comment> \<open>\<open>Number.isFinite\<close>\<close>
  "v_finite (JNum n) = is_finite n"
| "v_finite _ = False"

fun v_integer :: "jsval \<Rightarrow> bool" where  \<comment> \<open>\<open>Number.isInteger\<close>\<close>
  "v_integer (JNum n) = is_integer n"
| "v_integer _ = False"

fun v_safe_integer :: "jsval \<Rightarrow> bool" where  \<comment> \<open>\<open>Number.isSafeInteger\<close>\<close>
  "v_safe_integer (JNum n) = is_safe_integer n"
| "v_safe_integer _ = False"

fun truthy :: "jsval \<Rightarrow> bool" where
  "truthy JUndef = False"
| "truthy JNull = False"
| "truthy (JBool b) = b"
| "truthy (JNum n) = (\<not> is_nan n \<and> n \<noteq> jint 0)"
| "truthy (JBig i) = (i \<noteq> 0)"
| "truthy (JStr s) = (s \<noteq> [])"
| "truthy _ = True"

definition nullish :: "jsval \<Rightarrow> bool" where
  "nullish v = (v = JUndef \<or> v = JNull)"

definition coalesce :: "jsval \<Rightarrow> jsval \<Rightarrow> jsval" where  \<comment> \<open>\<open>v ?? d\<close>\<close>
  "coalesce v d = (if nullish v then d else v)"

definition has_text :: "jsval \<Rightarrow> bool" where
  "has_text v = (\<exists>s. v = JStr s \<and> s \<noteq> [])"

fun int_of :: "jsnum \<Rightarrow> int" where
  "int_of (Fin r) = \<lfloor>r\<rfloor>"
| "int_of _ = 0"

lemma int_of_jint [simp]: "int_of (jint i) = i"
  by (simp add: jint_def)

section \<open>Laws\<close>

lemma has_text_simps [simp]:
  "has_text (JStr s) \<longleftrightarrow> s \<noteq> []"
  "\<not> has_text JUndef" "\<not> has_text JNull" "\<not> has_text (JBool b)" "\<not> has_text (JNum n)"
  "\<not> has_text (JBig i)" "\<not> has_text (JArr xs)" "\<not> has_text (JObj kvs)" "\<not> has_text JFun"
  by (simp_all add: has_text_def)

lemma has_text_code [code]: "has_text v = (case v of JStr s \<Rightarrow> s \<noteq> [] | _ \<Rightarrow> False)"
  by (cases v) simp_all

lemma nullish_simps [simp]:
  "nullish JUndef" "nullish JNull" "\<not> nullish (JBool b)" "\<not> nullish (JNum n)"
  "\<not> nullish (JBig i)" "\<not> nullish (JStr s)" "\<not> nullish (JArr xs)" "\<not> nullish (JObj kvs)"
  "\<not> nullish JFun"
  by (simp_all add: nullish_def)

lemma coalesce_simps [simp]:
  "coalesce JUndef d = d" "coalesce JNull d = d" "\<not> nullish v \<Longrightarrow> coalesce v d = v"
  by (simp_all add: coalesce_def)

lemma propE_simps [simp]:
  "propE JUndef k = Inl TypeError" "propE JNull k = Inl TypeError"
  "propE (JObj kvs) k = Inr (getp (JObj kvs) k)"
  "propE (JArr xs) k = Inr (getp (JArr xs) k)"
  by (simp_all add: propE_def)

lemma propE_object: "is_object v \<Longrightarrow> propE v k = Inr (getp v k)"
  by (cases v) simp_all

lemma propE_InrD: "propE v k = Inr w \<Longrightarrow> w = getp v k"
  by (simp add: propE_def split: if_splits)

lemma is_plainE:
  assumes "is_plain v" obtains kvs where "v = JObj kvs"
  using assms by (cases v) auto

lemma is_plain_object: "is_plain v \<Longrightarrow> is_object v"
  by (cases v) auto

lemma getp_update [simp, merge_simps]:
  "getp (JObj (AList.update k v kvs)) k' = (if k' = k then v else getp (JObj kvs) k')"
  by simp

lemma getp_spread_set [merge_simps]:
  "is_plain v \<Longrightarrow> getp (spread_set v k x) k' = (if k' = k then x else getp v k')"
  by (cases v) (simp_all add: spread_set_def)

lemma getp_spread_set_same [simp]: "getp (spread_set v k x) k = x"
  by (simp add: spread_set_def)

lemma is_plain_spread_set [simp]: "is_plain (spread_set v k x)"
  by (simp add: spread_set_def)

lemma v_safe_integerE:
  assumes "v_safe_integer v"
  obtains i where "v = JNum (jint i)" "\<bar>i\<bar> \<le> max_safe"
  using assms by (cases v) (auto simp: is_safe_integer_jint)

lemma v_integerE:
  assumes "v_integer v"
  obtains i where "v = JNum (jint i)"
  using assms by (cases v) (auto simp: is_integer_jint)

lemma v_finite_number: "v_finite v \<Longrightarrow> \<exists>r. v = JNum (Fin r)"
  by (cases v; auto elim: is_finite.elims)

end
