(* ===== verification/JsonText.thy ===== *)
theory JsonText
  imports JsValue
begin

text \<open>
  The parts of the JavaScript standard library that read and write text: the string escapes of
  \<open>JSON.stringify\<close>, \<open>JSON.parse\<close>, and the number coercions (\<open>ToNumber\<close>) behind \<open><\<close> and \<open>-\<close> on
  values whose type the code has not checked. The parser is a recursive descent over the text;
  every call spends one unit of fuel, and \<open>parse_enough\<close> shows that twice the length of the text
  is always enough, so \<open>None\<close> means a syntax error and nothing else.
\<close>

section \<open>Strings\<close>

abbreviation "c_quote \<equiv> CHR 0x22"
abbreviation "c_backslash \<equiv> CHR 0x5C"

definition hex_char :: "nat \<Rightarrow> char" where
  "hex_char d = (if d < 10 then char_of (48 + d) else char_of (87 + d))"

definition esc_char :: "char \<Rightarrow> string" where
  "esc_char c =
     (if c = c_quote then [c_backslash, c_quote]
      else if c = c_backslash then [c_backslash, c_backslash]
      else if c = CHR 0x08 then [c_backslash, CHR ''b'']
      else if c = CHR 0x0C then [c_backslash, CHR ''f'']
      else if c = CHR 0x0A then [c_backslash, CHR ''n'']
      else if c = CHR 0x0D then [c_backslash, CHR ''r'']
      else if c = CHR 0x09 then [c_backslash, CHR ''t'']
      else if (of_char c :: nat) < 32
      then [c_backslash, CHR ''u'', CHR ''0'', CHR ''0'', hex_char (of_char c div 16), hex_char (of_char c mod 16)]
      else [c])"

definition json_str :: "string \<Rightarrow> string" where
  "json_str s = c_quote # concat (map esc_char s) @ [c_quote]"

definition hex_val :: "char \<Rightarrow> nat option" where
  "hex_val c =
     (let b = of_char c :: nat
      in if 48 \<le> b \<and> b \<le> 57 then Some (b - 48)
         else if 97 \<le> b \<and> b \<le> 102 then Some (b - 87)
         else if 65 \<le> b \<and> b \<le> 70 then Some (b - 55) else None)"

fun hex4 :: "string \<Rightarrow> (nat \<times> string) option" where
  "hex4 (a # b # c # d # r) =
     (case (hex_val a, hex_val b, hex_val c, hex_val d) of
        (Some a, Some b, Some c, Some d) \<Rightarrow> Some (((a * 16 + b) * 16 + c) * 16 + d, r)
      | _ \<Rightarrow> None)"
| "hex4 _ = None"

text \<open>\<open>\u\<close> escapes, the second half of a surrogate pair included.\<close>

definition unicode_escape :: "string \<Rightarrow> (string \<times> string) option" where
  "unicode_escape s =
     (case hex4 s of None \<Rightarrow> None
      | Some (u, r) \<Rightarrow>
          if 0xD800 \<le> u \<and> u < 0xDC00 \<and> take 2 r = [c_backslash, CHR ''u''] then
            (case hex4 (drop 2 r) of
               Some (l, r') \<Rightarrow>
                 if 0xDC00 \<le> l \<and> l < 0xE000
                 then Some (utf8_bytes (0x10000 + (u - 0xD800) * 0x400 + (l - 0xDC00)), r')
                 else Some (utf8_bytes u, r)
             | None \<Rightarrow> None)
          else Some (utf8_bytes u, r))"

fun escape :: "string \<Rightarrow> (string \<times> string) option" where
  "escape [] = None"
| "escape (c # cs) =
     (if c = c_quote \<or> c = c_backslash \<or> c = CHR ''/'' then Some ([c], cs)
      else if c = CHR ''b'' then Some ([CHR 0x08], cs)
      else if c = CHR ''f'' then Some ([CHR 0x0C], cs)
      else if c = CHR ''n'' then Some ([CHR 0x0A], cs)
      else if c = CHR ''r'' then Some ([CHR 0x0D], cs)
      else if c = CHR ''t'' then Some ([CHR 0x09], cs)
      else if c = CHR ''u'' then unicode_escape cs
      else None)"

lemma hex4_length: "hex4 s = Some (u, r) \<Longrightarrow> length r < length s"
  by (induction s rule: hex4.induct) (auto split: option.splits)

lemma unicode_escape_length: "unicode_escape s = Some (b, r) \<Longrightarrow> length r < length s"
  by (auto simp: unicode_escape_def split: option.splits if_splits dest!: hex4_length)

lemma escape_length: "escape s = Some (b, r) \<Longrightarrow> length r < length s"
  by (cases s) (auto split: if_splits dest!: unicode_escape_length)

text \<open>The characters of a string up to its closing quote.\<close>

function p_chars :: "string \<Rightarrow> (string \<times> string) option" where
  "p_chars s =
     (case s of [] \<Rightarrow> None
      | c # cs \<Rightarrow>
          if c = c_quote then Some ([], cs)
          else if c = c_backslash then
            (case escape cs of None \<Rightarrow> None
             | Some (b, r) \<Rightarrow> map_option (\<lambda>(t, r'). (b @ t, r')) (p_chars r))
          else if (of_char c :: nat) < 32 then None
          else map_option (\<lambda>(t, r'). (c # t, r')) (p_chars cs))"
  by pat_completeness auto
termination
  by (relation "measure length") (auto dest: escape_length)

declare p_chars.simps [simp del]

lemma p_chars_length: "p_chars s = Some (t, r) \<Longrightarrow> length r < length s"
proof (induction s arbitrary: t r rule: p_chars.induct)
  case (1 s)
  then show ?case
    by (subst (asm) (3) p_chars.simps)
      (fastforce split: list.splits if_splits option.splits dest: escape_length)
qed

section \<open>Numbers\<close>

definition scan_frac :: "string \<Rightarrow> (string \<times> string) option" where
  "scan_frac s =
     (if s \<noteq> [] \<and> hd s = CHR ''.'' then
        (let ds = takeWhile is_digit (tl s)
         in if ds = [] then None else Some (ds, dropWhile is_digit (tl s)))
      else Some ([], s))"

definition scan_exp :: "string \<Rightarrow> (int \<times> string) option" where
  "scan_exp s =
     (if s \<noteq> [] \<and> (hd s = CHR ''e'' \<or> hd s = CHR ''E'') then
        (let t = tl s;
             neg = (t \<noteq> [] \<and> hd t = CHR ''-'');
             u = (if t \<noteq> [] \<and> (hd t = CHR ''-'' \<or> hd t = CHR ''+'') then tl t else t);
             ds = takeWhile is_digit u
         in if ds = [] then None
            else Some ((if neg then - int (digits_val 0 ds) else int (digits_val 0 ds)),
                       dropWhile is_digit u))
      else Some (0, s))"

definition dec_num :: "bool \<Rightarrow> string \<Rightarrow> string \<Rightarrow> int \<Rightarrow> jsnum" where
  "dec_num neg ip fp e =
     rnd ((if neg then - 1 else 1) * of_nat (digits_val 0 (ip @ fp)) * 10 powi (e - int (length fp)))"

definition scan_number :: "string \<Rightarrow> (jsnum \<times> string) option" where
  "scan_number s =
     (let neg = (s \<noteq> [] \<and> hd s = CHR ''-'');
          s1 = (if neg then tl s else s);
          ip = takeWhile is_digit s1
      in if ip = [] \<or> (1 < length ip \<and> hd ip = CHR ''0'') then None
         else case scan_frac (dropWhile is_digit s1) of None \<Rightarrow> None
         | Some (fp, s2) \<Rightarrow>
             (case scan_exp s2 of None \<Rightarrow> None
              | Some (e, s3) \<Rightarrow> Some (dec_num neg ip fp e, s3)))"

lemma dropWhile_length_le: "length (dropWhile P s) \<le> length s"
  by (induction s) auto

lemma scan_number_length: "scan_number s = Some (n, r) \<Longrightarrow> length r < length s"
proof -
  assume a: "scan_number s = Some (n, r)"
  define s1 where "s1 = (if s \<noteq> [] \<and> hd s = CHR ''-'' then tl s else s)"
  from a obtain fp s2 e where ip: "takeWhile is_digit s1 \<noteq> []"
    and f: "scan_frac (dropWhile is_digit s1) = Some (fp, s2)"
    and x: "scan_exp s2 = Some (e, r)"
    by (auto simp: scan_number_def Let_def s1_def split: if_splits option.splits)
  have "length (takeWhile is_digit s1) + length (dropWhile is_digit s1) = length s1"
    by (metis length_append takeWhile_dropWhile_id)
  then have 1: "length (dropWhile is_digit s1) < length s1"
    using ip by (cases "takeWhile is_digit s1") auto
  have 2: "length s2 \<le> length (dropWhile is_digit s1)"
    using f dropWhile_length_le [of is_digit "tl (dropWhile is_digit s1)"]
    by (auto simp: scan_frac_def Let_def split: if_splits)
  have 3: "length r \<le> length s2"
    using x dropWhile_length_le [of is_digit "tl s2"] dropWhile_length_le [of is_digit "tl (tl s2)"]
    by (auto simp: scan_exp_def Let_def split: if_splits)
  have "length s1 \<le> length s" by (simp add: s1_def)
  with 1 2 3 show ?thesis by linarith
qed

section \<open>\<open>JSON.parse\<close>\<close>

definition is_ws :: "char \<Rightarrow> bool" where
  "is_ws c = (c = CHR '' '' \<or> c = CHR 0x09 \<or> c = CHR 0x0A \<or> c = CHR 0x0D)"

abbreviation "skip_ws \<equiv> dropWhile is_ws"

definition build_object :: "(string \<times> jsval) list \<Rightarrow> (string \<times> jsval) list" where
  "build_object ms = foldl (\<lambda>acc (k, v). AList.update k v acc) [] ms"

definition p_literal :: "string \<Rightarrow> (jsval \<times> string) option" where
  "p_literal s =
     (if take 4 s = ''true'' then Some (JBool True, drop 4 s)
      else if take 5 s = ''false'' then Some (JBool False, drop 5 s)
      else if take 4 s = ''null'' then Some (JNull, drop 4 s)
      else map_option (\<lambda>(n, r). (JNum n, r)) (scan_number s))"

definition expect :: "char \<Rightarrow> string \<Rightarrow> string option" where
  "expect c s = (case skip_ws s of [] \<Rightarrow> None | d # ds \<Rightarrow> if d = c then Some ds else None)"

text \<open>A key and its colon.\<close>

definition p_key :: "string \<Rightarrow> (string \<times> string) option" where
  "p_key s =
     Option.bind (expect c_quote s) (\<lambda>qs.
     Option.bind (p_chars qs) (\<lambda>(k, r). map_option (\<lambda>ds. (k, ds)) (expect CHR 0x3A r)))"

fun p_val :: "nat \<Rightarrow> string \<Rightarrow> (jsval \<times> string) option"
  and p_elems :: "nat \<Rightarrow> string \<Rightarrow> (jsval list \<times> string) option"
  and p_members :: "nat \<Rightarrow> string \<Rightarrow> ((string \<times> jsval) list \<times> string) option" where
  "p_val 0 s = None"
| "p_val (Suc f) s =
     (case skip_ws s of [] \<Rightarrow> None
      | c # cs \<Rightarrow>
          if c = CHR 0x7B then
            (if skip_ws cs \<noteq> [] \<and> hd (skip_ws cs) = CHR 0x7D then Some (JObj [], tl (skip_ws cs))
             else map_option (\<lambda>(ms, r). (JObj (build_object ms), r)) (p_members f cs))
          else if c = CHR 0x5B then
            (if skip_ws cs \<noteq> [] \<and> hd (skip_ws cs) = CHR 0x5D then Some (JArr [], tl (skip_ws cs))
             else map_option (\<lambda>(vs, r). (JArr vs, r)) (p_elems f cs))
          else if c = c_quote then map_option (\<lambda>(t, r). (JStr t, r)) (p_chars cs)
          else p_literal (c # cs))"
| "p_elems 0 s = None"
| "p_elems (Suc f) s =
     (case p_val f s of None \<Rightarrow> None
      | Some (v, r) \<Rightarrow>
          (case skip_ws r of [] \<Rightarrow> None
           | c # cs \<Rightarrow>
               if c = CHR 0x2C then map_option (\<lambda>(vs, r'). (v # vs, r')) (p_elems f cs)
               else if c = CHR 0x5D then Some ([v], cs) else None))"
| "p_members 0 s = None"
| "p_members (Suc f) s =
     (case p_key s of None \<Rightarrow> None
      | Some (k, ds) \<Rightarrow>
          (case p_val f ds of None \<Rightarrow> None
           | Some (v, r) \<Rightarrow>
               (case skip_ws r of [] \<Rightarrow> None
                | c # cs \<Rightarrow>
                    if c = CHR 0x2C then map_option (\<lambda>(ms, r'). ((k, v) # ms, r')) (p_members f cs)
                    else if c = CHR 0x7D then Some ([(k, v)], cs) else None)))"

definition syntax_error :: exn where
  "syntax_error = Thrown ''SyntaxError''"

definition json_parse :: "string \<Rightarrow> jsval res" where
  "json_parse s =
     (case p_val (2 * length s + 2) s of None \<Rightarrow> Inl syntax_error
      | Some (v, r) \<Rightarrow> if skip_ws r = [] then Inr v else Inl syntax_error)"

subsection \<open>The fuel is enough\<close>

lemma skip_ws_length: "skip_ws s = c # cs \<Longrightarrow> length cs < length s"
  using dropWhile_length_le [of is_ws s] by simp

lemma skip_ws_tl_length: "skip_ws s \<noteq> [] \<Longrightarrow> length (tl (skip_ws s)) < length s"
  by (cases "skip_ws s") (auto dest: skip_ws_length)

lemma expect_length: "expect c s = Some ds \<Longrightarrow> length ds < length s"
  by (auto simp: expect_def split: list.splits if_splits dest: skip_ws_length)

lemma p_key_length: "p_key s = Some (k, ds) \<Longrightarrow> length ds < length s"
  by (fastforce simp: p_key_def Option.bind_eq_Some_conv dest: expect_length p_chars_length)

lemma p_literal_length: "p_literal s = Some (v, r) \<Longrightarrow> length r < length s"
proof (cases "s = []")
  case True
  then show "p_literal s = Some (v, r) \<Longrightarrow> length r < length s"
    by (simp add: p_literal_def scan_number_def)
next
  case False
  then show "p_literal s = Some (v, r) \<Longrightarrow> length r < length s"
    by (auto simp: p_literal_def split: if_splits dest: scan_number_length)
qed

lemma parse_consumes:
  "p_val f s = Some (v, r) \<Longrightarrow> length r < length s"
  "p_elems f s = Some (vs, r) \<Longrightarrow> length r < length s"
  "p_members f s = Some (ms, r) \<Longrightarrow> length r < length s"
proof (induction f s and f s and f s arbitrary: v r and vs r and ms r
    rule: p_val_p_elems_p_members.induct)
  case (2 f s)
  obtain c cs where s: "skip_ws s = c # cs"
    using "2.prems" by (auto split: list.splits)
  have "length r \<le> length cs"
    using "2.prems" s "2.IH" [OF s] skip_ws_tl_length [of cs] p_literal_length [of "c # cs" v r]
    by (auto split: if_splits dest!: p_chars_length)
  with skip_ws_length [OF s] show ?case by simp
next
  case (4 f s)
  then obtain v r0 where v: "p_val f s = Some (v, r0)"
    by (auto split: option.splits)
  have 0: "length r0 < length s" by (rule "4.IH"(1) [OF v])
  obtain c cs where r0: "skip_ws r0 = c # cs"
    using "4.prems" v by (auto split: list.splits)
  have "length r \<le> length cs"
    using "4.prems" v r0 "4.IH"(2) [OF v refl r0] by (auto split: if_splits)
  with 0 skip_ws_length [OF r0] show ?case by simp
next
  case (6 f s)
  then obtain k ds where k: "p_key s = Some (k, ds)" by (auto split: option.splits)
  with "6.prems" obtain v r0 where v: "p_val f ds = Some (v, r0)" by (auto split: option.splits)
  with "6.prems" k obtain c cs where r0: "skip_ws r0 = c # cs" by (auto split: list.splits)
  have "length r0 < length ds" by (rule "6.IH"(1) [OF k refl v])
  moreover have "length r \<le> length cs"
    using "6.prems" k v r0 "6.IH"(2) [OF k refl v refl r0] by (auto split: if_splits)
  ultimately show ?case
    using p_key_length [OF k] skip_ws_length [OF r0] by simp
qed auto

lemma parse_enough:
  "2 * length s < f \<Longrightarrow> 2 * length s < g \<Longrightarrow> p_val f s = p_val g s"
  "2 * length s + 1 < f \<Longrightarrow> 2 * length s + 1 < g \<Longrightarrow> p_elems f s = p_elems g s"
  "2 * length s + 1 < f \<Longrightarrow> 2 * length s + 1 < g \<Longrightarrow> p_members f s = p_members g s"
proof (induction f s and f s and f s arbitrary: g and g and g
    rule: p_val_p_elems_p_members.induct)
  case (2 f s)
  obtain g' where g: "g = Suc g'" using "2.prems"(2) by (cases g) auto
  show ?case
  proof (cases "skip_ws s")
    case Nil
    show ?thesis unfolding g p_val.simps Nil by simp
  next
    case (Cons c cs)
    then have "length cs < length s" by (rule skip_ws_length)
    then have "2 * length cs + 1 < f" "2 * length cs + 1 < g'"
      using "2.prems" g by simp_all
    then show ?thesis
      using "2.IH"(1,2) [OF Cons, of g'] Cons by (auto simp: g)
  qed
next
  case (4 f s)
  obtain g' where g: "g = Suc g'" using "4.prems"(2) by (cases g) auto
  have v: "p_val f s = p_val g' s"
    using "4.prems" g by (intro "4.IH"(1)) simp_all
  show ?case
  proof (cases "p_val f s")
    case None
    then show ?thesis using v by (simp add: g)
  next
    case (Some vr)
    then obtain x r where x: "p_val f s = Some (x, r)" by (cases vr) auto
    show ?thesis
    proof (cases "skip_ws r")
      case Nil
      show ?thesis unfolding g p_elems.simps v [symmetric] x option.case prod.case Nil by simp
    next
      case (Cons c cs)
      have "length cs < length s"
        using skip_ws_length [OF Cons] parse_consumes(1) [OF x] by simp
      then have "2 * length cs + 1 < f" "2 * length cs + 1 < g'"
        using "4.prems" g by simp_all
      then show ?thesis
        using "4.IH"(2) [OF x refl Cons, of g'] x v Cons by (auto simp: g)
    qed
  qed
next
  case (6 f s)
  obtain g' where g: "g = Suc g'" using "6.prems"(2) by (cases g) auto
  show ?case
  proof (cases "p_key s")
    case (Some kd)
    then obtain k ds where k: "p_key s = Some (k, ds)" by (cases kd) auto
    then have v: "p_val f ds = p_val g' ds"
      using "6.prems" g by (intro "6.IH"(1) [OF k refl]) (auto dest: p_key_length)
    show ?thesis
    proof (cases "p_val f ds")
      case (Some vr)
      then obtain x r where x: "p_val f ds = Some (x, r)" by (cases vr) auto
      show ?thesis
      proof (cases "skip_ws r")
        case Nil
        show ?thesis unfolding g p_members.simps k option.case prod.case v [symmetric] x Nil by simp
      next
        case (Cons c cs)
        have "length cs < length s"
          using p_key_length [OF k] parse_consumes(1) [OF x] skip_ws_length [OF Cons] by simp
        then have "2 * length cs + 1 < f" "2 * length cs + 1 < g'"
          using "6.prems" g by simp_all
        then show ?thesis
          using "6.IH"(2) [OF k refl x refl Cons, of g'] k x v Cons by (auto simp: g)
      qed
    qed (use k v in \<open>simp add: g\<close>)
  qed (simp add: g)
qed auto

lemma p_val_fuel: "2 * length s < f \<Longrightarrow> p_val f s = p_val (2 * length s + 2) s"
  by (rule parse_enough) simp_all

end
