(* ===== verification/Host.thy ===== *)
theory Host
  imports JsonText
begin

text \<open>
  What the code takes from its platform. The coercions behind \<open><\<close>, \<open>-\<close> and \<open>String(_)\<close>, base64
  and UTF-8 decoding are written out. What cannot be written out is a field of the record \<open>host\<close>,
  an argument of every definition that uses it: Unicode normalisation, SHA-256 and HMAC, the
  Ed25519 primitives of \<open>node:crypto\<close>, and the decimal form of a number that is no moderate
  integer. The documented behaviour the theorems rely on is stated by the predicates \<open>nfc_ok\<close>,
  \<open>hex_digests\<close> and \<open>ed25519_ok\<close>; none of them says that digests never collide.
\<close>

section \<open>Coercions\<close>

definition is_blank :: "char \<Rightarrow> bool" where
  "is_blank c = (c = CHR '' '' \<or> (9 \<le> (of_char c :: nat) \<and> (of_char c :: nat) \<le> 13))"

definition trim :: "string \<Rightarrow> string" where
  "trim s = rev (dropWhile is_blank (rev (dropWhile is_blank s)))"

definition str_decimal :: "string \<Rightarrow> jsnum" where
  "str_decimal s =
     (let neg = (s \<noteq> [] \<and> hd s = CHR ''-'');
          s1 = (if s \<noteq> [] \<and> (hd s = CHR ''-'' \<or> hd s = CHR ''+'') then tl s else s);
          ip = takeWhile is_digit s1; s2 = dropWhile is_digit s1;
          dot = (s2 \<noteq> [] \<and> hd s2 = CHR ''.'');
          fp = (if dot then takeWhile is_digit (tl s2) else []);
          s3 = (if dot then dropWhile is_digit (tl s2) else s2)
      in if s1 = ''Infinity'' then (if neg then NInf else PInf)
         else if ip = [] \<and> fp = [] then NaN
         else case scan_exp s3 of Some (e, []) \<Rightarrow> dec_num neg ip fp e | _ \<Rightarrow> NaN)"

definition str_radix :: "nat \<Rightarrow> string \<Rightarrow> jsnum" where
  "str_radix b s =
     (if s \<noteq> [] \<and> list_all (\<lambda>c. case hex_val c of Some d \<Rightarrow> d < b | None \<Rightarrow> False) s
      then rnd (of_nat (foldl (\<lambda>acc c. acc * b + the (hex_val c)) 0 s)) else NaN)"

definition str_to_num :: "string \<Rightarrow> jsnum" where
  "str_to_num s =
     (let t = trim s
      in if t = [] then jint 0
         else if take 2 t \<in> {''0x'', ''0X''} then str_radix 16 (drop 2 t)
         else if take 2 t \<in> {''0o'', ''0O''} then str_radix 8 (drop 2 t)
         else if take 2 t \<in> {''0b'', ''0B''} then str_radix 2 (drop 2 t)
         else str_decimal t)"

text \<open>
  The number a value is compared as when the other side is a number. A bigint compares by its
  exact value; an object or a longer array converts to text that is no number.
\<close>

fun to_number :: "jsval \<Rightarrow> jsnum" where
  "to_number JNull = jint 0"
| "to_number (JBool b) = jint (if b then 1 else 0)"
| "to_number (JNum n) = n"
| "to_number (JBig i) = jint i"
| "to_number (JStr s) = str_to_num s"
| "to_number (JArr []) = jint 0"
| "to_number (JArr [JNull]) = jint 0"
| "to_number (JArr [JUndef]) = jint 0"
| "to_number (JArr [JBool b]) = NaN"
| "to_number (JArr [JBig i]) = rnd (of_int i)"
| "to_number (JArr [v]) = to_number v"
| "to_number _ = NaN"

definition sub_num :: "jsval \<Rightarrow> jsnum \<Rightarrow> jsnum res" where  \<comment> \<open>\<open>v - n\<close>; a bigint does not mix\<close>
  "sub_num v n = (if is_bigint v then Inl TypeError else Inr (num_sub (to_number v) n))"

text \<open>\<open>a < b\<close> and \<open>a <= b\<close>: two strings compare as text, everything else as numbers.\<close>

definition js_lt :: "jsval \<Rightarrow> jsval \<Rightarrow> bool" where
  "js_lt a b =
     (case (a, b) of (JStr s, JStr t) \<Rightarrow> u16_key s < u16_key t
      | _ \<Rightarrow> num_lt (to_number a) (to_number b))"

definition js_le :: "jsval \<Rightarrow> jsval \<Rightarrow> bool" where
  "js_le a b =
     (case (a, b) of (JStr s, JStr t) \<Rightarrow> u16_key s \<le> u16_key t
      | _ \<Rightarrow> num_le (to_number a) (to_number b))"

lemma js_lt_nums [simp]:
  "js_lt (JNum a) (JNum b) = num_lt a b"
  "js_lt (JBig i) (JBig j) = (i < j)"
  by (simp_all add: js_lt_def)

lemma js_le_nums [simp]:
  "js_le (JNum a) (JNum b) = num_le a b"
  "js_le (JBig i) (JBig j) = (i \<le> j)"
  by (simp_all add: js_le_def)

text \<open>\<open>s.includes(t)\<close>\<close>

definition contains_sub :: "string \<Rightarrow> string \<Rightarrow> bool" where
  "contains_sub s t = list_ex (\<lambda>n. take (length t) (drop n s) = t) [0..<length s + 1]"

section \<open>Platform parameters\<close>

record host =
  nfc :: "string \<Rightarrow> string"
  fmt_num :: "rat \<Rightarrow> string"
  sha256 :: "string \<Rightarrow> string"
  hmac_sha256 :: "string \<Rightarrow> string \<Rightarrow> string"
  wire_key :: "string \<Rightarrow> string option res"
  ed_verify :: "string \<Rightarrow> string \<Rightarrow> string \<Rightarrow> bool res"
  ed_sign :: "string \<Rightarrow> string \<Rightarrow> string res"

text \<open>
  \<open>wire_key h pem\<close> is \<open>createPublicKey\<close> followed by the JWK export: it throws on text that is no
  key and yields the 32-byte encoding in hex for an Ed25519 key, \<open>None\<close> for another key type.
  \<open>ed_verify h pem msg sig\<close> and \<open>ed_sign h pem msg\<close> are \<open>crypto.verify\<close> and \<open>crypto.sign\<close>.
\<close>

definition is_ascii :: "string \<Rightarrow> bool" where
  "is_ascii s = (\<forall>c \<in> set s. (of_char c :: nat) < 128)"

definition nfc_ok :: "host \<Rightarrow> bool" where
  "nfc_ok h = ((\<forall>s. nfc h (nfc h s) = nfc h s) \<and> (\<forall>s. is_ascii s \<longrightarrow> nfc h s = s))"

definition is_lower_hex :: "char \<Rightarrow> bool" where
  "is_lower_hex c = (is_digit c \<or> (97 \<le> (of_char c :: nat) \<and> (of_char c :: nat) \<le> 102))"

definition hex_digests :: "host \<Rightarrow> bool" where
  "hex_digests h =
     ((\<forall>s. length (sha256 h s) = 64 \<and> list_all is_lower_hex (sha256 h s)) \<and>
      (\<forall>k s. length (hmac_sha256 h k s) = 64 \<and> list_all is_lower_hex (hmac_sha256 h k s)))"

text \<open>The key pair \<open>(sk, pk)\<close> works: signatures are 64 bytes and verify under \<open>pk\<close>.\<close>

definition ed25519_ok :: "host \<Rightarrow> string \<Rightarrow> string \<Rightarrow> bool" where
  "ed25519_ok h sk pk =
     (\<forall>msg. \<exists>sig. ed_sign h sk msg = Inr sig \<and> length sig = 64 \<and> ed_verify h pk msg sig = Inr True)"

lemma nfc_idem: "nfc_ok h \<Longrightarrow> nfc h (nfc h s) = nfc h s"
  by (simp add: nfc_ok_def)

lemma nfc_ascii: "nfc_ok h \<Longrightarrow> is_ascii s \<Longrightarrow> nfc h s = s"
  by (simp add: nfc_ok_def)

lemma is_ascii_append [simp]: "is_ascii (xs @ ys) \<longleftrightarrow> is_ascii xs \<and> is_ascii ys"
  by (auto simp: is_ascii_def)

lemma is_ascii_Nil [simp]: "is_ascii []"
  by (simp add: is_ascii_def)

lemma is_ascii_Cons: "is_ascii (c # cs) \<longleftrightarrow> (of_char c :: nat) < 128 \<and> is_ascii cs"
  by (auto simp: is_ascii_def)

lemma is_digit_ascii: "is_digit c \<Longrightarrow> (of_char c :: nat) < 128"
  by (simp add: is_digit_def)

lemma nat_str_ascii [simp]: "is_ascii (nat_str n)"
  by (auto simp: is_ascii_def dest!: nat_str_digits is_digit_ascii)

lemma int_str_ascii [simp]: "is_ascii (int_str i)"
  by (simp add: int_str_def is_ascii_Cons)

text \<open>\<open>String(v)\<close>\<close>

fun js_string :: "host \<Rightarrow> jsval \<Rightarrow> string" where
  "js_string h JUndef = ''undefined''"
| "js_string h JNull = ''null''"
| "js_string h (JBool b) = (if b then ''true'' else ''false'')"
| "js_string h (JNum NaN) = ''NaN''"
| "js_string h (JNum PInf) = ''Infinity''"
| "js_string h (JNum NInf) = ''-Infinity''"
| "js_string h (JNum (Fin r)) =
     (if of_int \<lfloor>r\<rfloor> = r \<and> \<bar>\<lfloor>r\<rfloor>\<bar> < 10 ^ 21 then int_str \<lfloor>r\<rfloor> else fmt_num h r)"
| "js_string h (JBig i) = int_str i"
| "js_string h (JStr s) = s"
| "js_string h (JArr xs) =
     (case map (\<lambda>v. if nullish v then [] else js_string h v) xs of
        [] \<Rightarrow> [] | t # ts \<Rightarrow> t @ concat (map (\<lambda>u. CHR '','' # u) ts))"
| "js_string h (JObj kvs) = ''[object Object]''"
| "js_string h JFun = ''[function]''"

section \<open>Base64\<close>

definition b64_alphabet :: string where
  "b64_alphabet = ''ABCDEFGHIJKLMNOPQRSTUVWXYZabcdefghijklmnopqrstuvwxyz0123456789+/''"

definition b64url_alphabet :: string where
  "b64url_alphabet = ''ABCDEFGHIJKLMNOPQRSTUVWXYZabcdefghijklmnopqrstuvwxyz0123456789-_''"

text \<open>\<open>Buffer.toString("base64")\<close> (padded) and \<open>toString("base64url")\<close> (unpadded).\<close>

fun b64_encode :: "string \<Rightarrow> bool \<Rightarrow> string \<Rightarrow> string" where
  "b64_encode al pad [] = []"
| "b64_encode al pad [a] =
     (let x = of_char a :: nat
      in [al ! (x div 4), al ! (x mod 4 * 16)] @ (if pad then ''=='' else []))"
| "b64_encode al pad [a, b] =
     (let x = of_char a :: nat; y = of_char b
      in [al ! (x div 4), al ! (x mod 4 * 16 + y div 16), al ! (y mod 16 * 4)]
         @ (if pad then ''='' else []))"
| "b64_encode al pad (a # b # c # r) =
     (let x = of_char a :: nat; y = of_char b; z = of_char c
      in [al ! (x div 4), al ! (x mod 4 * 16 + y div 16), al ! (y mod 16 * 4 + z div 64), al ! (z mod 64)]
         @ b64_encode al pad r)"

definition b64_val :: "char \<Rightarrow> nat option" where
  "b64_val c =
     (case find (\<lambda>i. b64_alphabet ! i = c) [0..<64] of
        Some i \<Rightarrow> Some i
      | None \<Rightarrow> if c = CHR ''-'' then Some 62 else if c = CHR ''_'' then Some 63 else None)"

text \<open>
  \<open>Buffer.from(s, "base64")\<close>: both alphabets are read, other characters are skipped, \<open>=\<close> ends the
  text and left-over bits are dropped.
\<close>

fun sextets_bytes :: "nat list \<Rightarrow> string" where
  "sextets_bytes (a # b # c # d # r) =
     [char_of (a * 4 + b div 16), char_of (b mod 16 * 16 + c div 4), char_of (c mod 4 * 64 + d)]
     @ sextets_bytes r"
| "sextets_bytes [a, b, c] = [char_of (a * 4 + b div 16), char_of (b mod 16 * 16 + c div 4)]"
| "sextets_bytes [a, b] = [char_of (a * 4 + b div 16)]"
| "sextets_bytes _ = []"

definition b64_decode :: "string \<Rightarrow> string" where
  "b64_decode s =
     sextets_bytes (List.map_filter b64_val (takeWhile (\<lambda>c. c \<noteq> CHR ''='') s))"

definition to_base64 :: "string \<Rightarrow> string" where
  "to_base64 = b64_encode b64_alphabet True"

definition to_base64url :: "string \<Rightarrow> string" where
  "to_base64url = b64_encode b64url_alphabet False"

text \<open>\<open>TextDecoder\<close>: the bytes themselves, without a leading byte order mark.\<close>

definition text_decode :: "string \<Rightarrow> string" where
  "text_decode bs = (if take 3 bs = [CHR 0xEF, CHR 0xBB, CHR 0xBF] then drop 3 bs else bs)"

subsection \<open>Decoding undoes encoding\<close>

lemma b64_alphabet_facts:
  "list_all (\<lambda>i. b64_val (b64_alphabet ! i) = Some i \<and> b64_alphabet ! i \<noteq> CHR ''='') [0..<64]"
  by code_simp

lemma b64_val_alphabet [simp]:
  assumes "i < 64"
  shows "b64_val (b64_alphabet ! i) = Some i" "b64_alphabet ! i \<noteq> CHR ''=''"
  using b64_alphabet_facts assms by (simp_all add: list_all_iff)

lemma byte_parts:
  fixes a b c :: char
  defines "x \<equiv> of_char a :: nat" and "y \<equiv> of_char b :: nat" and "z \<equiv> of_char c :: nat"
  shows "x div 4 < 64" "x mod 4 * 16 < 64" "x mod 4 * 16 + y div 16 < 64" "y mod 16 * 4 < 64"
    "y mod 16 * 4 + z div 64 < 64"
    "y div 16 div 16 = 0" "y div 16 mod 16 = y div 16" "z div 64 div 4 = 0" "z div 64 mod 4 = z div 64"
proof -
  have "x < 256" "y < 256" "z < 256" by (simp_all add: x_def y_def z_def)
  then have "y div 16 < 16" "z div 64 < 4" "x mod 4 < 4" "y mod 16 < 16" "x div 4 < 64"
    by auto
  then show "x div 4 < 64" "x mod 4 * 16 < 64" "x mod 4 * 16 + y div 16 < 64" "y mod 16 * 4 < 64"
    "y mod 16 * 4 + z div 64 < 64"
    "y div 16 div 16 = 0" "y div 16 mod 16 = y div 16" "z div 64 div 4 = 0" "z div 64 mod 4 = z div 64"
    by simp_all
qed

lemma induct_list3 [case_names Nil one two three]:
  "P [] \<Longrightarrow> (\<And>a. P [a]) \<Longrightarrow> (\<And>a b. P [a, b]) \<Longrightarrow> (\<And>a b c r. P r \<Longrightarrow> P (a # b # c # r)) \<Longrightarrow> P xs"
proof (induction "length xs" arbitrary: xs rule: less_induct)
  case less
  show ?case
  proof (cases xs rule: remdups_adj.cases)
    case (3 a b r)
    then show ?thesis using less by (cases r) auto
  qed (use less in auto)
qed

lemma b64_decode_encode [simp]: "b64_decode (to_base64 bs) = bs"
proof -
  have "sextets_bytes (List.map_filter b64_val
          (takeWhile (\<lambda>c. c \<noteq> CHR ''='') (b64_encode b64_alphabet True bs))) = bs"
    by (induction bs rule: induct_list3) (simp_all add: Let_def byte_parts)
  then show ?thesis by (simp add: b64_decode_def to_base64_def)
qed

end
