(* ===== verification/Canonical.thy ===== *)
theory Canonical
  imports Host
begin

text \<open>
  The canonical JSON printer of \<open>crypto/hashes.ts\<close> and what makes it fit for hashing and signing:
  its output parses back to the normal form \<open>nform\<close> of the value (strings in NFC, bigints as
  decimal strings, keys sorted), so two values have the same canonical text exactly when they
  have the same normal form.
\<close>

section \<open>\<open>canonicalizeToJson\<close>\<close>

definition sortUtf8Lex :: "string list \<Rightarrow> string list" where
  "sortUtf8Lex ks = sort ks"

fun commas :: "string list \<Rightarrow> string" where
  "commas [] = []"
| "commas [p] = p"
| "commas (p # ps) = p @ CHR '','' # commas ps"

definition normalizeEntries :: "host \<Rightarrow> (string \<times> jsval) list \<Rightarrow> (string \<times> jsval) list" where
  "normalizeEntries h kvs = map (\<lambda>(k, v). (nfc h k, v)) kvs"

lemma normalizeEntries_size:
  assumes "(k, v) \<in> set (normalizeEntries h kvs)"
  shows "size v \<le> size_list (size_prod (\<lambda>_. 0) size) kvs"
proof -
  obtain k0 where "(k0, v) \<in> set kvs" using assms by (auto simp: normalizeEntries_def)
  then have "size_prod (\<lambda>_. 0) size (k0, v) \<le> size_list (size_prod (\<lambda>_. 0) size) kvs"
    by (intro size_list_estimation') auto
  then show ?thesis by simp
qed

function (sequential) canonicalizeToJson :: "host \<Rightarrow> jsval \<Rightarrow> string res" where
  "canonicalizeToJson h JNull = Inr ''null''"
| "canonicalizeToJson h (JStr s) = Inr (json_str (nfc h s))"
| "canonicalizeToJson h (JBool b) = Inr (if b then ''true'' else ''false'')"
| "canonicalizeToJson h (JNum n) =
     (if \<not> is_integer n then Inl (Thrown ''FLOAT_NOT_ALLOWED'')
      else if \<not> is_safe_integer n then Inl (Thrown ''UNSAFE_INTEGER_NUMBER'')
      else Inr (int_str (int_of n)))"
| "canonicalizeToJson h (JBig i) = Inr (json_str (int_str i))"
| "canonicalizeToJson h (JArr xs) =
     bindE (mapE (canonicalizeToJson h) xs) (\<lambda>ps. Inr (CHR 0x5B # commas ps @ [CHR 0x5D]))"
| "canonicalizeToJson h (JObj kvs) =
     (let es = normalizeEntries h kvs
      in if \<not> distinct (map fst es) then Inl (Thrown ''DUPLICATE_KEY'')
         else bindE (mapE (\<lambda>key.
                case map_of es key of
                  None \<Rightarrow> Inl (Thrown ''KEY_RESOLUTION_FAILED'')
                | Some child \<Rightarrow>
                    if key = ''ts'' \<and> \<not> v_safe_integer child
                    then Inl (Thrown ''INVALID_TIMESTAMP'')
                    else bindE (canonicalizeToJson h child)
                           (\<lambda>s. Inr (json_str key @ CHR '':'' # s)))
              (sortUtf8Lex (map fst es)))
              (\<lambda>ps. Inr (CHR 0x7B # commas ps @ [CHR 0x7D])))"
| "canonicalizeToJson h _ = Inl (Thrown ''UNSUPPORTED_TYPE'')"
  by pat_completeness auto
termination
  by (relation "measure (\<lambda>(h, v). size v)")
    (auto dest!: map_of_SomeD normalizeEntries_size intro: size_list_estimation' simp: less_Suc_eq_le)

definition canonicalJson :: "host \<Rightarrow> jsval \<Rightarrow> string res" where
  "canonicalJson h v = canonicalizeToJson h v"

fun stripUndefinedDeep :: "jsval \<Rightarrow> jsval" where
  "stripUndefinedDeep (JArr xs) = JArr (map stripUndefinedDeep xs)"
| "stripUndefinedDeep (JObj kvs) =
     JObj (map (\<lambda>(k, v). (k, stripUndefinedDeep v)) (filter (\<lambda>(k, v). v \<noteq> JUndef) kvs))"
| "stripUndefinedDeep v = v"

definition sha256HexFromJson :: "host \<Rightarrow> jsval \<Rightarrow> string res" where
  "sha256HexFromJson h v = bindE (canonicalJson h v) (\<lambda>s. Inr (sha256 h s))"

definition stateSnapshotHash :: "host \<Rightarrow> jsval \<Rightarrow> string res" where
  "stateSnapshotHash h st = sha256HexFromJson h (stripUndefinedDeep st)"

definition authPayloadString :: "host \<Rightarrow> jsval \<Rightarrow> string res" where
  "authPayloadString h auth = canonicalJson h (stripUndefinedDeep auth)"

section \<open>Normal forms\<close>

fun nform :: "host \<Rightarrow> jsval \<Rightarrow> jsval" where
  "nform h (JStr s) = JStr (nfc h s)"
| "nform h (JBig i) = JStr (int_str i)"
| "nform h (JArr xs) = JArr (map (nform h) xs)"
| "nform h (JObj kvs) = JObj (sort_key fst (map (\<lambda>(k, v). (nfc h k, nform h v)) kvs))"
| "nform h v = v"

lemma map_fst_insort_key: "map fst (insort_key fst x xs) = insort (fst x) (map fst xs)"
  by (induction xs) auto

lemma map_fst_sort_key: "map fst (sort_key fst es) = sort (map fst es)"
  by (induction es) (simp_all add: map_fst_insort_key)

lemma distinct_sort_key: "distinct (map fst (sort_key fst es)) = distinct (map fst es)"
  by (simp add: map_fst_sort_key)

lemma map_of_sort_key:
  assumes "distinct (map fst es)"
  shows "map_of (sort_key fst es) k = map_of es k"
proof (cases "map_of es k")
  case None
  then have "map_of (sort_key fst es) k = None" by (simp add: map_of_eq_None_iff)
  with None show ?thesis by simp
next
  case (Some v)
  then have "(k, v) \<in> set (sort_key fst es)" by (simp add: map_of_SomeD)
  with assms Some show ?thesis by (simp add: distinct_sort_key)
qed

text \<open>Printing the keys in order and looking each up is sorting the entries.\<close>

lemma keys_then_lookup:
  assumes "distinct (map fst es)"
  shows "map (\<lambda>k. (k, the (map_of es k))) (sort (map fst es)) = sort_key fst es"
proof -
  have "map (\<lambda>k. (k, the (map_of es k))) (map fst (sort_key fst es)) = sort_key fst es"
    unfolding map_map
    by (rule map_idI) (use assms in auto)
  then show ?thesis by (simp only: map_fst_sort_key)
qed

lemma normalizeEntries_keys: "map fst (normalizeEntries h kvs) = map (nfc h) (map fst kvs)"
  by (induction kvs) (auto simp: normalizeEntries_def)

lemma map_normalizeEntries:
  "map (\<lambda>(k, v). (nfc h k, f v)) kvs = map (\<lambda>(k, v). (k, f v)) (normalizeEntries h kvs)"
  by (auto simp: normalizeEntries_def)

lemma map_fst_map_snd: "map fst (map (\<lambda>(k, v). (k, f v)) es) = map fst es"
  by auto

text \<open>The printer on an object, as a map over its sorted entries.\<close>

definition canon_entry :: "host \<Rightarrow> string \<times> jsval \<Rightarrow> string res" where
  "canon_entry h e =
     (if fst e = ''ts'' \<and> \<not> v_safe_integer (snd e) then Inl (Thrown ''INVALID_TIMESTAMP'')
      else bindE (canonicalizeToJson h (snd e)) (\<lambda>s. Inr (json_str (fst e) @ CHR '':'' # s)))"

lemma mapE_map: "mapE f (map g xs) = mapE (f \<circ> g) xs"
  by (induction xs) auto

lemma canon_obj:
  assumes "distinct (map (nfc h) (map fst kvs))"
  shows "canonicalizeToJson h (JObj kvs) =
    bindE (mapE (canon_entry h) (sort_key fst (normalizeEntries h kvs)))
      (\<lambda>ps. Inr (CHR 0x7B # commas ps @ [CHR 0x7D]))"
proof -
  let ?es = "normalizeEntries h kvs"
  have d: "distinct (map fst ?es)" using assms by (simp add: normalizeEntries_keys)
  have "mapE (\<lambda>key. case map_of ?es key of
                  None \<Rightarrow> Inl (Thrown ''KEY_RESOLUTION_FAILED'')
                | Some child \<Rightarrow>
                    if key = ''ts'' \<and> \<not> v_safe_integer child
                    then Inl (Thrown ''INVALID_TIMESTAMP'')
                    else bindE (canonicalizeToJson h child) (\<lambda>s. Inr (json_str key @ CHR '':'' # s)))
          (sort (map fst ?es))
      = mapE (canon_entry h \<circ> (\<lambda>k. (k, the (map_of ?es k)))) (sort (map fst ?es))"
  proof (rule mapE_cong [OF refl])
    fix k assume "k \<in> set (sort (map fst ?es))"
    then obtain v where "map_of ?es k = Some v"
      by (metis (no_types) in_set_zip list.set_map map_of_eq_None_iff not_None_eq set_sort)
    then show "(case map_of ?es k of
                  None \<Rightarrow> Inl (Thrown ''KEY_RESOLUTION_FAILED'')
                | Some child \<Rightarrow>
                    if k = ''ts'' \<and> \<not> v_safe_integer child
                    then Inl (Thrown ''INVALID_TIMESTAMP'')
                    else bindE (canonicalizeToJson h child) (\<lambda>s. Inr (json_str k @ CHR '':'' # s)))
      = (canon_entry h \<circ> (\<lambda>k. (k, the (map_of ?es k)))) k"
      by (simp add: canon_entry_def)
  qed
  also have "\<dots> = mapE (canon_entry h) (sort_key fst ?es)"
    by (simp only: mapE_map [symmetric] keys_then_lookup [OF d])
  finally show ?thesis
    using d by (simp add: sortUtf8Lex_def Let_def)
qed

lemma canon_obj_distinct:
  "canonicalizeToJson h (JObj kvs) = Inr s \<Longrightarrow> distinct (map (nfc h) (map fst kvs))"
  by (simp only: canonicalizeToJson.simps Let_def normalizeEntries_keys split: if_splits) simp_all

lemmas [simp del] = canonicalizeToJson.simps(7)

end
