(* ===== verification/Roundtrip.thy ===== *)
theory Roundtrip
  imports Canonical "HOL-Library.Multiset"
begin

text \<open>
  Canonical text parses back: \<open>json_parse\<close> after \<open>canonicalJson\<close> is \<open>nform\<close>. From this one fact
  follow that canonical text determines the normal form, that printing a parsed canonical text
  gives the text again, and that a digest of canonical text binds the normal form.
\<close>

section \<open>Strings and numbers\<close>

lemma hex_val_char: "d < 16 \<Longrightarrow> hex_val (hex_char d) = Some d"
  by (auto simp: hex_val_def hex_char_def Let_def)

lemma unicode_escape_control:
  assumes "(of_char c :: nat) < 32"
  shows "unicode_escape (CHR ''0'' # CHR ''0'' # hex_char (of_char c div 16) # hex_char (of_char c mod 16) # r)
    = Some ([c], r)"
proof -
  have z: "hex_val CHR ''0'' = Some 0" by (simp add: hex_val_def)
  show ?thesis
    using assms by (simp add: unicode_escape_def z hex_val_char utf8_bytes_def)
qed

lemma p_chars_esc: "p_chars (esc_char c @ r) = map_option (\<lambda>(t, r'). (c # t, r')) (p_chars r)"
proof (cases "esc_char c = [c]")
  case True
  then have "c \<noteq> c_quote" "c \<noteq> c_backslash" "\<not> (of_char c :: nat) < 32"
    by (auto simp: esc_char_def split: if_splits)
  with True show ?thesis by (simp add: p_chars.simps [of "c # r"])
next
  case False
  then obtain e where e: "esc_char c = c_backslash # e"
    by (auto simp: esc_char_def split: if_splits)
  have "escape (e @ r) = Some ([c], r)"
    using e False by (auto simp: esc_char_def unicode_escape_control split: if_splits)
  then show ?thesis
    by (simp add: e p_chars.simps [of "c_backslash # e @ r"])
qed

lemma p_chars_json: "p_chars (concat (map esc_char s) @ c_quote # r) = Some (s, r)"
  by (induction s) (simp_all add: p_chars_esc p_chars.simps [of "c_quote # r"])

definition boundary :: "string \<Rightarrow> bool" where
  "boundary r = (r = [] \<or> hd r \<in> {CHR '','', CHR 0x5D, CHR 0x7D})"

lemma boundary_simps [simp]:
  "boundary []" "boundary (CHR '','' # r)" "boundary (CHR 0x5D # r)" "boundary (CHR 0x7D # r)"
  by (simp_all add: boundary_def)

lemma boundary_stops:
  assumes "boundary r"
  shows "takeWhile is_digit r = []" "dropWhile is_digit r = r" "scan_frac r = Some ([], r)"
    "scan_exp r = Some (0, r)"
  using assms
  by (cases r; auto simp: boundary_def is_digit_def scan_frac_def scan_exp_def)+

lemma nat_str_scan:
  assumes "boundary r"
  shows "takeWhile is_digit (nat_str n @ r) = nat_str n" "dropWhile is_digit (nat_str n @ r) = r"
  using boundary_stops [OF assms] nat_str_digits [of _ n]
  by (simp_all add: takeWhile_append2 dropWhile_append2)

lemma nat_str_no_leading_zero: "1 < length (nat_str n) \<Longrightarrow> hd (nat_str n) \<noteq> CHR ''0''"
proof -
  assume "1 < length (nat_str n)"
  then have "\<not> n < 10" by (auto simp: nat_str.simps [of n])
  then show ?thesis by (intro nat_str_hd_zero) simp
qed

lemma nat_str_hd_digit: "is_digit (hd (nat_str n))"
  using nat_str_digits [of "hd (nat_str n)" n] by simp

lemma dec_num_nat_str:
  assumes "\<bar>i\<bar> \<le> max_safe"
  shows "dec_num (i < 0) (nat_str (nat \<bar>i\<bar>)) [] 0 = jint i"
proof -
  have "(if i < 0 then - 1 else 1) * of_nat (nat \<bar>i\<bar>) = (of_int i :: rat)"
    by (simp add: of_nat_nat)
  moreover have "\<bar>i\<bar> < 2 ^ 53" using assms by (simp add: max_safe_def)
  ultimately show ?thesis using rnd_int [of i] by (simp add: dec_num_def)
qed

lemma scan_number_int_str:
  assumes "\<bar>i\<bar> \<le> max_safe" and "boundary r"
  shows "scan_number (int_str i @ r) = Some (jint i, r)"
proof -
  have "hd (nat_str n) \<noteq> CHR ''-''" for n
    using nat_str_hd_digit [of n] by (auto simp: is_digit_def)
  then show ?thesis
    using dec_num_nat_str [OF assms(1)] nat_str_scan [OF assms(2)] boundary_stops [OF assms(2)]
      nat_str_no_leading_zero [of "nat \<bar>i\<bar>"]
    by (auto simp: scan_number_def int_str_def Let_def)
qed

lemma int_str_hd: "int_str i = c # cs \<Longrightarrow> is_digit c \<or> c = CHR ''-''"
  using nat_str_hd_digit [of "nat i"] by (auto simp: int_str_def split: if_splits)

section \<open>Printed values\<close>

text \<open>\<open>parses p v\<close>: the text \<open>p\<close> is read as \<open>v\<close> in every context in which a value can end.\<close>

definition parses :: "string \<Rightarrow> jsval \<Rightarrow> bool" where
  "parses p v =
     (p \<noteq> [] \<and> \<not> is_ws (hd p) \<and> hd p \<noteq> CHR 0x5D \<and> hd p \<noteq> CHR 0x7D \<and>
      (\<forall>r f. boundary r \<longrightarrow> 2 * length (p @ r) < f \<longrightarrow> p_val f (p @ r) = Some (v, r)))"

lemma parsesD: "parses p v \<Longrightarrow> boundary r \<Longrightarrow> 2 * length (p @ r) < f \<Longrightarrow> p_val f (p @ r) = Some (v, r)"
  by (simp add: parses_def)

lemma parses_skip: "parses p v \<Longrightarrow> skip_ws (p @ r) = p @ r"
  by (cases p) (auto simp: parses_def)

lemma parses_json_str: "parses (json_str s) (JStr s)"
  unfolding parses_def
proof (intro conjI allI impI)
  fix r f assume "boundary r" "2 * length (json_str s @ r) < f"
  then show "p_val f (json_str s @ r) = Some (JStr s, r)"
    by (cases f) (simp_all add: json_str_def is_ws_def p_chars_json)
qed (simp_all add: json_str_def is_ws_def)

lemma parses_literals:
  "parses ''null'' JNull" "parses ''true'' (JBool True)" "parses ''false'' (JBool False)"
proof -
  have "p_val f (''null'' @ r) = Some (JNull, r)" "p_val f (''true'' @ r) = Some (JBool True, r)"
    "p_val f (''false'' @ r) = Some (JBool False, r)" if "0 < f" for f r
    using that by (cases f; simp add: is_ws_def p_literal_def)+
  then show "parses ''null'' JNull" "parses ''true'' (JBool True)" "parses ''false'' (JBool False)"
    by (simp_all add: parses_def is_ws_def)
qed

lemma parses_int:
  assumes "\<bar>i\<bar> \<le> max_safe"
  shows "parses (int_str i) (JNum (jint i))"
proof -
  obtain c cs where s: "int_str i = c # cs" by (cases "int_str i") (auto simp: int_str_def split: if_splits)
  then have c: "is_digit c \<or> c = CHR ''-''" by (rule int_str_hd)
  then have ne: "\<not> is_ws c" "c \<notin> {CHR 0x5D, CHR 0x7D, CHR 0x7B, CHR 0x5B, c_quote, CHR ''t'', CHR ''f'', CHR ''n''}"
    by (auto simp: is_digit_def is_ws_def)
  have "p_val f (int_str i @ r) = Some (JNum (jint i), r)" if "boundary r" "0 < f" for f r
    using that ne scan_number_int_str [OF assms that(1)] s
    by (cases f) (auto simp: p_literal_def)
  then show ?thesis using ne s by (auto simp: parses_def)
qed

lemma commas_Cons: "ps \<noteq> [] \<Longrightarrow> commas (p # ps) = p @ CHR '','' # commas ps"
  by (cases ps) simp_all

lemma p_elems_commas:
  assumes "list_all2 parses ps vs" and "ps \<noteq> []"
    and "2 * length (commas ps @ CHR 0x5D # r) + 1 < f"
  shows "p_elems f (commas ps @ CHR 0x5D # r) = Some (vs, r)"
  using assms
proof (induction ps vs arbitrary: f rule: list_all2_induct)
  case (Cons p ps v vs)
  obtain g where f: "f = Suc g" using Cons.prems by (cases f) auto
  show ?case
  proof (cases "ps = []")
    case True
    then have "p_val g (p @ CHR 0x5D # r) = Some (v, CHR 0x5D # r)"
      using Cons by (intro parsesD) (auto simp: f)
    with True Cons.hyps(2) show ?thesis by (simp add: f is_ws_def)
  next
    case False
    let ?r = "commas ps @ CHR 0x5D # r"
    have "p_val g (p @ CHR '','' # ?r) = Some (v, CHR '','' # ?r)"
      using Cons False by (intro parsesD) (auto simp: f commas_Cons)
    moreover have "p_elems g ?r = Some (vs, r)"
      using Cons.prems False by (intro Cons.IH) (auto simp: f commas_Cons)
    ultimately show ?thesis using False by (simp add: f commas_Cons is_ws_def)
  qed
qed simp

lemma p_key_json:
  "p_key (json_str k @ CHR '':'' # t) = Some (k, t)"
  by (simp add: p_key_def expect_def json_str_def is_ws_def p_chars_json)

lemma p_members_commas:
  assumes "list_all2 (\<lambda>p (k, v). \<exists>t. p = json_str k @ CHR '':'' # t \<and> parses t v) ps ms" and "ps \<noteq> []"
    and "2 * length (commas ps @ CHR 0x7D # r) + 1 < f"
  shows "p_members f (commas ps @ CHR 0x7D # r) = Some (ms, r)"
  using assms
proof (induction ps ms arbitrary: f rule: list_all2_induct)
  case (Cons p ps m ms)
  obtain g where f: "f = Suc g" using Cons.prems by (cases f) auto
  obtain k v t where m: "m = (k, v)" and p: "p = json_str k @ CHR '':'' # t" and t: "parses t v"
    using Cons.hyps(1) by (cases m) auto
  show ?case
  proof (cases "ps = []")
    case True
    then have "p_val g (t @ CHR 0x7D # r) = Some (v, CHR 0x7D # r)"
      using Cons.prems p t by (intro parsesD) (auto simp: f)
    with True Cons.hyps(2) show ?thesis
      by (simp add: f is_ws_def m p p_key_json)
  next
    case False
    let ?r = "commas ps @ CHR 0x7D # r"
    have "p_val g (t @ CHR '','' # ?r) = Some (v, CHR '','' # ?r)"
      using Cons.prems False p t by (intro parsesD) (auto simp: f commas_Cons)
    moreover have "p_members g ?r = Some (ms, r)"
      using Cons.prems False by (intro Cons.IH) (auto simp: f commas_Cons)
    ultimately show ?thesis using False
      by (simp add: f commas_Cons is_ws_def m p p_key_json)
  qed
qed simp

lemma parses_array:
  assumes "list_all2 parses ps vs"
  shows "parses (CHR 0x5B # commas ps @ [CHR 0x5D]) (JArr vs)"
proof -
  have "p_val f ((CHR 0x5B # commas ps @ [CHR 0x5D]) @ r) = Some (JArr vs, r)"
    if f: "2 * length ((CHR 0x5B # commas ps @ [CHR 0x5D]) @ r) < f" for f r
  proof (cases "ps = []")
    case True
    then show ?thesis using assms f by (cases f) (auto simp: is_ws_def)
  next
    case False
    then obtain p ps' v vs' where ps: "ps = p # ps'" and p: "parses p v"
      using assms by (cases ps; cases vs) auto
    obtain g where g: "f = Suc g" using f by (cases f) auto
    have "p_elems g (commas ps @ CHR 0x5D # r) = Some (vs, r)"
      using assms False f by (intro p_elems_commas) (simp_all add: g)
    moreover have "skip_ws (commas ps @ CHR 0x5D # r) = commas ps @ CHR 0x5D # r"
      and "hd (commas ps @ CHR 0x5D # r) \<noteq> CHR 0x5D"
      using parses_skip [OF p, of "CHR '','' # commas ps' @ CHR 0x5D # r"]
        parses_skip [OF p, of "CHR 0x5D # r"] p
      by (cases "ps' = []"; simp add: ps commas_Cons parses_def)+
    ultimately show ?thesis by (simp add: g is_ws_def)
  qed
  then show ?thesis by (simp add: parses_def is_ws_def)
qed

lemma update_new: "k \<notin> fst ` set acc \<Longrightarrow> AList.update k v acc = acc @ [(k, v)]"
  by (induction acc) auto

lemma build_object_distinct:
  assumes "distinct (map fst ms)"
  shows "build_object ms = ms"
proof -
  have "distinct (map fst (acc @ ms)) \<Longrightarrow> foldl (\<lambda>acc (k, v). AList.update k v acc) acc ms = acc @ ms" for acc
  proof (induction ms arbitrary: acc)
    case (Cons m ms)
    obtain k v where m: "m = (k, v)" by (cases m)
    with Cons.prems have "AList.update k v acc = acc @ [m]" by (simp add: update_new)
    with Cons.prems Cons.IH [of "acc @ [m]"] show ?case by (simp add: m)
  qed simp
  from this [of "[]"] assms show ?thesis by (simp add: build_object_def)
qed

lemma parses_object:
  assumes "list_all2 (\<lambda>p (k, v). \<exists>t. p = json_str k @ CHR '':'' # t \<and> parses t v) ps ms"
    and "distinct (map fst ms)"
  shows "parses (CHR 0x7B # commas ps @ [CHR 0x7D]) (JObj ms)"
proof -
  have "p_val f ((CHR 0x7B # commas ps @ [CHR 0x7D]) @ r) = Some (JObj ms, r)"
    if f: "2 * length ((CHR 0x7B # commas ps @ [CHR 0x7D]) @ r) < f" for f r
  proof (cases "ps = []")
    case True
    then show ?thesis using assms f by (cases f) (auto simp: is_ws_def)
  next
    case False
    then obtain p ps' k t where ps: "ps = p # ps'" and p: "p = json_str k @ CHR '':'' # t"
      using assms by (cases ps; cases ms) auto
    obtain g where g: "f = Suc g" using f by (cases f) auto
    have "p_members g (commas ps @ CHR 0x7D # r) = Some (ms, r)"
      using assms False f by (intro p_members_commas) (simp_all add: g)
    moreover have "skip_ws (commas ps @ CHR 0x7D # r) = commas ps @ CHR 0x7D # r"
      and "hd (commas ps @ CHR 0x7D # r) \<noteq> CHR 0x7D"
      by (cases "ps' = []"; simp add: ps p commas_Cons json_str_def is_ws_def)+
    ultimately show ?thesis
      using build_object_distinct [OF assms(2)] by (simp add: g is_ws_def)
  qed
  then show ?thesis by (simp add: parses_def is_ws_def)
qed

section \<open>The round trip\<close>

lemma insort_key_map_snd:
  "insort_key fst (k, f v) (map (\<lambda>(k, v). (k, f v)) es) = map (\<lambda>(k, v). (k, f v)) (insort_key fst (k, v) es)"
  by (induction es) auto

lemma sort_key_map_snd:
  "sort_key fst (map (\<lambda>(k, v). (k, f v)) es) = map (\<lambda>(k, v). (k, f v)) (sort_key fst es)"
  by (induction es) (auto simp: insort_key_map_snd)

lemma nform_obj:
  "nform h (JObj kvs) = JObj (map (\<lambda>(k, v). (k, nform h v)) (sort_key fst (normalizeEntries h kvs)))"
  by (simp add: map_normalizeEntries sort_key_map_snd)

lemma canon_parses: "canonicalizeToJson h v = Inr s \<Longrightarrow> parses s (nform h v)"
proof (induction v arbitrary: s rule: measure_induct_rule [of size])
  case (less v)
  show ?case
  proof (cases v)
    case (JArr xs)
    with less.prems obtain ps where ps: "list_all2 (\<lambda>x p. canonicalizeToJson h x = Inr p) xs ps"
      and s: "s = CHR 0x5B # commas ps @ [CHR 0x5D]"
      by (auto simp: bindE_eq_Inr mapE_Inr_iff)
    have "size x < size v" if "x \<in> set xs" for x
      using size_list_estimation' [OF that order_refl, of size] by (simp add: JArr)
    with ps have "list_all2 (\<lambda>x p. parses p (nform h x)) xs ps"
      by (auto simp: list_all2_conv_all_nth intro!: less.IH)
    then have "list_all2 parses ps (map (nform h) xs)"
      by (simp add: list_all2_conv_all_nth)
    then show ?thesis unfolding s JArr nform.simps by (rule parses_array)
  next
    case (JObj kvs)
    let ?es = "sort_key fst (normalizeEntries h kvs)"
    have d: "distinct (map (nfc h) (map fst kvs))"
      using less.prems unfolding JObj by (rule canon_obj_distinct)
    obtain ps where ps: "list_all2 (\<lambda>e p. canon_entry h e = Inr p) ?es ps"
      and s: "s = CHR 0x7B # commas ps @ [CHR 0x7D]"
      using less.prems unfolding JObj canon_obj [OF d] by (auto simp: bindE_eq_Inr mapE_Inr_iff)
    have "\<exists>t. p = json_str k @ CHR '':'' # t \<and> parses t (nform h c)"
      if "(k, c) \<in> set ?es" and "canon_entry h (k, c) = Inr p" for k c p
    proof -
      have "size c < size v" using that(1) normalizeEntries_size [of k c h kvs] by (simp add: JObj)
      with that(2) less.IH show ?thesis
        by (auto simp: canon_entry_def bindE_eq_Inr split: if_splits)
    qed
    then have "list_all2 (\<lambda>e p. case e of (k, c) \<Rightarrow> \<exists>t. p = json_str k @ CHR '':'' # t \<and> parses t (nform h c)) ?es ps"
      by (intro list.rel_mono_strong [OF ps]) (auto split: prod.splits)
    then have "list_all2 (\<lambda>p (k, c). \<exists>t. p = json_str k @ CHR '':'' # t \<and> parses t c) ps
        (map (\<lambda>(k, c). (k, nform h c)) ?es)"
      by (simp add: list_all2_conv_all_nth case_prod_beta)
    moreover have "distinct (map fst (map (\<lambda>(k, c). (k, nform h c)) ?es))"
      using d by (simp only: map_fst_map_snd distinct_sort_key normalizeEntries_keys)
    ultimately show ?thesis unfolding s JObj nform_obj by (rule parses_object)
  next
    case (JNum n)
    with less.prems show ?thesis by (auto simp: is_safe_integer_jint parses_int split: if_splits)
  qed (use less.prems in \<open>auto simp: parses_json_str parses_literals\<close>)
qed

lemma parse_canonical:
  assumes "canonicalJson h v = Inr s"
  shows "json_parse s = Inr (nform h v)"
proof -
  have "p_val (2 * length s + 2) (s @ []) = Some (nform h v, [])"
    using assms by (intro parsesD canon_parses) (simp_all add: canonicalJson_def)
  then show ?thesis by (simp add: json_parse_def)
qed

lemma canonical_determines:
  "canonicalJson h v = Inr s \<Longrightarrow> canonicalJson h w = Inr s \<Longrightarrow> nform h v = nform h w"
  using parse_canonical [of h v s] parse_canonical [of h w s] by simp

lemma nform_safe [simp]: "v_safe_integer (nform h v) = v_safe_integer v"
  by (cases v) simp_all

lemma sort_key_idem: "sort_key f (sort_key f es) = sort_key f es"
  by (simp add: sort_key_id_if_sorted)

text \<open>Printing the normal form prints the value: the normal form loses nothing of the text.\<close>

lemma canonical_nform:
  assumes ok: "nfc_ok h"
  shows "canonicalizeToJson h v = Inr s \<Longrightarrow> canonicalizeToJson h (nform h v) = Inr s"
proof (induction v arbitrary: s rule: measure_induct_rule [of size])
  case (less v)
  show ?case
  proof (cases v)
    case (JStr x)
    with less.prems ok show ?thesis by (simp add: nfc_idem)
  next
    case (JBig i)
    with less.prems ok show ?thesis by (simp add: nfc_ascii)
  next
    case (JArr xs)
    have sz: "size x < size v" if "x \<in> set xs" for x
      using size_list_estimation' [OF that order_refl, of size] by (simp add: JArr)
    obtain ps where ps: "mapE (canonicalizeToJson h) xs = Inr ps" and s: "s = CHR 0x5B # commas ps @ [CHR 0x5D]"
      using less.prems by (auto simp: JArr bindE_eq_Inr)
    have "mapE (canonicalizeToJson h \<circ> nform h) xs = Inr ps"
      using ps less.IH [OF sz] unfolding mapE_Inr_iff by (auto elim!: list.rel_mono_strong)
    then show ?thesis by (simp add: JArr s mapE_map)
  next
    case (JObj kvs)
    let ?es = "sort_key fst (normalizeEntries h kvs)"
    let ?ns = "map (\<lambda>(k, c). (k, nform h c)) ?es"
    have d: "distinct (map (nfc h) (map fst kvs))"
      using less.prems unfolding JObj by (rule canon_obj_distinct)
    obtain ps where ps: "mapE (canon_entry h) ?es = Inr ps"
      and s: "s = CHR 0x7B # commas ps @ [CHR 0x7D]"
      using less.prems unfolding JObj canon_obj [OF d] by (auto simp: bindE_eq_Inr)
    have nfc_keys: "nfc h k = k" if "k \<in> fst ` set (normalizeEntries h kvs)" for k
      using that nfc_idem [OF ok] by (auto simp: normalizeEntries_def)
    have ids: "normalizeEntries h ?ns = ?ns"
      unfolding normalizeEntries_def map_map by (rule map_cong) (auto simp: nfc_idem [OF ok])
    have "map (nfc h) (map fst ?ns) = map fst (normalizeEntries h ?ns)"
      by (rule normalizeEntries_keys [symmetric])
    also have "\<dots> = map fst ?es" unfolding ids by (rule map_fst_map_snd)
    finally have "distinct (map (nfc h) (map fst ?ns))"
      using d by (simp only: distinct_sort_key normalizeEntries_keys)
    from canon_obj [OF this]
    have "canonicalizeToJson h (JObj ?ns) =
        bindE (mapE (canon_entry h) ?ns) (\<lambda>ps. Inr (CHR 0x7B # commas ps @ [CHR 0x7D]))"
      unfolding ids by (simp only: sort_key_map_snd sort_key_idem)
    moreover have "canon_entry h (k, nform h c) = Inr p"
      if "(k, c) \<in> set ?es" and "canon_entry h (k, c) = Inr p" for k c p
    proof -
      have "size c < size v" using that(1) normalizeEntries_size [of k c h kvs] by (simp add: JObj)
      with that(2) less.IH show ?thesis
        by (auto simp: canon_entry_def bindE_eq_Inr split: if_splits)
    qed
    then have "mapE (canon_entry h) ?ns = Inr ps"
      using ps unfolding mapE_map mapE_Inr_iff by (auto elim!: list.rel_mono_strong)
    ultimately show ?thesis unfolding JObj nform_obj s by simp
  qed (use less.prems in auto)
qed

lemma canonical_eq_iff:
  assumes "nfc_ok h" and "canonicalJson h v = Inr s" and "canonicalJson h w = Inr t"
  shows "s = t \<longleftrightarrow> nform h v = nform h w"
  using assms canonical_determines [of h v s w] canonical_nform [of h v s] canonical_nform [of h w t]
  unfolding canonicalJson_def by (metis sum.inject(2))

text \<open>The order in which an object's keys were inserted is not seen by the printer.\<close>

lemma canonical_key_order:
  assumes "mset kvs = mset kvs'"
  shows "canonicalizeToJson h (JObj kvs) = canonicalizeToJson h (JObj kvs')"
proof (cases "distinct (map (nfc h) (map fst kvs))")
  case True
  have m: "set (normalizeEntries h kvs) = set (normalizeEntries h kvs')"
    using mset_eq_setD [OF assms] by (simp add: normalizeEntries_def)
  have "mset (map (nfc h) (map fst kvs)) = mset (map (nfc h) (map fst kvs'))"
    using arg_cong [OF assms, of "image_mset (nfc h \<circ> fst)"] by simp
  with True have d': "distinct (map (nfc h) (map fst kvs'))" using mset_eq_imp_distinct_iff by blast
  have dk: "distinct (map fst (normalizeEntries h kvs))" using True by (simp only: normalizeEntries_keys)
  have dk': "distinct (map fst (normalizeEntries h kvs'))" using d' by (simp only: normalizeEntries_keys)
  have "sort_key fst (normalizeEntries h kvs) = sort_key fst (normalizeEntries h kvs')"
    using dk dk' m
    by (intro map_sorted_distinct_set_unique [where f = fst]) (simp_all add: distinct_sort_key distinct_map)
  then show ?thesis using canon_obj [OF True] canon_obj [OF d'] by simp
next
  case False
  have "mset (map (nfc h) (map fst kvs)) = mset (map (nfc h) (map fst kvs'))"
    using arg_cong [OF assms, of "image_mset (nfc h \<circ> fst)"] by simp
  with False have "\<not> distinct (map (nfc h) (map fst kvs'))" using mset_eq_imp_distinct_iff by blast
  with False show ?thesis by (simp only: canonicalizeToJson.simps Let_def normalizeEntries_keys) simp
qed

text \<open>A digest binds the normal form, or two different canonical texts with one digest are at hand.\<close>

definition collision :: "host \<Rightarrow> string \<Rightarrow> string \<Rightarrow> bool" where
  "collision h s t = (s \<noteq> t \<and> sha256 h s = sha256 h t)"

lemma digest_binds:
  assumes "sha256HexFromJson h v = Inr d" and "sha256HexFromJson h w = Inr d"
  shows "nform h v = nform h w \<or>
    (\<exists>s t. canonicalJson h v = Inr s \<and> canonicalJson h w = Inr t \<and> collision h s t)"
proof -
  obtain s t where s: "canonicalJson h v = Inr s" "sha256 h s = d"
    and t: "canonicalJson h w = Inr t" "sha256 h t = d"
    using assms by (auto simp: sha256HexFromJson_def bindE_eq_Inr)
  show ?thesis
  proof (cases "s = t")
    case True
    with s t show ?thesis using canonical_determines by blast
  next
    case False
    with s t show ?thesis by (auto simp: collision_def)
  qed
qed

end
