(* ===== verification/DeepMerge.thy ===== *)
theory DeepMerge
  imports Canonical "HOL-Library.Multiset"
begin

text \<open>
  \<open>utils/deepMerge.ts\<close>, \<open>utils/stableSort.ts\<close> and \<open>utils/stableStringify.ts\<close>. The laws of this
  theory say what a property of a merged object is, that merging a value into itself changes
  nothing, and what merging the delta \<open>{...slice, key: x}\<close> of a policy module leaves behind. They
  ask that no object holds a key twice (\<open>wf_js\<close>), as is the case for every JavaScript object.
\<close>

section \<open>\<open>deepMerge\<close>\<close>

function (sequential) mergeInto :: "(string \<times> jsval) list \<Rightarrow> (string \<times> jsval) list \<Rightarrow> (string \<times> jsval) list" where
  "mergeInto target [] = target"
| "mergeInto target ((key, src) # rest) =
     mergeInto
       (AList.update key
          (case (src, getp (JObj target) key) of
             (JObj skvs, JObj dkvs) \<Rightarrow> JObj (mergeInto dkvs skvs)
           | _ \<Rightarrow> src) target)
       rest"
  by pat_completeness auto
termination
  by (relation "measure (\<lambda>(t, s). size_list (size_prod (\<lambda>_. 0) size) s)") auto

fun deepMerge :: "jsval \<Rightarrow> jsval \<Rightarrow> jsval" where
  "deepMerge (JObj base) (JObj patch) = JObj (mergeInto base patch)"
| "deepMerge base patch = coalesce patch base"

text \<open>One step of the merge: what a property becomes when the patch holds \<open>src\<close> for it.\<close>

definition merge_val :: "jsval \<Rightarrow> jsval \<Rightarrow> jsval" where
  "merge_val dst src =
     (case (src, dst) of (JObj skvs, JObj dkvs) \<Rightarrow> JObj (mergeInto dkvs skvs) | _ \<Rightarrow> src)"

lemma merge_val_simps [simp]:
  "merge_val (JObj d) (JObj s) = JObj (mergeInto d s)"
  "\<not> is_plain src \<Longrightarrow> merge_val dst src = src"
  "\<not> is_plain dst \<Longrightarrow> merge_val dst src = src"
  by (cases src; cases dst; simp add: merge_val_def)+

lemma mergeInto_Cons:
  "mergeInto target ((key, src) # rest) =
     mergeInto (AList.update key (merge_val (getp (JObj target) key) src) target) rest"
  by (simp add: merge_val_def)

lemmas mergeInto_simps = mergeInto.simps(1) mergeInto_Cons
declare mergeInto.simps(2) [simp del]

lemma deepMerge_plain: "is_plain b \<Longrightarrow> is_plain p \<Longrightarrow> deepMerge b p = merge_val b p"
  by (cases b; cases p) simp_all

subsection \<open>Well-formed values\<close>

fun wf_js :: "jsval \<Rightarrow> bool" where
  "wf_js (JArr xs) = (\<forall>x \<in> set xs. wf_js x)"
| "wf_js (JObj kvs) = (distinct (map fst kvs) \<and> (\<forall>(k, v) \<in> set kvs. wf_js v))"
| "wf_js _ = True"

lemma jsobj_size: "(k, v) \<in> set kvs \<Longrightarrow> size v < size (JObj kvs)"
  using size_list_estimation' [of "(k, v)" kvs _ "size_prod (\<lambda>_. 0) size", OF _ order_refl] by simp

lemma wf_js_lookup: "wf_js (JObj kvs) \<Longrightarrow> map_of kvs k = Some v \<Longrightarrow> wf_js v"
  by (auto dest!: map_of_SomeD)

lemma wf_js_inherited [simp]: "wf_js (inherited k)"
  by (simp add: inherited_def)

lemma set_update_sub: "set (AList.update k v kvs) \<subseteq> insert (k, v) (set kvs)"
  by (induction kvs) auto

lemma wf_js_update:
  "wf_js (JObj kvs) \<Longrightarrow> wf_js v \<Longrightarrow> wf_js (JObj (AList.update k v kvs))"
  using set_update_sub [of k v kvs] by (auto simp: distinct_update_keys)

lemma wf_js_arr_index: "\<forall>x \<in> set xs. wf_js x \<Longrightarrow> arr_index xs k = Some v \<Longrightarrow> wf_js v"
  by (auto simp: arr_index_def find_Some_iff)

lemma wf_js_getp: "wf_js v \<Longrightarrow> wf_js (getp v k)"
proof (cases v)
  case (JObj kvs)
  then show "wf_js v \<Longrightarrow> ?thesis" using wf_js_lookup [of kvs k] by (auto split: option.split)
next
  case (JArr xs)
  then show "wf_js v \<Longrightarrow> ?thesis" using wf_js_arr_index [of xs k] by (simp split: option.split)
next
  case (JStr s)
  then show "wf_js v \<Longrightarrow> ?thesis" using wf_js_arr_index [of "map JStr (units s)" k] by (simp split: option.split)
qed simp_all

lemma distinct_nat_str: "distinct (map nat_str ns) \<longleftrightarrow> distinct ns"
  by (simp add: distinct_map inj_on_def nat_str_inject)

lemma wf_js_entries: "wf_js v \<Longrightarrow> wf_js (JObj (entries v))"
  by (cases v) (auto simp: o_def distinct_nat_str)

lemma wf_js_spread_set: "wf_js v \<Longrightarrow> wf_js x \<Longrightarrow> wf_js (spread_set v k x)"
  unfolding spread_set_def by (intro wf_js_update wf_js_entries)

subsection \<open>Properties of a merged object\<close>

lemma mergeInto_lookup:
  assumes "distinct (map fst patch)"
  shows "map_of (mergeInto base patch) k =
    (case map_of patch k of None \<Rightarrow> map_of base k | Some src \<Rightarrow> Some (merge_val (getp (JObj base) k) src))"
  using assms
proof (induction patch arbitrary: base)
  case (Cons p patch)
  obtain key src where p: "p = (key, src)" by (cases p)
  let ?b = "AList.update key (merge_val (getp (JObj base) key) src) base"
  have "map_of patch key = None" using Cons.prems by (simp add: p map_of_eq_None_iff)
  moreover have "getp (JObj ?b) k = getp (JObj base) k" if "k \<noteq> key" using that by simp
  ultimately show ?case
    using Cons by (auto simp: p mergeInto_simps split: option.split)
qed (simp add: mergeInto_simps)

lemma getp_mergeInto:
  assumes "distinct (map fst patch)"
  shows "getp (JObj (mergeInto base patch)) k =
    (case map_of patch k of None \<Rightarrow> getp (JObj base) k | Some src \<Rightarrow> merge_val (getp (JObj base) k) src)"
  using mergeInto_lookup [OF assms, of base k] by (simp split: option.split)

lemma wf_js_merge_val:
  "wf_js dst \<Longrightarrow> wf_js src \<Longrightarrow> wf_js (merge_val dst src)"
proof (induction src arbitrary: dst rule: measure_induct_rule [of size])
  case (less src)
  show ?case
  proof (cases "\<exists>b p. dst = JObj b \<and> src = JObj p")
    case True
    then obtain b p where d: "dst = JObj b" and s: "src = JObj p" by blast
    have "wf_js (JObj b) \<Longrightarrow> wf_js (JObj q) \<Longrightarrow> set q \<subseteq> set p \<Longrightarrow> wf_js (JObj (mergeInto b q))" for b q
    proof (induction q arbitrary: b)
      case Nil
      then show ?case by (simp only: mergeInto.simps)
    next
      case (Cons e q)
      obtain k v where e: "e = (k, v)" by (cases e)
      then have "(k, v) \<in> set p" using Cons.prems by auto
      then have "size v < size src" using jsobj_size [of k v p] by (simp add: s)
      moreover have "wf_js v" using Cons.prems by (simp add: e)
      ultimately have "wf_js (merge_val (getp (JObj b) k) v)"
        using Cons.prems(1) by (intro less.IH wf_js_getp) auto
      then have "wf_js (JObj (AList.update k (merge_val (getp (JObj b) k) v) b))"
        using Cons.prems(1) by (intro wf_js_update)
      moreover have "wf_js (JObj q)" using Cons.prems(2) by simp
      ultimately show ?case
        unfolding e mergeInto_simps using Cons.prems by (intro Cons.IH) auto
    qed
    from this [of b p] less.prems show ?thesis by (simp add: d s)
  next
    case False
    then show ?thesis using less.prems by (cases src; cases dst) simp_all
  qed
qed

lemma update_same: "map_of kvs k = Some v \<Longrightarrow> AList.update k v kvs = kvs"
  by (induction kvs) (auto split: if_splits)

lemma merge_val_self: "wf_js v \<Longrightarrow> merge_val v v = v"
proof (induction v rule: measure_induct_rule [of size])
  case (less v)
  show ?case
  proof (cases v)
    case (JObj kvs)
    have "set q \<subseteq> set kvs \<Longrightarrow> mergeInto kvs q = kvs" for q
    proof (induction q)
      case (Cons e q)
      obtain k x where e: "e = (k, x)" by (cases e)
      have "distinct (map fst kvs)" using less.prems by (simp add: JObj)
      moreover have "(k, x) \<in> set kvs" using Cons.prems by (simp add: e)
      ultimately have x: "map_of kvs k = Some x" by (rule map_of_map_key)
      have "size x < size v" using jsobj_size [OF map_of_SomeD [OF x]] by (simp add: JObj)
      moreover have "wf_js x" using less.prems x unfolding JObj by (rule wf_js_lookup)
      ultimately have "merge_val x x = x" by (rule less.IH)
      then have "AList.update k (merge_val (getp (JObj kvs) k) x) kvs = kvs"
        using x by (simp add: update_same)
      then show ?case using Cons by (simp add: e mergeInto_simps)
    qed (simp add: mergeInto_simps)
    then show ?thesis by (simp add: JObj)
  qed simp_all
qed

text \<open>The delta of a module is the slice it read with one property replaced.\<close>

lemma getp_merge_spread:
  assumes "is_plain d" and "wf_js d"
  shows "getp (merge_val d (spread_set d k x)) k' =
    (if k' = k then merge_val (getp d k) x else getp d k')"
proof -
  obtain kvs where d: "d = JObj kvs" using assms(1) by (rule is_plainE)
  have "distinct (map fst (AList.update k x kvs))"
    using assms(2) by (simp add: d distinct_update_keys)
  moreover have "merge_val v v = v" if "map_of kvs k' = Some v" for v
    using assms(2) that unfolding d by (rule merge_val_self [OF wf_js_lookup])
  ultimately show ?thesis
    by (auto simp: d spread_set_def mergeInto_lookup split: option.split)
qed

text \<open>Two properties replaced at once.\<close>

lemma getp_merge_spread2:
  assumes "is_plain d" and "wf_js d"
  shows "getp (merge_val d (spread_set (spread_set d k x) l y)) k' =
    (if k' = l then merge_val (getp d l) y else if k' = k then merge_val (getp d k) x else getp d k')"
proof -
  obtain kvs where d: "d = JObj kvs" using assms(1) by (rule is_plainE)
  have "distinct (map fst (AList.update l y (AList.update k x kvs)))"
    using assms(2) by (simp add: d distinct_update_keys)
  moreover have "merge_val v v = v" if "map_of kvs k' = Some v" for v
    using assms(2) that unfolding d by (rule merge_val_self [OF wf_js_lookup])
  ultimately show ?thesis
    by (auto simp: d spread_set_def mergeInto_lookup split: option.split)
qed

text \<open>The same where the container is an array, which a spread turns into an object.\<close>

lemma find_map_of: "map_of (map (\<lambda>i. (nat_str i, f i)) is) k = map_option f (find (\<lambda>i. nat_str i = k) is)"
  by (induction "is") auto

lemma getp_entries:
  assumes "is_object v" and "is_plain v \<or> k \<noteq> ''length''"
  shows "getp (JObj (entries v)) k = getp v k"
  using assms by (cases v) (auto simp: find_map_of arr_index_def)

lemma getp_merge_container:
  assumes "is_object d" and "wf_js d" and "is_plain d \<or> k' \<noteq> ''length''"
  shows "getp (merge_val d (spread_set d k x)) k' =
    (if k' = k then (if is_plain d then merge_val (getp d k) x else x) else getp d k')"
proof (cases "is_plain d")
  case True
  then show ?thesis using assms(2) by (simp add: getp_merge_spread)
next
  case False
  then have "merge_val d (spread_set d k x) = spread_set d k x" by simp
  then show ?thesis
    using False getp_entries [OF assms(1,3)] by (simp add: spread_set_def)
qed

text \<open>A slice with one container inside it: \<open>{...slice, field: {...slice.field, [key]: x}}\<close>.\<close>

lemma getp_merge_slice:
  fixes d f k x
  defines "d' \<equiv> merge_val d (spread_set d f (spread_set (getp d f) k x))"
  assumes "is_plain d" and "wf_js d" and "is_object (getp d f)"
    and "is_plain (getp d f) \<or> k' \<noteq> ''length''"
  shows "getp (getp d' f) k' =
    (if k' = k then (if is_plain (getp d f) then merge_val (getp (getp d f) k) x else x)
     else getp (getp d f) k')"
    and "g \<noteq> f \<Longrightarrow> getp d' g = getp d g"
  using assms getp_merge_container [of "getp d f" k' k x]
  by (auto simp: d'_def getp_merge_spread wf_js_getp)

lemma is_plain_merge: "is_plain d \<Longrightarrow> is_plain s \<Longrightarrow> is_plain (merge_val d s)"
  by (cases d; cases s) simp_all

lemma getp_merge_single:
  assumes "is_plain st"
  shows "getp (deepMerge st (JObj [(k, x)])) k' = (if k' = k then merge_val (getp st k) x else getp st k')"
  using assms by (cases st) (simp_all add: mergeInto_simps)

lemma is_plain_deepMerge: "is_plain st \<Longrightarrow> is_plain p \<Longrightarrow> is_plain (deepMerge st p)"
  by (cases st; cases p) simp_all

lemma deepMerge_empty: "deepMerge (JObj kvs) (JObj []) = JObj kvs"
  by (simp add: mergeInto_simps)

lemma wf_js_deepMerge: "wf_js b \<Longrightarrow> wf_js p \<Longrightarrow> is_plain b \<Longrightarrow> is_plain p \<Longrightarrow> wf_js (deepMerge b p)"
  unfolding deepMerge_plain by (rule wf_js_merge_val)

section \<open>\<open>stableSort\<close> and \<open>stableStringify\<close>\<close>

text \<open>
  \<open>stableSort\<close> pairs each item with its index and lets the index decide between equal items; the
  comparison of a \<open>key\<close> is \<open>compare(a, b)\<close> on its sign.
\<close>

definition stableSort :: "('a \<Rightarrow> 'k :: linorder) \<Rightarrow> 'a list \<Rightarrow> 'a list" where
  "stableSort key items =
     map fst (sort_key (\<lambda>(item, index). (key item, index)) (zip items [0..<length items]))"

definition stableSortedKeys :: "(string \<times> jsval) list \<Rightarrow> string list" where
  "stableSortedKeys kvs = stableSort u16_key (map fst kvs)"

lemma stableSort_length [simp]: "length (stableSort key items) = length items"
  by (simp add: stableSort_def)

lemma stableSort_mset: "mset (stableSort key items) = mset items"
proof -
  have "mset (stableSort key items) = image_mset fst (mset (zip items [0..<length items]))"
    by (simp add: stableSort_def)
  also have "\<dots> = mset (map fst (zip items [0..<length items]))" by (simp only: mset_map)
  finally show ?thesis by simp
qed

lemma stableSort_set [simp]: "set (stableSort key items) = set items"
  by (rule mset_eq_setD [OF stableSort_mset])

text \<open>\<open>JSON.stringify\<close>: \<open>None\<close> is \<open>undefined\<close>, the result on a value that has no JSON text.\<close>

fun json_stringify :: "host \<Rightarrow> jsval \<Rightarrow> string option res" where
  "json_stringify h JUndef = Inr None"
| "json_stringify h JFun = Inr None"
| "json_stringify h JNull = Inr (Some ''null'')"
| "json_stringify h (JBool b) = Inr (Some (if b then ''true'' else ''false''))"
| "json_stringify h (JNum n) = Inr (Some (if is_finite n then js_string h (JNum n) else ''null''))"
| "json_stringify h (JBig i) = Inl TypeError"
| "json_stringify h (JStr s) = Inr (Some (json_str s))"
| "json_stringify h (JArr xs) =
     bindE (mapE (json_stringify h) xs)
       (\<lambda>ps. Inr (Some (CHR 0x5B # commas (map (\<lambda>p. case p of None \<Rightarrow> ''null'' | Some s \<Rightarrow> s) ps) @ [CHR 0x5D])))"
| "json_stringify h (JObj kvs) =
     bindE (mapE (\<lambda>(k, v). bindE (json_stringify h v) (\<lambda>p. Inr (map_option (\<lambda>s. json_str k @ CHR '':'' # s) p))) kvs)
       (\<lambda>ps. Inr (Some (CHR 0x7B # commas (List.map_filter id ps) @ [CHR 0x7D])))"

text \<open>
  \<open>normalize\<close> turns bigints into text and puts the keys of every object in order; the entry of a
  key is looked up in the object.
\<close>

function (sequential) normalize :: "jsval \<Rightarrow> jsval" where
  "normalize (JBig i) = JStr (int_str i)"
| "normalize (JArr xs) = JArr (map normalize xs)"
| "normalize (JObj kvs) =
     JObj (List.map_filter
       (\<lambda>k. case map_of kvs k of None \<Rightarrow> None | Some v \<Rightarrow> Some (k, normalize v)) (stableSortedKeys kvs))"
| "normalize v = v"
  by pat_completeness auto
termination
  by (relation "measure size") (auto dest!: map_of_SomeD jsobj_size intro: size_list_estimation' simp: less_Suc_eq_le)

definition stableStringify :: "host \<Rightarrow> jsval \<Rightarrow> string option res" where
  "stableStringify h v = json_stringify h (normalize v)"

text \<open>No bigint is left after \<open>normalize\<close>, so \<open>stableStringify\<close> never throws.\<close>

fun no_big :: "jsval \<Rightarrow> bool" where
  "no_big (JBig i) = False"
| "no_big (JArr xs) = (\<forall>x \<in> set xs. no_big x)"
| "no_big (JObj kvs) = (\<forall>(k, v) \<in> set kvs. no_big v)"
| "no_big _ = True"

lemma no_big_normalize: "no_big (normalize v)"
  by (induction v rule: normalize.induct)
    (auto simp: List.map_filter_def split: option.splits)

lemma mapE_total: "(\<forall>x \<in> set xs. \<exists>y. f x = Inr y) \<Longrightarrow> \<exists>ys. mapE f xs = Inr ys"
  by (induction xs) auto

lemma json_stringify_total: "no_big v \<Longrightarrow> \<exists>s. json_stringify h v = Inr s"
proof (induction v rule: measure_induct_rule [of size])
  case (less v)
  show ?case
  proof (cases v)
    case (JArr xs)
    have "\<exists>y. json_stringify h x = Inr y" if "x \<in> set xs" for x
      using less that size_list_estimation' [OF that order_refl, of size] by (auto simp: JArr)
    then have "\<forall>x \<in> set xs. \<exists>y. json_stringify h x = Inr y" by blast
    from mapE_total [OF this] obtain ys where "mapE (json_stringify h) xs = Inr ys" ..
    then show ?thesis by (simp add: JArr)
  next
    case (JObj kvs)
    let ?f = "\<lambda>(k, v). bindE (json_stringify h v) (\<lambda>p. Inr (map_option (\<lambda>s. json_str k @ CHR '':'' # s) p))"
    have "\<exists>y. ?f e = Inr y" if "e \<in> set kvs" for e
    proof -
      obtain k x where e: "e = (k, x)" by (cases e)
      have "\<exists>s. json_stringify h x = Inr s"
        using less that jsobj_size [of k x kvs] by (auto simp: JObj e)
      then show ?thesis by (auto simp: e)
    qed
    then have "\<forall>e \<in> set kvs. \<exists>y. ?f e = Inr y" by blast
    from mapE_total [OF this] obtain ps where "mapE ?f kvs = Inr ps" ..
    then show ?thesis by (simp add: JObj)
  qed (use less.prems in simp_all)
qed

lemma stableStringify_total: "\<exists>s. stableStringify h v = Inr s"
  unfolding stableStringify_def by (rule json_stringify_total [OF no_big_normalize])

lemma stableStringify_object: "\<exists>s. stableStringify h (JObj kvs) = Inr (Some s)"
  using stableStringify_total [of h "JObj kvs"] by (auto simp: stableStringify_def bindE_eq_Inr)

end
