(* ===== verification/Types.thy ===== *)
theory Types
  imports Roundtrip DeepMerge
begin

text \<open>
  The data of the policy engine: \<open>types/intent.ts\<close>, \<open>types/policy.ts\<close> and the intent digest of
  \<open>crypto/hashes.ts\<close>. An intent is a record (its fields are typed by its TypeScript type, optional
  fields are options); state, authorizations and everything read from outside stay JavaScript
  values. A policy module answers with \<open>Allow\<close> and an optional delta or \<open>Deny\<close> and its reasons.
\<close>

section \<open>Intents\<close>

datatype itype = EXECUTE | RELEASE

record intent =
  intent_id :: string
  agent_id :: string
  action_type :: "string option"
  depth :: "jsnum option"
  amount :: int
  asset :: "string option"
  target :: string
  timestamp :: jsnum
  metadata_hash :: string
  nonce :: int
  signature :: string
  tool :: "string option"
  tool_call :: "bool option"
  itype :: "itype option"
  authorization_id :: "string option"

fun opt_val :: "('a \<Rightarrow> jsval) \<Rightarrow> 'a option \<Rightarrow> jsval" where
  "opt_val f None = JUndef"
| "opt_val f (Some x) = f x"

fun itype_str :: "itype \<Rightarrow> string" where
  "itype_str EXECUTE = ''EXECUTE''"
| "itype_str RELEASE = ''RELEASE''"

definition intent_fields :: "intent \<Rightarrow> (string \<times> jsval) list" where
  "intent_fields i =
     [(''intent_id'', JStr (intent_id i)),
      (''agent_id'', JStr (agent_id i)),
      (''action_type'', opt_val JStr (action_type i)),
      (''depth'', opt_val JNum (depth i)),
      (''amount'', JBig (amount i)),
      (''asset'', opt_val JStr (asset i)),
      (''target'', JStr (target i)),
      (''timestamp'', JNum (timestamp i)),
      (''metadata_hash'', JStr (metadata_hash i)),
      (''nonce'', JBig (nonce i)),
      (''signature'', JStr (signature i)),
      (''tool'', opt_val JStr (tool i)),
      (''tool_call'', opt_val JBool (tool_call i)),
      (''type'', opt_val (JStr \<circ> itype_str) (itype i)),
      (''authorization_id'', opt_val JStr (authorization_id i))]"

definition INTENT_BINDING_FIELDS :: "string list" where
  "INTENT_BINDING_FIELDS =
     [''intent_id'', ''agent_id'', ''action_type'', ''depth'', ''amount'', ''asset'', ''target'',
      ''timestamp'', ''metadata_hash'', ''nonce'', ''type'', ''authorization_id'', ''tool'', ''tool_call'']"

definition intent_binding :: "intent \<Rightarrow> (string \<times> jsval) list" where
  "intent_binding i =
     filter (\<lambda>(k, v). v \<noteq> JUndef)
       (map (\<lambda>key. (key, getp (JObj (intent_fields i)) key)) INTENT_BINDING_FIELDS)"

definition intentHash :: "host \<Rightarrow> intent \<Rightarrow> string res" where
  "intentHash h i = sha256HexFromJson h (stripUndefinedDeep (JObj (intent_binding i)))"

text \<open>\<open>intent.type ?? "EXECUTE"\<close>\<close>

definition effective_type :: "intent \<Rightarrow> itype" where
  "effective_type i = (case itype i of None \<Rightarrow> EXECUTE | Some t \<Rightarrow> t)"

section \<open>Policy results\<close>

datatype reason =
    KILL_SWITCH | ALLOWLIST_ACTION | ALLOWLIST_ASSET | ALLOWLIST_TARGET | POLICY_VERSION_MISMATCH
  | STATE_INVALID | BUDGET_EXCEEDED | PER_ACTION_CAP_EXCEEDED | VELOCITY_EXCEEDED
  | CONCURRENCY_LIMIT_EXCEEDED | RECURSION_DEPTH_EXCEEDED | REPLAY_NONCE | REPLAY_DETECTED
  | AUTH_EXPIRED | AUTH_SIGNATURE_INVALID | AUTH_INTENT_MISMATCH | INTERNAL_ERROR
  | CONCURRENCY_RELEASE_INVALID | TOOL_CALL_LIMIT_EXCEEDED | INTENT_AMOUNT_INVALID
  | INTENT_FRESHNESS_FUTURE | INTENT_STALE

fun reason_str :: "reason \<Rightarrow> string" where
  "reason_str KILL_SWITCH = ''KILL_SWITCH''"
| "reason_str ALLOWLIST_ACTION = ''ALLOWLIST_ACTION''"
| "reason_str ALLOWLIST_ASSET = ''ALLOWLIST_ASSET''"
| "reason_str ALLOWLIST_TARGET = ''ALLOWLIST_TARGET''"
| "reason_str POLICY_VERSION_MISMATCH = ''POLICY_VERSION_MISMATCH''"
| "reason_str STATE_INVALID = ''STATE_INVALID''"
| "reason_str BUDGET_EXCEEDED = ''BUDGET_EXCEEDED''"
| "reason_str PER_ACTION_CAP_EXCEEDED = ''PER_ACTION_CAP_EXCEEDED''"
| "reason_str VELOCITY_EXCEEDED = ''VELOCITY_EXCEEDED''"
| "reason_str CONCURRENCY_LIMIT_EXCEEDED = ''CONCURRENCY_LIMIT_EXCEEDED''"
| "reason_str RECURSION_DEPTH_EXCEEDED = ''RECURSION_DEPTH_EXCEEDED''"
| "reason_str REPLAY_NONCE = ''REPLAY_NONCE''"
| "reason_str REPLAY_DETECTED = ''REPLAY_DETECTED''"
| "reason_str AUTH_EXPIRED = ''AUTH_EXPIRED''"
| "reason_str AUTH_SIGNATURE_INVALID = ''AUTH_SIGNATURE_INVALID''"
| "reason_str AUTH_INTENT_MISMATCH = ''AUTH_INTENT_MISMATCH''"
| "reason_str INTERNAL_ERROR = ''INTERNAL_ERROR''"
| "reason_str CONCURRENCY_RELEASE_INVALID = ''CONCURRENCY_RELEASE_INVALID''"
| "reason_str TOOL_CALL_LIMIT_EXCEEDED = ''TOOL_CALL_LIMIT_EXCEEDED''"
| "reason_str INTENT_AMOUNT_INVALID = ''INTENT_AMOUNT_INVALID''"
| "reason_str INTENT_FRESHNESS_FUTURE = ''INTENT_FRESHNESS_FUTURE''"
| "reason_str INTENT_STALE = ''INTENT_STALE''"

datatype policy_result = Allow "jsval option" | Deny "reason list"

text \<open>\<open>PolicyEvaluationContext\<close> with the freshness horizon the engine adds for \<open>ReplayModule\<close>.\<close>

record eval_context =
  evaluationTime :: jsnum
  freshnessHorizonSeconds :: "jsnum option"

type_synonym module_eval = "intent \<Rightarrow> jsval \<Rightarrow> eval_context \<Rightarrow> policy_result res"

section \<open>The intent digest binds the bound fields\<close>

lemma stripUndefined_flat:
  "\<forall>(k, v) \<in> set kvs. v \<noteq> JUndef \<and> stripUndefinedDeep v = v \<Longrightarrow> stripUndefinedDeep (JObj kvs) = JObj kvs"
  by (induction kvs) auto

lemma strip_opt_val [simp]:
  "stripUndefinedDeep (opt_val JStr a) = opt_val JStr a"
  "stripUndefinedDeep (opt_val JNum b) = opt_val JNum b"
  "stripUndefinedDeep (opt_val JBool c) = opt_val JBool c"
  "stripUndefinedDeep (opt_val (JStr \<circ> itype_str) d) = opt_val (JStr \<circ> itype_str) d"
  by (cases a; cases b; cases c; cases d; simp)+

lemma strip_binding: "stripUndefinedDeep (JObj (intent_binding i)) = JObj (intent_binding i)"
  by (rule stripUndefined_flat)
    (auto simp: intent_binding_def INTENT_BINDING_FIELDS_def intent_fields_def)

lemma binding_fields_distinct: "distinct INTENT_BINDING_FIELDS"
  by code_simp

lemma binding_fields_ascii: "list_all is_ascii INTENT_BINDING_FIELDS"
  by code_simp

lemma map_of_tabulate:
  "map_of (map (\<lambda>k. (k, f k)) ks) k = (if k \<in> set ks then Some (f k) else None)"
  by (induction ks) auto

lemma map_of_filter_fst:
  "distinct (map fst kvs) \<Longrightarrow>
   map_of (filter (\<lambda>(k, v). P v) kvs) k = (case map_of kvs k of Some v \<Rightarrow> if P v then Some v else None | None \<Rightarrow> None)"
  by (induction kvs) (auto split: option.split simp: map_of_eq_None_iff)

lemma binding_lookup:
  "map_of (intent_binding i) k =
    (let v = getp (JObj (intent_fields i)) k
     in if k \<in> set INTENT_BINDING_FIELDS \<and> v \<noteq> JUndef then Some v else None)"
  using binding_fields_distinct
  by (simp add: intent_binding_def map_of_filter_fst o_def map_of_tabulate Let_def split: option.split)

lemma binding_keys_distinct: "distinct (map fst (intent_binding i))"
proof -
  have "map fst (filter (\<lambda>(k, v). P v) (map (\<lambda>k. (k, f k)) ks)) = filter (P \<circ> f) ks" for P f ks
    by (induction ks) auto
  then show ?thesis
    unfolding intent_binding_def by (metis binding_fields_distinct distinct_filter)
qed

lemma binding_keys_nfc:
  assumes "nfc_ok h" and "k \<in> fst ` set (intent_binding i)"
  shows "nfc h k = k"
proof -
  have "k \<in> set INTENT_BINDING_FIELDS" using assms(2) by (auto simp: intent_binding_def)
  then show ?thesis using assms(1) binding_fields_ascii by (auto simp: list_all_iff nfc_ascii)
qed

text \<open>The normal form of an object with keys in NFC, read property by property.\<close>

lemma nform_lookup:
  assumes "\<forall>k \<in> fst ` set kvs. nfc h k = k" and "distinct (map fst kvs)" and "nform h (JObj kvs) = JObj ms"
  shows "map_of ms k = map_option (nform h) (map_of kvs k)"
proof -
  have n: "normalizeEntries h kvs = kvs"
    using assms(1) by (induction kvs) (auto simp: normalizeEntries_def)
  have "map_of ms k = map_of (sort_key fst (map (\<lambda>(k, v). (k, nform h v)) kvs)) k"
    using assms(3) unfolding nform_obj n sort_key_map_snd [symmetric] by simp
  also have "\<dots> = map_of (map (\<lambda>(k, v). (k, nform h v)) kvs) k"
    using assms(2) by (intro map_of_sort_key) (simp only: map_fst_map_snd)
  also have "\<dots> = map_option (nform h) (map_of kvs k)"
    by (simp add: map_of_map)
  finally show ?thesis .
qed

lemma nform_fields_eq:
  assumes "nfc_ok h" and "nform h (JObj (intent_binding i)) = nform h (JObj (intent_binding j))"
    and "k \<in> set INTENT_BINDING_FIELDS"
  shows "nform h (getp (JObj (intent_fields i)) k) = nform h (getp (JObj (intent_fields j)) k)"
proof -
  obtain ms where ms: "nform h (JObj (intent_binding i)) = JObj ms" by simp
  note look = nform_lookup [OF _ binding_keys_distinct]
  have "map_option (nform h) (map_of (intent_binding i) k) = map_option (nform h) (map_of (intent_binding j) k)"
    using look [of i h ms k] look [of j h ms k] binding_keys_nfc [OF assms(1)] ms assms(2)
    by auto
  moreover have "nform h v \<noteq> JUndef" if "v \<noteq> JUndef" for v
    using that by (cases v) auto
  ultimately show ?thesis
    using assms(3) by (auto simp: binding_lookup Let_def split: if_splits)
qed

end
