(* ===== verification/TrustedTime.thy ===== *)
theory TrustedTime
  imports Types
begin

text \<open>
  \<open>policy/trustedTimeValidation.ts\<close>, \<open>trustedTimeProfile.ts\<close> and \<open>verifyTrustedTime.ts\<close>: the
  numeric domain of trusted times and the freshness gate.
\<close>

fun isProtocolSeconds :: "jsval \<Rightarrow> bool" where
  "isProtocolSeconds (JNum n) = (is_safe_integer n \<and> num_le (jint 0) n)"
| "isProtocolSeconds _ = False"

definition assertProtocolSeconds :: "jsval \<Rightarrow> string \<Rightarrow> unit res" where
  "assertProtocolSeconds v label =
     (if isProtocolSeconds v then Inr ()
      else Inl (Thrown (label @ '' must be a finite, non-negative safe integer (unix seconds)'')))"

text \<open>\<open>RECOMMENDED_TRUSTED_TIME_PROFILE\<close>\<close>

definition recommended_skew :: jsnum where
  "recommended_skew = jint 300"

definition recommended_age :: jsnum where
  "recommended_age = jint 300"

definition verifyTrustedTime :: "jsnum \<Rightarrow> jsnum \<Rightarrow> jsnum \<Rightarrow> jsnum \<Rightarrow> policy_result res" where
  "verifyTrustedTime intentTimestamp evalTime maxClockSkewSeconds maxIntentAgeSeconds =
     (if \<not> isProtocolSeconds (JNum evalTime)
      then Inl (Thrown ''verifyTrustedTime: evaluationTime must be a finite, non-negative safe integer (unix seconds)'')
      else if \<not> isProtocolSeconds (JNum maxClockSkewSeconds)
      then Inl (Thrown ''verifyTrustedTime: maxClockSkewSeconds must be a finite, non-negative safe integer'')
      else if \<not> isProtocolSeconds (JNum maxIntentAgeSeconds)
      then Inl (Thrown ''verifyTrustedTime: maxIntentAgeSeconds must be a finite, non-negative safe integer'')
      else if \<not> isProtocolSeconds (JNum intentTimestamp) then Inr (Deny [STATE_INVALID])
      else let delta = num_sub intentTimestamp evalTime
           in if num_lt maxClockSkewSeconds delta then Inr (Deny [INTENT_FRESHNESS_FUTURE])
              else if num_lt maxIntentAgeSeconds (num_neg delta) then Inr (Deny [INTENT_STALE])
              else Inr (Allow None))"

lemma isProtocolSeconds_iff: "isProtocolSeconds v \<longleftrightarrow> (\<exists>i. v = JNum (jint i) \<and> 0 \<le> i \<and> i \<le> max_safe)"
  by (cases v) (auto simp: is_safe_integer_jint)

lemma isProtocolSecondsE:
  assumes "isProtocolSeconds v"
  obtains i where "v = JNum (jint i)" "0 \<le> i" "i \<le> max_safe"
  using assms by (auto simp: isProtocolSeconds_iff)

lemma isProtocolSeconds_jint [simp]: "isProtocolSeconds (JNum (jint i)) \<longleftrightarrow> 0 \<le> i \<and> i \<le> max_safe"
  by (auto simp: isProtocolSeconds_iff)

declare isProtocolSeconds.simps(1) [simp del]

lemma assertProtocolSeconds_Inr [simp]: "assertProtocolSeconds v l = Inr () \<longleftrightarrow> isProtocolSeconds v"
  by (simp add: assertProtocolSeconds_def)

text \<open>On trusted inputs the gate is the closed interval around the trusted clock.\<close>

lemma verifyTrustedTime_seconds:
  assumes "0 \<le> t" "t \<le> max_safe" "0 \<le> s" "s \<le> max_safe" "0 \<le> a" "a \<le> max_safe"
  shows "verifyTrustedTime ts (jint t) (jint s) (jint a) = Inr
    (if \<not> isProtocolSeconds (JNum ts) then Deny [STATE_INVALID]
     else if t + s < int_of ts then Deny [INTENT_FRESHNESS_FUTURE]
     else if int_of ts < t - a then Deny [INTENT_STALE]
     else Allow None)"
proof (cases "isProtocolSeconds (JNum ts)")
  case True
  then obtain i where i: "ts = jint i" "0 \<le> i" "i \<le> max_safe" by (auto elim: isProtocolSecondsE)
  then have "num_sub ts (jint t) = jint (i - t)" using assms by (simp add: num_sub_seconds)
  with i True assms show ?thesis by (auto simp: verifyTrustedTime_def)
qed (use assms in \<open>simp add: verifyTrustedTime_def\<close>)

lemma verifyTrustedTime_Allow:
  assumes "verifyTrustedTime ts t s a = Inr (Allow d)"
  obtains i j k l where "ts = jint i" "t = jint j" "s = jint k" "a = jint l"
    "0 \<le> i" "i \<le> max_safe" "0 \<le> j" "j \<le> max_safe" "0 \<le> k" "k \<le> max_safe" "0 \<le> l" "l \<le> max_safe"
    "i \<le> j + k" "j \<le> i + l" "d = None"
proof -
  have "isProtocolSeconds (JNum t)" "isProtocolSeconds (JNum s)" "isProtocolSeconds (JNum a)"
    "isProtocolSeconds (JNum ts)"
    using assms by (auto simp: verifyTrustedTime_def split: if_splits)
  then obtain i j k l where v: "ts = jint i" "t = jint j" "s = jint k" "a = jint l"
    "0 \<le> i" "i \<le> max_safe" "0 \<le> j" "j \<le> max_safe" "0 \<le> k" "k \<le> max_safe" "0 \<le> l" "l \<le> max_safe"
    by (auto elim!: isProtocolSecondsE)
  with assms show thesis
    by (intro that [of i j k l]) (auto simp: verifyTrustedTime_seconds split: if_splits)
qed

end
