(* ===== verification/PolicyModule.thy ===== *)
theory PolicyModule
  imports TrustedTime
begin

text \<open>
  The interface between the engine and its policy modules (\<open>PolicyModule\<close> of \<open>types/policy.ts\<close>).
  The locale states what the decision runner relies on: a refusal names a reason, and an admission
  proposes at most one delta, which touches the module's own slice of the state and nothing else.
  Each module theory interprets the locale on the module's model.
\<close>

section \<open>Reading and replacing parts of the state\<close>

text \<open>\<open>v.a.b\<close> throws on a missing inner object, \<open>v?.a?.b\<close> yields \<open>undefined\<close>.\<close>

fun pathE :: "jsval \<Rightarrow> string list \<Rightarrow> jsval res" where
  "pathE v [] = Inr v"
| "pathE v (k # ks) = bindE (propE v k) (\<lambda>w. pathE w ks)"

fun path :: "jsval \<Rightarrow> string list \<Rightarrow> jsval" where
  "path v [] = v"
| "path v (k # ks) = path (getp v k) ks"

lemma pathE_InrD: "pathE v ks = Inr w \<Longrightarrow> w = path v ks"
  by (induction ks arbitrary: v) (auto simp: bindE_eq_Inr dest!: propE_InrD)

lemma getp_nullish: "getp v k \<noteq> JUndef \<Longrightarrow> propE v k = Inr (getp v k)"
  by (cases v) (auto simp: propE_def)

lemma path_undef [simp]: "path JUndef ks = JUndef"
  by (induction ks) auto

lemma pathE_defined: "path v ks \<noteq> JUndef \<Longrightarrow> pathE v ks = Inr (path v ks)"
proof (induction ks arbitrary: v)
  case (Cons k ks)
  then have "getp v k \<noteq> JUndef" by (cases "getp v k") auto
  with Cons show ?case by (simp add: getp_nullish)
qed simp

lemma pathE_object: "is_object v \<Longrightarrow> pathE v (k # ks) = pathE (getp v k) ks"
  by (simp add: propE_object)

lemma wf_js_path: "wf_js v \<Longrightarrow> wf_js (path v ks)"
  by (induction ks arbitrary: v) (auto intro: wf_js_getp)

text \<open>\<open>spent + amount\<close>: addition with a bigint on the right.\<close>

fun add_big :: "host \<Rightarrow> jsval \<Rightarrow> int \<Rightarrow> jsval res" where
  "add_big h (JBig j) i = Inr (JBig (j + i))"
| "add_big h (JStr s) i = Inr (JStr (s @ int_str i))"
| "add_big h (JArr xs) i = Inr (JStr (js_string h (JArr xs) @ int_str i))"
| "add_big h (JObj kvs) i = Inr (JStr (js_string h (JObj kvs) @ int_str i))"
| "add_big h JFun i = Inr (JStr (js_string h JFun @ int_str i))"
| "add_big h _ i = Inl TypeError"

lemma wf_js_add_big: "add_big h v i = Inr w \<Longrightarrow> wf_js w"
  by (cases v) auto

text \<open>\<open>xs.includes(v)\<close> on a list or a text; nothing else has the method.\<close>

fun includesE :: "host \<Rightarrow> jsval \<Rightarrow> jsval \<Rightarrow> bool res" where
  "includesE h (JArr xs) v = Inr (v \<in> set xs)"
| "includesE h (JStr s) v = Inr (contains_sub s (js_string h v))"
| "includesE h _ v = Inl TypeError"

text \<open>An array method called on a value that is no array: the method is missing.\<close>

fun as_listE :: "jsval \<Rightarrow> jsval list res" where
  "as_listE (JArr xs) = Inr xs"
| "as_listE _ = Inl TypeError"

lemma as_listE_Inr [simp]: "as_listE v = Inr xs \<longleftrightarrow> v = JArr xs"
  by (cases v) auto

section \<open>The contract of a module\<close>

locale policy_module =
  fixes eval :: module_eval and slice :: string
  assumes deny_reasons: "eval i st c = Inr (Deny rs) \<Longrightarrow> rs \<noteq> []"
    and allow_delta: "eval i st c = Inr (Allow (Some d)) \<Longrightarrow> \<exists>x. d = JObj [(slice, x)] \<and> is_plain x"
    and delta_wf: "eval i st c = Inr (Allow (Some d)) \<Longrightarrow> wf_js st \<Longrightarrow> wf_js d"
begin

lemma allowE:
  assumes "eval i st c = Inr (Allow d)"
  obtains "d = None" | x where "d = Some (JObj [(slice, x)])" "is_plain x"
  using assms allow_delta [of i st c] by (cases d) auto

end

text \<open>What the state becomes when the runner applies a proposed delta.\<close>

fun apply_delta :: "jsval \<Rightarrow> jsval option \<Rightarrow> jsval" where
  "apply_delta st None = st"
| "apply_delta st (Some d) = (if truthy d then deepMerge st d else st)"

context policy_module begin

text \<open>Merging the delta leaves every other property of the state as it was.\<close>

lemma other_slices_kept:
  assumes "eval i st c = Inr (Allow d)" and "is_plain w" and "k \<noteq> slice"
  shows "getp (apply_delta w d) k = getp w k"
  using assms(1)
proof (cases rule: allowE)
  case (2 x)
  with assms(2,3) show ?thesis by (simp add: getp_merge_single)
qed simp

lemma delta_plain:
  assumes "eval i st c = Inr (Allow d)" and "is_plain w"
  shows "is_plain (apply_delta w d)"
  using assms(1) by (cases rule: allowE) (use assms(2) in \<open>auto intro: is_plain_deepMerge\<close>)

lemma delta_keeps_wf:
  assumes "eval i st c = Inr (Allow d)" and "wf_js st" and "is_plain w" and "wf_js w"
  shows "wf_js (apply_delta w d)"
  using assms(1)
proof (cases rule: allowE)
  case (2 x)
  with delta_wf [of i st c] assms have "wf_js (JObj [(slice, x)])" by blast
  with assms 2 show ?thesis by (auto intro!: wf_js_deepMerge)
qed (use assms in simp)

end

lemmas wf_delta = wf_js_spread_set wf_js_getp wf_js_path wf_js_add_big

end
