(* ===== verification/SimpleModules.thy ===== *)
theory SimpleModules
  imports PolicyModule
begin

text \<open>
  The policy modules without a history of their own: \<open>KillSwitchModule\<close>, \<open>AllowlistModule\<close>,
  \<open>RecursionDepthModule\<close> and \<open>BudgetModule\<close> (\<open>policy/modules/\<close>), with what each decides on a state
  whose leaves have the declared types.
\<close>

section \<open>Kill switch\<close>

definition KillSwitchModule :: module_eval where
  "KillSwitchModule i st c =
     bindE (pathE st [''kill_switch'', ''global'']) (\<lambda>global.
       if truthy global then Inr (Deny [KILL_SWITCH])
       else bindE (pathE st [''kill_switch'', ''agents'', agent_id i]) (\<lambda>a.
         if a = JBool True then Inr (Deny [KILL_SWITCH]) else Inr (Allow None)))"

lemma KillSwitch_Allow:
  assumes "KillSwitchModule i st c = Inr (Allow d)"
  shows "\<not> truthy (path st [''kill_switch'', ''global''])"
    and "path st [''kill_switch'', ''agents'', agent_id i] \<noteq> JBool True" and "d = None"
  using assms
  by (auto simp: KillSwitchModule_def bindE_eq_Inr split: if_splits dest!: propE_InrD)

interpretation kill: policy_module KillSwitchModule "''kill_switch''"
  by unfold_locales (auto simp: KillSwitchModule_def bindE_eq_Inr split: if_splits)

section \<open>Allowlist\<close>

text \<open>\<open>list && list.length > 0 && !list.includes(v)\<close>\<close>

definition excludedE :: "host \<Rightarrow> jsval \<Rightarrow> jsval \<Rightarrow> bool res" where
  "excludedE h xs v =
     (if \<not> truthy xs then Inr False
      else if \<not> js_lt (JNum (jint 0)) (getp xs ''length'') then Inr False
      else bindE (includesE h xs v) (\<lambda>b. Inr (\<not> b)))"

definition AllowlistModule :: "host \<Rightarrow> module_eval" where
  "AllowlistModule h i st c =
     bindE (propE st ''allowlists'') (\<lambda>al.
     bindE (propE al ''action_types'') (\<lambda>action_types.
     bindE (excludedE h action_types (opt_val JStr (action_type i))) (\<lambda>bad_action.
     bindE (propE al ''assets'') (\<lambda>assets.
     bindE (if truthy (opt_val JStr (asset i)) then excludedE h assets (opt_val JStr (asset i)) else Inr False)
       (\<lambda>bad_asset.
     bindE (propE al ''targets'') (\<lambda>targets.
     bindE (excludedE h targets (JStr (target i))) (\<lambda>bad_target.
       let reasons = (if bad_action then [ALLOWLIST_ACTION] else [])
             @ (if bad_asset then [ALLOWLIST_ASSET] else [])
             @ (if bad_target then [ALLOWLIST_TARGET] else [])
       in Inr (if reasons \<noteq> [] then Deny reasons else Allow None))))))))"

lemma excludedE_list:
  "excludedE h (JArr xs) v = Inr (xs \<noteq> [] \<and> v \<notin> set xs)"
  by (simp add: excludedE_def)

lemma excludedE_undefined [simp]: "excludedE h JUndef v = Inr False"
  by (simp add: excludedE_def)

interpretation allowlist: policy_module "AllowlistModule h" "''allowlists''" for h
  by unfold_locales (auto simp: AllowlistModule_def bindE_eq_Inr Let_def split: if_splits)

section \<open>Recursion depth\<close>

definition RecursionDepthModule :: module_eval where
  "RecursionDepthModule i st c =
     bindE (propE st ''recursion'') (\<lambda>recursion.
       let max = path recursion [''max_depth'', agent_id i]
       in if max = JUndef then Inr (Deny [STATE_INVALID])
          else let d = (case depth i of None \<Rightarrow> jint 0 | Some n \<Rightarrow> n)
               in if js_lt max (JNum d) then Inr (Deny [RECURSION_DEPTH_EXCEEDED]) else Inr (Allow None))"

lemma RecursionDepth_Allow:
  assumes "RecursionDepthModule i st c = Inr (Allow d)"
  shows "d = None" and "path st [''recursion'', ''max_depth'', agent_id i] = JNum m \<Longrightarrow>
    depth i = Some n \<Longrightarrow> \<not> num_lt m n"
  using assms
  by (auto simp: RecursionDepthModule_def bindE_eq_Inr Let_def split: if_splits dest!: propE_InrD)

interpretation recursion: policy_module RecursionDepthModule "''recursion''"
  by unfold_locales (auto simp: RecursionDepthModule_def bindE_eq_Inr Let_def split: if_splits)

section \<open>Budget\<close>

definition BudgetModule :: "host \<Rightarrow> module_eval" where
  "BudgetModule h i st c =
     (if amount i < 0 then Inr (Deny [INTENT_AMOUNT_INVALID])
      else bindE (propE st ''budget'') (\<lambda>budget.
           bindE (pathE budget [''budget_limit'', agent_id i]) (\<lambda>limit.
           bindE (propE budget ''spent_in_period'') (\<lambda>spent_map.
           bindE (propE spent_map (agent_id i)) (\<lambda>spent0.
             let spent = coalesce spent0 (JBig 0)
             in if limit = JUndef then Inr (Deny [STATE_INVALID])
                else bindE (pathE st [''max_amount_per_action'', agent_id i]) (\<lambda>cap.
                  if cap = JUndef then Inr (Deny [STATE_INVALID])
                  else if js_lt cap (JBig (amount i)) then Inr (Deny [PER_ACTION_CAP_EXCEEDED])
                  else bindE (add_big h spent (amount i)) (\<lambda>total.
                    if js_lt limit total then Inr (Deny [BUDGET_EXCEEDED])
                    else Inr (Allow (Some (JObj [(''budget'',
                           spread_set budget ''spent_in_period''
                             (spread_set spent_map (agent_id i) total))]))))))))))"

interpretation budget: policy_module "BudgetModule h" "''budget''" for h
proof unfold_locales
  fix i st c d
  assume eval: "BudgetModule h i st c = Inr (Allow (Some d))"
  then obtain b sp t where d: "d = JObj [(''budget'', spread_set b ''spent_in_period'' (spread_set sp (agent_id i) t))]"
    and b: "b = getp st ''budget''" and sp: "sp = getp b ''spent_in_period''"
    and t: "add_big h (coalesce (getp sp (agent_id i)) (JBig 0)) (amount i) = Inr t"
    by (auto simp: BudgetModule_def bindE_eq_Inr Let_def split: if_splits dest!: propE_InrD)
  show "\<exists>x. d = JObj [(''budget'', x)] \<and> is_plain x" by (simp add: d)
  assume "wf_js st"
  then show "wf_js d"
    using wf_js_add_big [OF t] by (auto simp: d b sp intro!: wf_js_spread_set wf_js_getp)
qed (auto simp: BudgetModule_def bindE_eq_Inr Let_def split: if_splits)

text \<open>The agent's account in the declared types: its limit, its cap, and what it has spent.\<close>

definition spent_of :: "jsval \<Rightarrow> string \<Rightarrow> int option" where
  "spent_of st a =
     (case path st [''budget'', ''spent_in_period'', a] of
        JBig s \<Rightarrow> Some s | JUndef \<Rightarrow> Some 0 | _ \<Rightarrow> None)"

definition account :: "jsval \<Rightarrow> string \<Rightarrow> int \<Rightarrow> int \<Rightarrow> int \<Rightarrow> bool" where
  "account st a limit cap spent =
     (path st [''budget'', ''budget_limit'', a] = JBig limit \<and>
      path st [''max_amount_per_action'', a] = JBig cap \<and>
      is_object (path st [''budget'', ''spent_in_period'']) \<and> spent_of st a = Some spent)"

lemma spent_of_coalesce:
  assumes "spent_of st a = Some s"
  shows "coalesce (path st [''budget'', ''spent_in_period'', a]) (JBig 0) = JBig s"
  using assms by (auto simp: spent_of_def split: jsval.splits)

lemma BudgetModule_Allow:
  assumes "BudgetModule h i st c = Inr (Allow d)" and "account st (agent_id i) limit cap spent"
  shows "0 \<le> amount i" and "amount i \<le> cap" and "spent + amount i \<le> limit"
    and "d = Some (JObj [(''budget'', spread_set (getp st ''budget'') ''spent_in_period''
      (spread_set (path st [''budget'', ''spent_in_period'']) (agent_id i) (JBig (spent + amount i))))])"
  using assms spent_of_coalesce [of st "agent_id i" spent]
  by (auto simp: BudgetModule_def account_def bindE_eq_Inr Let_def split: if_splits dest!: propE_InrD)

text \<open>On a well-typed account the decision is exactly the three bounds, in this order.\<close>

lemma BudgetModule_decision:
  assumes "account st (agent_id i) limit cap spent"
  shows "BudgetModule h i st c = Inr
    (if amount i < 0 then Deny [INTENT_AMOUNT_INVALID]
     else if cap < amount i then Deny [PER_ACTION_CAP_EXCEEDED]
     else if limit < spent + amount i then Deny [BUDGET_EXCEEDED]
     else Allow (Some (JObj [(''budget'', spread_set (getp st ''budget'') ''spent_in_period''
       (spread_set (path st [''budget'', ''spent_in_period'']) (agent_id i) (JBig (spent + amount i))))])))"
proof -
  have p: "path st [''budget'', ''budget_limit'', agent_id i] = JBig limit"
    "path st [''max_amount_per_action'', agent_id i] = JBig cap"
    "is_object (path st [''budget'', ''spent_in_period''])"
    "coalesce (path st [''budget'', ''spent_in_period'', agent_id i]) (JBig 0) = JBig spent"
    using assms spent_of_coalesce [of st "agent_id i" spent] by (auto simp: account_def)
  then have "pathE st [''budget'', ''budget_limit'', agent_id i] = Inr (JBig limit)"
    "pathE st [''max_amount_per_action'', agent_id i] = Inr (JBig cap)"
    using pathE_defined [of st "[''budget'', ''budget_limit'', agent_id i]"]
      pathE_defined [of st "[''max_amount_per_action'', agent_id i]"] by auto
  moreover from this(1) have "propE st ''budget'' = Inr (getp st ''budget'')"
    "pathE (getp st ''budget'') [''budget_limit'', agent_id i] = Inr (JBig limit)"
    "propE (getp st ''budget'') ''spent_in_period'' = Inr (path st [''budget'', ''spent_in_period''])"
    using p(3) by (auto simp: bindE_eq_Inr propE_def split: if_splits)
  ultimately show ?thesis
    using p(3,4) by (simp add: BudgetModule_def propE_object Let_def)
qed

end
