(* ===== verification/Velocity.thy ===== *)
theory Velocity
  imports PolicyModule
begin

text \<open>
  \<open>VelocityModule\<close>: the fixed-window action limit. The module on JavaScript values refines
  \<open>vel_step\<close>, a step function on the agent's counter \<open>(window start, count)\<close> with integer times;
  over a run of steps no window admits more than the configured number of actions, and no
  interval shorter than the window more than twice that number.
\<close>

section \<open>The module\<close>

definition vel_counter :: "jsnum \<Rightarrow> jsnum \<Rightarrow> jsval" where
  "vel_counter start cnt = JObj [(''window_start'', JNum start), (''count'', JNum cnt)]"

definition vel_delta :: "jsval \<Rightarrow> string \<Rightarrow> jsval \<Rightarrow> jsval" where
  "vel_delta velocity a nextCounter =
     JObj [(''velocity'', spread_set velocity ''counters'' (spread_set (getp velocity ''counters'') a nextCounter))]"

definition vel_config_bad :: "jsval \<Rightarrow> bool" where
  "vel_config_bad velocity =
     (let cfg = getp velocity ''config''; counters = getp velocity ''counters''
      in \<not> truthy cfg \<or> \<not> is_plain counters \<or>
         \<not> v_safe_integer (getp cfg ''window_seconds'') \<or>
         js_le (getp cfg ''window_seconds'') (JNum (jint 0)) \<or>
         \<not> v_safe_integer (getp cfg ''max_actions'') \<or>
         js_lt (getp cfg ''max_actions'') (JNum (jint 0)))"

definition vel_counter_bad :: "jsval \<Rightarrow> jsnum \<Rightarrow> bool" where
  "vel_counter_bad c now =
     (c \<noteq> JUndef \<and>
      (\<not> is_object c \<or>
       \<not> v_safe_integer (getp c ''window_start'') \<or>
       js_lt (getp c ''window_start'') (JNum (jint 0)) \<or>
       \<not> v_safe_integer (getp c ''count'') \<or>
       js_lt (getp c ''count'') (JNum (jint 0)) \<or>
       js_lt (JNum now) (getp c ''window_start'')))"

definition VelocityModule :: module_eval where
  "VelocityModule i st ctx =
     bindE (propE st ''velocity'') (\<lambda>velocity.
       if vel_config_bad velocity then Inr (Deny [STATE_INVALID])
       else
         let window = to_number (path velocity [''config'', ''window_seconds'']);
             max_actions = to_number (path velocity [''config'', ''max_actions'']);
             now = evaluationTime ctx;
             c = path velocity [''counters'', agent_id i]
         in if vel_counter_bad c now then Inr (Deny [STATE_INVALID])
            else if \<not> truthy c \<or> num_le window (num_sub now (to_number (getp c ''window_start'')))
            then if num_lt max_actions (jint 1) then Inr (Deny [VELOCITY_EXCEEDED])
                 else Inr (Allow (Some (vel_delta velocity (agent_id i) (vel_counter now (jint 1)))))
            else if num_le max_actions (to_number (getp c ''count'')) then Inr (Deny [VELOCITY_EXCEEDED])
            else Inr (Allow (Some (vel_delta velocity (agent_id i)
                   (vel_counter (to_number (getp c ''window_start''))
                      (num_add (to_number (getp c ''count'')) (jint 1)))))))"

interpretation velocity: policy_module VelocityModule "''velocity''"
proof unfold_locales
  fix i st c d
  assume "VelocityModule i st c = Inr (Allow (Some d))"
  then obtain n k where d: "d = vel_delta (getp st ''velocity'') (agent_id i) (vel_counter n k)"
    by (auto simp: VelocityModule_def bindE_eq_Inr Let_def split: if_splits dest!: propE_InrD)
  show "\<exists>x. d = JObj [(''velocity'', x)] \<and> is_plain x" by (simp add: d vel_delta_def)
  assume "wf_js st"
  then show "wf_js d"
    by (auto simp: d vel_delta_def vel_counter_def intro!: wf_js_spread_set wf_js_getp)
qed (auto simp: VelocityModule_def bindE_eq_Inr Let_def split: if_splits)

section \<open>The window automaton\<close>

fun vel_step :: "int \<Rightarrow> int \<Rightarrow> (int \<times> int) option \<Rightarrow> int \<Rightarrow> (int \<times> int) option" where
  "vel_step W M None now = (if M < 1 then None else Some (now, 1))"
| "vel_step W M (Some (s, n)) now =
     (if now < s then None
      else if W \<le> now - s then (if M < 1 then None else Some (now, 1))
      else if M \<le> n then None else Some (s, n + 1))"

fun counter_is :: "jsval \<Rightarrow> (int \<times> int) option \<Rightarrow> bool" where
  "counter_is c None = (c = JUndef)"
| "counter_is c (Some (s, n)) =
     (is_object c \<and> getp c ''window_start'' = JNum (jint s) \<and> getp c ''count'' = JNum (jint n) \<and>
      0 \<le> s \<and> s \<le> max_safe \<and> 0 \<le> n \<and> n \<le> max_safe)"

definition vel_state :: "jsval \<Rightarrow> string \<Rightarrow> int \<Rightarrow> int \<Rightarrow> (int \<times> int) option \<Rightarrow> bool" where
  "vel_state velocity a W M c =
     (path velocity [''config'', ''window_seconds''] = JNum (jint W) \<and> 0 < W \<and> W \<le> max_safe \<and>
      path velocity [''config'', ''max_actions''] = JNum (jint M) \<and> 0 \<le> M \<and> M \<le> max_safe \<and>
      is_object (getp velocity ''config'') \<and> is_plain (getp velocity ''counters'') \<and>
      counter_is (path velocity [''counters'', a]) c)"

lemma truthy_object: "is_object v \<Longrightarrow> truthy v"
  by (cases v) auto

lemma vel_stateD:
  assumes "vel_state velocity a W M c"
  shows "\<not> vel_config_bad velocity" "to_number (path velocity [''config'', ''window_seconds'']) = jint W"
    "to_number (path velocity [''config'', ''max_actions'']) = jint M"
  using assms
  by (auto simp: vel_state_def vel_config_bad_def Let_def truthy_object propE_def)

lemma counter_is_bad:
  assumes "counter_is c x" and "0 \<le> t" "t \<le> max_safe"
  shows "vel_counter_bad c (jint t) \<longleftrightarrow> (\<exists>s n. x = Some (s, n) \<and> t < s)"
  using assms by (cases x) (auto simp: vel_counter_bad_def)

text \<open>The module takes the step of the automaton, or refuses where the automaton has none.\<close>

lemma VelocityModule_refines:
  assumes "vel_state (getp st ''velocity'') (agent_id i) W M c"
    and "evaluationTime ctx = jint t" "0 \<le> t" "t \<le> max_safe"
  shows "VelocityModule i st ctx = Inr
    (case vel_step W M c t of
       Some (s, n) \<Rightarrow> Allow (Some (vel_delta (getp st ''velocity'') (agent_id i) (vel_counter (jint s) (jint n))))
     | None \<Rightarrow> Deny [if \<exists>s n. c = Some (s, n) \<and> t < s then STATE_INVALID else VELOCITY_EXCEEDED])"
proof -
  let ?v = "getp st ''velocity''"
  have "?v \<noteq> JUndef" using assms(1) by (auto simp: vel_state_def)
  then have v: "propE st ''velocity'' = Inr ?v" by (rule getp_nullish)
  note d = vel_stateD [OF assms(1), simplified]
  have c: "counter_is (path ?v [''counters'', agent_id i]) c" using assms(1) by (simp add: vel_state_def)
  have M: "0 \<le> M" "M \<le> max_safe" using assms(1) by (auto simp: vel_state_def)
  note bad = counter_is_bad [OF c assms(3,4)]
  show ?thesis
  proof (cases c)
    case None
    with c bad assms(2) show ?thesis
      by (simp add: VelocityModule_def v d Let_def)
  next
    case (Some x)
    obtain s n where x: "x = (s, n)" by (cases x)
    have p: "is_object (path ?v [''counters'', agent_id i])"
      "getp (path ?v [''counters'', agent_id i]) ''window_start'' = JNum (jint s)"
      "getp (path ?v [''counters'', agent_id i]) ''count'' = JNum (jint n)"
      and r: "0 \<le> s" "s \<le> max_safe" "0 \<le> n" "n \<le> max_safe"
      using c Some x by auto
    have sub: "num_sub (jint t) (jint s) = jint (t - s)" using assms(3,4) r by (rule_tac num_sub_seconds) auto
    have add: "\<not> M \<le> n \<Longrightarrow> num_add (jint n) (jint 1) = jint (n + 1)"
      using M r by (intro num_add_seconds) auto
    show ?thesis
      unfolding VelocityModule_def v d bindE_simps Let_def assms(2)
      using bad p truthy_object [OF p(1)] sub add by (simp add: d Some x)
  qed
qed

section \<open>Runs of the automaton\<close>

text \<open>\<open>vel_run W M c ts\<close>: the times at which an action is admitted, out of the times it is asked for.\<close>

fun vel_run :: "int \<Rightarrow> int \<Rightarrow> (int \<times> int) option \<Rightarrow> int list \<Rightarrow> int list" where
  "vel_run W M c [] = []"
| "vel_run W M c (t # ts) =
     (case vel_step W M c t of
        Some c' \<Rightarrow> t # vel_run W M (Some c') ts
      | None \<Rightarrow> vel_run W M c ts)"

abbreviation hits :: "int \<Rightarrow> int \<Rightarrow> int list \<Rightarrow> nat" where
  "hits x W ts \<equiv> length (filter (\<lambda>t. x \<le> t \<and> t < x + W) ts)"

lemma vel_run_sub: "set (vel_run W M c ts) \<subseteq> set ts"
  by (induction W M c ts rule: vel_run.induct) (auto split: option.splits)

lemma within_later: "\<forall>t \<in> set ts. x + W \<le> t \<Longrightarrow> hits x W (vel_run W M c ts) = 0"
  using vel_run_sub [of W M c ts] by (fastforce simp: filter_empty_conv)

text \<open>The interval ends within the current window: only its remaining actions can fall into it.\<close>

lemma within_current:
  assumes "sorted ts" and "x \<le> s" and "0 < W"
  shows "hits x W (vel_run W M (Some (s, n)) ts) \<le> nat (M - n)"
  using assms(1)
proof (induction ts arbitrary: n)
  case (Cons t ts)
  have later: "W \<le> t - s \<Longrightarrow> \<forall>u \<in> set (t # ts). x + W \<le> u"
    using Cons.prems assms(2) by auto
  show ?case
  proof (cases "W \<le> t - s")
    case True
    with within_later [OF later, of M "Some (s, n)"] show ?thesis by simp
  next
    case False
    with Cons.IH [of n] Cons.IH [of "n + 1"] Cons.prems show ?thesis by auto
  qed
qed simp

text \<open>The interval has begun: the current window and at most one more reach into it.\<close>

lemma within_begun:
  assumes "sorted ts" and "\<forall>t \<in> set ts. x \<le> t" and "0 < W"
  shows "hits x W (vel_run W M (Some (s, n)) ts) \<le> nat (M - n) + nat M"
  using assms(1,2)
proof (induction ts arbitrary: n)
  case (Cons t ts)
  have "hits x W (vel_run W M (Some (t, 1)) ts) \<le> nat (M - 1)"
    using Cons.prems assms(3) by (intro within_current) auto
  with Cons.IH [of n] Cons.IH [of "n + 1"] Cons.prems show ?case by auto
qed simp

lemma within_any:
  assumes "sorted ts" and "\<And>s n. c = Some (s, n) \<Longrightarrow> 0 \<le> n" and "0 < W"
  shows "hits x W (vel_run W M c ts) \<le> 2 * nat M"
  using assms(1,2)
proof (induction ts arbitrary: c)
  case (Cons t ts)
  show ?case
  proof (cases "t < x")
    case True
    have "0 \<le> n'" if "vel_step W M c t = Some (s', n')" for s' n'
      using that Cons.prems(2) by (cases c) (auto split: if_splits)
    with True Cons show ?thesis by (auto split: option.splits)
  next
    case False
    then have begun: "\<forall>u \<in> set (t # ts). x \<le> u" using Cons.prems by auto
    show ?thesis
    proof (cases c)
      case None
      have "hits x W (vel_run W M (Some (t, 1)) ts) \<le> nat (M - 1)"
        using Cons.prems False assms(3) by (intro within_current) auto
      with None Cons.prems Cons.IH [of None] show ?thesis by auto
    next
      case (Some p)
      then have "0 \<le> snd p" using Cons.prems(2) by (cases p) auto
      with Some within_begun [OF Cons.prems(1) begun assms(3), of M "fst p" "snd p"] show ?thesis
        by simp
    qed
  qed
qed simp

end
