(* ===== verification/NonceReplay.thy ===== *)
theory NonceReplay
  imports PolicyModule
begin

text \<open>
  \<open>ReplayModule\<close>: the nonces an agent has used, each with the trusted time of its use. Entries are
  dropped when they leave the retention interval, which is never shorter than the freshness
  horizon the engine supplies; a live entry is never evicted to make room.
\<close>

section \<open>The module\<close>

definition nonceKey :: "intent \<Rightarrow> string" where
  "nonceKey i = int_str (nonce i)"

definition replay_config_bad :: "jsval \<Rightarrow> bool" where
  "replay_config_bad cfg =
     (let w = getp cfg ''window_seconds''; n = getp cfg ''max_nonces_per_agent''
      in \<not> truthy cfg \<or> \<not> is_number w \<or> \<not> is_number n \<or>
         is_nan (to_number w) \<or> num_lt (to_number w) (jint 0) \<or>
         is_nan (to_number n) \<or> num_lt (to_number n) (jint 1))"

definition retention :: "jsval \<Rightarrow> eval_context \<Rightarrow> jsnum" where
  "retention cfg ctx =
     (let w = to_number (getp cfg ''window_seconds'')
      in case freshnessHorizonSeconds ctx of None \<Rightarrow> w | Some hz \<Rightarrow> num_max w hz)"

definition retainedE :: "jsnum \<Rightarrow> jsval \<Rightarrow> bool res" where
  "retainedE windowStart x = bindE (propE x ''ts'') (\<lambda>ts. Inr (js_le (JNum windowStart) ts))"

definition same_nonceE :: "string \<Rightarrow> jsval \<Rightarrow> bool res" where
  "same_nonceE n x = bindE (propE x ''nonce'') (\<lambda>v. Inr (v = JStr n))"

definition nonce_entry :: "string \<Rightarrow> jsnum \<Rightarrow> jsval" where
  "nonce_entry n now = JObj [(''nonce'', JStr n), (''ts'', JNum now)]"

definition ReplayModule :: module_eval where
  "ReplayModule i st ctx =
     bindE (propE st ''replay'') (\<lambda>cfg.
       if replay_config_bad cfg then Inr (Deny [STATE_INVALID])
       else
         let now = evaluationTime ctx;
             windowStart = num_sub now (retention cfg ctx);
             n = nonceKey i
         in bindE (pathE cfg [''nonces'', agent_id i]) (\<lambda>list0.
            bindE (as_listE (coalesce list0 (JArr []))) (\<lambda>list.
            bindE (filterE (retainedE windowStart) list) (\<lambda>pruned.
            bindE (someE (same_nonceE n) pruned) (\<lambda>dup.
              if dup then Inr (Deny [REPLAY_NONCE])
              else if num_le (to_number (getp cfg ''max_nonces_per_agent'')) (jint (int (length pruned)))
              then Inr (Deny [VELOCITY_EXCEEDED])
              else Inr (Allow (Some (JObj [(''replay'',
                     spread_set cfg ''nonces''
                       (spread_set (getp cfg ''nonces'') (agent_id i)
                         (JArr (pruned @ [nonce_entry n now]))))]))))))))"

text \<open>What an admission shows about the state it was evaluated on.\<close>

definition replay_list :: "jsval \<Rightarrow> string \<Rightarrow> jsval list" where
  "replay_list st a = (case path st [''replay'', ''nonces'', a] of JArr xs \<Rightarrow> xs | _ \<Rightarrow> [])"

lemma ReplayModule_AllowE:
  assumes "ReplayModule i st ctx = Inr (Allow d)"
  obtains pruned where
    "filterE (retainedE (num_sub (evaluationTime ctx) (retention (getp st ''replay'') ctx)))
       (replay_list st (agent_id i)) = Inr pruned"
    "someE (same_nonceE (nonceKey i)) pruned = Inr False"
    "num_lt (jint (int (length pruned))) (to_number (path st [''replay'', ''max_nonces_per_agent'']))"
    "d = Some (JObj [(''replay'', spread_set (getp st ''replay'') ''nonces''
       (spread_set (path st [''replay'', ''nonces'']) (agent_id i)
         (JArr (pruned @ [nonce_entry (nonceKey i) (evaluationTime ctx)]))))])"
    "\<not> replay_config_bad (getp st ''replay'')"
proof -
  let ?cfg = "getp st ''replay''"
  have ok: "\<not> replay_config_bad ?cfg"
    using assms by (auto simp: ReplayModule_def bindE_eq_Inr split: if_splits dest!: propE_InrD)
  then obtain m where m: "path st [''replay'', ''max_nonces_per_agent''] = JNum m" "\<not> is_nan m"
    by (cases "getp ?cfg ''max_nonces_per_agent''") (auto simp: replay_config_bad_def Let_def)
  obtain list0 list pruned where l0: "pathE ?cfg [''nonces'', agent_id i] = Inr list0"
    and l: "coalesce list0 (JArr []) = JArr list"
    and f: "filterE (retainedE (num_sub (evaluationTime ctx) (retention ?cfg ctx))) list = Inr pruned"
    and s: "someE (same_nonceE (nonceKey i)) pruned = Inr False"
    and cap: "\<not> num_le m (jint (int (length pruned)))"
    and d: "d = Some (JObj [(''replay'', spread_set ?cfg ''nonces''
       (spread_set (path st [''replay'', ''nonces'']) (agent_id i)
         (JArr (pruned @ [nonce_entry (nonceKey i) (evaluationTime ctx)]))))])"
    using assms m
    by (auto simp del: pathE.simps simp: ReplayModule_def bindE_eq_Inr Let_def split: if_splits
        dest!: propE_InrD)
  have "replay_list st (agent_id i) = list"
    using pathE_InrD [OF l0] l by (auto simp: replay_list_def coalesce_def nullish_def split: if_splits)
  then show thesis
    using f s cap d m ok by (intro that [of pruned]) (auto simp: num_le_not_less)
qed

interpretation replay: policy_module ReplayModule "''replay''"
proof unfold_locales
  fix i st c d
  assume "ReplayModule i st c = Inr (Allow (Some d))"
  then obtain pruned where f: "filterE (retainedE (num_sub (evaluationTime c) (retention (getp st ''replay'') c)))
       (replay_list st (agent_id i)) = Inr pruned"
    and d: "d = JObj [(''replay'', spread_set (getp st ''replay'') ''nonces''
       (spread_set (path st [''replay'', ''nonces'']) (agent_id i)
         (JArr (pruned @ [nonce_entry (nonceKey i) (evaluationTime c)]))))]"
    by (rule ReplayModule_AllowE) auto
  show "\<exists>x. d = JObj [(''replay'', x)] \<and> is_plain x" by (simp add: d)
  assume wf: "wf_js st"
  then have "\<forall>x \<in> set (replay_list st (agent_id i)). wf_js x"
    using wf_js_path [OF wf, of "[''replay'', ''nonces'', agent_id i]"]
    by (cases "path st [''replay'', ''nonces'', agent_id i]") (simp_all add: replay_list_def)
  then have "\<forall>x \<in> set pruned. wf_js x" using filterE_InrD [OF f] by auto
  then have "wf_js (JArr (pruned @ [nonce_entry (nonceKey i) (evaluationTime c)]))"
    by (auto simp: nonce_entry_def)
  with wf show "wf_js d"
    by (auto simp: d intro!: wf_js_spread_set wf_js_getp)
qed (auto simp: ReplayModule_def bindE_eq_Inr Let_def split: if_splits jsval.splits)

section \<open>Recorded nonces\<close>

text \<open>Agent \<open>a\<close> used nonce \<open>n\<close> at time \<open>t\<close>, and the state remembers it.\<close>

definition recorded :: "jsval \<Rightarrow> string \<Rightarrow> string \<Rightarrow> int \<Rightarrow> bool" where
  "recorded st a n t =
     (\<exists>e \<in> set (replay_list st a). getp e ''nonce'' = JStr n \<and> getp e ''ts'' = JNum (jint t))"

lemma retained_seconds:
  assumes "getp e ''ts'' = JNum (jint t)" and "retainedE ws e = Inr b"
  shows "b \<longleftrightarrow> num_le ws (jint t)"
  using assms by (auto simp: retainedE_def bindE_eq_Inr dest!: propE_InrD)

lemma retention_covers:
  assumes "\<not> replay_config_bad cfg" and "freshnessHorizonSeconds ctx = Some hz" and "\<not> is_nan hz"
  shows "num_le hz (retention cfg ctx)"
proof -
  have "\<not> is_nan (to_number (getp cfg ''window_seconds''))"
    using assms(1) by (simp add: replay_config_bad_def Let_def)
  with assms(2,3) show ?thesis by (simp add: retention_def Let_def num_max_ge)
qed

lemma recorded_retained:
  assumes "recorded st a n t" and "filterE (retainedE ws) (replay_list st a) = Inr pruned"
    and "num_le ws (jint t)"
  shows "\<exists>e \<in> set pruned. getp e ''nonce'' = JStr n \<and> getp e ''ts'' = JNum (jint t)"
proof -
  obtain e where e: "e \<in> set (replay_list st a)" "getp e ''nonce'' = JStr n" "getp e ''ts'' = JNum (jint t)"
    using assms(1) by (auto simp: recorded_def)
  note f = filterE_InrD [OF assms(2)]
  with e(1) obtain b where b: "retainedE ws e = Inr b" by blast
  with retained_seconds [OF e(3) b] assms(3) have "retainedE ws e = Inr True" by simp
  with f e show ?thesis by auto
qed

text \<open>
  A nonce recorded at most a freshness horizon ago is refused, whatever the configured window.
  The horizon is a number of seconds or unbounded.
\<close>

lemma replay_window:
  assumes "\<not> replay_config_bad cfg" and "freshnessHorizonSeconds ctx = Some hz"
    and "evaluationTime ctx = jint now" "0 \<le> t" "t \<le> now" "now \<le> max_safe"
    and "num_le (jint (now - t)) hz"
  shows "num_le (num_sub (evaluationTime ctx) (retention cfg ctx)) (jint t)"
proof -
  have "\<not> is_nan hz" using assms(7) by (cases hz) (auto simp: jint_def)
  with retention_covers [OF assms(1,2)] assms(7) have "num_le (jint (now - t)) (retention cfg ctx)"
    by (blast intro: num_le_trans)
  from num_sub_le [OF this, of now] show ?thesis
    using assms(3-6) by (simp add: max_safe_def)
qed

lemma someE_same_nonce:
  assumes "someE (same_nonceE n) xs = Inr False" and "e \<in> set xs"
  shows "getp e ''nonce'' \<noteq> JStr n"
  using someE_FalseD [OF assms] by (auto simp: same_nonceE_def bindE_eq_Inr dest!: propE_InrD)

lemma recorded_refused:
  assumes "recorded st (agent_id i) (nonceKey i) t"
    and "freshnessHorizonSeconds ctx = Some hz" "evaluationTime ctx = jint now"
    and "0 \<le> t" "t \<le> now" "now \<le> max_safe" "num_le (jint (now - t)) hz"
  shows "ReplayModule i st ctx \<noteq> Inr (Allow d)"
proof
  assume "ReplayModule i st ctx = Inr (Allow d)"
  then obtain pruned where f: "filterE (retainedE (num_sub (evaluationTime ctx) (retention (getp st ''replay'') ctx)))
       (replay_list st (agent_id i)) = Inr pruned"
    and s: "someE (same_nonceE (nonceKey i)) pruned = Inr False"
    and ok: "\<not> replay_config_bad (getp st ''replay'')"
    by (rule ReplayModule_AllowE) blast
  from recorded_retained [OF assms(1) f replay_window [OF ok assms(2-7)]] someE_same_nonce [OF s]
  show False by blast
qed

text \<open>
  An admission records the nonce and keeps every entry that is still retained; it does so in the
  state after the deltas of all modules, of which only this one touches the slice.
\<close>

lemma replay_next:
  assumes "ReplayModule i st ctx = Inr (Allow (Some d))"
    and "is_plain (getp st ''replay'')" "wf_js st" "is_object (path st [''replay'', ''nonces''])"
    and w: "getp w ''replay'' = merge_val (getp st ''replay'') (getp d ''replay'')"
    and "a \<noteq> ''length'' \<or> is_plain (path st [''replay'', ''nonces''])"
  obtains pruned where
    "filterE (retainedE (num_sub (evaluationTime ctx) (retention (getp st ''replay'') ctx)))
       (replay_list st (agent_id i)) = Inr pruned"
    "replay_list w a = (if a = agent_id i
       then pruned @ [nonce_entry (nonceKey i) (evaluationTime ctx)] else replay_list st a)"
  using assms(1)
proof (rule ReplayModule_AllowE)
  fix pruned
  let ?new = "JArr (pruned @ [nonce_entry (nonceKey i) (evaluationTime ctx)])"
  assume f: "filterE (retainedE (num_sub (evaluationTime ctx) (retention (getp st ''replay'') ctx)))
       (replay_list st (agent_id i)) = Inr pruned"
    and d: "Some d = Some (JObj [(''replay'', spread_set (getp st ''replay'') ''nonces''
       (spread_set (path st [''replay'', ''nonces'']) (agent_id i) ?new))])"
  have "path w [''replay'', ''nonces'', a] = (if a = agent_id i then ?new else path st [''replay'', ''nonces'', a])"
    using getp_merge_slice(1) [of "getp st ''replay''" "''nonces''" a "agent_id i" ?new] assms d
    by (auto simp: wf_js_getp)
  then have "replay_list w a = (if a = agent_id i
       then pruned @ [nonce_entry (nonceKey i) (evaluationTime ctx)] else replay_list st a)"
    by (simp add: replay_list_def)
  with f show thesis by (rule that)
qed

lemma recorded_next:
  assumes "ReplayModule i st ctx = Inr (Allow (Some d))"
    and "is_plain (getp st ''replay'')" "wf_js st" "is_object (path st [''replay'', ''nonces''])"
    and w: "getp w ''replay'' = merge_val (getp st ''replay'') (getp d ''replay'')"
    and a: "a \<noteq> ''length'' \<or> is_plain (path st [''replay'', ''nonces''])"
    and ctx: "freshnessHorizonSeconds ctx = Some hz" "evaluationTime ctx = jint now" "now \<le> max_safe"
    and rec: "recorded st a n t \<and> 0 \<le> t \<and> t \<le> now \<and> num_le (jint (now - t)) hz \<or>
      a = agent_id i \<and> n = nonceKey i \<and> t = now"
  shows "recorded w a n t"
proof -
  obtain pruned where f: "filterE (retainedE (num_sub (evaluationTime ctx) (retention (getp st ''replay'') ctx)))
       (replay_list st (agent_id i)) = Inr pruned"
    and l: "replay_list w a = (if a = agent_id i
       then pruned @ [nonce_entry (nonceKey i) (evaluationTime ctx)] else replay_list st a)"
    using replay_next [OF assms(1-6)] by blast
  have ok: "\<not> replay_config_bad (getp st ''replay'')"
    using assms(1) by (rule ReplayModule_AllowE)
  from rec show ?thesis
  proof
    assume old: "recorded st a n t \<and> 0 \<le> t \<and> t \<le> now \<and> num_le (jint (now - t)) hz"
    show ?thesis
    proof (cases "a = agent_id i")
      case True
      have "num_le (num_sub (evaluationTime ctx) (retention (getp st ''replay'') ctx)) (jint t)"
        using old ctx by (intro replay_window [OF ok]) auto
      from recorded_retained [OF _ f this, of n] old True show ?thesis
        unfolding recorded_def l by auto
    qed (use old l in \<open>simp add: recorded_def\<close>)
  next
    assume "a = agent_id i \<and> n = nonceKey i \<and> t = now"
    then show ?thesis unfolding recorded_def l by (simp add: nonce_entry_def ctx)
  qed
qed

end
