(* ===== verification/Concurrency.thy ===== *)
theory Concurrency
  imports PolicyModule
begin

text \<open>
  \<open>ConcurrencyModule\<close> and \<open>computeConcurrencyLeases\<close>: an agent's live leases, the reclamation of
  expired ones and the release of one by name. On a coherent state (\<open>conc_state\<close>: the counter is at
  least the number of tracked leases) the lease decision is a filter on the expiry times.
\<close>

section \<open>The lease decision\<close>

record lease_transition =
  auths :: "(string \<times> jsval) list"
  removed :: int
  releaseInvalid :: bool

fun lease_loop :: "jsval \<Rightarrow> jsnum \<Rightarrow> (string \<times> jsval) list \<Rightarrow> int \<Rightarrow> string list
    \<Rightarrow> ((string \<times> jsval) list \<times> int) option" where
  "lease_loop resident t acc n [] = Some (acc, n)"
| "lease_loop resident t acc n (authId # ids) =
     (let lease = getp resident authId
      in if \<not> truthy lease \<or> \<not> isProtocolSeconds (getp lease ''expires_at'') then None
         else if js_le (getp lease ''expires_at'') (JNum t) then lease_loop resident t acc (n + 1) ids
         else lease_loop resident t (AList.update authId lease acc) n ids)"

text \<open>The part after the loop: a \<open>RELEASE\<close> has to name a live lease, which it removes.\<close>

definition release_step :: "intent \<Rightarrow> (string \<times> jsval) list \<Rightarrow> int \<Rightarrow> lease_transition" where
  "release_step i live n =
     (if effective_type i \<noteq> RELEASE then \<lparr>auths = live, removed = n, releaseInvalid = False\<rparr>
      else case authorization_id i of
          None \<Rightarrow> \<lparr>auths = live, removed = n, releaseInvalid = True\<rparr>
        | Some authId \<Rightarrow>
            if authId = [] \<or> \<not> truthy (getp (JObj live) authId)
            then \<lparr>auths = live, removed = n, releaseInvalid = True\<rparr>
            else \<lparr>auths = filter (\<lambda>(k, _). k \<noteq> authId) live, removed = n + 1, releaseInvalid = False\<rparr>)"

definition computeConcurrencyLeases :: "intent \<Rightarrow> jsval \<Rightarrow> jsnum \<Rightarrow> lease_transition option res" where
  "computeConcurrencyLeases i st t =
     bindE (propE st ''concurrency'') (\<lambda>cc.
       let resident = coalesce (path cc [''active_auths'', agent_id i]) (JObj []);
           residentIds = obj_keys resident;
           active = coalesce (path cc [''active'', agent_id i]) (JNum (jint 0))
       in if js_lt active (JNum (jint (int (length residentIds)))) then Inr None
          else Inr (map_option (\<lambda>(live, n). release_step i live n) (lease_loop resident t [] 0 residentIds)))"

section \<open>The module\<close>

definition conc_delta :: "jsval \<Rightarrow> string \<Rightarrow> jsnum \<Rightarrow> (string \<times> jsval) list \<Rightarrow> jsval" where
  "conc_delta cc a n live =
     JObj [(''concurrency'',
       spread_set (spread_set cc ''active'' (spread_set (getp cc ''active'') a (JNum n)))
         ''active_auths'' (spread_set (getp cc ''active_auths'') a (JObj live)))]"

definition ConcurrencyModule :: module_eval where
  "ConcurrencyModule i st ctx =
     bindE (propE st ''concurrency'') (\<lambda>cc.
       if path cc [''max_concurrent'', agent_id i] = JUndef then Inr (Deny [STATE_INVALID])
       else bindE (computeConcurrencyLeases i st (evaluationTime ctx)) (\<lambda>leases.
         case leases of
           None \<Rightarrow> Inr (Deny [STATE_INVALID])
         | Some l \<Rightarrow>
             bindE (sub_num (coalesce (path cc [''active'', agent_id i]) (JNum (jint 0))) (jint (removed l)))
               (\<lambda>activeAfterReclaim.
                 if effective_type i = RELEASE
                 then if releaseInvalid l then Inr (Deny [CONCURRENCY_RELEASE_INVALID])
                      else Inr (Allow (Some (conc_delta cc (agent_id i) activeAfterReclaim (auths l))))
                 else if js_le (path cc [''max_concurrent'', agent_id i]) (JNum activeAfterReclaim)
                 then Inr (Deny [CONCURRENCY_LIMIT_EXCEEDED])
                 else Inr (Allow (Some (conc_delta cc (agent_id i)
                        (num_add activeAfterReclaim (jint 1)) (auths l)))))))"

subsection \<open>The contract\<close>

lemma lease_loop_wf:
  assumes "lease_loop resident t acc n ids = Some (live, m)" and "wf_js resident" and "wf_js (JObj acc)"
  shows "wf_js (JObj live)"
  using assms
proof (induction resident t acc n ids rule: lease_loop.induct)
  case (2 resident t acc n authId ids)
  then show ?case
    using wf_js_update [of acc "getp resident authId" authId] wf_js_getp [of resident authId]
    by (auto simp: Let_def simp del: wf_js.simps split: if_splits)
qed simp

lemma wf_js_filter: "wf_js (JObj kvs) \<Longrightarrow> wf_js (JObj (filter P kvs))"
  by (auto simp: distinct_map_filter)

lemma release_step_filter: "\<exists>P. auths (release_step i live n) = filter P live"
proof -
  have "auths (release_step i live n) = filter (\<lambda>_. True) live \<or>
      (\<exists>a. auths (release_step i live n) = filter (\<lambda>(k, _). k \<noteq> a) live)"
    by (auto simp: release_step_def split: option.split)
  then show ?thesis by blast
qed

lemma leases_wf:
  assumes "computeConcurrencyLeases i st t = Inr (Some l)" and "wf_js st"
  shows "wf_js (JObj (auths l))"
proof -
  let ?r = "coalesce (path (getp st ''concurrency'') [''active_auths'', agent_id i]) (JObj [])"
  obtain live n where loop: "lease_loop ?r t [] 0 (obj_keys ?r) = Some (live, n)"
    and l: "l = release_step i live n"
    using assms(1)
    by (auto simp: computeConcurrencyLeases_def bindE_eq_Inr Let_def split: if_splits dest!: propE_InrD)
  have "wf_js (getp st ''concurrency'')" using assms(2) by (rule wf_js_getp)
  then have "wf_js (path (getp st ''concurrency'') [''active_auths'', agent_id i])" by (rule wf_js_path)
  then have "wf_js ?r" by (simp add: coalesce_def del: path.simps)
  then have "wf_js (JObj live)" by (rule lease_loop_wf [OF loop]) simp
  moreover obtain P where "auths l = filter P live" using release_step_filter [of i live n] l by auto
  ultimately show ?thesis by (simp only: wf_js_filter)
qed

lemma ConcurrencyModule_AllowE:
  assumes "ConcurrencyModule i st ctx = Inr (Allow d)"
  obtains l n where "computeConcurrencyLeases i st (evaluationTime ctx) = Inr (Some l)"
    "sub_num (coalesce (path st [''concurrency'', ''active'', agent_id i]) (JNum (jint 0))) (jint (removed l)) = Inr n"
    "effective_type i = RELEASE \<Longrightarrow> \<not> releaseInvalid l"
    "effective_type i = EXECUTE \<Longrightarrow> \<not> js_le (path st [''concurrency'', ''max_concurrent'', agent_id i]) (JNum n)"
    "d = Some (conc_delta (getp st ''concurrency'') (agent_id i)
       (if effective_type i = RELEASE then n else num_add n (jint 1)) (auths l))"
  using assms that
  by (auto simp: ConcurrencyModule_def bindE_eq_Inr split: if_splits option.splits dest!: propE_InrD)

interpretation concurrency: policy_module ConcurrencyModule "''concurrency''"
proof unfold_locales
  fix i st c d
  assume "ConcurrencyModule i st c = Inr (Allow (Some d))"
  then obtain l n where l: "computeConcurrencyLeases i st (evaluationTime c) = Inr (Some l)"
    and d: "d = conc_delta (getp st ''concurrency'') (agent_id i) n (auths l)"
    by (rule ConcurrencyModule_AllowE) auto
  show "\<exists>x. d = JObj [(''concurrency'', x)] \<and> is_plain x" by (simp add: d conc_delta_def)
  assume "wf_js st"
  then show "wf_js d"
    using leases_wf [OF l] by (auto simp: d conc_delta_def intro!: wf_js_spread_set wf_js_getp)
qed (auto simp: ConcurrencyModule_def bindE_eq_Inr split: if_splits option.splits)

section \<open>Coherent states\<close>

definition lease_ok :: "jsval \<Rightarrow> bool" where
  "lease_ok v = (truthy v \<and> isProtocolSeconds (getp v ''expires_at''))"

definition live_at :: "int \<Rightarrow> string \<times> jsval \<Rightarrow> bool" where
  "live_at t e = (\<not> js_le (getp (snd e) ''expires_at'') (JNum (jint t)))"

definition residents :: "jsval \<Rightarrow> string \<Rightarrow> jsval" where
  "residents st a = coalesce (path st [''concurrency'', ''active_auths'', a]) (JObj [])"

definition conc_state :: "jsval \<Rightarrow> string \<Rightarrow> int \<Rightarrow> int \<Rightarrow> (string \<times> jsval) list \<Rightarrow> bool" where
  "conc_state st a M n kvs =
     (path st [''concurrency'', ''max_concurrent'', a] = JNum (jint M) \<and> 0 \<le> M \<and> M \<le> max_safe \<and>
      coalesce (path st [''concurrency'', ''active'', a]) (JNum (jint 0)) = JNum (jint n) \<and>
      n \<le> max_safe \<and> int (length kvs) \<le> n \<and>
      residents st a = JObj kvs \<and> distinct (map fst kvs) \<and> (\<forall>(k, v) \<in> set kvs. lease_ok v))"

lemma lease_loop_spec:
  assumes "distinct (map fst all)"
  shows "set kvs \<subseteq> set all \<Longrightarrow> distinct (map fst (acc @ kvs)) \<Longrightarrow> \<forall>(k, v) \<in> set kvs. lease_ok v \<Longrightarrow>
    lease_loop (JObj all) (jint t) acc n (map fst kvs) =
      Some (acc @ filter (live_at t) kvs, n + int (length (filter (\<lambda>e. \<not> live_at t e) kvs)))"
proof (induction kvs arbitrary: acc n)
  case (Cons e kvs)
  obtain k v where e: "e = (k, v)" by (cases e)
  have "map_of all k = Some v" using Cons.prems(1) assms by (intro map_of_map_key) (auto simp: e)
  then have v: "getp (JObj all) k = v" by simp
  have ok: "lease_ok v" using Cons.prems(3) by (simp add: e)
  show ?case
  proof (cases "live_at t e")
    case True
    have "AList.update k v acc = acc @ [(k, v)]" using Cons.prems(2) by (intro update_new) (auto simp: e)
    with True Cons.IH [of "acc @ [(k, v)]" n] Cons.prems v ok show ?thesis
      by (simp add: e Let_def lease_ok_def live_at_def)
  next
    case False
    with Cons.IH [of acc "n + 1"] Cons.prems v ok show ?thesis
      by (simp add: e Let_def lease_ok_def live_at_def)
  qed
qed simp

lemma propE_concurrency: "conc_state st a M n kvs \<Longrightarrow> propE st ''concurrency'' = Inr (getp st ''concurrency'')"
  by (rule getp_nullish) (auto simp: conc_state_def)

lemma leases_spec:
  assumes "conc_state st (agent_id i) M n kvs"
  shows "computeConcurrencyLeases i st (jint t) = Inr (Some
    (release_step i (filter (live_at t) kvs) (int (length (filter (\<lambda>e. \<not> live_at t e) kvs)))))"
proof -
  have r: "residents st (agent_id i) = JObj kvs" "distinct (map fst kvs)" "\<forall>(k, v) \<in> set kvs. lease_ok v"
    "coalesce (path st [''concurrency'', ''active'', agent_id i]) (JNum (jint 0)) = JNum (jint n)"
    "int (length kvs) \<le> n"
    using assms by (auto simp: conc_state_def)
  show ?thesis
    using r lease_loop_spec [of kvs kvs "[]" t 0]
    by (simp add: computeConcurrencyLeases_def propE_concurrency [OF assms] residents_def obj_keys_def)
qed

lemma expired_count: "int (length (filter (\<lambda>e. \<not> P e) kvs)) = int (length kvs) - int (length (filter P kvs))"
  using sum_length_filter_compl [of P kvs] by linarith

text \<open>
  The decision on a coherent state: with \<open>live\<close> the leases that have not expired and \<open>used\<close> the
  counter after reclamation, an \<open>EXECUTE\<close> is admitted below the limit.
\<close>

lemma concurrency_execute:
  assumes "conc_state st (agent_id i) M n kvs" and "evaluationTime ctx = jint t"
    and "effective_type i = EXECUTE"
  defines "live \<equiv> filter (live_at t) kvs"
  defines "used \<equiv> n - int (length kvs) + int (length live)"
  shows "ConcurrencyModule i st ctx = Inr (if M \<le> used then Deny [CONCURRENCY_LIMIT_EXCEEDED]
    else Allow (Some (conc_delta (getp st ''concurrency'') (agent_id i) (jint (used + 1)) live)))"
proof -
  let ?e = "int (length (filter (\<lambda>e. \<not> live_at t e) kvs))"
  have s: "path st [''concurrency'', ''max_concurrent'', agent_id i] = JNum (jint M)" "M \<le> max_safe"
    "coalesce (path st [''concurrency'', ''active'', agent_id i]) (JNum (jint 0)) = JNum (jint n)"
    "n \<le> max_safe" "int (length kvs) \<le> n"
    using assms(1) by (auto simp: conc_state_def)
  have e: "?e \<le> int (length kvs)" by simp
  have used: "used = n - ?e" by (simp add: used_def live_def expired_count)
  have "num_sub (jint n) (jint ?e) = jint used"
    unfolding used by (intro num_sub_seconds) (use s e in linarith)+
  moreover have "\<not> M \<le> used \<Longrightarrow> num_add (jint used) (jint 1) = jint (used + 1)"
    by (intro num_add_seconds) (use s e used in linarith)+
  ultimately show ?thesis
    using s leases_spec [OF assms(1), of t] assms(2,3)
    by (auto simp: ConcurrencyModule_def propE_concurrency [OF assms(1)] release_step_def sub_num_def
        live_def [symmetric] Let_def)
qed

text \<open>A \<open>RELEASE\<close> that names a live lease removes it and frees its place.\<close>

lemma concurrency_release:
  assumes "conc_state st (agent_id i) M n kvs" and "evaluationTime ctx = jint t"
    and "effective_type i = RELEASE" and "authorization_id i = Some authId" and "authId \<notin> set object_prototype"
  defines "live \<equiv> filter (live_at t) kvs"
  defines "used \<equiv> n - int (length kvs) + int (length live)"
  shows "ConcurrencyModule i st ctx = Inr
    (if authId \<noteq> [] \<and> authId \<in> fst ` set live
     then Allow (Some (conc_delta (getp st ''concurrency'') (agent_id i) (jint (used - 1))
            (filter (\<lambda>(k, _). k \<noteq> authId) live)))
     else Deny [CONCURRENCY_RELEASE_INVALID])"
proof -
  let ?e = "int (length (filter (\<lambda>e. \<not> live_at t e) kvs))"
  have s: "path st [''concurrency'', ''max_concurrent'', agent_id i] = JNum (jint M)"
    "coalesce (path st [''concurrency'', ''active'', agent_id i]) (JNum (jint 0)) = JNum (jint n)"
    "n \<le> max_safe" "int (length kvs) \<le> n" "distinct (map fst kvs)" "\<forall>(k, v) \<in> set kvs. lease_ok v"
    using assms(1) by (auto simp: conc_state_def)
  have e: "?e \<le> int (length kvs)" by simp
  have used: "used = n - ?e" by (simp add: used_def live_def expired_count)
  have named: "truthy (getp (JObj live) authId) \<longleftrightarrow> authId \<in> fst ` set live"
  proof (cases "map_of live authId")
    case None
    then have "\<not> truthy (getp (JObj live) authId)" using assms(5) by (simp add: inherited_def)
    with None show ?thesis by (simp only: map_of_eq_None_iff)
  next
    case (Some v)
    then have "(authId, v) \<in> set live" by (rule map_of_SomeD)
    with s(6) have "truthy v" "authId \<in> fst ` set live"
      by (auto simp: live_def lease_ok_def intro: rev_image_eqI)
    with Some show ?thesis by simp
  qed
  have sub: "num_sub (jint n) (jint ?e) = jint used"
    unfolding used by (intro num_sub_seconds) (use s e in linarith)+
  note lsp = leases_spec [OF assms(1), of t, folded live_def]
  show ?thesis
  proof (cases "authId \<noteq> [] \<and> authId \<in> fst ` set live")
    case True
    then have "1 \<le> length live" by (cases live) auto
    then have "1 + ?e \<le> int (length kvs)" by (simp add: expired_count live_def)
    then have "num_sub (jint n) (jint (?e + 1)) = jint (used - 1)"
      using num_sub_seconds [of n "?e + 1"] s(3,4) used by simp
    with True s(1,2) lsp named assms(2-4) show ?thesis
      by (simp add: ConcurrencyModule_def propE_concurrency [OF assms(1)] release_step_def sub_num_def
          del: getp.simps(1))
  next
    case False
    with s(1,2) lsp named assms(2-4) show ?thesis
      by (auto simp: ConcurrencyModule_def propE_concurrency [OF assms(1)] release_step_def sub_num_def
          simp del: getp.simps(1))
  qed
qed

text \<open>
  A name every object inherits passes the test of \<open>computeConcurrencyLeases\<close> although no lease has
  it: nothing is removed from the map, yet the release counts.
\<close>

lemma release_inherited_name:
  assumes "effective_type i = RELEASE" and "authorization_id i = Some authId"
    and "authId \<in> set object_prototype" and "authId \<notin> fst ` set live"
  shows "release_step i live n = \<lparr>auths = live, removed = n + 1, releaseInvalid = False\<rparr>"
proof -
  have "map_of live authId = None" using assms(4) by (simp add: map_of_eq_None_iff)
  moreover have "authId \<noteq> []" using assms(3) by (auto simp: object_prototype_def)
  moreover have "filter (\<lambda>(k, _). k \<noteq> authId) live = live"
    using assms(4) by (intro filter_True) force
  ultimately show ?thesis using assms by (simp add: release_step_def inherited_def)
qed

text \<open>The slice after the delta has been merged and the lease map assigned.\<close>

lemma conc_delta_lookup:
  assumes "is_plain cc" and "wf_js cc"
    and cc': "cc' = merge_val cc (getp (conc_delta cc a n live) ''concurrency'')"
  shows "g \<noteq> ''active'' \<Longrightarrow> g \<noteq> ''active_auths'' \<Longrightarrow> getp cc' g = getp cc g"
    and "getp cc' ''active'' = merge_val (getp cc ''active'') (spread_set (getp cc ''active'') a (JNum n))"
    and "getp cc' ''active_auths'' =
      merge_val (getp cc ''active_auths'') (spread_set (getp cc ''active_auths'') a (JObj live))"
  using assms by (auto simp: conc_delta_def getp_merge_spread2)

end
