(* ===== verification/ToolCalls.thy ===== *)
theory ToolCalls
  imports PolicyModule
begin

text \<open>
  \<open>ToolAmplificationModule\<close>: the rolling-window limit on tool calls, in total and per tool. An
  admitted call is a step of \<open>tool_step\<close> on the times of the recorded calls; over a run of steps no
  window holds more admitted calls than the limit.
\<close>

section \<open>The module\<close>

definition isNonNegativeSafeInteger :: "jsval \<Rightarrow> bool" where
  "isNonNegativeSafeInteger v = (v_safe_integer v \<and> js_le (JNum (jint 0)) v)"

definition isValidEvent :: "jsval \<Rightarrow> bool" where
  "isValidEvent v =
     (is_plain v \<and> isNonNegativeSafeInteger (getp v ''ts'') \<and>
      (getp v ''tool'' = JUndef \<or> has_text (getp v ''tool'')))"

definition tool_name :: "intent \<Rightarrow> string option" where  \<comment> \<open>a non-empty \<open>intent.tool\<close>\<close>
  "tool_name i = (case tool i of Some n \<Rightarrow> if n = [] then None else Some n | None \<Rightarrow> None)"

definition isRateLimitedToolCall :: "intent \<Rightarrow> jsval \<Rightarrow> bool res" where
  "isRateLimitedToolCall i st =
     (if effective_type i \<noteq> EXECUTE then Inr False
      else case tool_name i of
        None \<Rightarrow> Inr False
      | Some n \<Rightarrow> bindE (propE st ''tool_limits'') (\<lambda>lims.
          Inr (truthy lims \<and>
               (path lims [''max_calls_by_tool'', agent_id i, n] \<noteq> JUndef \<or>
                path lims [''max_calls'', agent_id i] \<noteq> JUndef))))"

definition tool_config_bad :: "jsval \<Rightarrow> bool" where
  "tool_config_bad lims =
     (\<not> is_plain lims \<or>
      \<not> v_safe_integer (getp lims ''window_seconds'') \<or>
      js_le (getp lims ''window_seconds'') (JNum (jint 0)) \<or>
      \<not> is_plain (getp lims ''max_calls'') \<or>
      \<not> is_plain (getp lims ''calls'') \<or>
      (getp lims ''max_calls_by_tool'' \<noteq> JUndef \<and> \<not> is_plain (getp lims ''max_calls_by_tool'')))"

definition tool_caps_bad :: "jsval \<Rightarrow> jsval \<Rightarrow> bool" where
  "tool_caps_bad cap configured =
     (\<not> isNonNegativeSafeInteger cap \<or>
      (configured \<noteq> JUndef \<and> \<not> is_plain configured) \<or>
      list_ex (\<lambda>(_, m). \<not> isNonNegativeSafeInteger m \<or> js_lt cap m) (entries (coalesce configured (JObj []))))"

definition count_tool :: "string \<Rightarrow> jsval list \<Rightarrow> jsnum" where
  "count_tool n es = jint (int (length (filter (\<lambda>e. getp e ''tool'' = JStr n) es)))"

definition tool_events_bad :: "jsval \<Rightarrow> jsval \<Rightarrow> jsnum \<Rightarrow> jsval list \<Rightarrow> bool" where
  "tool_events_bad cap configured now current =
     (\<not> list_all isValidEvent current \<or>
      js_lt cap (JNum (jint (int (length current)))) \<or>
      list_ex (\<lambda>e. js_lt (JNum now) (getp e ''ts'')) current \<or>
      list_ex (\<lambda>(n, m). js_lt m (JNum (count_tool n current))) (entries (coalesce configured (JObj []))))"

definition tool_event :: "jsnum \<Rightarrow> string \<Rightarrow> jsval" where
  "tool_event now n = JObj [(''ts'', JNum now), (''tool'', JStr n)]"

text \<open>The part after the checks: pruning, the two limits, and the delta.\<close>

definition tool_admit :: "jsval \<Rightarrow> string \<Rightarrow> string \<Rightarrow> jsnum \<Rightarrow> jsval list \<Rightarrow> policy_result" where
  "tool_admit lims a n now current =
     (let cap = path lims [''max_calls'', a];
          window = to_number (getp lims ''window_seconds'');
          pruned = filter (\<lambda>e. num_lt (num_sub now (to_number (getp e ''ts''))) window) current;
          toolMax = path lims [''max_calls_by_tool'', a, n]
      in if js_le cap (JNum (jint (int (length pruned)))) then Deny [TOOL_CALL_LIMIT_EXCEEDED]
         else if toolMax \<noteq> JUndef \<and> js_le toolMax (JNum (count_tool n pruned))
         then Deny [TOOL_CALL_LIMIT_EXCEEDED]
         else Allow (Some (JObj [(''tool_limits'',
                spread_set lims ''calls''
                  (spread_set (getp lims ''calls'') a (JArr (pruned @ [tool_event now n]))))])))"

definition ToolAmplificationModule :: module_eval where
  "ToolAmplificationModule i st ctx =
     (if effective_type i = RELEASE then Inr (Allow None)
      else case tool_name i of
        None \<Rightarrow> Inr (Allow None)
      | Some n \<Rightarrow>
          bindE (propE st ''tool_limits'') (\<lambda>lims.
            if tool_config_bad lims then Inr (Deny [STATE_INVALID])
            else
              let cap = path lims [''max_calls'', agent_id i];
                  configured = path lims [''max_calls_by_tool'', agent_id i]
              in if tool_caps_bad cap configured then Inr (Deny [STATE_INVALID])
                 else bindE (isRateLimitedToolCall i st) (\<lambda>limited.
                   if \<not> limited then Inr (Allow None)
                   else
                     let currentValue = path lims [''calls'', agent_id i]
                     in if currentValue \<noteq> JUndef \<and> \<not> is_array currentValue then Inr (Deny [STATE_INVALID])
                        else bindE (as_listE (coalesce currentValue (JArr []))) (\<lambda>current.
                          if tool_events_bad cap configured (evaluationTime ctx) current
                          then Inr (Deny [STATE_INVALID])
                          else Inr (tool_admit lims (agent_id i) n (evaluationTime ctx) current)))))"

lemma ToolAmplification_AllowE:
  assumes "ToolAmplificationModule i st ctx = Inr (Allow (Some d))"
  obtains n current where "tool_name i = Some n" "effective_type i = EXECUTE"
    "\<not> tool_config_bad (getp st ''tool_limits'')"
    "\<not> tool_caps_bad (path st [''tool_limits'', ''max_calls'', agent_id i])
        (path st [''tool_limits'', ''max_calls_by_tool'', agent_id i])"
    "coalesce (path st [''tool_limits'', ''calls'', agent_id i]) (JArr []) = JArr current"
    "\<not> tool_events_bad (path st [''tool_limits'', ''max_calls'', agent_id i])
        (path st [''tool_limits'', ''max_calls_by_tool'', agent_id i]) (evaluationTime ctx) current"
    "tool_admit (getp st ''tool_limits'') (agent_id i) n (evaluationTime ctx) current = Allow (Some d)"
  using assms that
  by (auto simp: ToolAmplificationModule_def bindE_eq_Inr Let_def
      split: if_splits option.splits dest!: propE_InrD) (metis itype.exhaust)+

interpretation toolcalls: policy_module ToolAmplificationModule "''tool_limits''"
proof unfold_locales
  fix i st c d
  assume "ToolAmplificationModule i st c = Inr (Allow (Some d))"
  then obtain n current where
    cur: "coalesce (path st [''tool_limits'', ''calls'', agent_id i]) (JArr []) = JArr current"
    and adm: "tool_admit (getp st ''tool_limits'') (agent_id i) n (evaluationTime c) current = Allow (Some d)"
    by (rule ToolAmplification_AllowE)
  from adm obtain P where d: "d = JObj [(''tool_limits'',
      spread_set (getp st ''tool_limits'') ''calls''
        (spread_set (path st [''tool_limits'', ''calls'']) (agent_id i)
          (JArr (filter P current @ [tool_event (evaluationTime c) n]))))]"
    by (auto simp: tool_admit_def Let_def split: if_splits)
  show "\<exists>x. d = JObj [(''tool_limits'', x)] \<and> is_plain x" by (simp add: d)
  assume wf: "wf_js st"
  then have "wf_js (coalesce (path st [''tool_limits'', ''calls'', agent_id i]) (JArr []))"
    using wf_js_path [OF wf] by (simp add: coalesce_def del: path.simps)
  then have "wf_js (JArr (filter P current @ [tool_event (evaluationTime c) n]))"
    by (auto simp: cur tool_event_def simp del: path.simps)
  with wf show "wf_js d"
    by (auto simp: d intro!: wf_js_spread_set wf_js_getp simp del: wf_js.simps(1))
next
  fix i st c rs
  assume "ToolAmplificationModule i st c = Inr (Deny rs)"
  then show "rs \<noteq> []"
    by (auto simp: ToolAmplificationModule_def tool_admit_def bindE_eq_Inr Let_def
        split: if_splits option.splits)
qed

section \<open>The rolling window\<close>

text \<open>A step on the times of the recorded calls; \<open>None\<close> is a refusal.\<close>

definition tool_step :: "int \<Rightarrow> int \<Rightarrow> int list \<Rightarrow> int \<Rightarrow> int list option" where
  "tool_step W M ts now =
     (let pruned = filter (\<lambda>t. now - t < W) ts
      in if M < int (length ts) \<or> (\<exists>t \<in> set ts. now < t) \<or> M \<le> int (length pruned)
         then None else Some (pruned @ [now]))"

fun event_times :: "jsval list \<Rightarrow> int list" where
  "event_times [] = []"
| "event_times (e # es) = int_of (to_number (getp e ''ts'')) # event_times es"

lemma event_times_map: "event_times es = map (\<lambda>e. int_of (to_number (getp e ''ts''))) es"
  by (induction es) auto

lemma nonneg_iff: "isNonNegativeSafeInteger v \<longleftrightarrow> (\<exists>n. v = JNum (jint n) \<and> 0 \<le> n \<and> n \<le> max_safe)"
  by (cases v) (auto simp: isNonNegativeSafeInteger_def is_safe_integer_jint)

definition tool_calls :: "jsval \<Rightarrow> string \<Rightarrow> jsval list" where
  "tool_calls st a = (case path st [''tool_limits'', ''calls'', a] of JArr es \<Rightarrow> es | _ \<Rightarrow> [])"

lemma tool_calls_coalesce:
  "coalesce (path st [''tool_limits'', ''calls'', a]) (JArr []) = JArr es \<Longrightarrow> tool_calls st a = es"
  by (auto simp: tool_calls_def coalesce_def nullish_def simp del: path.simps split: if_splits)

text \<open>
  An admitted call is a step of the automaton with the configured window and limit, and the number
  of calls of the tool itself stays within the tool's limit.
\<close>

lemma tool_admitted:
  assumes "ToolAmplificationModule i st ctx = Inr (Allow (Some d))"
    and "evaluationTime ctx = jint now" "0 \<le> now" "now \<le> max_safe"
  obtains W M n es where
    "path st [''tool_limits'', ''window_seconds''] = JNum (jint W)" "0 < W"
    "path st [''tool_limits'', ''max_calls'', agent_id i] = JNum (jint M)"
    "tool i = Some n"
    "tool_step W M (event_times (tool_calls st (agent_id i))) now = Some (event_times es)"
    "\<And>m. path st [''tool_limits'', ''max_calls_by_tool'', agent_id i, n] = JNum (jint m) \<Longrightarrow>
       length (filter (\<lambda>e. getp e ''tool'' = JStr n) es) \<le> nat m"
    "d = JObj [(''tool_limits'', spread_set (getp st ''tool_limits'') ''calls''
       (spread_set (path st [''tool_limits'', ''calls'']) (agent_id i) (JArr es)))]"
  using assms(1)
proof (rule ToolAmplification_AllowE)
  fix n current
  let ?l = "getp st ''tool_limits''"
  let ?cap = "path st [''tool_limits'', ''max_calls'', agent_id i]"
  let ?conf = "path st [''tool_limits'', ''max_calls_by_tool'', agent_id i]"
  assume n: "tool_name i = Some n" and cfg: "\<not> tool_config_bad ?l" and caps: "\<not> tool_caps_bad ?cap ?conf"
    and cur: "coalesce (path st [''tool_limits'', ''calls'', agent_id i]) (JArr []) = JArr current"
    and ev: "\<not> tool_events_bad ?cap ?conf (evaluationTime ctx) current"
    and adm: "tool_admit ?l (agent_id i) n (evaluationTime ctx) current = Allow (Some d)"
  obtain M where M: "?cap = JNum (jint M)" "0 \<le> M" "M \<le> max_safe"
    using caps by (auto simp: tool_caps_bad_def nonneg_iff simp del: path.simps)
  obtain W where W: "getp ?l ''window_seconds'' = JNum (jint W)" "0 < W"
    using cfg by (auto simp: tool_config_bad_def elim!: v_safe_integerE)
  have times: "\<exists>t. getp e ''ts'' = JNum (jint t) \<and> 0 \<le> t \<and> t \<le> now" if "e \<in> set current" for e
    using ev that assms(2)
    by (force simp: tool_events_bad_def isValidEvent_def nonneg_iff list_all_iff list_ex_iff)
  define pruned where "pruned = filter (\<lambda>e. now - int_of (to_number (getp e ''ts'')) < W) current"
  have pr: "filter (\<lambda>e. num_lt (num_sub (jint now) (to_number (getp e ''ts''))) (jint W)) current = pruned"
    unfolding pruned_def
    by (rule filter_cong [OF refl]) (use times assms(3,4) in \<open>fastforce simp: num_sub_seconds\<close>)
  have step: "tool_step W M (event_times current) now = Some (event_times (pruned @ [tool_event (jint now) n]))"
  proof -
    have "\<not> M < int (length current)" using ev M by (simp add: tool_events_bad_def del: path.simps)
    moreover have "\<not> (\<exists>t \<in> set (event_times current). now < t)"
      using times by (fastforce simp: event_times_map)
    moreover have "filter (\<lambda>t. now - t < W) (event_times current) = event_times pruned"
      by (simp add: event_times_map filter_map o_def pruned_def)
    moreover have "\<not> M \<le> int (length pruned)"
      using adm M W assms(2) pr by (auto simp: tool_admit_def Let_def split: if_splits)
    ultimately show ?thesis
      by (simp add: tool_step_def Let_def event_times_map tool_event_def)
  qed
  show thesis
  proof (rule that [of W M n "pruned @ [tool_event (jint now) n]"])
    show "tool i = Some n" using n by (auto simp: tool_name_def split: option.splits if_splits)
    show "tool_step W M (event_times (tool_calls st (agent_id i))) now
        = Some (event_times (pruned @ [tool_event (jint now) n]))"
      using step tool_calls_coalesce [OF cur] by simp
    show "d = JObj [(''tool_limits'', spread_set ?l ''calls''
       (spread_set (path st [''tool_limits'', ''calls'']) (agent_id i) (JArr (pruned @ [tool_event (jint now) n]))))]"
      using adm M W assms(2) pr by (auto simp: tool_admit_def Let_def split: if_splits)
  next
    fix m assume m: "path st [''tool_limits'', ''max_calls_by_tool'', agent_id i, n] = JNum (jint m)"
    then have "int (length (filter (\<lambda>e. getp e ''tool'' = JStr n) pruned)) < m"
      using adm M W assms(2) pr by (auto simp: tool_admit_def Let_def count_tool_def split: if_splits)
    then show "length (filter (\<lambda>e. getp e ''tool'' = JStr n) (pruned @ [tool_event (jint now) n])) \<le> nat m"
      by (simp add: tool_event_def)
  qed (use W M in simp_all)
qed

fun tool_run :: "int \<Rightarrow> int \<Rightarrow> int list \<Rightarrow> int list \<Rightarrow> int list" where
  "tool_run W M es [] = []"
| "tool_run W M es (t # ts) =
     (case tool_step W M es t of
        Some es' \<Rightarrow> t # tool_run W M es' ts
      | None \<Rightarrow> tool_run W M es ts)"

abbreviation in_window :: "int \<Rightarrow> int \<Rightarrow> int list \<Rightarrow> int list" where
  "in_window x W ts \<equiv> filter (\<lambda>t. x \<le> t \<and> t < x + W) ts"

lemma tool_run_sub: "set (tool_run W M es ts) \<subseteq> set ts"
  by (induction W M es ts rule: tool_run.induct) (auto split: option.splits)

text \<open>No window holds more calls, recorded or admitted, than the limit.\<close>

lemma tool_run_bound:
  assumes "sorted ts" and "length es \<le> nat M"
  shows "length (in_window x W (es @ tool_run W M es ts)) \<le> nat M"
  using assms
proof (induction ts arbitrary: es)
  case Nil
  then show ?case by (simp add: le_trans [OF length_filter_le])
next
  case (Cons t ts)
  show ?case
  proof (cases "tool_step W M es t")
    case None
    with Cons show ?thesis by auto
  next
    case (Some es')
    define pruned where "pruned = filter (\<lambda>u. t - u < W) es"
    have es': "es' = pruned @ [t]" and len: "length es' \<le> nat M"
      using Some by (auto simp: tool_step_def Let_def pruned_def split: if_splits)
    have IH: "length (in_window x W (es' @ tool_run W M es' ts)) \<le> nat M"
      using Cons len by (intro Cons.IH) auto
    show ?thesis
    proof (cases "\<exists>u \<in> set es. W \<le> t - u \<and> x \<le> u")
      case True
      then have "x + W \<le> t" by auto
      moreover have "\<forall>v \<in> set (t # tool_run W M es' ts). t \<le> v"
        using Cons.prems(1) tool_run_sub [of W M es' ts] by auto
      ultimately have "in_window x W (t # tool_run W M es' ts) = []"
        by (fastforce simp: filter_empty_conv)
      then have "in_window x W (es @ t # tool_run W M es' ts) = in_window x W es"
        by (simp only: filter_append) simp
      then show ?thesis
        using Some Cons.prems(2) by (simp add: le_trans [OF length_filter_le])
    next
      case False
      have "in_window x W es = in_window x W pruned"
        unfolding pruned_def filter_filter by (rule filter_cong [OF refl]) (use False in auto)
      with IH Some show ?thesis by (simp add: es')
    qed
  qed
qed

end
