(* ===== verification/Decision.thy ===== *)
theory Decision
  imports SimpleModules Velocity NonceReplay Concurrency ToolCalls
begin

text \<open>
  \<open>policy/decision/runDecisionModules.ts\<close> and the module lists of \<open>PolicyEngine.ts\<close>. All modules
  see the state the evaluation started from; their deltas are merged in module order. From the
  contract \<open>policy_module\<close> alone: a permit means every module admitted, the slice of each module is
  its delta merged into the original slice, and both modes decide alike.
\<close>

section \<open>The runner\<close>

record module_entry =
  m_id :: string
  m_eval :: module_eval

datatype mode = FailFast | CollectAll

record decision_input =
  di_intent :: intent
  di_state :: jsval
  di_time :: jsnum
  di_horizon :: "jsnum option"
  di_mode :: mode

datatype decision_result = Permit jsval | Refuse "reason list" jsval

fun process_results :: "mode \<Rightarrow> policy_result list \<Rightarrow> jsval \<Rightarrow> reason list \<Rightarrow> reason list \<times> jsval" where
  "process_results mode [] working denyReasons = (denyReasons, working)"
| "process_results mode (Deny rs # r) working denyReasons =
     (if mode = FailFast then (denyReasons @ rs, working)
      else process_results mode r working (denyReasons @ rs))"
| "process_results mode (Allow d # r) working denyReasons =
     process_results mode r (apply_delta working d) denyReasons"

definition di_context :: "decision_input \<Rightarrow> eval_context" where
  "di_context inp = \<lparr>evaluationTime = di_time inp, freshnessHorizonSeconds = di_horizon inp\<rparr>"

definition runDecisionModules :: "decision_input \<Rightarrow> module_entry list \<Rightarrow> decision_result res" where
  "runDecisionModules inp modules =
     bindE (mapE (\<lambda>m. m_eval m (di_intent inp) (di_state inp) (di_context inp)) modules) (\<lambda>results.
       let out = process_results (di_mode inp) results (di_state inp) []
       in if fst out \<noteq> [] then Inr (Refuse (fst out) (di_state inp)) else Inr (Permit (snd out)))"

definition RELEASE_MODULES :: "module_entry list" where
  "RELEASE_MODULES =
     [\<lparr>m_id = ''KillSwitchModule'', m_eval = KillSwitchModule\<rparr>,
      \<lparr>m_id = ''ReplayModule'', m_eval = ReplayModule\<rparr>,
      \<lparr>m_id = ''ConcurrencyModule'', m_eval = ConcurrencyModule\<rparr>]"

definition EXECUTE_MODULES :: "host \<Rightarrow> module_entry list" where
  "EXECUTE_MODULES h =
     [\<lparr>m_id = ''KillSwitchModule'', m_eval = KillSwitchModule\<rparr>,
      \<lparr>m_id = ''AllowlistModule'', m_eval = AllowlistModule h\<rparr>,
      \<lparr>m_id = ''ReplayModule'', m_eval = ReplayModule\<rparr>,
      \<lparr>m_id = ''RecursionDepthModule'', m_eval = RecursionDepthModule\<rparr>,
      \<lparr>m_id = ''ConcurrencyModule'', m_eval = ConcurrencyModule\<rparr>,
      \<lparr>m_id = ''ToolAmplificationModule'', m_eval = ToolAmplificationModule\<rparr>,
      \<lparr>m_id = ''BudgetModule'', m_eval = BudgetModule h\<rparr>,
      \<lparr>m_id = ''VelocityModule'', m_eval = VelocityModule\<rparr>]"

definition engine_modules :: "host \<Rightarrow> intent \<Rightarrow> module_entry list" where
  "engine_modules h i = (if effective_type i = RELEASE then RELEASE_MODULES else EXECUTE_MODULES h)"

section \<open>Consequences of the contract\<close>

text \<open>Lists of modules that keep the contract, each with a slice of its own.\<close>

definition slice_of :: "string \<Rightarrow> string" where
  "slice_of m =
     the (map_of
       [(''KillSwitchModule'', ''kill_switch''), (''AllowlistModule'', ''allowlists''),
        (''ReplayModule'', ''replay''), (''RecursionDepthModule'', ''recursion''),
        (''ConcurrencyModule'', ''concurrency''), (''ToolAmplificationModule'', ''tool_limits''),
        (''BudgetModule'', ''budget''), (''VelocityModule'', ''velocity'')] m)"

definition good_modules :: "module_entry list \<Rightarrow> bool" where
  "good_modules ms =
     (list_all (\<lambda>m. policy_module (m_eval m) (slice_of (m_id m))) ms \<and>
      distinct (map (slice_of \<circ> m_id) ms))"

lemma engine_modules_good: "good_modules (engine_modules h i)"
  using kill.policy_module_axioms allowlist.policy_module_axioms replay.policy_module_axioms
    recursion.policy_module_axioms concurrency.policy_module_axioms toolcalls.policy_module_axioms
    budget.policy_module_axioms velocity.policy_module_axioms
  by (simp add: good_modules_def engine_modules_def RELEASE_MODULES_def EXECUTE_MODULES_def slice_of_def)

lemma process_reasons:
  "\<forall>r \<in> set rs. r \<noteq> Deny [] \<Longrightarrow> fst (process_results mode rs w acc) = [] \<Longrightarrow>
    acc = [] \<and> (\<forall>r \<in> set rs. \<exists>d. r = Allow d)"
  by (induction mode rs w acc rule: process_results.induct) (auto split: if_splits)

lemma good_no_empty_deny:
  assumes "mapE (\<lambda>m. m_eval m i st c) ms = Inr rs" and "good_modules ms" and "r \<in> set rs"
  shows "r \<noteq> Deny []"
proof
  assume "r = Deny []"
  moreover obtain m where "m \<in> set ms" "m_eval m i st c = Inr r"
    using mapE_InrD2 [OF assms(1,3)] by blast
  moreover from this(1) have "policy_module (m_eval m) (slice_of (m_id m))"
    using assms(2) by (simp add: good_modules_def list_all_iff)
  ultimately show False using policy_module.deny_reasons by blast
qed

lemma process_allows:
  "process_results mode (map Allow ds) w acc = (acc, foldl apply_delta w ds)"
  by (induction ds arbitrary: w) auto

text \<open>A permit: every module admitted, and the deltas were merged in order.\<close>

lemma permitE:
  assumes "runDecisionModules inp ms = Inr (Permit w)" and "good_modules ms"
  obtains ds where
    "mapE (\<lambda>m. m_eval m (di_intent inp) (di_state inp) (di_context inp)) ms = Inr (map Allow ds)"
    "w = foldl apply_delta (di_state inp) ds"
proof -
  obtain rs where rs: "mapE (\<lambda>m. m_eval m (di_intent inp) (di_state inp) (di_context inp)) ms = Inr rs"
    and p: "fst (process_results (di_mode inp) rs (di_state inp) []) = []"
      "snd (process_results (di_mode inp) rs (di_state inp) []) = w"
    using assms(1) by (auto simp: runDecisionModules_def bindE_eq_Inr Let_def split: if_splits)
  have "\<forall>r \<in> set rs. \<exists>d. r = Allow d"
    using process_reasons [OF _ p(1)] good_no_empty_deny [OF rs assms(2)] by blast
  then have "\<exists>ds. rs = map Allow ds" by (simp add: ex_map_conv)
  then obtain ds where "rs = map Allow ds" ..
  then have "w = foldl apply_delta (di_state inp) ds" using p(2) by (simp add: process_allows)
  with rs \<open>rs = map Allow ds\<close> show thesis by (simp add: that)
qed

lemma permit_allow:
  assumes "runDecisionModules inp ms = Inr (Permit w)" and "good_modules ms" and "m \<in> set ms"
  obtains d where "m_eval m (di_intent inp) (di_state inp) (di_context inp) = Inr (Allow d)"
  using assms(1,2)
proof (rule permitE)
  fix ds
  assume "mapE (\<lambda>m. m_eval m (di_intent inp) (di_state inp) (di_context inp)) ms = Inr (map Allow ds)"
  from mapE_InrD [OF this assms(3)] show thesis using that by auto
qed

text \<open>The slices after the deltas of a list of modules.\<close>

definition slice_after :: "jsval \<Rightarrow> string \<Rightarrow> jsval option \<Rightarrow> jsval" where
  "slice_after st k d = (case d of None \<Rightarrow> getp st k | Some p \<Rightarrow> merge_val (getp st k) (getp p k))"

abbreviation all_allow :: "intent \<Rightarrow> jsval \<Rightarrow> eval_context \<Rightarrow> module_entry list \<Rightarrow> jsval option list \<Rightarrow> bool" where
  "all_allow i st c ms ds \<equiv> list_all2 (\<lambda>m d. m_eval m i st c = Inr (Allow d)) ms ds"

lemma deltas_plain:
  "all_allow i st c ms ds \<Longrightarrow> good_modules ms \<Longrightarrow> is_plain w \<Longrightarrow> is_plain (foldl apply_delta w ds)"
proof (induction ms ds arbitrary: w rule: list_all2_induct)
  case (Cons m ms d ds)
  then have "policy_module (m_eval m) (slice_of (m_id m))" by (simp add: good_modules_def)
  from policy_module.delta_plain [OF this Cons.hyps(1) Cons.prems(2)] Cons.IH Cons.prems(1)
  show ?case by (simp add: good_modules_def)
qed simp

lemma deltas_wf:
  "all_allow i st c ms ds \<Longrightarrow> good_modules ms \<Longrightarrow> wf_js st \<Longrightarrow> is_plain w \<Longrightarrow> wf_js w \<Longrightarrow>
    wf_js (foldl apply_delta w ds)"
proof (induction ms ds arbitrary: w rule: list_all2_induct)
  case (Cons m ms d ds)
  then have pm: "policy_module (m_eval m) (slice_of (m_id m))" by (simp add: good_modules_def)
  from policy_module.delta_plain [OF pm Cons.hyps(1)] policy_module.delta_keeps_wf [OF pm Cons.hyps(1)]
    Cons.IH Cons.prems
  show ?case by (simp add: good_modules_def)
qed simp

lemma deltas_other:
  "all_allow i st c ms ds \<Longrightarrow> good_modules ms \<Longrightarrow> is_plain w \<Longrightarrow> k \<notin> slice_of ` m_id ` set ms \<Longrightarrow>
    getp (foldl apply_delta w ds) k = getp w k"
proof (induction ms ds arbitrary: w rule: list_all2_induct)
  case (Cons m ms d ds)
  then have pm: "policy_module (m_eval m) (slice_of (m_id m))" by (simp add: good_modules_def)
  from policy_module.delta_plain [OF pm Cons.hyps(1)] policy_module.other_slices_kept [OF pm Cons.hyps(1)]
    Cons.IH Cons.prems
  show ?case by (simp add: good_modules_def)
qed simp

lemma apply_delta_slice:
  assumes "policy_module ev s" and "ev i st c = Inr (Allow d)" and "is_plain w"
  shows "getp (apply_delta w d) s = slice_after w s d"
proof (rule policy_module.allowE [OF assms(1,2)])
  fix x assume "d = Some (JObj [(s, x)])" "is_plain x"
  then show ?thesis using assms(3) by (simp add: slice_after_def getp_merge_single)
qed (simp add: slice_after_def)

lemma deltas_slice:
  "all_allow i st c ms ds \<Longrightarrow> good_modules ms \<Longrightarrow> is_plain w \<Longrightarrow> m \<in> set ms \<Longrightarrow>
    \<exists>d. m_eval m i st c = Inr (Allow d) \<and>
      getp (foldl apply_delta w ds) (slice_of (m_id m)) = slice_after w (slice_of (m_id m)) d"
proof (induction ms ds arbitrary: w rule: list_all2_induct)
  case (Cons m0 ms d ds)
  from Cons.prems(1) have pm: "policy_module (m_eval m0) (slice_of (m_id m0))" and gm: "good_modules ms"
    and new: "slice_of (m_id m0) \<notin> slice_of ` m_id ` set ms"
    by (simp_all add: good_modules_def image_comp)
  have plain: "is_plain (apply_delta w d)"
    by (rule policy_module.delta_plain [OF pm Cons.hyps(1) Cons.prems(2)])
  show ?case
  proof (cases "m \<in> set ms")
    case True
    then have "slice_of (m_id m) \<in> slice_of ` m_id ` set ms" by (intro imageI)
    then have ne: "slice_of (m_id m) \<noteq> slice_of (m_id m0)" using new by metis
    from Cons.IH [OF gm plain True] obtain d' where d': "m_eval m i st c = Inr (Allow d')"
      "getp (foldl apply_delta (apply_delta w d) ds) (slice_of (m_id m)) =
         slice_after (apply_delta w d) (slice_of (m_id m)) d'" by (elim exE conjE)
    have "slice_after (apply_delta w d) (slice_of (m_id m)) d' = slice_after w (slice_of (m_id m)) d'"
      unfolding slice_after_def policy_module.other_slices_kept [OF pm Cons.hyps(1) Cons.prems(2) ne] ..
    with d' show ?thesis by (intro exI [of _ d']) simp
  next
    case False
    then have "m = m0" using Cons.prems(3) by simp
    then show ?thesis
      using Cons.hyps(1) deltas_other [OF Cons.hyps(2) gm plain new]
        apply_delta_slice [OF pm Cons.hyps(1) Cons.prems(2)]
      by auto
  qed
qed simp

text \<open>The permit, read slice by slice.\<close>

lemma permit_slices:
  assumes "runDecisionModules inp ms = Inr (Permit w)" and "good_modules ms" and "is_plain (di_state inp)"
  shows "is_plain w"
    and "wf_js (di_state inp) \<Longrightarrow> wf_js w"
    and "k \<notin> slice_of ` m_id ` set ms \<Longrightarrow> getp w k = getp (di_state inp) k"
    and "m \<in> set ms \<Longrightarrow> \<exists>d. m_eval m (di_intent inp) (di_state inp) (di_context inp) = Inr (Allow d) \<and>
      getp w (slice_of (m_id m)) = slice_after (di_state inp) (slice_of (m_id m)) d"
proof -
  obtain ds where "mapE (\<lambda>m. m_eval m (di_intent inp) (di_state inp) (di_context inp)) ms = Inr (map Allow ds)"
    and w: "w = foldl apply_delta (di_state inp) ds"
    using assms(1,2) by (rule permitE)
  then have a: "all_allow (di_intent inp) (di_state inp) (di_context inp) ms ds"
    by (simp add: mapE_Inr_iff list_all2_map2)
  show "is_plain w" "wf_js (di_state inp) \<Longrightarrow> wf_js w"
    "k \<notin> slice_of ` m_id ` set ms \<Longrightarrow> getp w k = getp (di_state inp) k"
    "m \<in> set ms \<Longrightarrow> \<exists>d. m_eval m (di_intent inp) (di_state inp) (di_context inp) = Inr (Allow d) \<and>
      getp w (slice_of (m_id m)) = slice_after (di_state inp) (slice_of (m_id m)) d"
    unfolding w using deltas_plain [OF a assms(2,3)] deltas_wf [OF a assms(2) _ assms(3)]
      deltas_other [OF a assms(2,3)] deltas_slice [OF a assms(2,3)] by blast+
qed

section \<open>The two modes\<close>

lemma process_collect_reasons:
  "fst (process_results CollectAll rs w acc) =
     acc @ concat (map (\<lambda>r. case r of Deny d \<Rightarrow> d | Allow _ \<Rightarrow> []) rs)"
proof (induction rs arbitrary: w acc)
  case (Cons r rs)
  then show ?case by (cases r) auto
qed simp

lemma process_failfast_reasons:
  "fst (process_results FailFast rs w acc) =
     acc @ (case dropWhile (\<lambda>r. \<exists>d. r = Allow d) rs of Deny d # _ \<Rightarrow> d | _ \<Rightarrow> [])"
proof (induction rs arbitrary: w acc)
  case (Cons r rs)
  then show ?case by (cases r) auto
qed simp

lemma failfast_prefix:
  "\<exists>more. fst (process_results CollectAll rs w acc) = fst (process_results FailFast rs w acc) @ more"
  by (induction rs arbitrary: w acc)
    (auto simp: process_collect_reasons process_failfast_reasons split: policy_result.splits)

lemma process_no_deny:
  "\<forall>r \<in> set rs. \<exists>d. r = Allow d \<Longrightarrow> process_results mode rs w acc = process_results mode' rs w acc"
  by (induction rs arbitrary: w) auto

text \<open>
  Failing fast decides as collecting all reasons does; its reasons are the first of the others.
\<close>

lemma modes_agree:
  assumes "good_modules ms"
  shows "runDecisionModules (inp\<lparr>di_mode := FailFast\<rparr>) ms = Inr (Permit w) \<longleftrightarrow>
      runDecisionModules (inp\<lparr>di_mode := CollectAll\<rparr>) ms = Inr (Permit w)"
    and "runDecisionModules (inp\<lparr>di_mode := FailFast\<rparr>) ms = Inr (Refuse rs st) \<Longrightarrow>
      \<exists>more. runDecisionModules (inp\<lparr>di_mode := CollectAll\<rparr>) ms = Inr (Refuse (rs @ more) st)"
proof -
  let ?run = "mapE (\<lambda>m. m_eval m (di_intent inp) (di_state inp) (di_context inp)) ms"
  let ?p = "\<lambda>mode rs. process_results mode rs (di_state inp) []"
  have ctx: "di_context (inp\<lparr>di_mode := m\<rparr>) = di_context inp" for m by (simp add: di_context_def)
  have agree: "fst (?p FailFast rs) = [] \<longleftrightarrow> fst (?p CollectAll rs) = []"
    and same: "fst (?p FailFast rs) = [] \<Longrightarrow> ?p FailFast rs = ?p CollectAll rs" if "?run = Inr rs" for rs
  proof -
    note nd = good_no_empty_deny [OF that assms]
    have eq: "?p m rs = ?p m' rs" if "fst (?p m rs) = []" for m m'
      using process_reasons [OF _ that] nd by (intro process_no_deny) blast
    show "fst (?p FailFast rs) = [] \<longleftrightarrow> fst (?p CollectAll rs) = []"
      using eq [of FailFast CollectAll] eq [of CollectAll FailFast] by auto
    show "fst (?p FailFast rs) = [] \<Longrightarrow> ?p FailFast rs = ?p CollectAll rs" by (rule eq)
  qed
  show "runDecisionModules (inp\<lparr>di_mode := FailFast\<rparr>) ms = Inr (Permit w) \<longleftrightarrow>
      runDecisionModules (inp\<lparr>di_mode := CollectAll\<rparr>) ms = Inr (Permit w)"
    using agree same by (cases ?run) (auto simp: runDecisionModules_def ctx Let_def)
  assume "runDecisionModules (inp\<lparr>di_mode := FailFast\<rparr>) ms = Inr (Refuse rs st)"
  then obtain res where r: "?run = Inr res" and rs: "rs = fst (?p FailFast res)" "rs \<noteq> []" "st = di_state inp"
    by (auto simp: runDecisionModules_def ctx Let_def bindE_eq_Inr split: if_splits)
  obtain more where "fst (?p CollectAll res) = rs @ more"
    using failfast_prefix [of res "di_state inp" "[]"] rs(1) by auto
  with r rs show "\<exists>more. runDecisionModules (inp\<lparr>di_mode := CollectAll\<rparr>) ms = Inr (Refuse (rs @ more) st)"
    by (auto simp: runDecisionModules_def ctx Let_def)
qed

end
