(* ===== verification/StateGuards.thy ===== *)
theory StateGuards
  imports Decision
begin

text \<open>
  \<open>policy/stateGuards.ts\<close>: the structural check of a runtime state and the check of the evaluated
  agent's own numbers. The lemmas say what a module may rely on once both have passed.
\<close>

definition required_top :: "string list" where
  "required_top =
     [''period_id'', ''kill_switch'', ''allowlists'', ''budget'', ''max_amount_per_action'', ''velocity'',
      ''replay'', ''concurrency'', ''recursion'', ''tool_limits'']"

definition isRuntimeState :: "jsval \<Rightarrow> bool" where
  "isRuntimeState st =
     (if \<not> is_object st then False
      else if \<not> is_string (getp st ''policy_version'') then False
      else if \<not> is_string (getp st ''period_id'') then False
      else if \<not> list_all (has_prop st) required_top then False
      else let ks = getp st ''kill_switch''
      in if \<not> is_object ks \<or> \<not> is_bool (getp ks ''global'') \<or> \<not> is_object (getp ks ''agents'') then False
      else if \<not> list_all (is_bool \<circ> snd) (entries (getp ks ''agents'')) then False
      else if \<not> is_object (getp st ''allowlists'') then False
      else let budget = getp st ''budget''
      in if \<not> is_object budget \<or> \<not> is_object (getp budget ''budget_limit'')
            \<or> \<not> is_object (getp budget ''spent_in_period'') then False
      else if \<not> is_object (getp st ''max_amount_per_action'') then False
      else let vel = getp st ''velocity''
      in if \<not> is_object vel \<or> \<not> is_object (getp vel ''config'') \<or> \<not> is_object (getp vel ''counters'') then False
      else if \<not> v_finite (getp (getp vel ''config'') ''window_seconds'')
            \<or> \<not> v_finite (getp (getp vel ''config'') ''max_actions'') then False
      else let rp = getp st ''replay''
      in if \<not> is_object rp \<or> \<not> is_object (getp rp ''nonces'') then False
      else if \<not> v_finite (getp rp ''window_seconds'') \<or> \<not> v_finite (getp rp ''max_nonces_per_agent'') then False
      else let cc = getp st ''concurrency''
      in if \<not> is_object cc \<or> \<not> is_object (getp cc ''max_concurrent'') \<or> \<not> is_object (getp cc ''active'')
            \<or> \<not> is_object (getp cc ''active_auths'') then False
      else let rc = getp st ''recursion''
      in if \<not> is_object rc \<or> \<not> is_object (getp rc ''max_depth'') then False
      else let limits = getp st ''tool_limits''
      in if \<not> is_object limits \<or> \<not> is_object (getp limits ''max_calls'') \<or> \<not> is_object (getp limits ''calls'')
         then False
      else if \<not> v_finite (getp limits ''window_seconds'') then False
      else True)"

text \<open>\<open>Some field\<close> is \<open>\{ ok: false, field \}\<close>, \<open>None\<close> is \<open>\{ ok: true \}\<close>.\<close>

definition validateNumericLeaves :: "jsval \<Rightarrow> string \<Rightarrow> string option res" where
  "validateNumericLeaves st agentId =
     bindE (pathE st [''budget'', ''budget_limit'', agentId]) (\<lambda>budgetLimit.
     if budgetLimit = JUndef \<or> \<not> is_bigint budgetLimit then Inr (Some ''budget.budget_limit'')
     else bindE (pathE st [''budget'', ''spent_in_period'', agentId]) (\<lambda>spent.
     if spent \<noteq> JUndef \<and> \<not> is_bigint spent then Inr (Some ''budget.spent_in_period'')
     else bindE (pathE st [''max_amount_per_action'', agentId]) (\<lambda>cap.
     if cap = JUndef \<or> \<not> is_bigint cap then Inr (Some ''max_amount_per_action'')
     else bindE (pathE st [''concurrency'', ''max_concurrent'', agentId]) (\<lambda>maxConcurrent.
     if maxConcurrent = JUndef \<or> \<not> v_finite maxConcurrent then Inr (Some ''concurrency.max_concurrent'')
     else bindE (pathE st [''recursion'', ''max_depth'', agentId]) (\<lambda>maxDepth.
     if maxDepth = JUndef \<or> \<not> v_finite maxDepth then Inr (Some ''recursion.max_depth'')
     else bindE (pathE st [''tool_limits'', ''max_calls'', agentId]) (\<lambda>maxCalls.
     if maxCalls = JUndef \<or> \<not> v_finite maxCalls then Inr (Some ''tool_limits.max_calls'')
     else Inr None))))))"

section \<open>What the guards give\<close>

lemma is_object_getp: "is_object v \<Longrightarrow> propE v k = Inr (getp v k)"
  by (rule propE_object)

text \<open>The containers exist, so reading below them never throws.\<close>

lemma runtime_objects:
  assumes "isRuntimeState st"
  shows "is_object st" "is_string (getp st ''policy_version'')"
    "is_object (path st [''kill_switch''])" "is_bool (path st [''kill_switch'', ''global''])"
    "is_object (path st [''kill_switch'', ''agents''])"
    "is_object (path st [''budget''])" "is_object (path st [''budget'', ''budget_limit''])"
    "is_object (path st [''budget'', ''spent_in_period''])" "is_object (path st [''max_amount_per_action''])"
    "is_object (path st [''velocity''])" "is_object (path st [''velocity'', ''config''])"
    "is_object (path st [''velocity'', ''counters''])"
    "is_object (path st [''replay''])" "is_object (path st [''replay'', ''nonces''])"
    "is_object (path st [''concurrency''])" "is_object (path st [''concurrency'', ''max_concurrent''])"
    "is_object (path st [''concurrency'', ''active''])" "is_object (path st [''concurrency'', ''active_auths''])"
    "is_object (path st [''recursion''])" "is_object (path st [''recursion'', ''max_depth''])"
    "is_object (path st [''tool_limits''])" "is_object (path st [''tool_limits'', ''max_calls''])"
    "is_object (path st [''tool_limits'', ''calls''])"
  using assms unfolding isRuntimeState_def Let_def by (simp_all split: if_splits)

lemma runtime_finite:
  assumes "isRuntimeState st"
  shows "v_finite (path st [''velocity'', ''config'', ''window_seconds''])"
    "v_finite (path st [''velocity'', ''config'', ''max_actions''])"
    "v_finite (path st [''replay'', ''window_seconds''])"
    "v_finite (path st [''replay'', ''max_nonces_per_agent''])"
    "v_finite (path st [''tool_limits'', ''window_seconds''])"
  using assms unfolding isRuntimeState_def Let_def by (simp_all split: if_splits)

lemma leaves_total:
  assumes "isRuntimeState st"
  shows "\<exists>r. validateNumericLeaves st a = Inr r"
  using runtime_objects [OF assms, simplified]
  by (simp add: validateNumericLeaves_def propE_object)

lemma leavesD:
  assumes "validateNumericLeaves st a = Inr None"
  shows "\<exists>l. path st [''budget'', ''budget_limit'', a] = JBig l"
    and "path st [''budget'', ''spent_in_period'', a] = JUndef \<or>
      (\<exists>s. path st [''budget'', ''spent_in_period'', a] = JBig s)"
    and "\<exists>c. path st [''max_amount_per_action'', a] = JBig c"
    and "v_finite (path st [''concurrency'', ''max_concurrent'', a])"
    and "v_finite (path st [''recursion'', ''max_depth'', a])"
    and "v_finite (path st [''tool_limits'', ''max_calls'', a])"
proof -
  have big: "is_bigint v \<Longrightarrow> \<exists>i. v = JBig i" for v by (cases v) auto
  note d = assms [unfolded validateNumericLeaves_def]
  from d obtain v1 where 1: "pathE st [''budget'', ''budget_limit'', a] = Inr v1" "is_bigint v1"
    and d1: "bindE (pathE st [''budget'', ''spent_in_period'', a]) (\<lambda>spent.
     if spent \<noteq> JUndef \<and> \<not> is_bigint spent then Inr (Some ''budget.spent_in_period'')
     else bindE (pathE st [''max_amount_per_action'', a]) (\<lambda>cap.
     if cap = JUndef \<or> \<not> is_bigint cap then Inr (Some ''max_amount_per_action'')
     else bindE (pathE st [''concurrency'', ''max_concurrent'', a]) (\<lambda>maxConcurrent.
     if maxConcurrent = JUndef \<or> \<not> v_finite maxConcurrent then Inr (Some ''concurrency.max_concurrent'')
     else bindE (pathE st [''recursion'', ''max_depth'', a]) (\<lambda>maxDepth.
     if maxDepth = JUndef \<or> \<not> v_finite maxDepth then Inr (Some ''recursion.max_depth'')
     else bindE (pathE st [''tool_limits'', ''max_calls'', a]) (\<lambda>maxCalls.
     if maxCalls = JUndef \<or> \<not> v_finite maxCalls then Inr (Some ''tool_limits.max_calls'')
     else Inr None))))) = Inr None"
    unfolding bindE_eq_Inr [of "pathE st [''budget'', ''budget_limit'', a]"] by (auto split: if_splits)
  show "\<exists>l. path st [''budget'', ''budget_limit'', a] = JBig l"
    using big [OF 1(2)] pathE_InrD [OF 1(1)] by simp
  show "path st [''budget'', ''spent_in_period'', a] = JUndef \<or>
      (\<exists>s. path st [''budget'', ''spent_in_period'', a] = JBig s)"
    "\<exists>c. path st [''max_amount_per_action'', a] = JBig c"
    "v_finite (path st [''concurrency'', ''max_concurrent'', a])"
    "v_finite (path st [''recursion'', ''max_depth'', a])"
    "v_finite (path st [''tool_limits'', ''max_calls'', a])"
    using d1 big by (auto simp: bindE_eq_Inr simp del: pathE.simps path.simps dest!: pathE_InrD split: if_splits)
qed

end
