(* ===== verification/CodecBase.thy ===== *)
theory CodecBase
  imports PolicyModule
begin

text \<open>
  The shared helpers of \<open>policy/modules/_codec.ts\<close> and the interface of a module codec. \<open>buildE\<close> is
  the loop all codecs are made of: it visits the keys of an object in order, skips or converts each
  entry, and collects the results. The locale \<open>module_codec\<close> states what export and import rely on:
  serialization reads the module's own slices, deserialization writes only these, and a payload
  survives the way through a state whose entries have the declared types.
\<close>

section \<open>Checked conversions\<close>

definition invalid :: "string \<Rightarrow> exn" where
  "invalid field = Thrown (''invalid '' @ field)"

definition asObject :: "jsval \<Rightarrow> string \<Rightarrow> jsval res" where
  "asObject v field = (if \<not> is_object v \<or> is_array v then Inl (invalid field) else Inr v)"

definition asStringArray :: "jsval \<Rightarrow> string \<Rightarrow> jsval list res" where
  "asStringArray v field =
     (case v of
        JArr xs \<Rightarrow> mapE (\<lambda>e. if is_string e then Inr e else Inl (invalid field)) xs
      | _ \<Rightarrow> Inl (invalid field))"

definition assertInt :: "jsval \<Rightarrow> string \<Rightarrow> jsval res" where
  "assertInt v field = (if v_integer v then Inr v else Inl (invalid field))"

definition assertPosInt :: "jsval \<Rightarrow> string \<Rightarrow> jsval res" where
  "assertPosInt v field =
     bindE (assertInt v field) (\<lambda>n. if js_le n (JNum (jint 0)) then Inl (invalid field) else Inr n)"

definition assertNonNegInt :: "jsval \<Rightarrow> string \<Rightarrow> jsval res" where
  "assertNonNegInt v field =
     bindE (assertInt v field) (\<lambda>n. if js_lt n (JNum (jint 0)) then Inl (invalid field) else Inr n)"

text \<open>\<open>DECIMAL_BIGINT\<close>: digits without a leading zero.\<close>

definition is_decimal :: "string \<Rightarrow> bool" where
  "is_decimal s = (s \<noteq> [] \<and> list_all is_digit s \<and> (s = ''0'' \<or> hd s \<noteq> CHR ''0''))"

definition assertDecimalBigIntString :: "jsval \<Rightarrow> string \<Rightarrow> jsval res" where
  "assertDecimalBigIntString v field =
     (case v of
        JStr s \<Rightarrow> if is_decimal s then Inr (JBig (int (digits_val 0 s))) else Inl (invalid field)
      | _ \<Rightarrow> Inl (invalid field))"

lemma assertInt_Inr: "assertInt v f = Inr w \<longleftrightarrow> v_integer v \<and> w = v"
  by (auto simp: assertInt_def)

lemma assertPosInt_Inr: "assertPosInt v f = Inr w \<longleftrightarrow> w = v \<and> (\<exists>i. v = JNum (jint i) \<and> 0 < i)"
  by (auto simp: assertPosInt_def assertInt_Inr bindE_eq_Inr elim!: v_integerE)

lemma assertNonNegInt_Inr: "assertNonNegInt v f = Inr w \<longleftrightarrow> w = v \<and> (\<exists>i. v = JNum (jint i) \<and> 0 \<le> i)"
  by (auto simp: assertNonNegInt_def assertInt_Inr bindE_eq_Inr elim!: v_integerE)

lemma asObject_Inr: "asObject v f = Inr w \<longleftrightarrow> is_plain v \<and> w = v"
  by (cases v) (auto simp: asObject_def)

lemma is_decimal_nat_str: "is_decimal (nat_str n)"
proof (cases "n = 0")
  case True
  then show ?thesis by (simp add: is_decimal_def nat_str.simps [of 0] digit_char_def is_digit_def)
next
  case False
  then show ?thesis using nat_str_digits [of _ n] nat_str_hd_zero [of n] by (simp add: is_decimal_def list_all_iff)
qed

section \<open>Keys in order\<close>

definition sortedKeys :: "jsval \<Rightarrow> string list res" where
  "sortedKeys r = (if nullish r then Inl TypeError else Inr (sort_u16 (obj_keys r)))"

lemma u16_rank_inject: "u16_rank c = u16_rank d \<longleftrightarrow> c = d"
proof -
  have "(if a < 238 then a else if a < 240 then a + 16 else a - 2)
      = (if b < 238 then b else if b < 240 then b + 16 else b - 2) \<longleftrightarrow> a = b"
    if "a < 256" "b < 256" for a b :: nat
    using that by auto
  from this [of "of_char c" "of_char d"] show ?thesis
    by (simp add: u16_rank_def Let_def)
qed

lemma u16_key_inject: "u16_key s = u16_key t \<longleftrightarrow> s = t"
  by (simp add: u16_key_def inj_map_eq_map inj_on_def u16_rank_inject)

definition ordered :: "string list \<Rightarrow> bool" where
  "ordered ks = sorted_wrt (\<lambda>a b. u16_key a < u16_key b) ks"

lemma ordered_distinct: "ordered ks \<Longrightarrow> distinct ks"
  by (induction ks) (auto simp: ordered_def)

lemma sort_u16_ordered: "ordered ks \<Longrightarrow> sort_u16 ks = ks"
proof -
  assume "ordered ks"
  then have "sorted (map u16_key ks)"
    by (induction ks) (auto simp: ordered_def less_imp_le)
  then show ?thesis by (simp add: sort_u16_def sort_key_id_if_sorted)
qed

lemma ordered_sort_u16:
  assumes "distinct ks"
  shows "ordered (sort_u16 ks)"
proof -
  have "sorted (map u16_key (sort_u16 ks))" "distinct (map u16_key (sort_u16 ks))"
    using assms by (simp_all add: sort_u16_def distinct_map inj_on_def u16_key_inject)
  then have "sorted_wrt (<) (map u16_key (sort_u16 ks))" by (simp add: strict_sorted_iff)
  then show ?thesis by (simp add: ordered_def sorted_wrt_map)
qed

lemma set_sort_u16 [simp]: "set (sort_u16 ks) = set ks"
  by (simp add: sort_u16_def)

lemma ordered_unique: "ordered ks \<Longrightarrow> ordered ls \<Longrightarrow> set ks = set ls \<Longrightarrow> ks = ls"
proof -
  assume k: "ordered ks" and l: "ordered ls" and s: "set ks = set ls"
  have "map u16_key ks = map u16_key ls"
    using k l s
    by (intro strict_sorted_equal) (simp_all add: ordered_def sorted_wrt_map)
  then show ?thesis by (simp add: inj_map_eq_map inj_on_def u16_key_inject)
qed

section \<open>The conversion loop\<close>

definition build_loop :: "(string \<Rightarrow> jsval \<Rightarrow> jsval option res) \<Rightarrow> jsval \<Rightarrow> string list
    \<Rightarrow> (string \<times> jsval) option list res" where
  "build_loop f r ks = mapE (\<lambda>k. bindE (f k (getp r k)) (\<lambda>x. Inr (map_option (Pair k) x))) ks"

definition buildE :: "(string \<Rightarrow> jsval \<Rightarrow> jsval option res) \<Rightarrow> jsval \<Rightarrow> jsval res" where
  "buildE f r =
     bindE (sortedKeys r) (\<lambda>ks. bindE (build_loop f r ks) (\<lambda>es. Inr (JObj (List.map_filter id es))))"

abbreviation keeps :: "(string \<Rightarrow> jsval \<Rightarrow> jsval res) \<Rightarrow> string \<Rightarrow> jsval \<Rightarrow> jsval option res" where
  "keeps f k v \<equiv> bindE (f k v) (\<lambda>w. Inr (Some w))"

lemma build_loop_entries:
  assumes "build_loop f r ks = Inr es" and "ordered ks"
  shows "ordered (map fst (List.map_filter id es))"
    and "fst ` set (List.map_filter id es) \<subseteq> set ks"
    and "\<forall>(k, v) \<in> set (List.map_filter id es). f k (getp r k) = Inr (Some v)"
proof -
  have "ordered (map fst (List.map_filter id es)) \<and> fst ` set (List.map_filter id es) \<subseteq> set ks \<and>
    (\<forall>(k, v) \<in> set (List.map_filter id es). f k (getp r k) = Inr (Some v))"
    using assms
  proof (induction ks arbitrary: es)
    case (Cons k ks)
    then obtain x xs where es: "es = map_option (Pair k) x # xs" and x: "f k (getp r k) = Inr x"
      and xs: "build_loop f r ks = Inr xs"
      by (auto simp: build_loop_def bindE_eq_Inr)
    have "ordered ks" using Cons.prems(2) by (simp add: ordered_def)
    note IH = Cons.IH [OF xs this]
    show ?case
    proof (cases x)
      case None
      with IH es show ?thesis by (auto simp: List.map_filter_simps)
    next
      case (Some v)
      have "\<forall>l \<in> fst ` set (List.map_filter id xs). u16_key k < u16_key l"
        using IH Cons.prems(2) by (auto simp: ordered_def id_def)
      with IH es Some x show ?thesis by (auto simp: List.map_filter_simps ordered_def id_def)
    qed
  qed (simp add: build_loop_def List.map_filter_simps ordered_def)
  then show "ordered (map fst (List.map_filter id es))"
    "fst ` set (List.map_filter id es) \<subseteq> set ks"
    "\<forall>(k, v) \<in> set (List.map_filter id es). f k (getp r k) = Inr (Some v)"
    by blast+
qed

lemma buildE_InrD:
  assumes "buildE f r = Inr q" and "distinct (obj_keys r)"
  obtains es where "q = JObj es" "ordered (map fst es)" "fst ` set es \<subseteq> set (obj_keys r)"
    "\<forall>(k, v) \<in> set es. f k (getp r k) = Inr (Some v)"
proof -
  obtain xs where "build_loop f r (sort_u16 (obj_keys r)) = Inr xs" "q = JObj (List.map_filter id xs)"
    using assms(1) by (auto simp: buildE_def sortedKeys_def bindE_eq_Inr split: if_splits)
  with build_loop_entries [OF this(1) ordered_sort_u16 [OF assms(2)]] show thesis
    by (intro that) auto
qed

text \<open>On an object with its keys in order, a conversion that skips nothing is a map over the entries.\<close>

lemma build_loop_all2:
  assumes "list_all2 (\<lambda>(k, v) (l, w). l = k \<and> getp r k = v \<and> f k v = Inr (Some w)) es fs"
  shows "build_loop f r (map fst es) = Inr (map Some fs)"
  using assms
  by (induction es fs rule: list_all2_induct) (auto simp: build_loop_def)

lemma getp_in: "distinct (map fst es) \<Longrightarrow> (k, v) \<in> set es \<Longrightarrow> getp (JObj es) k = v"
  by simp

lemma buildE_all2:
  assumes "ordered (map fst es)"
    and "list_all2 (\<lambda>(k, v) (l, w). l = k \<and> f k v = Inr (Some w)) es fs"
  shows "buildE f (JObj es) = Inr (JObj fs)"
proof -
  have d: "distinct (map fst es)" using assms(1) by (rule ordered_distinct)
  have "list_all2 (\<lambda>(k, v) (l, w). l = k \<and> getp (JObj es) k = v \<and> f k v = Inr (Some w)) es fs"
    by (rule list.rel_mono_strong [OF assms(2)]) (use getp_in [OF d] in auto)
  from build_loop_all2 [OF this]
  have "build_loop f (JObj es) (map fst es) = Inr (map Some fs)" .
  moreover have "List.map_filter id (map Some fs) = fs" by (induction fs) (simp_all add: List.map_filter_simps)
  ultimately show ?thesis
    by (simp add: buildE_def sortedKeys_def obj_keys_def sort_u16_ordered [OF assms(1)])
qed

lemma buildE_keepsD:
  assumes "buildE (keeps g) (JObj es) = Inr q" and "ordered (map fst es)"
  obtains fs where "q = JObj fs" "list_all2 (\<lambda>(k, v) (l, w). l = k \<and> g k v = Inr w) es fs"
proof -
  have d: "distinct (map fst es)" using assms(2) by (rule ordered_distinct)
  obtain xs where xs: "build_loop (keeps g) (JObj es) (map fst es) = Inr xs"
    and q: "q = JObj (List.map_filter id xs)"
    using assms by (auto simp: buildE_def sortedKeys_def obj_keys_def sort_u16_ordered bindE_eq_Inr)
  have "set fs \<subseteq> set es \<Longrightarrow> build_loop (keeps g) (JObj es) (map fst fs) = Inr ys \<Longrightarrow>
      list_all2 (\<lambda>(k, v) (l, w). l = k \<and> g k v = Inr w) fs (List.map_filter id ys)" for fs ys
  proof (induction fs arbitrary: ys)
    case (Cons e fs)
    obtain k v where e: "e = (k, v)" by (cases e)
    have "getp (JObj es) k = v" using Cons.prems(1) by (intro getp_in [OF d]) (simp add: e)
    with Cons show ?case
      by (auto simp: e build_loop_def bindE_eq_Inr List.map_filter_simps simp del: getp.simps(1))
  qed (simp add: build_loop_def List.map_filter_simps)
  from this [OF subset_refl xs] q show thesis by (rule that [rotated])
qed

text \<open>
  A serializer \<open>f\<close> and a deserializer \<open>g\<close> that invert each other entry by entry invert each other on
  whole objects.
\<close>

lemma build_roundtrip_keys:
  assumes ser: "buildE f r = Inr p" and wf: "wf_js r"
    and deser: "buildE (keeps g) p = Inr q"
    and inv: "\<And>k v w. k \<in> set (obj_keys r) \<Longrightarrow> f k (getp r k) = Inr (Some v) \<Longrightarrow> g k v = Inr w \<Longrightarrow>
      f k w = Inr (Some v)"
  shows "buildE f q = Inr p"
proof -
  have d: "distinct (obj_keys r)" using wf_js_entries [OF wf] by (simp add: obj_keys_def)
  obtain es where p: "p = JObj es" and o: "ordered (map fst es)" and ks: "fst ` set es \<subseteq> set (obj_keys r)"
    and es: "\<forall>(k, v) \<in> set es. f k (getp r k) = Inr (Some v)"
    using buildE_InrD [OF ser d] by blast
  obtain fs where q: "q = JObj fs" and fs: "list_all2 (\<lambda>(k, v) (l, w). l = k \<and> g k v = Inr w) es fs"
    using buildE_keepsD [OF deser [unfolded p] o] by blast
  have "map fst fs = map fst es"
    using fs by (induction es fs rule: list_all2_induct) auto
  with o have o': "ordered (map fst fs)" by simp
  have inv': "f k w = Inr (Some v)" if "(k, v) \<in> set es" "g k v = Inr w" for k v w
  proof (rule inv [OF _ _ that(2)])
    show "k \<in> set (obj_keys r)" using ks that(1) by force
    show "f k (getp r k) = Inr (Some v)" using es that(1) by blast
  qed
  have "list_all2 (\<lambda>(k, w) (l, v). l = k \<and> f k w = Inr (Some v)) fs es"
    using fs inv' by (auto simp: list_all2_conv_all_nth split: prod.splits) (metis nth_mem)
  from buildE_all2 [OF o' this] show ?thesis by (simp add: p q)
qed

lemma build_roundtrip:
  assumes "buildE f r = Inr p" and "wf_js r" and "buildE (keeps g) p = Inr q"
    and "\<And>k x v w. wf_js x \<Longrightarrow> f k x = Inr (Some v) \<Longrightarrow> g k v = Inr w \<Longrightarrow> f k w = Inr (Some v)"
  shows "buildE f q = Inr p"
  using assms(4) [OF wf_js_getp [OF assms(2)]] by (rule build_roundtrip_keys [OF assms(1-3)])

section \<open>Lists\<close>

text \<open>\<open>Array.prototype.sort\<close> with a comparison function, here its \<open>less than\<close>: stable.\<close>

fun ins_by :: "('a \<Rightarrow> 'a \<Rightarrow> bool) \<Rightarrow> 'a \<Rightarrow> 'a list \<Rightarrow> 'a list" where
  "ins_by lt x [] = [x]"
| "ins_by lt x (y # ys) = (if lt y x then y # ins_by lt x ys else x # y # ys)"

definition sort_by :: "('a \<Rightarrow> 'a \<Rightarrow> bool) \<Rightarrow> 'a list \<Rightarrow> 'a list" where
  "sort_by lt xs = foldr (ins_by lt) xs []"

lemma set_ins_by: "set (ins_by lt x ys) = insert x (set ys)"
  by (induction ys) auto

lemma set_sort_by [simp]: "set (sort_by lt xs) = set xs"
  unfolding sort_by_def by (induction xs) (auto simp: set_ins_by)

lemma sort_by_key:
  fixes key :: "'a \<Rightarrow> 'k :: linorder"
  assumes "\<And>x y. x \<in> set xs \<Longrightarrow> y \<in> set xs \<Longrightarrow> lt x y \<longleftrightarrow> key x < key y"
  shows "sort_by lt xs = sort_key key xs"
  using assms
proof (induction xs)
  case (Cons x xs)
  have "ins_by lt x ys = insort_key key x ys" if "set ys \<subseteq> set xs" for ys
    using that Cons.prems by (induction ys) (auto simp: not_le)
  from this [OF equalityD1 [OF set_sort_by [of lt xs]]] Cons show ?case
    by (simp add: sort_by_def sort_key_def)
qed (simp add: sort_by_def)

text \<open>A callback that also receives the index.\<close>

definition mapE_idx :: "(nat \<Rightarrow> 'a \<Rightarrow> 'b res) \<Rightarrow> 'a list \<Rightarrow> 'b list res" where
  "mapE_idx f xs = mapE (\<lambda>(j, x). f j x) (enumerate 0 xs)"

lemma mapE_idx_Inr:
  assumes "\<And>j x y. f j x = Inr y \<Longrightarrow> P x y" and "mapE_idx f xs = Inr ys"
  shows "list_all2 P xs ys"
proof -
  have "list_all2 (\<lambda>(j, x) y. f j x = Inr y) (enumerate n xs) ys \<Longrightarrow> list_all2 P xs ys" for n ys
    by (induction xs arbitrary: n ys) (auto simp: list_all2_Cons1 intro: assms(1))
  moreover have "list_all2 (\<lambda>(j, x) y. f j x = Inr y) (enumerate 0 xs) ys"
    using assms(2) by (simp add: mapE_idx_def mapE_Inr_iff split_def)
  ultimately show ?thesis by blast
qed

section \<open>The interface of a codec\<close>

text \<open>Assignment of a top-level property of the state object.\<close>

definition set_prop :: "jsval \<Rightarrow> string \<Rightarrow> jsval \<Rightarrow> jsval" where
  "set_prop st k x = spread_set st k x"

lemma set_prop_plain [simp]: "is_plain (set_prop st k x)"
  by (simp add: set_prop_def)

lemma getp_set_prop [simp]:
  "is_plain st \<Longrightarrow> getp (set_prop st k x) k' = (if k' = k then x else getp st k')"
  by (simp add: set_prop_def getp_spread_set)

lemma wf_set_prop: "wf_js st \<Longrightarrow> wf_js x \<Longrightarrow> wf_js (set_prop st k x)"
  by (simp add: set_prop_def wf_js_spread_set)

locale module_codec =
  fixes ser :: "jsval \<Rightarrow> jsval res" and deser :: "jsval \<Rightarrow> jsval \<Rightarrow> jsval res" and slices :: "string list"
    and typed :: "jsval \<Rightarrow> bool"
  assumes ser_local: "is_plain st \<Longrightarrow> is_plain t \<Longrightarrow> (\<And>k. k \<in> set slices \<Longrightarrow> getp st k = getp t k) \<Longrightarrow>
      ser st = ser t"
    and deser_frame: "deser t p = Inr t' \<Longrightarrow> is_plain t \<Longrightarrow>
      is_plain t' \<and> (\<forall>k. k \<notin> set slices \<longrightarrow> getp t' k = getp t k)"
    and payload_survives: "ser st = Inr p \<Longrightarrow> wf_js st \<Longrightarrow> is_plain st \<Longrightarrow> typed st \<Longrightarrow> is_plain t \<Longrightarrow>
      deser t p = Inr t' \<Longrightarrow> ser t' = Inr p"

end
