(* ===== verification/Codecs.thy ===== *)
theory Codecs
  imports CodecBase SimpleModules Velocity NonceReplay Concurrency ToolCalls
begin

text \<open>
  The eight module codecs of \<open>policy/modules/_codec.ts\<close>, each with its serializer, its deserializer
  (which returns the state it assigns to) and an interpretation of \<open>module_codec\<close>.
\<close>

section \<open>Allowlists\<close>

text \<open>\<open>uniqSorted\<close>: the elements of an iterable without repetitions, in the order of \<open><\<close>.\<close>

fun iterE :: "jsval \<Rightarrow> jsval list res" where
  "iterE (JArr xs) = Inr xs"
| "iterE (JStr s) = Inr (map JStr (units s))"
| "iterE _ = Inl TypeError"

definition sort_values :: "jsval list \<Rightarrow> jsval list" where
  "sort_values xs = sort_by js_lt (filter (\<lambda>x. x \<noteq> JUndef) xs) @ filter (\<lambda>x. x = JUndef) xs"

definition uniqSorted :: "jsval \<Rightarrow> jsval res" where
  "uniqSorted v = bindE (iterE v) (\<lambda>xs. Inr (JArr (sort_values (rev (remdups (rev xs))))))"

definition normalizeAllowlists :: "jsval \<Rightarrow> jsval res" where
  "normalizeAllowlists al =
     bindE (propE al ''action_types'') (\<lambda>a. bindE (uniqSorted (coalesce a (JArr []))) (\<lambda>action_types.
     bindE (uniqSorted (coalesce (getp al ''assets'') (JArr []))) (\<lambda>assets.
     bindE (uniqSorted (coalesce (getp al ''targets'') (JArr []))) (\<lambda>targets.
       Inr (JObj [(''action_types'', action_types), (''assets'', assets), (''targets'', targets)])))))"

definition serializeAllowlist :: "jsval \<Rightarrow> jsval res" where
  "serializeAllowlist st = bindE (propE st ''allowlists'') normalizeAllowlists"

definition string_list_or_empty :: "jsval \<Rightarrow> string \<Rightarrow> jsval res" where
  "string_list_or_empty v field =
     (if v = JUndef then Inr (JArr []) else bindE (asStringArray v field) (\<lambda>xs. Inr (JArr xs)))"

definition deserializeAllowlist :: "jsval \<Rightarrow> jsval \<Rightarrow> jsval res" where
  "deserializeAllowlist st payload =
     (if payload = JUndef then Inr (set_prop st ''allowlists'' (JObj []))
      else bindE (asObject payload ''allowlists'') (\<lambda>obj.
           bindE (string_list_or_empty (getp obj ''action_types'') ''allowlists.action_types'') (\<lambda>a.
           bindE (string_list_or_empty (getp obj ''assets'') ''allowlists.assets'') (\<lambda>b.
           bindE (string_list_or_empty (getp obj ''targets'') ''allowlists.targets'') (\<lambda>c.
           bindE (normalizeAllowlists
                    (JObj [(''action_types'', a), (''assets'', b), (''targets'', c)])) (\<lambda>normalized.
             Inr (set_prop st ''allowlists'' normalized)))))))"

lemma sort_values_strings:
  assumes "\<forall>x \<in> set xs. is_string x"
  shows "sort_values xs = sort_key (\<lambda>v. case v of JStr s \<Rightarrow> u16_key s | _ \<Rightarrow> []) xs"
proof -
  have f: "filter (\<lambda>x. x \<noteq> JUndef) xs = xs" "filter (\<lambda>x. x = JUndef) xs = []"
    using assms by (auto simp: filter_id_conv filter_empty_conv)
  have "sort_by js_lt xs = sort_key (\<lambda>v. case v of JStr s \<Rightarrow> u16_key s | _ \<Rightarrow> []) xs"
  proof (rule sort_by_key)
    fix x y assume "x \<in> set xs" "y \<in> set xs"
    then obtain s t where "x = JStr s" "y = JStr t" using assms by (meson is_string.elims(2))
    then show "js_lt x y \<longleftrightarrow> (case x of JStr s \<Rightarrow> u16_key s | _ \<Rightarrow> []) < (case y of JStr s \<Rightarrow> u16_key s | _ \<Rightarrow> [])"
      by (simp add: js_lt_def)
  qed
  with f show ?thesis by (simp add: sort_values_def)
qed

text \<open>A list of strings that \<open>uniqSorted\<close> returned is left alone by it.\<close>

lemma uniqSorted_idem:
  assumes "uniqSorted v = Inr (JArr xs)" and "\<forall>x \<in> set xs. is_string x"
  shows "uniqSorted (JArr xs) = Inr (JArr xs)"
proof -
  obtain ys where ys: "xs = sort_values ys" "distinct ys"
    using assms(1) by (auto simp: uniqSorted_def bindE_eq_Inr)
  then have "set ys \<subseteq> set xs" by (auto simp: sort_values_def)
  then have s: "\<forall>x \<in> set ys. is_string x" using assms(2) by blast
  from ys(1) have xs: "xs = sort_key (\<lambda>v. case v of JStr s \<Rightarrow> u16_key s | _ \<Rightarrow> []) ys"
    by (simp add: sort_values_strings [OF s])
  then have "distinct xs" using ys(2) by simp
  then have "rev (remdups (rev xs)) = xs" by (simp add: distinct_remdups_id)
  moreover have "sort_values xs = xs"
    unfolding sort_values_strings [OF assms(2)] by (simp add: xs sort_key_id_if_sorted)
  ultimately show ?thesis by (simp add: uniqSorted_def)
qed

lemma asStringArray_Inr: "asStringArray v f = Inr xs \<longleftrightarrow> v = JArr xs \<and> (\<forall>x \<in> set xs. is_string x)"
proof -
  have "mapE (\<lambda>e. if is_string e then Inr e else Inl (invalid f)) ys = Inr xs \<longleftrightarrow>
      ys = xs \<and> (\<forall>x \<in> set xs. is_string x)" for ys
    by (induction ys arbitrary: xs) (auto simp: bindE_eq_Inr)
  then show ?thesis by (auto simp: asStringArray_def split: jsval.splits)
qed

lemma uniqSorted_array: "uniqSorted v = Inr w \<Longrightarrow> \<exists>xs. w = JArr xs"
  by (auto simp: uniqSorted_def bindE_eq_Inr)

lemma uniqSorted_again:
  assumes "uniqSorted v = Inr a" and "string_list_or_empty a f = Inr b"
  shows "uniqSorted (coalesce b (JArr [])) = Inr a" and "b = a"
proof -
  obtain xs where a: "a = JArr xs" using uniqSorted_array [OF assms(1)] by blast
  with assms(2) have "\<forall>x \<in> set xs. is_string x" and b: "b = a"
    by (auto simp: string_list_or_empty_def bindE_eq_Inr asStringArray_Inr)
  then show "uniqSorted (coalesce b (JArr [])) = Inr a" "b = a"
    using uniqSorted_idem assms(1) by (auto simp: a)
qed

lemma normalizeAllowlists_Inr:
  assumes "normalizeAllowlists al = Inr p"
  obtains a b c u v w where "p = JObj [(''action_types'', a), (''assets'', b), (''targets'', c)]"
    "uniqSorted u = Inr a" "uniqSorted v = Inr b" "uniqSorted w = Inr c"
  using assms by (auto simp: normalizeAllowlists_def bindE_eq_Inr)

interpretation allowlist_codec: module_codec serializeAllowlist deserializeAllowlist "[''allowlists'']" "\<lambda>_. True"
proof unfold_locales
  fix st t p t'
  assume ser: "serializeAllowlist st = Inr p" and t: "is_plain t" and deser: "deserializeAllowlist t p = Inr t'"
  from ser obtain a b c u v w where p: "p = JObj [(''action_types'', a), (''assets'', b), (''targets'', c)]"
    and u: "uniqSorted u = Inr a" "uniqSorted v = Inr b" "uniqSorted w = Inr c"
    by (auto simp: serializeAllowlist_def bindE_eq_Inr elim!: normalizeAllowlists_Inr)
  from deser obtain a' b' c' n where s: "string_list_or_empty a ''allowlists.action_types'' = Inr a'"
      "string_list_or_empty b ''allowlists.assets'' = Inr b'" "string_list_or_empty c ''allowlists.targets'' = Inr c'"
    and n: "normalizeAllowlists (JObj [(''action_types'', a'), (''assets'', b'), (''targets'', c')]) = Inr n"
    and t': "t' = set_prop t ''allowlists'' n"
    by (auto simp: p deserializeAllowlist_def bindE_eq_Inr asObject_Inr)
  have np: "normalizeAllowlists (JObj [(''action_types'', a), (''assets'', b), (''targets'', c)]) = Inr p"
    using uniqSorted_again [OF u(1) s(1)] uniqSorted_again [OF u(2) s(2)] uniqSorted_again [OF u(3) s(3)]
    by (simp add: normalizeAllowlists_def p)
  have "n = p"
    using n np uniqSorted_again(2) [OF u(1) s(1)] uniqSorted_again(2) [OF u(2) s(2)]
      uniqSorted_again(2) [OF u(3) s(3)] by simp
  with np t show "serializeAllowlist t' = Inr p"
    by (simp add: serializeAllowlist_def t' p propE_object is_plain_object)
qed (auto simp: serializeAllowlist_def deserializeAllowlist_def bindE_eq_Inr propE_object is_plain_object
      split: if_splits)

section \<open>Budget\<close>

text \<open>\<open>value.toString()\<close>, skipping \<open>undefined\<close>.\<close>

definition decimal_entry :: "host \<Rightarrow> string \<Rightarrow> jsval \<Rightarrow> jsval option res" where
  "decimal_entry h k v =
     (if v = JUndef then Inr None else if v = JNull then Inl TypeError else Inr (Some (JStr (js_string h v))))"

definition normalizeBudget :: "host \<Rightarrow> jsval \<Rightarrow> jsval res" where
  "normalizeBudget h st =
     bindE (pathE st [''budget'', ''budget_limit'']) (\<lambda>limits. bindE (buildE (decimal_entry h) limits) (\<lambda>budget_limit.
     bindE (pathE st [''budget'', ''spent_in_period'']) (\<lambda>spents. bindE (buildE (decimal_entry h) spents) (\<lambda>spent_in_period.
     bindE (pathE st [''max_amount_per_action'']) (\<lambda>caps. bindE (buildE (decimal_entry h) caps) (\<lambda>max_amount.
       Inr (JObj [(''budget_limit'', budget_limit), (''spent_in_period'', spent_in_period),
                  (''max_amount_per_action'', max_amount)])))))))"

definition bigints_of :: "jsval \<Rightarrow> string \<Rightarrow> string \<Rightarrow> jsval res" where
  "bigints_of v field label =
     bindE (asObject (coalesce v (JObj [])) field) (\<lambda>obj.
       buildE (keeps (\<lambda>k x. assertDecimalBigIntString x (label @ ''.'' @ k))) obj)"

definition deserializeBudget :: "jsval \<Rightarrow> jsval \<Rightarrow> jsval res" where
  "deserializeBudget st payload =
     (if payload = JUndef
      then Inr (set_prop (set_prop st ''budget'' (JObj [(''budget_limit'', JObj []), (''spent_in_period'', JObj [])]))
                  ''max_amount_per_action'' (JObj []))
      else bindE (asObject payload ''budget'') (\<lambda>obj.
           bindE (bigints_of (getp obj ''budget_limit'') ''budget.budget_limit'' ''budget_limit'') (\<lambda>limits.
           bindE (bigints_of (getp obj ''spent_in_period'') ''budget.spent_in_period'' ''spent_in_period'') (\<lambda>spents.
           bindE (bigints_of (getp obj ''max_amount_per_action'') ''budget.max_amount_per_action'' ''max_amount_per_action'')
             (\<lambda>caps.
             Inr (set_prop
                   (set_prop st ''budget'' (JObj [(''budget_limit'', limits), (''spent_in_period'', spents)]))
                   ''max_amount_per_action'' caps))))))"

text \<open>A decimal numeral that is read back prints as itself.\<close>

lemma digits_val_mono: "acc \<le> digits_val acc s"
proof (induction s arbitrary: acc)
  case (Cons c s)
  have "acc \<le> 10 * acc + digit_val c" by simp
  also have "\<dots> \<le> digits_val (10 * acc + digit_val c) s" by (rule Cons)
  finally show ?case by simp
qed simp

lemma digits_val_pos: "s \<noteq> [] \<Longrightarrow> is_digit (hd s) \<Longrightarrow> hd s \<noteq> CHR ''0'' \<Longrightarrow> 0 < digits_val 0 s"
proof (cases s)
  case (Cons c cs)
  assume "is_digit (hd s)" "hd s \<noteq> CHR ''0''"
  then have "digit_val c \<noteq> 0"
    using Cons of_char_eq_iff [of c "CHR ''0''", where 'a = nat]
    by (auto simp: is_digit_def digit_val_def)
  then show ?thesis using digits_val_mono [of "digit_val c" cs] by (simp add: Cons)
qed simp

lemma digit_char_val: "is_digit c \<Longrightarrow> digit_char (digit_val c) = c"
  by (simp add: is_digit_def digit_val_def digit_char_def)

lemma digit_val_less: "is_digit c \<Longrightarrow> digit_val c < 10"
  by (auto simp: is_digit_def digit_val_def)

lemma nat_str_digits_val: "is_decimal s \<Longrightarrow> nat_str (digits_val 0 s) = s"
proof (induction s rule: rev_induct)
  case (snoc c s)
  have c: "is_digit c" using snoc.prems by (simp add: is_decimal_def)
  show ?case
  proof (cases "s = []")
    case True
    then show ?thesis using c by (simp add: nat_str.simps [of "digit_val c"] digit_val_less digit_char_val)
  next
    case False
    then have s: "is_decimal s" "is_digit (hd s)" "hd s \<noteq> CHR ''0''"
      using snoc.prems by (auto simp: is_decimal_def hd_append list_all_iff)
    then have "0 < digits_val 0 s" using False by (intro digits_val_pos)
    then have "\<not> digits_val 0 (s @ [c]) < 10" by (simp add: digits_val_append)
    then have "nat_str (digits_val 0 (s @ [c])) = nat_str (digits_val 0 s) @ [digit_char (digit_val c)]"
      using digit_val_less [OF c] by (subst nat_str.simps) (simp add: digits_val_append)
    then show ?thesis using snoc.IH s(1) c by (simp add: digit_char_val)
  qed
qed (simp add: is_decimal_def)

lemma decimal_roundtrip:
  assumes "decimal_entry h k x = Inr (Some v)" and "assertDecimalBigIntString v f = Inr w"
  shows "decimal_entry h k w = Inr (Some v)"
proof -
  obtain s where "v = JStr s" "is_decimal s" "w = JBig (int (digits_val 0 s))"
    using assms by (auto simp: decimal_entry_def assertDecimalBigIntString_def split: if_splits)
  then show ?thesis by (simp add: decimal_entry_def int_str_def nat_str_digits_val)
qed

lemma buildE_object: "buildE f r = Inr q \<Longrightarrow> \<exists>es. q = JObj es"
  by (auto simp: buildE_def bindE_eq_Inr)

lemma bigints_again:
  assumes "buildE (decimal_entry h) r = Inr a" and "wf_js r" and "bigints_of a field label = Inr b"
  shows "buildE (decimal_entry h) b = Inr a"
proof -
  obtain es where "a = JObj es" using buildE_object [OF assms(1)] by blast
  with assms(3) have "buildE (keeps (\<lambda>k x. assertDecimalBigIntString x (label @ ''.'' @ k))) a = Inr b"
    by (simp add: bigints_of_def asObject_def)
  then show ?thesis by (rule build_roundtrip [OF assms(1,2) _ decimal_roundtrip])
qed

interpretation budget_codec: module_codec "normalizeBudget h" deserializeBudget
  "[''budget'', ''max_amount_per_action'']" "\<lambda>_. True" for h
proof unfold_locales
  fix st t p t'
  assume ser: "normalizeBudget h st = Inr p" and wf: "wf_js st" and t: "is_plain t"
    and deser: "deserializeBudget t p = Inr t'"
  from ser obtain a b c where p: "p = JObj [(''budget_limit'', a), (''spent_in_period'', b), (''max_amount_per_action'', c)]"
    and a: "buildE (decimal_entry h) (path st [''budget'', ''budget_limit'']) = Inr a"
    and b: "buildE (decimal_entry h) (path st [''budget'', ''spent_in_period'']) = Inr b"
    and c: "buildE (decimal_entry h) (path st [''max_amount_per_action'']) = Inr c"
    by (auto simp: normalizeBudget_def bindE_eq_Inr simp del: pathE.simps path.simps dest!: pathE_InrD)
  from deser obtain a' b' c' where s: "bigints_of a ''budget.budget_limit'' ''budget_limit'' = Inr a'"
      "bigints_of b ''budget.spent_in_period'' ''spent_in_period'' = Inr b'"
      "bigints_of c ''budget.max_amount_per_action'' ''max_amount_per_action'' = Inr c'"
    and t': "t' = set_prop (set_prop t ''budget'' (JObj [(''budget_limit'', a'), (''spent_in_period'', b')]))
                   ''max_amount_per_action'' c'"
    by (auto simp: p deserializeBudget_def bindE_eq_Inr asObject_Inr)
  note again = bigints_again [OF a wf_js_path [OF wf] s(1)] bigints_again [OF b wf_js_path [OF wf] s(2)]
    bigints_again [OF c wf_js_path [OF wf] s(3)]
  have "propE t' ''budget'' = Inr (JObj [(''budget_limit'', a'), (''spent_in_period'', b')])"
    "propE t' ''max_amount_per_action'' = Inr c'"
    using t by (simp_all add: t' propE_object is_plain_object)
  with again show "normalizeBudget h t' = Inr p"
    by (simp add: normalizeBudget_def p)
qed (auto simp: normalizeBudget_def deserializeBudget_def bindE_eq_Inr propE_object is_plain_object
      split: if_splits)

section \<open>Velocity\<close>

definition normalizeVelocity :: "jsval \<Rightarrow> jsval res" where
  "normalizeVelocity st =
     bindE (pathE st [''velocity'', ''config'', ''window_seconds'']) (\<lambda>w.
     bindE (assertPosInt w ''velocity.config.window_seconds'') (\<lambda>window.
     bindE (pathE st [''velocity'', ''config'', ''max_actions'']) (\<lambda>m.
     bindE (assertNonNegInt m ''velocity.config.max_actions'') (\<lambda>max_actions.
     bindE (pathE st [''velocity'', ''counters'']) (\<lambda>cs.
     bindE (buildE (\<lambda>k counter.
              if \<not> truthy counter then Inr None
              else bindE (assertInt (getp counter ''window_start'') ''velocity.counters.window_start'') (\<lambda>s.
                   bindE (assertNonNegInt (getp counter ''count'') ''velocity.counters.count'') (\<lambda>n.
                     Inr (Some (JObj [(''window_start'', s), (''count'', n)]))))) cs) (\<lambda>counters.
       Inr (JObj [(''config'', JObj [(''window_seconds'', window), (''max_actions'', max_actions)]),
                  (''counters'', counters)])))))))"

definition read_counter :: "string \<Rightarrow> jsval \<Rightarrow> jsval res" where
  "read_counter k v =
     bindE (asObject v (''velocity.counters.'' @ k)) (\<lambda>item.
     bindE (assertInt (getp item ''window_start'') (''velocity.counters.'' @ k @ ''.window_start'')) (\<lambda>s.
     bindE (assertNonNegInt (getp item ''count'') (''velocity.counters.'' @ k @ ''.count'')) (\<lambda>n.
       Inr (JObj [(''window_start'', s), (''count'', n)]))))"

definition deserializeVelocity :: "jsval \<Rightarrow> jsval \<Rightarrow> jsval res" where
  "deserializeVelocity st payload =
     (if payload = JUndef
      then Inr (set_prop st ''velocity''
             (JObj [(''config'', JObj [(''window_seconds'', JNum (jint 1)), (''max_actions'', JNum (jint 0))]),
                    (''counters'', JObj [])]))
      else bindE (asObject payload ''velocity'') (\<lambda>obj.
           bindE (asObject (getp obj ''config'') ''velocity.config'') (\<lambda>config.
           bindE (asObject (coalesce (getp obj ''counters'') (JObj [])) ''velocity.counters'') (\<lambda>countersObj.
           bindE (buildE (keeps read_counter) countersObj) (\<lambda>counters.
           bindE (assertPosInt (getp config ''window_seconds'') ''velocity.config.window_seconds'') (\<lambda>window.
           bindE (assertNonNegInt (getp config ''max_actions'') ''velocity.config.max_actions'') (\<lambda>max_actions.
             Inr (set_prop st ''velocity''
               (JObj [(''config'', JObj [(''window_seconds'', window), (''max_actions'', max_actions)]),
                      (''counters'', counters)])))))))))"

interpretation velocity_codec: module_codec normalizeVelocity deserializeVelocity "[''velocity'']" "\<lambda>_. True"
proof unfold_locales
  fix st t p t'
  assume ser: "normalizeVelocity st = Inr p" and wf: "wf_js st" and t: "is_plain t"
    and deser: "deserializeVelocity t p = Inr t'"
  let ?f = "\<lambda>k counter.
              if \<not> truthy counter then Inr None
              else bindE (assertInt (getp counter ''window_start'') ''velocity.counters.window_start'') (\<lambda>s.
                   bindE (assertNonNegInt (getp counter ''count'') ''velocity.counters.count'') (\<lambda>n.
                     Inr (Some (JObj [(''window_start'', s), (''count'', n)]))))"
  from ser obtain w m cs where p: "p = JObj [(''config'', JObj [(''window_seconds'', w), (''max_actions'', m)]), (''counters'', cs)]"
    and c: "assertPosInt w ''velocity.config.window_seconds'' = Inr w" "assertNonNegInt m ''velocity.config.max_actions'' = Inr m"
    and cs: "buildE ?f (path st [''velocity'', ''counters'']) = Inr cs"
    by (auto simp: normalizeVelocity_def bindE_eq_Inr assertPosInt_Inr assertNonNegInt_Inr
        simp del: pathE.simps path.simps dest!: pathE_InrD)
  obtain es where es: "cs = JObj es" using buildE_object [OF cs] by blast
  from deser obtain cs' where cs': "buildE (keeps read_counter) cs = Inr cs'"
    and t': "t' = set_prop t ''velocity''
        (JObj [(''config'', JObj [(''window_seconds'', w), (''max_actions'', m)]), (''counters'', cs')])"
    by (auto simp: p es deserializeVelocity_def bindE_eq_Inr asObject_Inr assertPosInt_Inr assertNonNegInt_Inr)
  have "buildE ?f cs' = Inr cs"
    by (rule build_roundtrip [OF cs wf_js_path [OF wf] cs'])
      (auto simp: read_counter_def bindE_eq_Inr asObject_Inr assertInt_Inr assertNonNegInt_Inr split: if_splits)
  moreover have "propE t' ''velocity'' =
      Inr (JObj [(''config'', JObj [(''window_seconds'', w), (''max_actions'', m)]), (''counters'', cs')])"
    using t by (simp add: t' propE_object is_plain_object)
  ultimately show "normalizeVelocity t' = Inr p"
    using c by (simp add: normalizeVelocity_def p)
qed (auto simp: normalizeVelocity_def deserializeVelocity_def bindE_eq_Inr propE_object is_plain_object
      split: if_splits)

section \<open>Recursion depth\<close>

definition normalizeRecursion :: "jsval \<Rightarrow> jsval res" where
  "normalizeRecursion st =
     bindE (pathE st [''recursion'', ''max_depth'']) (\<lambda>r.
     bindE (buildE (keeps (\<lambda>k v. assertNonNegInt v ''recursion.max_depth'')) r) (\<lambda>max_depth.
       Inr (JObj [(''max_depth'', max_depth)])))"

definition deserializeRecursion :: "jsval \<Rightarrow> jsval \<Rightarrow> jsval res" where
  "deserializeRecursion st payload =
     (if payload = JUndef then Inr (set_prop st ''recursion'' (JObj [(''max_depth'', JObj [])]))
      else bindE (asObject payload ''recursion'') (\<lambda>obj.
           bindE (asObject (coalesce (getp obj ''max_depth'') (JObj [])) ''recursion.max_depth'') (\<lambda>maxObj.
           bindE (buildE (keeps (\<lambda>k v. assertNonNegInt v (''recursion.max_depth.'' @ k))) maxObj) (\<lambda>max_depth.
             Inr (set_prop st ''recursion'' (JObj [(''max_depth'', max_depth)]))))))"

lemma nonneg_again:
  assumes "buildE (keeps (\<lambda>k v. assertNonNegInt v (F k))) r = Inr a" and "wf_js r"
    and "buildE (keeps (\<lambda>k v. assertNonNegInt v (G k))) a = Inr b"
  shows "buildE (keeps (\<lambda>k v. assertNonNegInt v (F k))) b = Inr a"
  by (rule build_roundtrip [OF assms]) (auto simp: bindE_eq_Inr assertNonNegInt_Inr)

interpretation recursion_codec: module_codec normalizeRecursion deserializeRecursion "[''recursion'']" "\<lambda>_. True"
proof unfold_locales
  fix st t p t'
  assume ser: "normalizeRecursion st = Inr p" and wf: "wf_js st" and t: "is_plain t"
    and deser: "deserializeRecursion t p = Inr t'"
  from ser obtain a where p: "p = JObj [(''max_depth'', a)]"
    and a: "buildE (keeps (\<lambda>k v. assertNonNegInt v ''recursion.max_depth'')) (path st [''recursion'', ''max_depth'']) = Inr a"
    by (auto simp: normalizeRecursion_def bindE_eq_Inr simp del: pathE.simps path.simps dest!: pathE_InrD)
  obtain es where es: "a = JObj es" using buildE_object [OF a] by blast
  from deser obtain b where b: "buildE (keeps (\<lambda>k v. assertNonNegInt v (''recursion.max_depth.'' @ k))) a = Inr b"
    and t': "t' = set_prop t ''recursion'' (JObj [(''max_depth'', b)])"
    by (auto simp: p es deserializeRecursion_def bindE_eq_Inr asObject_Inr)
  have "propE t' ''recursion'' = Inr (JObj [(''max_depth'', b)])"
    using t by (simp add: t' propE_object is_plain_object)
  with nonneg_again [OF a wf_js_path [OF wf] b] show "normalizeRecursion t' = Inr p"
    by (simp add: normalizeRecursion_def p)
qed (auto simp: normalizeRecursion_def deserializeRecursion_def bindE_eq_Inr propE_object is_plain_object
      split: if_splits)

section \<open>Kill switch\<close>

definition serializeKillSwitch :: "jsval \<Rightarrow> jsval res" where
  "serializeKillSwitch st =
     bindE (pathE st [''kill_switch'', ''agents'']) (\<lambda>r.
     bindE (buildE (\<lambda>k v. Inr (if v = JUndef then None else Some (JBool (truthy v)))) r) (\<lambda>agents.
     bindE (pathE st [''kill_switch'', ''global'']) (\<lambda>global.
       Inr (JObj [(''global'', global), (''agents'', agents)]))))"

definition asBool :: "jsval \<Rightarrow> string \<Rightarrow> jsval res" where
  "asBool v field = (if is_bool v then Inr v else Inl (invalid field))"

definition deserializeKillSwitch :: "jsval \<Rightarrow> jsval \<Rightarrow> jsval res" where
  "deserializeKillSwitch st payload =
     (if payload = JUndef
      then Inr (set_prop st ''kill_switch'' (JObj [(''global'', JBool False), (''agents'', JObj [])]))
      else bindE (asObject payload ''kill_switch'') (\<lambda>obj.
           bindE (asBool (getp obj ''global'') ''kill_switch.global'') (\<lambda>global.
           bindE (asObject (coalesce (getp obj ''agents'') (JObj [])) ''kill_switch.agents'') (\<lambda>agentsObj.
           bindE (buildE (keeps (\<lambda>k v. asBool v (''kill_switch.agents.'' @ k))) agentsObj) (\<lambda>agents.
             Inr (set_prop st ''kill_switch'' (JObj [(''global'', global), (''agents'', agents)])))))))"

interpretation kill_codec: module_codec serializeKillSwitch deserializeKillSwitch "[''kill_switch'']" "\<lambda>_. True"
proof unfold_locales
  fix st t p t'
  assume ser: "serializeKillSwitch st = Inr p" and wf: "wf_js st" and t: "is_plain t"
    and deser: "deserializeKillSwitch t p = Inr t'"
  let ?f = "\<lambda>k v. Inr (if v = JUndef then None else Some (JBool (truthy v)))"
  from ser obtain g a where p: "p = JObj [(''global'', g), (''agents'', a)]"
    and a: "buildE ?f (path st [''kill_switch'', ''agents'']) = Inr a"
    by (auto simp: serializeKillSwitch_def bindE_eq_Inr simp del: pathE.simps path.simps dest!: pathE_InrD)
  obtain es where es: "a = JObj es" using buildE_object [OF a] by blast
  from deser obtain b where b: "buildE (keeps (\<lambda>k v. asBool v (''kill_switch.agents.'' @ k))) a = Inr b"
    and t': "t' = set_prop t ''kill_switch'' (JObj [(''global'', g), (''agents'', b)])"
    by (auto simp: p es deserializeKillSwitch_def asBool_def bindE_eq_Inr asObject_Inr split: if_splits)
  have "buildE ?f b = Inr a"
    by (rule build_roundtrip [OF a wf_js_path [OF wf] b]) (auto simp: asBool_def bindE_eq_Inr split: if_splits)
  moreover have "propE t' ''kill_switch'' = Inr (JObj [(''global'', g), (''agents'', b)])"
    using t by (simp add: t' propE_object is_plain_object)
  ultimately show "serializeKillSwitch t' = Inr p"
    by (simp add: serializeKillSwitch_def p)
qed (auto simp: serializeKillSwitch_def deserializeKillSwitch_def bindE_eq_Inr propE_object is_plain_object
      split: if_splits)

end
