(* ===== verification/HistoryCodecs.thy ===== *)
theory HistoryCodecs
  imports Codecs
begin

text \<open>
  The codecs of \<open>policy/modules/_codec.ts\<close> whose slices hold lists or several objects over the same
  agents: replay, concurrency and tool limits.
\<close>

section \<open>Replay\<close>

definition ts_of :: "jsval \<Rightarrow> jsnum" where
  "ts_of e = to_number (getp e ''ts'')"

definition nonce_lt :: "jsval \<Rightarrow> jsval \<Rightarrow> bool" where
  "nonce_lt a b =
     (num_lt (ts_of a) (ts_of b) \<or>
      \<not> num_lt (ts_of b) (ts_of a) \<and> js_lt (getp a ''nonce'') (getp b ''nonce''))"

definition dup_key :: "host \<Rightarrow> jsval \<Rightarrow> string" where
  "dup_key h e = js_string h (getp e ''ts'') @ '':'' @ js_string h (getp e ''nonce'')"

definition sorted_unique :: "host \<Rightarrow> string \<Rightarrow> jsval list \<Rightarrow> jsval res" where
  "sorted_unique h field es =
     (let normalized = sort_by nonce_lt es
      in if distinct (map (dup_key h) normalized) then Inr (JArr normalized)
         else Inl (invalid (field @ '' duplicate'')))"

definition nonce_entryE :: "host \<Rightarrow> jsval \<Rightarrow> jsval res" where
  "nonce_entryE h e =
     bindE (propE e ''nonce'') (\<lambda>n. bindE (assertInt (getp e ''ts'') ''replay.nonces.ts'') (\<lambda>ts.
       Inr (JObj [(''nonce'', JStr (js_string h n)), (''ts'', ts)])))"

definition nonces_of :: "host \<Rightarrow> string \<Rightarrow> jsval \<Rightarrow> jsval res" where
  "nonces_of h k v =
     bindE (as_listE (coalesce v (JArr []))) (\<lambda>es. bindE (mapE (nonce_entryE h) es) (sorted_unique h ''replay.nonces''))"

definition normalizeReplay :: "host \<Rightarrow> jsval \<Rightarrow> jsval res" where
  "normalizeReplay h st =
     bindE (pathE st [''replay'', ''nonces'']) (\<lambda>r. bindE (buildE (keeps (nonces_of h)) r) (\<lambda>nonces.
     bindE (pathE st [''replay'', ''window_seconds'']) (\<lambda>w. bindE (assertPosInt w ''replay.window_seconds'') (\<lambda>window.
     bindE (pathE st [''replay'', ''max_nonces_per_agent'']) (\<lambda>m.
     bindE (assertNonNegInt m ''replay.max_nonces_per_agent'') (\<lambda>max_nonces.
       Inr (JObj [(''window_seconds'', window), (''max_nonces_per_agent'', max_nonces), (''nonces'', nonces)])))))))"

definition read_nonce :: "string \<Rightarrow> nat \<Rightarrow> jsval \<Rightarrow> jsval res" where
  "read_nonce k j v =
     (let label = ''replay.nonces.'' @ k @ ''['' @ nat_str j @ '']''
      in bindE (asObject v label) (\<lambda>e.
           if \<not> is_string (getp e ''nonce'') then Inl (invalid (label @ ''.nonce''))
           else bindE (assertInt (getp e ''ts'') (label @ ''.ts'')) (\<lambda>ts.
             Inr (JObj [(''nonce'', getp e ''nonce''), (''ts'', ts)]))))"

definition read_nonces :: "host \<Rightarrow> string \<Rightarrow> jsval \<Rightarrow> jsval res" where
  "read_nonces h k v =
     (case v of
        JArr es \<Rightarrow> bindE (mapE_idx (read_nonce k) es) (sorted_unique h (''replay.nonces.'' @ k))
      | _ \<Rightarrow> Inl (invalid (''replay.nonces.'' @ k)))"

definition deserializeReplay :: "host \<Rightarrow> jsval \<Rightarrow> jsval \<Rightarrow> jsval res" where
  "deserializeReplay h st payload =
     (if payload = JUndef
      then Inr (set_prop st ''replay''
             (JObj [(''window_seconds'', JNum (jint 1)), (''max_nonces_per_agent'', JNum (jint 0)), (''nonces'', JObj [])]))
      else bindE (asObject payload ''replay'') (\<lambda>obj.
           bindE (asObject (coalesce (getp obj ''nonces'') (JObj [])) ''replay.nonces'') (\<lambda>noncesObj.
           bindE (buildE (keeps (read_nonces h)) noncesObj) (\<lambda>nonces.
           bindE (assertPosInt (getp obj ''window_seconds'') ''replay.window_seconds'') (\<lambda>window.
           bindE (assertNonNegInt (getp obj ''max_nonces_per_agent'') ''replay.max_nonces_per_agent'') (\<lambda>max_nonces.
             Inr (set_prop st ''replay''
               (JObj [(''window_seconds'', window), (''max_nonces_per_agent'', max_nonces), (''nonces'', nonces)]))))))))"

text \<open>Normalized entries are text and an integer time; their order is that of the pair.\<close>

definition is_nonce_entry :: "jsval \<Rightarrow> bool" where
  "is_nonce_entry e = (\<exists>n i. e = JObj [(''nonce'', JStr n), (''ts'', JNum (jint i))])"

definition nonce_key :: "jsval \<Rightarrow> int \<times> nat list" where
  "nonce_key e = (int_of (ts_of e), case getp e ''nonce'' of JStr n \<Rightarrow> u16_key n | _ \<Rightarrow> [])"

lemma sort_nonces:
  assumes "\<forall>e \<in> set es. is_nonce_entry e"
  shows "sort_by nonce_lt es = sort_key nonce_key es"
proof (rule sort_by_key)
  fix x y assume "x \<in> set es" "y \<in> set es"
  with assms obtain n i m j where "x = JObj [(''nonce'', JStr n), (''ts'', JNum (jint i))]"
    "y = JObj [(''nonce'', JStr m), (''ts'', JNum (jint j))]"
    by (meson is_nonce_entry_def)
  then show "nonce_lt x y \<longleftrightarrow> nonce_key x < nonce_key y"
    by (auto simp: nonce_lt_def nonce_key_def ts_of_def js_lt_def less_prod_simp)
qed

lemma sorted_unique_again:
  assumes "sorted_unique h f es = Inr v" and "\<forall>e \<in> set es. is_nonce_entry e"
  obtains fs where "v = JArr fs" "\<forall>e \<in> set fs. is_nonce_entry e" "sorted_unique h g fs = Inr v"
proof -
  from assms(1) have v: "v = JArr (sort_by nonce_lt es)" and d: "distinct (map (dup_key h) (sort_by nonce_lt es))"
    by (auto simp: sorted_unique_def Let_def split: if_splits)
  have n: "\<forall>e \<in> set (sort_by nonce_lt es). is_nonce_entry e" using assms(2) by simp
  have "sort_by nonce_lt (sort_by nonce_lt es) = sort_by nonce_lt es"
    unfolding sort_nonces [OF n] unfolding sort_nonces [OF assms(2)] by (rule sort_key_idem)
  with v d have "sorted_unique h g (sort_by nonce_lt es) = Inr v" by (simp add: sorted_unique_def)
  from that [OF v n this] show thesis .
qed

lemma nonces_roundtrip:
  assumes "nonces_of h k x = Inr v" and "read_nonces h k v = Inr w"
  shows "nonces_of h k w = Inr v"
proof -
  obtain es where es: "sorted_unique h ''replay.nonces'' es = Inr v" "\<forall>e \<in> set es. is_nonce_entry e"
  proof -
    obtain xs es where m: "mapE (nonce_entryE h) xs = Inr es" and s: "sorted_unique h ''replay.nonces'' es = Inr v"
      using assms(1) by (auto simp: nonces_of_def bindE_eq_Inr)
    have "\<forall>e \<in> set es. is_nonce_entry e"
      using mapE_InrD2 [OF m]
      by (fastforce simp: nonce_entryE_def bindE_eq_Inr assertInt_Inr is_nonce_entry_def elim!: v_integerE)
    with s show thesis by (rule that)
  qed
  obtain fs where v: "v = JArr fs" and fs: "\<forall>e \<in> set fs. is_nonce_entry e"
    and again: "sorted_unique h ''replay.nonces'' fs = Inr v"
    using es by (rule sorted_unique_again)
  obtain fs' where f': "mapE_idx (read_nonce k) fs = Inr fs'"
    and w: "sorted_unique h (''replay.nonces.'' @ k) fs' = Inr w"
    using assms(2) by (auto simp: v read_nonces_def bindE_eq_Inr)
  have "list_all2 (\<lambda>e e'. is_nonce_entry e \<longrightarrow> e' = e) fs fs'"
    by (rule mapE_idx_Inr [OF _ f'])
      (auto simp: read_nonce_def Let_def bindE_eq_Inr assertInt_Inr asObject_Inr is_nonce_entry_def split: if_splits)
  with fs have "fs' = fs"
    by (auto simp: list_all2_conv_all_nth intro: nth_equalityI)
  then have "w = v" using w again by (auto simp: sorted_unique_def Let_def split: if_splits)
  moreover have "mapE (nonce_entryE h) fs = Inr fs"
  proof -
    have "nonce_entryE h e = Inr e" if "e \<in> set fs" for e
      using fs that by (auto simp: is_nonce_entry_def nonce_entryE_def assertInt_def)
    from mapE_Inr_map [of fs _ "\<lambda>x. x", OF this] show ?thesis by simp
  qed
  ultimately show ?thesis using again by (simp add: nonces_of_def v)
qed

interpretation replay_codec: module_codec "normalizeReplay h" "deserializeReplay h" "[''replay'']" "\<lambda>_. True" for h
proof unfold_locales
  fix st t p t'
  assume ser: "normalizeReplay h st = Inr p" and wf: "wf_js st" and t: "is_plain t"
    and deser: "deserializeReplay h t p = Inr t'"
  from ser obtain w m a where p: "p = JObj [(''window_seconds'', w), (''max_nonces_per_agent'', m), (''nonces'', a)]"
    and c: "assertPosInt w ''replay.window_seconds'' = Inr w" "assertNonNegInt m ''replay.max_nonces_per_agent'' = Inr m"
    and a: "buildE (keeps (nonces_of h)) (path st [''replay'', ''nonces'']) = Inr a"
    by (auto simp: normalizeReplay_def bindE_eq_Inr assertPosInt_Inr assertNonNegInt_Inr
        simp del: pathE.simps path.simps dest!: pathE_InrD)
  obtain es where es: "a = JObj es" using buildE_object [OF a] by blast
  from deser obtain b where b: "buildE (keeps (read_nonces h)) a = Inr b"
    and t': "t' = set_prop t ''replay''
      (JObj [(''window_seconds'', w), (''max_nonces_per_agent'', m), (''nonces'', b)])"
    by (auto simp: p es deserializeReplay_def bindE_eq_Inr asObject_Inr assertPosInt_Inr assertNonNegInt_Inr)
  have "buildE (keeps (nonces_of h)) b = Inr a"
    by (rule build_roundtrip [OF a wf_js_path [OF wf] b]) (auto simp: bindE_eq_Inr dest: nonces_roundtrip)
  moreover have "propE t' ''replay'' =
      Inr (JObj [(''window_seconds'', w), (''max_nonces_per_agent'', m), (''nonces'', b)])"
    using t by (simp add: t' propE_object is_plain_object)
  ultimately show "normalizeReplay h t' = Inr p"
    using c by (simp add: normalizeReplay_def p)
qed (auto simp: normalizeReplay_def deserializeReplay_def bindE_eq_Inr propE_object is_plain_object
      split: if_splits)

section \<open>Concurrency\<close>

text \<open>\<open>[...new Set([...Object.keys(a), ...Object.keys(b), ...Object.keys(c)])].sort()\<close>\<close>

definition all_agents :: "jsval \<Rightarrow> jsval \<Rightarrow> jsval \<Rightarrow> string list res" where
  "all_agents a b c =
     (if nullish a \<or> nullish b \<or> nullish c then Inl TypeError
      else Inr (sort_u16 (remdups (obj_keys a @ obj_keys b @ obj_keys c))))"

definition lease_entry :: "string \<Rightarrow> jsval \<Rightarrow> jsval res" where
  "lease_entry k item =
     bindE (propE item ''expires_at'') (\<lambda>x. bindE (assertInt x ''concurrency.active_auths.expires_at'') (\<lambda>e.
       Inr (JObj [(''expires_at'', e)])))"

definition agent_rowE :: "jsval \<Rightarrow> jsval \<Rightarrow> jsval \<Rightarrow> string \<Rightarrow> (string \<times> jsval \<times> jsval \<times> jsval) res" where
  "agent_rowE maxes actives leases a =
     bindE (assertNonNegInt (coalesce (getp maxes a) (JNum (jint 0))) ''concurrency.max_concurrent'') (\<lambda>m.
     bindE (assertNonNegInt (coalesce (getp actives a) (JNum (jint 0))) ''concurrency.active'') (\<lambda>n.
       if js_lt m n then Inl (invalid ''concurrency.active exceeds max_concurrent'')
       else bindE (buildE (keeps lease_entry) (coalesce (getp leases a) (JObj []))) (\<lambda>l. Inr (a, m, n, l))))"

definition rows_obj :: "(string \<times> jsval \<times> jsval \<times> jsval) list \<Rightarrow> jsval" where
  "rows_obj rows =
     JObj [(''max_concurrent'', JObj (map (\<lambda>(a, m, n, l). (a, m)) rows)),
           (''active'', JObj (map (\<lambda>(a, m, n, l). (a, n)) rows)),
           (''active_auths'', JObj (map (\<lambda>(a, m, n, l). (a, l)) rows))]"

definition normalizeConcurrency :: "jsval \<Rightarrow> jsval res" where
  "normalizeConcurrency st =
     bindE (pathE st [''concurrency'', ''max_concurrent'']) (\<lambda>maxes.
     bindE (pathE st [''concurrency'', ''active'']) (\<lambda>actives.
     bindE (pathE st [''concurrency'', ''active_auths'']) (\<lambda>leases.
     bindE (all_agents maxes actives leases) (\<lambda>agents.
     bindE (mapE (agent_rowE maxes actives leases) agents) (\<lambda>rows. Inr (rows_obj rows))))))"

definition read_lease :: "string \<Rightarrow> string \<Rightarrow> jsval \<Rightarrow> jsval res" where
  "read_lease a k v =
     bindE (asObject v (''concurrency.active_auths.'' @ a @ ''.'' @ k)) (\<lambda>x.
     bindE (assertInt (getp x ''expires_at'') (''concurrency.active_auths.'' @ a @ ''.'' @ k @ ''.expires_at'')) (\<lambda>e.
       Inr (JObj [(''expires_at'', e)])))"

definition read_row :: "jsval \<Rightarrow> jsval \<Rightarrow> jsval \<Rightarrow> string \<Rightarrow> (string \<times> jsval \<times> jsval \<times> jsval) res" where
  "read_row maxes actives leases a =
     bindE (assertNonNegInt (coalesce (getp maxes a) (JNum (jint 0))) (''concurrency.max_concurrent.'' @ a)) (\<lambda>m.
     bindE (assertNonNegInt (coalesce (getp actives a) (JNum (jint 0))) (''concurrency.active.'' @ a)) (\<lambda>n.
       if js_lt m n then Inl (invalid (''concurrency.active.'' @ a))
       else bindE (asObject (coalesce (getp leases a) (JObj [])) (''concurrency.active_auths.'' @ a)) (\<lambda>raw.
            bindE (buildE (keeps (read_lease a)) raw) (\<lambda>l. Inr (a, m, n, l)))))"

definition deserializeConcurrency :: "jsval \<Rightarrow> jsval \<Rightarrow> jsval res" where
  "deserializeConcurrency st payload =
     (if payload = JUndef
      then Inr (set_prop st ''concurrency''
             (JObj [(''max_concurrent'', JObj []), (''active'', JObj []), (''active_auths'', JObj [])]))
      else bindE (asObject payload ''concurrency'') (\<lambda>obj.
           bindE (asObject (coalesce (getp obj ''max_concurrent'') (JObj [])) ''concurrency.max_concurrent'') (\<lambda>maxes.
           bindE (asObject (coalesce (getp obj ''active'') (JObj [])) ''concurrency.active'') (\<lambda>actives.
           bindE (asObject (coalesce (getp obj ''active_auths'') (JObj [])) ''concurrency.active_auths'') (\<lambda>leases.
           bindE (all_agents maxes actives leases) (\<lambda>agents.
           bindE (mapE (read_row maxes actives leases) agents) (\<lambda>rows.
             Inr (set_prop st ''concurrency'' (rows_obj rows)))))))))"

text \<open>Rows over ordered agents: their keys, and what each object holds for an agent.\<close>

definition rows_ok :: "(string \<times> jsval \<times> jsval \<times> jsval) list \<Rightarrow> bool" where
  "rows_ok rows = ordered (map fst rows)"

lemma rows_keys:
  "map fst (map (\<lambda>(a, m, n, l). (a, m)) rows) = map fst rows"
  "map fst (map (\<lambda>(a, m, n, l). (a, n)) rows) = map fst rows"
  "map fst (map (\<lambda>(a, m, n, l). (a, l)) rows) = map fst rows"
  by auto

lemma rows_agents:
  assumes "rows_ok rows"
  shows "all_agents (getp (rows_obj rows) ''max_concurrent'') (getp (rows_obj rows) ''active'')
      (getp (rows_obj rows) ''active_auths'') = Inr (map fst rows)"
proof -
  have o: "ordered (map fst rows)" using assms by (simp add: rows_ok_def)
  have "sort_u16 (remdups (map fst rows @ map fst rows @ map fst rows)) = map fst rows"
  proof (rule ordered_unique [OF ordered_sort_u16 o])
    show "set (sort_u16 (remdups (map fst rows @ map fst rows @ map fst rows))) = set (map fst rows)" by simp
  qed simp
  moreover have "obj_keys (getp (rows_obj rows) ''max_concurrent'') = map fst rows"
    "obj_keys (getp (rows_obj rows) ''active'') = map fst rows"
    "obj_keys (getp (rows_obj rows) ''active_auths'') = map fst rows"
    by (auto simp: rows_obj_def obj_keys_def)
  moreover have "\<not> nullish (getp (rows_obj rows) ''max_concurrent'')"
    "\<not> nullish (getp (rows_obj rows) ''active'')" "\<not> nullish (getp (rows_obj rows) ''active_auths'')"
    by (simp_all add: rows_obj_def)
  ultimately show ?thesis by (simp add: all_agents_def)
qed

lemma rows_lookup:
  assumes "rows_ok rows" and "(a, m, n, l) \<in> set rows"
  shows "getp (getp (rows_obj rows) ''max_concurrent'') a = m"
    and "getp (getp (rows_obj rows) ''active'') a = n"
    and "getp (getp (rows_obj rows) ''active_auths'') a = l"
proof -
  have d: "distinct (map fst rows)" using assms(1) by (simp add: rows_ok_def ordered_distinct)
  have "map_of (map (\<lambda>(a, m, n, l). (a, m)) rows) a = Some m"
    "map_of (map (\<lambda>(a, m, n, l). (a, n)) rows) a = Some n"
    "map_of (map (\<lambda>(a, m, n, l). (a, l)) rows) a = Some l"
    using assms(2) by (auto intro!: map_of_map_key simp only: rows_keys d) (force+)
  then show "getp (getp (rows_obj rows) ''max_concurrent'') a = m"
    "getp (getp (rows_obj rows) ''active'') a = n" "getp (getp (rows_obj rows) ''active_auths'') a = l"
    by (simp_all add: rows_obj_def)
qed

lemma lease_roundtrip:
  assumes "keeps lease_entry k x = Inr (Some v)" and "read_lease a k v = Inr w"
  shows "keeps lease_entry k w = Inr (Some v)"
  using assms by (auto simp: lease_entry_def read_lease_def bindE_eq_Inr assertInt_Inr asObject_Inr)

lemma row_roundtrip:
  assumes "agent_rowE M A L a = Inr (a, m, n, l)" and "wf_js L"
    and "read_row (getp (rows_obj rows) ''max_concurrent'') (getp (rows_obj rows) ''active'')
      (getp (rows_obj rows) ''active_auths'') a = Inr r"
    and "rows_ok rows" and "(a, m, n, l) \<in> set rows"
  obtains l' where "r = (a, m, n, l')"
    "\<And>rows'. rows_ok rows' \<Longrightarrow> (a, m, n, l') \<in> set rows' \<Longrightarrow>
      agent_rowE (getp (rows_obj rows') ''max_concurrent'') (getp (rows_obj rows') ''active'')
        (getp (rows_obj rows') ''active_auths'') a = Inr (a, m, n, l)"
proof -
  obtain i j where m: "m = JNum (jint i)" "0 \<le> i" and n: "n = JNum (jint j)" "0 \<le> j" and le: "\<not> js_lt m n"
    and l: "buildE (keeps lease_entry) (coalesce (getp L a) (JObj [])) = Inr l"
    using assms(1) by (auto simp: agent_rowE_def bindE_eq_Inr assertNonNegInt_Inr split: if_splits)
  obtain es where es: "l = JObj es" using buildE_object [OF l] by blast
  have wf: "wf_js (coalesce (getp L a) (JObj []))"
    using wf_js_getp [OF assms(2), of a] by (simp add: coalesce_def)
  from assms(3) obtain l' where l': "buildE (keeps (read_lease a)) l = Inr l'" and r: "r = (a, m, n, l')"
    unfolding read_row_def rows_lookup [OF assms(4,5)]
    using m n by (auto simp: es bindE_eq_Inr assertNonNegInt_Inr asObject_Inr split: if_splits)
  have bk: "buildE (keeps lease_entry) l' = Inr l"
    by (rule build_roundtrip [OF l wf l']) (rule lease_roundtrip)
  obtain es' where es': "l' = JObj es'" using buildE_object [OF l'] by blast
  show thesis
  proof (rule that [OF r])
    fix rows' assume "rows_ok rows'" "(a, m, n, l') \<in> set rows'"
    note look = rows_lookup [OF this]
    show "agent_rowE (getp (rows_obj rows') ''max_concurrent'') (getp (rows_obj rows') ''active'')
        (getp (rows_obj rows') ''active_auths'') a = Inr (a, m, n, l)"
      unfolding agent_rowE_def look
      using m n le bk es' by (simp add: assertNonNegInt_def assertInt_def)
  qed
qed

lemma agent_rowE_fst: "agent_rowE M A L a = Inr r \<Longrightarrow> fst r = a"
  by (auto simp: agent_rowE_def bindE_eq_Inr split: if_splits)

lemma read_row_fst: "read_row M A L a = Inr r \<Longrightarrow> fst r = a"
  by (auto simp: read_row_def bindE_eq_Inr split: if_splits)

lemma mapE_fst:
  assumes "mapE f xs = Inr ys" and "\<And>x y. f x = Inr y \<Longrightarrow> fst y = x"
  shows "map fst ys = xs"
  using assms(1) by (induction xs arbitrary: ys) (auto simp: bindE_eq_Inr dest: assms(2))

lemma mapE_nth: "mapE f xs = Inr ys \<Longrightarrow> j < length xs \<Longrightarrow> f (xs ! j) = Inr (ys ! j)"
  by (auto simp: mapE_Inr_iff list_all2_conv_all_nth)

lemma rows_roundtrip:
  assumes rows: "mapE (agent_rowE M A L) agents = Inr rows" and "ordered agents" and "wf_js L"
    and rows': "mapE (read_row (getp (rows_obj rows) ''max_concurrent'') (getp (rows_obj rows) ''active'')
      (getp (rows_obj rows) ''active_auths'')) (map fst rows) = Inr rows'"
  shows "rows_ok rows'"
    and "map fst rows' = agents"
    and "mapE (agent_rowE (getp (rows_obj rows') ''max_concurrent'') (getp (rows_obj rows') ''active'')
      (getp (rows_obj rows') ''active_auths'')) agents = Inr rows"
proof -
  have f: "map fst rows = agents" using rows agent_rowE_fst by (rule mapE_fst)
  have f': "map fst rows' = agents" using mapE_fst [OF rows' read_row_fst] f by simp
  show ok': "rows_ok rows'" and "map fst rows' = agents"
    using f' assms(2) by (simp_all add: rows_ok_def)
  have ok: "rows_ok rows" using f assms(2) by (simp add: rows_ok_def)
  have len: "length rows = length agents" "length rows' = length agents"
    using f f' by (metis length_map)+
  show "mapE (agent_rowE (getp (rows_obj rows') ''max_concurrent'') (getp (rows_obj rows') ''active'')
      (getp (rows_obj rows') ''active_auths'')) agents = Inr rows"
    unfolding mapE_Inr_iff list_all2_conv_all_nth
  proof (intro conjI allI impI)
    fix j assume j: "j < length agents"
    obtain a m n l where r: "rows ! j = (a, m, n, l)" by (cases "rows ! j")
    have a: "agents ! j = a" using f r j len by (metis fst_conv nth_map)
    have row: "agent_rowE M A L a = Inr (a, m, n, l)" using mapE_nth [OF rows j] by (simp add: a r)
    have mem: "(a, m, n, l) \<in> set rows" using j len r by (metis nth_mem)
    have "read_row (getp (rows_obj rows) ''max_concurrent'') (getp (rows_obj rows) ''active'')
      (getp (rows_obj rows) ''active_auths'') a = Inr (rows' ! j)"
      using mapE_nth [OF rows', of j] j f a len by simp
    then obtain l' where "rows' ! j = (a, m, n, l')"
      and bk: "\<And>rows'. rows_ok rows' \<Longrightarrow> (a, m, n, l') \<in> set rows' \<Longrightarrow>
      agent_rowE (getp (rows_obj rows') ''max_concurrent'') (getp (rows_obj rows') ''active'')
        (getp (rows_obj rows') ''active_auths'') a = Inr (a, m, n, l)"
      using row_roundtrip [OF row assms(3) _ ok mem] by metis
    then have "(a, m, n, l') \<in> set rows'" using j len by (metis nth_mem)
    from bk [OF ok' this] show "agent_rowE (getp (rows_obj rows') ''max_concurrent'')
        (getp (rows_obj rows') ''active'') (getp (rows_obj rows') ''active_auths'') (agents ! j) = Inr (rows ! j)"
      by (simp add: a r)
  qed (simp add: len)
qed

lemma rows_obj_parts:
  "coalesce (getp (rows_obj rows) ''max_concurrent'') d = getp (rows_obj rows) ''max_concurrent''"
  "coalesce (getp (rows_obj rows) ''active'') d = getp (rows_obj rows) ''active''"
  "coalesce (getp (rows_obj rows) ''active_auths'') d = getp (rows_obj rows) ''active_auths''"
  "is_plain (getp (rows_obj rows) ''max_concurrent'')" "is_plain (getp (rows_obj rows) ''active'')"
  "is_plain (getp (rows_obj rows) ''active_auths'')" "is_plain (rows_obj rows)" "rows_obj rows \<noteq> JUndef"
  by (simp_all add: rows_obj_def)

lemma all_agents_ordered: "all_agents a b c = Inr ks \<Longrightarrow> ordered ks"
  unfolding all_agents_def by (auto split: if_splits intro!: ordered_sort_u16)

interpretation concurrency_codec: module_codec normalizeConcurrency deserializeConcurrency "[''concurrency'']" "\<lambda>_. True"
proof unfold_locales
  fix st t p t'
  assume ser: "normalizeConcurrency st = Inr p" and wf: "wf_js st" and t: "is_plain t"
    and deser: "deserializeConcurrency t p = Inr t'"
  let ?L = "path st [''concurrency'', ''active_auths'']"
  from ser obtain M A agents rows where ag: "all_agents M A ?L = Inr agents"
    and rows: "mapE (agent_rowE M A ?L) agents = Inr rows" and p: "p = rows_obj rows"
    by (auto simp: normalizeConcurrency_def bindE_eq_Inr simp del: pathE.simps path.simps dest!: pathE_InrD)
  note o = all_agents_ordered [OF ag]
  have f: "map fst rows = agents" using rows agent_rowE_fst by (rule mapE_fst)
  then have ok: "rows_ok rows" using o by (simp add: rows_ok_def)
  from deser obtain rows' where rows': "mapE (read_row (getp (rows_obj rows) ''max_concurrent'')
      (getp (rows_obj rows) ''active'') (getp (rows_obj rows) ''active_auths'')) (map fst rows) = Inr rows'"
    and t': "t' = set_prop t ''concurrency'' (rows_obj rows')"
    unfolding p deserializeConcurrency_def
    by (auto simp: bindE_eq_Inr asObject_Inr rows_obj_parts rows_agents [OF ok])
  note rt = rows_roundtrip [OF rows o wf_js_path [OF wf] rows']
  have pr: "propE t' ''concurrency'' = Inr (rows_obj rows')"
    using t by (simp add: t' propE_object is_plain_object)
  have "propE (rows_obj rows') k = Inr (getp (rows_obj rows') k)" for k
    by (intro propE_object is_plain_object rows_obj_parts)
  with pr show "normalizeConcurrency t' = Inr p"
    using rt rows_agents [OF rt(1)] by (simp add: normalizeConcurrency_def p)
qed (auto simp: normalizeConcurrency_def deserializeConcurrency_def bindE_eq_Inr propE_object is_plain_object
      split: if_splits)

section \<open>Tool limits\<close>

definition nonneg_entry :: "string \<Rightarrow> string \<Rightarrow> jsval \<Rightarrow> jsval option res" where
  "nonneg_entry field k v =
     (if v = JUndef then Inr None else bindE (assertNonNegInt v field) (\<lambda>w. Inr (Some w)))"

definition tool_lt :: "jsval \<Rightarrow> jsval \<Rightarrow> bool" where
  "tool_lt a b =
     (num_lt (ts_of a) (ts_of b) \<or>
      \<not> num_lt (ts_of b) (ts_of a) \<and>
      js_lt (coalesce (getp a ''tool'') (JStr [])) (coalesce (getp b ''tool'') (JStr [])))"

definition event_entryE :: "jsval \<Rightarrow> jsval res" where
  "event_entryE e =
     bindE (propE e ''ts'') (\<lambda>x. bindE (assertInt x ''tool_limits.calls.ts'') (\<lambda>ts.
       Inr (JObj ((''ts'', ts) # (if getp e ''tool'' = JUndef then [] else [(''tool'', getp e ''tool'')])))))"

definition events_of :: "string \<Rightarrow> jsval \<Rightarrow> jsval res" where
  "events_of k v =
     bindE (as_listE (coalesce v (JArr []))) (\<lambda>es. bindE (mapE event_entryE es) (\<lambda>fs. Inr (JArr (sort_by tool_lt fs))))"

definition tool_caps_of :: "string \<Rightarrow> jsval \<Rightarrow> jsval res" where
  "tool_caps_of k v = buildE (nonneg_entry ''tool_limits.max_calls_by_tool'') (coalesce v (JObj []))"

definition normalizeToolLimits :: "jsval \<Rightarrow> jsval res" where
  "normalizeToolLimits st =
     bindE (propE st ''tool_limits'') (\<lambda>t0.
       let lims = coalesce t0 (JObj [(''window_seconds'', JNum (jint 0)), (''max_calls'', JObj []),
                                     (''max_calls_by_tool'', JObj []), (''calls'', JObj [])])
       in bindE (buildE (nonneg_entry ''tool_limits.max_calls'') (getp lims ''max_calls'')) (\<lambda>max_calls.
          bindE (buildE (keeps tool_caps_of) (coalesce (getp lims ''max_calls_by_tool'') (JObj []))) (\<lambda>by_tool.
          bindE (buildE (keeps events_of) (getp lims ''calls'')) (\<lambda>calls.
          bindE (assertPosInt (getp lims ''window_seconds'') ''tool_limits.window_seconds'') (\<lambda>window.
            Inr (JObj [(''window_seconds'', window), (''max_calls'', max_calls),
                       (''max_calls_by_tool'', by_tool), (''calls'', calls)]))))))"

definition read_event :: "string \<Rightarrow> nat \<Rightarrow> jsval \<Rightarrow> jsval res" where
  "read_event k j v =
     (let label = ''tool_limits.calls.'' @ k @ ''['' @ nat_str j @ '']''
      in bindE (asObject v label) (\<lambda>e.
           let n = (if getp e ''tool'' = JNull then JUndef else getp e ''tool'')
           in if n \<noteq> JUndef \<and> \<not> is_string n then Inl (invalid (label @ ''.tool''))
              else bindE (assertInt (getp e ''ts'') (label @ ''.ts'')) (\<lambda>ts.
                Inr (JObj [(''ts'', ts), (''tool'', n)]))))"

definition read_events :: "string \<Rightarrow> jsval \<Rightarrow> jsval res" where
  "read_events k v =
     (case v of
        JArr es \<Rightarrow> bindE (mapE_idx (read_event k) es) (\<lambda>fs. Inr (JArr (sort_by tool_lt fs)))
      | _ \<Rightarrow> Inl (invalid (''tool_limits.calls.'' @ k)))"

definition read_caps :: "string \<Rightarrow> jsval \<Rightarrow> jsval res" where
  "read_caps k v =
     bindE (asObject (coalesce v (JObj [])) (''tool_limits.max_calls_by_tool.'' @ k)) (\<lambda>toolsObj.
       buildE (keeps (\<lambda>t x. assertNonNegInt x (''tool_limits.max_calls_by_tool.'' @ k @ ''.'' @ t))) toolsObj)"

definition deserializeToolLimits :: "jsval \<Rightarrow> jsval \<Rightarrow> jsval res" where
  "deserializeToolLimits st payload =
     (if payload = JUndef
      then Inr (set_prop st ''tool_limits''
             (JObj [(''window_seconds'', JNum (jint 1)), (''max_calls'', JObj []),
                    (''max_calls_by_tool'', JObj []), (''calls'', JObj [])]))
      else bindE (asObject payload ''tool_limits'') (\<lambda>obj.
           bindE (asObject (coalesce (getp obj ''max_calls'') (JObj [])) ''tool_limits.max_calls'') (\<lambda>maxCallsObj.
           bindE (asObject (coalesce (getp obj ''max_calls_by_tool'') (JObj [])) ''tool_limits.max_calls_by_tool'') (\<lambda>byToolObj.
           bindE (asObject (coalesce (getp obj ''calls'') (JObj [])) ''tool_limits.calls'') (\<lambda>callsObj.
           bindE (buildE (keeps (\<lambda>k x. assertNonNegInt x (''tool_limits.max_calls.'' @ k))) maxCallsObj) (\<lambda>max_calls.
           bindE (buildE (keeps read_caps) byToolObj) (\<lambda>by_tool.
           bindE (buildE (keeps read_events) callsObj) (\<lambda>calls.
           bindE (assertPosInt (getp obj ''window_seconds'') ''tool_limits.window_seconds'') (\<lambda>window.
             Inr (set_prop st ''tool_limits''
               (JObj [(''window_seconds'', window), (''max_calls'', max_calls),
                      (''max_calls_by_tool'', by_tool), (''calls'', calls)])))))))))))"

text \<open>The declared type of a recorded call: its tool is a string or absent, not \<open>null\<close>.\<close>

definition tools_typed :: "jsval \<Rightarrow> bool" where
  "tools_typed st =
     (let calls = path st [''tool_limits'', ''calls'']
      in list_all (\<lambda>a. case getp calls a of
             JArr es \<Rightarrow> list_all (\<lambda>e. getp e ''tool'' \<noteq> JNull) es | _ \<Rightarrow> True) (obj_keys calls))"

lemma nonneg_entry_roundtrip:
  assumes "nonneg_entry F k x = Inr (Some v)" and "assertNonNegInt v G = Inr w"
  shows "nonneg_entry F k w = Inr (Some v)"
  using assms by (auto simp: nonneg_entry_def bindE_eq_Inr assertNonNegInt_Inr split: if_splits)

lemma caps_roundtrip:
  assumes "wf_js x" and "keeps tool_caps_of k x = Inr (Some v)" and "read_caps k v = Inr w"
  shows "keeps tool_caps_of k w = Inr (Some v)"
proof -
  have f: "buildE (nonneg_entry ''tool_limits.max_calls_by_tool'') (coalesce x (JObj [])) = Inr v"
    using assms(2) by (auto simp: tool_caps_of_def bindE_eq_Inr)
  obtain es where es: "v = JObj es" using buildE_object [OF f] by blast
  have g: "buildE (keeps (\<lambda>t x. assertNonNegInt x (''tool_limits.max_calls_by_tool.'' @ k @ ''.'' @ t))) v = Inr w"
    using assms(3) by (auto simp: es read_caps_def bindE_eq_Inr asObject_Inr)
  obtain fs where "w = JObj fs" using buildE_object [OF g] by blast
  moreover have "buildE (nonneg_entry ''tool_limits.max_calls_by_tool'') w = Inr v"
    by (rule build_roundtrip [OF f _ g nonneg_entry_roundtrip]) (use assms(1) in \<open>simp_all add: coalesce_def\<close>)
  ultimately show ?thesis by (simp add: tool_caps_of_def)
qed

definition is_event :: "jsval \<Rightarrow> bool" where
  "is_event e =
     ((\<exists>i. getp e ''ts'' = JNum (jint i)) \<and> (getp e ''tool'' = JUndef \<or> is_string (getp e ''tool'')))"

definition tool_key :: "jsval \<Rightarrow> int \<times> nat list" where
  "tool_key e = (int_of (ts_of e), case getp e ''tool'' of JStr n \<Rightarrow> u16_key n | _ \<Rightarrow> [])"

lemma sort_events:
  assumes "\<forall>e \<in> set es. is_event e"
  shows "sort_by tool_lt es = sort_key tool_key es"
proof (rule sort_by_key)
  fix x y assume "x \<in> set es" "y \<in> set es"
  with assms have "is_event x" "is_event y" by auto
  then obtain i j where ts: "getp x ''ts'' = JNum (jint i)" "getp y ''ts'' = JNum (jint j)"
    and tl: "getp x ''tool'' = JUndef \<or> is_string (getp x ''tool'')"
      "getp y ''tool'' = JUndef \<or> is_string (getp y ''tool'')"
    by (auto simp: is_event_def)
  have tname: "coalesce (getp z ''tool'') (JStr []) = JStr (case getp z ''tool'' of JStr n \<Rightarrow> n | _ \<Rightarrow> [])"
    if "getp z ''tool'' = JUndef \<or> is_string (getp z ''tool'')" for z
    using that by (cases "getp z ''tool''") auto
  have key: "(case getp z ''tool'' of JStr n \<Rightarrow> u16_key n | _ \<Rightarrow> [])
      = u16_key (case getp z ''tool'' of JStr n \<Rightarrow> n | _ \<Rightarrow> [])" for z
    by (cases "getp z ''tool''") (auto simp: u16_key_def)
  show "tool_lt x y \<longleftrightarrow> tool_key x < tool_key y"
    by (auto simp: tool_lt_def tool_key_def ts_of_def ts tname [OF tl(1)] tname [OF tl(2)] key js_lt_def less_prod_simp)
qed

lemma events_roundtrip:
  assumes "keeps events_of k x = Inr (Some v)" and "read_events k v = Inr w"
    and typed: "case x of JArr es \<Rightarrow> list_all (\<lambda>e. getp e ''tool'' \<noteq> JNull) es | _ \<Rightarrow> True"
  shows "keeps events_of k w = Inr (Some v)"
proof -
  obtain xs fs where xs: "coalesce x (JArr []) = JArr xs" and m: "mapE event_entryE xs = Inr fs"
    and v: "v = JArr (sort_by tool_lt fs)"
    using assms(1) by (auto simp: events_of_def bindE_eq_Inr)
  have nn: "getp e ''tool'' \<noteq> JNull" if "e \<in> set xs" for e
    using typed xs that by (cases x) (auto simp: coalesce_def list_all_iff split: if_splits)
  obtain gs where g: "mapE_idx (read_event k) (sort_by tool_lt fs) = Inr gs" and w: "w = JArr (sort_by tool_lt gs)"
    using assms(2) by (auto simp: v read_events_def bindE_eq_Inr)
  define es where "es = sort_by tool_lt fs"
  have shape: "\<exists>ts n. f = JObj ((''ts'', ts) # (if n = JUndef then [] else [(''tool'', n)])) \<and> n \<noteq> JNull \<and> v_integer ts"
    if "f \<in> set es" for f
  proof -
    obtain e where e: "e \<in> set xs" "event_entryE e = Inr f"
      using mapE_InrD2 [OF m, of f] \<open>f \<in> set es\<close> by (auto simp: es_def)
    then obtain ts where "v_integer ts"
      "f = JObj ((''ts'', ts) # (if getp e ''tool'' = JUndef then [] else [(''tool'', getp e ''tool'')]))"
      by (auto simp: event_entryE_def bindE_eq_Inr assertInt_Inr)
    with nn [OF e(1)] show ?thesis by blast
  qed
  have rd: "list_all2 (\<lambda>f f'. f \<in> set es \<longrightarrow> is_event f \<and> is_event f' \<and> tool_key f' = tool_key f \<and>
      event_entryE f' = Inr f) es gs"
  proof (rule mapE_idx_Inr [OF _ g [folded es_def]])
    fix j f f'
    assume r: "read_event k j f = Inr f'"
    show "f \<in> set es \<longrightarrow> is_event f \<and> is_event f' \<and> tool_key f' = tool_key f \<and> event_entryE f' = Inr f"
    proof
      assume "f \<in> set es"
      then obtain ts n where f: "f = JObj ((''ts'', ts) # (if n = JUndef then [] else [(''tool'', n)]))"
        and n: "n \<noteq> JNull" and "v_integer ts" using shape by blast
      then obtain i where ts: "ts = JNum (jint i)" by (auto elim: v_integerE)
      have fn: "getp f ''tool'' = n" by (simp add: f inherited_def object_prototype_def)
      have ft: "getp f ''ts'' = ts" by (simp add: f)
      from r n have f': "f' = JObj [(''ts'', ts), (''tool'', n)]" and s: "n = JUndef \<or> is_string n"
        by (auto simp: read_event_def Let_def bindE_eq_Inr asObject_Inr assertInt_Inr fn ft split: if_splits)
      show "is_event f \<and> is_event f' \<and> tool_key f' = tool_key f \<and> event_entryE f' = Inr f"
        using s ts fn ft
        by (simp add: is_event_def tool_key_def ts_of_def f' event_entryE_def assertInt_def del: getp.simps(1))
          (auto simp: f)
    qed
  qed
  have len: "length gs = length es" using rd by (simp add: list_all2_lengthD)
  have nth: "\<forall>j < length es. is_event (es ! j) \<and> is_event (gs ! j) \<and> tool_key (gs ! j) = tool_key (es ! j) \<and>
      event_entryE (gs ! j) = Inr (es ! j)"
    using rd len nth_mem [of _ es] by (simp add: list_all2_conv_all_nth)
  have ev: "\<forall>f \<in> set es. is_event f" "\<forall>f \<in> set gs. is_event f"
    and keys: "map tool_key gs = map tool_key es" and again: "mapE event_entryE gs = Inr es"
    using nth len
    by (auto simp: list_all2_conv_all_nth in_set_conv_nth mapE_Inr_iff intro!: nth_equalityI)
  have srt: "sorted (map tool_key es)"
  proof -
    have "\<forall>f \<in> set fs. is_event f" using ev(1) by (simp add: es_def)
    then show ?thesis by (simp add: es_def sort_events)
  qed
  have "sort_by tool_lt gs = gs"
    unfolding sort_events [OF ev(2)] using srt keys by (simp add: sort_key_id_if_sorted)
  moreover have "sort_by tool_lt es = es"
    unfolding sort_events [OF ev(1)] using srt by (simp add: sort_key_id_if_sorted)
  ultimately show ?thesis using again by (simp add: events_of_def w v es_def [symmetric])
qed

interpretation tool_codec: module_codec normalizeToolLimits deserializeToolLimits "[''tool_limits'']" tools_typed
proof unfold_locales
  fix st t p t'
  assume ser: "normalizeToolLimits st = Inr p" and wf: "wf_js st" and ty: "tools_typed st" and t: "is_plain t"
    and deser: "deserializeToolLimits t p = Inr t'"
  let ?l = "getp st ''tool_limits''"
  have wfl: "wf_js (getp ?l k)" for k using wf by (intro wf_js_getp)
  have nn: "\<not> nullish ?l"
    using ser by (auto simp: normalizeToolLimits_def bindE_eq_Inr Let_def assertPosInt_Inr coalesce_def
        dest!: propE_InrD split: if_splits)
  from ser nn obtain w a b c where
    p: "p = JObj [(''window_seconds'', w), (''max_calls'', a), (''max_calls_by_tool'', b), (''calls'', c)]"
    and w: "assertPosInt w ''tool_limits.window_seconds'' = Inr w"
    and a: "buildE (nonneg_entry ''tool_limits.max_calls'') (getp ?l ''max_calls'') = Inr a"
    and b: "buildE (keeps tool_caps_of) (coalesce (getp ?l ''max_calls_by_tool'') (JObj [])) = Inr b"
    and c: "buildE (keeps events_of) (getp ?l ''calls'') = Inr c"
    by (auto simp: normalizeToolLimits_def bindE_eq_Inr Let_def assertPosInt_Inr dest!: propE_InrD)
  obtain es fs gs where objs: "a = JObj es" "b = JObj fs" "c = JObj gs"
    using buildE_object [OF a] buildE_object [OF b] buildE_object [OF c] by blast
  from deser obtain a' b' c' where
    a': "buildE (keeps (\<lambda>k x. assertNonNegInt x (''tool_limits.max_calls.'' @ k))) a = Inr a'"
    and b': "buildE (keeps read_caps) b = Inr b'" and c': "buildE (keeps read_events) c = Inr c'"
    and t': "t' = set_prop t ''tool_limits''
      (JObj [(''window_seconds'', w), (''max_calls'', a'), (''max_calls_by_tool'', b'), (''calls'', c')])"
    by (auto simp: p objs deserializeToolLimits_def bindE_eq_Inr asObject_Inr assertPosInt_Inr)
  have "buildE (nonneg_entry ''tool_limits.max_calls'') a' = Inr a"
    by (rule build_roundtrip [OF a wfl a' nonneg_entry_roundtrip])
  moreover have "buildE (keeps tool_caps_of) b' = Inr b"
    by (rule build_roundtrip [OF b _ b' caps_roundtrip]) (use wfl in \<open>simp_all add: coalesce_def\<close>)
  moreover have "buildE (keeps events_of) c' = Inr c"
  proof (rule build_roundtrip_keys [OF c wfl c' events_roundtrip])
    fix k assume "k \<in> set (obj_keys (getp ?l ''calls''))"
    with ty show "case getp (getp ?l ''calls'') k of
        JArr es \<Rightarrow> list_all (\<lambda>e. getp e ''tool'' \<noteq> JNull) es | _ \<Rightarrow> True"
      by (simp add: tools_typed_def Let_def list_all_iff)
  qed
  moreover have "propE t' ''tool_limits'' = Inr (JObj [(''window_seconds'', w), (''max_calls'', a'),
      (''max_calls_by_tool'', b'), (''calls'', c')])"
    using t by (simp add: t' propE_object is_plain_object)
  moreover obtain fs' where "b' = JObj fs'" using buildE_object [OF b'] by blast
  ultimately show "normalizeToolLimits t' = Inr p"
    using w by (simp add: normalizeToolLimits_def p)
qed (auto simp: normalizeToolLimits_def deserializeToolLimits_def bindE_eq_Inr propE_object is_plain_object
      split: if_splits)

end
