(* ===== verification/Snapshot.thy ===== *)
theory Snapshot
  imports Codecs HistoryCodecs
begin

text \<open>
  Canonical snapshots: the codec registry (\<open>policy/modules/registry.ts\<close>, \<open>_codec.ts\<close>), the snapshot
  value and its byte format (\<open>snapshot/CanonicalState.ts\<close>, \<open>CanonicalCodec.ts\<close>), and the loops with
  which the engine hashes, exports and imports all modules. The import theorem is proved from the
  contract \<open>module_codec\<close> alone, for any list of codecs with disjoint slices.
\<close>

section \<open>The registry\<close>

record codec =
  c_module :: string
  c_serialize :: "jsval \<Rightarrow> jsval res"
  c_deserialize :: "jsval \<Rightarrow> jsval \<Rightarrow> jsval res"

definition MODULE_CODECS :: "host \<Rightarrow> codec list" where
  "MODULE_CODECS h =
     [\<lparr>c_module = ''AllowlistModule'', c_serialize = serializeAllowlist, c_deserialize = deserializeAllowlist\<rparr>,
      \<lparr>c_module = ''BudgetModule'', c_serialize = normalizeBudget h, c_deserialize = deserializeBudget\<rparr>,
      \<lparr>c_module = ''ConcurrencyModule'', c_serialize = normalizeConcurrency,
        c_deserialize = deserializeConcurrency\<rparr>,
      \<lparr>c_module = ''KillSwitchModule'', c_serialize = serializeKillSwitch,
        c_deserialize = deserializeKillSwitch\<rparr>,
      \<lparr>c_module = ''RecursionDepthModule'', c_serialize = normalizeRecursion,
        c_deserialize = deserializeRecursion\<rparr>,
      \<lparr>c_module = ''ReplayModule'', c_serialize = normalizeReplay h, c_deserialize = deserializeReplay h\<rparr>,
      \<lparr>c_module = ''ToolAmplificationModule'', c_serialize = normalizeToolLimits,
        c_deserialize = deserializeToolLimits\<rparr>,
      \<lparr>c_module = ''VelocityModule'', c_serialize = normalizeVelocity, c_deserialize = deserializeVelocity\<rparr>]"

text \<open>\<open>Object.keys(MODULE_CODECS).sort()\<close>\<close>

definition sorted_codecs :: "host \<Rightarrow> codec list" where
  "sorted_codecs h = sort_key (u16_key \<circ> c_module) (MODULE_CODECS h)"

definition hashPayload :: "host \<Rightarrow> jsval \<Rightarrow> string res" where
  "hashPayload h payload = sha256HexFromJson h payload"

definition codec_stateHash :: "host \<Rightarrow> codec \<Rightarrow> jsval \<Rightarrow> string res" where
  "codec_stateHash h c st = bindE (c_serialize c st) (hashPayload h)"

definition statelessModuleCodec :: "host \<Rightarrow> string \<Rightarrow> codec res" where
  "statelessModuleCodec h moduleId =
     (case find (\<lambda>c. c_module c = moduleId) (MODULE_CODECS h) of
        None \<Rightarrow> Inl (Thrown (''unknown module codec: '' @ moduleId))
      | Some c \<Rightarrow> Inr c)"

section \<open>Snapshots\<close>

definition createCanonicalState :: "string \<Rightarrow> jsval \<Rightarrow> string \<Rightarrow> jsval" where
  "createCanonicalState engineVersion modules policyId =
     JObj [(''formatVersion'', JNum (jint 1)), (''engineVersion'', JStr engineVersion),
           (''policyId'', JStr policyId), (''modules'', JObj (entries modules))]"

definition withModuleState :: "jsval \<Rightarrow> string \<Rightarrow> jsval \<Rightarrow> jsval" where
  "withModuleState snapshot moduleId payload =
     spread_set snapshot ''modules'' (spread_set (getp snapshot ''modules'') moduleId payload)"

definition assertCanonicalState :: "jsval \<Rightarrow> jsval res" where
  "assertCanonicalState v =
     (if \<not> is_object v \<or> is_array v then Inl (Thrown ''invalid canonical state'')
      else if \<not> has_prop v ''formatVersion''
      then Inl (Thrown ''invalid canonical state: missing formatVersion'')
      else if getp v ''formatVersion'' \<noteq> JNum (jint 1)
      then Inl (Thrown ''invalid canonical state: unsupported formatVersion'')
      else if \<not> is_string (getp v ''engineVersion'')
      then Inl (Thrown ''invalid canonical state: engineVersion'')
      else if \<not> is_string (getp v ''policyId'') then Inl (Thrown ''invalid canonical state: policyId'')
      else if \<not> is_object (getp v ''modules'') \<or> is_array (getp v ''modules'')
      then Inl (Thrown ''invalid canonical state: modules'')
      else Inr (JObj [(''formatVersion'', JNum (jint 1)), (''engineVersion'', getp v ''engineVersion''),
                      (''policyId'', getp v ''policyId''), (''modules'', getp v ''modules'')]))"

definition encodeCanonicalState :: "host \<Rightarrow> jsval \<Rightarrow> string res" where
  "encodeCanonicalState h st = bindE (assertCanonicalState st) (canonicalJson h)"

definition decodeCanonicalState :: "string \<Rightarrow> jsval res" where
  "decodeCanonicalState bytes = bindE (json_parse (text_decode bytes)) assertCanonicalState"

section \<open>All modules\<close>

text \<open>The loop of \<open>computeStateHashFor\<close>: one digest per module.\<close>

definition module_hashes :: "host \<Rightarrow> codec list \<Rightarrow> jsval \<Rightarrow> (string \<times> jsval) list res" where
  "module_hashes h cs st =
     mapE (\<lambda>c. bindE (codec_stateHash h c st) (\<lambda>d. Inr (c_module c, JStr d))) cs"

text \<open>The loop of \<open>exportState\<close>.\<close>

fun export_modules :: "codec list \<Rightarrow> jsval \<Rightarrow> jsval \<Rightarrow> jsval res" where
  "export_modules [] st snapshot = Inr snapshot"
| "export_modules (c # cs) st snapshot =
     bindE (c_serialize c st) (\<lambda>p. export_modules cs st (withModuleState snapshot (c_module c) p))"

text \<open>
  The loop of \<open>importState\<close>. The target is assigned module by module, so when a payload is refused the
  target keeps what was assigned before: the second component is the target in every case.
\<close>

fun import_modules :: "codec list \<Rightarrow> jsval \<Rightarrow> jsval \<Rightarrow> unit res \<times> jsval" where
  "import_modules [] modules tgt = (Inr (), tgt)"
| "import_modules (c # cs) modules tgt =
     (case bindE (propE modules (c_module c)) (c_deserialize c tgt) of
        Inl e \<Rightarrow> (Inl e, tgt)
      | Inr tgt' \<Rightarrow> import_modules cs modules tgt')"

section \<open>Import after export\<close>

definition codec_slices :: "string \<Rightarrow> string list" where
  "codec_slices m =
     the (map_of
       [(''AllowlistModule'', [''allowlists'']), (''BudgetModule'', [''budget'', ''max_amount_per_action'']),
        (''ConcurrencyModule'', [''concurrency'']), (''KillSwitchModule'', [''kill_switch'']),
        (''RecursionDepthModule'', [''recursion'']), (''ReplayModule'', [''replay'']),
        (''ToolAmplificationModule'', [''tool_limits'']), (''VelocityModule'', [''velocity''])] m)"

definition codec_typed :: "string \<Rightarrow> jsval \<Rightarrow> bool" where
  "codec_typed m = (if m = ''ToolAmplificationModule'' then tools_typed else (\<lambda>_. True))"

abbreviation good_codec :: "codec \<Rightarrow> bool" where
  "good_codec c \<equiv> module_codec (c_serialize c) (c_deserialize c) (codec_slices (c_module c)) (codec_typed (c_module c))"

definition good_codecs :: "codec list \<Rightarrow> bool" where
  "good_codecs cs =
     (list_all good_codec cs \<and> distinct (map c_module cs) \<and>
      sorted_wrt (\<lambda>c d. set (codec_slices (c_module c)) \<inter> set (codec_slices (c_module d)) = {}) cs)"

lemma MODULE_CODECS_good: "good_codecs (MODULE_CODECS h)"
  using allowlist_codec.module_codec_axioms budget_codec.module_codec_axioms [of h]
    concurrency_codec.module_codec_axioms kill_codec.module_codec_axioms recursion_codec.module_codec_axioms
    replay_codec.module_codec_axioms [of h] tool_codec.module_codec_axioms velocity_codec.module_codec_axioms
  by (simp add: good_codecs_def MODULE_CODECS_def codec_slices_def codec_typed_def)

lemma sorted_codecs_registry: "sorted_codecs h = MODULE_CODECS h"
proof -
  have "sorted (map (u16_key \<circ> c_module) (MODULE_CODECS h))"
    by (simp add: MODULE_CODECS_def u16_key_def u16_rank_def)
  then show ?thesis by (simp add: sorted_codecs_def sort_key_id_if_sorted)
qed

text \<open>Exported modules can be read back under their names.\<close>

lemma export_other:
  "export_modules cs st snap = Inr snap' \<Longrightarrow> is_plain snap \<Longrightarrow>
    is_plain snap' \<and> (\<forall>k. k \<noteq> ''modules'' \<longrightarrow> getp snap' k = getp snap k)"
proof (induction cs arbitrary: snap)
  case (Cons c cs)
  then obtain p where "export_modules cs st (withModuleState snap (c_module c) p) = Inr snap'"
    by (auto simp: bindE_eq_Inr)
  from Cons.IH [OF this] show ?case using Cons.prems(2) by (simp add: withModuleState_def getp_spread_set)
qed simp

lemma export_lookup:
  "export_modules cs st snap = Inr snap' \<Longrightarrow> is_plain snap \<Longrightarrow> is_plain (getp snap ''modules'') \<Longrightarrow>
    is_plain (getp snap' ''modules'') \<and>
    (\<forall>k. k \<notin> c_module ` set cs \<longrightarrow> getp (getp snap' ''modules'') k = getp (getp snap ''modules'') k) \<and>
    (distinct (map c_module cs) \<longrightarrow>
      (\<forall>c \<in> set cs. c_serialize c st = Inr (getp (getp snap' ''modules'') (c_module c))))"
proof (induction cs arbitrary: snap)
  case (Cons c cs)
  then obtain p where p: "c_serialize c st = Inr p"
    and e: "export_modules cs st (withModuleState snap (c_module c) p) = Inr snap'"
    by (auto simp: bindE_eq_Inr)
  let ?w = "withModuleState snap (c_module c) p"
  have w: "is_plain ?w" "is_plain (getp ?w ''modules'')"
    "getp (getp ?w ''modules'') k = (if k = c_module c then p else getp (getp snap ''modules'') k)" for k
    using Cons.prems(3) by (simp_all add: withModuleState_def getp_spread_set)
  from Cons.IH [OF e w(1,2)] p show ?case by (auto simp: w(3))
qed simp

text \<open>Importing leaves foreign slices alone and gives every module its payload back.\<close>

lemma import_frame:
  "import_modules cs ms t = (Inr (), t') \<Longrightarrow> list_all good_codec cs \<Longrightarrow> is_plain t \<Longrightarrow>
    is_plain t' \<and> (\<forall>k. k \<notin> (\<Union>c \<in> set cs. set (codec_slices (c_module c))) \<longrightarrow> getp t' k = getp t k)"
proof (induction cs arbitrary: t)
  case (Cons c cs)
  then obtain u where u: "c_deserialize c t (getp ms (c_module c)) = Inr u"
    and i: "import_modules cs ms u = (Inr (), t')"
    by (auto simp: bindE_eq_Inr split: sum.splits dest!: propE_InrD)
  have g: "good_codec c" "list_all good_codec cs" using Cons.prems(2) by simp_all
  from module_codec.deser_frame [OF g(1) u Cons.prems(3)] Cons.IH [OF i g(2)] show ?case by auto
qed simp

lemma import_payloads:
  "import_modules cs ms t = (Inr (), t') \<Longrightarrow> good_codecs cs \<Longrightarrow> is_plain t \<Longrightarrow> is_plain st \<Longrightarrow> wf_js st \<Longrightarrow>
    \<forall>c \<in> set cs. codec_typed (c_module c) st \<and> c_serialize c st = Inr (getp ms (c_module c)) \<Longrightarrow>
    \<forall>c \<in> set cs. c_serialize c t' = c_serialize c st"
proof (induction cs arbitrary: t)
  case (Cons c cs)
  then obtain u where u: "c_deserialize c t (getp ms (c_module c)) = Inr u"
    and i: "import_modules cs ms u = (Inr (), t')"
    by (auto simp: bindE_eq_Inr split: sum.splits dest!: propE_InrD)
  from Cons.prems(2) have c: "good_codec c" and cs: "good_codecs cs" "list_all good_codec cs"
    and disj: "\<forall>d \<in> set cs. set (codec_slices (c_module c)) \<inter> set (codec_slices (c_module d)) = {}"
    by (simp_all add: good_codecs_def)
  have up: "is_plain u" using module_codec.deser_frame [OF c u Cons.prems(3)] ..
  note frame = import_frame [OF i cs(2) up]
  have "c_serialize c u = Inr (getp ms (c_module c))"
    using module_codec.payload_survives [OF c _ Cons.prems(5,4) _ Cons.prems(3) u] Cons.prems(6) by simp
  moreover have "c_serialize c t' = c_serialize c u"
  proof (rule module_codec.ser_local [OF c])
    show "getp t' k = getp u k" if "k \<in> set (codec_slices (c_module c))" for k
      using frame disj that by blast
  qed (use frame up in simp_all)
  ultimately show ?case
    using Cons.IH [OF i cs(1) up Cons.prems(4,5)] Cons.prems(6) by simp
qed simp

lemma module_hashes_cong:
  assumes "\<forall>c \<in> set cs. c_serialize c s = c_serialize c t"
  shows "module_hashes h cs s = module_hashes h cs t"
  unfolding module_hashes_def codec_stateHash_def using assms by (intro mapE_cong) auto

section \<open>The byte format\<close>

lemma assertCanonicalState_Inr:
  "assertCanonicalState v = Inr w \<longleftrightarrow>
     is_plain v \<and> getp v ''formatVersion'' = JNum (jint 1) \<and> is_string (getp v ''engineVersion'') \<and>
     is_string (getp v ''policyId'') \<and> is_plain (getp v ''modules'') \<and>
     w = JObj [(''formatVersion'', JNum (jint 1)), (''engineVersion'', getp v ''engineVersion''),
               (''policyId'', getp v ''policyId''), (''modules'', getp v ''modules'')]"
proof -
  have p: "is_object x \<and> \<not> is_array x \<longleftrightarrow> is_plain x" for x by (cases x) auto
  have f: "has_prop v k" if "is_plain v" "getp v k = JNum n" for k n
    using that by (cases v) (auto simp: inherited_def split: option.splits if_splits)
  show ?thesis
    using p [of v] p [of "getp v ''modules''"] f [of "''formatVersion''"]
    by (auto simp: assertCanonicalState_def split: if_splits)
qed

end
