(* ===== verification/AuditLog.thy ===== *)
theory AuditLog
  imports Types
begin

text \<open>
  The hash-chained audit log: \<open>audit/AuditLog.ts\<close>, \<open>auditGenesis.ts\<close> and \<open>HashChainedLog.ts\<close>. Events
  are JavaScript objects. The locale \<open>event_chain\<close> is the interface the log and the two replay
  verifiers share: one step of the chain is a hash of the previous head and the event, and equal
  outputs come from equal inputs unless the two hashed texts collide. From it the head of a chain
  determines every event of it, their number and their order.
\<close>

section \<open>One step of a chain\<close>

text \<open>\<open>\{ ...event, policyId: event.policyId ?? null \}\<close>\<close>

definition audit_entry :: "jsval \<Rightarrow> jsval" where
  "audit_entry e = spread_set e ''policyId'' (coalesce (getp e ''policyId'') JNull)"

definition canonicalizeEntry :: "host \<Rightarrow> jsval \<Rightarrow> string res" where
  "canonicalizeEntry h e =
     bindE (propE e ''policyId'') (\<lambda>p. canonicalJson h (spread_set e ''policyId'' (coalesce p JNull)))"

definition chain_text :: "string \<Rightarrow> string \<Rightarrow> string" where
  "chain_text prev_hash canonicalEvent = prev_hash @ CHR 0x0A # canonicalEvent"

definition computeNextHash :: "host \<Rightarrow> string \<Rightarrow> jsval \<Rightarrow> string res" where
  "computeNextHash h prev_hash e =
     bindE (canonicalizeEntry h e) (\<lambda>canonicalEvent. Inr (sha256 h (chain_text prev_hash canonicalEvent)))"

definition genesis_text :: string where
  "genesis_text = ''OxDeAI::GENESIS::v1''"

definition AUDIT_GENESIS_HASH :: "host \<Rightarrow> string" where
  "AUDIT_GENESIS_HASH h = sha256 h genesis_text"

text \<open>The head of the chain of a list of events, and the text each step hashes.\<close>

fun chain_head :: "host \<Rightarrow> string \<Rightarrow> jsval list \<Rightarrow> string res" where
  "chain_head h prev [] = Inr prev"
| "chain_head h prev (e # es) = bindE (computeNextHash h prev e) (\<lambda>d. chain_head h d es)"

definition event_form :: "host \<Rightarrow> jsval \<Rightarrow> jsval" where
  "event_form h e = nform h (audit_entry e)"

lemma canonicalizeEntry_form:
  "canonicalizeEntry h e = Inr s \<Longrightarrow> canonicalizeEntry h f = Inr s \<Longrightarrow> event_form h e = event_form h f"
  by (auto simp: canonicalizeEntry_def event_form_def audit_entry_def bindE_eq_Inr
      dest!: propE_InrD intro: canonical_determines)

section \<open>The log\<close>

record chained_entry =
  ce_event :: jsval
  ce_prev_hash :: string
  ce_hash :: string

record hash_log =
  chain :: "chained_entry list"
  log_head :: string

definition new_log :: "host \<Rightarrow> hash_log" where
  "new_log h = \<lparr>chain = [], log_head = AUDIT_GENESIS_HASH h\<rparr>"

definition log_append :: "host \<Rightarrow> hash_log \<Rightarrow> jsval \<Rightarrow> (string \<times> hash_log) res" where
  "log_append h lg event =
     (let prev_hash = log_head lg
      in bindE (computeNextHash h prev_hash event) (\<lambda>hash.
           Inr (hash, \<lparr>chain = chain lg @ [\<lparr>ce_event = event, ce_prev_hash = prev_hash, ce_hash = hash\<rparr>],
                       log_head = hash\<rparr>)))"

text \<open>\<open>structuredClone\<close> copies plain data and throws on functions.\<close>

fun has_function :: "jsval \<Rightarrow> bool" where
  "has_function JFun = True"
| "has_function (JArr xs) = list_ex has_function xs"
| "has_function (JObj kvs) = list_ex (\<lambda>(k, v). has_function v) kvs"
| "has_function _ = False"

definition structuredClone :: "jsval \<Rightarrow> jsval res" where
  "structuredClone v = (if has_function v then Inl (Thrown ''DataCloneError'') else Inr v)"

definition log_snapshot :: "hash_log \<Rightarrow> jsval list res" where
  "log_snapshot lg = mapE (\<lambda>e. structuredClone (ce_event e)) (chain lg)"

definition headHash :: "hash_log \<Rightarrow> string" where
  "headHash lg = log_head lg"

definition log_drain :: "hash_log \<Rightarrow> (jsval list \<times> hash_log) res" where
  "log_drain lg =
     bindE (mapE (\<lambda>e. structuredClone (ce_event e)) (chain lg)) (\<lambda>out. Inr (out, lg\<lparr>chain := []\<rparr>))"

fun verify_links :: "host \<Rightarrow> string \<Rightarrow> chained_entry list \<Rightarrow> string option res" where
  "verify_links h prev [] = Inr (Some prev)"
| "verify_links h prev (e # es) =
     (if ce_prev_hash e \<noteq> prev then Inr None
      else bindE (computeNextHash h (ce_prev_hash e) (ce_event e)) (\<lambda>expected.
             if expected \<noteq> ce_hash e then Inr None else verify_links h (ce_hash e) es))"

definition log_verify :: "host \<Rightarrow> hash_log \<Rightarrow> bool res" where
  "log_verify h lg =
     bindE (verify_links h (AUDIT_GENESIS_HASH h) (chain lg)) (\<lambda>prev. Inr (prev = Some (log_head lg)))"

section \<open>What the head determines\<close>

locale event_chain =
  fixes step :: "string \<Rightarrow> jsval \<Rightarrow> string res"
    and hashed :: "string \<Rightarrow> jsval \<Rightarrow> string \<Rightarrow> bool"
    and same :: "jsval \<Rightarrow> jsval \<Rightarrow> bool"
    and clash :: "string \<Rightarrow> string \<Rightarrow> bool"
  assumes step_hashes: "step p e = Inr d \<Longrightarrow> \<exists>s. hashed p e s"
    and step_binds: "step p e = Inr d \<Longrightarrow> step q f = Inr d \<Longrightarrow> hashed p e s \<Longrightarrow> hashed q f t \<Longrightarrow>
      length p = length q \<Longrightarrow> (p = q \<and> same e f) \<or> clash s t"
begin

fun steps :: "string \<Rightarrow> jsval list \<Rightarrow> string res" where
  "steps p [] = Inr p"
| "steps p (e # es) = bindE (step p e) (\<lambda>d. steps d es)"

text \<open>The texts hashed on the way.\<close>

fun texts :: "string \<Rightarrow> jsval list \<Rightarrow> string set" where
  "texts p [] = {}"
| "texts p (e # es) = {s. hashed p e s} \<union> (\<Union>d \<in> {d. step p e = Inr d}. texts d es)"

lemma steps_append: "steps p (es @ [e]) = bindE (steps p es) (\<lambda>d. step d e)"
proof (induction es arbitrary: p)
  case (Cons a es)
  then show ?case by (cases "step p a") auto
qed simp

lemma texts_append: "steps p es = Inr d \<Longrightarrow> texts p (es @ [e]) = texts p es \<union> {s. hashed d e s}"
proof (induction es arbitrary: p)
  case (Cons a es)
  then obtain d0 where "step p a = Inr d0" "steps d0 es = Inr d" by (auto simp: bindE_eq_Inr)
  with Cons.IH [of d0] show ?case by auto
qed simp

lemma steps_length:
  assumes "\<And>p e d. step p e = Inr d \<Longrightarrow> length d = n"
  shows "steps p es = Inr d \<Longrightarrow> length p = n \<Longrightarrow> length d = n"
  by (induction es arbitrary: p) (auto simp: bindE_eq_Inr dest: assms)

text \<open>
  Equal heads over the same seed: the same events in the same order, or a clash among the hashed
  texts. The seed must not itself be reached by a step.
\<close>

lemma head_binds:
  assumes len: "\<And>p e d. step p e = Inr d \<Longrightarrow> length d = length seed"
    and fresh: "\<And>p e s. step p e = Inr seed \<Longrightarrow> hashed p e s \<Longrightarrow> clash s s0 \<and> clash s0 s"
  shows "steps seed es = Inr d \<Longrightarrow> steps seed fs = Inr d \<Longrightarrow>
    list_all2 same es fs \<or>
    (\<exists>s \<in> insert s0 (texts seed es). \<exists>t \<in> insert s0 (texts seed fs). clash s t)"
proof (induction es arbitrary: fs d rule: rev_induct)
  case Nil
  show ?case
  proof (cases fs rule: rev_exhaust)
    case (snoc fs' f)
    with Nil obtain p where p: "steps seed fs' = Inr p" "step p f = Inr seed"
      by (auto simp: steps_append bindE_eq_Inr)
    then obtain s where "hashed p f s" using step_hashes by blast
    then show ?thesis using fresh [OF p(2)] by (auto simp: snoc texts_append [OF p(1)])
  qed simp
next
  case (snoc e es)
  from snoc.prems(1) obtain p where p: "steps seed es = Inr p" "step p e = Inr d"
    by (auto simp: steps_append bindE_eq_Inr)
  obtain s where s: "hashed p e s" using step_hashes [OF p(2)] by blast
  show ?case
  proof (cases fs rule: rev_exhaust)
    case Nil
    then have "d = seed" using snoc.prems(2) by simp
    then show ?thesis using fresh [of p e s] p s by (auto simp: texts_append [OF p(1)])
  next
    case fs: (snoc fs' f)
    from snoc.prems(2) obtain q where q: "steps seed fs' = Inr q" "step q f = Inr d"
      by (auto simp: fs steps_append bindE_eq_Inr)
    obtain t where t: "hashed q f t" using step_hashes [OF q(2)] by blast
    have "length p = length q"
      using steps_length [OF len p(1)] steps_length [OF len q(1)] by simp
    from step_binds [OF p(2) q(2) s t this] show ?thesis
    proof
      assume a: "p = q \<and> same e f"
      with q(1) have "steps seed fs' = Inr p" by simp
      from snoc.IH [OF p(1) this] show ?thesis
      proof
        assume "list_all2 same es fs'"
        with a show ?thesis by (simp add: fs list_all2_appendI)
      next
        assume "\<exists>s \<in> insert s0 (texts seed es). \<exists>t \<in> insert s0 (texts seed fs'). clash s t"
        then show ?thesis unfolding fs texts_append [OF p(1)] texts_append [OF q(1)] by blast
      qed
    next
      assume "clash s t"
      with s t show ?thesis
        by (auto simp: fs texts_append [OF p(1)] texts_append [OF q(1)])
    qed
  qed
qed

end

text \<open>The log's own step keeps the contract.\<close>

definition hashed_text :: "host \<Rightarrow> string \<Rightarrow> jsval \<Rightarrow> string \<Rightarrow> bool" where
  "hashed_text h p e s = (\<exists>c. canonicalizeEntry h e = Inr c \<and> s = chain_text p c)"

interpretation audit: event_chain "computeNextHash h" "hashed_text h"
    "\<lambda>e f. event_form h e = event_form h f" "collision h" for h
proof unfold_locales
  show "\<exists>s. hashed_text h p e s" if "computeNextHash h p e = Inr d" for p e d
    using that by (auto simp: computeNextHash_def hashed_text_def bindE_eq_Inr)
  show "(p = q \<and> event_form h e = event_form h f) \<or> collision h s t"
    if "computeNextHash h p e = Inr d" "computeNextHash h q f = Inr d" "hashed_text h p e s" "hashed_text h q f t"
      "length p = length q" for p q e f d s t
  proof (cases "s = t")
    case True
    with that(3-5) show ?thesis
      by (auto simp: hashed_text_def chain_text_def intro: canonicalizeEntry_form)
  next
    case False
    with that(1-4) show ?thesis
      by (auto simp: collision_def computeNextHash_def hashed_text_def bindE_eq_Inr)
  qed
qed

lemma chain_head_steps: "chain_head h p es = event_chain.steps (computeNextHash h) p es"
  by (induction es arbitrary: p) (auto intro: bindE_cong)

lemma digest_length: "hex_digests h \<Longrightarrow> computeNextHash h p e = Inr d \<Longrightarrow> length d = 64"
  by (auto simp: computeNextHash_def bindE_eq_Inr hex_digests_def)

lemma genesis_length: "hex_digests h \<Longrightarrow> length (AUDIT_GENESIS_HASH h) = 64"
  by (simp add: AUDIT_GENESIS_HASH_def hex_digests_def)

text \<open>The texts hashed for a list of events, as a set: genesis text included.\<close>

definition hashed_texts :: "host \<Rightarrow> string \<Rightarrow> jsval list \<Rightarrow> string set" where
  "hashed_texts h seed es = event_chain.texts (computeNextHash h) (hashed_text h) seed es"

lemma genesis_head_binds:
  assumes h: "hex_digests h"
    and "chain_head h (AUDIT_GENESIS_HASH h) es = Inr d" "chain_head h (AUDIT_GENESIS_HASH h) fs = Inr d"
  shows "map (event_form h) es = map (event_form h) fs \<or>
    (\<exists>s \<in> insert genesis_text (hashed_texts h (AUDIT_GENESIS_HASH h) es).
     \<exists>t \<in> insert genesis_text (hashed_texts h (AUDIT_GENESIS_HASH h) fs). collision h s t)"
proof -
  have nl: "CHR 0x0A \<notin> set genesis_text" by (simp add: genesis_text_def)
  have fresh: "collision h s genesis_text \<and> collision h genesis_text s"
    if "computeNextHash h p e = Inr (AUDIT_GENESIS_HASH h)" "hashed_text h p e s" for p e s
  proof -
    have "CHR 0x0A \<in> set s" using that(2) by (auto simp: hashed_text_def chain_text_def)
    with nl have "s \<noteq> genesis_text" by blast
    with that show ?thesis
      by (auto simp: collision_def computeNextHash_def hashed_text_def bindE_eq_Inr AUDIT_GENESIS_HASH_def)
  qed
  have "list_all2 (\<lambda>e f. event_form h e = event_form h f) es fs \<or>
    (\<exists>s \<in> insert genesis_text (event_chain.texts (computeNextHash h) (hashed_text h) (AUDIT_GENESIS_HASH h) es).
     \<exists>t \<in> insert genesis_text (event_chain.texts (computeNextHash h) (hashed_text h) (AUDIT_GENESIS_HASH h) fs).
       collision h s t)"
  proof (rule audit.head_binds [of h "AUDIT_GENESIS_HASH h" genesis_text])
    show "length d = length (AUDIT_GENESIS_HASH h)" if "computeNextHash h p e = Inr d" for p e d
      using digest_length [OF h that] genesis_length [OF h] by simp
  qed (use assms(2,3) fresh in \<open>simp_all only: chain_head_steps\<close>)
  moreover have "map (event_form h) es = map (event_form h) fs"
    if "list_all2 (\<lambda>e f. event_form h e = event_form h f) es fs"
    using that by (induction rule: list_all2_induct) auto
  ultimately show ?thesis unfolding hashed_texts_def by blast
qed

section \<open>Append and verify\<close>

text \<open>The abstraction: a well-formed log holds the chain of its events.\<close>

definition log_ok :: "host \<Rightarrow> hash_log \<Rightarrow> bool" where
  "log_ok h lg = (log_verify h lg = Inr True)"

definition log_events :: "hash_log \<Rightarrow> jsval list" where
  "log_events lg = map ce_event (chain lg)"

lemma verify_links_append:
  "verify_links h p (es @ fs) =
     bindE (verify_links h p es) (\<lambda>q. case q of None \<Rightarrow> Inr None | Some q \<Rightarrow> verify_links h q fs)"
proof (induction es arbitrary: p)
  case (Cons e es)
  then show ?case by (cases "computeNextHash h (ce_prev_hash e) (ce_event e)") auto
qed simp

lemma verify_links_head:
  "verify_links h p es = Inr (Some q) \<Longrightarrow> chain_head h p (map ce_event es) = Inr q"
  by (induction es arbitrary: p) (auto simp: bindE_eq_Inr split: if_splits)

lemma log_ok_new: "log_ok h (new_log h)"
  by (simp add: log_ok_def new_log_def log_verify_def)

lemma log_ok_append:
  assumes "log_ok h lg" and "log_append h lg e = Inr (d, lg')"
  shows "log_ok h lg'" and "log_events lg' = log_events lg @ [e]" and "headHash lg' = d"
  using assms
  by (auto simp: log_ok_def log_verify_def log_append_def Let_def bindE_eq_Inr verify_links_append
      log_events_def headHash_def)

lemma log_ok_head: "log_ok h lg \<Longrightarrow> chain_head h (AUDIT_GENESIS_HASH h) (log_events lg) = Inr (headHash lg)"
  by (auto simp: log_ok_def log_verify_def bindE_eq_Inr log_events_def headHash_def verify_links_head)

text \<open>An entry that was appended is readable: \<open>structuredClone\<close> never throws on it.\<close>

lemma canonical_no_function: "canonicalizeToJson h v = Inr s \<Longrightarrow> \<not> has_function v"
proof (induction v arbitrary: s rule: has_function.induct)
  case (2 xs)
  then show ?case by (auto simp: bindE_eq_Inr list_ex_iff dest!: mapE_InrD)
next
  case (3 kvs)
  note canon = "3.prems" [unfolded canon_obj [OF canon_obj_distinct [OF "3.prems"]]]
  have "\<not> has_function v" if kv: "(k, v) \<in> set kvs" for k v
  proof -
    have "(nfc h k, v) \<in> set (sort_key fst (normalizeEntries h kvs))"
      using kv by (force simp: normalizeEntries_def)
    with canon obtain t where "canon_entry h (nfc h k, v) = Inr t"
      by (auto simp: bindE_eq_Inr dest!: mapE_InrD)
    then obtain u where "canonicalizeToJson h v = Inr u"
      by (auto simp: canon_entry_def bindE_eq_Inr split: if_splits)
    with "3.IH" kv show ?thesis by blast
  qed
  then show ?case by (auto simp: list_ex_iff)
qed simp_all

end
