(* ===== verification/Signatures.thy ===== *)
theory Signatures
  imports Types
begin

text \<open>
  \<open>crypto/signatures.ts\<close>, \<open>crypto/sign.ts\<close> and \<open>crypto/verify.ts\<close>: domain-separated signing
  inputs, Ed25519 and HMAC verification with their fail-closed guards, and key lookup. The
  primitives are parameters (record \<open>host\<close>); everything around them is written out.
\<close>

section \<open>Signing domains\<close>

datatype signing_domain = AUTH_V1 | ENVELOPE_V1 | CHECKPOINT_V1 | DELEGATION_V1 | KRL_V1

fun domain_str :: "signing_domain \<Rightarrow> string" where
  "domain_str AUTH_V1 = ''OXDEAI_AUTH_V1''"
| "domain_str ENVELOPE_V1 = ''OXDEAI_ENVELOPE_V1''"
| "domain_str CHECKPOINT_V1 = ''OXDEAI_CHECKPOINT_V1''"
| "domain_str DELEGATION_V1 = ''OXDEAI_DELEGATION_V1''"
| "domain_str KRL_V1 = ''OXDEAI_KRL_V1''"

definition signatureInput :: "host \<Rightarrow> signing_domain \<Rightarrow> jsval \<Rightarrow> string res" where
  "signatureInput h domain payload =
     bindE (canonicalJson h payload) (\<lambda>body. Inr (domain_str domain @ CHR 0x0A # body))"

lemma domain_no_newline: "CHR 0x0A \<notin> set (domain_str d)"
  by (cases d) simp_all

lemma domain_str_inject: "domain_str d = domain_str e \<longleftrightarrow> d = e"
  by (cases d; cases e) simp_all

lemma append_sep_inject:
  "x \<notin> set as \<Longrightarrow> x \<notin> set bs \<Longrightarrow> as @ x # cs = bs @ x # ds \<longleftrightarrow> as = bs \<and> cs = ds"
proof (induction as arbitrary: bs)
  case Nil
  then show ?case by (cases bs) auto
next
  case (Cons a as)
  then show ?case by (cases bs) auto
qed

lemma signatureInput_binds:
  assumes "signatureInput h d v = Inr m" and "signatureInput h e w = Inr m"
  shows "d = e \<and> nform h v = nform h w"
proof -
  obtain s t where s: "canonicalJson h v = Inr s" and t: "canonicalJson h w = Inr t"
    and m: "domain_str d @ CHR 0x0A # s = domain_str e @ CHR 0x0A # t"
    using assms by (auto simp: signatureInput_def bindE_eq_Inr)
  have "d = e \<and> s = t"
    using m domain_no_newline by (simp add: append_sep_inject domain_str_inject)
  with s t show ?thesis using canonical_determines by blast
qed

section \<open>Ed25519\<close>

definition normalizePem :: "string \<Rightarrow> string" where
  "normalizePem key = (if contains_sub key ''BEGIN'' then key else b64_decode key)"

definition signEd25519 :: "host \<Rightarrow> signing_domain \<Rightarrow> jsval \<Rightarrow> string \<Rightarrow> string res" where
  "signEd25519 h domain payload privateKeyPem =
     bindE (signatureInput h domain payload) (\<lambda>m.
     bindE (ed_sign h (normalizePem privateKeyPem) m) (\<lambda>sig. Inr (to_base64 sig)))"

definition SMALL_ORDER_ED25519 :: "string list" where
  "SMALL_ORDER_ED25519 =
     [''0000000000000000000000000000000000000000000000000000000000000000'',
      ''0000000000000000000000000000000000000000000000000000000000000080'',
      ''0100000000000000000000000000000000000000000000000000000000000000'',
      ''0100000000000000000000000000000000000000000000000000000000000080'',
      ''26e8958fc2b227b045c3f489f2ef98f0d5dfac05d3c63339b13802886d53fc05'',
      ''26e8958fc2b227b045c3f489f2ef98f0d5dfac05d3c63339b13802886d53fc85'',
      ''c7176a703d4dd84fba3c0b760d10670f2a2053fa2c39ccc64ec7fd7792ac037a'',
      ''c7176a703d4dd84fba3c0b760d10670f2a2053fa2c39ccc64ec7fd7792ac03fa'',
      ''ecffffffffffffffffffffffffffffffffffffffffffffffffffffffffffff7f'',
      ''ecffffffffffffffffffffffffffffffffffffffffffffffffffffffffffffff'',
      ''edffffffffffffffffffffffffffffffffffffffffffffffffffffffffffff7f'',
      ''edffffffffffffffffffffffffffffffffffffffffffffffffffffffffffffff'',
      ''eeffffffffffffffffffffffffffffffffffffffffffffffffffffffffffff7f'',
      ''eeffffffffffffffffffffffffffffffffffffffffffffffffffffffffffffff'']"

text \<open>\<open>try \{ ... \} catch \{ return false \}\<close>\<close>

definition try_false :: "bool res \<Rightarrow> bool" where
  "try_false m = (case m of Inr b \<Rightarrow> b | Inl _ \<Rightarrow> False)"

lemma try_false_iff: "try_false m \<longleftrightarrow> m = Inr True"
  by (cases m) (auto simp: try_false_def)

definition isSmallOrderEd25519Pem :: "host \<Rightarrow> string \<Rightarrow> bool" where
  "isSmallOrderEd25519Pem h pem =
     (case wire_key h (normalizePem pem) of
        Inl _ \<Rightarrow> True
      | Inr None \<Rightarrow> True
      | Inr (Some hex) \<Rightarrow> hex \<in> set SMALL_ORDER_ED25519)"

definition verifyEd25519 :: "host \<Rightarrow> signing_domain \<Rightarrow> jsval \<Rightarrow> jsval \<Rightarrow> string \<Rightarrow> bool" where
  "verifyEd25519 h domain payload sigB64 pem =
     (case sigB64 of
        JStr s \<Rightarrow>
          (let sig = b64_decode s
           in if length sig \<noteq> 64 \<or> to_base64 sig \<noteq> s then False
              else try_false (bindE (wire_key h (normalizePem pem)) (\<lambda>wire.
                     case wire of
                       None \<Rightarrow> Inr False
                     | Some hex \<Rightarrow>
                         if hex \<in> set SMALL_ORDER_ED25519 then Inr False
                         else bindE (signatureInput h domain payload) (\<lambda>m.
                                ed_verify h (normalizePem pem) m sig))))
      | _ \<Rightarrow> False)"

section \<open>HMAC\<close>

definition signHmacDomain :: "host \<Rightarrow> signing_domain \<Rightarrow> jsval \<Rightarrow> string \<Rightarrow> string res" where
  "signHmacDomain h domain payload secret =
     bindE (signatureInput h domain payload) (\<lambda>m. Inr (hmac_sha256 h secret m))"

text \<open>\<open>Buffer.from(s, "hex")\<close>: whole pairs up to the first character that is no hex digit.\<close>

fun hex_bytes :: "string \<Rightarrow> string" where
  "hex_bytes (a # b # r) =
     (case (hex_val a, hex_val b) of
        (Some x, Some y) \<Rightarrow> char_of (16 * x + y) # hex_bytes r
      | _ \<Rightarrow> [])"
| "hex_bytes _ = []"

fun hex_buf :: "jsval \<Rightarrow> string res" where
  "hex_buf (JStr s) = Inr (hex_bytes s)"
| "hex_buf _ = Inl TypeError"

definition verifyHmacDomain :: "host \<Rightarrow> signing_domain \<Rightarrow> jsval \<Rightarrow> jsval \<Rightarrow> string \<Rightarrow> bool" where
  "verifyHmacDomain h domain payload signatureHex secret =
     try_false (bindE (signHmacDomain h domain payload secret) (\<lambda>expected.
       let a = hex_bytes expected
       in bindE (hex_buf signatureHex) (\<lambda>b.
            if length a = 0 \<or> length a \<noteq> length b then Inr False else Inr (a = b))))"

definition engineSignHmac :: "host \<Rightarrow> jsval \<Rightarrow> string \<Rightarrow> string res" where
  "engineSignHmac h payload secret = bindE (canonicalJson h payload) (\<lambda>msg. Inr (hmac_sha256 h secret msg))"

definition engineVerifyHmac :: "host \<Rightarrow> jsval \<Rightarrow> jsval \<Rightarrow> string \<Rightarrow> bool" where
  "engineVerifyHmac h payload signatureHex secret =
     try_false (bindE (engineSignHmac h payload secret) (\<lambda>expected.
       let a = hex_bytes expected
       in bindE (hex_buf signatureHex) (\<lambda>b.
            if length a \<noteq> length b then Inr False else Inr (a = b))))"

section \<open>Keys\<close>

datatype sig_alg = Ed25519 | HMAC_SHA256

fun alg_str :: "sig_alg \<Rightarrow> string" where
  "alg_str Ed25519 = ''Ed25519''"
| "alg_str HMAC_SHA256 = ''HMAC-SHA256''"

datatype key_status = Active | Retired | Revoked

record keyset_key =
  key_kid :: string
  key_alg :: sig_alg
  public_key :: string
  key_status :: "key_status option"
  not_before :: "jsnum option"
  not_after :: "jsnum option"

record keyset =
  ks_issuer :: string
  ks_version :: string
  ks_keys :: "keyset_key list"

definition findKeyInKeySets :: "keyset list \<Rightarrow> jsval \<Rightarrow> jsval \<Rightarrow> sig_alg \<Rightarrow> keyset_key option" where
  "findKeyInKeySets keysets issuer kid alg =
     (case find (\<lambda>k. issuer = JStr (ks_issuer k)) keysets of
        None \<Rightarrow> None
      | Some ks \<Rightarrow> find (\<lambda>k. kid = JStr (key_kid k) \<and> key_alg k = alg) (ks_keys ks))"

definition keyIsActiveAt :: "keyset_key \<Rightarrow> jsnum \<Rightarrow> bool" where
  "keyIsActiveAt key now =
     (if key_status key = Some Revoked then False
      else if (\<exists>b. not_before key = Some b \<and> num_lt now b) then False
      else if (\<exists>a. not_after key = Some a \<and> num_lt a now) then False
      else True)"

lemma keyIsActiveAt_code [code]:
  "keyIsActiveAt key now =
     (key_status key \<noteq> Some Revoked \<and>
      (case not_before key of None \<Rightarrow> True | Some b \<Rightarrow> \<not> num_lt now b) \<and>
      (case not_after key of None \<Rightarrow> True | Some a \<Rightarrow> \<not> num_lt a now))"
  by (auto simp: keyIsActiveAt_def split: option.splits)

section \<open>What a verifier reports\<close>

text \<open>
  \<open>VerificationMode\<close> and \<open>VerificationCoverage\<close> of \<open>verification/types.ts\<close>: the configured posture, and
  the surface a cryptographic check was run against.
\<close>

datatype verification_mode = Strict | Permissive

datatype verification_coverage = AuthorizationV1Full | EngineHmacSubset | CovNone

section \<open>Laws\<close>

text \<open>What an accepted Ed25519 signature shows: canonical text of 64 bytes, a usable key.\<close>

lemma verifyEd25519_iff:
  "verifyEd25519 h d p v pem \<longleftrightarrow>
     (\<exists>sig wire m. v = JStr (to_base64 sig) \<and> length sig = 64 \<and>
        wire_key h (normalizePem pem) = Inr (Some wire) \<and> wire \<notin> set SMALL_ORDER_ED25519 \<and>
        signatureInput h d p = Inr m \<and> ed_verify h (normalizePem pem) m sig = Inr True)"
  (is "?lhs \<longleftrightarrow> ?rhs")
proof
  assume ?lhs
  then obtain s where "v = JStr s" "length (b64_decode s) = 64" "s = to_base64 (b64_decode s)"
    "try_false (bindE (wire_key h (normalizePem pem)) (\<lambda>wire.
                     case wire of
                       None \<Rightarrow> Inr False
                     | Some hex \<Rightarrow>
                         if hex \<in> set SMALL_ORDER_ED25519 then Inr False
                         else bindE (signatureInput h d p) (\<lambda>m.
                                ed_verify h (normalizePem pem) m (b64_decode s))))"
    by (auto simp: verifyEd25519_def Let_def split: jsval.splits if_splits)
  note f = this
  from f(4) obtain y where y: "wire_key h (normalizePem pem) = Inr y"
    and r: "(case y of None \<Rightarrow> Inr False
             | Some hex \<Rightarrow> if hex \<in> set SMALL_ORDER_ED25519 then Inr False
                 else bindE (signatureInput h d p) (\<lambda>m. ed_verify h (normalizePem pem) m (b64_decode s)))
           = Inr True"
    unfolding try_false_iff bindE_eq_Inr by blast
  from r obtain hex m where "y = Some hex" "hex \<notin> set SMALL_ORDER_ED25519" "signatureInput h d p = Inr m"
    "ed_verify h (normalizePem pem) m (b64_decode s) = Inr True"
    by (cases y) (auto simp: bindE_eq_Inr simp del: SMALL_ORDER_ED25519_def split: if_splits)
  with f(1-3) y show ?rhs by metis
next
  assume ?rhs
  then show ?lhs
    by (auto simp: verifyEd25519_def try_false_iff)
qed

text \<open>One signature of a message has one accepted text.\<close>

lemma verifyEd25519_text_unique:
  "verifyEd25519 h d p (JStr s) pem \<Longrightarrow> verifyEd25519 h d p (JStr t) pem \<Longrightarrow>
    b64_decode s = b64_decode t \<Longrightarrow> s = t"
  by (auto simp: verifyEd25519_iff)

lemma signEd25519_verifies:
  assumes "ed25519_ok h (normalizePem sk) (normalizePem pk)"
    and "wire_key h (normalizePem pk) = Inr (Some w)" and "w \<notin> set SMALL_ORDER_ED25519"
    and "signEd25519 h d p sk = Inr s"
  shows "verifyEd25519 h d p (JStr s) pk"
proof -
  obtain m sig where m: "signatureInput h d p = Inr m" and sig: "ed_sign h (normalizePem sk) m = Inr sig"
    and s: "s = to_base64 sig"
    using assms(4) by (auto simp: signEd25519_def bindE_eq_Inr)
  have "length sig = 64" "ed_verify h (normalizePem pk) m sig = Inr True"
    using assms(1)[unfolded ed25519_ok_def, THEN spec, of m] sig by auto
  with m s assms(2,3) show ?thesis by (auto simp: verifyEd25519_iff)
qed

lemma hex_val_lower: "is_lower_hex c \<Longrightarrow> hex_val c \<noteq> None"
  by (auto simp: is_lower_hex_def is_digit_def hex_val_def Let_def)

lemma hex_bytes_not_Nil: "list_all is_lower_hex s \<Longrightarrow> 2 \<le> length s \<Longrightarrow> hex_bytes s \<noteq> []"
proof -
  assume a: "list_all is_lower_hex s" and l: "2 \<le> length s"
  then obtain c d r where s: "s = c # d # r" by (cases s rule: hex_bytes.cases) auto
  with a have "hex_val c \<noteq> None" "hex_val d \<noteq> None" by (simp_all add: hex_val_lower)
  then show ?thesis by (auto simp: s)
qed

lemma hmac_roundtrip:
  assumes "hex_digests h" and "signHmacDomain h d p k = Inr s"
  shows "verifyHmacDomain h d p (JStr s) k"
proof -
  have "list_all is_lower_hex s" "length s = 64"
    using assms by (auto simp: signHmacDomain_def bindE_eq_Inr hex_digests_def)
  then have "hex_bytes s \<noteq> []" by (simp add: hex_bytes_not_Nil)
  with assms(2) show ?thesis by (simp add: verifyHmacDomain_def try_false_def)
qed

lemma engine_hmac_roundtrip: "engineSignHmac h p k = Inr s \<Longrightarrow> engineVerifyHmac h p (JStr s) k"
  by (simp add: engineVerifyHmac_def try_false_def)

text \<open>A revoked key is never active, and no key outside its validity interval is.\<close>

lemma keyIsActiveAtD:
  assumes "keyIsActiveAt key now"
  shows "key_status key \<noteq> Some Revoked" "not_before key = Some b \<Longrightarrow> \<not> num_lt now b"
    "not_after key = Some a \<Longrightarrow> \<not> num_lt a now"
  using assms by (auto simp: keyIsActiveAt_def split: if_splits)

lemma find_SomeD: "find P xs = Some x \<Longrightarrow> x \<in> set xs \<and> P x"
  by (metis find_Some_iff nth_mem)

lemma findKeyInKeySets_Some:
  assumes "findKeyInKeySets kss issuer kid alg = Some k"
  obtains ks where "ks \<in> set kss" "issuer = JStr (ks_issuer ks)" "k \<in> set (ks_keys ks)"
    "kid = JStr (key_kid k)" "key_alg k = alg"
proof -
  from assms obtain ks where ks: "find (\<lambda>k. issuer = JStr (ks_issuer k)) kss = Some ks"
    and k: "find (\<lambda>k. kid = JStr (key_kid k) \<and> key_alg k = alg) (ks_keys ks) = Some k"
    by (auto simp: findKeyInKeySets_def split: option.splits)
  from find_SomeD [OF ks] find_SomeD [OF k] show thesis using that by blast
qed

end
