(* ===== verification/Engine.thy ===== *)
theory Engine
  imports StateGuards Snapshot AuditLog Signatures
begin

text \<open>
  \<open>policy/PolicyEngine.ts\<close>. The object is the record \<open>engine\<close>, passed through every method; a method that
  may throw after it changed the object is a value of type \<open>'a run\<close>, which returns the object in either
  case. The state argument is a JavaScript value; \<open>evaluate\<close>, which assigns to it, returns it updated.
  The asynchronous adapters are queues of values that have been handed over and not yet delivered.
\<close>

section \<open>Computations on the engine\<close>

record engine_opts =
  o_policy_version :: string
  engine_secret :: jsval
  authorization_ttl_seconds :: jsval
  authorization_issuer :: "string option"
  authorization_audience :: "string option"
  authorization_signing_alg :: "sig_alg option"
  authorization_signing_kid :: "string option"
  authorization_private_key_pem :: "string option"
  maxClockSkewSeconds :: jsval
  maxIntentAgeSeconds :: jsval
  deny_mode :: "mode option"
  o_policyId :: "string option"
  strictDeterminism :: "bool option"
  checkpoint_every_n_events :: "jsnum option"
  has_stateStore :: bool
  has_auditSink :: bool
  autoPersist :: "bool option"

record engine =
  opts :: engine_opts
  authorizationTtl :: jsnum
  currentState :: "jsval option"
  auditEventCount :: nat
  audit :: hash_log
  auditSinkQueue :: "jsval list"
  auditSinkError :: "exn option"
  stateStoreQueue :: "jsval list"
  stateStoreError :: "exn option"

type_synonym 'a run = "engine \<Rightarrow> 'a res \<times> engine"

definition then_run :: "'a run \<Rightarrow> ('a \<Rightarrow> 'b run) \<Rightarrow> 'b run" where
  "then_run m f = (\<lambda>e. case m e of (Inl x, e') \<Rightarrow> (Inl x, e') | (Inr a, e') \<Rightarrow> f a e')"

definition lift_run :: "'a res \<Rightarrow> 'a run" where
  "lift_run r = (\<lambda>e. (r, e))"

lemma then_run_simps [simp]:
  "then_run (lift_run (Inr a)) f e = f a e"
  "then_run (lift_run (Inl x)) f e = (Inl x, e)"
  by (simp_all add: then_run_def lift_run_def)

lemma then_run_Inr:
  "then_run m f e = (Inr b, e'') \<longleftrightarrow> (\<exists>a e'. m e = (Inr a, e') \<and> f a e' = (Inr b, e''))"
  by (auto simp: then_run_def split: prod.splits sum.splits)

lemma lift_run_Inr [simp]: "lift_run r e = (Inr a, e') \<longleftrightarrow> r = Inr a \<and> e' = e"
  by (auto simp: lift_run_def)

section \<open>Options\<close>

definition ENGINE_VERSION :: string where
  "ENGINE_VERSION = ''unknown''"

definition DEFAULT_AUTHORIZATION_TTL_SECONDS :: jsnum where
  "DEFAULT_AUTHORIZATION_TTL_SECONDS = jint 60"

definition resolveAuthorizationTtlSeconds :: "jsval \<Rightarrow> jsnum res" where
  "resolveAuthorizationTtlSeconds v =
     (let ttl = (if v = JUndef then JNum DEFAULT_AUTHORIZATION_TTL_SECONDS else v)
      in if \<not> v_safe_integer ttl \<or> js_le ttl (JNum (jint 0))
         then Inl (Thrown ''authorization_ttl_seconds must be a positive finite safe integer (seconds)'')
         else Inr (to_number ttl))"

definition typeof_text :: "jsval \<Rightarrow> string" where
  "typeof_text v =
     (case v of JUndef \<Rightarrow> ''undefined'' | JNull \<Rightarrow> ''object'' | JBool _ \<Rightarrow> ''boolean'' | JNum _ \<Rightarrow> ''number''
      | JBig _ \<Rightarrow> ''bigint'' | JStr _ \<Rightarrow> ''string'' | JArr _ \<Rightarrow> ''object'' | JObj _ \<Rightarrow> ''object'' | JFun \<Rightarrow> ''function'')"

definition new_engine :: "host \<Rightarrow> engine_opts \<Rightarrow> engine res" where
  "new_engine h ops =
     (let secret_length = (case engine_secret ops of JStr s \<Rightarrow> Some (js_length s) | _ \<Rightarrow> None)
      in if secret_length = None \<or> the secret_length < 32
         then Inl (Thrown (''engine_secret must be a string of at least 32 characters (got ''
                @ (case secret_length of Some n \<Rightarrow> nat_str n @ '' chars'' | None \<Rightarrow> typeof_text (engine_secret ops))
                @ '')''))
         else bindE (assertProtocolSeconds (maxClockSkewSeconds ops) ''EngineOptions.maxClockSkewSeconds'') (\<lambda>_.
              bindE (assertProtocolSeconds (maxIntentAgeSeconds ops) ''EngineOptions.maxIntentAgeSeconds'') (\<lambda>_.
              bindE (resolveAuthorizationTtlSeconds (authorization_ttl_seconds ops)) (\<lambda>ttl.
                Inr \<lparr>opts = ops, authorizationTtl = ttl, currentState = None, auditEventCount = 0,
                     audit = new_log h, auditSinkQueue = [], auditSinkError = None,
                     stateStoreQueue = [], stateStoreError = None\<rparr>))))"

definition secret_text :: "engine \<Rightarrow> string" where
  "secret_text e = (case engine_secret (opts e) of JStr s \<Rightarrow> s | _ \<Rightarrow> [])"

definition authorizationIssuer :: "engine \<Rightarrow> string" where
  "authorizationIssuer e = (case authorization_issuer (opts e) of Some s \<Rightarrow> s | None \<Rightarrow> ''oxdeai.policy-engine'')"

definition authorizationAudience :: "engine \<Rightarrow> string" where
  "authorizationAudience e =
     (case authorization_audience (opts e) of Some s \<Rightarrow> s | None \<Rightarrow> ''oxdeai.relying-party'')"

definition authorizationSigningAlg :: "engine \<Rightarrow> sig_alg" where
  "authorizationSigningAlg e =
     (case authorization_signing_alg (opts e) of Some a \<Rightarrow> a | None \<Rightarrow> HMAC_SHA256)"

definition authorizationSigningKid :: "engine \<Rightarrow> string" where
  "authorizationSigningKid e =
     (case authorization_signing_kid (opts e) of
        Some k \<Rightarrow> k
      | None \<Rightarrow> if authorizationSigningAlg e = Ed25519 then ''ed25519-default'' else ''hmac-default'')"

definition freshnessHorizon :: "engine \<Rightarrow> jsnum" where
  "freshnessHorizon e =
     (let horizon = num_add (to_number (maxIntentAgeSeconds (opts e))) (to_number (maxClockSkewSeconds (opts e)))
      in if is_safe_integer horizon then horizon else PInf)"

section \<open>Policy id and state hash\<close>

definition describeModules :: "module_entry list \<Rightarrow> jsval" where
  "describeModules mods =
     JArr (map (\<lambda>m. JObj [(''id'', JStr (m_id m)), (''version'', JNull)]) (sort_key (u16_key \<circ> m_id) mods))"

fun mode_str :: "mode \<Rightarrow> string" where
  "mode_str FailFast = ''fail-fast''"
| "mode_str CollectAll = ''collect-all''"

definition policy_description :: "host \<Rightarrow> engine \<Rightarrow> jsval" where
  "policy_description h e =
     JObj [(''engine'', JStr ''PolicyEngine''),
           (''engineVersion'', JStr ENGINE_VERSION),
           (''modules'', JObj [(''execute'', describeModules (EXECUTE_MODULES h)),
                               (''release'', describeModules RELEASE_MODULES)]),
           (''opts'', JObj [(''policy_version'', JStr (o_policy_version (opts e))),
                            (''authorization_ttl_seconds'', JNum (authorizationTtl e)),
                            (''deny_mode'', JStr (mode_str (case deny_mode (opts e) of Some m \<Rightarrow> m | None \<Rightarrow> FailFast))),
                            (''strict'', JBool (strictDeterminism (opts e) = Some True))])]"

definition computePolicyId :: "host \<Rightarrow> engine \<Rightarrow> string res" where
  "computePolicyId h e =
     (case o_policyId (opts e) of
        Some (c # s) \<Rightarrow> Inr (c # s)
      | _ \<Rightarrow> bindE (stableStringify h (policy_description h e)) (\<lambda>payload.
               case payload of None \<Rightarrow> Inl TypeError | Some s \<Rightarrow> Inr (sha256 h s)))"

definition computeStateHashFor :: "host \<Rightarrow> engine \<Rightarrow> jsval \<Rightarrow> string res" where
  "computeStateHashFor h e st =
     bindE (module_hashes h (sorted_codecs h) st) (\<lambda>moduleHashes.
     bindE (computePolicyId h e) (\<lambda>policyId.
     bindE (canonicalJson h (JObj [(''formatVersion'', JNum (jint 1)),
                                   (''engineVersion'', JStr ENGINE_VERSION),
                                   (''policyId'', JStr policyId),
                                   (''modules'', JObj moduleHashes)])) (\<lambda>bytes.
       Inr (sha256 h bytes))))"

definition current_or :: "engine \<Rightarrow> jsval option \<Rightarrow> string \<Rightarrow> jsval res" where
  "current_or e st method =
     (let current = coalesce (case st of Some v \<Rightarrow> v | None \<Rightarrow> JUndef)
                      (case currentState e of Some v \<Rightarrow> v | None \<Rightarrow> JUndef)
      in if truthy current then Inr current else Inl (Thrown (method @ '': engine has no current state'')))"

definition computeStateHash :: "host \<Rightarrow> engine \<Rightarrow> jsval option \<Rightarrow> string res" where
  "computeStateHash h e st = bindE (current_or e st ''computeStateHash'') (computeStateHashFor h e)"

definition exportState :: "host \<Rightarrow> engine \<Rightarrow> jsval option \<Rightarrow> jsval res" where
  "exportState h e st =
     bindE (current_or e st ''exportState'') (\<lambda>current.
     bindE (computePolicyId h e) (\<lambda>policyId.
       export_modules (sorted_codecs h) current (createCanonicalState ENGINE_VERSION (JObj []) policyId)))"

text \<open>\<open>importState(target, state)\<close> and \<open>importState(state)\<close>: the caller's target is returned as it ends up.\<close>

definition import_checks :: "host \<Rightarrow> engine \<Rightarrow> jsval \<Rightarrow> unit res" where
  "import_checks h e snapshot =
     bindE (propE snapshot ''formatVersion'') (\<lambda>v.
     if v \<noteq> JNum (jint 1)
     then Inl (Thrown (''importState: unsupported formatVersion='' @ js_string h v))
     else bindE (computePolicyId h e) (\<lambda>expected.
     bindE (propE snapshot ''policyId'') (\<lambda>pid.
     if pid \<noteq> JStr expected
     then Inl (Thrown (''importState: policyId mismatch (state='' @ js_string h pid @ '', engine='' @ expected @ '')''))
     else Inr ())))"

definition importState :: "host \<Rightarrow> engine \<Rightarrow> jsval option \<Rightarrow> jsval \<Rightarrow> unit res \<times> jsval option \<times> engine" where
  "importState h e arg snapshot =
     (case bindE (import_checks h e snapshot) (\<lambda>_.
             bindE (case arg of Some v \<Rightarrow> Inr v
                    | None \<Rightarrow> structuredClone (case currentState e of Some v \<Rightarrow> v | None \<Rightarrow> JUndef)) (\<lambda>tgt.
             if truthy tgt then Inr tgt
             else Inl (Thrown ''importState: engine has no mutable state target''))) of
        Inl x \<Rightarrow> (Inl x, arg, e)
      | Inr tgt \<Rightarrow>
          (let (r, tgt') = import_modules (sorted_codecs h) (getp snapshot ''modules'') tgt;
               arg' = (if arg = None then None else Some tgt')
           in case bindE r (\<lambda>_. structuredClone tgt') of
                Inl x \<Rightarrow> (Inl x, arg', e)
              | Inr c \<Rightarrow> (Inr (), arg', e\<lparr>currentState := Some c\<rparr>)))"

section \<open>Audit and adapters\<close>

definition emitAudit :: "host \<Rightarrow> jsval \<Rightarrow> unit run" where
  "emitAudit h event e =
     (case log_append h (audit e) event of
        Inl x \<Rightarrow> (Inl x, e)
      | Inr (_, lg) \<Rightarrow>
          (let e1 = e\<lparr>audit := lg, auditEventCount := auditEventCount e + 1\<rparr>
           in if \<not> has_auditSink (opts e) then (Inr (), e1)
              else case structuredClone event of
                     Inl x \<Rightarrow> (Inl x, e1)
                   | Inr queued \<Rightarrow> (Inr (), e1\<lparr>auditSinkQueue := auditSinkQueue e1 @ [queued]\<rparr>)))"

definition maybeEmitCheckpoint :: "host \<Rightarrow> string \<Rightarrow> jsnum \<Rightarrow> jsval \<Rightarrow> unit run" where
  "maybeEmitCheckpoint h policyId time st e =
     (case checkpoint_every_n_events (opts e) of
        None \<Rightarrow> (Inr (), e)
      | Some every \<Rightarrow>
          if \<not> is_integer every \<or> num_le every (jint 0) then (Inr (), e)
          else if int (auditEventCount e) mod int_of every \<noteq> 0 then (Inr (), e)
          else then_run (lift_run (computeStateHashFor h e st)) (\<lambda>stateHash.
                 emitAudit h (JObj [(''type'', JStr ''STATE_CHECKPOINT''), (''stateHash'', JStr stateHash),
                                    (''timestamp'', JNum time), (''policyId'', JStr policyId)])) e)"

text \<open>
  Delivering a queue to an adapter: \<open>deliver\<close> is the adapter's method on its own state. Every value is
  handed over once, in order; the first error is kept.
\<close>

fun deliver_all :: "('s \<Rightarrow> jsval \<Rightarrow> unit res \<times> 's) \<Rightarrow> jsval list \<Rightarrow> exn option \<Rightarrow> 's \<Rightarrow> exn option \<times> 's" where
  "deliver_all deliver [] err s = (err, s)"
| "deliver_all deliver (v # vs) err s =
     (case deliver s v of
        (Inr _, s') \<Rightarrow> deliver_all deliver vs err s'
      | (Inl x, s') \<Rightarrow> deliver_all deliver vs (if err = None then Some x else err) s')"

definition flushAudit :: "('s \<Rightarrow> jsval \<Rightarrow> unit res \<times> 's) \<Rightarrow> ('s \<Rightarrow> unit res \<times> 's) option \<Rightarrow> 's
    \<Rightarrow> engine \<Rightarrow> unit res \<times> engine \<times> 's" where
  "flushAudit deliver flush s e =
     (let (err, s1) = deliver_all deliver (auditSinkQueue e) (auditSinkError e) s;
          e1 = e\<lparr>auditSinkQueue := [], auditSinkError := err\<rparr>;
          (r, s2) = (case flush of Some f \<Rightarrow> if has_auditSink (opts e) then f s1 else (Inr (), s1)
                     | None \<Rightarrow> (Inr (), s1))
      in case r of
           Inl x \<Rightarrow> (Inl x, e1, s2)
         | Inr _ \<Rightarrow> (case err of None \<Rightarrow> (Inr (), e1, s2)
                     | Some x \<Rightarrow> (Inl x, e1\<lparr>auditSinkError := None\<rparr>, s2)))"

definition commitState :: "host \<Rightarrow> jsval \<Rightarrow> unit run" where
  "commitState h st e =
     (if \<not> has_stateStore (opts e) then (Inr (), e)
      else case exportState h e (Some st) of
             Inl x \<Rightarrow> (Inl x, e)
           | Inr snapshot \<Rightarrow> (Inr (), e\<lparr>stateStoreQueue := stateStoreQueue e @ [snapshot]\<rparr>))"

definition flushState :: "('s \<Rightarrow> jsval \<Rightarrow> unit res \<times> 's) \<Rightarrow> 's \<Rightarrow> engine \<Rightarrow> unit res \<times> engine \<times> 's" where
  "flushState deliver s e =
     (let (err, s1) = deliver_all deliver (stateStoreQueue e) (stateStoreError e) s;
          e1 = e\<lparr>stateStoreQueue := [], stateStoreError := err\<rparr>
      in case err of None \<Rightarrow> (Inr (), e1, s1) | Some x \<Rightarrow> (Inl x, e1\<lparr>stateStoreError := None\<rparr>, s1))"

end
