(* ===== verification/Evaluate.thy ===== *)
theory Evaluate
  imports Engine
begin

text \<open>
  The evaluation methods of \<open>policy/PolicyEngine.ts\<close>: \<open>evaluatePure\<close>, cut into the steps of its body in
  the order the code has them, \<open>evaluate\<close>, \<open>simulateSequence\<close>, the engine's own \<open>verifyAuthorization\<close>,
  and \<open>replay/ReplayEngine.ts\<close>, which folds \<open>evaluatePure\<close> over a list of intents.
\<close>

datatype pure_output = PAllow jsval jsval | PDeny "reason list"  \<comment> \<open>authorization and next state\<close>

datatype eval_output = OAllow jsval | ODeny "reason list"

section \<open>Before the trusted body\<close>

definition validateIntent :: "intent \<Rightarrow> reason option" where
  "validateIntent i =
     (if amount i < 0 then Some INTENT_AMOUNT_INVALID
      else if itype i = Some RELEASE \<and> (authorization_id i = None \<or> authorization_id i = Some [])
      then Some STATE_INVALID
      else None)"

definition validateStateForIntent :: "jsval \<Rightarrow> intent \<Rightarrow> reason option res" where
  "validateStateForIntent st i =
     (if \<not> isRuntimeState st then Inr (Some STATE_INVALID)
      else bindE (validateNumericLeaves st (agent_id i)) (\<lambda>leaves.
             Inr (if leaves \<noteq> None then Some STATE_INVALID else None)))"

definition precheck :: "engine \<Rightarrow> intent \<Rightarrow> jsval \<Rightarrow> jsnum \<Rightarrow> reason option res" where
  "precheck e i st t =
     (case validateIntent i of
        Some r \<Rightarrow> Inr (Some r)
      | None \<Rightarrow> bindE (validateStateForIntent st i) (\<lambda>v.
          case v of
            Some r \<Rightarrow> Inr (Some r)
          | None \<Rightarrow>
              if getp st ''policy_version'' \<noteq> JStr (o_policy_version (opts e))
              then Inr (Some POLICY_VERSION_MISMATCH)
              else bindE (assertProtocolSeconds (JNum t) ''evaluationTime'') (\<lambda>_.
                if num_lt (num_sub (jint max_safe) (authorizationTtl e)) t
                then Inl (Thrown ''evaluationTime + authorization_ttl_seconds must be a safe integer (unix seconds)'')
                else Inr None)))"

section \<open>Audit events\<close>

definition event_intent :: "string \<Rightarrow> intent \<Rightarrow> jsnum \<Rightarrow> string \<Rightarrow> jsval" where
  "event_intent intent_hash i t policyId =
     JObj [(''type'', JStr ''INTENT_RECEIVED''), (''intent_hash'', JStr intent_hash),
           (''agent_id'', JStr (agent_id i)), (''timestamp'', JNum t), (''policyId'', JStr policyId)]"

definition event_decision :: "string \<Rightarrow> string \<Rightarrow> reason list \<Rightarrow> jsval \<Rightarrow> jsnum \<Rightarrow> string \<Rightarrow> jsval" where
  "event_decision intent_hash decision reasons version t policyId =
     JObj [(''type'', JStr ''DECISION''), (''intent_hash'', JStr intent_hash), (''decision'', JStr decision),
           (''reasons'', JArr (map (JStr \<circ> reason_str) reasons)), (''policy_version'', version),
           (''timestamp'', JNum t), (''policyId'', JStr policyId)]"

definition event_auth :: "string \<Rightarrow> string \<Rightarrow> jsnum \<Rightarrow> jsnum \<Rightarrow> string \<Rightarrow> jsval" where
  "event_auth authId intent_hash expires_at t policyId =
     JObj [(''type'', JStr ''AUTH_EMITTED''), (''authorization_id'', JStr authId),
           (''intent_hash'', JStr intent_hash), (''expires_at'', JNum expires_at), (''timestamp'', JNum t),
           (''policyId'', JStr policyId)]"

section \<open>Leases\<close>

text \<open>
  \<open>\{ ...w, concurrency: \{ ...w.concurrency, active_auths: \{ ...w.concurrency.active_auths, [agent]: m \} \} \}\<close>
\<close>

definition assign_leases :: "jsval \<Rightarrow> string \<Rightarrow> jsval \<Rightarrow> jsval res" where
  "assign_leases w agent m =
     bindE (pathE w [''concurrency'', ''active_auths'']) (\<lambda>a.
       Inr (spread_set w ''concurrency''
              (spread_set (getp w ''concurrency'') ''active_auths'' (spread_set a agent m))))"

definition materialize_leases :: "intent \<Rightarrow> jsval \<Rightarrow> jsnum \<Rightarrow> jsval \<Rightarrow> jsval res" where
  "materialize_leases i st t w =
     bindE (computeConcurrencyLeases i st t) (\<lambda>leases.
       case leases of None \<Rightarrow> Inr w | Some l \<Rightarrow> assign_leases w (agent_id i) (JObj (auths l)))"

definition add_lease :: "intent \<Rightarrow> string \<Rightarrow> jsnum \<Rightarrow> jsval \<Rightarrow> jsval res" where
  "add_lease i authId expiry w =
     bindE (pathE w [''concurrency'', ''active_auths'']) (\<lambda>a.
       assign_leases w (agent_id i)
         (spread_set (coalesce (getp a (agent_id i)) (JObj [])) authId (JObj [(''expires_at'', JNum expiry)])))"

section \<open>The authorization\<close>

definition engine_payload :: "jsval \<Rightarrow> jsval \<Rightarrow> jsval \<Rightarrow> jsval \<Rightarrow> jsval" where
  "engine_payload intent_hash version snapshot_hash expires_at =
     JObj [(''intent_hash'', intent_hash), (''policy_version'', version),
           (''state_snapshot_hash'', snapshot_hash), (''decision'', JStr ''ALLOW''), (''expires_at'', expires_at)]"

definition core_payload :: "engine \<Rightarrow> intent \<Rightarrow> string \<Rightarrow> string \<Rightarrow> string \<Rightarrow> jsnum \<Rightarrow> jsnum \<Rightarrow> (string \<times> jsval) list" where
  "core_payload e i intent_hash state_hash policy_id issued_at expires_at =
     [(''auth_id'', JStr []), (''issuer'', JStr (authorizationIssuer e)),
      (''audience'', JStr (authorizationAudience e)), (''intent_hash'', JStr intent_hash),
      (''state_hash'', JStr state_hash), (''policy_id'', JStr policy_id), (''decision'', JStr ''ALLOW''),
      (''issued_at'', JNum issued_at), (''expiry'', JNum expires_at),
      (''alg'', JStr (alg_str (authorizationSigningAlg e))), (''kid'', JStr (authorizationSigningKid e)),
      (''nonce'', JStr (int_str (nonce i)))]
     @ (case action_type i of None \<Rightarrow> [] | Some a \<Rightarrow> [(''capability'', JStr a)])"

definition sign_core :: "host \<Rightarrow> engine \<Rightarrow> jsval \<Rightarrow> string res" where
  "sign_core h e authCore =
     (if authorizationSigningAlg e = Ed25519
      then case authorization_private_key_pem (opts e) of
             Some (c # pem) \<Rightarrow> signEd25519 h AUTH_V1 authCore (c # pem)
           | _ \<Rightarrow> Inl (Thrown ''authorization_private_key_pem is required for Ed25519 signing'')
      else signHmacDomain h AUTH_V1 authCore (secret_text e))"

definition authorization_fields :: "engine \<Rightarrow> intent \<Rightarrow> string \<Rightarrow> string \<Rightarrow> string \<Rightarrow> string \<Rightarrow> jsval \<Rightarrow> string
    \<Rightarrow> jsnum \<Rightarrow> jsnum \<Rightarrow> string \<Rightarrow> string \<Rightarrow> (string \<times> jsval) list" where
  "authorization_fields e i authId intent_hash state_hash policy_id version snapshot_hash issued_at expires_at
      sig engine_sig =
     [(''authorization_id'', JStr authId), (''auth_id'', JStr authId),
      (''issuer'', JStr (authorizationIssuer e)), (''audience'', JStr (authorizationAudience e)),
      (''intent_hash'', JStr intent_hash), (''state_hash'', JStr state_hash), (''policy_id'', JStr policy_id),
      (''policy_version'', version), (''state_snapshot_hash'', JStr snapshot_hash),
      (''decision'', JStr ''ALLOW''), (''issued_at'', JNum issued_at), (''expiry'', JNum expires_at),
      (''alg'', JStr (alg_str (authorizationSigningAlg e))), (''kid'', JStr (authorizationSigningKid e)),
      (''nonce'', JStr (int_str (nonce i))), (''signature'', JStr sig), (''expires_at'', JNum expires_at),
      (''engine_signature'', JStr engine_sig)]
     @ (case action_type i of None \<Rightarrow> [] | Some a \<Rightarrow> [(''capability'', JStr a)])"

record issued =
  iss_authorization :: jsval
  iss_id :: string
  iss_expires_at :: jsnum

definition issue :: "host \<Rightarrow> engine \<Rightarrow> intent \<Rightarrow> jsval \<Rightarrow> jsval \<Rightarrow> string \<Rightarrow> string \<Rightarrow> jsnum \<Rightarrow> issued res" where
  "issue h e i st w intent_hash policyId t =
     bindE (computeStateHashFor h e w) (\<lambda>snapshot_hash.
     let expires_at = num_add t (authorizationTtl e)
     in bindE (engineSignHmac h (engine_payload (JStr intent_hash) (getp st ''policy_version'')
                 (JStr snapshot_hash) (JNum expires_at)) (secret_text e)) (\<lambda>engine_sig.
        bindE (computeStateHashFor h e st) (\<lambda>state_hash.
        let core = core_payload e i intent_hash state_hash policyId t expires_at
        in bindE (sha256HexFromJson h (JObj (AList.update ''engine_signature'' (JStr engine_sig) core))) (\<lambda>authId.
           bindE (sign_core h e (JObj (AList.update ''auth_id'' (JStr authId) core))) (\<lambda>sig.
             Inr \<lparr>iss_authorization = JObj (authorization_fields e i authId intent_hash state_hash policyId
                    (getp st ''policy_version'') snapshot_hash t expires_at sig engine_sig),
                  iss_id = authId, iss_expires_at = expires_at\<rparr>)))))"

section \<open>\<open>evaluatePure\<close>\<close>

definition deny_with :: "host \<Rightarrow> string \<Rightarrow> string \<Rightarrow> jsval \<Rightarrow> jsnum \<Rightarrow> reason list \<Rightarrow> pure_output run" where
  "deny_with h intent_hash policyId st t reasons =
     then_run (emitAudit h (event_decision intent_hash ''DENY'' reasons (getp st ''policy_version'') t policyId)) (\<lambda>_.
     then_run (maybeEmitCheckpoint h policyId t st) (\<lambda>_.
       lift_run (Inr (PDeny reasons))))"

definition conclude :: "host \<Rightarrow> intent \<Rightarrow> string \<Rightarrow> string \<Rightarrow> jsval \<Rightarrow> jsnum \<Rightarrow> jsval \<Rightarrow> issued \<Rightarrow> pure_output run" where
  "conclude h i intent_hash policyId st t w iss =
     then_run (lift_run (if effective_type i = EXECUTE then add_lease i (iss_id iss) (iss_expires_at iss) w
                         else Inr w)) (\<lambda>nextState.
     then_run (emitAudit h (event_decision intent_hash ''ALLOW'' [] (getp st ''policy_version'') t policyId)) (\<lambda>_.
     then_run (emitAudit h (event_auth (iss_id iss) intent_hash (iss_expires_at iss) t policyId)) (\<lambda>_.
     then_run (maybeEmitCheckpoint h policyId t nextState) (\<lambda>_.
       lift_run (Inr (PAllow (iss_authorization iss) nextState))))))"

definition allow_with :: "host \<Rightarrow> intent \<Rightarrow> string \<Rightarrow> string \<Rightarrow> jsval \<Rightarrow> jsnum \<Rightarrow> jsval \<Rightarrow> pure_output run" where
  "allow_with h i intent_hash policyId st t permitted e =
     then_run (lift_run (bindE (materialize_leases i st t permitted) (\<lambda>w.
                 bindE (issue h e i st w intent_hash policyId t) (\<lambda>iss. Inr (w, iss)))))
       (\<lambda>(w, iss). conclude h i intent_hash policyId st t w iss) e"

definition inputs :: "engine \<Rightarrow> intent \<Rightarrow> jsval \<Rightarrow> jsnum \<Rightarrow> mode \<Rightarrow> decision_input" where
  "inputs e i st t mode =
     \<lparr>di_intent = i, di_state = st, di_time = t, di_horizon = Some (freshnessHorizon e), di_mode = mode\<rparr>"

definition decide :: "host \<Rightarrow> intent \<Rightarrow> string \<Rightarrow> string \<Rightarrow> jsval \<Rightarrow> jsnum \<Rightarrow> mode \<Rightarrow> pure_output run" where
  "decide h i intent_hash policyId st t mode e =
     then_run (lift_run (runDecisionModules (inputs e i st t mode) (engine_modules h i))) (\<lambda>decision.
       case decision of
         Refuse reasons _ \<Rightarrow> deny_with h intent_hash policyId st t reasons
       | Permit permitted \<Rightarrow> allow_with h i intent_hash policyId st t permitted) e"

definition gate :: "host \<Rightarrow> intent \<Rightarrow> string \<Rightarrow> string \<Rightarrow> jsval \<Rightarrow> jsnum \<Rightarrow> mode \<Rightarrow> pure_output run" where
  "gate h i intent_hash policyId st t mode e =
     then_run (lift_run (verifyTrustedTime (timestamp i) t (to_number (maxClockSkewSeconds (opts e)))
                 (to_number (maxIntentAgeSeconds (opts e))))) (\<lambda>freshness.
       case freshness of
         Deny reasons \<Rightarrow> deny_with h intent_hash policyId st t reasons
       | Allow _ \<Rightarrow> decide h i intent_hash policyId st t mode) e"

definition evaluate_body :: "host \<Rightarrow> intent \<Rightarrow> jsval \<Rightarrow> jsnum \<Rightarrow> mode \<Rightarrow> pure_output run" where
  "evaluate_body h i st t mode e =
     then_run (lift_run (bindE (intentHash h i) (\<lambda>intent_hash.
                 bindE (computePolicyId h e) (\<lambda>policyId. Inr (intent_hash, policyId)))))
       (\<lambda>(intent_hash, policyId).
     then_run (emitAudit h (event_intent intent_hash i t policyId)) (\<lambda>_.
       gate h i intent_hash policyId st t mode)) e"

definition evaluatePure :: "host \<Rightarrow> intent \<Rightarrow> jsval \<Rightarrow> jsnum \<Rightarrow> mode \<Rightarrow> pure_output run" where
  "evaluatePure h i st t mode e =
     (case precheck e i st t of
        Inl x \<Rightarrow> (Inl x, e)
      | Inr (Some r) \<Rightarrow> (Inr (PDeny [r]), e)
      | Inr None \<Rightarrow>
          (case evaluate_body h i st t mode e of
             (Inl _, e') \<Rightarrow> (Inr (PDeny [INTERNAL_ERROR]), e')
           | (Inr out, e') \<Rightarrow> (Inr out, e')))"

section \<open>\<open>evaluate\<close> and sequences\<close>

text \<open>\<open>Object.assign(state, nextState)\<close>\<close>

definition assign_all :: "jsval \<Rightarrow> jsval \<Rightarrow> jsval" where
  "assign_all st nx = JObj (foldl (\<lambda>acc (k, v). AList.update k v acc) (entries st) (entries nx))"

definition remember :: "host \<Rightarrow> jsval \<Rightarrow> 'a \<Rightarrow> 'a run" where
  "remember h st out e =
     (case structuredClone st of
        Inl x \<Rightarrow> (Inl x, e)
      | Inr c \<Rightarrow>
          (let e1 = e\<lparr>currentState := Some c\<rparr>
           in then_run (if autoPersist (opts e1) = Some True then commitState h st else lift_run (Inr ()))
                (\<lambda>_. lift_run (Inr out)) e1))"

text \<open>The second component is the caller's state object after the call.\<close>

definition evaluate :: "host \<Rightarrow> intent \<Rightarrow> jsval \<Rightarrow> jsnum \<Rightarrow> engine \<Rightarrow> eval_output res \<times> jsval \<times> engine" where
  "evaluate h i st t e =
     (case evaluatePure h i st t FailFast e of
        (Inl x, e') \<Rightarrow> (Inl x, st, e')
      | (Inr (PDeny rs), e') \<Rightarrow> (let (r, e'') = remember h st (ODeny rs) e' in (r, st, e''))
      | (Inr (PAllow a nx), e') \<Rightarrow>
          (let st' = assign_all st nx; (r, e'') = remember h st' (OAllow a) e' in (r, st', e'')))"

fun run_sequence :: "host \<Rightarrow> jsnum \<Rightarrow> mode \<Rightarrow> intent list \<Rightarrow> jsval \<Rightarrow> (pure_output list \<times> jsval) run" where
  "run_sequence h t mode [] working = lift_run (Inr ([], working))"
| "run_sequence h t mode (i # is) working =
     then_run (evaluatePure h i working t mode) (\<lambda>out.
     then_run (run_sequence h t mode is (case out of PAllow a nx \<Rightarrow> nx | PDeny _ \<Rightarrow> working)) (\<lambda>r.
       lift_run (Inr (out # fst r, snd r))))"

definition simulateSequence :: "host \<Rightarrow> intent list \<Rightarrow> jsnum \<Rightarrow> mode \<Rightarrow> (pure_output list \<times> jsval) run" where
  "simulateSequence h is t mode e =
     (case currentState e of
        None \<Rightarrow> (Inl (Thrown ''simulateSequence: engine has no current state''), e)
      | Some base \<Rightarrow>
          if \<not> truthy base then (Inl (Thrown ''simulateSequence: engine has no current state''), e)
          else then_run (lift_run (structuredClone base)) (run_sequence h t mode is) e)"

definition replay_intents :: "host \<Rightarrow> jsval \<Rightarrow> intent list \<Rightarrow> jsnum \<Rightarrow> mode \<Rightarrow> (pure_output list \<times> jsval) run" where
  "replay_intents h initialState is t mode =
     then_run (lift_run (structuredClone initialState)) (run_sequence h t mode is)"

section \<open>The engine's own verification\<close>

record engine_verification =
  valid :: bool
  ev_reason :: "reason option"
  ev_signatureVerified :: bool
  ev_mode :: verification_mode
  ev_coverage :: verification_coverage

definition ev_fail :: "reason \<Rightarrow> verification_coverage \<Rightarrow> engine_verification res" where
  "ev_fail r c = Inr \<lparr>valid = False, ev_reason = Some r, ev_signatureVerified = False, ev_mode = Permissive, ev_coverage = c\<rparr>"

text \<open>\<open>clock\<close> is the reading of \<open>Math.floor(Date.now() / 1000)\<close>, used when no time is passed.\<close>

definition verify_steps :: "host \<Rightarrow> engine \<Rightarrow> jsnum \<Rightarrow> intent \<Rightarrow> jsval \<Rightarrow> jsval \<Rightarrow> jsval \<Rightarrow> engine_verification res" where
  "verify_steps h e clock i auth st now =
     bindE (if \<not> nullish now then Inr now
            else if strictDeterminism (opts e) = Some True
            then Inl (Thrown ''strictDeterminism: 'now' must be provided (no Date.now fallback)'')
            else Inr (JNum clock)) (\<lambda>t.
     bindE (intentHash h i) (\<lambda>intent_hash.
     bindE (propE auth ''intent_hash'') (\<lambda>auth_hash.
     if JStr intent_hash \<noteq> auth_hash then ev_fail AUTH_INTENT_MISMATCH CovNone
     else let expires_at = getp auth ''expires_at''; expiry = getp auth ''expiry''
     in if \<not> v_safe_integer expires_at then ev_fail AUTH_SIGNATURE_INVALID CovNone
     else if expiry \<noteq> JUndef \<and> expiry \<noteq> expires_at then ev_fail AUTH_SIGNATURE_INVALID CovNone
     else if js_le expires_at t then ev_fail AUTH_EXPIRED CovNone
     else if getp auth ''decision'' \<noteq> JStr ''ALLOW'' then ev_fail AUTH_SIGNATURE_INVALID CovNone
     else bindE (propE st ''policy_version'') (\<lambda>version.
     if version \<noteq> getp auth ''policy_version'' then ev_fail POLICY_VERSION_MISMATCH CovNone
     else if \<not> engineVerifyHmac h (engine_payload (getp auth ''intent_hash'') (getp auth ''policy_version'')
                 (getp auth ''state_snapshot_hash'') expires_at)
               (getp auth ''engine_signature'') (secret_text e)
     then ev_fail AUTH_SIGNATURE_INVALID EngineHmacSubset
     else Inr \<lparr>valid = True, ev_reason = None, ev_signatureVerified = True, ev_mode = Permissive, ev_coverage = EngineHmacSubset\<rparr>))))"

definition engine_verifyAuthorization :: "host \<Rightarrow> engine \<Rightarrow> jsnum \<Rightarrow> intent \<Rightarrow> jsval \<Rightarrow> jsval \<Rightarrow> jsval
    \<Rightarrow> engine_verification" where
  "engine_verifyAuthorization h e clock i auth st now =
     (case verify_steps h e clock i auth st now of
        Inl _ \<Rightarrow> \<lparr>valid = False, ev_reason = Some INTERNAL_ERROR, ev_signatureVerified = False, ev_mode = Permissive, ev_coverage = CovNone\<rparr>
      | Inr r \<Rightarrow> r)"

end
