(* ===== verification/EngineLaws.thy ===== *)
theory EngineLaws
  imports Evaluate
begin

text \<open>
  What every evaluation of the engine keeps and what an ALLOW shows. \<open>same_setup\<close> is the part of the
  engine an evaluation never changes; \<open>evaluated_allowE\<close> reads a run that ended in ALLOW backwards, step by step.
\<close>

section \<open>What an evaluation leaves alone\<close>

definition same_setup :: "engine \<Rightarrow> engine \<Rightarrow> bool" where
  "same_setup e e' =
     (opts e' = opts e \<and> authorizationTtl e' = authorizationTtl e \<and> currentState e' = currentState e \<and>
      stateStoreQueue e' = stateStoreQueue e)"

lemma same_setup_refl [simp]: "same_setup e e"
  by (simp add: same_setup_def)

lemma same_setup_trans: "same_setup a b \<Longrightarrow> same_setup b c \<Longrightarrow> same_setup a c"
  by (simp add: same_setup_def)

definition keeps_setup :: "'a run \<Rightarrow> bool" where
  "keeps_setup m = (\<forall>e. same_setup e (snd (m e)))"

lemma keeps_lift [intro]: "keeps_setup (lift_run r)"
  by (simp add: keeps_setup_def lift_run_def)

lemma keeps_then [intro]:
  assumes "keeps_setup m" and "\<And>a. keeps_setup (f a)"
  shows "keeps_setup (then_run m f)"
  unfolding keeps_setup_def
proof
  fix e
  obtain r e1 where m: "m e = (r, e1)" by (cases "m e")
  with assms(1) have 1: "same_setup e e1" unfolding keeps_setup_def by (metis snd_conv)
  show "same_setup e (snd (then_run m f e))"
  proof (cases r)
    case (Inr a)
    have "same_setup e1 (snd (f a e1))" using assms(2) unfolding keeps_setup_def by blast
    with 1 m Inr show ?thesis by (simp add: then_run_def same_setup_trans [of e e1])
  qed (use m 1 in \<open>simp add: then_run_def\<close>)
qed

lemma keepsD: "keeps_setup m \<Longrightarrow> m e = (r, e') \<Longrightarrow> same_setup e e'"
  unfolding keeps_setup_def by (metis snd_conv)

lemma keeps_emitAudit: "keeps_setup (emitAudit h ev)"
  by (auto simp: keeps_setup_def emitAudit_def same_setup_def Let_def split: sum.splits)

lemma keeps_checkpoint: "keeps_setup (maybeEmitCheckpoint h p t st)"
proof -
  have "same_setup e (snd (maybeEmitCheckpoint h p t st e))" for e
  proof (cases "computeStateHashFor h e st")
    case (Inr d)
    have "same_setup e (snd (emitAudit h ev e))" for ev
      using keeps_emitAudit unfolding keeps_setup_def by blast
    with Inr show ?thesis by (auto simp: maybeEmitCheckpoint_def split: option.split)
  qed (auto simp: maybeEmitCheckpoint_def split: option.split)
  then show ?thesis by (simp add: keeps_setup_def)
qed

lemma keeps_deny: "keeps_setup (deny_with h ih p st t rs)"
  unfolding deny_with_def by (intro keeps_then keeps_emitAudit keeps_checkpoint keeps_lift)

text \<open>The pure steps read the options only.\<close>

lemma setup_computePolicyId:
  assumes "same_setup e e'"
  shows "computePolicyId h e' = computePolicyId h e"
proof -
  have d: "policy_description h e' = policy_description h e"
    using assms by (simp add: same_setup_def policy_description_def)
  have o: "o_policyId (opts e') = o_policyId (opts e)" using assms by (simp add: same_setup_def)
  show ?thesis unfolding computePolicyId_def d o by (rule refl)
qed

lemma setup_stateHash: "same_setup e e' \<Longrightarrow> computeStateHashFor h e' st = computeStateHashFor h e st"
  by (simp add: computeStateHashFor_def setup_computePolicyId)

lemma setup_fields:
  assumes "same_setup e e'"
  shows "authorizationIssuer e' = authorizationIssuer e" "authorizationAudience e' = authorizationAudience e"
    "authorizationSigningAlg e' = authorizationSigningAlg e" "authorizationSigningKid e' = authorizationSigningKid e"
    "secret_text e' = secret_text e" "authorizationTtl e' = authorizationTtl e"
    "freshnessHorizon e' = freshnessHorizon e" "opts e' = opts e"
  using assms
  by (simp_all add: same_setup_def authorizationIssuer_def authorizationAudience_def authorizationSigningAlg_def
      authorizationSigningKid_def secret_text_def freshnessHorizon_def)

lemma setup_authorization:
  assumes "same_setup e e'"
  shows "core_payload e' = core_payload e" "sign_core h e' = sign_core h e"
    "authorization_fields e' = authorization_fields e"
  using setup_fields [OF assms]
  by (simp_all add: fun_eq_iff core_payload_def sign_core_def authorization_fields_def)

lemma setup_issue:
  assumes "same_setup e e'"
  shows "issue h e' i st w ih p t = issue h e i st w ih p t"
  unfolding issue_def setup_stateHash [OF assms] setup_fields [OF assms] setup_authorization [OF assms]
  by (rule refl)

lemma setup_precheck: "same_setup e e' \<Longrightarrow> precheck e' i st t = precheck e i st t"
  by (simp add: precheck_def setup_fields)

section \<open>An ALLOW, read backwards\<close>

lemma inputs_context [simp]:
  "di_intent (inputs e i st t mode) = i" "di_state (inputs e i st t mode) = st"
  "di_context (inputs e i st t mode) = \<lparr>evaluationTime = t, freshnessHorizonSeconds = Some (freshnessHorizon e)\<rparr>"
  by (simp_all add: inputs_def di_context_def)

lemma allow_withE:
  assumes "allow_with h i ih p st t w e = (Inr out, e')"
  obtains w1 iss nx where "materialize_leases i st t w = Inr w1" "issue h e i st w1 ih p t = Inr iss"
    "nx = w1 \<and> effective_type i = RELEASE \<or>
     effective_type i = EXECUTE \<and> add_lease i (iss_id iss) (iss_expires_at iss) w1 = Inr nx"
    "out = PAllow (iss_authorization iss) nx"
proof -
  from assms obtain w1 iss where "materialize_leases i st t w = Inr w1" "issue h e i st w1 ih p t = Inr iss"
    and c: "conclude h i ih p st t w1 iss e = (Inr out, e')"
    unfolding allow_with_def then_run_Inr by (auto simp: bindE_eq_Inr)
  moreover from c obtain nx where
    "(if effective_type i = EXECUTE then add_lease i (iss_id iss) (iss_expires_at iss) w1 else Inr w1) = Inr nx"
    "out = PAllow (iss_authorization iss) nx"
    unfolding conclude_def then_run_Inr by auto
  ultimately show thesis using that by (cases "effective_type i") auto
qed

lemma deny_with_PDeny: "deny_with h ih p st t rs e = (Inr out, e') \<Longrightarrow> out = PDeny rs"
  unfolding deny_with_def then_run_Inr by auto

lemma decide_PAllowE:
  assumes "decide h i ih p st t mode e = (Inr (PAllow a nx), e')"
  obtains w where "runDecisionModules (inputs e i st t mode) (engine_modules h i) = Inr (Permit w)"
    "allow_with h i ih p st t w e = (Inr (PAllow a nx), e')"
proof -
  from assms obtain d where r: "runDecisionModules (inputs e i st t mode) (engine_modules h i) = Inr d"
    and c: "(case d of Refuse reasons _ \<Rightarrow> deny_with h ih p st t reasons
             | Permit permitted \<Rightarrow> allow_with h i ih p st t permitted) e = (Inr (PAllow a nx), e')"
    unfolding decide_def then_run_Inr lift_run_Inr by blast
  show thesis
  proof (cases d)
    case (Permit w)
    with r c that show thesis by simp
  next
    case (Refuse rs s)
    with c show thesis by (auto dest: deny_with_PDeny)
  qed
qed

lemma gate_PAllowE:
  assumes "gate h i ih p st t mode e = (Inr (PAllow a nx), e')"
  obtains "verifyTrustedTime (timestamp i) t (to_number (maxClockSkewSeconds (opts e)))
       (to_number (maxIntentAgeSeconds (opts e))) = Inr (Allow None)"
    "decide h i ih p st t mode e = (Inr (PAllow a nx), e')"
proof -
  from assms obtain r where r: "verifyTrustedTime (timestamp i) t (to_number (maxClockSkewSeconds (opts e)))
       (to_number (maxIntentAgeSeconds (opts e))) = Inr r"
    and c: "(case r of Deny reasons \<Rightarrow> deny_with h ih p st t reasons
             | Allow _ \<Rightarrow> decide h i ih p st t mode) e = (Inr (PAllow a nx), e')"
    unfolding gate_def then_run_Inr lift_run_Inr by blast
  from c obtain d where d: "r = Allow d" by (cases r) (auto dest: deny_with_PDeny)
  with r c have v: "verifyTrustedTime (timestamp i) t (to_number (maxClockSkewSeconds (opts e)))
       (to_number (maxIntentAgeSeconds (opts e))) = Inr (Allow d)"
    and "decide h i ih p st t mode e = (Inr (PAllow a nx), e')" by simp_all
  moreover have "d = None" using v by (auto elim: verifyTrustedTime_Allow)
  ultimately show thesis using that by simp
qed

lemma evaluated_allowE:
  assumes "evaluatePure h i st t mode e = (Inr (PAllow a nx), e')"
  obtains ih p w w1 iss where "precheck e i st t = Inr None" "intentHash h i = Inr ih" "computePolicyId h e = Inr p"
    "verifyTrustedTime (timestamp i) t (to_number (maxClockSkewSeconds (opts e)))
       (to_number (maxIntentAgeSeconds (opts e))) = Inr (Allow None)"
    "runDecisionModules (inputs e i st t mode) (engine_modules h i) = Inr (Permit w)"
    "materialize_leases i st t w = Inr w1" "issue h e i st w1 ih p t = Inr iss" "a = iss_authorization iss"
    "nx = w1 \<and> effective_type i = RELEASE \<or>
     effective_type i = EXECUTE \<and> add_lease i (iss_id iss) (iss_expires_at iss) w1 = Inr nx"
proof -
  from assms have pre: "precheck e i st t = Inr None" and body: "evaluate_body h i st t mode e = (Inr (PAllow a nx), e')"
    by (auto simp: evaluatePure_def split: sum.splits option.splits prod.splits)
  from body obtain ih p e1 where ih: "intentHash h i = Inr ih" and p: "computePolicyId h e = Inr p"
    and em: "emitAudit h (event_intent ih i t p) e = (Inr (), e1)"
    and g: "gate h i ih p st t mode e1 = (Inr (PAllow a nx), e')"
    unfolding evaluate_body_def then_run_Inr [of "lift_run _"] by (auto simp: bindE_eq_Inr then_run_Inr)
  have e1: "same_setup e e1" by (rule keepsD [OF keeps_emitAudit em])
  then have same: "opts e1 = opts e" "inputs e1 i st t mode = inputs e i st t mode"
    by (simp_all add: setup_fields inputs_def)
  from g show thesis
  proof (rule gate_PAllowE)
    assume v: "verifyTrustedTime (timestamp i) t (to_number (maxClockSkewSeconds (opts e1)))
       (to_number (maxIntentAgeSeconds (opts e1))) = Inr (Allow None)"
      and d: "decide h i ih p st t mode e1 = (Inr (PAllow a nx), e')"
    from d show thesis
    proof (rule decide_PAllowE)
      fix w assume w: "runDecisionModules (inputs e1 i st t mode) (engine_modules h i) = Inr (Permit w)"
        and al: "allow_with h i ih p st t w e1 = (Inr (PAllow a nx), e')"
      from al show thesis
      proof (rule allow_withE)
        fix w1 iss nx'
        assume "materialize_leases i st t w = Inr w1" "issue h e1 i st w1 ih p t = Inr iss"
          "nx' = w1 \<and> effective_type i = RELEASE \<or>
           effective_type i = EXECUTE \<and> add_lease i (iss_id iss) (iss_expires_at iss) w1 = Inr nx'"
          "PAllow a nx = PAllow (iss_authorization iss) nx'"
        with that [OF pre ih p] v w setup_issue [OF e1] same show thesis by auto
      qed
    qed
  qed
qed

section \<open>Every run keeps the setup\<close>

lemma keeps_at: "(\<And>e. keeps_setup (m e)) \<Longrightarrow> keeps_setup (\<lambda>e. m e e)"
  by (simp add: keeps_setup_def)

lemma keeps_conclude: "keeps_setup (conclude h i ih p st t w iss)"
  unfolding conclude_def by (intro keeps_then keeps_emitAudit keeps_checkpoint keeps_lift)

lemma keeps_allow: "keeps_setup (allow_with h i ih p st t w)"
  unfolding allow_with_def
  by (rule keeps_at) (auto intro!: keeps_then keeps_lift keeps_conclude)

lemma keeps_decide: "keeps_setup (decide h i ih p st t mode)"
  unfolding decide_def
  by (rule keeps_at) (auto intro!: keeps_then keeps_lift keeps_allow keeps_deny split: decision_result.split)

lemma keeps_gate: "keeps_setup (gate h i ih p st t mode)"
  unfolding gate_def
  by (rule keeps_at) (auto intro!: keeps_then keeps_lift keeps_decide keeps_deny split: policy_result.split)

lemma keeps_body: "keeps_setup (evaluate_body h i st t mode)"
  unfolding evaluate_body_def
  by (rule keeps_at) (auto intro!: keeps_then keeps_lift keeps_emitAudit keeps_gate)

lemma evaluatePure_setup: "evaluatePure h i st t mode e = (r, e') \<Longrightarrow> same_setup e e'"
  using keepsD [OF keeps_body]
  by (fastforce simp: evaluatePure_def split: sum.splits option.splits prod.splits)

end
