(* ===== verification/StateShape.thy ===== *)
theory StateShape
  imports EngineLaws
begin

text \<open>
  The shape of a well-typed state and what an ALLOW does to each slice of it: the slice of a module is
  its delta merged into the old slice, the leases are assigned on top, everything else stays. From
  this, an ALLOW leads from a well-shaped state to a well-shaped state.
\<close>

section \<open>Plain states\<close>

definition container_paths :: "string list list" where
  "container_paths =
     [[''budget''], [''budget'', ''spent_in_period''], [''velocity''], [''velocity'', ''counters''],
      [''replay''], [''replay'', ''nonces''], [''concurrency''], [''concurrency'', ''active''],
      [''concurrency'', ''active_auths''], [''tool_limits''], [''tool_limits'', ''calls'']]"

text \<open>A runtime state whose mutable containers are objects and no arrays, as \<open>types/state.ts\<close> declares.\<close>

definition plain_state :: "jsval \<Rightarrow> bool" where
  "plain_state st = (wf_js st \<and> isRuntimeState st \<and> list_all (\<lambda>p. is_plain (path st p)) container_paths)"

lemma nat_str_not_alpha: "\<not> is_digit c \<Longrightarrow> nat_str n \<noteq> c # s"
  by (metis list.set_intros(1) nat_str_digits)

lemma arr_index_alpha: "\<not> is_digit c \<Longrightarrow> arr_index xs (c # s) = None"
  by (auto simp: arr_index_def nat_str_not_alpha find_None_iff)

lemma runtime_is_plain:
  assumes "isRuntimeState st"
  shows "is_plain st"
proof -
  have "is_string (getp st ''policy_version'')" "is_object st"
    using runtime_objects [OF assms] by simp_all
  moreover have "\<not> is_digit CHR ''p''" by (simp add: is_digit_def)
  ultimately show ?thesis
    by (cases st) (auto simp: arr_index_alpha inherited_def object_prototype_def)
qed

lemma plain_stateD:
  assumes "plain_state st"
  shows "wf_js st" "isRuntimeState st" "is_plain st"
    "is_plain (path st [''budget''])" "is_plain (path st [''budget'', ''spent_in_period''])"
    "is_plain (path st [''velocity''])" "is_plain (path st [''velocity'', ''counters''])"
    "is_plain (path st [''replay''])" "is_plain (path st [''replay'', ''nonces''])"
    "is_plain (path st [''concurrency''])" "is_plain (path st [''concurrency'', ''active''])"
    "is_plain (path st [''concurrency'', ''active_auths''])"
    "is_plain (path st [''tool_limits''])" "is_plain (path st [''tool_limits'', ''calls''])"
  using assms runtime_is_plain [of st] by (simp_all add: plain_state_def container_paths_def)

section \<open>The checks before the body\<close>

lemma precheck_None:
  assumes "precheck e i st t = Inr None"
  shows "0 \<le> amount i" "itype i = Some RELEASE \<Longrightarrow> \<exists>c s. authorization_id i = Some (c # s)"
    "isRuntimeState st" "validateNumericLeaves st (agent_id i) = Inr None"
    "getp st ''policy_version'' = JStr (o_policy_version (opts e))"
    "isProtocolSeconds (JNum t)" "\<not> num_lt (num_sub (jint max_safe) (authorizationTtl e)) t"
proof -
  have v: "validateIntent i = None" and s: "validateStateForIntent st i = Inr None"
    and r: "getp st ''policy_version'' = JStr (o_policy_version (opts e))" "isProtocolSeconds (JNum t)"
      "\<not> num_lt (num_sub (jint max_safe) (authorizationTtl e)) t"
    using assms
    by (auto simp: precheck_def bindE_eq_Inr assertProtocolSeconds_def split: option.splits if_splits)
  from r show "getp st ''policy_version'' = JStr (o_policy_version (opts e))" "isProtocolSeconds (JNum t)"
      "\<not> num_lt (num_sub (jint max_safe) (authorizationTtl e)) t" .
  from s show "isRuntimeState st" "validateNumericLeaves st (agent_id i) = Inr None"
    by (auto simp: validateStateForIntent_def bindE_eq_Inr split: if_splits)
  from v show "0 \<le> amount i" by (auto simp: validateIntent_def split: if_splits)
  assume "itype i = Some RELEASE"
  with v have "authorization_id i \<noteq> None" "authorization_id i \<noteq> Some []"
    by (auto simp: validateIntent_def split: if_splits)
  then show "\<exists>c s. authorization_id i = Some (c # s)" by (metis neq_Nil_conv option.exhaust)
qed

section \<open>Leases\<close>

lemma assign_leasesE:
  assumes "assign_leases w a m = Inr w'"
  shows "getp w' ''concurrency'' =
      spread_set (getp w ''concurrency'') ''active_auths'' (spread_set (path w [''concurrency'', ''active_auths'']) a m)"
    and "is_plain w'" and "is_plain w \<Longrightarrow> k \<noteq> ''concurrency'' \<Longrightarrow> getp w' k = getp w k"
    and "wf_js w \<Longrightarrow> wf_js m \<Longrightarrow> wf_js w'"
proof -
  have w': "w' = spread_set w ''concurrency''
      (spread_set (getp w ''concurrency'') ''active_auths'' (spread_set (path w [''concurrency'', ''active_auths'']) a m))"
    using assms by (auto simp: assign_leases_def bindE_eq_Inr simp del: pathE.simps path.simps dest!: pathE_InrD)
  then show "is_plain w'" "getp w' ''concurrency'' =
      spread_set (getp w ''concurrency'') ''active_auths'' (spread_set (path w [''concurrency'', ''active_auths'']) a m)"
    "is_plain w \<Longrightarrow> k \<noteq> ''concurrency'' \<Longrightarrow> getp w' k = getp w k"
    by (simp_all add: getp_spread_set)
  show "wf_js w'" if "wf_js w" "wf_js m"
    unfolding w' by (intro wf_delta that)
qed

lemma materialize_cases:
  assumes "materialize_leases i st t w = Inr w1"
  obtains "w1 = w" "computeConcurrencyLeases i st t = Inr None"
  | l where "computeConcurrencyLeases i st t = Inr (Some l)"
      "assign_leases w (agent_id i) (JObj (auths l)) = Inr w1"
proof -
  obtain x where "computeConcurrencyLeases i st t = Inr x"
    "(case x of None \<Rightarrow> Inr w | Some l \<Rightarrow> assign_leases w (agent_id i) (JObj (auths l))) = Inr w1"
    using assms by (auto simp: materialize_leases_def bindE_eq_Inr)
  then show thesis using that by (cases x) auto
qed

lemma add_leaseE:
  assumes "add_lease i authId expiry w = Inr nx"
  shows "assign_leases w (agent_id i)
    (spread_set (coalesce (path w [''concurrency'', ''active_auths'', agent_id i]) (JObj [])) authId
      (JObj [(''expires_at'', JNum expiry)])) = Inr nx"
proof -
  obtain a where "pathE w [''concurrency'', ''active_auths''] = Inr a"
    and n: "assign_leases w (agent_id i)
      (spread_set (coalesce (getp a (agent_id i)) (JObj [])) authId (JObj [(''expires_at'', JNum expiry)])) = Inr nx"
    using assms by (auto simp: add_lease_def bindE_eq_Inr simp del: pathE.simps)
  then have "a = path w [''concurrency'', ''active_auths'']" by (simp only: pathE_InrD)
  with n show ?thesis by simp
qed

section \<open>Slices after an ALLOW\<close>

text \<open>The state before the leases are touched, and what the leases leave alone.\<close>

lemma allow_state:
  assumes "evaluatePure h i st t mode e = (Inr (PAllow a nx), e')" and "is_plain st"
  obtains w iss where
    "runDecisionModules (inputs e i st t mode) (engine_modules h i) = Inr (Permit w)" "is_plain w" "is_plain nx"
    "\<And>k. k \<noteq> ''concurrency'' \<Longrightarrow> getp nx k = getp w k"
    "wf_js st \<Longrightarrow> wf_js nx"
  using assms(1)
proof (rule evaluated_allowE)
  fix ih p w w1 iss
  assume r: "runDecisionModules (inputs e i st t mode) (engine_modules h i) = Inr (Permit w)"
    and m: "materialize_leases i st t w = Inr w1"
    and n: "nx = w1 \<and> effective_type i = RELEASE \<or>
     effective_type i = EXECUTE \<and> add_lease i (iss_id iss) (iss_expires_at iss) w1 = Inr nx"
  have st: "is_plain (di_state (inputs e i st t mode))" using assms(2) by simp
  have w: "is_plain w" "wf_js st \<Longrightarrow> wf_js w"
    using permit_slices(1,2) [OF r engine_modules_good st] by simp_all
  have w1: "is_plain w1 \<and> (\<forall>k. k \<noteq> ''concurrency'' \<longrightarrow> getp w1 k = getp w k) \<and> (wf_js st \<longrightarrow> wf_js w1)"
    using m
  proof (cases rule: materialize_cases)
    case (2 l)
    have "wf_js st \<Longrightarrow> wf_js w1" by (rule assign_leasesE(4) [OF 2(2) w(2) leases_wf [OF 2(1)]])
    with assign_leasesE(2,3) [OF 2(2)] w show ?thesis by blast
  qed (use w in simp)
  have "is_plain nx \<and> (\<forall>k. k \<noteq> ''concurrency'' \<longrightarrow> getp nx k = getp w1 k) \<and> (wf_js st \<longrightarrow> wf_js nx)"
    using n
  proof
    assume "effective_type i = EXECUTE \<and> add_lease i (iss_id iss) (iss_expires_at iss) w1 = Inr nx"
    then have a: "assign_leases w1 (agent_id i)
      (spread_set (coalesce (path w1 [''concurrency'', ''active_auths'', agent_id i]) (JObj [])) (iss_id iss)
        (JObj [(''expires_at'', JNum (iss_expires_at iss))])) = Inr nx" (is "assign_leases _ _ ?m = _")
      by (simp only: add_leaseE)
    have "wf_js ?m" if "wf_js st"
    proof -
      have "wf_js (path w1 [''concurrency'', ''active_auths'', agent_id i])" using w1 that by (intro wf_js_path) simp
      then show ?thesis by (intro wf_js_spread_set) (simp_all add: coalesce_def del: path.simps)
    qed
    with w1 assign_leasesE(2-4) [OF a] show ?thesis by blast
  qed (use w1 in simp)
  with w1 w r that show thesis by simp
qed

text \<open>Every module of the pipeline admitted; its slice is its delta merged into the old one.\<close>

abbreviation engine_ctx :: "engine \<Rightarrow> jsnum \<Rightarrow> eval_context" where
  "engine_ctx e t \<equiv> \<lparr>evaluationTime = t, freshnessHorizonSeconds = Some (freshnessHorizon e)\<rparr>"

lemma allow_module:
  assumes "evaluatePure h i st t mode e = (Inr (PAllow a nx), e')" and "is_plain st"
    and "m \<in> set (engine_modules h i)" and "m_id m \<noteq> ''ConcurrencyModule''"
  obtains d where "m_eval m i st (engine_ctx e t) = Inr (Allow d)"
    "getp nx (slice_of (m_id m)) = slice_after st (slice_of (m_id m)) d"
  using assms(1,2)
proof (rule allow_state)
  fix w
  assume r: "runDecisionModules (inputs e i st t mode) (engine_modules h i) = Inr (Permit w)"
    and k: "\<And>k. k \<noteq> ''concurrency'' \<Longrightarrow> getp nx k = getp w k"
  have "slice_of (m_id m) \<noteq> ''concurrency''"
    using assms(3,4) by (auto simp: engine_modules_def EXECUTE_MODULES_def RELEASE_MODULES_def slice_of_def split: if_splits)
  with k permit_slices(4) [OF r engine_modules_good _ assms(3)] assms(2) that show thesis by fastforce
qed

lemma allow_other:
  assumes "evaluatePure h i st t mode e = (Inr (PAllow a nx), e')" and "is_plain st"
    and "k \<notin> slice_of ` m_id ` set (engine_modules h i)"
  shows "getp nx k = getp st k"
  using assms(1,2)
proof (rule allow_state)
  fix w
  assume r: "runDecisionModules (inputs e i st t mode) (engine_modules h i) = Inr (Permit w)"
    and k: "\<And>k. k \<noteq> ''concurrency'' \<Longrightarrow> getp nx k = getp w k"
  have "''concurrency'' \<in> slice_of ` m_id ` set (engine_modules h i)"
    by (auto simp: engine_modules_def EXECUTE_MODULES_def RELEASE_MODULES_def slice_of_def)
  with assms(3) have "k \<noteq> ''concurrency''" by blast
  with k permit_slices(3) [OF r engine_modules_good] assms(2,3) show ?thesis by simp
qed

end
