(* ===== verification/Preservation.thy ===== *)
theory Preservation
  imports StateShape
begin

text \<open>
  An ALLOW keeps the state well-shaped. One lemma per module reads its slice after the ALLOW; together
  they show that the next state passes the runtime checks again.
\<close>

section \<open>Slices that grow in known places\<close>

definition slice_grows :: "jsval \<Rightarrow> jsval \<Rightarrow> string \<Rightarrow> string list \<Rightarrow> bool" where
  "slice_grows st nx s fs =
     (is_plain (getp nx s) \<and> (\<forall>f \<in> set fs. is_plain (path nx [s, f])) \<and>
      (\<forall>g. g \<notin> set fs \<longrightarrow> path nx [s, g] = path st [s, g]))"

lemma slice_grows_same:
  "getp nx s = getp st s \<Longrightarrow> is_plain (path st [s]) \<Longrightarrow> \<forall>f \<in> set fs. is_plain (path st [s, f]) \<Longrightarrow> slice_grows st nx s fs"
  by (simp add: slice_grows_def)

text \<open>The common delta: one container of the slice gets one entry.\<close>

lemma slice_merge:
  assumes "getp nx s = merge_val (getp st s) (spread_set (getp st s) f (spread_set (path st [s, f]) a x))"
    and "wf_js st" and "is_plain (path st [s])" and "is_plain (path st [s, f])"
  shows "slice_grows st nx s [f]"
    and "path nx [s, f, k] = (if k = a then merge_val (path st [s, f, a]) x else path st [s, f, k])"
proof -
  let ?d = "getp st s"
  have p: "is_plain ?d" "is_plain (getp ?d f)" "wf_js ?d"
    using assms by (simp_all add: wf_js_getp)
  have nx: "getp nx s = merge_val ?d (spread_set ?d f (spread_set (getp ?d f) a x))"
    using assms(1) by simp
  note look = getp_merge_slice(1) [OF p(1,3) is_plain_object [OF p(2)] disjI1 [OF p(2)], of a x k]
  show "path nx [s, f, k] = (if k = a then merge_val (path st [s, f, a]) x else path st [s, f, k])"
    using look p(2) by (simp add: nx)
  have f: "getp (getp nx s) f = merge_val (getp ?d f) (spread_set (getp ?d f) a x)"
    unfolding nx by (simp add: getp_merge_spread [OF p(1,3)])
  have "getp (getp nx s) g = getp ?d g" if "g \<noteq> f" for g
    unfolding nx using that by (simp add: getp_merge_spread [OF p(1,3)])
  with f p show "slice_grows st nx s [f]"
    by (auto simp: slice_grows_def nx is_plain_merge)
qed

section \<open>Module by module\<close>

lemmas module_lists = engine_modules_def EXECUTE_MODULES_def RELEASE_MODULES_def slice_of_def

abbreviation allows :: "host \<Rightarrow> engine \<Rightarrow> intent \<Rightarrow> jsval \<Rightarrow> jsnum \<Rightarrow> mode \<Rightarrow> jsval \<Rightarrow> jsval \<Rightarrow> engine \<Rightarrow> bool" where
  "allows h e i st t mode a nx e' \<equiv> evaluatePure h i st t mode e = (Inr (PAllow a nx), e')"

lemma allows_pre: "allows h e i st t mode a nx e' \<Longrightarrow> precheck e i st t = Inr None"
  by (elim evaluated_allowE)

lemma after_budget:
  assumes "allows h e i st t mode a nx e'" and "plain_state st" and "effective_type i = EXECUTE"
  obtains limit cap spent where "account st (agent_id i) limit cap spent"
    "0 \<le> amount i" "amount i \<le> cap" "spent + amount i \<le> limit"
    "getp nx ''budget'' = merge_val (getp st ''budget'') (spread_set (getp st ''budget'') ''spent_in_period''
      (spread_set (path st [''budget'', ''spent_in_period'']) (agent_id i) (JBig (spent + amount i))))"
proof -
  note st = plain_stateD [OF assms(2)]
  note pre = precheck_None [OF allows_pre [OF assms(1)]]
  note leaves = leavesD [OF pre(4)]
  obtain limit cap where "path st [''budget'', ''budget_limit'', agent_id i] = JBig limit"
    "path st [''max_amount_per_action'', agent_id i] = JBig cap" using leaves(1,3) by blast
  moreover obtain spent where "spent_of st (agent_id i) = Some spent"
    using leaves(2) unfolding spent_of_def by (auto simp del: path.simps)
  ultimately have acc: "account st (agent_id i) limit cap spent"
    using st(5) by (simp add: account_def is_plain_object)
  let ?m = "\<lparr>m_id = ''BudgetModule'', m_eval = BudgetModule h\<rparr>"
  have "?m \<in> set (engine_modules h i)" using assms(3) by (simp add: module_lists)
  from assms(1) st(3) this obtain d where d: "BudgetModule h i st (engine_ctx e t) = Inr (Allow d)"
    and nx: "getp nx ''budget'' = slice_after st ''budget'' d"
    by (rule allow_module) (simp_all add: slice_of_def)
  note ok = BudgetModule_Allow [OF d acc]
  show thesis
    by (rule that [OF acc ok(1-3)]) (simp add: nx ok(4) slice_after_def)
qed

lemma after_replay:
  assumes "allows h e i st t mode a nx e'" and "plain_state st"
  obtains d where "ReplayModule i st (engine_ctx e t) = Inr (Allow (Some d))"
    "getp nx ''replay'' = merge_val (getp st ''replay'') (getp d ''replay'')"
proof -
  let ?m = "\<lparr>m_id = ''ReplayModule'', m_eval = ReplayModule\<rparr>"
  have "?m \<in> set (engine_modules h i)" by (simp add: module_lists)
  from assms(1) plain_stateD(3) [OF assms(2)] this
  obtain d where d: "ReplayModule i st (engine_ctx e t) = Inr (Allow d)"
    and nx: "getp nx ''replay'' = slice_after st ''replay'' d"
    by (rule allow_module) (simp_all add: slice_of_def)
  from d obtain x where "d = Some x" by (auto elim: ReplayModule_AllowE)
  with d nx that show thesis by (simp add: slice_after_def)
qed

lemma grows_replay:
  assumes "allows h e i st t mode a nx e'" and "plain_state st"
  shows "slice_grows st nx ''replay'' [''nonces'']"
proof -
  note st = plain_stateD [OF assms(2)]
  obtain d where "ReplayModule i st (engine_ctx e t) = Inr (Allow (Some d))"
    and nx: "getp nx ''replay'' = merge_val (getp st ''replay'') (getp d ''replay'')"
    using assms by (rule after_replay)
  from this(1) obtain xs where "d = JObj [(''replay'', spread_set (getp st ''replay'') ''nonces''
       (spread_set (path st [''replay'', ''nonces'']) (agent_id i) (JArr xs)))]"
    by (auto elim!: ReplayModule_AllowE)
  with nx have "getp nx ''replay'' = merge_val (getp st ''replay'') (spread_set (getp st ''replay'') ''nonces''
       (spread_set (path st [''replay'', ''nonces'']) (agent_id i) (JArr xs)))" by simp
  then show ?thesis using st(1,8,9) by (rule slice_merge(1))
qed

lemma grows_budget:
  assumes "allows h e i st t mode a nx e'" and "plain_state st"
  shows "slice_grows st nx ''budget'' [''spent_in_period'']"
proof (cases "effective_type i")
  case EXECUTE
  note st = plain_stateD [OF assms(2)]
  obtain s where "getp nx ''budget'' = merge_val (getp st ''budget'') (spread_set (getp st ''budget'') ''spent_in_period''
      (spread_set (path st [''budget'', ''spent_in_period'']) (agent_id i) (JBig s)))"
    using after_budget [OF assms EXECUTE] by metis
  then show ?thesis using st(1,4,5) by (rule slice_merge(1))
next
  case RELEASE
  then have "getp nx ''budget'' = getp st ''budget''"
    using allow_other [OF assms(1) plain_stateD(3) [OF assms(2)]] by (simp add: module_lists)
  then show ?thesis using plain_stateD(4,5) [OF assms(2)] by (simp add: slice_grows_same)
qed

text \<open>The other modules of EXECUTE: each admits with no delta, or with one entry of its container.\<close>

lemma velocity_delta:
  assumes "VelocityModule i st c = Inr (Allow d)"
  obtains x where "d = Some (vel_delta (getp st ''velocity'') (agent_id i) x)"
  using assms by (auto simp: VelocityModule_def bindE_eq_Inr Let_def split: if_splits dest!: propE_InrD)

lemma toolcalls_delta:
  assumes "ToolAmplificationModule i st c = Inr (Allow d)"
  obtains "d = None" | es where "d = Some (JObj [(''tool_limits'', spread_set (getp st ''tool_limits'') ''calls''
       (spread_set (path st [''tool_limits'', ''calls'']) (agent_id i) (JArr es)))])"
proof (cases d)
  case (Some x)
  with assms show thesis
    using that(2) by (auto elim!: ToolAmplification_AllowE simp: tool_admit_def Let_def split: if_splits)
qed (use that in blast)

lemma allowlist_delta: "AllowlistModule h i st c = Inr (Allow d) \<Longrightarrow> d = None"
  by (auto simp: AllowlistModule_def bindE_eq_Inr Let_def split: if_splits)

lemma execute_module:
  assumes "allows h e i st t mode a nx e'" and "plain_state st" and "effective_type i = EXECUTE"
    and "m \<in> set (EXECUTE_MODULES h)" and "m_id m \<noteq> ''ConcurrencyModule''"
  obtains d where "m_eval m i st (engine_ctx e t) = Inr (Allow d)"
    "getp nx (slice_of (m_id m)) = slice_after st (slice_of (m_id m)) d"
  using allow_module [OF assms(1) plain_stateD(3) [OF assms(2)], of m] assms(3-5)
  by (auto simp: engine_modules_def)

lemma release_unchanged:
  assumes "allows h e i st t mode a nx e'" and "plain_state st" and "effective_type i = RELEASE"
    and "k \<notin> {''kill_switch'', ''replay'', ''concurrency''}"
  shows "getp nx k = getp st k"
  using allow_other [OF assms(1) plain_stateD(3) [OF assms(2)], of k] assms(3,4)
  by (auto simp: module_lists)

lemma grows_velocity:
  assumes "allows h e i st t mode a nx e'" and "plain_state st"
  shows "slice_grows st nx ''velocity'' [''counters'']"
proof (cases "effective_type i")
  case EXECUTE
  note st = plain_stateD [OF assms(2)]
  obtain d where d: "VelocityModule i st (engine_ctx e t) = Inr (Allow d)"
    and nx: "getp nx ''velocity'' = slice_after st ''velocity'' d"
    using assms(1,2) EXECUTE
    by (rule execute_module [where m = "\<lparr>m_id = ''VelocityModule'', m_eval = VelocityModule\<rparr>"])
      (simp_all add: module_lists)
  from d obtain x where "d = Some (vel_delta (getp st ''velocity'') (agent_id i) x)" by (rule velocity_delta)
  with nx have "getp nx ''velocity'' = merge_val (getp st ''velocity'') (spread_set (getp st ''velocity'') ''counters''
      (spread_set (path st [''velocity'', ''counters'']) (agent_id i) x))"
    by (simp add: slice_after_def vel_delta_def)
  then show ?thesis using st(1,6,7) by (rule slice_merge(1))
next
  case RELEASE
  then show ?thesis
    using release_unchanged [OF assms RELEASE, of "''velocity''"] plain_stateD(6,7) [OF assms(2)]
    by (simp add: slice_grows_same)
qed

lemma grows_tools:
  assumes "allows h e i st t mode a nx e'" and "plain_state st"
  shows "slice_grows st nx ''tool_limits'' [''calls'']"
proof (cases "effective_type i")
  case EXECUTE
  note st = plain_stateD [OF assms(2)]
  obtain d where d: "ToolAmplificationModule i st (engine_ctx e t) = Inr (Allow d)"
    and nx: "getp nx ''tool_limits'' = slice_after st ''tool_limits'' d"
    using assms(1,2) EXECUTE
    by (rule execute_module [where m = "\<lparr>m_id = ''ToolAmplificationModule'', m_eval = ToolAmplificationModule\<rparr>"])
      (simp_all add: module_lists)
  from d show ?thesis
  proof (cases rule: toolcalls_delta)
    case 1
    then show ?thesis using nx st(13,14) by (simp add: slice_after_def slice_grows_same)
  next
    case (2 es)
    with nx have "getp nx ''tool_limits'' = merge_val (getp st ''tool_limits'')
        (spread_set (getp st ''tool_limits'') ''calls''
          (spread_set (path st [''tool_limits'', ''calls'']) (agent_id i) (JArr es)))"
      by (simp add: slice_after_def)
    then show ?thesis using st(1,13,14) by (rule slice_merge(1))
  qed
next
  case RELEASE
  then show ?thesis
    using release_unchanged [OF assms RELEASE, of "''tool_limits''"] plain_stateD(13,14) [OF assms(2)]
    by (simp add: slice_grows_same)
qed

lemma keeps_policy:
  assumes "allows h e i st t mode a nx e'" and "plain_state st"
    and "k \<notin> {''replay'', ''concurrency'', ''tool_limits'', ''budget'', ''velocity''}"
  shows "getp nx k = getp st k"
proof (cases "k \<in> {''kill_switch'', ''allowlists'', ''recursion''}")
  case False
  then show ?thesis
    using allow_other [OF assms(1) plain_stateD(3) [OF assms(2)], of k] assms(3)
    by (auto simp: module_lists split: if_splits)
next
  case True
  show ?thesis
  proof (cases "effective_type i")
    case EXECUTE
    from True consider "k = ''kill_switch''" | "k = ''allowlists''" | "k = ''recursion''" by blast
    then show ?thesis
    proof cases
      case 1
      have "slice_after st ''kill_switch'' d = getp st ''kill_switch''"
        if "KillSwitchModule i st (engine_ctx e t) = Inr (Allow d)" for d
        using KillSwitch_Allow(3) [OF that] by (simp add: slice_after_def)
      with execute_module [OF assms(1,2) EXECUTE, of "\<lparr>m_id = ''KillSwitchModule'', m_eval = KillSwitchModule\<rparr>"]
      show ?thesis unfolding 1 by (force simp: module_lists)
    next
      case 2
      have "slice_after st ''allowlists'' d = getp st ''allowlists''"
        if "AllowlistModule h i st (engine_ctx e t) = Inr (Allow d)" for d
        using allowlist_delta [OF that] by (simp add: slice_after_def)
      with execute_module [OF assms(1,2) EXECUTE, of "\<lparr>m_id = ''AllowlistModule'', m_eval = AllowlistModule h\<rparr>"]
      show ?thesis unfolding 2 by (force simp: module_lists)
    next
      case 3
      have "slice_after st ''recursion'' d = getp st ''recursion''"
        if "RecursionDepthModule i st (engine_ctx e t) = Inr (Allow d)" for d
        using RecursionDepth_Allow(1) [OF that] by (simp add: slice_after_def)
      with execute_module [OF assms(1,2) EXECUTE, of "\<lparr>m_id = ''RecursionDepthModule'', m_eval = RecursionDepthModule\<rparr>"]
      show ?thesis unfolding 3 by (force simp: module_lists)
    qed
  next
    case RELEASE
    show ?thesis
    proof (cases "k = ''kill_switch''")
      case True
      have "slice_after st ''kill_switch'' d = getp st ''kill_switch''"
        if "KillSwitchModule i st (engine_ctx e t) = Inr (Allow d)" for d
        using KillSwitch_Allow(3) [OF that] by (simp add: slice_after_def)
      with allow_module [OF assms(1) plain_stateD(3) [OF assms(2)],
          of "\<lparr>m_id = ''KillSwitchModule'', m_eval = KillSwitchModule\<rparr>"] RELEASE
      show ?thesis unfolding True by (force simp: module_lists)
    next
      case False
      with release_unchanged [OF assms(1,2) RELEASE] assms(3) show ?thesis by blast
    qed
  qed
qed

section \<open>Concurrency\<close>

lemma path3: "path v [a, b, c] = getp (path v [a, b]) c"
  by simp

text \<open>
  The slice after the ALLOW: the counter of the acting agent is the decided one and its lease map is
  replaced by the decided map, to which an EXECUTE adds the lease of the new authorization.
\<close>

lemma after_concurrency:
  assumes "allows h e i st t mode a nx e'" and "plain_state st"
  obtains l n and iss :: issued where "computeConcurrencyLeases i st t = Inr (Some l)"
    "sub_num (coalesce (path st [''concurrency'', ''active'', agent_id i]) (JNum (jint 0))) (jint (removed l)) = Inr n"
    "effective_type i = RELEASE \<Longrightarrow> \<not> releaseInvalid l"
    "effective_type i = EXECUTE \<Longrightarrow> \<not> js_le (path st [''concurrency'', ''max_concurrent'', agent_id i]) (JNum n)"
    "slice_grows st nx ''concurrency'' [''active'', ''active_auths'']"
    "\<And>b. path nx [''concurrency'', ''active'', b] = (if b = agent_id i
       then JNum (if effective_type i = RELEASE then n else num_add n (jint 1))
       else path st [''concurrency'', ''active'', b])"
    "\<And>b. path nx [''concurrency'', ''active_auths'', b] = (if b = agent_id i
       then (if effective_type i = RELEASE then JObj (auths l)
             else spread_set (JObj (auths l)) (iss_id iss) (JObj [(''expires_at'', JNum (iss_expires_at iss))]))
       else path st [''concurrency'', ''active_auths'', b])"
    "a = iss_authorization iss" "iss_expires_at iss = num_add t (authorizationTtl e)"
  using assms(1)
proof (rule evaluated_allowE)
  fix ih p w w1 iss
  assume r: "runDecisionModules (inputs e i st t mode) (engine_modules h i) = Inr (Permit w)"
    and m: "materialize_leases i st t w = Inr w1" and iss: "issue h e i st w1 ih p t = Inr iss"
    and a: "a = iss_authorization iss"
    and n: "nx = w1 \<and> effective_type i = RELEASE \<or>
     effective_type i = EXECUTE \<and> add_lease i (iss_id iss) (iss_expires_at iss) w1 = Inr nx"
  note st = plain_stateD [OF assms(2)]
  let ?a = "agent_id i" and ?cc = "getp st ''concurrency''"
  let ?m = "\<lparr>m_id = ''ConcurrencyModule'', m_eval = ConcurrencyModule\<rparr>"
  have pst: "is_plain (di_state (inputs e i st t mode))" using st(3) by simp
  have mem: "?m \<in> set (engine_modules h i)" by (simp add: module_lists)
  have sl: "slice_of (m_id ?m) = ''concurrency''" by (simp add: slice_of_def)
  from permit_slices(4) [OF r engine_modules_good pst mem] obtain d where
    d: "ConcurrencyModule i st (engine_ctx e t) = Inr (Allow d)"
    and w: "getp w ''concurrency'' = slice_after st ''concurrency'' d"
    unfolding sl by auto
  from d obtain l k where l: "computeConcurrencyLeases i st t = Inr (Some l)"
    "sub_num (coalesce (path st [''concurrency'', ''active'', ?a]) (JNum (jint 0))) (jint (removed l)) = Inr k"
    "effective_type i = RELEASE \<Longrightarrow> \<not> releaseInvalid l"
    "effective_type i = EXECUTE \<Longrightarrow> \<not> js_le (path st [''concurrency'', ''max_concurrent'', ?a]) (JNum k)"
    and dd: "d = Some (conc_delta ?cc ?a (if effective_type i = RELEASE then k else num_add k (jint 1)) (auths l))"
    by (auto elim!: ConcurrencyModule_AllowE)
  define n' where "n' = (if effective_type i = RELEASE then k else num_add k (jint 1))"
  have cc: "is_plain ?cc" "wf_js ?cc" "is_plain (getp ?cc ''active'')" "is_plain (getp ?cc ''active_auths'')"
    "wf_js (getp ?cc ''active'')" "wf_js (getp ?cc ''active_auths'')"
    using st by (simp_all add: wf_js_getp)
  have cw: "getp w ''concurrency'' = merge_val ?cc (getp (conc_delta ?cc ?a n' (auths l)) ''concurrency'')"
    by (simp add: w dd slice_after_def n'_def)
  note cl = conc_delta_lookup [OF cc(1,2) cw]
  have act: "getp (getp (getp w ''concurrency'') ''active'') b = (if b = ?a then JNum n' else getp (getp ?cc ''active'') b)" for b
    unfolding cl(2) by (simp add: getp_merge_spread [OF cc(3,5)])
  have aut: "getp (getp (getp w ''concurrency'') ''active_auths'') b = getp (getp ?cc ''active_auths'') b" if "b \<noteq> ?a" for b
    unfolding cl(3) using that by (simp add: getp_merge_spread [OF cc(4,6)])
  have plw: "is_plain (getp w ''concurrency'')" "is_plain (getp (getp w ''concurrency'') ''active'')"
      "is_plain (getp (getp w ''concurrency'') ''active_auths'')"
    unfolding cl(2,3) using cc by (simp_all add: cw conc_delta_def is_plain_merge)
  from m l(1) have asg: "assign_leases w ?a (JObj (auths l)) = Inr w1"
    by (auto elim!: materialize_cases)
  note w1 = assign_leasesE(1) [OF asg]
  have aut1: "getp (getp (getp w1 ''concurrency'') ''active_auths'') b =
      (if b = ?a then JObj (auths l) else getp (getp ?cc ''active_auths'') b)" for b
    unfolding w1 using plw aut by (simp add: getp_spread_set)
  have oth1: "getp (getp w1 ''concurrency'') g = getp (getp w ''concurrency'') g" if "g \<noteq> ''active_auths''" for g
    unfolding w1 using plw that by (simp add: getp_spread_set)
  have pl1: "is_plain (getp w1 ''concurrency'')" "is_plain (getp (getp w1 ''concurrency'') ''active_auths'')"
    unfolding w1 by simp_all
  define m' where "m' = (if effective_type i = RELEASE then JObj (auths l)
             else spread_set (JObj (auths l)) (iss_id iss) (JObj [(''expires_at'', JNum (iss_expires_at iss))]))"
  have fin: "is_plain (getp nx ''concurrency'') \<and> is_plain (getp (getp nx ''concurrency'') ''active_auths'') \<and>
      (\<forall>g. g \<noteq> ''active_auths'' \<longrightarrow> getp (getp nx ''concurrency'') g = getp (getp w ''concurrency'') g) \<and>
      (\<forall>b. getp (getp (getp nx ''concurrency'') ''active_auths'') b = (if b = ?a then m' else getp (getp ?cc ''active_auths'') b))"
  proof (cases "effective_type i")
    case RELEASE
    with n have "nx = w1" by auto
    with RELEASE pl1 oth1 aut1 show ?thesis by (simp add: m'_def)
  next
    case EXECUTE
    with n have "add_lease i (iss_id iss) (iss_expires_at iss) w1 = Inr nx" by auto
    from assign_leasesE(1) [OF add_leaseE [OF this]]
    have nxc: "getp nx ''concurrency'' = spread_set (getp w1 ''concurrency'') ''active_auths''
        (spread_set (getp (getp w1 ''concurrency'') ''active_auths'') ?a m')"
      using EXECUTE aut1 [of ?a] by (simp add: m'_def)
    show ?thesis unfolding nxc using pl1 oth1 aut1 by (simp add: getp_spread_set)
  qed
  have g1: "slice_grows st nx ''concurrency'' [''active'', ''active_auths'']"
    using fin plw cl(1) by (auto simp: slice_grows_def)
  have g2: "path nx [''concurrency'', ''active'', b] = (if b = ?a
       then JNum (if effective_type i = RELEASE then k else num_add k (jint 1))
       else path st [''concurrency'', ''active'', b])" for b
    using fin act by (simp add: n'_def)
  have g3: "path nx [''concurrency'', ''active_auths'', b] = (if b = ?a
       then (if effective_type i = RELEASE then JObj (auths l)
             else spread_set (JObj (auths l)) (iss_id iss) (JObj [(''expires_at'', JNum (iss_expires_at iss))]))
       else path st [''concurrency'', ''active_auths'', b])" for b
    using fin by (simp add: m'_def)
  have g4: "iss_expires_at iss = num_add t (authorizationTtl e)"
    using iss by (auto simp: issue_def bindE_eq_Inr Let_def)
  show thesis by (rule that [of l k iss]) (fact l g1 g2 g3 a g4)+
qed

section \<open>The next state passes the checks\<close>

lemma has_prop_getp: "is_plain v \<Longrightarrow> getp v k \<noteq> JUndef \<Longrightarrow> has_prop v k"
  by (cases v) (auto simp: inherited_def split: option.splits if_splits)

lemma allow_keeps_plain:
  assumes "allows h e i st t mode a nx e'" and "plain_state st"
  shows "plain_state nx"
proof -
  note st = plain_stateD [OF assms(2)]
  note rt = runtime_objects [OF st(2), simplified] runtime_finite [OF st(2), simplified]
  obtain plain: "is_plain nx" and wf: "wf_js nx"
    using assms(1) st(3) by (rule allow_state) (use st(1) in auto)
  note kept = keeps_policy [OF assms]
  obtain conc: "slice_grows st nx ''concurrency'' [''active'', ''active_auths'']"
    using assms by (rule after_concurrency)
  note grow = grows_budget [OF assms] grows_replay [OF assms] grows_velocity [OF assms] grows_tools [OF assms] conc
  note g = grow [unfolded slice_grows_def, simplified]
  have same: "getp nx k = getp st k"
    if "k \<in> {''policy_version'', ''period_id'', ''kill_switch'', ''allowlists'', ''max_amount_per_action'', ''recursion''}" for k
    using that by (intro kept) auto
  have obj: "is_object v" if "is_plain v" for v using that by (rule is_plain_object)
  have def: "\<not> is_object JUndef" "\<not> is_string JUndef" by simp_all
  have "isRuntimeState st" by (rule st(2))
  then have rs: "is_string (getp st ''period_id'')"
    "is_bool (getp (getp st ''kill_switch'') ''global'')" "list_all (is_bool \<circ> snd) (entries (getp (getp st ''kill_switch'') ''agents''))"
    "is_object (getp st ''allowlists'')"
    unfolding isRuntimeState_def Let_def by (simp_all split: if_splits)
  have req: "list_all (has_prop nx) required_top"
    unfolding required_top_def
    using has_prop_getp [OF plain] same rs rt obj g def
    by (simp, metis)
  have "isRuntimeState nx"
    unfolding isRuntimeState_def Let_def
    using plain same rs rt g req by (simp add: obj)
  moreover have "list_all (\<lambda>p. is_plain (path nx p)) container_paths"
    using g by (simp add: container_paths_def)
  ultimately show ?thesis using wf by (simp add: plain_state_def)
qed

end
