(* ===== verification/EngineRun.thy ===== *)
theory EngineRun
  imports Preservation
begin

text \<open>
  Runs of the engine: a caller that keeps the state and asks for one evaluation after another, on a
  trusted clock that does not run backwards. \<open>evolves\<close> is the step relation, its trace the intents
  that were admitted with the time of their admission.
\<close>

section \<open>Steps\<close>

inductive evolves :: "host \<Rightarrow> engine \<Rightarrow> jsval \<Rightarrow> int \<Rightarrow> (intent \<times> int) list \<Rightarrow> engine \<Rightarrow> jsval \<Rightarrow> int \<Rightarrow> bool"
  for h e0 st0 c0 where
  start: "evolves h e0 st0 c0 [] e0 st0 c0"
| admit: "evolves h e0 st0 c0 tr e st c \<Longrightarrow> c \<le> t \<Longrightarrow>
    evaluatePure h i st (jint t) mode e = (Inr (PAllow a nx), e') \<Longrightarrow>
    evolves h e0 st0 c0 (tr @ [(i, t)]) e' nx t"
| refuse: "evolves h e0 st0 c0 tr e st c \<Longrightarrow> c \<le> t \<Longrightarrow>
    evaluatePure h i st (jint t) mode e = (Inr (PDeny rs), e') \<Longrightarrow>
    evolves h e0 st0 c0 tr e' st t"

inductive_cases evolves_admitE: "evolves h e0 st0 c0 (tr @ [x]) e st c"

lemma evolves_setup: "evolves h e0 st0 c0 tr e st c \<Longrightarrow> same_setup e0 e"
  by (induction rule: evolves.induct) (auto dest: evaluatePure_setup intro: same_setup_trans)

lemma evolves_clock: "evolves h e0 st0 c0 tr e st c \<Longrightarrow> c0 \<le> c \<and> (\<forall>(i, k) \<in> set tr. c0 \<le> k \<and> k \<le> c)"
  by (induction rule: evolves.induct) auto

lemma evolves_plain: "evolves h e0 st0 c0 tr e st c \<Longrightarrow> plain_state st0 \<Longrightarrow> plain_state st"
  by (induction rule: evolves.induct) (auto dest: allow_keeps_plain)

section \<open>No intent is admitted twice\<close>

text \<open>What the freshness gate showed at the admission.\<close>

lemma allow_fresh:
  assumes "allows h e i st (jint t) mode a nx e'"
  obtains s skew age where "timestamp i = jint s" "to_number (maxClockSkewSeconds (opts e)) = jint skew"
    "to_number (maxIntentAgeSeconds (opts e)) = jint age" "0 \<le> s" "s \<le> max_safe" "0 \<le> t" "t \<le> max_safe"
    "0 \<le> skew" "skew \<le> max_safe" "0 \<le> age" "age \<le> max_safe" "s \<le> t + skew" "t \<le> s + age"
proof -
  have "verifyTrustedTime (timestamp i) (jint t) (to_number (maxClockSkewSeconds (opts e)))
       (to_number (maxIntentAgeSeconds (opts e))) = Inr (Allow None)"
    using assms by (elim evaluated_allowE)
  then show thesis
    by (rule verifyTrustedTime_Allow) (rule that; simp)
qed

text \<open>The horizon covers every interval that both bounds together allow.\<close>

lemma horizon_covers:
  assumes "to_number (maxClockSkewSeconds (opts e)) = jint skew" "to_number (maxIntentAgeSeconds (opts e)) = jint age"
    and "0 \<le> d" "d \<le> max_safe" "d \<le> skew + age"
  shows "num_le (jint d) (freshnessHorizon e)"
proof -
  have "num_le (jint d) (num_add (jint age) (jint skew))"
    using assms(3-5) by (intro num_add_ge) (simp_all add: max_safe_def)
  then show ?thesis using assms(1,2) by (simp add: freshnessHorizon_def Let_def)
qed

text \<open>
  The invariant: while an admission is younger than the horizon, the state remembers its nonce.
\<close>

definition remembers :: "jsnum \<Rightarrow> jsval \<Rightarrow> int \<Rightarrow> (intent \<times> int) list \<Rightarrow> bool" where
  "remembers hz st c tr =
     (\<forall>(i, k) \<in> set tr. 0 \<le> k \<and> k \<le> c \<and>
        (num_le (jint (c - k)) hz \<longrightarrow> recorded st (agent_id i) (nonceKey i) k))"

lemma remembers_later:
  assumes "remembers hz st c tr" and "c \<le> t"
  shows "remembers hz st t tr"
  unfolding remembers_def
proof (intro ballI, clarify)
  fix i k assume "(i, k) \<in> set tr"
  with assms(1) have ik: "0 \<le> k" "k \<le> c" and r: "num_le (jint (c - k)) hz \<longrightarrow> recorded st (agent_id i) (nonceKey i) k"
    unfolding remembers_def by blast+
  have "num_le (jint (c - k)) hz" if "num_le (jint (t - k)) hz"
    using num_le_trans [OF _ that, of "jint (c - k)"] assms(2) by simp
  with ik r assms(2) show "0 \<le> k \<and> k \<le> t \<and> (num_le (jint (t - k)) hz \<longrightarrow> recorded st (agent_id i) (nonceKey i) k)"
    by auto
qed

lemma remembers_admit:
  assumes "remembers (freshnessHorizon e) st t tr" and run: "allows h e i st (jint t) mode a nx e'"
    and "plain_state st"
  shows "remembers (freshnessHorizon e) nx t (tr @ [(i, t)])"
proof -
  note st = plain_stateD [OF assms(3)]
  obtain d where d: "ReplayModule i st (engine_ctx e (jint t)) = Inr (Allow (Some d))"
    and w: "getp nx ''replay'' = merge_val (getp st ''replay'') (getp d ''replay'')"
    using run assms(3) by (rule after_replay)
  from run have t: "0 \<le> t" "t \<le> max_safe" by (auto elim: allow_fresh)
  have p: "is_plain (getp st ''replay'')" "is_object (path st [''replay'', ''nonces''])"
    using st(8,9) by (simp_all add: is_plain_object)
  note next_state = recorded_next [OF d p(1) st(1) p(2) w disjI2 [OF st(9)], of "freshnessHorizon e" t]
  have keep: "recorded nx (agent_id j) (nonceKey j) k"
    if "(j, k) \<in> set tr" "num_le (jint (t - k)) (freshnessHorizon e)" for j k
  proof -
    have "recorded st (agent_id j) (nonceKey j) k" "0 \<le> k" "k \<le> t"
      using assms(1) that unfolding remembers_def by blast+
    with next_state [of "agent_id j" "nonceKey j" k] t that(2) show ?thesis by simp
  qed
  have new: "recorded nx (agent_id i) (nonceKey i) t"
    using next_state [of "agent_id i" "nonceKey i" t] t by simp
  show ?thesis
    using keep new t assms(1) unfolding remembers_def by auto
qed

lemma evolves_remembers:
  "evolves h e0 st0 c0 tr e st c \<Longrightarrow> plain_state st0 \<Longrightarrow> remembers (freshnessHorizon e0) st c tr"
proof (induction rule: evolves.induct)
  case start
  show ?case by (simp add: remembers_def)
next
  case (admit tr e st c t i mode a nx e')
  have "freshnessHorizon e = freshnessHorizon e0"
    using evolves_setup [OF admit.hyps(1)] by (simp add: setup_fields)
  with remembers_admit [OF _ admit.hyps(3) evolves_plain [OF admit.hyps(1) admit.prems]]
    remembers_later [OF admit.IH [OF admit.prems] admit.hyps(2)]
  show ?case by simp
next
  case (refuse tr e st c t i mode rs e')
  then show ?case by (blast intro: remembers_later)
qed

text \<open>An intent with the nonce and the timestamp of an earlier admission of the agent is not admitted.\<close>

lemma admitted_is_new:
  assumes "evolves h e0 st0 c0 tr e st c" and "plain_state st0" and "c \<le> t"
    and run: "allows h e i st (jint t) mode a nx e'"
    and old: "(j, k) \<in> set tr" "agent_id j = agent_id i" "nonce j = nonce i"
    and fresh: "timestamp i = jint s" "s \<le> k + skew"
      "to_number (maxClockSkewSeconds (opts e)) = jint skew"
  shows False
proof -
  obtain s' skew' age where f: "timestamp i = jint s'" "to_number (maxClockSkewSeconds (opts e)) = jint skew'"
    "to_number (maxIntentAgeSeconds (opts e)) = jint age" "0 \<le> t" "t \<le> max_safe" "t \<le> s' + age" "0 \<le> age"
    using run by (rule allow_fresh)
  then have eq: "s' = s" "skew' = skew" using fresh by simp_all
  have hz: "freshnessHorizon e0 = freshnessHorizon e"
    using evolves_setup [OF assms(1)] by (simp add: setup_fields)
  have rem: "remembers (freshnessHorizon e) st t tr"
    using remembers_later [OF evolves_remembers [OF assms(1,2)] assms(3)] by (simp add: hz)
  then have k: "0 \<le> k" "k \<le> t" and rec: "num_le (jint (t - k)) (freshnessHorizon e) \<longrightarrow> recorded st (agent_id j) (nonceKey j) k"
    using old(1) unfolding remembers_def by blast+
  have "num_le (jint (t - k)) (freshnessHorizon e)"
    by (rule horizon_covers [OF f(2,3)]) (use k f eq fresh in auto)
  with rec have "recorded st (agent_id i) (nonceKey i) k" using old(2,3) by (simp add: nonceKey_def)
  from recorded_refused [OF this, of "engine_ctx e (jint t)" "freshnessHorizon e" t]
    \<open>num_le (jint (t - k)) (freshnessHorizon e)\<close> k f(5)
  have "ReplayModule i st (engine_ctx e (jint t)) \<noteq> Inr (Allow d)" for d by simp
  moreover obtain d where "ReplayModule i st (engine_ctx e (jint t)) = Inr (Allow (Some d))"
    using run evolves_plain [OF assms(1,2)] by (rule after_replay)
  ultimately show False by blast
qed

text \<open>Every admission in the trace was fresh when it was made.\<close>

lemma evolves_fresh:
  "evolves h e0 st0 c0 tr e st c \<Longrightarrow> (j, k) \<in> set tr \<Longrightarrow>
    \<exists>s skew. timestamp j = jint s \<and> to_number (maxClockSkewSeconds (opts e0)) = jint skew \<and> s \<le> k + skew"
proof (induction rule: evolves.induct)
  case (admit tr e st c t i mode a nx e')
  show ?case
  proof (cases "(j, k) \<in> set tr")
    case False
    with admit.prems have jk: "j = i" "k = t" by auto
    have "opts e = opts e0" using evolves_setup [OF admit.hyps(1)] by (simp add: same_setup_def)
    then show ?thesis using admit.hyps(3) by (auto simp: jk elim!: allow_fresh)
  qed (use admit.IH in blast)
qed simp_all

lemma evolves_distinct:
  assumes "evolves h e0 st0 c0 tr e st c" and "plain_state st0"
  shows "distinct (map (\<lambda>(i, k). (agent_id i, nonce i, timestamp i)) tr)"
  using assms
proof (induction rule: evolves.induct)
  case (admit tr e st c t i mode a nx e')
  have o: "opts e0 = opts e" using evolves_setup [OF admit.hyps(1)] by (simp add: same_setup_def)
  have "(agent_id i, nonce i, timestamp i) \<noteq> (agent_id j, nonce j, timestamp j)" if jk: "(j, k) \<in> set tr" for j k
  proof
    assume "(agent_id i, nonce i, timestamp i) = (agent_id j, nonce j, timestamp j)"
    moreover obtain s skew where "timestamp j = jint s" "to_number (maxClockSkewSeconds (opts e0)) = jint skew" "s \<le> k + skew"
      using evolves_fresh [OF admit.hyps(1) jk] by blast
    ultimately show False
      using admitted_is_new [OF admit.hyps(1) admit.prems admit.hyps(2,3) jk, of s skew] o by simp
  qed
  with admit show ?case by (auto simp: image_iff)
qed simp_all

section \<open>Budgets over a run\<close>

definition spending :: "string \<Rightarrow> (intent \<times> int) list \<Rightarrow> int" where
  "spending b tr = sum_list (map (\<lambda>(i, k). if agent_id i = b \<and> effective_type i = EXECUTE then amount i else 0) tr)"

lemma account_after:
  assumes run: "allows h e i st (jint t) mode a nx e'" and "plain_state st" and acc: "account st b limit cap spent"
  shows "account nx b limit cap (spent + spending b [(i, t)])"
    and "agent_id i = b \<Longrightarrow> effective_type i = EXECUTE \<Longrightarrow>
      0 \<le> amount i \<and> amount i \<le> cap \<and> spent + amount i \<le> limit"
proof -
  note st = plain_stateD [OF assms(2)]
  note grow = grows_budget [OF run assms(2)]
  have lim: "path nx [''budget'', ''budget_limit'', b] = JBig limit"
    using grow acc by (simp add: slice_grows_def account_def)
  have cap: "path nx [''max_amount_per_action'', b] = JBig cap"
    using keeps_policy [OF run assms(2), of "''max_amount_per_action''"] acc by (simp add: account_def)
  have obj: "is_object (path nx [''budget'', ''spent_in_period''])"
    using grow by (simp add: slice_grows_def is_plain_object)
  have sp: "spent_of nx b = Some (spent + spending b [(i, t)]) \<and>
      (agent_id i = b \<longrightarrow> effective_type i = EXECUTE \<longrightarrow> 0 \<le> amount i \<and> amount i \<le> cap \<and> spent + amount i \<le> limit)"
  proof (cases "effective_type i")
    case EXECUTE
    obtain l c s where a: "account st (agent_id i) l c s" "0 \<le> amount i" "amount i \<le> c" "s + amount i \<le> l"
      and nx: "getp nx ''budget'' = merge_val (getp st ''budget'') (spread_set (getp st ''budget'') ''spent_in_period''
      (spread_set (path st [''budget'', ''spent_in_period'']) (agent_id i) (JBig (s + amount i))))"
      using run assms(2) EXECUTE by (rule after_budget)
    note p = slice_merge(2) [OF nx st(1,4,5)]
    have b: "path nx [''budget'', ''spent_in_period'', b] =
      (if b = agent_id i then JBig (s + amount i) else path st [''budget'', ''spent_in_period'', b])"
      using p [of b] by (simp del: path.simps)
    show ?thesis
    proof (cases "b = agent_id i")
      case True
      then have "l = limit" "c = cap" "s = spent" using a(1) acc by (simp_all add: account_def)
      with a b True EXECUTE show ?thesis by (simp add: spent_of_def spending_def del: path.simps)
    next
      case False
      with b acc show ?thesis by (simp add: spent_of_def spending_def account_def del: path.simps)
    qed
  next
    case RELEASE
    then have "getp nx ''budget'' = getp st ''budget''"
      using release_unchanged [OF run assms(2)] by simp
    with acc RELEASE show ?thesis by (simp add: spent_of_def spending_def account_def)
  qed
  with lim cap obj show "account nx b limit cap (spent + spending b [(i, t)])"
    by (simp add: account_def del: path.simps)
  from sp show "agent_id i = b \<Longrightarrow> effective_type i = EXECUTE \<Longrightarrow>
      0 \<le> amount i \<and> amount i \<le> cap \<and> spent + amount i \<le> limit" by blast
qed

lemma evolves_account:
  "evolves h e0 st0 c0 tr e st c \<Longrightarrow> plain_state st0 \<Longrightarrow> account st0 b limit cap spent \<Longrightarrow>
    account st b limit cap (spent + spending b tr) \<and> (spending b tr = 0 \<or> spent + spending b tr \<le> limit)
    \<and> 0 \<le> spending b tr"
proof (induction rule: evolves.induct)
  case (admit tr e st c t i mode a nx e')
  then have acc: "account st b limit cap (spent + spending b tr)"
    and IH: "spending b tr = 0 \<or> spent + spending b tr \<le> limit" "0 \<le> spending b tr" by blast+
  have app: "spending b (tr @ [(i, t)]) = spending b tr + spending b [(i, t)]" by (simp add: spending_def)
  note after = account_after [OF admit.hyps(3) evolves_plain [OF admit.hyps(1) admit.prems(1)] acc]
  have one: "spending b [(i, t)] = (if agent_id i = b \<and> effective_type i = EXECUTE then amount i else 0)"
    by (simp add: spending_def)
  show ?case
    using after IH unfolding app one by (auto simp: add.assoc split: if_splits)
qed (simp_all add: spending_def)

end
