(* ===== verification/Demo.thy ===== *)
theory Demo
  imports Evaluate
begin

text \<open>
  Concrete inputs for the witnesses: a host whose primitives satisfy the hypotheses the theorems make
  about the platform, and an engine, a state and an intent it admits.
\<close>

definition demo_host :: host where
  "demo_host =
     \<lparr>nfc = (\<lambda>s. s), fmt_num = (\<lambda>_. ''0.5''), sha256 = (\<lambda>_. replicate 64 CHR ''0''),
      hmac_sha256 = (\<lambda>_ _. replicate 64 CHR ''a''), wire_key = (\<lambda>_. Inr (Some (replicate 64 CHR ''1''))),
      ed_verify = (\<lambda>_ _ sig. Inr (sig = replicate 64 CHR ''s'')), ed_sign = (\<lambda>_ _. Inr (replicate 64 CHR ''s''))\<rparr>"

lemma demo_host_ok: "nfc_ok demo_host" "hex_digests demo_host" "ed25519_ok demo_host sk pk"
  by (simp_all add: nfc_ok_def hex_digests_def ed25519_ok_def demo_host_def is_lower_hex_def is_digit_def list_all_iff)

definition demo_opts :: engine_opts where
  "demo_opts =
     \<lparr>o_policy_version = ''v1'', engine_secret = JStr (replicate 32 CHR ''k''), authorization_ttl_seconds = JUndef,
      authorization_issuer = None, authorization_audience = None, authorization_signing_alg = None,
      authorization_signing_kid = None, authorization_private_key_pem = None,
      maxClockSkewSeconds = JNum (jint 300), maxIntentAgeSeconds = JNum (jint 300), deny_mode = None,
      o_policyId = Some ''p'', strictDeterminism = None, checkpoint_every_n_events = None,
      has_stateStore = False, has_auditSink = False, autoPersist = None\<rparr>"

definition demo_engine :: engine where
  "demo_engine =
     \<lparr>opts = demo_opts, authorizationTtl = jint 60, currentState = None, auditEventCount = 0,
      audit = \<lparr>chain = [], log_head = replicate 64 CHR ''0''\<rparr>, auditSinkQueue = [], auditSinkError = None,
      stateStoreQueue = [], stateStoreError = None\<rparr>"

lemma demo_engine_new: "new_engine demo_host demo_opts = Inr demo_engine"
  by code_simp

definition demo_state :: jsval where
  "demo_state =
     JObj [(''policy_version'', JStr ''v1''), (''period_id'', JStr ''q''),
           (''kill_switch'', JObj [(''global'', JBool False), (''agents'', JObj [])]),
           (''allowlists'', JObj []),
           (''budget'', JObj [(''budget_limit'', JObj [(''a'', JBig 9)]), (''spent_in_period'', JObj [(''a'', JBig 1)])]),
           (''max_amount_per_action'', JObj [(''a'', JBig 5)]),
           (''velocity'', JObj [(''config'', JObj [(''window_seconds'', JNum (jint 9)), (''max_actions'', JNum (jint 2))]),
                                (''counters'', JObj [])]),
           (''replay'', JObj [(''window_seconds'', JNum (jint 9)), (''max_nonces_per_agent'', JNum (jint 3)),
                              (''nonces'', JObj [])]),
           (''concurrency'', JObj [(''max_concurrent'', JObj [(''a'', JNum (jint 2))]),
                                   (''active'', JObj [(''a'', JNum (jint 0))]), (''active_auths'', JObj [])]),
           (''recursion'', JObj [(''max_depth'', JObj [(''a'', JNum (jint 1))])]),
           (''tool_limits'', JObj [(''window_seconds'', JNum (jint 9)), (''max_calls'', JObj [(''a'', JNum (jint 4))]),
                                   (''calls'', JObj [])])]"

definition demo_intent :: intent where
  "demo_intent =
     \<lparr>intent_id = ''i'', agent_id = ''a'', action_type = None, depth = None, amount = 2, asset = None,
      target = ''t'', timestamp = jint 10, metadata_hash = ''m'', nonce = 7, signature = [], tool = None,
      tool_call = None, itype = None, authorization_id = None\<rparr>"

end
