(* ===== verification/DemoRun.thy ===== *)
theory DemoRun
  imports Demo Preservation
begin

text \<open>The demo input is admitted. Each step of the evaluation is computed on its own.\<close>

lemma emitAudit_Inr:
  assumes "canonicalizeEntry h ev = Inr s" and "\<not> has_auditSink (opts e)"
  shows "\<exists>e'. emitAudit h ev e = (Inr (), e')"
  using assms by (simp add: emitAudit_def log_append_def computeNextHash_def Let_def)

lemma no_checkpoint:
  assumes "checkpoint_every_n_events (opts e) = None"
  shows "maybeEmitCheckpoint h p t st e = (Inr (), e)"
  using assms by (simp add: maybeEmitCheckpoint_def)

text \<open>Sufficient conditions for an ALLOW without audit sink and checkpoints.\<close>

lemma allowI:
  assumes quiet: "\<not> has_auditSink (opts e)" "checkpoint_every_n_events (opts e) = None"
    and "precheck e i st t = Inr None" "intentHash h i = Inr ih" "computePolicyId h e = Inr p"
    and "verifyTrustedTime (timestamp i) t (to_number (maxClockSkewSeconds (opts e)))
       (to_number (maxIntentAgeSeconds (opts e))) = Inr (Allow None)"
    and "runDecisionModules (inputs e i st t mode) (engine_modules h i) = Inr (Permit w)"
    and "materialize_leases i st t w = Inr w1" "issue h e i st w1 ih p t = Inr iss"
    and "(if effective_type i = EXECUTE then add_lease i (iss_id iss) (iss_expires_at iss) w1 else Inr w1) = Inr nx"
    and ev: "canonicalizeEntry h (event_intent ih i t p) = Inr s1"
      "canonicalizeEntry h (event_decision ih ''ALLOW'' [] (getp st ''policy_version'') t p) = Inr s2"
      "canonicalizeEntry h (event_auth (iss_id iss) ih (iss_expires_at iss) t p) = Inr s3"
  shows "\<exists>e'. evaluatePure h i st t mode e = (Inr (PAllow (iss_authorization iss) nx), e')"
proof -
  obtain e1 where e1: "emitAudit h (event_intent ih i t p) e = (Inr (), e1)"
    using emitAudit_Inr [OF ev(1) quiet(1)] by blast
  then have s1: "same_setup e e1" by (rule keepsD [OF keeps_emitAudit])
  then have q1: "opts e1 = opts e" by (simp add: setup_fields)
  obtain e2 where e2: "emitAudit h (event_decision ih ''ALLOW'' [] (getp st ''policy_version'') t p) e1 = (Inr (), e2)"
    using emitAudit_Inr [OF ev(2)] quiet(1) q1 by metis
  have q2: "opts e2 = opts e"
    using setup_fields(8) [OF keepsD [OF keeps_emitAudit e2]] q1 by simp
  obtain e3 where e3: "emitAudit h (event_auth (iss_id iss) ih (iss_expires_at iss) t p) e2 = (Inr (), e3)"
    using emitAudit_Inr [OF ev(3)] quiet(1) q2 by metis
  have q3: "opts e3 = opts e"
    using setup_fields(8) [OF keepsD [OF keeps_emitAudit e3]] q2 by simp
  have c: "conclude h i ih p st t w1 iss e1 = (Inr (PAllow (iss_authorization iss) nx), e3)"
    using assms(10) quiet(2) q3
    by (simp add: conclude_def then_run_def [of "emitAudit _ _"] then_run_def [of "maybeEmitCheckpoint _ _ _ _"]
        e2 e3 no_checkpoint lift_run_def [of "Inr (PAllow _ _)"])
  have a: "allow_with h i ih p st t w e1 = (Inr (PAllow (iss_authorization iss) nx), e3)"
    using assms(8,9) c by (simp add: allow_with_def setup_issue [OF s1])
  have "inputs e1 i st t mode = inputs e i st t mode" using s1 by (simp add: inputs_def setup_fields)
  then have d: "decide h i ih p st t mode e1 = (Inr (PAllow (iss_authorization iss) nx), e3)"
    using assms(7) a by (simp add: decide_def)
  have g: "gate h i ih p st t mode e1 = (Inr (PAllow (iss_authorization iss) nx), e3)"
    using assms(6) d by (simp add: gate_def q1)
  have "evaluate_body h i st t mode e = (Inr (PAllow (iss_authorization iss) nx), e3)"
    using assms(4,5) g by (simp add: evaluate_body_def then_run_def [of "emitAudit _ _"] e1)
  with assms(3) show ?thesis by (simp add: evaluatePure_def)
qed

definition demo_hash :: string where
  "demo_hash = replicate 64 CHR ''0''"

definition demo_ctx :: eval_context where
  "demo_ctx = \<lparr>evaluationTime = jint 12, freshnessHorizonSeconds = Some (jint 600)\<rparr>"

lemma demo_horizon: "freshnessHorizon demo_engine = jint 600"
  by code_simp

lemma demo_precheck: "precheck demo_engine demo_intent demo_state (jint 12) = Inr None"
  by code_simp

lemma demo_intentHash: "intentHash demo_host demo_intent = Inr demo_hash"
  by code_simp

lemma demo_policyId: "computePolicyId demo_host demo_engine = Inr ''p''"
  by (simp add: computePolicyId_def demo_engine_def demo_opts_def)

lemma demo_fresh:
  "verifyTrustedTime (timestamp demo_intent) (jint 12) (to_number (maxClockSkewSeconds (opts demo_engine)))
       (to_number (maxIntentAgeSeconds (opts demo_engine))) = Inr (Allow None)"
  by (simp add: demo_intent_def demo_engine_def demo_opts_def verifyTrustedTime_seconds max_safe_def)

lemma demo_type: "effective_type demo_intent = EXECUTE"
  by (simp add: effective_type_def demo_intent_def)

lemmas demo_steps = demo_precheck demo_intentHash demo_policyId demo_fresh demo_type

text \<open>The state after the deltas of the modules.\<close>

definition demo_slices :: "jsval \<Rightarrow> (string \<times> jsval) list" where
  "demo_slices active_auths =
     [(''policy_version'', JStr ''v1''), (''period_id'', JStr ''q''),
           (''kill_switch'', JObj [(''global'', JBool False), (''agents'', JObj [])]),
           (''allowlists'', JObj []),
           (''budget'', JObj [(''budget_limit'', JObj [(''a'', JBig 9)]), (''spent_in_period'', JObj [(''a'', JBig 3)])]),
           (''max_amount_per_action'', JObj [(''a'', JBig 5)]),
           (''velocity'', JObj [(''config'', JObj [(''window_seconds'', JNum (jint 9)), (''max_actions'', JNum (jint 2))]),
                                (''counters'', JObj [(''a'', vel_counter (jint 12) (jint 1))])]),
           (''replay'', JObj [(''window_seconds'', JNum (jint 9)), (''max_nonces_per_agent'', JNum (jint 3)),
                              (''nonces'', JObj [(''a'', JArr [nonce_entry ''7'' (jint 12)])])]),
           (''concurrency'', JObj [(''max_concurrent'', JObj [(''a'', JNum (jint 2))]),
                                   (''active'', JObj [(''a'', JNum (jint 1))]), (''active_auths'', active_auths)]),
           (''recursion'', JObj [(''max_depth'', JObj [(''a'', JNum (jint 1))])]),
           (''tool_limits'', JObj [(''window_seconds'', JNum (jint 9)), (''max_calls'', JObj [(''a'', JNum (jint 4))]),
                                   (''calls'', JObj [])])]"

definition demo_permitted :: jsval where
  "demo_permitted = JObj (demo_slices (JObj [(''a'', JObj [])]))"

definition demo_next :: jsval where
  "demo_next = JObj (demo_slices (JObj [(''a'', JObj [(demo_hash, JObj [(''expires_at'', JNum (jint 72))])])]))"

lemma demo_modules:
  "KillSwitchModule demo_intent demo_state demo_ctx = Inr (Allow None)"
  "AllowlistModule demo_host demo_intent demo_state demo_ctx = Inr (Allow None)"
  "RecursionDepthModule demo_intent demo_state demo_ctx = Inr (Allow None)"
  "ToolAmplificationModule demo_intent demo_state demo_ctx = Inr (Allow None)"
  by code_simp+

lemma demo_budget: "BudgetModule demo_host demo_intent demo_state demo_ctx = Inr (Allow (Some (JObj [(''budget'',
    JObj [(''budget_limit'', JObj [(''a'', JBig 9)]), (''spent_in_period'', JObj [(''a'', JBig 3)])])])))"
  by code_simp

lemma demo_velocity: "VelocityModule demo_intent demo_state demo_ctx = Inr (Allow (Some (JObj [(''velocity'',
    JObj [(''config'', JObj [(''window_seconds'', JNum (jint 9)), (''max_actions'', JNum (jint 2))]),
          (''counters'', JObj [(''a'', vel_counter (jint 12) (jint 1))])])])))"
  by code_simp

lemma demo_replay: "ReplayModule demo_intent demo_state demo_ctx = Inr (Allow (Some (JObj [(''replay'',
    JObj [(''window_seconds'', JNum (jint 9)), (''max_nonces_per_agent'', JNum (jint 3)),
          (''nonces'', JObj [(''a'', JArr [nonce_entry ''7'' (jint 12)])])])])))"
  by code_simp

lemma demo_concurrency: "ConcurrencyModule demo_intent demo_state demo_ctx = Inr (Allow (Some (JObj [(''concurrency'',
    JObj [(''max_concurrent'', JObj [(''a'', JNum (jint 2))]), (''active'', JObj [(''a'', JNum (jint 1))]),
          (''active_auths'', JObj [(''a'', JObj [])])])])))"
  by code_simp

lemma demo_inputs:
  "di_intent (inputs demo_engine demo_intent demo_state (jint 12) mode) = demo_intent"
  "di_state (inputs demo_engine demo_intent demo_state (jint 12) mode) = demo_state"
  "di_context (inputs demo_engine demo_intent demo_state (jint 12) mode) = demo_ctx"
  "di_mode (inputs demo_engine demo_intent demo_state (jint 12) mode) = mode"
  by (simp_all add: inputs_def di_context_def demo_ctx_def demo_horizon)

lemma demo_merge:
  "process_results mode
     [Allow None, Allow None,
      Allow (Some (JObj [(''replay'', JObj [(''window_seconds'', JNum (jint 9)), (''max_nonces_per_agent'', JNum (jint 3)),
          (''nonces'', JObj [(''a'', JArr [nonce_entry ''7'' (jint 12)])])])])),
      Allow None,
      Allow (Some (JObj [(''concurrency'',
        JObj [(''max_concurrent'', JObj [(''a'', JNum (jint 2))]), (''active'', JObj [(''a'', JNum (jint 1))]),
          (''active_auths'', JObj [(''a'', JObj [])])])])),
      Allow None,
      Allow (Some (JObj [(''budget'',
        JObj [(''budget_limit'', JObj [(''a'', JBig 9)]), (''spent_in_period'', JObj [(''a'', JBig 3)])])])),
      Allow (Some (JObj [(''velocity'',
        JObj [(''config'', JObj [(''window_seconds'', JNum (jint 9)), (''max_actions'', JNum (jint 2))]),
          (''counters'', JObj [(''a'', vel_counter (jint 12) (jint 1))])])]))] demo_state [] = ([], demo_permitted)"
  by (cases mode) code_simp+

lemma demo_permit:
  "runDecisionModules (inputs demo_engine demo_intent demo_state (jint 12) mode) (engine_modules demo_host demo_intent)
    = Inr (Permit demo_permitted)"
proof -
  note run = demo_modules demo_budget demo_velocity demo_replay demo_concurrency
  show ?thesis
    unfolding runDecisionModules_def engine_modules_def demo_type EXECUTE_MODULES_def demo_inputs
    by (simp add: run demo_merge [simplified])
qed

lemma demo_materialize: "materialize_leases demo_intent demo_state (jint 12) demo_permitted = Inr demo_permitted"
  by code_simp

lemma demo_state_hash: "computeStateHashFor demo_host demo_engine demo_state = Inr demo_hash"
  by code_simp

lemma demo_permitted_hash: "computeStateHashFor demo_host demo_engine demo_permitted = Inr demo_hash"
  by code_simp

definition demo_core :: "(string \<times> jsval) list" where
  "demo_core = core_payload demo_engine demo_intent demo_hash demo_hash ''p'' (jint 12) (jint 72)"

definition demo_sig :: string where
  "demo_sig = replicate 64 CHR ''a''"

definition demo_authorization :: jsval where
  "demo_authorization =
     JObj (authorization_fields demo_engine demo_intent demo_hash demo_hash demo_hash ''p'' (JStr ''v1'') demo_hash
             (jint 12) (jint 72) demo_sig demo_sig)"

lemma demo_signatures:
  "engineSignHmac demo_host (engine_payload (JStr demo_hash) (JStr ''v1'') (JStr demo_hash) (JNum (jint 72)))
     (secret_text demo_engine) = Inr demo_sig"
  "sha256HexFromJson demo_host (JObj (AList.update ''engine_signature'' (JStr demo_sig) demo_core)) = Inr demo_hash"
  "sign_core demo_host demo_engine (JObj (AList.update ''auth_id'' (JStr demo_hash) demo_core)) = Inr demo_sig"
  "num_add (jint 12) (authorizationTtl demo_engine) = jint 72"
  "getp demo_state ''policy_version'' = JStr ''v1''"
  by code_simp+

lemma demo_issue:
  "issue demo_host demo_engine demo_intent demo_state demo_permitted demo_hash ''p'' (jint 12) =
     Inr \<lparr>iss_authorization = demo_authorization, iss_id = demo_hash, iss_expires_at = jint 72\<rparr>"
  unfolding issue_def demo_state_hash demo_permitted_hash bindE_simps Let_def demo_signatures(4,5)
    demo_signatures(1) demo_core_def [symmetric] demo_signatures(2,3) demo_authorization_def
  by (rule refl)

lemma demo_lease: "add_lease demo_intent demo_hash (jint 72) demo_permitted = Inr demo_next"
  by code_simp

lemma demo_events:
  "\<exists>s. canonicalizeEntry demo_host (event_intent demo_hash demo_intent (jint 12) ''p'') = Inr s"
  "\<exists>s. canonicalizeEntry demo_host (event_decision demo_hash ''ALLOW'' [] (JStr ''v1'') (jint 12) ''p'') = Inr s"
  "\<exists>s. canonicalizeEntry demo_host (event_auth demo_hash demo_hash (jint 72) (jint 12) ''p'') = Inr s"
proof -
  have ok: "\<exists>s. r = Inr s" if "case r of Inr _ \<Rightarrow> True | Inl _ \<Rightarrow> False" for r :: "string res"
    using that by (cases r) auto
  show "\<exists>s. canonicalizeEntry demo_host (event_intent demo_hash demo_intent (jint 12) ''p'') = Inr s"
    by (rule ok) code_simp
  show "\<exists>s. canonicalizeEntry demo_host (event_decision demo_hash ''ALLOW'' [] (JStr ''v1'') (jint 12) ''p'') = Inr s"
    by (rule ok) code_simp
  show "\<exists>s. canonicalizeEntry demo_host (event_auth demo_hash demo_hash (jint 72) (jint 12) ''p'') = Inr s"
    by (rule ok) code_simp
qed

theorem demo_run:
  "\<exists>e'. evaluatePure demo_host demo_intent demo_state (jint 12) mode demo_engine =
    (Inr (PAllow demo_authorization demo_next), e')"
proof -
  have quiet: "\<not> has_auditSink (opts demo_engine)" "checkpoint_every_n_events (opts demo_engine) = None"
    by (simp_all add: demo_engine_def demo_opts_def)
  obtain s1 s2 s3 where ev: "canonicalizeEntry demo_host (event_intent demo_hash demo_intent (jint 12) ''p'') = Inr s1"
    "canonicalizeEntry demo_host (event_decision demo_hash ''ALLOW'' [] (getp demo_state ''policy_version'') (jint 12) ''p'') = Inr s2"
    "canonicalizeEntry demo_host (event_auth demo_hash demo_hash (jint 72) (jint 12) ''p'') = Inr s3"
    unfolding demo_signatures(5) using demo_events by blast
  let ?iss = "\<lparr>iss_authorization = demo_authorization, iss_id = demo_hash, iss_expires_at = jint 72\<rparr>"
  have "\<exists>e'. evaluatePure demo_host demo_intent demo_state (jint 12) mode demo_engine =
      (Inr (PAllow (iss_authorization ?iss) demo_next), e')"
    by (rule allowI [OF quiet demo_steps(1-4) demo_permit demo_materialize demo_issue])
      (simp_all add: demo_steps(5) demo_lease ev)
  then show ?thesis by simp
qed

lemma demo_plain: "plain_state demo_state"
  by code_simp

end
