(* ===== verification/EngineProperties.thy ===== *)
theory EngineProperties
  imports EngineRun DemoRun
begin

text \<open>
  The properties of the policy engine: what an ALLOW means for the caller, and what no sequence of
  evaluations can do.
\<close>

section \<open>The run of the demo\<close>

lemma demo_evolves:
  "\<exists>e'. evolves demo_host demo_engine demo_state 0 [(demo_intent, 12)] e' demo_next 12"
proof -
  obtain e' where "evaluatePure demo_host demo_intent demo_state (jint 12) FailFast demo_engine =
      (Inr (PAllow demo_authorization demo_next), e')"
    using demo_run by blast
  then have "evolves demo_host demo_engine demo_state 0 ([] @ [(demo_intent, 12)]) e' demo_next 12"
    by (intro admit [OF start]) simp_all
  then show ?thesis by auto
qed

section \<open>Replay\<close>

text \<open>
  C1: No intent is admitted twice. Over any run of evaluations on a trusted clock that does not run
  backwards, with any interleaving of agents, refusals and failures, no two admissions share agent,
  nonce and timestamp; in particular a captured intent cannot be replayed, whatever replay window the
  state configures.
\<close>
theorem no_intent_admitted_twice:
  assumes "evolves h e0 st0 c0 tr e st c" and "plain_state st0"
  shows "distinct (map (\<lambda>(i, k). (agent_id i, nonce i, timestamp i)) tr)"
  using assms by (rule evolves_distinct)

theorem no_intent_admitted_twice_witness:
  "\<exists>e'. evolves demo_host demo_engine demo_state 0 [(demo_intent, 12)] e' demo_next 12 \<and>
    distinct (map (\<lambda>(i, k). (agent_id i, nonce i, timestamp i)) [(demo_intent, 12 :: int)])"
  using demo_evolves no_intent_admitted_twice [OF _ demo_plain] by blast

section \<open>Budgets\<close>

text \<open>
  C2: An admitted EXECUTE is within the agent's cap and budget, and is paid for: the amount is not
  negative, at most the per-action cap, the sum with the previous spending at most the limit, and the
  next state has exactly that sum as the agent's spending. The type checks of the state guards are
  enough; no well-typedness of the accounts is assumed.
\<close>
theorem execute_within_budget:
  assumes "evaluatePure h i st (jint t) mode e = (Inr (PAllow a nx), e')" and "plain_state st"
    and "effective_type i = EXECUTE"
  shows "\<exists>limit cap spent. account st (agent_id i) limit cap spent \<and> 0 \<le> amount i \<and> amount i \<le> cap \<and>
    spent + amount i \<le> limit \<and> account nx (agent_id i) limit cap (spent + amount i)"
  using assms
proof (rule after_budget)
  fix limit cap spent
  assume acc: "account st (agent_id i) limit cap spent"
    and b: "0 \<le> amount i" "amount i \<le> cap" "spent + amount i \<le> limit"
  have "account nx (agent_id i) limit cap (spent + spending (agent_id i) [(i, t)])"
    using assms(1,2) acc by (rule account_after)
  moreover have "spending (agent_id i) [(i, t)] = amount i" using assms(3) by (simp add: spending_def)
  ultimately show ?thesis using acc b by auto
qed

theorem execute_within_budget_witness:
  "\<exists>limit cap spent. account demo_state (agent_id demo_intent) limit cap spent \<and> 0 \<le> amount demo_intent \<and>
    amount demo_intent \<le> cap \<and> spent + amount demo_intent \<le> limit \<and>
    account demo_next (agent_id demo_intent) limit cap (spent + amount demo_intent)"
  using demo_run [of FailFast] execute_within_budget [OF _ demo_plain demo_type] by blast

text \<open>
  C3: Over a whole run an agent spends no more than its budget allows: what all its admitted EXECUTE
  intents add up to is exactly the growth of its recorded spending, and together with the spending at
  the start it stays within the limit (nothing was admitted at all where the start is beyond it).
\<close>
theorem run_within_budget:
  assumes "evolves h e0 st0 c0 tr e st c" and "plain_state st0" and "account st0 b limit cap spent"
  shows "account st b limit cap (spent + spending b tr) \<and> (spending b tr = 0 \<or> spent + spending b tr \<le> limit)"
  using evolves_account [OF assms] by blast

theorem run_within_budget_witness:
  "\<exists>st. account st ''a'' 9 5 (1 + spending ''a'' [(demo_intent, 12)]) \<and>
    (spending ''a'' [(demo_intent, 12)] = 0 \<or> 1 + spending ''a'' [(demo_intent, 12)] \<le> 9)"
proof -
  have "account demo_state ''a'' 9 5 1" by code_simp
  with run_within_budget [OF _ demo_plain this] demo_evolves show ?thesis by blast
qed

section \<open>Guards of every ALLOW\<close>

text \<open>
  C4: The kill switch is absolute: no intent, EXECUTE or RELEASE, is admitted while the global switch
  is on or the switch of its agent is on.
\<close>
theorem kill_switch_denies:
  assumes "evaluatePure h i st t mode e = (Inr (PAllow a nx), e')"
  shows "path st [''kill_switch'', ''global''] = JBool False \<and>
    path st [''kill_switch'', ''agents'', agent_id i] \<noteq> JBool True"
proof -
  let ?m = "\<lparr>m_id = ''KillSwitchModule'', m_eval = KillSwitchModule\<rparr>"
  note rt = precheck_None(3) [OF allows_pre [OF assms]]
  have "?m \<in> set (engine_modules h i)" by (simp add: module_lists)
  from assms runtime_is_plain [OF rt] this
  obtain d where "KillSwitchModule i st (engine_ctx e t) = Inr (Allow d)"
    by (rule allow_module) simp_all
  note k = KillSwitch_Allow(1,2) [OF this]
  have "is_bool (path st [''kill_switch'', ''global''])" using runtime_objects [OF rt] by blast
  with k show ?thesis by (cases "path st [''kill_switch'', ''global'']") auto
qed

theorem kill_switch_denies_witness:
  "path demo_state [''kill_switch'', ''global''] = JBool False \<and>
    path demo_state [''kill_switch'', ''agents'', agent_id demo_intent] \<noteq> JBool True"
  using demo_run [of FailFast] kill_switch_denies by blast

text \<open>
  C5: Only fresh intents are admitted, judged by the trusted clock alone: the intent's timestamp is a
  number of whole seconds at most the skew ahead of the clock and at most the maximal age behind it.
\<close>
theorem only_fresh_admitted:
  assumes "evaluatePure h i st (jint t) mode e = (Inr (PAllow a nx), e')"
  shows "\<exists>s skew age. timestamp i = jint s \<and> 0 \<le> s \<and> to_number (maxClockSkewSeconds (opts e)) = jint skew \<and>
    to_number (maxIntentAgeSeconds (opts e)) = jint age \<and> t - age \<le> s \<and> s \<le> t + skew"
  using assms by (rule allow_fresh) (simp add: add.commute)

theorem only_fresh_admitted_witness:
  "\<exists>s skew age. timestamp demo_intent = jint s \<and> 0 \<le> s \<and>
    to_number (maxClockSkewSeconds (opts demo_engine)) = jint skew \<and>
    to_number (maxIntentAgeSeconds (opts demo_engine)) = jint age \<and> 12 - age \<le> s \<and> s \<le> 12 + skew"
  using demo_run [of FailFast] only_fresh_admitted by blast

text \<open>
  C6: An ALLOW leads from a well-shaped runtime state to a well-shaped runtime state: the next state
  passes the engine's own structural checks again, its containers are objects, and no object of it has
  a key twice.
\<close>
theorem allow_keeps_state_valid:
  assumes "evaluatePure h i st t mode e = (Inr (PAllow a nx), e')" and "plain_state st"
  shows "plain_state nx"
  using assms by (rule allow_keeps_plain)

theorem allow_keeps_state_valid_witness: "plain_state demo_next"
  using demo_run [of FailFast] allow_keeps_state_valid [OF _ demo_plain] by blast

end
