(* ===== verification/VerificationTypes.thy ===== *)
theory VerificationTypes
  imports Signatures CodecBase
begin

text \<open>
  \<open>verification/types.ts\<close>, \<open>authorizationAuthority.ts\<close> and \<open>delegationAuthority.ts\<close>: the violations
  a verifier reports, their order, the result of a verification, and the trust configuration (key sets,
  authorities) the verifiers share.
\<close>

section \<open>Violations\<close>

datatype violation_code =
    MALFORMED_EVENT | POLICY_ID_MISSING | POLICY_ID_MISMATCH | MIXED_POLICY_ID | NON_MONOTONIC_TIMESTAMP
  | HASH_CHAIN_INVALID | NO_STATE_ANCHOR | SNAPSHOT_CORRUPT | ENVELOPE_MALFORMED | AUTH_DECISION_INVALID
  | AUTH_EXPIRED | AUTH_ISSUED_AT_IMPLAUSIBLE | AUTH_MISSING_FIELD | AUTH_ISSUER_MISMATCH
  | AUTH_AUDIENCE_MISMATCH | AUTH_POLICY_ID_MISMATCH | AUTH_ISSUER_POLICY_NOT_AUTHORIZED | AUTH_REPLAY
  | AUTH_ID_NONCANONICAL | AUTH_ALG_UNSUPPORTED | AUTH_KID_UNKNOWN | AUTH_SIGNATURE_INVALID
  | AUTH_TRUST_MISSING | AUTH_KEY_INACTIVE | ENVELOPE_SIGNATURE_MISSING | ENVELOPE_SIGNATURE_INVALID
  | ENVELOPE_ALG_UNSUPPORTED | ENVELOPE_KID_UNKNOWN | ENVELOPE_TRUST_MISSING | ENVELOPE_KEY_INACTIVE
  | DELEGATION_MISSING_FIELD | DELEGATION_ALG_UNSUPPORTED | DELEGATION_SIGNATURE_INVALID
  | DELEGATION_KID_UNKNOWN | DELEGATION_TRUST_MISSING | DELEGATION_KEY_INACTIVE | DELEGATION_EXPIRED
  | DELEGATION_PARENT_HASH_MISMATCH | DELEGATION_PARENT_EXPIRED | DELEGATION_DELEGATOR_MISMATCH
  | DELEGATION_SIGNER_NOT_AUTHORIZED | DELEGATION_POLICY_ID_MISMATCH | DELEGATION_EXPIRY_EXCEEDS_PARENT
  | DELEGATION_AUDIENCE_MISMATCH | DELEGATION_POLICY_MISMATCH | DELEGATION_SCOPE_VIOLATION
  | DELEGATION_MULTIHOP_DENIED | DELEGATION_REPLAY | DELEGATION_ID_NONCANONICAL
  | DELEGATION_TEMPORAL_INVALID | DELEGATION_ISSUED_AT_IMPLAUSIBLE | TRUSTED_KEYSETS_REQUIRED
  | KRL_MALFORMED | KRL_UNSUPPORTED_ALG | KRL_UNKNOWN_SIGNING_KID | KRL_SIGNING_KEY_INACTIVE
  | KRL_SIG_INVALID | KRL_EXPIRED | KRL_VERSION_REGRESSION

primrec code_str :: "violation_code \<Rightarrow> string" where
  "code_str MALFORMED_EVENT = ''MALFORMED_EVENT''"
| "code_str POLICY_ID_MISSING = ''POLICY_ID_MISSING''"
| "code_str POLICY_ID_MISMATCH = ''POLICY_ID_MISMATCH''"
| "code_str MIXED_POLICY_ID = ''MIXED_POLICY_ID''"
| "code_str NON_MONOTONIC_TIMESTAMP = ''NON_MONOTONIC_TIMESTAMP''"
| "code_str HASH_CHAIN_INVALID = ''HASH_CHAIN_INVALID''"
| "code_str NO_STATE_ANCHOR = ''NO_STATE_ANCHOR''"
| "code_str SNAPSHOT_CORRUPT = ''SNAPSHOT_CORRUPT''"
| "code_str ENVELOPE_MALFORMED = ''ENVELOPE_MALFORMED''"
| "code_str AUTH_DECISION_INVALID = ''AUTH_DECISION_INVALID''"
| "code_str AUTH_EXPIRED = ''AUTH_EXPIRED''"
| "code_str AUTH_ISSUED_AT_IMPLAUSIBLE = ''AUTH_ISSUED_AT_IMPLAUSIBLE''"
| "code_str AUTH_MISSING_FIELD = ''AUTH_MISSING_FIELD''"
| "code_str AUTH_ISSUER_MISMATCH = ''AUTH_ISSUER_MISMATCH''"
| "code_str AUTH_AUDIENCE_MISMATCH = ''AUTH_AUDIENCE_MISMATCH''"
| "code_str AUTH_POLICY_ID_MISMATCH = ''AUTH_POLICY_ID_MISMATCH''"
| "code_str AUTH_ISSUER_POLICY_NOT_AUTHORIZED = ''AUTH_ISSUER_POLICY_NOT_AUTHORIZED''"
| "code_str AUTH_REPLAY = ''AUTH_REPLAY''"
| "code_str AUTH_ID_NONCANONICAL = ''AUTH_ID_NONCANONICAL''"
| "code_str AUTH_ALG_UNSUPPORTED = ''AUTH_ALG_UNSUPPORTED''"
| "code_str AUTH_KID_UNKNOWN = ''AUTH_KID_UNKNOWN''"
| "code_str AUTH_SIGNATURE_INVALID = ''AUTH_SIGNATURE_INVALID''"
| "code_str AUTH_TRUST_MISSING = ''AUTH_TRUST_MISSING''"
| "code_str AUTH_KEY_INACTIVE = ''AUTH_KEY_INACTIVE''"
| "code_str ENVELOPE_SIGNATURE_MISSING = ''ENVELOPE_SIGNATURE_MISSING''"
| "code_str ENVELOPE_SIGNATURE_INVALID = ''ENVELOPE_SIGNATURE_INVALID''"
| "code_str ENVELOPE_ALG_UNSUPPORTED = ''ENVELOPE_ALG_UNSUPPORTED''"
| "code_str ENVELOPE_KID_UNKNOWN = ''ENVELOPE_KID_UNKNOWN''"
| "code_str ENVELOPE_TRUST_MISSING = ''ENVELOPE_TRUST_MISSING''"
| "code_str ENVELOPE_KEY_INACTIVE = ''ENVELOPE_KEY_INACTIVE''"
| "code_str DELEGATION_MISSING_FIELD = ''DELEGATION_MISSING_FIELD''"
| "code_str DELEGATION_ALG_UNSUPPORTED = ''DELEGATION_ALG_UNSUPPORTED''"
| "code_str DELEGATION_SIGNATURE_INVALID = ''DELEGATION_SIGNATURE_INVALID''"
| "code_str DELEGATION_KID_UNKNOWN = ''DELEGATION_KID_UNKNOWN''"
| "code_str DELEGATION_TRUST_MISSING = ''DELEGATION_TRUST_MISSING''"
| "code_str DELEGATION_KEY_INACTIVE = ''DELEGATION_KEY_INACTIVE''"
| "code_str DELEGATION_EXPIRED = ''DELEGATION_EXPIRED''"
| "code_str DELEGATION_PARENT_HASH_MISMATCH = ''DELEGATION_PARENT_HASH_MISMATCH''"
| "code_str DELEGATION_PARENT_EXPIRED = ''DELEGATION_PARENT_EXPIRED''"
| "code_str DELEGATION_DELEGATOR_MISMATCH = ''DELEGATION_DELEGATOR_MISMATCH''"
| "code_str DELEGATION_SIGNER_NOT_AUTHORIZED = ''DELEGATION_SIGNER_NOT_AUTHORIZED''"
| "code_str DELEGATION_POLICY_ID_MISMATCH = ''DELEGATION_POLICY_ID_MISMATCH''"
| "code_str DELEGATION_EXPIRY_EXCEEDS_PARENT = ''DELEGATION_EXPIRY_EXCEEDS_PARENT''"
| "code_str DELEGATION_AUDIENCE_MISMATCH = ''DELEGATION_AUDIENCE_MISMATCH''"
| "code_str DELEGATION_POLICY_MISMATCH = ''DELEGATION_POLICY_MISMATCH''"
| "code_str DELEGATION_SCOPE_VIOLATION = ''DELEGATION_SCOPE_VIOLATION''"
| "code_str DELEGATION_MULTIHOP_DENIED = ''DELEGATION_MULTIHOP_DENIED''"
| "code_str DELEGATION_REPLAY = ''DELEGATION_REPLAY''"
| "code_str DELEGATION_ID_NONCANONICAL = ''DELEGATION_ID_NONCANONICAL''"
| "code_str DELEGATION_TEMPORAL_INVALID = ''DELEGATION_TEMPORAL_INVALID''"
| "code_str DELEGATION_ISSUED_AT_IMPLAUSIBLE = ''DELEGATION_ISSUED_AT_IMPLAUSIBLE''"
| "code_str TRUSTED_KEYSETS_REQUIRED = ''TRUSTED_KEYSETS_REQUIRED''"
| "code_str KRL_MALFORMED = ''KRL_MALFORMED''"
| "code_str KRL_UNSUPPORTED_ALG = ''KRL_UNSUPPORTED_ALG''"
| "code_str KRL_UNKNOWN_SIGNING_KID = ''KRL_UNKNOWN_SIGNING_KID''"
| "code_str KRL_SIGNING_KEY_INACTIVE = ''KRL_SIGNING_KEY_INACTIVE''"
| "code_str KRL_SIG_INVALID = ''KRL_SIG_INVALID''"
| "code_str KRL_EXPIRED = ''KRL_EXPIRED''"
| "code_str KRL_VERSION_REGRESSION = ''KRL_VERSION_REGRESSION''"

record violation =
  v_code :: violation_code
  v_message :: string
  v_index :: "nat option"

text \<open>\<open>violation_if c k m\<close> is the list an \<open>if\<close> with one \<open>push\<close> adds to the violations.\<close>

definition violation_if :: "bool \<Rightarrow> violation_code \<Rightarrow> string \<Rightarrow> violation list" where
  "violation_if c k m = (if c then [\<lparr>v_code = k, v_message = m, v_index = None\<rparr>] else [])"

lemma violation_if_Nil [simp]: "violation_if c k m = [] \<longleftrightarrow> \<not> c"
  by (simp add: violation_if_def)

lemma violation_if_simps [simp]:
  "violation_if False k m = []" "violation_if True k m = [\<lparr>v_code = k, v_message = m, v_index = None\<rparr>]"
  by (simp_all add: violation_if_def)

definition index_of :: "violation \<Rightarrow> nat" where
  "index_of v = (case v_index v of Some j \<Rightarrow> j | None \<Rightarrow> 0)"

definition sortViolations :: "violation list \<Rightarrow> violation list" where
  "sortViolations =
     sort_by (\<lambda>a b. u16_key (code_str (v_code a)) < u16_key (code_str (v_code b)) \<or>
                    code_str (v_code a) = code_str (v_code b) \<and> index_of a < index_of b)"

text \<open>The variant of \<open>verifyDelegation.ts\<close> and \<open>verifySignedKrl.ts\<close>, by code alone.\<close>

definition sortByCode :: "violation list \<Rightarrow> violation list" where
  "sortByCode = sort_by (\<lambda>a b. u16_key (code_str (v_code a)) < u16_key (code_str (v_code b)))"

lemma set_sortViolations [simp]: "set (sortViolations vs) = set vs"
  by (simp add: sortViolations_def)

lemma set_sortByCode [simp]: "set (sortByCode vs) = set vs"
  by (simp add: sortByCode_def)

lemma sort_Nil [simp]: "sortViolations [] = []" "sortByCode [] = []"
  by (simp_all add: sortViolations_def sortByCode_def sort_by_def)

section \<open>Results\<close>

datatype verification_status = Ok | Invalid | Inconclusive

record verification_result =
  vr_ok :: bool
  vr_status :: verification_status
  vr_violations :: "violation list"
  vr_policyId :: jsval
  vr_stateHash :: jsval
  vr_auditHeadHash :: "string option"

record authorization_result = verification_result +
  signatureVerified :: bool
  verificationMode :: verification_mode
  verificationCoverage :: verification_coverage

definition text_or_undefined :: "jsval \<Rightarrow> jsval" where
  "text_or_undefined v = (if has_text v then v else JUndef)"

section \<open>Trust configuration\<close>

text \<open>\<open>trustedKeySets?: KeySet | readonly KeySet[]\<close>, and the list every verifier makes of it.\<close>

datatype trusted_key_sets = OneKeySet keyset | KeySets "keyset list"

fun trusted_list :: "trusted_key_sets option \<Rightarrow> keyset list" where
  "trusted_list None = []"
| "trusted_list (Some (OneKeySet ks)) = [ks]"
| "trusted_list (Some (KeySets kss)) = kss"

record authorization_authority =
  aa_issuer :: string
  aa_policyId :: string

definition isTrustedAuthorizationAuthority :: "authorization_authority list \<Rightarrow> jsval \<Rightarrow> jsval \<Rightarrow> bool" where
  "isTrustedAuthorizationAuthority authorities issuer policyId =
     (if \<not> has_text issuer then False
      else if \<not> has_text policyId then False
      else list_ex (\<lambda>a. JStr (aa_issuer a) = issuer \<and> JStr (aa_policyId a) = policyId) authorities)"

record delegation_authority =
  da_delegator :: string
  da_issuer :: string

definition isTrustedDelegationAuthority :: "delegation_authority list \<Rightarrow> jsval \<Rightarrow> jsval \<Rightarrow> bool" where
  "isTrustedDelegationAuthority authorities delegator issuer =
     (if \<not> has_text delegator then False
      else if \<not> has_text issuer then False
      else list_ex (\<lambda>a. JStr (da_delegator a) = delegator \<and> JStr (da_issuer a) = issuer) authorities)"

text \<open>The pair is the unit of authority: only pairs that are listed are accepted.\<close>

lemma authority_pair:
  "isTrustedAuthorizationAuthority as i p \<longleftrightarrow>
     (\<exists>a \<in> set as. i = JStr (aa_issuer a) \<and> p = JStr (aa_policyId a) \<and> aa_issuer a \<noteq> [] \<and> aa_policyId a \<noteq> [])"
  by (auto simp: isTrustedAuthorizationAuthority_def list_ex_iff has_text_def)

lemma delegation_pair:
  "isTrustedDelegationAuthority as d i \<longleftrightarrow>
     (\<exists>a \<in> set as. d = JStr (da_delegator a) \<and> i = JStr (da_issuer a) \<and> da_delegator a \<noteq> [] \<and> da_issuer a \<noteq> [])"
  by (auto simp: isTrustedDelegationAuthority_def list_ex_iff has_text_def)

text \<open>\<open>now !== undefined ? now : Math.floor(Date.now() / 1000)\<close>, with the reading of the clock.\<close>

definition nowSeconds :: "jsnum \<Rightarrow> jsnum option \<Rightarrow> jsnum" where
  "nowSeconds clock now = (case now of Some t \<Rightarrow> t | None \<Rightarrow> clock)"

definition DEFAULT_MAX_FUTURE_ISSUED_AT_SKEW_SECONDS :: jsnum where
  "DEFAULT_MAX_FUTURE_ISSUED_AT_SKEW_SECONDS = jint 300"

text \<open>\<open>resolveMaxFutureIssuedAtSkewSeconds\<close>, which both verifiers have, with their own name in the message.\<close>

definition resolveMaxFutureIssuedAtSkewSeconds :: "string \<Rightarrow> jsval \<Rightarrow> jsnum res" where
  "resolveMaxFutureIssuedAtSkewSeconds who v =
     (if v = JUndef then Inr DEFAULT_MAX_FUTURE_ISSUED_AT_SKEW_SECONDS
      else if \<not> v_safe_integer v \<or> js_lt v (JNum (jint 0))
      then Inl (Thrown (who @ '': maxFutureIssuedAtSkewSeconds must be a finite, non-negative safe integer (seconds)''))
      else Inr (to_number v))"

end
