(* ===== verification/Schemas.thy ===== *)
theory Schemas
  imports VerificationTypes
begin

text \<open>
  \<open>schemas/validate.ts\<close>: the structural validators of the wire formats. Each returns the list of issues it
  found, sorted; a value is accepted when the list is empty. \<open>"k" in v\<close> is \<open>has_prop\<close>, which also
  sees what every object inherits.
\<close>

section \<open>Issues\<close>

datatype issue_code = I_TYPE | I_REQUIRED | I_ENUM | I_FORMAT | I_ADDITIONAL | I_VALUE

fun issue_code_str :: "issue_code \<Rightarrow> string" where
  "issue_code_str I_TYPE = ''TYPE''"
| "issue_code_str I_REQUIRED = ''REQUIRED''"
| "issue_code_str I_ENUM = ''ENUM''"
| "issue_code_str I_FORMAT = ''FORMAT''"
| "issue_code_str I_ADDITIONAL = ''ADDITIONAL''"
| "issue_code_str I_VALUE = ''VALUE''"

record schema_issue =
  i_path :: string
  i_code :: issue_code
  i_message :: string

definition issue_if :: "bool \<Rightarrow> string \<Rightarrow> issue_code \<Rightarrow> string \<Rightarrow> schema_issue list" where
  "issue_if c p k m = (if c then [\<lparr>i_path = p, i_code = k, i_message = m\<rparr>] else [])"

lemma issue_if_simps [simp]:
  "issue_if c p k m = [] \<longleftrightarrow> \<not> c" "issue_if False p k m = []"
  "issue_if True p k m = [\<lparr>i_path = p, i_code = k, i_message = m\<rparr>]"
  by (simp_all add: issue_if_def)

definition issue_lt :: "schema_issue \<Rightarrow> schema_issue \<Rightarrow> bool" where
  "issue_lt a b =
     (if i_path a \<noteq> i_path b then u16_key (i_path a) < u16_key (i_path b)
      else if i_code a \<noteq> i_code b
      then u16_key (issue_code_str (i_code a)) < u16_key (issue_code_str (i_code b))
      else u16_key (i_message a) < u16_key (i_message b))"

definition sorted_issues :: "schema_issue list \<Rightarrow> schema_issue list" where
  "sorted_issues = sort_by issue_lt"

lemma sorted_issues_Nil [simp]: "sorted_issues is = [] \<longleftrightarrow> is = []"
proof -
  have "set (sorted_issues is) = set is" by (simp add: sorted_issues_def)
  then show ?thesis by (metis set_empty)
qed

definition hex64 :: "jsval \<Rightarrow> bool" where
  "hex64 v = (case v of JStr s \<Rightarrow> length s = 64 \<and> list_all is_lower_hex s | _ \<Rightarrow> False)"

definition intNonNegative :: "jsval \<Rightarrow> bool" where
  "intNonNegative v = (v_integer v \<and> js_le (JNum (jint 0)) v)"

definition integer_text :: "string \<Rightarrow> bool" where  \<comment> \<open>\<open>/^-?[0-9]+n?$/\<close>\<close>
  "integer_text s =
     (let s1 = (if s \<noteq> [] \<and> hd s = CHR ''-'' then tl s else s);
          s2 = (if s1 \<noteq> [] \<and> last s1 = CHR ''n'' then butlast s1 else s1)
      in s2 \<noteq> [] \<and> list_all is_digit s2)"

definition bigintLike :: "jsval \<Rightarrow> bool" where
  "bigintLike v = (v_integer v \<or> (case v of JStr s \<Rightarrow> integer_text s | _ \<Rightarrow> False))"

definition base64_text :: "string \<Rightarrow> bool" where  \<comment> \<open>\<open>/^[A-Za-z0-9+/]+={0,2}$/\<close>\<close>
  "base64_text s =
     (let body = takeWhile (\<lambda>c. c \<in> set b64_alphabet) s; pad = dropWhile (\<lambda>c. c \<in> set b64_alphabet) s
      in body \<noteq> [] \<and> (pad = [] \<or> pad = ''='' \<or> pad = ''==''))"

definition pushAdditional :: "jsval \<Rightarrow> string list \<Rightarrow> string \<Rightarrow> schema_issue list" where
  "pushAdditional obj allowed p =
     map (\<lambda>key. \<lparr>i_path = p @ ''.'' @ key, i_code = I_ADDITIONAL, i_message = ''unknown field''\<rparr>)
       (sort_u16 (filter (\<lambda>k. k \<notin> set allowed) (obj_keys obj)))"

definition missing_fields :: "jsval \<Rightarrow> string list \<Rightarrow> string \<Rightarrow> schema_issue list" where
  "missing_fields obj required p =
     concat (map (\<lambda>key. issue_if (\<not> has_prop obj key) p I_REQUIRED (''missing '' @ key)) required)"

lemma missing_fields_Nil [simp]: "missing_fields v ks p = [] \<longleftrightarrow> (\<forall>k \<in> set ks. has_prop v k)"
  by (auto simp: missing_fields_def)

lemma pushAdditional_Nil [simp]: "pushAdditional v ks p = [] \<longleftrightarrow> set (obj_keys v) \<subseteq> set ks"
proof -
  have "sort_u16 xs = [] \<longleftrightarrow> xs = []" for xs
    by (metis set_sort_u16 set_empty)
  then show ?thesis by (auto simp: pushAdditional_def filter_empty_conv)
qed

text \<open>\<open>"k" in v && !(good v.k)\<close>\<close>

definition has_bad :: "jsval \<Rightarrow> string \<Rightarrow> (jsval \<Rightarrow> bool) \<Rightarrow> bool" where
  "has_bad v k good = (has_prop v k \<and> \<not> good (getp v k))"

definition non_empty :: string where
  "non_empty = ''must be non-empty string''"

definition lower_hex :: string where
  "lower_hex = ''must be 64-char lowercase hex''"

definition not_negative :: string where
  "not_negative = ''must be non-negative integer''"

section \<open>Snapshots\<close>

definition validateCanonicalStateJson :: "jsval \<Rightarrow> schema_issue list" where
  "validateCanonicalStateJson v =
     (if \<not> is_plain v then issue_if True ''$'' I_TYPE ''must be object''
      else let required = [''formatVersion'', ''engineVersion'', ''policyId'', ''modules'']
           in sorted_issues
                (missing_fields v required ''$'' @ pushAdditional v required ''$''
                 @ issue_if (has_bad v ''formatVersion'' (\<lambda>x. x = JNum (jint 1))) ''$.formatVersion'' I_VALUE ''must equal 1''
                 @ issue_if (has_bad v ''engineVersion'' is_string) ''$.engineVersion'' I_TYPE ''must be string''
                 @ issue_if (has_bad v ''policyId'' has_text) ''$.policyId'' I_TYPE non_empty
                 @ issue_if (has_bad v ''modules'' is_plain) ''$.modules'' I_TYPE ''must be object''))"

section \<open>Authorizations\<close>

definition AUTHORIZATION_REQUIRED :: "string list" where
  "AUTHORIZATION_REQUIRED =
     [''auth_id'', ''issuer'', ''audience'', ''intent_hash'', ''state_hash'', ''policy_id'', ''decision'',
      ''issued_at'', ''expiry'', ''alg'', ''kid'', ''signature'']"

definition AUTHORIZATION_ALLOWED :: "string list" where
  "AUTHORIZATION_ALLOWED =
     AUTHORIZATION_REQUIRED
     @ [''nonce'', ''capability'', ''signature'', ''authorization_id'', ''policy_version'',
        ''state_snapshot_hash'', ''expires_at'', ''engine_signature'']"

definition is_alg :: "jsval \<Rightarrow> bool" where
  "is_alg v = (v = JStr ''Ed25519'' \<or> v = JStr ''HMAC-SHA256'')"

definition is_decision :: "jsval \<Rightarrow> bool" where
  "is_decision v = (v = JStr ''ALLOW'' \<or> v = JStr ''DENY'')"

definition signature_issues :: "jsval \<Rightarrow> schema_issue list" where
  "signature_issues v =
     (let sig = getp v ''signature''
      in if \<not> has_prop v ''signature'' \<or> sig = JUndef \<or> is_string sig then []
         else if is_plain sig
         then issue_if (\<not> is_alg (getp sig ''alg'')) ''$.signature.alg'' I_ENUM ''must be Ed25519 or HMAC-SHA256''
              @ issue_if (\<not> has_text (getp sig ''kid'')) ''$.signature.kid'' I_TYPE non_empty
              @ issue_if (\<not> has_text (getp sig ''sig'')) ''$.signature.sig'' I_TYPE non_empty
         else issue_if True ''$.signature'' I_TYPE ''must be string or signature object when present'')"

definition validateAuthorizationJson :: "jsval \<Rightarrow> schema_issue list" where
  "validateAuthorizationJson v =
     (if \<not> is_plain v then issue_if True ''$'' I_TYPE ''must be object''
      else sorted_issues
        (missing_fields v AUTHORIZATION_REQUIRED ''$'' @ pushAdditional v AUTHORIZATION_ALLOWED ''$''
         @ issue_if (has_bad v ''auth_id'' has_text) ''$.auth_id'' I_TYPE non_empty
         @ issue_if (has_bad v ''issuer'' has_text) ''$.issuer'' I_TYPE non_empty
         @ issue_if (has_bad v ''audience'' has_text) ''$.audience'' I_TYPE non_empty
         @ issue_if (has_bad v ''authorization_id'' hex64) ''$.authorization_id'' I_FORMAT lower_hex
         @ issue_if (has_bad v ''intent_hash'' hex64) ''$.intent_hash'' I_FORMAT lower_hex
         @ issue_if (has_bad v ''state_hash'' hex64) ''$.state_hash'' I_FORMAT lower_hex
         @ issue_if (has_bad v ''policy_id'' hex64) ''$.policy_id'' I_FORMAT lower_hex
         @ issue_if (has_bad v ''policy_version'' is_string) ''$.policy_version'' I_TYPE ''must be string''
         @ issue_if (has_bad v ''state_snapshot_hash'' hex64) ''$.state_snapshot_hash'' I_FORMAT lower_hex
         @ issue_if (has_bad v ''decision'' is_decision) ''$.decision'' I_ENUM ''must be ALLOW or DENY''
         @ issue_if (has_bad v ''issued_at'' intNonNegative) ''$.issued_at'' I_TYPE not_negative
         @ issue_if (has_bad v ''expiry'' intNonNegative) ''$.expiry'' I_TYPE not_negative
         @ issue_if (has_bad v ''alg'' is_alg) ''$.alg'' I_ENUM ''must be Ed25519 or HMAC-SHA256''
         @ issue_if (has_bad v ''kid'' has_text) ''$.kid'' I_TYPE non_empty
         @ issue_if (has_bad v ''expires_at'' intNonNegative) ''$.expires_at'' I_TYPE not_negative
         @ issue_if (has_bad v ''engine_signature'' hex64) ''$.engine_signature'' I_FORMAT lower_hex
         @ signature_issues v))"

section \<open>Intents\<close>

definition INTENT_REQUIRED :: "string list" where
  "INTENT_REQUIRED =
     [''intent_id'', ''agent_id'', ''action_type'', ''amount'', ''target'', ''timestamp'', ''metadata_hash'',
      ''nonce'', ''signature'']"

definition validateIntentJson :: "host \<Rightarrow> jsval \<Rightarrow> schema_issue list" where
  "validateIntentJson h v =
     (if \<not> is_plain v then issue_if True ''$'' I_TYPE ''must be object''
      else let typeValue = getp v ''type''
           in sorted_issues
             (missing_fields v INTENT_REQUIRED ''$''
              @ issue_if (typeValue \<noteq> JUndef \<and> typeValue \<noteq> JStr ''EXECUTE'' \<and> typeValue \<noteq> JStr ''RELEASE'')
                  ''$.type'' I_ENUM ''must be EXECUTE or RELEASE''
              @ issue_if (typeValue = JStr ''RELEASE'' \<and> \<not> has_text (getp v ''authorization_id''))
                  ''$.authorization_id'' I_REQUIRED ''required for RELEASE''
              @ issue_if (has_bad v ''action_type'' (\<lambda>x. js_string h x \<in>
                    {''PAYMENT'', ''PURCHASE'', ''PROVISION'', ''ONCHAIN_TX''}))
                  ''$.action_type'' I_ENUM ''invalid action_type''
              @ issue_if (has_bad v ''amount'' bigintLike) ''$.amount'' I_TYPE ''must be integer/bigint-like string''
              @ issue_if (has_bad v ''nonce'' bigintLike) ''$.nonce'' I_TYPE ''must be integer/bigint-like string''
              @ issue_if (has_bad v ''timestamp'' intNonNegative) ''$.timestamp'' I_TYPE not_negative
              @ issue_if (has_bad v ''depth'' intNonNegative) ''$.depth'' I_TYPE not_negative
              @ pushAdditional v
                  (INTENT_REQUIRED @ [''asset'', ''depth'', ''type'', ''authorization_id'', ''tool'', ''tool_call''])
                  ''$''))"

section \<open>Audit events\<close>

definition text_field :: "jsval \<Rightarrow> string \<Rightarrow> schema_issue list" where
  "text_field v k = issue_if (\<not> has_text (getp v k)) (''$.'' @ k) I_TYPE non_empty"

definition string_field :: "jsval \<Rightarrow> string \<Rightarrow> schema_issue list" where
  "string_field v k = issue_if (\<not> is_string (getp v k)) (''$.'' @ k) I_TYPE ''must be string''"

fun is_string_array :: "jsval \<Rightarrow> bool" where
  "is_string_array (JArr xs) = list_all is_string xs"
| "is_string_array _ = False"

definition event_issues :: "jsval \<Rightarrow> schema_issue list" where
  "event_issues v =
     (let t = getp v ''type''
      in if t = JStr ''INTENT_RECEIVED''
         then text_field v ''intent_hash'' @ string_field v ''agent_id''
              @ pushAdditional v [''type'', ''intent_hash'', ''agent_id'', ''timestamp'', ''policyId''] ''$''
         else if t = JStr ''DECISION''
         then text_field v ''intent_hash''
              @ issue_if (\<not> is_decision (getp v ''decision'')) ''$.decision'' I_ENUM ''must be ALLOW or DENY''
              @ issue_if (\<not> is_string_array (getp v ''reasons'')) ''$.reasons'' I_TYPE ''must be string array''
              @ string_field v ''policy_version''
              @ pushAdditional v [''type'', ''intent_hash'', ''decision'', ''reasons'', ''policy_version'',
                  ''timestamp'', ''policyId''] ''$''
         else if t = JStr ''AUTH_EMITTED''
         then text_field v ''authorization_id'' @ text_field v ''intent_hash''
              @ issue_if (\<not> intNonNegative (getp v ''expires_at'')) ''$.expires_at'' I_TYPE not_negative
              @ pushAdditional v [''type'', ''authorization_id'', ''intent_hash'', ''expires_at'', ''timestamp'',
                  ''policyId''] ''$''
         else if t = JStr ''EXECUTION_ATTESTED''
         then text_field v ''intent_hash'' @ string_field v ''execution_ref''
              @ pushAdditional v [''type'', ''intent_hash'', ''execution_ref'', ''timestamp'', ''policyId''] ''$''
         else if t = JStr ''STATE_CHECKPOINT''
         then text_field v ''stateHash''
              @ pushAdditional v [''type'', ''stateHash'', ''timestamp'', ''policyId''] ''$''
         else issue_if True ''$.type'' I_ENUM ''unsupported event type'')"

definition validateAuditEventJson :: "jsval \<Rightarrow> schema_issue list" where
  "validateAuditEventJson v =
     (if \<not> is_plain v then issue_if True ''$'' I_TYPE ''must be object''
      else if \<not> has_prop v ''type'' \<or> \<not> is_string (getp v ''type'')
      then issue_if True ''$.type'' I_REQUIRED ''missing type''
      else sorted_issues
        (issue_if (\<not> has_prop v ''timestamp'' \<or> \<not> intNonNegative (getp v ''timestamp''))
           ''$.timestamp'' I_TYPE ''timestamp must be non-negative integer''
         @ issue_if (has_bad v ''policyId'' is_string) ''$.policyId'' I_TYPE ''policyId must be string''
         @ event_issues v))"

text \<open>\<open>issue.path.replace("$", r)\<close>: the first dollar sign.\<close>

definition replace_dollar :: "string \<Rightarrow> string \<Rightarrow> string" where
  "replace_dollar r p =
     (let a = takeWhile (\<lambda>c. c \<noteq> CHR ''$'') p; b = dropWhile (\<lambda>c. c \<noteq> CHR ''$'') p
      in if b = [] then a else a @ r @ tl b)"

definition indexed_issues :: "string \<Rightarrow> jsval list \<Rightarrow> schema_issue list" where
  "indexed_issues p xs =
     concat (map (\<lambda>(i, x). map (\<lambda>s. s\<lparr>i_path := replace_dollar (p @ ''['' @ nat_str i @ '']'') (i_path s)\<rparr>)
                             (validateAuditEventJson x)) (enumerate 0 xs))"

definition validateAuditLogJson :: "jsval \<Rightarrow> schema_issue list" where
  "validateAuditLogJson v =
     (case v of
        JArr xs \<Rightarrow> sorted_issues (indexed_issues ''$'' xs)
      | _ \<Rightarrow> issue_if True ''$'' I_TYPE ''must be array'')"

section \<open>Envelopes, key sets and results\<close>

definition validateVerificationEnvelopeWireJson :: "jsval \<Rightarrow> schema_issue list" where
  "validateVerificationEnvelopeWireJson v =
     (if \<not> is_plain v then issue_if True ''$'' I_TYPE ''must be object''
      else let required = [''formatVersion'', ''snapshot'', ''events'']
           in sorted_issues
             (missing_fields v required ''$''
              @ pushAdditional v (required @ [''issuer'', ''alg'', ''kid'', ''signature'']) ''$''
              @ issue_if (has_bad v ''formatVersion'' (\<lambda>x. x = JNum (jint 1))) ''$.formatVersion'' I_VALUE ''must equal 1''
              @ issue_if (has_bad v ''snapshot'' (\<lambda>x. case x of JStr s \<Rightarrow> base64_text s | _ \<Rightarrow> False))
                  ''$.snapshot'' I_FORMAT ''must be base64 string''
              @ (if has_bad v ''events'' is_array then issue_if True ''$.events'' I_TYPE ''must be array''
                 else case getp v ''events'' of JArr xs \<Rightarrow> indexed_issues ''$.events'' xs | _ \<Rightarrow> [])
              @ issue_if (has_bad v ''issuer'' is_string) ''$.issuer'' I_TYPE ''must be string''
              @ issue_if (has_bad v ''alg'' (\<lambda>x. x = JStr ''Ed25519'')) ''$.alg'' I_ENUM ''must be Ed25519''
              @ issue_if (has_bad v ''kid'' is_string) ''$.kid'' I_TYPE ''must be string''
              @ issue_if (has_bad v ''signature'' is_string) ''$.signature'' I_TYPE ''must be string''
              @ (if is_string (getp v ''signature'')
                 then issue_if (\<not> has_text (getp v ''issuer'')) ''$.issuer'' I_REQUIRED ''required when signature is present''
                      @ issue_if (getp v ''alg'' \<noteq> JStr ''Ed25519'') ''$.alg'' I_REQUIRED ''required when signature is present''
                      @ issue_if (\<not> has_text (getp v ''kid'')) ''$.kid'' I_REQUIRED ''required when signature is present''
                 else [])))"

definition is_status :: "jsval \<Rightarrow> bool" where
  "is_status v = (v = JStr ''active'' \<or> v = JStr ''retired'' \<or> v = JStr ''revoked'')"

definition key_issues :: "nat \<Rightarrow> jsval \<Rightarrow> schema_issue list" where
  "key_issues i k =
     (let p = ''$.keys['' @ nat_str i @ '']'';
          req = [''kid'', ''alg'', ''public_key'']
      in if \<not> is_plain k then issue_if True p I_TYPE ''must be object''
         else missing_fields k req p
              @ pushAdditional k [''kid'', ''alg'', ''public_key'', ''status'', ''not_before'', ''not_after''] p
              @ issue_if (has_bad k ''kid'' has_text) (p @ ''.kid'') I_TYPE non_empty
              @ issue_if (has_bad k ''alg'' is_alg) (p @ ''.alg'') I_ENUM ''must be Ed25519 or HMAC-SHA256''
              @ issue_if (has_bad k ''public_key'' has_text) (p @ ''.public_key'') I_TYPE non_empty
              @ issue_if (has_bad k ''status'' is_status) (p @ ''.status'') I_ENUM ''must be active, retired, or revoked''
              @ issue_if (has_bad k ''not_before'' intNonNegative) (p @ ''.not_before'') I_TYPE not_negative
              @ issue_if (has_bad k ''not_after'' intNonNegative) (p @ ''.not_after'') I_TYPE not_negative)"

definition validateKeySetJson :: "jsval \<Rightarrow> schema_issue list" where
  "validateKeySetJson v =
     (if \<not> is_plain v then issue_if True ''$'' I_TYPE ''must be object''
      else let required = [''issuer'', ''version'', ''keys'']
           in sorted_issues
             (missing_fields v required ''$'' @ pushAdditional v required ''$''
              @ issue_if (has_bad v ''issuer'' has_text) ''$.issuer'' I_TYPE non_empty
              @ issue_if (has_bad v ''version'' has_text) ''$.version'' I_TYPE non_empty
              @ (if has_bad v ''keys'' is_array then issue_if True ''$.keys'' I_TYPE ''must be array''
                 else case getp v ''keys'' of
                        JArr ks \<Rightarrow> concat (map (\<lambda>(i, k). key_issues i k) (enumerate 0 ks))
                      | _ \<Rightarrow> [])))"

definition validateVerificationResultJson :: "host \<Rightarrow> jsval \<Rightarrow> schema_issue list" where
  "validateVerificationResultJson h v =
     (if \<not> is_plain v then issue_if True ''$'' I_TYPE ''must be object''
      else sorted_issues
        (missing_fields v [''ok'', ''status'', ''violations''] ''$''
         @ issue_if (has_bad v ''ok'' is_bool) ''$.ok'' I_TYPE ''must be boolean''
         @ issue_if (has_bad v ''status'' (\<lambda>x. js_string h x \<in> {''ok'', ''invalid'', ''inconclusive''}))
             ''$.status'' I_ENUM ''invalid status''
         @ issue_if (has_bad v ''violations'' is_array) ''$.violations'' I_TYPE ''must be array''))"

definition mapIssuesToViolation :: "violation_code \<Rightarrow> schema_issue list \<Rightarrow> nat option \<Rightarrow> violation list" where
  "mapIssuesToViolation code issues index =
     map (\<lambda>s. \<lparr>v_code = code, v_message = i_path s @ '': '' @ i_message s, v_index = index\<rparr>) issues"

lemma mapIssues_Nil [simp]: "mapIssuesToViolation c is j = [] \<longleftrightarrow> is = []"
  by (simp add: mapIssuesToViolation_def)

lemma mapIssues_code: "v \<in> set (mapIssuesToViolation c is j) \<Longrightarrow> v_code v = c"
  by (auto simp: mapIssuesToViolation_def)

end
