(* ===== verification/VerifyAuthorization.thy ===== *)
theory VerifyAuthorization
  imports Schemas
begin

text \<open>
  \<open>verification/verifyAuthorization.ts\<close>: the two encodings of a signature, the signing payload, and the
  standalone verification of an authorization. The authorization is a JavaScript value from outside;
  the options are the relying party's own, as a record. \<open>clock\<close> is the reading of
  \<open>Math.floor(Date.now() / 1000)\<close>, used when no time is passed.
\<close>

section \<open>Signature encodings\<close>

record sig_parts =
  sp_alg :: jsval
  sp_kid :: jsval
  sp_sig :: jsval
  nested :: bool

definition signatureParts :: "jsval \<Rightarrow> sig_parts" where
  "signatureParts auth =
     (let raw = getp auth ''signature''
      in if is_plain raw
         then \<lparr>sp_alg = getp raw ''alg'', sp_kid = getp raw ''kid'', sp_sig = getp raw ''sig'', nested = True\<rparr>
         else \<lparr>sp_alg = getp auth ''alg'', sp_kid = getp auth ''kid'',
               sp_sig = (if is_string raw then raw else JUndef), nested = False\<rparr>)"

definition canonicalSignatureBytes :: "jsval \<Rightarrow> string option" where
  "canonicalSignatureBytes encoded =
     (case encoded of
        JStr s \<Rightarrow>
          (if s = [] then None
           else let bytes = b64_decode s
                in if length bytes = 64 \<and> to_base64 bytes = s then Some bytes
                   else if length bytes = 64 \<and> to_base64url bytes = s then Some bytes
                   else None)
      | _ \<Rightarrow> None)"

definition verifyEd25519Raw :: "host \<Rightarrow> jsval \<Rightarrow> jsval \<Rightarrow> string \<Rightarrow> bool" where
  "verifyEd25519Raw h payload sigText publicKeyPem =
     (case canonicalSignatureBytes sigText of
        None \<Rightarrow> False
      | Some bytes \<Rightarrow>
          if isSmallOrderEd25519Pem h publicKeyPem then False
          else try_false (bindE (canonicalJson h payload) (\<lambda>m. ed_verify h publicKeyPem m bytes)))"

section \<open>The signing payload\<close>

definition optional_field :: "jsval \<Rightarrow> string \<Rightarrow> (string \<times> jsval) list" where
  "optional_field v k = (if getp v k \<noteq> JUndef then [(k, getp v k)] else [])"

definition toPublicAuthorizationV1 :: "jsval \<Rightarrow> jsval" where
  "toPublicAuthorizationV1 auth =
     JObj (map (\<lambda>k. (k, getp auth k))
             [''auth_id'', ''issuer'', ''audience'', ''intent_hash'', ''state_hash'', ''policy_id'', ''decision'',
              ''issued_at'', ''expiry'', ''alg'', ''kid'', ''signature'']
           @ optional_field auth ''version'' @ optional_field auth ''nonce'' @ optional_field auth ''capability'')"

definition authorizationSigningPayload :: "jsval \<Rightarrow> jsval" where
  "authorizationSigningPayload auth =
     (let sig = signatureParts auth;
          hasFlatAlgKid = (has_text (getp auth ''alg'') \<and> has_text (getp auth ''kid''));
          pub = toPublicAuthorizationV1 auth
      in if nested sig
         then JObj (map (\<lambda>k. (k, getp pub k))
                      [''auth_id'', ''issuer'', ''audience'', ''intent_hash'', ''state_hash'', ''policy_id'',
                       ''decision'', ''issued_at'']
                    @ optional_field pub ''expiry'' @ optional_field pub ''version''
                    @ optional_field pub ''nonce'' @ optional_field pub ''capability''
                    @ (if is_number (getp auth ''expires_at'') then [(''expires_at'', getp auth ''expires_at'')] else [])
                    @ (if hasFlatAlgKid then [(''alg'', getp pub ''alg''), (''kid'', getp pub ''kid'')]
                       else [(''signature'', JObj [(''alg'', sp_alg sig), (''kid'', sp_kid sig)])]))
         else JObj (map (\<lambda>k. (k, getp auth k))
                      [''auth_id'', ''issuer'', ''audience'', ''intent_hash'', ''state_hash'', ''policy_id'',
                       ''decision'', ''issued_at'', ''expiry'', ''alg'', ''kid'']
                    @ optional_field auth ''version'' @ optional_field auth ''nonce''
                    @ optional_field auth ''capability''))"

definition signAuthorizationEd25519 :: "host \<Rightarrow> jsval \<Rightarrow> string \<Rightarrow> jsval res" where
  "signAuthorizationEd25519 h auth privateKeyPem =
     (let unsigned = spread_set (spread_set auth ''alg'' (JStr ''Ed25519'')) ''signature'' (JStr [])
      in bindE (signEd25519 h AUTH_V1 (authorizationSigningPayload unsigned) privateKeyPem) (\<lambda>sig.
           Inr (spread_set unsigned ''signature'' (JStr sig))))"

section \<open>Verification\<close>

record verify_auth_opts =
  va_now :: "jsnum option"
  va_strict :: bool  \<comment> \<open>\<open>mode === "strict"\<close>; the other values mean best effort\<close>
  va_expectedIssuer :: "string option"
  va_expectedAudience :: "string option"
  va_expectedPolicyId :: "string option"
  va_authorities :: "authorization_authority list option"
  va_consumedAuthIds :: "string list"
  va_trustedKeySets :: "trusted_key_sets option"
  va_requireSignature :: bool
  va_maxFutureIssuedAtSkew :: jsval
  va_legacyHmacSecret :: "string option"

definition missing_text :: "jsval \<Rightarrow> string \<Rightarrow> violation list" where
  "missing_text auth k = violation_if (\<not> has_text (getp auth k)) AUTH_MISSING_FIELD (k @ '' is required'')"

definition auth_id_violations :: "host \<Rightarrow> jsval \<Rightarrow> violation list" where
  "auth_id_violations h auth =
     (case getp auth ''auth_id'' of
        JStr s \<Rightarrow>
          if s = [] then missing_text auth ''auth_id''
          else violation_if (s \<noteq> nfc h s) AUTH_ID_NONCANONICAL ''auth_id must be Unicode NFC-normalized''
      | _ \<Rightarrow> missing_text auth ''auth_id'')"

definition issued_at_violations :: "host \<Rightarrow> jsval \<Rightarrow> jsnum \<Rightarrow> jsnum \<Rightarrow> violation list" where
  "issued_at_violations h auth now skew =
     (let issued_at = getp auth ''issued_at''
      in if \<not> v_integer issued_at
         then violation_if True AUTH_MISSING_FIELD ''issued_at must be integer unix seconds''
         else violation_if (\<not> v_safe_integer issued_at \<or> js_lt (JNum (num_add now skew)) issued_at)
                AUTH_ISSUED_AT_IMPLAUSIBLE
                (''issued_at must not be more than '' @ js_string h (JNum skew) @ ''s ahead of verification time''))"

definition effective_expiry :: "jsval \<Rightarrow> jsval" where
  "effective_expiry auth =
     (if v_integer (getp auth ''expiry'') then getp auth ''expiry''
      else if v_integer (getp auth ''expires_at'') then getp auth ''expires_at''
      else JUndef)"

definition expiry_violations :: "jsval \<Rightarrow> jsnum \<Rightarrow> violation list" where
  "expiry_violations auth now =
     (if \<not> v_integer (effective_expiry auth)
      then violation_if True AUTH_MISSING_FIELD ''expiry must be integer unix seconds''
      else violation_if (js_le (effective_expiry auth) (JNum now)) AUTH_EXPIRED ''authorization has expired'')"

definition expected_violation :: "jsval \<Rightarrow> string option \<Rightarrow> violation_code \<Rightarrow> string \<Rightarrow> violation list" where
  "expected_violation v expected k m =
     (case expected of None \<Rightarrow> [] | Some s \<Rightarrow> violation_if (v \<noteq> JStr s) k m)"

definition field_violations :: "host \<Rightarrow> verify_auth_opts \<Rightarrow> jsval \<Rightarrow> jsnum \<Rightarrow> jsnum \<Rightarrow> violation list" where
  "field_violations h opt auth now skew =
     violation_if (getp auth ''decision'' \<noteq> JStr ''ALLOW'') AUTH_DECISION_INVALID ''authorization decision must be ALLOW''
     @ missing_text auth ''intent_hash'' @ missing_text auth ''state_hash'' @ missing_text auth ''policy_id''
     @ missing_text auth ''issuer'' @ missing_text auth ''audience''
     @ auth_id_violations h auth
     @ issued_at_violations h auth now skew
     @ (let sig = signatureParts auth
        in violation_if (\<not> has_text (sp_alg sig)) AUTH_MISSING_FIELD ''alg is required''
           @ violation_if (\<not> has_text (sp_kid sig)) AUTH_MISSING_FIELD ''kid is required''
           @ violation_if (\<not> has_text (sp_sig sig)) AUTH_MISSING_FIELD ''signature is required'')
     @ expiry_violations auth now
     @ expected_violation (getp auth ''issuer'') (va_expectedIssuer opt) AUTH_ISSUER_MISMATCH
         ''issuer does not match expectedIssuer''
     @ expected_violation (getp auth ''audience'') (va_expectedAudience opt) AUTH_AUDIENCE_MISMATCH
         ''audience does not match expectedAudience''
     @ expected_violation (getp auth ''policy_id'') (va_expectedPolicyId opt) AUTH_POLICY_ID_MISMATCH
         ''policy_id does not match expectedPolicyId''
     @ (case va_authorities opt of
          None \<Rightarrow> []
        | Some as \<Rightarrow>
            violation_if (\<not> isTrustedAuthorizationAuthority as (getp auth ''issuer'') (getp auth ''policy_id''))
              AUTH_ISSUER_POLICY_NOT_AUTHORIZED ''issuer is not authorized for this policy_id'')
     @ violation_if (has_text (getp auth ''auth_id'') \<and> getp auth ''auth_id'' \<in> JStr ` set (va_consumedAuthIds opt))
         AUTH_REPLAY ''auth_id has already been consumed''"

text \<open>
  The signature check: the violations it adds, whether it succeeded, and the surface it ran against.
\<close>

type_synonym sig_outcome = "violation list \<times> bool \<times> verification_coverage"

definition ed25519_outcome :: "host \<Rightarrow> jsval \<Rightarrow> sig_parts \<Rightarrow> keyset list \<Rightarrow> jsnum \<Rightarrow> sig_outcome" where
  "ed25519_outcome h auth sig trusted now =
     (case findKeyInKeySets trusted (getp auth ''issuer'') (sp_kid sig) Ed25519 of
        None \<Rightarrow> (violation_if True AUTH_KID_UNKNOWN ''kid not found for issuer/alg'', False, CovNone)
      | Some key \<Rightarrow>
          if \<not> keyIsActiveAt key now
          then (violation_if True AUTH_KEY_INACTIVE ''key is not active at verification time'', False, CovNone)
          else let payload = authorizationSigningPayload auth
               in if \<not> verifyEd25519 h AUTH_V1 payload (sp_sig sig) (public_key key) \<and>
                     \<not> verifyEd25519Raw h payload (sp_sig sig) (public_key key)
                  then (violation_if True AUTH_SIGNATURE_INVALID ''signature verification failed'', False, AuthorizationV1Full)
                  else ([], True, AuthorizationV1Full))"

definition hmac_outcome :: "host \<Rightarrow> jsval \<Rightarrow> sig_parts \<Rightarrow> string option \<Rightarrow> bool \<Rightarrow> sig_outcome" where
  "hmac_outcome h auth sig secret requireSig =
     (case secret of
        Some (c # s) \<Rightarrow>
          if \<not> verifyHmacDomain h AUTH_V1 (authorizationSigningPayload auth) (sp_sig sig) (c # s)
          then (violation_if True AUTH_SIGNATURE_INVALID ''legacy HMAC signature verification failed'', False, AuthorizationV1Full)
          else ([], True, AuthorizationV1Full)
      | _ \<Rightarrow> (violation_if requireSig AUTH_TRUST_MISSING ''legacyHmacSecret required for HMAC verification'', False, CovNone))"

definition signature_outcome :: "host \<Rightarrow> verify_auth_opts \<Rightarrow> jsval \<Rightarrow> keyset list \<Rightarrow> jsnum \<Rightarrow> sig_outcome" where
  "signature_outcome h opt auth trusted now =
     (let sig = signatureParts auth; requireSig = (va_strict opt \<or> va_requireSignature opt)
      in if \<not> (has_text (sp_alg sig) \<and> has_text (sp_kid sig) \<and> has_text (sp_sig sig)) then ([], False, CovNone)
         else if sp_alg sig = JStr ''Ed25519'' \<or> sp_alg sig = JStr ''ed25519''
         then if trusted = []
              then (violation_if requireSig AUTH_TRUST_MISSING ''trustedKeySets required for Ed25519 verification'',
                    False, CovNone)
              else ed25519_outcome h auth sig trusted now
         else if sp_alg sig = JStr ''HMAC-SHA256'' then hmac_outcome h auth sig (va_legacyHmacSecret opt) requireSig
         else (violation_if True AUTH_ALG_UNSUPPORTED ''unsupported signature algorithm'', False, CovNone))"

definition verifyAuthorization :: "host \<Rightarrow> jsnum \<Rightarrow> verify_auth_opts \<Rightarrow> jsval \<Rightarrow> authorization_result res" where
  "verifyAuthorization h clock opt auth =
     bindE (resolveMaxFutureIssuedAtSkewSeconds ''verifyAuthorization'' (va_maxFutureIssuedAtSkew opt)) (\<lambda>skew.
     bindE (propE auth ''decision'') (\<lambda>_.
       let now = nowSeconds clock (va_now opt);
           trusted = trusted_list (va_trustedKeySets opt);
           mode = (if va_strict opt then Strict else Permissive)
       in if va_strict opt \<and> trusted = []
          then Inr \<lparr>vr_ok = False, vr_status = Invalid,
                    vr_violations = violation_if True TRUSTED_KEYSETS_REQUIRED
                      ''strict mode requires trustedKeySets to be provided'',
                    vr_policyId = JUndef, vr_stateHash = JUndef, vr_auditHeadHash = None,
                    signatureVerified = False, verificationMode = Strict, verificationCoverage = CovNone\<rparr>
          else let (sigViolations, verified, coverage) = signature_outcome h opt auth trusted now;
                   violations = field_violations h opt auth now skew @ sigViolations
               in if violations \<noteq> []
                  then Inr \<lparr>vr_ok = False, vr_status = Invalid, vr_violations = sortViolations violations,
                            vr_policyId = text_or_undefined (getp auth ''policy_id''),
                            vr_stateHash = text_or_undefined (getp auth ''state_hash''), vr_auditHeadHash = None,
                            signatureVerified = verified, verificationMode = mode, verificationCoverage = coverage\<rparr>
                  else Inr \<lparr>vr_ok = True, vr_status = Ok, vr_violations = [],
                            vr_policyId = getp auth ''policy_id'', vr_stateHash = getp auth ''state_hash'',
                            vr_auditHeadHash = None,
                            signatureVerified = verified, verificationMode = mode, verificationCoverage = coverage\<rparr>))"

section \<open>What acceptance means\<close>

text \<open>The checks that do not look at the signature bytes, as one predicate.\<close>

definition fields_accepted :: "host \<Rightarrow> verify_auth_opts \<Rightarrow> jsval \<Rightarrow> jsnum \<Rightarrow> jsnum \<Rightarrow> bool" where
  "fields_accepted h opt auth now skew =
     (getp auth ''decision'' = JStr ''ALLOW'' \<and>
      list_all (\<lambda>k. has_text (getp auth k)) [''intent_hash'', ''state_hash'', ''policy_id'', ''issuer'', ''audience''] \<and>
      (case getp auth ''auth_id'' of
         JStr s \<Rightarrow> s \<noteq> [] \<and> nfc h s = s \<and> s \<notin> set (va_consumedAuthIds opt) | _ \<Rightarrow> False) \<and>
      v_safe_integer (getp auth ''issued_at'') \<and> \<not> js_lt (JNum (num_add now skew)) (getp auth ''issued_at'') \<and>
      has_text (sp_alg (signatureParts auth)) \<and> has_text (sp_kid (signatureParts auth)) \<and>
      has_text (sp_sig (signatureParts auth)) \<and>
      v_integer (effective_expiry auth) \<and> \<not> js_le (effective_expiry auth) (JNum now) \<and>
      (\<forall>s. va_expectedIssuer opt = Some s \<longrightarrow> getp auth ''issuer'' = JStr s) \<and>
      (\<forall>s. va_expectedAudience opt = Some s \<longrightarrow> getp auth ''audience'' = JStr s) \<and>
      (\<forall>s. va_expectedPolicyId opt = Some s \<longrightarrow> getp auth ''policy_id'' = JStr s) \<and>
      (\<forall>as. va_authorities opt = Some as \<longrightarrow>
         isTrustedAuthorizationAuthority as (getp auth ''issuer'') (getp auth ''policy_id'')))"

lemma v_safe_is_integer: "v_safe_integer v \<Longrightarrow> v_integer v"
  by (auto elim!: v_safe_integerE)

lemma expected_violation_Nil [simp]:
  "expected_violation v ex k m = [] \<longleftrightarrow> (\<forall>s. ex = Some s \<longrightarrow> v = JStr s)"
  by (auto simp: expected_violation_def split: option.split)

lemma issued_at_violations_Nil [simp]:
  "issued_at_violations h auth now skew = [] \<longleftrightarrow>
     v_safe_integer (getp auth ''issued_at'') \<and> \<not> js_lt (JNum (num_add now skew)) (getp auth ''issued_at'')"
  by (auto simp: issued_at_violations_def Let_def dest: v_safe_is_integer)

lemma expiry_violations_Nil [simp]:
  "expiry_violations auth now = [] \<longleftrightarrow>
     v_integer (effective_expiry auth) \<and> \<not> js_le (effective_expiry auth) (JNum now)"
  by (simp add: expiry_violations_def)

lemma auth_id_violations_Nil:
  "auth_id_violations h auth = [] \<and>
     violation_if (has_text (getp auth ''auth_id'') \<and> getp auth ''auth_id'' \<in> JStr ` set used) k m = [] \<longleftrightarrow>
   (case getp auth ''auth_id'' of JStr s \<Rightarrow> s \<noteq> [] \<and> nfc h s = s \<and> s \<notin> set used | _ \<Rightarrow> False)"
  by (auto simp: auth_id_violations_def missing_text_def split: jsval.split)

lemma field_violations_Nil: "field_violations h opt auth now skew = [] \<longleftrightarrow> fields_accepted h opt auth now skew"
proof -
  note id = auth_id_violations_Nil [where h = h and auth = auth and used = "va_consumedAuthIds opt"
      and k = AUTH_REPLAY and m = "''auth_id has already been consumed''"]
  show ?thesis
    unfolding field_violations_def fields_accepted_def id [symmetric]
    by (auto simp: missing_text_def Let_def split: option.splits)
qed

lemma field_violations_now:
  "fields_accepted h opt auth now skew \<Longrightarrow> fields_accepted h opt auth now' skew \<longleftrightarrow>
     \<not> js_lt (JNum (num_add now' skew)) (getp auth ''issued_at'') \<and> \<not> js_le (effective_expiry auth) (JNum now')"
  by (auto simp: fields_accepted_def)

text \<open>The verifier accepts exactly when no check complains.\<close>

abbreviation trusted_of :: "verify_auth_opts \<Rightarrow> keyset list" where
  "trusted_of opt \<equiv> trusted_list (va_trustedKeySets opt)"

lemma verifyAuthorization_ok:
  assumes "resolveMaxFutureIssuedAtSkewSeconds ''verifyAuthorization'' (va_maxFutureIssuedAtSkew opt) = Inr skew"
    and "propE auth ''decision'' = Inr d" and "now = nowSeconds clock (va_now opt)"
  shows "\<exists>r. verifyAuthorization h clock opt auth = Inr r \<and>
    (vr_ok r \<longleftrightarrow> (va_strict opt \<longrightarrow> trusted_of opt \<noteq> []) \<and> fields_accepted h opt auth now skew \<and>
       fst (signature_outcome h opt auth (trusted_of opt) now) = []) \<and>
    (vr_ok r \<longrightarrow> signatureVerified r = fst (snd (signature_outcome h opt auth (trusted_of opt) now)) \<and>
       verificationCoverage r = snd (snd (signature_outcome h opt auth (trusted_of opt) now)))"
  using assms
  by (auto simp: verifyAuthorization_def field_violations_Nil [symmetric] Let_def split: prod.splits)

lemma verifyAuthorization_okE:
  assumes "verifyAuthorization h clock opt auth = Inr r" and "vr_ok r"
  obtains skew where
    "resolveMaxFutureIssuedAtSkewSeconds ''verifyAuthorization'' (va_maxFutureIssuedAtSkew opt) = Inr skew"
    "fields_accepted h opt auth (nowSeconds clock (va_now opt)) skew"
    "va_strict opt \<Longrightarrow> trusted_of opt \<noteq> []"
    "signature_outcome h opt auth (trusted_of opt) (nowSeconds clock (va_now opt)) =
       ([], signatureVerified r, verificationCoverage r)"
proof -
  obtain skew d where
    s: "resolveMaxFutureIssuedAtSkewSeconds ''verifyAuthorization'' (va_maxFutureIssuedAtSkew opt) = Inr skew"
    and d: "propE auth ''decision'' = Inr d"
    using assms(1) by (auto simp: verifyAuthorization_def bindE_eq_Inr)
  from verifyAuthorization_ok [OF s d refl, of h clock] assms show thesis
    using that [OF s] by (auto simp: prod_eq_iff)
qed

text \<open>An accepted signature is one of the two: a trusted active key, or the shared secret.\<close>

lemma signature_outcome_ok:
  assumes "signature_outcome h opt auth trusted now = ([], v, c)" and "va_strict opt \<or> va_requireSignature opt"
    and "has_text (sp_alg (signatureParts auth))" "has_text (sp_kid (signatureParts auth))"
      "has_text (sp_sig (signatureParts auth))"
  shows "v \<and> c = AuthorizationV1Full \<and>
    ((\<exists>ks \<in> set trusted. \<exists>k \<in> set (ks_keys ks). getp auth ''issuer'' = JStr (ks_issuer ks) \<and>
        sp_kid (signatureParts auth) = JStr (key_kid k) \<and> key_alg k = Ed25519 \<and> keyIsActiveAt k now \<and>
        (verifyEd25519 h AUTH_V1 (authorizationSigningPayload auth) (sp_sig (signatureParts auth)) (public_key k) \<or>
         verifyEd25519Raw h (authorizationSigningPayload auth) (sp_sig (signatureParts auth)) (public_key k))) \<or>
     (\<exists>s. va_legacyHmacSecret opt = Some s \<and> s \<noteq> [] \<and> sp_alg (signatureParts auth) = JStr ''HMAC-SHA256'' \<and>
        verifyHmacDomain h AUTH_V1 (authorizationSigningPayload auth) (sp_sig (signatureParts auth)) s))"
proof (cases "sp_alg (signatureParts auth) = JStr ''Ed25519'' \<or> sp_alg (signatureParts auth) = JStr ''ed25519''")
  case True
  then have "trusted \<noteq> []" and
    o: "ed25519_outcome h auth (signatureParts auth) trusted now = ([], v, c)"
    using assms by (auto simp: signature_outcome_def Let_def split: if_splits)
  then obtain k where k: "findKeyInKeySets trusted (getp auth ''issuer'') (sp_kid (signatureParts auth)) Ed25519 = Some k"
    by (auto simp: ed25519_outcome_def split: option.splits)
  with o have "keyIsActiveAt k now" "v" "c = AuthorizationV1Full"
    "verifyEd25519 h AUTH_V1 (authorizationSigningPayload auth) (sp_sig (signatureParts auth)) (public_key k) \<or>
       verifyEd25519Raw h (authorizationSigningPayload auth) (sp_sig (signatureParts auth)) (public_key k)"
    by (auto simp: ed25519_outcome_def Let_def split: if_splits)
  with findKeyInKeySets_Some [OF k] show ?thesis by metis
next
  case False
  with assms have alg: "sp_alg (signatureParts auth) = JStr ''HMAC-SHA256''" and
    o: "hmac_outcome h auth (signatureParts auth) (va_legacyHmacSecret opt) True = ([], v, c)"
    by (auto simp: signature_outcome_def Let_def split: if_splits)
  then show ?thesis
    by (auto simp: hmac_outcome_def split: option.splits list.splits if_splits)
qed

end
