(* ===== verification/IssuedAuthorization.thy ===== *)
theory IssuedAuthorization
  imports StateShape VerifyAuthorization
begin

text \<open>
  The authorization an ALLOW carries, and what the two verifiers make of it: the standalone
  \<open>verifyAuthorization\<close> and the engine's own method. The engine signs exactly the payload the standalone
  verifier recomputes.
\<close>

section \<open>An engine in use\<close>

definition constructed :: "host \<Rightarrow> engine \<Rightarrow> bool" where
  "constructed h e = (\<exists>e0. new_engine h (opts e) = Inr e0 \<and> same_setup e0 e)"

lemma resolved_ttl:
  assumes "resolveAuthorizationTtlSeconds v = Inr n"
  shows "\<exists>ttl. n = jint ttl \<and> 0 < ttl \<and> ttl \<le> max_safe"
proof -
  define x where "x = (if v = JUndef then JNum DEFAULT_AUTHORIZATION_TTL_SECONDS else v)"
  then have "v_safe_integer x" "\<not> js_le x (JNum (jint 0))" "n = to_number x"
    using assms by (auto simp: resolveAuthorizationTtlSeconds_def Let_def split: if_splits)
  then show ?thesis by (auto elim!: v_safe_integerE)
qed

lemma constructed_ttl:
  assumes "constructed h e"
  obtains ttl where "authorizationTtl e = jint ttl" "0 < ttl" "ttl \<le> max_safe"
proof -
  obtain e0 where n: "new_engine h (opts e) = Inr e0" and s: "same_setup e0 e"
    using assms by (auto simp: constructed_def)
  from n have "resolveAuthorizationTtlSeconds (authorization_ttl_seconds (opts e)) = Inr (authorizationTtl e0)"
    by (auto simp: new_engine_def bindE_eq_Inr Let_def split: if_splits)
  from resolved_ttl [OF this] s that show thesis by (auto simp: same_setup_def)
qed

lemma lower_hex_text: "list_all is_lower_hex s \<Longrightarrow> is_ascii s"
  by (auto simp: is_ascii_def list_all_iff is_lower_hex_def is_digit_def)

lemma digest_text:
  assumes "hex_digests h"
  shows "sha256 h s \<noteq> []" and "is_ascii (sha256 h s)" and "hmac_sha256 h k s \<noteq> []"
proof -
  have d: "length (sha256 h s) = 64" "list_all is_lower_hex (sha256 h s)" "length (hmac_sha256 h k s) = 64"
    using assms by (simp_all add: hex_digests_def)
  then show "sha256 h s \<noteq> []" "is_ascii (sha256 h s)" "hmac_sha256 h k s \<noteq> []"
    by (auto intro: lower_hex_text)
qed

lemma stateHash_digest: "computeStateHashFor h e st = Inr s \<Longrightarrow> \<exists>m. s = sha256 h m"
  by (auto simp: computeStateHashFor_def bindE_eq_Inr)

lemma sha256Hex_digest: "sha256HexFromJson h v = Inr s \<Longrightarrow> \<exists>m. s = sha256 h m"
  by (auto simp: sha256HexFromJson_def bindE_eq_Inr)

lemma intentHash_digest: "intentHash h i = Inr s \<Longrightarrow> \<exists>m. s = sha256 h m"
  unfolding intentHash_def by (rule sha256Hex_digest)

lemma policyId_text: "hex_digests h \<Longrightarrow> computePolicyId h e = Inr p \<Longrightarrow> p \<noteq> []"
  by (auto simp: computePolicyId_def bindE_eq_Inr digest_text split: option.splits list.splits)

section \<open>The fields of an issued authorization\<close>

lemma issueE:
  assumes "issue h e i st w ih p t = Inr iss"
  obtains snap sh es aid sig where
    "computeStateHashFor h e w = Inr snap" "computeStateHashFor h e st = Inr sh"
    "engineSignHmac h (engine_payload (JStr ih) (getp st ''policy_version'') (JStr snap)
       (JNum (num_add t (authorizationTtl e)))) (secret_text e) = Inr es"
    "\<exists>m. aid = sha256 h m"
    "sign_core h e (JObj (AList.update ''auth_id'' (JStr aid)
       (core_payload e i ih sh p t (num_add t (authorizationTtl e))))) = Inr sig"
    "iss_authorization iss = JObj (authorization_fields e i aid ih sh p (getp st ''policy_version'') snap t
       (num_add t (authorizationTtl e)) sig es)"
    "iss_id iss = aid" "iss_expires_at iss = num_add t (authorizationTtl e)"
proof -
  let ?x = "num_add t (authorizationTtl e)"
  from assms obtain snap es sh aid sig where
    "computeStateHashFor h e w = Inr snap" "computeStateHashFor h e st = Inr sh"
    "engineSignHmac h (engine_payload (JStr ih) (getp st ''policy_version'') (JStr snap) (JNum ?x)) (secret_text e) = Inr es"
    and d: "sha256HexFromJson h (JObj (AList.update ''engine_signature'' (JStr es) (core_payload e i ih sh p t ?x))) = Inr aid"
    and "sign_core h e (JObj (AList.update ''auth_id'' (JStr aid) (core_payload e i ih sh p t ?x))) = Inr sig"
    "\<lparr>iss_authorization = JObj (authorization_fields e i aid ih sh p (getp st ''policy_version'') snap t ?x sig es),
       iss_id = aid, iss_expires_at = ?x\<rparr> = iss"
    unfolding issue_def Let_def bindE_eq_Inr sum.inject by blast
  with that sha256Hex_digest [OF d] show thesis by force
qed

lemma issued_field:
  assumes "a = JObj (authorization_fields e i aid ih sh p ver snap t ex sig es)"
  shows "getp a ''auth_id'' = JStr aid" "getp a ''issuer'' = JStr (authorizationIssuer e)"
    "getp a ''audience'' = JStr (authorizationAudience e)" "getp a ''intent_hash'' = JStr ih"
    "getp a ''state_hash'' = JStr sh" "getp a ''policy_id'' = JStr p" "getp a ''policy_version'' = ver"
    "getp a ''state_snapshot_hash'' = JStr snap" "getp a ''decision'' = JStr ''ALLOW''"
    "getp a ''issued_at'' = JNum t" "getp a ''expiry'' = JNum ex" "getp a ''expires_at'' = JNum ex"
    "getp a ''alg'' = JStr (alg_str (authorizationSigningAlg e))" "getp a ''kid'' = JStr (authorizationSigningKid e)"
    "getp a ''signature'' = JStr sig" "getp a ''engine_signature'' = JStr es"
    "getp a ''nonce'' = JStr (int_str (nonce i))" "getp a ''version'' = JUndef"
    "getp a ''capability'' = (case action_type i of None \<Rightarrow> JUndef | Some c \<Rightarrow> JStr c)"
  by (auto simp: assms authorization_fields_def inherited_def object_prototype_def split: option.split)

text \<open>The verifier's payload is the one the engine signed.\<close>

lemma issued_payload:
  "authorizationSigningPayload (JObj (authorization_fields e i aid ih sh p ver snap t ex sig es)) =
     JObj (AList.update ''auth_id'' (JStr aid) (core_payload e i ih sh p t ex))"
proof -
  note f = issued_field [OF refl, where e = e and i = i and aid = aid and ih = ih and sh = sh and p = p and ver = ver
      and snap = snap and t = t and ex = ex and sig = sig and es = es]
  show ?thesis
    unfolding authorizationSigningPayload_def signatureParts_def optional_field_def Let_def
    by (simp add: f core_payload_def del: getp.simps split: option.split)
qed

lemma issued_parts:
  "signatureParts (JObj (authorization_fields e i aid ih sh p ver snap t ex sig es)) =
     \<lparr>sp_alg = JStr (alg_str (authorizationSigningAlg e)), sp_kid = JStr (authorizationSigningKid e),
      sp_sig = JStr sig, nested = False\<rparr>"
  unfolding signatureParts_def Let_def by (simp add: issued_field [OF refl] del: getp.simps)

section \<open>The validity window\<close>

lemma allows_precheck:
  assumes "evaluatePure h i st t mode e = (Inr (PAllow a nx), e')"
  shows "precheck e i st t = Inr None"
  using assms by (rule evaluated_allowE)

text \<open>What an ALLOW says about the clock and the time to live.\<close>

lemma allow_window:
  assumes "evaluatePure h i st t mode e = (Inr (PAllow a nx), e')" and "constructed h e"
  obtains s ttl where "t = jint s" "0 \<le> s" "authorizationTtl e = jint ttl" "0 < ttl" "s + ttl \<le> max_safe"
    "num_add t (authorizationTtl e) = jint (s + ttl)"
proof -
  obtain ttl where ttl: "authorizationTtl e = jint ttl" "0 < ttl" "ttl \<le> max_safe"
    using assms(2) by (rule constructed_ttl)
  note pre = precheck_None(6,7) [OF allows_precheck [OF assms(1)]]
  then obtain s where s: "t = jint s" "0 \<le> s" "s \<le> max_safe" by (auto elim: isProtocolSecondsE)
  have "num_sub (jint max_safe) (jint ttl) = jint (max_safe - ttl)"
    using ttl by (intro num_sub_seconds) (simp_all add: max_safe_def)
  then have "s + ttl \<le> max_safe" using pre(2) s ttl by simp
  moreover from this have "num_add t (authorizationTtl e) = jint (s + ttl)"
    using s ttl by (simp add: num_add_seconds)
  ultimately show thesis using s ttl that by blast
qed

text \<open>Everything an ALLOW fixes about its authorization.\<close>

lemma allow_authorization:
  assumes "evaluatePure h i st t mode e = (Inr (PAllow a nx), e')"
  obtains ih p w1 snap sh es aid sig where "intentHash h i = Inr ih" "computePolicyId h e = Inr p"
    "computeStateHashFor h e w1 = Inr snap" "computeStateHashFor h e st = Inr sh"
    "engineSignHmac h (engine_payload (JStr ih) (getp st ''policy_version'') (JStr snap)
       (JNum (num_add t (authorizationTtl e)))) (secret_text e) = Inr es"
    "\<exists>m. aid = sha256 h m"
    "sign_core h e (JObj (AList.update ''auth_id'' (JStr aid)
       (core_payload e i ih sh p t (num_add t (authorizationTtl e))))) = Inr sig"
    "a = JObj (authorization_fields e i aid ih sh p (getp st ''policy_version'') snap t
       (num_add t (authorizationTtl e)) sig es)"
  using assms
proof (rule evaluated_allowE)
  fix ih p w w1 iss
  assume ih: "intentHash h i = Inr ih" and p: "computePolicyId h e = Inr p"
    and iss: "issue h e i st w1 ih p t = Inr iss" and a: "a = iss_authorization iss"
  from iss show thesis by (rule issueE) (rule that [OF ih p]; simp add: a)
qed

section \<open>The standalone verifier accepts what the engine issues\<close>

text \<open>The relying party's expectations fit the engine and the authorization.\<close>

definition relies_on :: "engine \<Rightarrow> verify_auth_opts \<Rightarrow> jsval \<Rightarrow> bool" where
  "relies_on e opt a =
     (authorizationIssuer e \<noteq> [] \<and> authorizationAudience e \<noteq> [] \<and> authorizationSigningKid e \<noteq> [] \<and>
      va_expectedIssuer opt \<in> {None, Some (authorizationIssuer e)} \<and>
      va_expectedAudience opt \<in> {None, Some (authorizationAudience e)} \<and> va_expectedPolicyId opt = None \<and>
      (case va_authorities opt of None \<Rightarrow> True
       | Some as \<Rightarrow> isTrustedAuthorizationAuthority as (getp a ''issuer'') (getp a ''policy_id'')) \<and>
      getp a ''auth_id'' \<notin> JStr ` set (va_consumedAuthIds opt) \<and>
      va_maxFutureIssuedAtSkew opt = JUndef \<and> trusted_of opt \<noteq> [])"

text \<open>It holds what it takes to check the engine's signature: the secret, or the trusted active key.\<close>

definition can_check :: "host \<Rightarrow> engine \<Rightarrow> verify_auth_opts \<Rightarrow> jsnum \<Rightarrow> bool" where
  "can_check h e opt now =
     (case authorizationSigningAlg e of
        HMAC_SHA256 \<Rightarrow> va_legacyHmacSecret opt = Some (secret_text e)
      | Ed25519 \<Rightarrow>
          (\<exists>sk k w. authorization_private_key_pem (opts e) = Some sk \<and>
             findKeyInKeySets (trusted_of opt) (JStr (authorizationIssuer e)) (JStr (authorizationSigningKid e)) Ed25519 = Some k \<and>
             keyIsActiveAt k now \<and> ed25519_ok h (normalizePem sk) (normalizePem (public_key k)) \<and>
             wire_key h (normalizePem (public_key k)) = Inr (Some w) \<and> w \<notin> set SMALL_ORDER_ED25519))"

lemma constructed_secret:
  assumes "constructed h e"
  shows "secret_text e \<noteq> []"
proof -
  obtain e0 where "new_engine h (opts e) = Inr e0" using assms by (auto simp: constructed_def)
  then show ?thesis
    by (auto simp: new_engine_def secret_text_def js_length_def Let_def split: if_splits jsval.splits)
qed

lemma b64_decode_Nil: "b64_decode [] = []"
  by code_simp

lemma alg_str_not_Nil: "alg_str a \<noteq> []"
  by (cases a) simp_all

lemma issued_signature_checks:
  assumes "can_check h e opt now" and "hex_digests h" and "constructed h e" and "trusted_of opt \<noteq> []"
    and "authorizationSigningKid e \<noteq> []"
    and sig: "sign_core h e (JObj (AList.update ''auth_id'' (JStr aid) (core_payload e i ih sh p t ex))) = Inr sig"
  shows "signature_outcome h opt (JObj (authorization_fields e i aid ih sh p ver snap t ex sig es)) (trusted_of opt) now =
    ([], True, AuthorizationV1Full) \<and> sig \<noteq> []"
proof (cases "authorizationSigningAlg e")
  case HMAC_SHA256
  from sig HMAC_SHA256 have s: "signHmacDomain h AUTH_V1 (JObj (AList.update ''auth_id'' (JStr aid) (core_payload e i ih sh p t ex)))
      (secret_text e) = Inr sig"
    by (simp add: sign_core_def)
  then have "sig \<noteq> []" using digest_text(3) [OF assms(2)] by (auto simp: signHmacDomain_def bindE_eq_Inr)
  moreover obtain c r where "secret_text e = c # r" using constructed_secret [OF assms(3)] by (cases "secret_text e") auto
  ultimately show ?thesis
    using hmac_roundtrip [OF assms(2) s] assms(1,5) HMAC_SHA256
    by (simp add: signature_outcome_def issued_parts hmac_outcome_def issued_payload can_check_def Let_def)
next
  case Ed25519
  with assms(1) obtain sk k w where sk: "authorization_private_key_pem (opts e) = Some sk"
    and k: "findKeyInKeySets (trusted_of opt) (JStr (authorizationIssuer e)) (JStr (authorizationSigningKid e)) Ed25519 = Some k"
    "keyIsActiveAt k now"
    and ok: "ed25519_ok h (normalizePem sk) (normalizePem (public_key k))"
      "wire_key h (normalizePem (public_key k)) = Inr (Some w)" "w \<notin> set SMALL_ORDER_ED25519"
    by (auto simp: can_check_def)
  have s: "signEd25519 h AUTH_V1 (JObj (AList.update ''auth_id'' (JStr aid) (core_payload e i ih sh p t ex))) sk = Inr sig"
    using sig sk Ed25519 by (auto simp: sign_core_def split: list.splits)
  from signEd25519_verifies [OF ok s]
  have v: "verifyEd25519 h AUTH_V1 (JObj (AList.update ''auth_id'' (JStr aid) (core_payload e i ih sh p t ex)))
      (JStr sig) (public_key k)" .
  then have "sig \<noteq> []" by (auto simp: verifyEd25519_def b64_decode_Nil Let_def split: if_splits)
  with v k assms(4,5) Ed25519 show ?thesis
    by (simp add: signature_outcome_def issued_parts ed25519_outcome_def issued_payload issued_field [OF refl] Let_def
        del: getp.simps)
qed

lemma issued_expiry:
  "effective_expiry (JObj (authorization_fields e i aid ih sh p ver snap t (jint x) sig es)) = JNum (jint x)"
  by (simp add: effective_expiry_def issued_field [OF refl] del: getp.simps)

lemma issued_fields_accepted:
  assumes "hex_digests h" "nfc_ok h" and "relies_on e opt a" and "sig \<noteq> []"
    and "a = JObj (authorization_fields e i aid ih sh p ver snap (jint s) (jint x) sig es)"
    and "\<exists>m. aid = sha256 h m" "\<exists>m. ih = sha256 h m" "\<exists>m. sh = sha256 h m" "p \<noteq> []"
    and "0 \<le> s" "s \<le> max_safe" "0 \<le> n" "n + 300 \<le> max_safe"
  shows "fields_accepted h opt a (jint n) (jint 300) \<longleftrightarrow> s \<le> n + 300 \<and> n < x"
proof -
  note f = issued_field [OF assms(5)]
  have "aid \<noteq> []" "nfc h aid = aid" "ih \<noteq> []" "sh \<noteq> []"
    using assms(6-8) digest_text [OF assms(1)] nfc_ascii [OF assms(2)] by auto
  moreover have "num_add (jint n) (jint 300) = jint (n + 300)"
    using assms(12,13) by (simp add: num_add_seconds)
  ultimately show ?thesis
    using assms(3,4,9-13)
    unfolding fields_accepted_def assms(5) issued_parts issued_expiry
    unfolding assms(5) [symmetric] f
    by (auto simp: alg_str_not_Nil relies_on_def f is_safe_integer_jint not_le not_less simp del: getp.simps split: option.splits)
qed

text \<open>Accepted from the moment it is issued until the moment it expires.\<close>

lemma issued_accepted:
  assumes "evaluatePure h i st (jint s) mode e = (Inr (PAllow a nx), e')" and "constructed h e"
    and "hex_digests h" and "nfc_ok h" and "relies_on e opt a" and "can_check h e opt (jint n)"
    and "va_now opt = Some (jint n)" and "0 \<le> n" and "n + 300 \<le> max_safe"
  shows "\<exists>r ttl. verifyAuthorization h clock opt a = Inr r \<and> authorizationTtl e = jint ttl \<and>
    (vr_ok r \<longleftrightarrow> s \<le> n + 300 \<and> n < s + ttl) \<and> (vr_ok r \<longrightarrow> signatureVerified r)"
proof -
  obtain s' ttl where "jint s = jint s'" "0 \<le> s'" and ttl: "authorizationTtl e = jint ttl" "0 < ttl"
    and b: "s' + ttl \<le> max_safe" and x: "num_add (jint s) (authorizationTtl e) = jint (s' + ttl)"
    using assms(1,2) by (rule allow_window)
  then have s: "0 \<le> s" "s \<le> max_safe" "s' = s" by simp_all
  obtain ih p w1 snap sh es aid sig where ih: "intentHash h i = Inr ih" and p: "computePolicyId h e = Inr p"
    and sh: "computeStateHashFor h e st = Inr sh" and aid: "\<exists>m. aid = sha256 h m"
    and sig: "sign_core h e (JObj (AList.update ''auth_id'' (JStr aid) (core_payload e i ih sh p (jint s) (jint (s + ttl))))) = Inr sig"
    and a: "a = JObj (authorization_fields e i aid ih sh p (getp st ''policy_version'') snap (jint s) (jint (s + ttl)) sig es)"
    using assms(1) by (rule allow_authorization) (simp add: x s(3))
  have r: "trusted_of opt \<noteq> []" "authorizationSigningKid e \<noteq> []" "va_maxFutureIssuedAtSkew opt = JUndef"
    using assms(5) by (simp_all add: relies_on_def)
  note sc = issued_signature_checks [OF assms(6,3,2) r(1,2) sig, where ver = "getp st ''policy_version''" and snap = snap
      and es = es, folded a]
  have fa: "fields_accepted h opt a (jint n) (jint 300) \<longleftrightarrow> s \<le> n + 300 \<and> n < s + ttl"
    using assms(3,4,5) _ a aid intentHash_digest [OF ih] stateHash_digest [OF sh] policyId_text [OF assms(3) p] s(1,2)
      assms(8,9)
    by (rule issued_fields_accepted) (use sc in blast)
  have k: "resolveMaxFutureIssuedAtSkewSeconds ''verifyAuthorization'' (va_maxFutureIssuedAtSkew opt) = Inr (jint 300)"
    by (simp add: r(3) resolveMaxFutureIssuedAtSkewSeconds_def DEFAULT_MAX_FUTURE_ISSUED_AT_SKEW_SECONDS_def)
  have d: "propE a ''decision'' = Inr (getp a ''decision'')" by (simp add: a)
  have now: "jint n = nowSeconds clock (va_now opt)" by (simp add: assms(7) nowSeconds_def)
  from verifyAuthorization_ok [OF k d now, of h] sc fa r(1) ttl(1) show ?thesis by auto
qed

section \<open>The engine's own verification\<close>

lemma engine_accepts_issued:
  assumes "evaluatePure h i st (jint s) mode e = (Inr (PAllow a nx), e')" and "constructed h e"
    and "propE st' ''policy_version'' = Inr (getp st ''policy_version'')"
  shows "\<exists>ttl. authorizationTtl e = jint ttl \<and>
    engine_verifyAuthorization h e clock i a st' (JNum (jint n)) =
      (if n < s + ttl
       then \<lparr>valid = True, ev_reason = None, ev_signatureVerified = True, ev_mode = Permissive, ev_coverage = EngineHmacSubset\<rparr>
       else \<lparr>valid = False, ev_reason = Some reason.AUTH_EXPIRED, ev_signatureVerified = False, ev_mode = Permissive,
             ev_coverage = CovNone\<rparr>)"
proof -
  obtain s' ttl where "jint s = jint s'" "0 \<le> s'" and ttl: "authorizationTtl e = jint ttl" "0 < ttl"
    and b: "s' + ttl \<le> max_safe" and x: "num_add (jint s) (authorizationTtl e) = jint (s' + ttl)"
    using assms(1,2) by (rule allow_window)
  then have s: "0 \<le> s" "s' = s" by simp_all
  obtain ih p w1 snap sh es aid sig where ih: "intentHash h i = Inr ih"
    and es: "engineSignHmac h (engine_payload (JStr ih) (getp st ''policy_version'') (JStr snap) (JNum (jint (s + ttl))))
      (secret_text e) = Inr es"
    and a: "a = JObj (authorization_fields e i aid ih sh p (getp st ''policy_version'') snap (jint s) (jint (s + ttl)) sig es)"
    using assms(1) by (rule allow_authorization) (simp add: x s(2))
  have pr: "propE a k = Inr (getp a k)" for k by (simp add: a)
  have safe: "v_safe_integer (JNum (jint (s + ttl)))"
    using s ttl b by (simp add: is_safe_integer_jint)
  have "verify_steps h e clock i a st' (JNum (jint n)) =
      (if n < s + ttl
       then Inr \<lparr>valid = True, ev_reason = None, ev_signatureVerified = True, ev_mode = Permissive, ev_coverage = EngineHmacSubset\<rparr>
       else ev_fail reason.AUTH_EXPIRED CovNone)"
    using engine_hmac_roundtrip [OF es]
    by (auto simp: verify_steps_def ih pr issued_field [OF a] assms(3) safe not_le Let_def
        simp del: getp.simps v_safe_integer.simps)
  with ttl(1) show ?thesis by (auto simp: engine_verifyAuthorization_def ev_fail_def)
qed

end
