(* ===== verification/VerifyDelegation.thy ===== *)
theory VerifyDelegation
  imports VerifyAuthorization
begin

text \<open>
  \<open>delegation/createDelegation.ts\<close> and \<open>verification/verifyDelegation.ts\<close>: delegations, their binding to
  the parent authorization, and the narrowing of scopes. Delegations and parents are JavaScript values.
\<close>

section \<open>Scopes\<close>

definition resolveEffectiveChildScope :: "jsval \<Rightarrow> jsval \<Rightarrow> jsval" where
  "resolveEffectiveChildScope child parent =
     (let pick = (\<lambda>k. if getp child k \<noteq> JUndef then getp child k else getp parent k)
      in JObj (filter (\<lambda>(k, v). v \<noteq> JUndef)
           (map (\<lambda>k. (k, pick k)) [''tools'', ''max_amount'', ''max_actions'', ''max_depth''])))"

definition scope_violation :: "bool \<Rightarrow> string \<Rightarrow> violation list" where
  "scope_violation c m = violation_if c DELEGATION_SCOPE_VIOLATION m"

definition bad_count :: "jsval \<Rightarrow> bool" where
  "bad_count v = (v \<noteq> JUndef \<and> (\<not> v_integer v \<or> js_lt v (JNum (jint 0))))"

definition scopeTypeViolations :: "jsval \<Rightarrow> string \<Rightarrow> violation list" where
  "scopeTypeViolations scope label =
     (if \<not> is_plain scope then scope_violation True (label @ '' must be an object'')
      else let tools = getp scope ''tools''; amt = getp scope ''max_amount''
           in scope_violation (tools \<noteq> JUndef \<and> \<not> is_string_array tools) (label @ ''.tools must be an array of strings'')
              @ scope_violation (amt \<noteq> JUndef \<and> (\<not> is_bigint amt \<or> js_lt amt (JBig 0)))
                  (label @ ''.max_amount must be a non-negative bigint'')
              @ concat (map (\<lambda>field. scope_violation (bad_count (getp scope field))
                                       (label @ ''.'' @ field @ '' must be a non-negative integer''))
                  [''max_actions'', ''max_depth'']))"

fun elements :: "jsval \<Rightarrow> jsval list" where
  "elements (JArr xs) = xs"
| "elements _ = []"

fun join_with :: "string \<Rightarrow> string list \<Rightarrow> string" where
  "join_with sep [] = []"
| "join_with sep [s] = s"
| "join_with sep (s # t # r) = s @ sep @ join_with sep (t # r)"

definition exceeds :: "host \<Rightarrow> jsval \<Rightarrow> jsval \<Rightarrow> string \<Rightarrow> violation list" where
  "exceeds h effective parent k =
     scope_violation (getp effective k \<noteq> JUndef \<and> getp parent k \<noteq> JUndef \<and> js_lt (getp parent k) (getp effective k))
       (''scope.'' @ k @ '' '' @ js_string h (getp effective k) @ '' exceeds parent '' @ k @ '' '' @ js_string h (getp parent k))"

definition checkScopeNarrowing :: "host \<Rightarrow> jsval \<Rightarrow> jsval \<Rightarrow> violation list" where
  "checkScopeNarrowing h child parent =
     (let effective = resolveEffectiveChildScope child parent;
          parentTools = elements (getp parent ''tools'');
          notAllowed = filter (\<lambda>t. t \<notin> set parentTools) (elements (getp effective ''tools''))
      in (if getp effective ''tools'' \<noteq> JUndef \<and> getp parent ''tools'' \<noteq> JUndef
          then scope_violation (notAllowed \<noteq> [])
                 (''scope.tools contains tools not in parent: '' @ join_with '', '' (map (js_string h) notAllowed))
          else [])
         @ exceeds h effective parent ''max_amount''
         @ exceeds h effective parent ''max_actions''
         @ exceeds h effective parent ''max_depth'')"

section \<open>Payloads\<close>

definition delegationParentHash :: "host \<Rightarrow> jsval \<Rightarrow> string res" where
  "delegationParentHash h parent =
     bindE (canonicalJson h (toPublicAuthorizationV1 parent)) (\<lambda>s. Inr (sha256 h s))"

definition delegationSigningPayload :: "jsval \<Rightarrow> jsval" where
  "delegationSigningPayload d = JObj (filter (\<lambda>(k, v). k \<noteq> ''signature'') (entries d))"

section \<open>Creation\<close>

record create_params =
  cp_delegatee :: string
  cp_scope :: jsval
  cp_expiry :: jsnum
  cp_kid :: string
  cp_issuer :: "string option"
  cp_audience :: "string option"
  cp_delegationId :: "string option"
  cp_issuedAt :: "jsnum option"

text \<open>\<open>uuid\<close> is the value of \<open>randomUUID()\<close>.\<close>

definition unsigned_delegation :: "host \<Rightarrow> jsnum \<Rightarrow> string \<Rightarrow> jsval \<Rightarrow> create_params \<Rightarrow> (string \<times> jsval) list res" where
  "unsigned_delegation h clock uuid parent params =
     bindE (delegationParentHash h parent) (\<lambda>parent_hash.
     let scope = filter (\<lambda>(k, v). v \<noteq> JUndef) (map (\<lambda>k. (k, getp (cp_scope params) k))
           [''tools'', ''max_amount'', ''max_actions'', ''max_depth''])
     in Inr [(''delegation_id'', JStr (case cp_delegationId params of Some s \<Rightarrow> s | None \<Rightarrow> uuid)),
             (''issuer'', case cp_issuer params of Some s \<Rightarrow> JStr s | None \<Rightarrow> getp parent ''audience''),
             (''audience'', JStr (case cp_audience params of Some s \<Rightarrow> s | None \<Rightarrow> cp_delegatee params)),
             (''parent_auth_hash'', JStr parent_hash),
             (''delegator'', getp parent ''audience''),
             (''delegatee'', JStr (cp_delegatee params)),
             (''scope'', JObj scope),
             (''policy_id'', getp parent ''policy_id''),
             (''issued_at'', JNum (nowSeconds clock (cp_issuedAt params))),
             (''expiry'', JNum (cp_expiry params)),
             (''alg'', JStr ''Ed25519''),
             (''kid'', JStr (cp_kid params)),
             (''signature'', JStr [])])"

definition createDelegation :: "host \<Rightarrow> jsnum \<Rightarrow> string \<Rightarrow> jsval \<Rightarrow> create_params \<Rightarrow> string \<Rightarrow> jsval res" where
  "createDelegation h clock uuid parent params privateKeyPem =
     bindE (propE (cp_scope params) ''tools'') (\<lambda>_.
     bindE (propE parent ''audience'') (\<lambda>_.
     bindE (unsigned_delegation h clock uuid parent params) (\<lambda>unsigned.
     bindE (signEd25519 h DELEGATION_V1 (delegationSigningPayload (JObj unsigned)) privateKeyPem) (\<lambda>sig.
       Inr (spread_set (JObj unsigned) ''signature'' (JStr sig))))))"

section \<open>Verification of a delegation\<close>

record verify_delegation_opts =
  vd_now :: "jsnum option"
  vd_trustedKeySets :: "trusted_key_sets option"
  vd_requireSignature :: bool
  vd_expectedDelegatee :: "string option"
  vd_expectedPolicyId :: "string option"
  vd_parentScope :: "jsval option"
  vd_consumedDelegationIds :: "string list"
  vd_maxFutureIssuedAtSkew :: jsval
  vd_authorities :: "delegation_authority list option"

definition delegation_fields :: "string list" where
  "delegation_fields =
     [''delegation_id'', ''issuer'', ''audience'', ''parent_auth_hash'', ''delegator'', ''delegatee'', ''policy_id'',
      ''alg'', ''kid'', ''signature'']"

definition delegation_time_violations :: "host \<Rightarrow> jsval \<Rightarrow> jsnum \<Rightarrow> jsnum \<Rightarrow> violation list" where
  "delegation_time_violations h d now skew =
     (let issued_at = getp d ''issued_at''; expiry = getp d ''expiry''
      in violation_if (v_integer expiry \<and> js_le expiry (JNum now)) DELEGATION_EXPIRED ''delegation has expired''
         @ violation_if (v_integer issued_at \<and> v_integer expiry \<and> js_le expiry issued_at)
             DELEGATION_TEMPORAL_INVALID ''expiry must be strictly greater than issued_at''
         @ violation_if (v_integer issued_at \<and>
               (\<not> v_safe_integer issued_at \<or> js_lt (JNum (num_add now skew)) issued_at))
             DELEGATION_ISSUED_AT_IMPLAUSIBLE
             (''issued_at must not be more than '' @ js_string h (JNum skew) @ ''s ahead of verification time''))"

definition delegation_id_violations :: "host \<Rightarrow> jsval \<Rightarrow> string list \<Rightarrow> violation list" where
  "delegation_id_violations h d consumed =
     (case getp d ''delegation_id'' of
        JStr s \<Rightarrow>
          violation_if (s \<noteq> [] \<and> s \<noteq> nfc h s) DELEGATION_ID_NONCANONICAL ''delegation_id must be Unicode NFC-normalized''
          @ violation_if (s \<noteq> [] \<and> s \<in> set consumed) DELEGATION_REPLAY ''delegation_id has already been consumed''
      | _ \<Rightarrow> [])"

definition delegation_field_violations ::
  "host \<Rightarrow> verify_delegation_opts \<Rightarrow> jsval \<Rightarrow> jsnum \<Rightarrow> jsnum \<Rightarrow> violation list" where
  "delegation_field_violations h opt d now skew =
     concat (map (\<lambda>f. violation_if (\<not> has_text (getp d f)) DELEGATION_MISSING_FIELD (f @ '' is required'')) delegation_fields)
     @ violation_if (\<not> v_integer (getp d ''issued_at'')) DELEGATION_MISSING_FIELD ''issued_at must be integer unix seconds''
     @ violation_if (\<not> v_integer (getp d ''expiry'')) DELEGATION_MISSING_FIELD ''expiry must be integer unix seconds''
     @ violation_if (has_text (getp d ''alg'') \<and> getp d ''alg'' \<noteq> JStr ''Ed25519'')
         DELEGATION_ALG_UNSUPPORTED ''only Ed25519 is supported for DelegationV1''
     @ delegation_time_violations h d now skew
     @ expected_violation (getp d ''delegatee'') (vd_expectedDelegatee opt) DELEGATION_AUDIENCE_MISMATCH
         ''delegatee does not match expectedDelegatee''
     @ expected_violation (getp d ''policy_id'') (vd_expectedPolicyId opt) DELEGATION_POLICY_MISMATCH
         ''policy_id does not match expectedPolicyId''
     @ delegation_id_violations h d (vd_consumedDelegationIds opt)
     @ (case vd_authorities opt of
          None \<Rightarrow> []
        | Some as \<Rightarrow>
            violation_if (has_text (getp d ''issuer'') \<and> has_text (getp d ''delegator'') \<and>
                \<not> isTrustedDelegationAuthority as (getp d ''delegator'') (getp d ''issuer''))
              DELEGATION_SIGNER_NOT_AUTHORIZED
              ''delegation signer (issuer) is not authorized to delegate for this delegator'')"

definition delegation_scope_violations :: "host \<Rightarrow> jsval option \<Rightarrow> jsval \<Rightarrow> violation list" where
  "delegation_scope_violations h parentScope scope =
     (let issues = scopeTypeViolations scope ''scope'';
          parentIssues = (case parentScope of None \<Rightarrow> [] | Some ps \<Rightarrow> scopeTypeViolations ps ''parentScope'')
      in issues @ parentIssues
         @ (case parentScope of
              Some ps \<Rightarrow> if issues = [] \<and> parentIssues = [] then checkScopeNarrowing h scope ps else []
            | None \<Rightarrow> []))"

definition delegation_signature_violations :: "host \<Rightarrow> verify_delegation_opts \<Rightarrow> jsval \<Rightarrow> jsnum \<Rightarrow> violation list" where
  "delegation_signature_violations h opt d now =
     (let trusted = trusted_list (vd_trustedKeySets opt)
      in if getp d ''alg'' = JStr ''Ed25519'' \<and> has_text (getp d ''kid'') \<and> has_text (getp d ''signature'')
         then if trusted = []
              then violation_if (vd_requireSignature opt) DELEGATION_TRUST_MISSING
                     ''trustedKeySets required for Ed25519 verification''
              else case findKeyInKeySets trusted (getp d ''issuer'') (getp d ''kid'') Ed25519 of
                     None \<Rightarrow> violation_if True DELEGATION_KID_UNKNOWN ''kid not found for issuer/alg''
                   | Some key \<Rightarrow>
                       if \<not> keyIsActiveAt key now
                       then violation_if True DELEGATION_KEY_INACTIVE ''key is not active at verification time''
                       else violation_if
                              (\<not> verifyEd25519 h DELEGATION_V1 (delegationSigningPayload d) (getp d ''signature'') (public_key key))
                              DELEGATION_SIGNATURE_INVALID ''signature verification failed''
         else [])"

definition delegation_result :: "jsval \<Rightarrow> violation list \<Rightarrow> verification_result" where
  "delegation_result d violations =
     (if violations \<noteq> []
      then \<lparr>vr_ok = False, vr_status = Invalid, vr_violations = sortByCode violations,
            vr_policyId = text_or_undefined (getp d ''policy_id''), vr_stateHash = JUndef, vr_auditHeadHash = None\<rparr>
      else \<lparr>vr_ok = True, vr_status = Ok, vr_violations = [], vr_policyId = getp d ''policy_id'',
            vr_stateHash = JUndef, vr_auditHeadHash = None\<rparr>)"

definition verifyDelegation ::
  "host \<Rightarrow> jsnum \<Rightarrow> verify_delegation_opts \<Rightarrow> jsval \<Rightarrow> verification_result res" where
  "verifyDelegation h clock opt d =
     bindE (resolveMaxFutureIssuedAtSkewSeconds ''verifyDelegation'' (vd_maxFutureIssuedAtSkew opt)) (\<lambda>skew.
     bindE (propE d ''delegation_id'') (\<lambda>_.
       let now = nowSeconds clock (vd_now opt)
       in Inr (delegation_result d
            (delegation_field_violations h opt d now skew
             @ delegation_scope_violations h (vd_parentScope opt) (getp d ''scope'')
             @ delegation_signature_violations h opt d now))))"

section \<open>Verification against the parent\<close>

definition parent_binding_violations :: "jsval \<Rightarrow> jsval \<Rightarrow> jsnum \<Rightarrow> violation list" where
  "parent_binding_violations d parent now =
     violation_if (v_integer (getp parent ''expiry'') \<and> js_le (getp parent ''expiry'') (JNum now))
       DELEGATION_PARENT_EXPIRED ''parent authorization has expired''
     @ violation_if (has_text (getp d ''delegator'') \<and> has_text (getp parent ''audience'') \<and>
           getp d ''delegator'' \<noteq> getp parent ''audience'')
         DELEGATION_DELEGATOR_MISMATCH ''delegator does not match parent.audience''
     @ violation_if (has_text (getp d ''policy_id'') \<and> has_text (getp parent ''policy_id'') \<and>
           getp d ''policy_id'' \<noteq> getp parent ''policy_id'')
         DELEGATION_POLICY_ID_MISMATCH ''policy_id does not match parent.policy_id''
     @ violation_if (v_integer (getp d ''expiry'') \<and> v_integer (getp parent ''expiry'') \<and>
           js_lt (getp parent ''expiry'') (getp d ''expiry''))
         DELEGATION_EXPIRY_EXCEEDS_PARENT ''delegation expiry exceeds parent authorization expiry''"

definition parent_hash_violations :: "host \<Rightarrow> jsval \<Rightarrow> jsval \<Rightarrow> violation list res" where
  "parent_hash_violations h d parent =
     (if has_text (getp d ''parent_auth_hash'')
      then bindE (delegationParentHash h parent) (\<lambda>computedHash.
             Inr (violation_if (JStr computedHash \<noteq> getp d ''parent_auth_hash'') DELEGATION_PARENT_HASH_MISMATCH
                    ''parent_auth_hash does not match computed hash of parent authorization''))
      else Inr [])"

definition verifyDelegationChain ::
  "host \<Rightarrow> jsnum \<Rightarrow> verify_delegation_opts \<Rightarrow> jsval \<Rightarrow> jsval \<Rightarrow> verification_result res" where
  "verifyDelegationChain h clock opt d parent =
     (if \<not> is_object parent then Inl TypeError
      else if has_prop parent ''delegation_id''
      then Inr \<lparr>vr_ok = False, vr_status = Invalid,
                vr_violations = violation_if True DELEGATION_MULTIHOP_DENIED
                  (''parent must be AuthorizationV1 '' @ [CHR 0xE2, CHR 0x80, CHR 0x94]
                   @ '' multi-hop delegation is not permitted''),
                vr_policyId = JUndef, vr_stateHash = JUndef, vr_auditHeadHash = None\<rparr>
      else bindE (propE d ''parent_auth_hash'') (\<lambda>_.
           bindE (parent_hash_violations h d parent) (\<lambda>hashViolations.
           let violations = hashViolations @ parent_binding_violations d parent (nowSeconds clock (vd_now opt))
           in if violations \<noteq> [] then Inr (delegation_result d violations)
              else verifyDelegation h clock opt d)))"

section \<open>Laws of scopes\<close>

lemma effective_field:
  assumes "k \<in> {''tools'', ''max_amount'', ''max_actions'', ''max_depth''}"
  shows "getp (resolveEffectiveChildScope c p) k = (if getp c k \<noteq> JUndef then getp c k else getp p k)"
proof -
  define pick where "pick = (\<lambda>k. if getp c k \<noteq> JUndef then getp c k else getp p k)"
  let ?ks = "[''tools'', ''max_amount'', ''max_actions'', ''max_depth'']"
  have "distinct (map fst (map (\<lambda>k. (k, pick k)) ?ks))" by simp
  from map_of_filter_fst [OF this, of "\<lambda>v. v \<noteq> JUndef" k]
  have "map_of (filter (\<lambda>(k, v). v \<noteq> JUndef) (map (\<lambda>k. (k, pick k)) ?ks)) k =
      (if pick k \<noteq> JUndef then Some (pick k) else None)"
    using assms unfolding map_of_tabulate by (simp split: option.split)
  moreover have "inherited k = JUndef"
    using assms by (auto simp: inherited_def object_prototype_def)
  ultimately have "getp (resolveEffectiveChildScope c p) k = pick k"
    unfolding resolveEffectiveChildScope_def Let_def pick_def [symmetric] by (simp del: filter.simps list.map)
  then show ?thesis by (simp add: pick_def)
qed

text \<open>A well-typed scope, field by field.\<close>

definition typed_scope :: "jsval \<Rightarrow> bool" where
  "typed_scope s =
     (is_plain s \<and> (getp s ''tools'' = JUndef \<or> is_string_array (getp s ''tools'')) \<and>
      (getp s ''max_amount'' = JUndef \<or> (\<exists>a. getp s ''max_amount'' = JBig a \<and> 0 \<le> a)) \<and>
      (\<forall>k \<in> {''max_actions'', ''max_depth''}. getp s k = JUndef \<or> (\<exists>a. getp s k = JNum (jint a) \<and> 0 \<le> a)))"

lemma bad_count_iff: "\<not> bad_count v \<longleftrightarrow> v = JUndef \<or> (\<exists>a. v = JNum (jint a) \<and> 0 \<le> a)"
  by (auto simp: bad_count_def elim!: v_integerE)

lemma scopeType_Nil: "scopeTypeViolations s l = [] \<longleftrightarrow> typed_scope s"
proof -
  have "(v \<noteq> JUndef \<and> (\<not> is_bigint v \<or> js_lt v (JBig 0))) = (\<not> (v = JUndef \<or> (\<exists>a. v = JBig a \<and> 0 \<le> a)))" for v
    by (cases v) auto
  then show ?thesis
    by (auto simp: scopeTypeViolations_def typed_scope_def scope_violation_def bad_count_iff Let_def simp del: getp.simps)
qed

text \<open>
  Authority never grows: the effective scope of an accepted child is within the parent's, where the
  parent has a limit at all.
\<close>

definition within_scope :: "jsval \<Rightarrow> jsval \<Rightarrow> bool" where
  "within_scope e p =
     ((\<forall>ts. getp p ''tools'' = JArr ts \<longrightarrow> (\<exists>us. getp e ''tools'' = JArr us \<and> set us \<subseteq> set ts)) \<and>
      (\<forall>b. getp p ''max_amount'' = JBig b \<longrightarrow> (\<exists>a. getp e ''max_amount'' = JBig a \<and> 0 \<le> a \<and> a \<le> b)) \<and>
      (\<forall>k \<in> {''max_actions'', ''max_depth''}. \<forall>b. getp p k = JNum (jint b) \<longrightarrow>
         (\<exists>a. getp e k = JNum (jint a) \<and> 0 \<le> a \<and> a \<le> b)))"

lemma exceeds_Nil:
  "exceeds h e p k = [] \<longleftrightarrow> getp e k = JUndef \<or> getp p k = JUndef \<or> \<not> js_lt (getp p k) (getp e k)"
  by (auto simp: exceeds_def scope_violation_def)

lemma narrowing_sound:
  assumes "typed_scope c" and "typed_scope p" and "checkScopeNarrowing h c p = []"
  shows "within_scope (resolveEffectiveChildScope c p) p"
proof -
  let ?e = "resolveEffectiveChildScope c p"
  have ex: "\<And>k. k \<in> {''max_amount'', ''max_actions'', ''max_depth''} \<Longrightarrow> exceeds h ?e p k = []"
    and tools: "getp ?e ''tools'' \<noteq> JUndef \<and> getp p ''tools'' \<noteq> JUndef \<Longrightarrow>
      set (elements (getp ?e ''tools'')) \<subseteq> set (elements (getp p ''tools''))"
    using assms(3)
    by (auto simp: checkScopeNarrowing_def scope_violation_def filter_empty_conv Let_def split: if_splits)
  have "\<exists>us. getp ?e ''tools'' = JArr us \<and> set us \<subseteq> set ts" if t: "getp p ''tools'' = JArr ts" for ts
  proof -
    have "\<exists>us. getp ?e ''tools'' = JArr us"
    proof (cases "getp c ''tools'' = JUndef")
      case False
      then have "is_string_array (getp c ''tools'')" using assms(1) by (simp add: typed_scope_def)
      with False show ?thesis by (cases "getp c ''tools''") (simp_all add: effective_field)
    qed (use t in \<open>simp add: effective_field\<close>)
    with tools t show ?thesis by auto
  qed
  moreover have "\<exists>a. getp ?e ''max_amount'' = JBig a \<and> 0 \<le> a \<and> a \<le> b" if b: "getp p ''max_amount'' = JBig b" for b
  proof -
    have "getp c ''max_amount'' = JUndef \<or> (\<exists>a. getp c ''max_amount'' = JBig a \<and> 0 \<le> a)" "0 \<le> b"
      using assms(1,2) b by (simp_all add: typed_scope_def)
    moreover have "getp ?e ''max_amount'' = JUndef \<or> \<not> js_lt (JBig b) (getp ?e ''max_amount'')"
      using ex [of "''max_amount''"] b by (simp add: exceeds_Nil)
    ultimately show ?thesis using b by (auto simp: effective_field not_less)
  qed
  moreover have "\<exists>a. getp ?e k = JNum (jint a) \<and> 0 \<le> a \<and> a \<le> b"
    if k: "k \<in> {''max_actions'', ''max_depth''}" and b: "getp p k = JNum (jint b)" for k b
  proof -
    have ek: "getp ?e k = (if getp c k \<noteq> JUndef then getp c k else getp p k)"
      using k by (intro effective_field) auto
    have "getp c k = JUndef \<or> (\<exists>a. getp c k = JNum (jint a) \<and> 0 \<le> a)"
      "getp p k = JUndef \<or> (\<exists>a. getp p k = JNum (jint a) \<and> 0 \<le> a)"
      using assms(1,2) k unfolding typed_scope_def by blast+
    moreover have "getp ?e k = JUndef \<or> \<not> js_lt (JNum (jint b)) (getp ?e k)"
      using ex [of k] k b by (auto simp: exceeds_Nil)
    ultimately show ?thesis using b by (auto simp: ek not_less)
  qed
  ultimately show ?thesis unfolding within_scope_def by blast
qed

section \<open>What acceptance means\<close>

lemma delegation_result_ok [simp]: "vr_ok (delegation_result d vs) \<longleftrightarrow> vs = []"
  by (simp add: delegation_result_def)

lemma verifyDelegation_okE:
  assumes "verifyDelegation h clock opt d = Inr r" and "vr_ok r"
  obtains skew where "resolveMaxFutureIssuedAtSkewSeconds ''verifyDelegation'' (vd_maxFutureIssuedAtSkew opt) = Inr skew"
    "delegation_field_violations h opt d (nowSeconds clock (vd_now opt)) skew = []"
    "delegation_scope_violations h (vd_parentScope opt) (getp d ''scope'') = []"
    "delegation_signature_violations h opt d (nowSeconds clock (vd_now opt)) = []"
  using assms by (auto simp: verifyDelegation_def bindE_eq_Inr Let_def)

lemma accepted_scope:
  assumes "verifyDelegation h clock opt d = Inr r" and "vr_ok r" and "vd_parentScope opt = Some ps"
  shows "typed_scope (getp d ''scope'') \<and> within_scope (resolveEffectiveChildScope (getp d ''scope'') ps) ps"
  using assms(1,2)
proof (rule verifyDelegation_okE)
  fix skew
  assume "delegation_scope_violations h (vd_parentScope opt) (getp d ''scope'') = []"
  then have "typed_scope (getp d ''scope'')" "typed_scope ps" "checkScopeNarrowing h (getp d ''scope'') ps = []"
    by (auto simp: delegation_scope_violations_def assms(3) scopeType_Nil Let_def split: if_splits)
  with narrowing_sound show ?thesis by blast
qed

lemma delegation_fields_Nil:
  assumes "delegation_field_violations h opt d now skew = []"
  shows "\<forall>f \<in> set delegation_fields. has_text (getp d f)" "getp d ''alg'' = JStr ''Ed25519''"
    "v_safe_integer (getp d ''issued_at'')" "v_integer (getp d ''expiry'')"
    "\<not> js_le (getp d ''expiry'') (JNum now)" "\<not> js_le (getp d ''expiry'') (getp d ''issued_at'')"
    "\<not> js_lt (JNum (num_add now skew)) (getp d ''issued_at'')"
    "\<exists>s. getp d ''delegation_id'' = JStr s \<and> nfc h s = s \<and> s \<notin> set (vd_consumedDelegationIds opt)"
proof -
  have f: "\<forall>f \<in> set delegation_fields. has_text (getp d f)" and i: "v_integer (getp d ''issued_at'')"
    and e: "v_integer (getp d ''expiry'')" and t: "delegation_time_violations h d now skew = []"
    and a: "\<not> (has_text (getp d ''alg'') \<and> getp d ''alg'' \<noteq> JStr ''Ed25519'')"
    and id: "delegation_id_violations h d (vd_consumedDelegationIds opt) = []"
    using assms by (auto simp: delegation_field_violations_def)
  show "\<forall>f \<in> set delegation_fields. has_text (getp d f)" "v_integer (getp d ''expiry'')" by fact+
  from f have "has_text (getp d ''alg'')" "has_text (getp d ''delegation_id'')"
    by (simp_all add: delegation_fields_def)
  with a id show "getp d ''alg'' = JStr ''Ed25519''"
    "\<exists>s. getp d ''delegation_id'' = JStr s \<and> nfc h s = s \<and> s \<notin> set (vd_consumedDelegationIds opt)"
    by (auto simp: delegation_id_violations_def has_text_def)
  from t i e show "v_safe_integer (getp d ''issued_at'')" "\<not> js_le (getp d ''expiry'') (JNum now)"
    "\<not> js_le (getp d ''expiry'') (getp d ''issued_at'')" "\<not> js_lt (JNum (num_add now skew)) (getp d ''issued_at'')"
    by (simp_all add: delegation_time_violations_def Let_def)
qed

text \<open>A chain that is accepted: the parent is the one the delegation names, and nothing outlives it.\<close>

lemma chain_okE:
  assumes "verifyDelegationChain h clock opt d parent = Inr r" and "vr_ok r"
  obtains "verifyDelegation h clock opt d = Inr r" "\<not> has_prop parent ''delegation_id''"
    "\<exists>s. delegationParentHash h parent = Inr s \<and> getp d ''parent_auth_hash'' = JStr s"
    "parent_binding_violations d parent (nowSeconds clock (vd_now opt)) = []"
proof -
  from assms obtain vs where m: "\<not> has_prop parent ''delegation_id''"
    and vs: "parent_hash_violations h d parent = Inr vs"
    and r: "(if vs @ parent_binding_violations d parent (nowSeconds clock (vd_now opt)) \<noteq> []
       then Inr (delegation_result d (vs @ parent_binding_violations d parent (nowSeconds clock (vd_now opt))))
       else verifyDelegation h clock opt d) = Inr r"
    by (auto simp: verifyDelegationChain_def bindE_eq_Inr Let_def split: if_splits)
  from r assms(2) have e: "vs = []" "parent_binding_violations d parent (nowSeconds clock (vd_now opt)) = []"
    and v: "verifyDelegation h clock opt d = Inr r"
    by (auto split: if_splits)
  have "has_text (getp d ''parent_auth_hash'')"
    using v assms(2)
  proof (rule verifyDelegation_okE)
    fix skew
    assume "delegation_field_violations h opt d (nowSeconds clock (vd_now opt)) skew = []"
    from delegation_fields_Nil(1) [OF this] show ?thesis by (simp add: delegation_fields_def)
  qed
  with vs e(1) have "\<exists>s. delegationParentHash h parent = Inr s \<and> getp d ''parent_auth_hash'' = JStr s"
    by (auto simp: parent_hash_violations_def bindE_eq_Inr)
  with m v e(2) that show thesis by blast
qed

section \<open>A created delegation is accepted\<close>

lemma filter_update: "filter (\<lambda>(k, v). k \<noteq> k0) (AList.update k0 x kvs) = filter (\<lambda>(k, v). k \<noteq> k0) kvs"
  by (induction kvs) auto

lemma payload_spread: "delegationSigningPayload (spread_set (JObj kvs) ''signature'' x) = delegationSigningPayload (JObj kvs)"
  by (simp add: delegationSigningPayload_def spread_set_def filter_update)

definition signed_scope :: "jsval \<Rightarrow> jsval" where
  "signed_scope s =
     JObj (filter (\<lambda>(k, v). v \<noteq> JUndef) (map (\<lambda>k. (k, getp s k)) [''tools'', ''max_amount'', ''max_actions'', ''max_depth'']))"

lemma signed_scope_field:
  assumes "k \<in> {''tools'', ''max_amount'', ''max_actions'', ''max_depth''}"
  shows "getp (signed_scope s) k = getp s k"
proof -
  have "(\<lambda>k. (k, if getp s k \<noteq> JUndef then getp s k else getp JUndef k)) = (\<lambda>k. (k, getp s k))" by auto
  then have "signed_scope s = resolveEffectiveChildScope s JUndef"
    unfolding signed_scope_def resolveEffectiveChildScope_def Let_def by (simp only:)
  with effective_field [OF assms] show ?thesis by simp
qed

lemma typed_signed_scope: "typed_scope s \<Longrightarrow> typed_scope (signed_scope s)"
  unfolding typed_scope_def by (simp add: signed_scope_field) (simp add: signed_scope_def)

text \<open>The delegation's fields, where the delegation id and issuer have been settled.\<close>

definition created_id :: "create_params \<Rightarrow> string \<Rightarrow> string" where
  "created_id params uuid = (case cp_delegationId params of Some s \<Rightarrow> s | None \<Rightarrow> uuid)"

definition created_issuer :: "create_params \<Rightarrow> jsval \<Rightarrow> jsval" where
  "created_issuer params parent = (case cp_issuer params of Some s \<Rightarrow> JStr s | None \<Rightarrow> getp parent ''audience'')"

definition created_audience :: "create_params \<Rightarrow> string" where
  "created_audience params = (case cp_audience params of Some s \<Rightarrow> s | None \<Rightarrow> cp_delegatee params)"

lemma createdE:
  assumes "createDelegation h clock uuid parent params sk = Inr d"
  obtains ph sig where "delegationParentHash h parent = Inr ph"
    "signEd25519 h DELEGATION_V1 (delegationSigningPayload d) sk = Inr sig" "is_plain d"
    "getp d ''delegation_id'' = JStr (created_id params uuid)" "getp d ''issuer'' = created_issuer params parent"
    "getp d ''audience'' = JStr (created_audience params)" "getp d ''parent_auth_hash'' = JStr ph"
    "getp d ''delegator'' = getp parent ''audience''" "getp d ''delegatee'' = JStr (cp_delegatee params)"
    "getp d ''scope'' = signed_scope (cp_scope params)" "getp d ''policy_id'' = getp parent ''policy_id''"
    "getp d ''issued_at'' = JNum (nowSeconds clock (cp_issuedAt params))" "getp d ''expiry'' = JNum (cp_expiry params)"
    "getp d ''alg'' = JStr ''Ed25519''" "getp d ''kid'' = JStr (cp_kid params)" "getp d ''signature'' = JStr sig"
proof -
  obtain kvs sig where u: "unsigned_delegation h clock uuid parent params = Inr kvs"
    and sig: "signEd25519 h DELEGATION_V1 (delegationSigningPayload (JObj kvs)) sk = Inr sig"
    and d: "d = spread_set (JObj kvs) ''signature'' (JStr sig)"
    using assms by (auto simp: createDelegation_def bindE_eq_Inr)
  from u obtain ph where ph: "delegationParentHash h parent = Inr ph"
    and kvs: "kvs = [(''delegation_id'', JStr (created_id params uuid)), (''issuer'', created_issuer params parent),
             (''audience'', JStr (created_audience params)), (''parent_auth_hash'', JStr ph),
             (''delegator'', getp parent ''audience''), (''delegatee'', JStr (cp_delegatee params)),
             (''scope'', signed_scope (cp_scope params)), (''policy_id'', getp parent ''policy_id''),
             (''issued_at'', JNum (nowSeconds clock (cp_issuedAt params))), (''expiry'', JNum (cp_expiry params)),
             (''alg'', JStr ''Ed25519''), (''kid'', JStr (cp_kid params)), (''signature'', JStr [])]"
    by (auto simp: unsigned_delegation_def bindE_eq_Inr Let_def created_id_def created_issuer_def created_audience_def
        signed_scope_def simp del: getp.simps filter.simps list.map)
  have f: "getp d k = getp (JObj kvs) k" if "k \<noteq> ''signature''" for k
    using that by (simp add: d getp_spread_set)
  have p: "delegationSigningPayload d = delegationSigningPayload (JObj kvs)" and "is_plain d"
    "getp d ''signature'' = JStr sig"
    by (simp_all add: d payload_spread)
  show thesis
    by (rule that [OF ph sig [folded p] \<open>is_plain d\<close>]) (simp_all add: f kvs \<open>getp d _ = JStr sig\<close>)
qed

text \<open>
  The conditions a caller has to meet: a parent with the fields a delegation inherits, texts that are not
  empty, an id in normal form that has not been used, times in order, and a verifier that expects no
  other delegatee or policy and trusts the key the delegation was signed with.
\<close>

definition delegable :: "jsval \<Rightarrow> int \<Rightarrow> bool" where
  "delegable parent x =
     (is_plain parent \<and> \<not> has_prop parent ''delegation_id'' \<and> has_text (getp parent ''audience'') \<and>
      has_text (getp parent ''policy_id'') \<and> getp parent ''expiry'' = JNum (jint x))"

definition good_params :: "host \<Rightarrow> create_params \<Rightarrow> string \<Rightarrow> bool" where
  "good_params h params uuid =
     (created_id params uuid \<noteq> [] \<and> nfc h (created_id params uuid) = created_id params uuid \<and>
      cp_delegatee params \<noteq> [] \<and> cp_kid params \<noteq> [] \<and> cp_issuer params \<noteq> Some [] \<and> created_audience params \<noteq> [] \<and>
      typed_scope (cp_scope params))"

definition expects :: "verify_delegation_opts \<Rightarrow> create_params \<Rightarrow> string \<Rightarrow> jsval \<Rightarrow> bool" where
  "expects opt params uuid parent =
     (created_id params uuid \<notin> set (vd_consumedDelegationIds opt) \<and>
      vd_expectedDelegatee opt \<in> {None, Some (cp_delegatee params)} \<and> vd_expectedPolicyId opt = None \<and>
      vd_parentScope opt = None \<and> vd_maxFutureIssuedAtSkew opt = JUndef \<and>
      (case vd_authorities opt of None \<Rightarrow> True
       | Some as \<Rightarrow> isTrustedDelegationAuthority as (getp parent ''audience'') (created_issuer params parent)))"

definition trusts_key :: "host \<Rightarrow> verify_delegation_opts \<Rightarrow> jsval \<Rightarrow> string \<Rightarrow> string \<Rightarrow> jsnum \<Rightarrow> bool" where
  "trusts_key h opt issuer kid sk now =
     (\<exists>k w. findKeyInKeySets (trusted_list (vd_trustedKeySets opt)) issuer (JStr kid) Ed25519 = Some k \<and>
        keyIsActiveAt k now \<and> ed25519_ok h (normalizePem sk) (normalizePem (public_key k)) \<and>
        wire_key h (normalizePem (public_key k)) = Inr (Some w) \<and> w \<notin> set SMALL_ORDER_ED25519)"

lemma verified_text: "verifyEd25519 h dm p (JStr s) pem \<Longrightarrow> s \<noteq> []"
proof
  assume "verifyEd25519 h dm p (JStr s) pem" "s = []"
  moreover have "b64_decode [] = []" by code_simp
  ultimately show False by (auto simp: verifyEd25519_def Let_def split: if_splits)
qed

lemma created_chain_accepted:
  assumes "createDelegation h clock uuid parent params sk = Inr d" and "delegable parent x"
    and "good_params h params uuid" and "expects opt params uuid parent"
    and "trusts_key h opt (created_issuer params parent) (cp_kid params) sk (jint n)"
    and "cp_issuedAt params = Some (jint n0)" and "cp_expiry params = jint y" and "vd_now opt = Some (jint n)"
    and "0 \<le> n0" "n0 < y" "y \<le> x" "y \<le> max_safe" "0 \<le> n" "n0 \<le> n + 300" "n < y" "n + 300 \<le> max_safe"
    and "hex_digests h"
  shows "\<exists>r. verifyDelegationChain h clock' opt d parent = Inr r \<and> vr_ok r"
  using assms(1)
proof (rule createdE)
  fix ph sig
  assume ph: "delegationParentHash h parent = Inr ph" and plain: "is_plain d"
    and sig: "signEd25519 h DELEGATION_V1 (delegationSigningPayload d) sk = Inr sig"
    and f: "getp d ''delegation_id'' = JStr (created_id params uuid)" "getp d ''issuer'' = created_issuer params parent"
    "getp d ''audience'' = JStr (created_audience params)" "getp d ''parent_auth_hash'' = JStr ph"
    "getp d ''delegator'' = getp parent ''audience''" "getp d ''delegatee'' = JStr (cp_delegatee params)"
    "getp d ''scope'' = signed_scope (cp_scope params)" "getp d ''policy_id'' = getp parent ''policy_id''"
    "getp d ''issued_at'' = JNum (nowSeconds clock (cp_issuedAt params))" "getp d ''expiry'' = JNum (cp_expiry params)"
    "getp d ''alg'' = JStr ''Ed25519''" "getp d ''kid'' = JStr (cp_kid params)" "getp d ''signature'' = JStr sig"
  obtain k w where k: "findKeyInKeySets (trusted_list (vd_trustedKeySets opt)) (created_issuer params parent)
      (JStr (cp_kid params)) Ed25519 = Some k" "keyIsActiveAt k (jint n)"
    and ok: "ed25519_ok h (normalizePem sk) (normalizePem (public_key k))"
      "wire_key h (normalizePem (public_key k)) = Inr (Some w)" "w \<notin> set SMALL_ORDER_ED25519"
    using assms(5) by (auto simp: trusts_key_def)
  note v = signEd25519_verifies [OF ok sig]
  then have sig0: "sig \<noteq> []" by (rule verified_text)
  have skew: "resolveMaxFutureIssuedAtSkewSeconds ''verifyDelegation'' (vd_maxFutureIssuedAtSkew opt) = Inr (jint 300)"
    using assms(4) by (simp add: expects_def resolveMaxFutureIssuedAtSkewSeconds_def DEFAULT_MAX_FUTURE_ISSUED_AT_SKEW_SECONDS_def)
  have par: "is_plain parent" "\<not> has_prop parent ''delegation_id''" "has_text (getp parent ''audience'')"
    "has_text (getp parent ''policy_id'')" "getp parent ''expiry'' = JNum (jint x)"
    using assms(2) by (simp_all add: delegable_def)
  have now: "nowSeconds clock' (vd_now opt) = jint n" "nowSeconds clock (cp_issuedAt params) = jint n0"
    by (simp_all add: nowSeconds_def assms(6,8))
  have ph0: "ph \<noteq> []"
  proof -
    obtain m where "ph = sha256 h m" using ph by (auto simp: delegationParentHash_def bindE_eq_Inr)
    then have "length ph = 64" using assms(17) by (simp add: hex_digests_def)
    then show ?thesis by auto
  qed
  have add: "num_add (jint n) (jint 300) = jint (n + 300)"
    using assms(13,16) by (simp add: num_add_seconds)
  have issuer: "has_text (created_issuer params parent)"
    using assms(3) par(3) by (auto simp: good_params_def created_issuer_def split: option.split)
  have fields: "delegation_field_violations h opt d (jint n) (jint 300) = []"
    using assms(3,4) sig0 ph0 issuer par(3,4) assms(9-16)
    by (auto simp: delegation_field_violations_def delegation_fields_def delegation_time_violations_def f now add assms(7)
        delegation_id_violations_def good_params_def expects_def is_safe_integer_jint Let_def split: option.splits)
  have scope: "delegation_scope_violations h (vd_parentScope opt) (getp d ''scope'') = []"
    using assms(3,4) by (simp add: delegation_scope_violations_def f expects_def good_params_def scopeType_Nil
        typed_signed_scope Let_def)
  have sigs: "delegation_signature_violations h opt d (jint n) = []"
    using k v assms(3) sig0
    by (auto simp: delegation_signature_violations_def f good_params_def findKeyInKeySets_def Let_def)
  have "verifyDelegation h clock' opt d = Inr (delegation_result d [])"
    using plain by (auto simp: verifyDelegation_def skew now fields scope sigs is_plain_object propE_object Let_def)
  moreover have "parent_hash_violations h d parent = Inr []"
    by (simp add: parent_hash_violations_def f ph)
  moreover have "parent_binding_violations d parent (jint n) = []"
    using assms(11,15) by (simp add: parent_binding_violations_def f par(5) assms(7))
  ultimately show ?thesis
    using plain par by (simp add: verifyDelegationChain_def now is_plain_object propE_object Let_def)
qed

end
