(* ===== verification/VerifyKrl.thy ===== *)
theory VerifyKrl
  imports VerifyDelegation
begin

text \<open>
  \<open>verification/verifySignedKrl.ts\<close> and \<open>types/signed-krl.ts\<close>: signed key revocation lists. The envelope is
  a JavaScript value from outside.
\<close>

section \<open>The payload\<close>

definition signedKrlSigningPayload :: "jsval \<Rightarrow> jsval" where
  "signedKrlSigningPayload v =
     (let sig = getp v ''signature''
      in JObj (map (\<lambda>k. (k, getp v k)) [''version'', ''issuer'', ''krl_version'', ''issued_at'', ''not_after'', ''revoked_kids'']
               @ [(''signature'', JObj [(''alg'', getp sig ''alg''), (''kid'', getp sig ''kid'')])]
               @ optional_field v ''nonce''))"

section \<open>Structure\<close>

record verify_krl_opts =
  vk_now :: "jsnum option"
  vk_trustedKeySets :: "trusted_key_sets option"
  vk_previousVersions :: "jsval"  \<comment> \<open>\<open>previousKrlVersionByIssuer\<close>, an object or \<open>undefined\<close>\<close>

definition malformed :: "bool \<Rightarrow> string \<Rightarrow> violation list" where
  "malformed c m = violation_if c KRL_MALFORMED m"

text \<open>The loop that looks for a duplicate: \<open>seen\<close> is the set of entries before.\<close>

fun has_duplicate :: "jsval list \<Rightarrow> jsval list \<Rightarrow> bool" where
  "has_duplicate seen [] = False"
| "has_duplicate seen (k # ks) = (if k \<in> set seen then True else has_duplicate (k # seen) ks)"

definition revoked_violations :: "jsval \<Rightarrow> violation list" where
  "revoked_violations kids =
     (case kids of
        JArr ks \<Rightarrow>
          if list_ex (\<lambda>k. \<not> is_string k) ks then malformed True ''revoked_kids must be an array of strings''
          else malformed (has_duplicate [] ks) ''duplicate entry in revoked_kids''
      | _ \<Rightarrow> malformed True ''revoked_kids must be an array of strings'')"

definition krl_body_violations :: "jsval \<Rightarrow> violation list" where
  "krl_body_violations e =
     malformed (getp e ''version'' \<noteq> JStr ''SignedKRLV1'') ''version must equal \"SignedKRLV1\"''
     @ malformed (\<not> has_text (getp e ''issuer'')) ''issuer must be a non-empty string''
     @ malformed (\<not> v_safe_integer (getp e ''krl_version'') \<or> js_lt (getp e ''krl_version'') (JNum (jint 0)))
         ''krl_version must be a non-negative safe integer''
     @ malformed (\<not> v_integer (getp e ''issued_at'')) ''issued_at must be an integer unix timestamp''
     @ malformed (\<not> v_integer (getp e ''not_after'')) ''not_after must be an integer unix timestamp''
     @ revoked_violations (getp e ''revoked_kids'')
     @ malformed (getp e ''nonce'' \<noteq> JUndef \<and> \<not> is_string (getp e ''nonce'')) ''nonce must be a string when present''"

definition krl_signature_violations :: "jsval \<Rightarrow> violation list" where
  "krl_signature_violations sig =
     (if getp sig ''alg'' \<noteq> JStr ''Ed25519''
      then if has_text (getp sig ''alg'')
           then violation_if True KRL_UNSUPPORTED_ALG ''only Ed25519 is supported for SignedKRLV1 signing''
           else malformed True ''signature.alg must be a non-empty string''
      else [])
     @ malformed (\<not> has_text (getp sig ''kid'')) ''signature.kid must be a non-empty string''
     @ malformed (\<not> has_text (getp sig ''sig'')) ''signature.sig must be a non-empty string''"

section \<open>Verification\<close>

definition krl_version_violations :: "host \<Rightarrow> jsval \<Rightarrow> jsval \<Rightarrow> violation list" where
  "krl_version_violations h e previous =
     (let prev = getp previous (case getp e ''issuer'' of JStr s \<Rightarrow> s | _ \<Rightarrow> [])
      in violation_if (previous \<noteq> JUndef \<and> prev \<noteq> JUndef \<and> js_lt (getp e ''krl_version'') prev) KRL_VERSION_REGRESSION
           (''krl_version '' @ js_string h (getp e ''krl_version'') @ '' is less than the previously accepted version ''
            @ js_string h prev @ '' for issuer \"'' @ js_string h (getp e ''issuer'') @ ''\"''))"

definition krl_key_violations :: "host \<Rightarrow> jsval \<Rightarrow> keyset list \<Rightarrow> jsnum \<Rightarrow> violation list" where
  "krl_key_violations h e trusted now =
     (let sig = getp e ''signature''
      in if trusted = [] then violation_if True KRL_UNKNOWN_SIGNING_KID ''no trusted KRL signing key sets provided''
         else case findKeyInKeySets trusted (getp e ''issuer'') (getp sig ''kid'') Ed25519 of
                None \<Rightarrow> violation_if True KRL_UNKNOWN_SIGNING_KID ''KRL signing kid not found in trusted key sets''
              | Some key \<Rightarrow>
                  if \<not> keyIsActiveAt key now
                  then violation_if True KRL_SIGNING_KEY_INACTIVE ''KRL signing key is not active at verification time''
                  else violation_if
                         (\<not> verifyEd25519 h KRL_V1 (signedKrlSigningPayload e) (getp sig ''sig'') (public_key key))
                         KRL_SIG_INVALID ''Ed25519 signature verification failed'')"

definition krl_invalid :: "violation list \<Rightarrow> verification_result" where
  "krl_invalid violations =
     \<lparr>vr_ok = False, vr_status = Invalid, vr_violations = violations, vr_policyId = JUndef, vr_stateHash = JUndef,
      vr_auditHeadHash = None\<rparr>"

definition verifySignedKrl :: "host \<Rightarrow> jsnum \<Rightarrow> verify_krl_opts \<Rightarrow> jsval \<Rightarrow> verification_result" where
  "verifySignedKrl h clock opt e =
     (if \<not> is_plain e then krl_invalid (malformed True ''envelope must be a non-null object'')
      else let body = krl_body_violations e; sig = getp e ''signature'';
               structure = body @ krl_signature_violations sig;
               now = nowSeconds clock (vk_now opt);
               checks = krl_version_violations h e (vk_previousVersions opt)
                 @ violation_if (js_le (getp e ''not_after'') (JNum now)) KRL_EXPIRED ''KRL has expired''
                 @ krl_key_violations h e (trusted_list (vk_trustedKeySets opt)) now
           in if \<not> is_plain sig
              then krl_invalid (sortByCode (body @ malformed True ''signature must be a non-null object''))
              else if structure \<noteq> [] then krl_invalid (sortByCode structure)
              else if checks \<noteq> [] then krl_invalid (sortByCode checks)
              else \<lparr>vr_ok = True, vr_status = Ok, vr_violations = [], vr_policyId = JUndef, vr_stateHash = JUndef,
                    vr_auditHeadHash = None\<rparr>)"

section \<open>What acceptance means\<close>

lemma has_duplicate_iff: "has_duplicate seen ks \<longleftrightarrow> \<not> distinct ks \<or> set ks \<inter> set seen \<noteq> {}"
  by (induction seen ks rule: has_duplicate.induct) auto

lemma malformed_Nil [simp]: "malformed c m = [] \<longleftrightarrow> \<not> c"
  by (simp add: malformed_def)

text \<open>The envelope of an accepted list is well-formed, in time and not older than what was seen before.\<close>

definition krl_wellformed :: "jsval \<Rightarrow> bool" where
  "krl_wellformed e =
     (getp e ''version'' = JStr ''SignedKRLV1'' \<and> has_text (getp e ''issuer'') \<and>
      (\<exists>n. getp e ''krl_version'' = JNum (jint n) \<and> 0 \<le> n \<and> n \<le> max_safe) \<and>
      (\<exists>n. getp e ''issued_at'' = JNum (jint n)) \<and> (\<exists>n. getp e ''not_after'' = JNum (jint n)) \<and>
      (\<exists>ks. getp e ''revoked_kids'' = JArr ks \<and> list_all is_string ks \<and> distinct ks) \<and>
      (getp e ''nonce'' = JUndef \<or> is_string (getp e ''nonce'')))"

lemma revoked_Nil: "revoked_violations v = [] \<longleftrightarrow> (\<exists>ks. v = JArr ks \<and> list_all is_string ks \<and> distinct ks)"
  by (cases v) (auto simp: revoked_violations_def has_duplicate_iff list_ex_iff list_all_iff)

lemma krl_body_Nil: "krl_body_violations e = [] \<longleftrightarrow> krl_wellformed e"
proof -
  have "(v_safe_integer v \<and> \<not> js_lt v (JNum (jint 0))) = (\<exists>n. v = JNum (jint n) \<and> 0 \<le> n \<and> n \<le> max_safe)" for v
    by (auto elim!: v_safe_integerE simp: is_safe_integer_jint)
  moreover have "v_integer v = (\<exists>n. v = JNum (jint n))" for v
    by (auto elim!: v_integerE)
  ultimately show ?thesis
    unfolding krl_body_violations_def krl_wellformed_def append_is_Nil_conv malformed_Nil revoked_Nil de_Morgan_disj
      not_not by blast
qed

lemma verifySignedKrl_ok:
  assumes "vr_ok (verifySignedKrl h clock opt e)"
  shows "is_plain e" "krl_wellformed e" "getp (getp e ''signature'') ''alg'' = JStr ''Ed25519''"
    "\<not> js_le (getp e ''not_after'') (JNum (nowSeconds clock (vk_now opt)))"
    "krl_version_violations h e (vk_previousVersions opt) = []"
    "krl_key_violations h e (trusted_list (vk_trustedKeySets opt)) (nowSeconds clock (vk_now opt)) = []"
  using assms
  by (auto simp: verifySignedKrl_def krl_invalid_def krl_signature_violations_def krl_body_Nil Let_def split: if_splits)

lemma krl_key_Nil:
  assumes "krl_key_violations h e trusted now = []"
  shows "\<exists>ks \<in> set trusted. \<exists>k \<in> set (ks_keys ks). getp e ''issuer'' = JStr (ks_issuer ks) \<and>
    getp (getp e ''signature'') ''kid'' = JStr (key_kid k) \<and> key_alg k = Ed25519 \<and> keyIsActiveAt k now \<and>
    verifyEd25519 h KRL_V1 (signedKrlSigningPayload e) (getp (getp e ''signature'') ''sig'') (public_key k)"
proof -
  obtain k where k: "findKeyInKeySets trusted (getp e ''issuer'') (getp (getp e ''signature'') ''kid'') Ed25519 = Some k"
    and "keyIsActiveAt k now"
    "verifyEd25519 h KRL_V1 (signedKrlSigningPayload e) (getp (getp e ''signature'') ''sig'') (public_key k)"
    using assms by (auto simp: krl_key_violations_def Let_def simp del: getp.simps split: option.splits if_splits)
  with findKeyInKeySets_Some [OF k] show ?thesis by metis
qed

text \<open>
  A signature binds what the list says: two envelopes with the same signing input are the same list, up
  to the normal form of their texts.
\<close>

lemma krl_payload_binds:
  assumes "signatureInput h KRL_V1 (signedKrlSigningPayload e) = Inr m"
    and "signatureInput h d v = Inr m"
  shows "d = KRL_V1 \<and> nform h v = nform h (signedKrlSigningPayload e)"
  using signatureInput_binds [OF assms] by simp

end
