(* ===== verification/VerifyLogs.thy ===== *)
theory VerifyLogs
  imports AuditLog Snapshot Schemas
begin

text \<open>
  The verifiers of recorded evidence: \<open>verification/verifySnapshot.ts\<close>, \<open>verification/verifyAuditEvents.ts\<close>
  and \<open>replay/verify.ts\<close>. Each file has its own copy of the chain step; the interpretations below show
  that every copy is a chain in the sense of \<open>event_chain\<close>.
\<close>

section \<open>Snapshots\<close>

definition snapshot_invalid :: "violation list \<Rightarrow> jsval \<Rightarrow> verification_result" where
  "snapshot_invalid violations policyId =
     \<lparr>vr_ok = False, vr_status = Invalid, vr_violations = sortViolations violations, vr_policyId = policyId,
      vr_stateHash = JUndef, vr_auditHeadHash = None\<rparr>"

definition snapshot_corrupt :: "string \<Rightarrow> jsval \<Rightarrow> verification_result" where
  "snapshot_corrupt message policyId = snapshot_invalid (violation_if True SNAPSHOT_CORRUPT message) policyId"

definition snapshot_hashes :: "host \<Rightarrow> jsval \<Rightarrow> (string \<times> jsval) list res" where
  "snapshot_hashes h modules =
     mapE (\<lambda>id. bindE (sha256HexFromJson h (getp modules id)) (\<lambda>d. Inr (id, JStr d))) (sort_u16 (obj_keys modules))"

definition snapshot_stateHash :: "host \<Rightarrow> jsval \<Rightarrow> string res" where
  "snapshot_stateHash h snapshot =
     bindE (snapshot_hashes h (getp snapshot ''modules'')) (\<lambda>moduleHashes.
       sha256HexFromJson h (JObj [(''formatVersion'', JNum (jint 1)), (''engineVersion'', getp snapshot ''engineVersion''),
                                  (''policyId'', getp snapshot ''policyId''), (''modules'', JObj moduleHashes)]))"

definition verifySnapshot :: "host \<Rightarrow> string option \<Rightarrow> string \<Rightarrow> verification_result" where
  "verifySnapshot h expectedPolicyId snapshotBytes =
     (case decodeCanonicalState snapshotBytes of
        Inl _ \<Rightarrow> snapshot_corrupt ''snapshot decode failed'' JUndef
      | Inr snapshot \<Rightarrow>
          let schemaIssues = validateCanonicalStateJson snapshot; policyId = getp snapshot ''policyId'';
              expected = (case expectedPolicyId of Some (c # s) \<Rightarrow> JStr (c # s) | _ \<Rightarrow> policyId)
          in if schemaIssues \<noteq> []
             then snapshot_invalid (mapIssuesToViolation SNAPSHOT_CORRUPT schemaIssues None)
                    (if is_string policyId then policyId else JUndef)
             else if getp snapshot ''formatVersion'' \<noteq> JNum (jint 1)
             then snapshot_corrupt ''unsupported snapshot formatVersion'' policyId
             else if \<not> has_text policyId
             then snapshot_invalid (violation_if True POLICY_ID_MISSING ''snapshot policyId is required'') JUndef
             else if expected \<noteq> policyId
             then snapshot_invalid (violation_if True POLICY_ID_MISMATCH ''snapshot policyId does not match expected policyId'')
                    policyId
             else if \<not> is_plain (getp snapshot ''modules'')
             then snapshot_corrupt ''snapshot modules must be an object'' policyId
             else case snapshot_stateHash h snapshot of
                    Inl _ \<Rightarrow> snapshot_corrupt ''snapshot modules are malformed'' policyId
                  | Inr stateHash \<Rightarrow>
                      \<lparr>vr_ok = True, vr_status = Ok, vr_violations = [], vr_policyId = policyId,
                       vr_stateHash = JStr stateHash, vr_auditHeadHash = None\<rparr>)"

section \<open>Audit events\<close>

definition canonicalizeAuditEvent :: "host \<Rightarrow> jsval \<Rightarrow> string res" where
  "canonicalizeAuditEvent h event =
     bindE (propE event ''policyId'') (\<lambda>p. canonicalJson h (spread_set event ''policyId'' (coalesce p JNull)))"

definition auditNextHash :: "host \<Rightarrow> string \<Rightarrow> jsval \<Rightarrow> string res" where
  "auditNextHash h prev event =
     bindE (canonicalizeAuditEvent h event) (\<lambda>bytes. Inr (sha256 h (prev @ CHR 0x0A # bytes)))"

record audit_options =
  ao_expectedPolicyId :: "string option"
  ao_bestEffort :: bool  \<comment> \<open>\<open>mode === "best-effort"\<close>; strict otherwise\<close>
  ao_requireStateAnchors :: "bool option"

record audit_scan =
  as_violations :: "violation list"
  as_policyIds :: "string list"
  as_anchor :: bool
  as_head :: string
  as_last :: "jsval option"

definition event_violation :: "nat \<Rightarrow> bool \<Rightarrow> violation_code \<Rightarrow> string \<Rightarrow> violation list" where
  "event_violation i c k m = (if c then [\<lparr>v_code = k, v_message = m, v_index = Some i\<rparr>] else [])"

definition policy_violations :: "string option \<Rightarrow> nat \<Rightarrow> jsval \<Rightarrow> violation list" where
  "policy_violations expected i policyId =
     (case expected of
        None \<Rightarrow> []
      | Some ex \<Rightarrow>
          (case policyId of
             JStr (c # s) \<Rightarrow>
               event_violation i (c # s \<noteq> ex) POLICY_ID_MISMATCH
                 (''event.policyId mismatch (expected='' @ ex @ '', got='' @ c # s @ '')'')
           | _ \<Rightarrow> event_violation i True POLICY_ID_MISSING ''event.policyId is required when expectedPolicyId is provided''))"

definition seen_policy :: "string list \<Rightarrow> jsval \<Rightarrow> string list" where
  "seen_policy ids policyId =
     (case policyId of JStr s \<Rightarrow> if s = [] \<or> s \<in> set ids then ids else ids @ [s] | _ \<Rightarrow> ids)"

definition advance_head :: "host \<Rightarrow> string \<Rightarrow> jsval \<Rightarrow> violation list \<times> string" where
  "advance_head h head event =
     (case auditNextHash h head event of
        Inl _ \<Rightarrow> (violation_if True HASH_CHAIN_INVALID ''failed to recompute hash chain'', head)
      | Inr d \<Rightarrow> ([], d))"

definition audit_step :: "host \<Rightarrow> audit_options \<Rightarrow> nat \<Rightarrow> jsval \<Rightarrow> audit_scan \<Rightarrow> audit_scan" where
  "audit_step h opt i event sc =
     (if \<not> is_plain event
      then sc\<lparr>as_violations := as_violations sc @ event_violation i True MALFORMED_EVENT ''event must be an object''\<rparr>
      else let schemaIssues = validateAuditEventJson event; time = getp event ''timestamp''
      in if schemaIssues \<noteq> []
         then sc\<lparr>as_violations := as_violations sc @ mapIssuesToViolation MALFORMED_EVENT schemaIssues (Some i)\<rparr>
         else if \<not> v_finite time
         then sc\<lparr>as_violations := as_violations sc
                  @ event_violation i True MALFORMED_EVENT ''event.timestamp must be a finite number''\<rparr>
         else let late = (case as_last sc of
                    None \<Rightarrow> []
                  | Some prev \<Rightarrow> event_violation i (js_lt time prev) NON_MONOTONIC_TIMESTAMP
                      (''event timestamps must be non-decreasing (prev='' @ js_string h prev
                       @ '', next='' @ js_string h time @ '')''));
                  policyId = getp event ''policyId'';
                  (broken, head) = advance_head h (as_head sc) event
              in \<lparr>as_violations = as_violations sc @ late @ policy_violations (ao_expectedPolicyId opt) i policyId @ broken,
                  as_policyIds = seen_policy (as_policyIds sc) policyId,
                  as_anchor = (as_anchor sc \<or>
                    getp event ''type'' = JStr ''STATE_CHECKPOINT'' \<and> is_string (getp event ''stateHash'')),
                  as_head = head, as_last = Some time\<rparr>)"

fun audit_scan_events :: "host \<Rightarrow> audit_options \<Rightarrow> nat \<Rightarrow> jsval list \<Rightarrow> audit_scan \<Rightarrow> audit_scan" where
  "audit_scan_events h opt i [] sc = sc"
| "audit_scan_events h opt i (e # es) sc = audit_scan_events h opt (Suc i) es (audit_step h opt i e sc)"

definition audit_outcome :: "violation list \<Rightarrow> jsval \<Rightarrow> string \<Rightarrow> verification_result" where
  "audit_outcome found policyId head =
     (if list_ex (\<lambda>v. v_code v \<noteq> NO_STATE_ANCHOR) found
      then \<lparr>vr_ok = False, vr_status = Invalid, vr_violations = found, vr_policyId = policyId, vr_stateHash = JUndef,
            vr_auditHeadHash = Some head\<rparr>
      else if list_ex (\<lambda>v. v_code v = NO_STATE_ANCHOR) found
      then \<lparr>vr_ok = False, vr_status = Inconclusive, vr_violations = found, vr_policyId = policyId,
            vr_stateHash = JUndef, vr_auditHeadHash = Some head\<rparr>
      else \<lparr>vr_ok = True, vr_status = Ok, vr_violations = [], vr_policyId = policyId, vr_stateHash = JUndef,
            vr_auditHeadHash = Some head\<rparr>)"

definition verifyAuditEvents :: "host \<Rightarrow> audit_options \<Rightarrow> jsval \<Rightarrow> verification_result" where
  "verifyAuditEvents h opt events =
     (case events of
        JArr es \<Rightarrow>
          (let sc = audit_scan_events h opt 0 es
                 \<lparr>as_violations = [], as_policyIds = [], as_anchor = False, as_head = AUDIT_GENESIS_HASH h, as_last = None\<rparr>;
               requireStateAnchors = (case ao_requireStateAnchors opt of Some b \<Rightarrow> b | None \<Rightarrow> \<not> ao_bestEffort opt);
               violations = as_violations sc
                 @ violation_if (1 < length (as_policyIds sc)) MIXED_POLICY_ID ''multiple distinct policyId values observed''
                 @ violation_if (requireStateAnchors \<and> \<not> as_anchor sc) NO_STATE_ANCHOR
                     ''no STATE_CHECKPOINT event with stateHash found'';
               inferred = (case as_policyIds sc of [s] \<Rightarrow> JStr s | _ \<Rightarrow> JUndef)
           in audit_outcome (sortViolations violations) inferred (as_head sc))
      | _ \<Rightarrow> \<lparr>vr_ok = False, vr_status = Invalid,
              vr_violations = sortViolations (violation_if True MALFORMED_EVENT ''events must be an array''),
              vr_policyId = JUndef, vr_stateHash = JUndef, vr_auditHeadHash = None\<rparr>)"

section \<open>Replay events\<close>

datatype replay_status = Replay_ok | Replay_violation | Replay_inconclusive

record replay_violation =
  rv_code :: string
  rv_at :: "nat option"
  rv_detail :: "string option"

record replay_result =
  rr_ok :: bool
  rr_status :: replay_status
  rr_violations :: "replay_violation list"
  rr_expectedPolicyId :: "string option"
  rr_observedPolicyId :: "string option"
  rr_auditHeadHash :: string

definition replayNextHash :: "host \<Rightarrow> string \<Rightarrow> jsval \<Rightarrow> string res" where
  "replayNextHash h prev event =
     bindE (bindE (propE event ''policyId'') (\<lambda>p. canonicalJson h (spread_set event ''policyId'' (coalesce p JNull))))
       (\<lambda>canonical. Inr (sha256 h (prev @ CHR 0x0A # canonical)))"

definition at_index :: "bool \<Rightarrow> string \<Rightarrow> nat \<Rightarrow> replay_violation list" where
  "at_index c code i = (if c then [\<lparr>rv_code = code, rv_at = Some i, rv_detail = None\<rparr>] else [])"

text \<open>The loop over the events: the violations found, the number of checkpoints and the head.\<close>

fun replay_scan :: "host \<Rightarrow> nat \<Rightarrow> jsval option \<Rightarrow> jsval list \<Rightarrow> string \<Rightarrow> (replay_violation list \<times> nat \<times> string) res" where
  "replay_scan h i prev [] head = Inr ([], 0, head)"
| "replay_scan h i prev (e # es) head =
     bindE (propE e ''type'') (\<lambda>t.
     let late = (case prev of None \<Rightarrow> False | Some p \<Rightarrow> js_lt (getp e ''timestamp'') (getp p ''timestamp''));
         checkpoint = (t = JStr ''STATE_CHECKPOINT'')
     in bindE (replayNextHash h head e) (\<lambda>head'.
        bindE (replay_scan h (Suc i) (Some e) es head') (\<lambda>(vs, n, final).
          Inr (at_index late ''NON_MONOTONIC_TIMESTAMP'' i
                 @ at_index (checkpoint \<and> \<not> hex64 (getp e ''stateHash'')) ''INVALID_STATE_HASH'' i @ vs,
               (if checkpoint then 1 else 0) + n, final))))"

definition string_policies :: "jsval list \<Rightarrow> string list" where
  "string_policies es = concat (map (\<lambda>e. case getp e ''policyId'' of JStr s \<Rightarrow> [s] | _ \<Rightarrow> []) es)"

definition verifyReplayEvents :: "host \<Rightarrow> string option \<Rightarrow> bool \<Rightarrow> jsval list \<Rightarrow> replay_result res" where
  "verifyReplayEvents h policyId bestEffort events =
     bindE (replay_scan h 0 None events ''GENESIS'') (\<lambda>(found, checkpoints, head).
     let defined = string_policies events;
         observed = (case defined of [] \<Rightarrow> None | s # _ \<Rightarrow> Some s);
         violations = found
           @ (if \<exists>s \<in> set defined. Some s \<noteq> observed
              then [\<lparr>rv_code = ''MIXED_POLICY_ID'', rv_at = None, rv_detail = Some ''observed multiple policyId values''\<rparr>]
              else [])
           @ (case (policyId, observed) of
                (Some (c # s), Some (d # t)) \<Rightarrow>
                  if c # s \<noteq> d # t
                  then [\<lparr>rv_code = ''POLICY_ID_MISMATCH'', rv_at = None,
                         rv_detail = Some (''expected='' @ c # s @ '', observed='' @ d # t)\<rparr>]
                  else []
              | _ \<Rightarrow> [])
     in if violations \<noteq> []
        then Inr \<lparr>rr_ok = False, rr_status = Replay_violation, rr_violations = violations,
                  rr_expectedPolicyId = policyId, rr_observedPolicyId = observed, rr_auditHeadHash = head\<rparr>
        else if \<not> bestEffort \<and> checkpoints = 0
        then Inr \<lparr>rr_ok = False, rr_status = Replay_inconclusive,
                  rr_violations = [\<lparr>rv_code = ''NO_STATE_ANCHOR'', rv_at = None, rv_detail = None\<rparr>],
                  rr_expectedPolicyId = policyId, rr_observedPolicyId = observed, rr_auditHeadHash = head\<rparr>
        else Inr \<lparr>rr_ok = True, rr_status = Replay_ok, rr_violations = [],
                  rr_expectedPolicyId = policyId, rr_observedPolicyId = observed, rr_auditHeadHash = head\<rparr>)"

end
