(* ===== verification/VerifyLogsLaws.thy ===== *)
theory VerifyLogsLaws
  imports VerifyLogs
begin

text \<open>
  What the verifiers of \<open>VerifyLogs\<close> accept. An audit log that verifies is a chain from the genesis hash
  whose events are well-formed, in time order and of one policy, so its head determines it.
\<close>

section \<open>One chain step in three files\<close>

lemma auditNextHash_log: "auditNextHash h = computeNextHash h"
  by (intro ext) (simp add: auditNextHash_def canonicalizeAuditEvent_def computeNextHash_def canonicalizeEntry_def chain_text_def)

lemma replayNextHash_log: "replayNextHash h = computeNextHash h"
  by (intro ext) (simp add: replayNextHash_def computeNextHash_def canonicalizeEntry_def chain_text_def)

interpretation audit_verifier: event_chain "auditNextHash h" "hashed_text h"
    "\<lambda>e f. event_form h e = event_form h f" "collision h" for h
  unfolding auditNextHash_log by (rule audit.event_chain_axioms)

interpretation replay_verifier: event_chain "replayNextHash h" "hashed_text h"
    "\<lambda>e f. event_form h e = event_form h f" "collision h" for h
  unfolding replayNextHash_log by (rule audit.event_chain_axioms)

section \<open>The scan\<close>

definition event_good :: "audit_options \<Rightarrow> jsval \<Rightarrow> bool" where
  "event_good opt e =
     (is_plain e \<and> validateAuditEventJson e = [] \<and>
      (case ao_expectedPolicyId opt of None \<Rightarrow> True | Some ex \<Rightarrow> ex \<noteq> [] \<and> getp e ''policyId'' = JStr ex))"

fun times_ok :: "jsval option \<Rightarrow> jsval list \<Rightarrow> bool" where
  "times_ok prev [] = True"
| "times_ok prev (e # es) =
     ((case prev of None \<Rightarrow> True | Some p \<Rightarrow> \<not> js_lt (getp e ''timestamp'') p) \<and> times_ok (Some (getp e ''timestamp'')) es)"

lemma event_violation_Nil [simp]: "event_violation i c k m = [] \<longleftrightarrow> \<not> c"
  by (simp add: event_violation_def)

lemma policy_violations_Nil:
  "policy_violations ex i p = [] \<longleftrightarrow> (case ex of None \<Rightarrow> True | Some s \<Rightarrow> s \<noteq> [] \<and> p = JStr s)"
  by (auto simp: policy_violations_def split: option.split jsval.split list.split)

lemma valid_event_time:
  assumes "validateAuditEventJson e = []"
  shows "is_plain e" "\<exists>k. getp e ''timestamp'' = JNum (jint k) \<and> 0 \<le> k" "v_finite (getp e ''timestamp'')"
proof -
  show "is_plain e" using assms by (auto simp: validateAuditEventJson_def split: if_splits)
  have "intNonNegative (getp e ''timestamp'')"
    using assms by (auto simp: validateAuditEventJson_def split: if_splits)
  then show "\<exists>k. getp e ''timestamp'' = JNum (jint k) \<and> 0 \<le> k"
    by (auto simp: intNonNegative_def elim!: v_integerE)
  then show "v_finite (getp e ''timestamp'')" by (auto simp: jint_def)
qed

lemma advance_head_Nil:
  "fst (advance_head h q e) = [] \<longleftrightarrow> (\<exists>d. computeNextHash h q e = Inr d)"
  "computeNextHash h q e = Inr d \<Longrightarrow> snd (advance_head h q e) = d"
  by (auto simp: advance_head_def auditNextHash_log split: sum.split)

lemma audit_step_clean:
  "as_violations (audit_step h opt i e sc) = [] \<longleftrightarrow>
     as_violations sc = [] \<and> event_good opt e \<and>
     (case as_last sc of None \<Rightarrow> True | Some p \<Rightarrow> \<not> js_lt (getp e ''timestamp'') p) \<and>
     (\<exists>d. computeNextHash h (as_head sc) e = Inr d)"
proof (cases "is_plain e \<and> validateAuditEventJson e = []")
  case True
  then show ?thesis
    using valid_event_time(3) [of e] advance_head_Nil(1) [of h "as_head sc" e]
    by (auto simp: audit_step_def event_good_def policy_violations_Nil Let_def split: option.split prod.split)
qed (auto simp: audit_step_def event_good_def Let_def)

lemma audit_step_next:
  assumes "event_good opt e" and "computeNextHash h (as_head sc) e = Inr d"
  shows "as_head (audit_step h opt i e sc) = d" "as_last (audit_step h opt i e sc) = Some (getp e ''timestamp'')"
    "as_policyIds (audit_step h opt i e sc) = seen_policy (as_policyIds sc) (getp e ''policyId'')"
    "as_anchor (audit_step h opt i e sc) \<longleftrightarrow> as_anchor sc \<or>
       getp e ''type'' = JStr ''STATE_CHECKPOINT'' \<and> is_string (getp e ''stateHash'')"
  using assms valid_event_time(3) [of e] advance_head_Nil(2) [OF assms(2)]
  by (auto simp: audit_step_def event_good_def Let_def split: prod.split)

lemma scan_clean_start: "as_violations (audit_scan_events h opt i es sc) = [] \<Longrightarrow> as_violations sc = []"
proof (induction es arbitrary: i sc)
  case (Cons e es)
  then have "as_violations (audit_step h opt i e sc) = []" by simp
  then show ?case by (simp add: audit_step_clean)
qed simp

text \<open>The scan is clean exactly for well-formed events in time order whose chain can be computed.\<close>

lemma scan_clean:
  "as_violations (audit_scan_events h opt i es sc) = [] \<longleftrightarrow>
     as_violations sc = [] \<and> list_all (event_good opt) es \<and> times_ok (as_last sc) es \<and>
     (\<exists>d. chain_head h (as_head sc) es = Inr d)"
proof (induction es arbitrary: i sc)
  case (Cons e es)
  let ?sc = "audit_step h opt i e sc"
  show ?case
  proof (cases "as_violations ?sc = []")
    case True
    then obtain d where "event_good opt e" "computeNextHash h (as_head sc) e = Inr d"
      using audit_step_clean by blast
    with audit_step_next [OF this] Cons.IH [of "Suc i" ?sc] True show ?thesis
      by (auto simp: audit_step_clean)
  next
    case False
    then have "as_violations (audit_scan_events h opt (Suc i) es ?sc) \<noteq> []" using scan_clean_start by blast
    moreover have "\<not> (as_violations sc = [] \<and> list_all (event_good opt) (e # es) \<and> times_ok (as_last sc) (e # es) \<and>
        (\<exists>d. chain_head h (as_head sc) (e # es) = Inr d))"
      using False by (auto simp: audit_step_clean bindE_eq_Inr)
    ultimately show ?thesis by simp
  qed
qed simp

text \<open>What a clean scan ends with.\<close>

definition is_anchor :: "jsval \<Rightarrow> bool" where
  "is_anchor e = (getp e ''type'' = JStr ''STATE_CHECKPOINT'' \<and> is_string (getp e ''stateHash''))"

lemma scan_result:
  "list_all (event_good opt) es \<Longrightarrow> chain_head h (as_head sc) es = Inr d \<Longrightarrow>
     as_head (audit_scan_events h opt i es sc) = d \<and>
     as_policyIds (audit_scan_events h opt i es sc) = foldl seen_policy (as_policyIds sc) (map (\<lambda>e. getp e ''policyId'') es) \<and>
     (as_anchor (audit_scan_events h opt i es sc) \<longleftrightarrow> as_anchor sc \<or> list_ex is_anchor es)"
proof (induction es arbitrary: i sc)
  case (Cons e es)
  then obtain d0 where d0: "computeNextHash h (as_head sc) e = Inr d0" "chain_head h d0 es = Inr d"
    by (auto simp: bindE_eq_Inr)
  have "event_good opt e" "list_all (event_good opt) es" using Cons.prems(1) by simp_all
  with audit_step_next [OF this(1) d0(1), of i] Cons.IH [of "audit_step h opt i e sc" "Suc i"] d0(2) show ?case
    by (auto simp: is_anchor_def)
qed simp

lemma set_seen_policy: "set (foldl seen_policy ids vs) = set ids \<union> {s. s \<noteq> [] \<and> JStr s \<in> set vs}"
proof (induction vs arbitrary: ids)
  case (Cons v vs)
  have "set (seen_policy ids v) = set ids \<union> {s. s \<noteq> [] \<and> v = JStr s}"
    by (auto simp: seen_policy_def split: jsval.split)
  with Cons.IH [of "seen_policy ids v"] show ?case by auto
qed simp

lemma distinct_seen_policy: "distinct ids \<Longrightarrow> distinct (foldl seen_policy ids vs)"
proof (induction vs arbitrary: ids)
  case (Cons v vs)
  then have "distinct (seen_policy ids v)" by (auto simp: seen_policy_def split: jsval.split)
  with Cons.IH show ?case by simp
qed simp

definition mixed_policies :: "jsval list \<Rightarrow> bool" where
  "mixed_policies es = (1 < length (foldl seen_policy [] (map (\<lambda>e. getp e ''policyId'') es)))"

lemma one_policy:
  "\<not> mixed_policies es \<longleftrightarrow>
     (\<forall>s t. s \<noteq> [] \<longrightarrow> t \<noteq> [] \<longrightarrow> JStr s \<in> (\<lambda>e. getp e ''policyId'') ` set es \<longrightarrow>
        JStr t \<in> (\<lambda>e. getp e ''policyId'') ` set es \<longrightarrow> s = t)"
proof -
  let ?ids = "foldl seen_policy [] (map (\<lambda>e. getp e ''policyId'') es)"
  have d: "distinct ?ids" by (simp add: distinct_seen_policy)
  have set: "set ?ids = {s. s \<noteq> [] \<and> JStr s \<in> (\<lambda>e. getp e ''policyId'') ` set es}"
    by (simp add: set_seen_policy)
  have "length ?ids = card (set ?ids)" by (rule distinct_card [OF d, symmetric])
  then have "\<not> mixed_policies es \<longleftrightarrow> card (set ?ids) \<le> Suc 0" by (simp add: mixed_policies_def not_less)
  also have "\<dots> \<longleftrightarrow> (\<forall>s \<in> set ?ids. \<forall>t \<in> set ?ids. s = t)" by (rule card_le_Suc0_iff_eq) simp
  finally show ?thesis unfolding set by blast
qed

section \<open>Acceptance of an audit log\<close>

definition needs_anchor :: "audit_options \<Rightarrow> bool" where
  "needs_anchor opt = (case ao_requireStateAnchors opt of Some b \<Rightarrow> b | None \<Rightarrow> \<not> ao_bestEffort opt)"

lemma audit_outcome_ok: "vr_ok (audit_outcome vs p d) \<longleftrightarrow> vs = []"
  by (cases vs) (auto simp: audit_outcome_def list_ex_iff)

lemma audit_outcome_head: "vr_auditHeadHash (audit_outcome vs p d) = Some d"
  by (simp add: audit_outcome_def)

lemma sortViolations_Nil [simp]: "sortViolations vs = [] \<longleftrightarrow> vs = []"
  by (metis set_empty set_sortViolations)

text \<open>The verifier accepts exactly these logs, and reports the head of their chain.\<close>

theorem verifyAuditEvents_accepts:
  "vr_ok (verifyAuditEvents h opt (JArr es)) \<longleftrightarrow>
     list_all (event_good opt) es \<and> times_ok None es \<and> (\<exists>d. chain_head h (AUDIT_GENESIS_HASH h) es = Inr d) \<and>
     \<not> mixed_policies es \<and> (needs_anchor opt \<longrightarrow> list_ex is_anchor es)" (is "?ok \<longleftrightarrow> ?good")
proof -
  let ?start = "\<lparr>as_violations = [], as_policyIds = [], as_anchor = False, as_head = AUDIT_GENESIS_HASH h, as_last = None\<rparr>"
  let ?scan = "audit_scan_events h opt 0 es ?start"
  have ok: "?ok \<longleftrightarrow> as_violations ?scan = [] \<and> \<not> 1 < length (as_policyIds ?scan) \<and> (needs_anchor opt \<longrightarrow> as_anchor ?scan)"
    by (auto simp: verifyAuditEvents_def audit_outcome_ok needs_anchor_def Let_def simp del: audit_scan_events.simps)
  note clean = scan_clean [of h opt 0 es ?start]
  show ?thesis
  proof (cases "as_violations ?scan = []")
    case True
    then obtain d where "list_all (event_good opt) es" "chain_head h (as_head ?start) es = Inr d" using clean by blast
    from scan_result [OF this, of 0] have "as_policyIds ?scan = foldl seen_policy [] (map (\<lambda>e. getp e ''policyId'') es)"
      "as_anchor ?scan \<longleftrightarrow> list_ex is_anchor es" by simp_all
    with ok clean True show ?thesis by (simp add: mixed_policies_def)
  next
    case False
    with ok have "\<not> ?ok" by simp
    moreover have "\<not> ?good" using False clean by auto
    ultimately show ?thesis by simp
  qed
qed

lemma accepted_head:
  assumes "vr_ok (verifyAuditEvents h opt (JArr es))"
  obtains d where "vr_auditHeadHash (verifyAuditEvents h opt (JArr es)) = Some d"
    "chain_head h (AUDIT_GENESIS_HASH h) es = Inr d"
proof -
  let ?start = "\<lparr>as_violations = [], as_policyIds = [], as_anchor = False, as_head = AUDIT_GENESIS_HASH h, as_last = None\<rparr>"
  obtain d where g: "list_all (event_good opt) es" and d: "chain_head h (as_head ?start) es = Inr d"
    using assms verifyAuditEvents_accepts by auto
  from scan_result [OF g d, of 0]
  have "vr_auditHeadHash (verifyAuditEvents h opt (JArr es)) = Some d"
    by (simp add: verifyAuditEvents_def audit_outcome_head Let_def)
  with d that show thesis by simp
qed

end
