(* ===== verification/SnapshotVerified.thy ===== *)
theory SnapshotVerified
  imports Engine VerifyLogs
begin

text \<open>
  Snapshots across components: what \<open>exportState\<close> writes, \<open>encodeCanonicalState\<close> prints and
  \<open>verifySnapshot\<close> reads back has the state hash the engine computes itself, although the two hash
  different values with different code.
\<close>

section \<open>Decoding an encoded snapshot\<close>

definition snapshot_form :: "host \<Rightarrow> jsval \<Rightarrow> jsval" where
  "snapshot_form h w =
     JObj [(''formatVersion'', JNum (jint 1)), (''engineVersion'', nform h (getp w ''engineVersion'')),
           (''policyId'', nform h (getp w ''policyId'')), (''modules'', nform h (getp w ''modules''))]"

lemma text_decode_object:
  assumes "canonicalJson h (JObj kvs) = Inr s"
  shows "text_decode s = s"
proof -
  have a: "canonicalizeToJson h (JObj kvs) = Inr s" using assms by (simp add: canonicalJson_def)
  from a [unfolded canon_obj [OF canon_obj_distinct [OF a]]] have "\<exists>r. s = CHR ''{'' # r"
    by (auto simp: bindE_eq_Inr)
  then show ?thesis by (auto simp: text_decode_def)
qed

lemma nform_getp:
  assumes "nfc_ok h" and "list_all is_ascii (map fst kvs)" and "distinct (map fst kvs)" and "inherited k = JUndef"
  shows "getp (nform h (JObj kvs)) k = nform h (getp (JObj kvs) k)"
proof -
  have n: "\<forall>k \<in> fst ` set kvs. nfc h k = k" using assms(1,2) by (auto simp: list_all_iff nfc_ascii)
  obtain ms where ms: "nform h (JObj kvs) = JObj ms" by simp
  from nform_lookup [OF n assms(3) ms] assms(4) show ?thesis
    by (auto simp: ms simp del: nform.simps(4) split: option.split)
qed

lemma nform_plain [simp]: "is_plain (nform h v) = is_plain v"
  by (cases v) simp_all

lemma nform_string: "is_string v \<Longrightarrow> is_string (nform h v)"
  by (cases v) simp_all

lemma decode_encoded:
  assumes "nfc_ok h" and "encodeCanonicalState h snap = Inr bytes"
  shows "decodeCanonicalState bytes = Inr (snapshot_form h snap)" and "is_plain (getp snap ''modules'')"
    and "is_string (getp snap ''policyId'')"
proof -
  let ?kvs = "[(''formatVersion'', JNum (jint 1)), (''engineVersion'', getp snap ''engineVersion''),
               (''policyId'', getp snap ''policyId''), (''modules'', getp snap ''modules'')]"
  from assms(2) have a: "assertCanonicalState snap = Inr (JObj ?kvs)" and c: "canonicalJson h (JObj ?kvs) = Inr bytes"
    by (auto simp: encodeCanonicalState_def bindE_eq_Inr assertCanonicalState_Inr)
  from a have t: "is_string (getp snap ''engineVersion'')" "is_string (getp snap ''policyId'')"
    "is_plain (getp snap ''modules'')"
    unfolding assertCanonicalState_Inr by blast+
  then show "is_plain (getp snap ''modules'')" "is_string (getp snap ''policyId'')" by simp_all
  have "getp (nform h (JObj ?kvs)) k = nform h (getp (JObj ?kvs) k)"
    if "k \<in> {''formatVersion'', ''engineVersion'', ''policyId'', ''modules''}" for k
  proof (rule nform_getp [OF assms(1)])
    show "list_all is_ascii (map fst ?kvs)" by code_simp
    show "inherited k = JUndef" using that by (auto simp: inherited_def object_prototype_def)
  qed simp
  then have f: "getp (nform h (JObj ?kvs)) ''formatVersion'' = JNum (jint 1)"
    "getp (nform h (JObj ?kvs)) ''engineVersion'' = nform h (getp snap ''engineVersion'')"
    "getp (nform h (JObj ?kvs)) ''policyId'' = nform h (getp snap ''policyId'')"
    "getp (nform h (JObj ?kvs)) ''modules'' = nform h (getp snap ''modules'')"
    by (simp_all del: nform.simps(4))
  have "assertCanonicalState (nform h (JObj ?kvs)) = Inr (snapshot_form h snap)"
    unfolding assertCanonicalState_Inr snapshot_form_def f using t nform_string by simp
  then show "decodeCanonicalState bytes = Inr (snapshot_form h snap)"
    using parse_canonical [OF c] text_decode_object [OF c] by (simp add: decodeCanonicalState_def)
qed

section \<open>The exported modules\<close>

lemma export_entries:
  "export_modules cs st (JObj kvs) = Inr snap \<Longrightarrow> map_of kvs ''modules'' = Some (JObj ms) \<Longrightarrow>
    distinct (map c_module cs) \<Longrightarrow> c_module ` set cs \<inter> fst ` set ms = {} \<Longrightarrow>
    \<exists>ps. list_all2 (\<lambda>c p. c_serialize c st = Inr p) cs ps \<and> getp snap ''modules'' = JObj (ms @ zip (map c_module cs) ps)"
proof (induction cs arbitrary: kvs ms)
  case (Cons c cs)
  then obtain p where p: "c_serialize c st = Inr p"
    and e: "export_modules cs st (withModuleState (JObj kvs) (c_module c) p) = Inr snap"
    by (auto simp: bindE_eq_Inr)
  have new: "c_module c \<notin> fst ` set ms" using Cons.prems(4) by auto
  have w: "withModuleState (JObj kvs) (c_module c) p = JObj (AList.update ''modules'' (JObj (ms @ [(c_module c, p)])) kvs)"
    using Cons.prems(2) new by (simp add: withModuleState_def spread_set_def update_new)
  have "map_of (AList.update ''modules'' (JObj (ms @ [(c_module c, p)])) kvs) ''modules'' = Some (JObj (ms @ [(c_module c, p)]))"
    by simp
  from Cons.IH [OF e [unfolded w] this] Cons.prems(3,4) obtain ps where
    "list_all2 (\<lambda>c p. c_serialize c st = Inr p) cs ps"
    "getp snap ''modules'' = JObj ((ms @ [(c_module c, p)]) @ zip (map c_module cs) ps)" by auto
  with p show ?case by (intro exI [of _ "p # ps"]) simp
qed (auto simp: getp.simps(1))

lemma module_names:
  "map c_module (MODULE_CODECS h) =
     [''AllowlistModule'', ''BudgetModule'', ''ConcurrencyModule'', ''KillSwitchModule'', ''RecursionDepthModule'',
      ''ReplayModule'', ''ToolAmplificationModule'', ''VelocityModule'']"
  by (simp add: MODULE_CODECS_def)

lemma module_names_order:
  "distinct (map c_module (MODULE_CODECS h))" "list_all is_ascii (map c_module (MODULE_CODECS h))"
  "sort_u16 (map c_module (MODULE_CODECS h)) = map c_module (MODULE_CODECS h)"
  "sort (map c_module (MODULE_CODECS h)) = map c_module (MODULE_CODECS h)"
  unfolding module_names by code_simp+

lemma nform_sorted_object:
  assumes "nfc_ok h" and "list_all is_ascii ks" and "sort ks = ks" and "length ps = length ks"
  shows "nform h (JObj (zip ks ps)) = JObj (zip ks (map (nform h) ps))"
proof -
  have "map (\<lambda>(k, v). (nfc h k, nform h v)) (zip ks ps) = zip ks (map (nform h) ps)"
  proof -
    have "(nfc h k, nform h v) = (k, nform h v)" if "(k, v) \<in> set (zip ks ps)" for k v
      using set_zip_leftD [OF that] assms(1,2) by (simp add: list_all_iff nfc_ascii)
    then have "map (\<lambda>(k, v). (nfc h k, nform h v)) (zip ks ps) = map (\<lambda>(k, v). (k, nform h v)) (zip ks ps)"
      by (intro map_cong) auto
    then show ?thesis by (simp add: zip_map2)
  qed
  moreover have "sorted ks" using assms(3) by (metis sorted_sort)
  then have "sort_key fst (zip ks (map (nform h) ps)) = zip ks (map (nform h) ps)"
    using assms(4) by (intro sort_key_id_if_sorted) simp
  ultimately show ?thesis by simp
qed

lemma nform_digest:
  assumes "nfc_ok h" and "sha256HexFromJson h v = Inr d"
  shows "sha256HexFromJson h (nform h v) = Inr d"
  using assms canonical_nform [OF assms(1)] by (auto simp: sha256HexFromJson_def canonicalJson_def bindE_eq_Inr)

lemma exported_hashes:
  assumes "nfc_ok h" and "export_modules (sorted_codecs h) st (createCanonicalState v (JObj []) p) = Inr snap"
    and "module_hashes h (sorted_codecs h) st = Inr mh"
  shows "snapshot_hashes h (nform h (getp snap ''modules'')) = Inr mh"
proof -
  let ?cs = "MODULE_CODECS h" and ?m = "getp snap ''modules''"
  have ex: "export_modules ?cs st (createCanonicalState v (JObj []) p) = Inr snap"
    and mh: "module_hashes h ?cs st = Inr mh"
    using assms(2,3) by (simp_all add: sorted_codecs_registry)
  have start: "createCanonicalState v (JObj []) p =
      JObj [(''formatVersion'', JNum (jint 1)), (''engineVersion'', JStr v), (''policyId'', JStr p), (''modules'', JObj [])]"
    by (simp add: createCanonicalState_def)
  from export_entries [OF ex [unfolded start], of "[]"] module_names_order(1) obtain ps where
    ps: "list_all2 (\<lambda>c p. c_serialize c st = Inr p) ?cs ps" and m: "?m = JObj (zip (map c_module ?cs) ps)" by auto
  from ps have len: "length ps = length (map c_module ?cs)" by (simp add: list_all2_lengthD)
  have n: "nform h ?m = JObj (zip (map c_module ?cs) (map (nform h) ps))"
    unfolding m using assms(1) module_names_order(2,4) len by (rule nform_sorted_object)
  then have keys: "obj_keys (nform h ?m) = map c_module ?cs"
    using len by (simp add: obj_keys_def)
  have "bindE (sha256HexFromJson h (getp (nform h ?m) (c_module c))) (\<lambda>d. Inr (c_module c, JStr d)) =
      bindE (codec_stateHash h c st) (\<lambda>d. Inr (c_module c, JStr d))" if c: "c \<in> set ?cs" for c
  proof -
    obtain j where j: "j < length ?cs" "?cs ! j = c" using c by (auto simp: in_set_conv_nth)
    have s: "c_serialize c st = Inr (ps ! j)" using list_all2_nthD [OF ps j(1)] j(2) by simp
    have "map_of (zip (map c_module ?cs) (map (nform h) ps)) (map c_module ?cs ! j) = Some (map (nform h) ps ! j)"
      by (rule map_of_zip_nth) (use len j module_names_order(1) in simp_all)
    then have g: "getp (nform h ?m) (c_module c) = nform h (ps ! j)"
      using j len by (simp add: n)
    obtain d where "codec_stateHash h c st = Inr d"
      using mapE_InrD [OF mh [unfolded module_hashes_def] c] by (auto simp: bindE_eq_Inr)
    then have "sha256HexFromJson h (ps ! j) = Inr d" by (simp add: codec_stateHash_def s hashPayload_def)
    from nform_digest [OF assms(1) this] show ?thesis
      using \<open>codec_stateHash h c st = Inr d\<close> by (simp add: g)
  qed
  then have "mapE (\<lambda>id. bindE (sha256HexFromJson h (getp (nform h ?m) id)) (\<lambda>d. Inr (id, JStr d))) (map c_module ?cs)
      = mapE (\<lambda>c. bindE (codec_stateHash h c st) (\<lambda>d. Inr (c_module c, JStr d))) ?cs"
    unfolding mapE_map by (intro mapE_cong) simp_all
  with mh show ?thesis unfolding snapshot_hashes_def keys module_names_order(3) module_hashes_def by simp
qed

section \<open>The verifier reports the engine's state hash\<close>

lemma canon_values:
  assumes "\<And>v. canonicalizeToJson h (g v) = canonicalizeToJson h v" "\<And>v. v_safe_integer (g v) = v_safe_integer v"
    and "distinct (map (nfc h) (map fst kvs))"
  shows "canonicalizeToJson h (JObj (map (\<lambda>(k, v). (k, g v)) kvs)) = canonicalizeToJson h (JObj kvs)"
proof -
  have d: "distinct (map (nfc h) (map fst (map (\<lambda>(k, v). (k, g v)) kvs)))"
    using assms(3) by (simp only: map_fst_map_snd)
  have "normalizeEntries h (map (\<lambda>(k, v). (k, g v)) kvs) = map (\<lambda>(k, v). (k, g v)) (normalizeEntries h kvs)"
    by (induction kvs) (auto simp: normalizeEntries_def)
  moreover have "canon_entry h \<circ> (\<lambda>(k, v). (k, g v)) = canon_entry h"
    using assms(1,2) by (auto simp: canon_entry_def fun_eq_iff)
  ultimately show ?thesis
    unfolding canon_obj [OF assms(3)] canon_obj [OF d] by (simp add: sort_key_map_snd mapE_map)
qed

lemma nform_exported_schema:
  assumes "nfc_ok h" and "is_plain (getp snap ''modules'')" and "getp snap ''engineVersion'' = JStr v"
    and "getp snap ''policyId'' = JStr p" and "nfc h p \<noteq> []"
  shows "validateCanonicalStateJson (snapshot_form h snap) = []"
  using assms by (simp add: validateCanonicalStateJson_def snapshot_form_def has_bad_def obj_keys_def Let_def)

lemma export_verified:
  assumes "nfc_ok h" and "exportState h e (Some st) = Inr snap" and "encodeCanonicalState h snap = Inr bytes"
    and "is_plain st" and "computeStateHashFor h e st = Inr d" and "computePolicyId h e = Inr p" and "nfc h p \<noteq> []"
    and "expected \<in> {None, Some (nfc h p)}"
  shows "verifySnapshot h expected bytes =
    \<lparr>vr_ok = True, vr_status = Ok, vr_violations = [], vr_policyId = JStr (nfc h p), vr_stateHash = JStr d,
     vr_auditHeadHash = None\<rparr>"
proof -
  have ex: "export_modules (sorted_codecs h) st (createCanonicalState ENGINE_VERSION (JObj []) p) = Inr snap"
    using assms(2,4,6) by (cases st) (auto simp: exportState_def current_or_def)
  have start: "is_plain (createCanonicalState ENGINE_VERSION (JObj []) p)" by (simp add: createCanonicalState_def)
  have f: "getp snap ''engineVersion'' = JStr ENGINE_VERSION" "getp snap ''policyId'' = JStr p"
    using export_other [OF ex start] by (simp_all add: createCanonicalState_def)
  note dec = decode_encoded [OF assms(1,3)]
  obtain mh bytes' where mh: "module_hashes h (sorted_codecs h) st = Inr mh"
    and c: "canonicalJson h (JObj [(''formatVersion'', JNum (jint 1)), (''engineVersion'', JStr ENGINE_VERSION),
        (''policyId'', JStr p), (''modules'', JObj mh)]) = Inr bytes'" and d: "d = sha256 h bytes'"
    using assms(5,6) by (auto simp: computeStateHashFor_def bindE_eq_Inr)
  have ascii: "nfc h ENGINE_VERSION = ENGINE_VERSION"
    using assms(1) by (intro nfc_ascii) (simp_all add: ENGINE_VERSION_def is_ascii_def)
  have "canonicalJson h (JObj [(''formatVersion'', JNum (jint 1)), (''engineVersion'', JStr ENGINE_VERSION),
        (''policyId'', JStr (nfc h p)), (''modules'', JObj mh)]) = Inr bytes'"
  proof -
    let ?g = "\<lambda>v. if v = JStr p then JStr (nfc h p) else v"
    let ?kvs = "[(''formatVersion'', JNum (jint 1)), (''engineVersion'', JStr ENGINE_VERSION), (''policyId'', JStr p),
      (''modules'', JObj mh)]"
    have keys: "map (nfc h) (map fst ?kvs) = map fst ?kvs"
      using nfc_ascii [OF assms(1)] by (simp add: is_ascii_def)
    have "map (\<lambda>(k, v). (k, ?g v)) ?kvs = [(''formatVersion'', JNum (jint 1)), (''engineVersion'', JStr ENGINE_VERSION),
        (''policyId'', JStr (nfc h p)), (''modules'', JObj mh)]"
      using ascii by simp
    with canon_values [of h ?g ?kvs] nfc_idem [OF assms(1)] keys c show ?thesis by (simp add: canonicalJson_def)
  qed
  then have "snapshot_stateHash h (snapshot_form h snap) = Inr d"
    using exported_hashes [OF assms(1) ex mh]
    by (simp add: snapshot_stateHash_def snapshot_form_def f ascii sha256HexFromJson_def d del: nform.simps(4))
  with dec(1) nform_exported_schema [OF assms(1) dec(2) f assms(7)] assms(7,8) dec(2) show ?thesis
    by (auto simp: verifySnapshot_def snapshot_form_def f Let_def split: list.splits)
qed

section \<open>Import after export\<close>

lemma import_keeps_hash:
  assumes "exportState h e (Some st) = Inr snap" and "importState h e (Some tgt) snap = (Inr (), Some t', e')"
    and "is_plain st" and "wf_js st" and "tools_typed st" and "is_plain tgt"
  shows "computeStateHashFor h e t' = computeStateHashFor h e st"
proof -
  obtain p where ex: "export_modules (sorted_codecs h) st (createCanonicalState ENGINE_VERSION (JObj []) p) = Inr snap"
    using assms(1,3) by (cases st) (auto simp: exportState_def current_or_def bindE_eq_Inr)
  have start: "is_plain (createCanonicalState ENGINE_VERSION (JObj []) p)"
    "is_plain (getp (createCanonicalState ENGINE_VERSION (JObj []) p) ''modules'')"
    by (simp_all add: createCanonicalState_def)
  have good: "good_codecs (sorted_codecs h)" by (simp add: sorted_codecs_registry MODULE_CODECS_good)
  then have "\<forall>c \<in> set (sorted_codecs h). c_serialize c st = Inr (getp (getp snap ''modules'') (c_module c))"
    using export_lookup [OF ex start] by (simp add: good_codecs_def)
  with assms(5) have ser: "\<forall>c \<in> set (sorted_codecs h). codec_typed (c_module c) st \<and>
      c_serialize c st = Inr (getp (getp snap ''modules'') (c_module c))"
    by (simp add: codec_typed_def)
  have "import_modules (sorted_codecs h) (getp snap ''modules'') tgt = (Inr (), t')"
    using assms(2) by (auto simp: importState_def bindE_eq_Inr Let_def split: sum.splits prod.splits if_splits)
  from import_payloads [OF this good assms(6,3,4) ser]
  have "module_hashes h (sorted_codecs h) t' = module_hashes h (sorted_codecs h) st" by (rule module_hashes_cong)
  then show ?thesis by (simp add: computeStateHashFor_def)
qed

end
