(* ===== verification/Envelope.thy ===== *)
theory Envelope
  imports VerifyLogs VerifyAuthorization
begin

text \<open>
  \<open>verification/envelope.ts\<close>, \<open>verifyEnvelope.ts\<close> and \<open>createVerifier.ts\<close>: verification envelopes carry
  a snapshot and the audit events that led to it. The wire format is a JavaScript object; the decoded
  envelope is a record.
\<close>

section \<open>The wire format\<close>

record envelope =
  env_formatVersion :: jsval
  env_snapshot :: string  \<comment> \<open>the bytes\<close>
  env_events :: jsval
  env_issuer :: "string option"
  env_alg :: "string option"
  env_kid :: "string option"
  env_signature :: "string option"

text \<open>\<open>if (x !== undefined) wire.k = x\<close>\<close>

definition text_entry :: "string \<Rightarrow> string option \<Rightarrow> (string \<times> jsval) list" where
  "text_entry k x = (case x of None \<Rightarrow> [] | Some s \<Rightarrow> [(k, JStr s)])"

definition clone_events :: "jsval \<Rightarrow> jsval list res" where
  "clone_events v = (case v of JArr es \<Rightarrow> mapE structuredClone es | _ \<Rightarrow> Inl TypeError)"

definition wire_fields :: "envelope \<Rightarrow> jsval list \<Rightarrow> (string \<times> jsval) list" where
  "wire_fields env es =
     [(''formatVersion'', JNum (jint 1)), (''snapshot'', JStr (to_base64 (env_snapshot env))), (''events'', JArr es)]
     @ text_entry ''issuer'' (env_issuer env) @ text_entry ''alg'' (env_alg env) @ text_entry ''kid'' (env_kid env)"

definition toWire :: "envelope \<Rightarrow> jsval res" where
  "toWire env =
     bindE (clone_events (env_events env)) (\<lambda>es.
       Inr (JObj (wire_fields env es @ text_entry ''signature'' (env_signature env))))"

definition envelopeSigningPayload :: "envelope \<Rightarrow> jsval res" where
  "envelopeSigningPayload env =
     bindE (toWire env) (\<lambda>wire. Inr (JObj (filter (\<lambda>(k, v). k \<noteq> ''signature'') (entries wire))))"

definition signEnvelopeEd25519 :: "host \<Rightarrow> envelope \<Rightarrow> string \<Rightarrow> string \<Rightarrow> string \<Rightarrow> envelope res" where
  "signEnvelopeEd25519 h env issuer kid privateKeyPem =
     (let unsigned = env\<lparr>env_issuer := Some issuer, env_alg := Some ''Ed25519'', env_kid := Some kid, env_signature := None\<rparr>
      in bindE (envelopeSigningPayload unsigned) (\<lambda>payload.
         bindE (signEd25519 h ENVELOPE_V1 payload privateKeyPem) (\<lambda>sig.
           Inr (unsigned\<lparr>env_signature := Some sig\<rparr>))))"

definition encodeEnvelope :: "host \<Rightarrow> envelope \<Rightarrow> string res" where
  "encodeEnvelope h env =
     (if env_formatVersion env \<noteq> JNum (jint 1)
      then Inl (Thrown ''invalid verification envelope: unsupported formatVersion'')
      else if \<not> is_array (env_events env) then Inl (Thrown ''invalid verification envelope: events'')
      else bindE (toWire env) (canonicalJson h))"

definition text_of :: "jsval \<Rightarrow> string option" where
  "text_of v = (case v of JStr s \<Rightarrow> Some s | _ \<Rightarrow> None)"

record envelope_wire =
  wire_snapshot :: string
  wire_events :: "jsval list"
  wire_issuer :: "string option"
  wire_alg :: "string option"
  wire_kid :: "string option"
  wire_signature :: "string option"

definition assertEnvelope :: "jsval \<Rightarrow> envelope_wire res" where
  "assertEnvelope v =
     (if \<not> is_plain v then Inl (Thrown ''invalid verification envelope'')
      else if \<not> has_prop v ''formatVersion'' \<or> getp v ''formatVersion'' \<noteq> JNum (jint 1)
      then Inl (Thrown ''invalid verification envelope: unsupported formatVersion'')
      else case getp v ''snapshot'' of
        JStr snap \<Rightarrow>
          (case getp v ''events'' of
             JArr es \<Rightarrow>
               (case find (\<lambda>(i, e). \<not> is_plain e) (enumerate 0 es) of
                  Some (i, e) \<Rightarrow> Inl (Thrown (''invalid verification envelope: events['' @ nat_str i @ '']''))
                | None \<Rightarrow> Inr \<lparr>wire_snapshot = snap, wire_events = es,
                    wire_issuer = text_of (getp v ''issuer''),
                    wire_alg = (if getp v ''alg'' = JStr ''Ed25519'' then Some ''Ed25519'' else None),
                    wire_kid = text_of (getp v ''kid''), wire_signature = text_of (getp v ''signature'')\<rparr>)
           | _ \<Rightarrow> Inl (Thrown ''invalid verification envelope: events''))
      | _ \<Rightarrow> Inl (Thrown ''invalid verification envelope: snapshot''))"

definition decodeEnvelope :: "string \<Rightarrow> envelope res" where
  "decodeEnvelope bytes =
     bindE (json_parse (text_decode bytes)) (\<lambda>parsed.
       case validateVerificationEnvelopeWireJson parsed of
         first # _ \<Rightarrow> Inl (Thrown (''invalid verification envelope: '' @ i_path first @ '': '' @ i_message first))
       | [] \<Rightarrow>
           bindE (assertEnvelope parsed) (\<lambda>wire.
           bindE (mapE structuredClone (wire_events wire)) (\<lambda>es.
             Inr \<lparr>env_formatVersion = JNum (jint 1), env_snapshot = b64_decode (wire_snapshot wire),
                  env_events = JArr es, env_issuer = wire_issuer wire, env_alg = wire_alg wire,
                  env_kid = wire_kid wire, env_signature = wire_signature wire\<rparr>)))"

section \<open>Verification\<close>

datatype request_mode = StrictMode | BestEffort

record verify_envelope_opts =
  ve_now :: "jsnum option"
  ve_expectedPolicyId :: "string option"
  ve_mode :: "request_mode option"
  ve_expectedIssuer :: "string option"
  ve_trustedKeySets :: "trusted_key_sets option"
  ve_requireSignature :: bool

text \<open>\<open>error.message || ...\<close>; the texts of the built-in errors are not specified, their name stands for them.\<close>

fun exn_message :: "exn \<Rightarrow> string" where
  "exn_message TypeError = ''TypeError''"
| "exn_message (Thrown s) = (if s = [] then ''envelope decode failed'' else s)"

definition envelope_failed :: "violation list \<Rightarrow> verification_result" where
  "envelope_failed violations =
     \<lparr>vr_ok = False, vr_status = Invalid, vr_violations = violations, vr_policyId = JUndef, vr_stateHash = JUndef,
      vr_auditHeadHash = None\<rparr>"

definition no_text :: "string option \<Rightarrow> bool" where
  "no_text s = (case s of Some (c # r) \<Rightarrow> False | _ \<Rightarrow> True)"

definition envelope_key_violations :: "host \<Rightarrow> envelope \<Rightarrow> string \<Rightarrow> keyset list \<Rightarrow> jsnum \<Rightarrow> violation list res" where
  "envelope_key_violations h env sig trusted now =
     (case findKeyInKeySets trusted (opt_val JStr (env_issuer env)) (opt_val JStr (env_kid env)) Ed25519 of
        None \<Rightarrow> Inr (violation_if True ENVELOPE_KID_UNKNOWN ''envelope kid not found for issuer/alg'')
      | Some key \<Rightarrow>
          if \<not> keyIsActiveAt key now
          then Inr (violation_if True ENVELOPE_KEY_INACTIVE ''envelope signing key is not active'')
          else bindE (envelopeSigningPayload env) (\<lambda>payload.
                 Inr (violation_if (\<not> verifyEd25519 h ENVELOPE_V1 payload (JStr sig) (public_key key))
                        ENVELOPE_SIGNATURE_INVALID ''envelope signature verification failed'')))"

definition envelope_signature_violations ::
  "host \<Rightarrow> verify_envelope_opts \<Rightarrow> envelope \<Rightarrow> keyset list \<Rightarrow> jsnum \<Rightarrow> violation list res" where
  "envelope_signature_violations h opt env trusted now =
     bindE (case env_signature env of
              Some (c # sig) \<Rightarrow>
                if env_alg env \<noteq> Some ''Ed25519''
                then Inr (violation_if True ENVELOPE_ALG_UNSUPPORTED ''unsupported envelope signature algorithm'')
                else if no_text (env_kid env) \<or> no_text (env_issuer env)
                then Inr (violation_if True ENVELOPE_SIGNATURE_INVALID ''signed envelope requires issuer, alg, kid, signature'')
                else if trusted = []
                then Inr (violation_if True ENVELOPE_TRUST_MISSING ''trustedKeySets required to verify signed envelope'')
                else envelope_key_violations h env (c # sig) trusted now
            | _ \<Rightarrow> Inr (violation_if (ve_requireSignature opt) ENVELOPE_SIGNATURE_MISSING ''signed envelope is required''))
       (\<lambda>vs. Inr (expected_violation (opt_val JStr (env_issuer env)) (ve_expectedIssuer opt) ENVELOPE_SIGNATURE_INVALID
                    ''envelope issuer does not match expectedIssuer'' @ vs))"

definition audit_options_of :: "verify_envelope_opts \<Rightarrow> audit_options" where
  "audit_options_of opt =
     \<lparr>ao_expectedPolicyId = ve_expectedPolicyId opt, ao_bestEffort = (ve_mode opt = Some BestEffort),
      ao_requireStateAnchors = None\<rparr>"

definition policy_pair_violations :: "jsval \<Rightarrow> jsval \<Rightarrow> violation list" where
  "policy_pair_violations snapshotPolicyId auditPolicyId =
     (if \<not> truthy snapshotPolicyId \<or> \<not> truthy auditPolicyId
      then violation_if True POLICY_ID_MISSING ''snapshot and audit must both include policyId''
      else violation_if (snapshotPolicyId \<noteq> auditPolicyId) POLICY_ID_MISMATCH
             ''snapshot policyId does not match audit policyId'')"

definition envelope_outcome ::
  "violation list \<Rightarrow> verification_result \<Rightarrow> verification_result \<Rightarrow> verification_result" where
  "envelope_outcome found snap aud =
     (if vr_status snap = Invalid \<or> vr_status aud = Invalid \<or> list_ex (\<lambda>v. v_code v \<noteq> NO_STATE_ANCHOR) found
      then \<lparr>vr_ok = False, vr_status = Invalid, vr_violations = found,
            vr_policyId = coalesce (vr_policyId snap) (vr_policyId aud), vr_stateHash = vr_stateHash snap,
            vr_auditHeadHash = vr_auditHeadHash aud\<rparr>
      else if vr_status snap = Inconclusive \<or> vr_status aud = Inconclusive
      then \<lparr>vr_ok = False, vr_status = Inconclusive, vr_violations = found,
            vr_policyId = coalesce (vr_policyId snap) (vr_policyId aud), vr_stateHash = vr_stateHash snap,
            vr_auditHeadHash = vr_auditHeadHash aud\<rparr>
      else \<lparr>vr_ok = True, vr_status = Ok, vr_violations = [], vr_policyId = vr_policyId snap,
            vr_stateHash = vr_stateHash snap, vr_auditHeadHash = vr_auditHeadHash aud\<rparr>)"

definition verifyEnvelope :: "host \<Rightarrow> jsnum \<Rightarrow> verify_envelope_opts \<Rightarrow> string \<Rightarrow> verification_result res" where
  "verifyEnvelope h clock opt envelopeBytes =
     (case decodeEnvelope envelopeBytes of
        Inl x \<Rightarrow> Inr (envelope_failed (violation_if True ENVELOPE_MALFORMED (exn_message x)))
      | Inr env \<Rightarrow>
          let trusted = trusted_list (ve_trustedKeySets opt)
          in if ve_mode opt = Some StrictMode \<and> trusted = []
             then Inr (envelope_failed (violation_if True TRUSTED_KEYSETS_REQUIRED
                    ''strict mode requires trustedKeySets to be provided''))
             else bindE (envelope_signature_violations h opt env trusted (nowSeconds clock (ve_now opt))) (\<lambda>sigViolations.
                    let snap = verifySnapshot h (ve_expectedPolicyId opt) (env_snapshot env);
                        aud = verifyAuditEvents h (audit_options_of opt) (env_events env);
                        violations = sigViolations @ vr_violations snap @ vr_violations aud
                          @ policy_pair_violations (vr_policyId snap) (vr_policyId aud)
                    in Inr (envelope_outcome (sortViolations violations) snap aud)))"

section \<open>A verifier with its trust boundary\<close>

record verifier_config =
  vc_trustedKeySets :: "keyset list"
  vc_expectedIssuer :: "string option"

record bound_verifier =
  bv_verifyAuthorization :: "jsval \<Rightarrow> verify_auth_opts \<Rightarrow> authorization_result res"
  bv_verifyEnvelope :: "string \<Rightarrow> verify_envelope_opts \<Rightarrow> verification_result res"

definition or_else :: "'a option \<Rightarrow> 'a option \<Rightarrow> 'a option" where
  "or_else a b = (case a of None \<Rightarrow> b | Some x \<Rightarrow> Some x)"

definition createVerifier :: "host \<Rightarrow> jsnum \<Rightarrow> verifier_config \<Rightarrow> bound_verifier res" where
  "createVerifier h clock config =
     (if vc_trustedKeySets config = []
      then Inl (Thrown (''createVerifier: trustedKeySets must not be empty '' @ [CHR 0xE2, CHR 0x80, CHR 0x94]
             @ '' provide at least one KeySet to establish a trust boundary''))
      else Inr \<lparr>bv_verifyAuthorization = (\<lambda>auth opt. verifyAuthorization h clock
                 (opt\<lparr>va_strict := True, va_trustedKeySets := Some (KeySets (vc_trustedKeySets config)),
                      va_expectedIssuer := or_else (va_expectedIssuer opt) (vc_expectedIssuer config)\<rparr>) auth),
               bv_verifyEnvelope = (\<lambda>bytes opt. verifyEnvelope h clock
                 (opt\<lparr>ve_mode := Some StrictMode, ve_trustedKeySets := Some (KeySets (vc_trustedKeySets config)),
                      ve_expectedIssuer := or_else (ve_expectedIssuer opt) (vc_expectedIssuer config)\<rparr>) bytes)\<rparr>)"

section \<open>Acceptance\<close>

lemma verified_status:
  "vr_status (verifySnapshot h ex b) = Ok \<longleftrightarrow> vr_ok (verifySnapshot h ex b)"
  "vr_status (verifyAuditEvents h opt v) = Ok \<longleftrightarrow> vr_ok (verifyAuditEvents h opt v)"
  by (auto simp: verifySnapshot_def snapshot_corrupt_def snapshot_invalid_def verifyAuditEvents_def audit_outcome_def Let_def
      split: sum.splits jsval.splits option.splits)

text \<open>None of the envelope's own violations is the one code that \<open>envelope_outcome\<close> tolerates.\<close>

definition no_anchor :: "violation list \<Rightarrow> bool" where
  "no_anchor vs = list_all (\<lambda>v. v_code v \<noteq> NO_STATE_ANCHOR) vs"

lemma no_anchor_simps:
  "no_anchor []" "no_anchor (vs @ ws) \<longleftrightarrow> no_anchor vs \<and> no_anchor ws"
  "no_anchor (violation_if c k m) \<longleftrightarrow> \<not> c \<or> k \<noteq> NO_STATE_ANCHOR"
  by (auto simp: no_anchor_def violation_if_def)

lemma signature_no_anchor:
  assumes "envelope_signature_violations h opt env trusted now = Inr vs"
  shows "no_anchor vs"
proof -
  have "no_anchor ws" if "envelope_key_violations h env sig trusted now = Inr ws" for sig ws
    using that by (auto simp: envelope_key_violations_def no_anchor_simps bindE_def simp del: violation_if_simps
        split: option.splits if_splits sum.splits)
  with assms show ?thesis
    by (auto simp: envelope_signature_violations_def expected_violation_def no_anchor_simps bindE_def
        simp del: violation_if_simps split: option.splits if_splits sum.splits list.splits)
qed

lemma policy_pair_no_anchor: "no_anchor (policy_pair_violations a b)"
  by (simp add: policy_pair_violations_def no_anchor_simps del: violation_if_simps)

lemma policy_pair_Nil: "policy_pair_violations a b = [] \<longleftrightarrow> truthy a \<and> a = b"
  by (auto simp: policy_pair_violations_def)

lemma outcome_okE:
  assumes "vr_ok (envelope_outcome found snap aud)"
  obtains "vr_status snap = Ok" "vr_status aud = Ok" "\<And>v. v \<in> set found \<Longrightarrow> v_code v = NO_STATE_ANCHOR"
    "vr_policyId (envelope_outcome found snap aud) = vr_policyId snap"
    "vr_stateHash (envelope_outcome found snap aud) = vr_stateHash snap"
    "vr_auditHeadHash (envelope_outcome found snap aud) = vr_auditHeadHash aud"
proof -
  have "vr_status snap = Ok \<and> vr_status aud = Ok \<and> \<not> list_ex (\<lambda>v. v_code v \<noteq> NO_STATE_ANCHOR) found"
    using assms by (cases "vr_status snap"; cases "vr_status aud") (auto simp: envelope_outcome_def split: if_splits)
  then show thesis
    by (intro that) (auto simp: envelope_outcome_def list_ex_iff)
qed

text \<open>
  An accepted envelope decodes, its signature policy finds nothing, its snapshot and its events verify on
  their own, and both name the same policy.
\<close>

lemma envelope_accepted:
  assumes "verifyEnvelope h clock opt bytes = Inr r" and "vr_ok r"
  obtains env where "decodeEnvelope bytes = Inr env"
    "ve_mode opt = Some StrictMode \<Longrightarrow> trusted_list (ve_trustedKeySets opt) \<noteq> []"
    "envelope_signature_violations h opt env (trusted_list (ve_trustedKeySets opt)) (nowSeconds clock (ve_now opt)) = Inr []"
    "vr_ok (verifySnapshot h (ve_expectedPolicyId opt) (env_snapshot env))"
    "vr_ok (verifyAuditEvents h (audit_options_of opt) (env_events env))"
    "vr_policyId (verifySnapshot h (ve_expectedPolicyId opt) (env_snapshot env)) =
       vr_policyId (verifyAuditEvents h (audit_options_of opt) (env_events env))"
    "vr_stateHash r = vr_stateHash (verifySnapshot h (ve_expectedPolicyId opt) (env_snapshot env))"
    "vr_auditHeadHash r = vr_auditHeadHash (verifyAuditEvents h (audit_options_of opt) (env_events env))"
proof (cases "decodeEnvelope bytes")
  case (Inl x)
  with assms show thesis by (auto simp: verifyEnvelope_def envelope_failed_def)
next
  case (Inr env)
  let ?snap = "verifySnapshot h (ve_expectedPolicyId opt) (env_snapshot env)"
  let ?aud = "verifyAuditEvents h (audit_options_of opt) (env_events env)"
  let ?trusted = "trusted_list (ve_trustedKeySets opt)"
  let ?pair = "policy_pair_violations (vr_policyId ?snap) (vr_policyId ?aud)"
  have strict: "ve_mode opt = Some StrictMode \<Longrightarrow> ?trusted \<noteq> []"
    using assms Inr by (auto simp: verifyEnvelope_def envelope_failed_def Let_def)
  obtain vs where vs: "envelope_signature_violations h opt env ?trusted (nowSeconds clock (ve_now opt)) = Inr vs"
    and r: "r = envelope_outcome (sortViolations (vs @ vr_violations ?snap @ vr_violations ?aud @ ?pair)) ?snap ?aud"
    using assms Inr strict by (auto simp: verifyEnvelope_def Let_def bindE_def split: sum.splits if_splits)
  from assms(2)[unfolded r] show thesis
  proof (rule outcome_okE)
    assume ok: "vr_status ?snap = Ok" "vr_status ?aud = Ok"
      and found: "\<And>v. v \<in> set (sortViolations (vs @ vr_violations ?snap @ vr_violations ?aud @ ?pair))
                    \<Longrightarrow> v_code v = NO_STATE_ANCHOR"
      and heads: "vr_stateHash (envelope_outcome (sortViolations (vs @ vr_violations ?snap @ vr_violations ?aud @ ?pair)) ?snap ?aud)
          = vr_stateHash ?snap"
        "vr_auditHeadHash (envelope_outcome (sortViolations (vs @ vr_violations ?snap @ vr_violations ?aud @ ?pair)) ?snap ?aud)
          = vr_auditHeadHash ?aud"
    have "vs = []"
      using signature_no_anchor[OF vs] found by (cases vs) (auto simp: no_anchor_def)
    moreover have "?pair = []"
      using policy_pair_no_anchor[of "vr_policyId ?snap" "vr_policyId ?aud"] found
      by (cases ?pair) (auto simp: no_anchor_def)
    ultimately show thesis
      using Inr vs strict ok heads r
      by (intro that[of env]) (simp_all add: verified_status policy_pair_Nil)
  qed
qed

text \<open>The signature check of an accepted envelope in strict mode with \<open>requireSignature\<close>: a trusted, active key.\<close>

lemma envelope_signature_NilE:
  assumes "envelope_signature_violations h opt env trusted now = Inr []" and "ve_requireSignature opt"
  obtains sig iss kid key payload where "env_signature env = Some sig" "env_issuer env = Some iss" "env_kid env = Some kid"
    "findKeyInKeySets trusted (JStr iss) (JStr kid) Ed25519 = Some key" "keyIsActiveAt key now"
    "envelopeSigningPayload env = Inr payload" "verifyEd25519 h ENVELOPE_V1 payload (JStr sig) (public_key key)"
proof -
  have "\<exists>sig. env_signature env = Some sig \<and> sig \<noteq> []"
    using assms by (auto simp: envelope_signature_violations_def bindE_def split: option.splits list.splits)
  then obtain sig where sig: "env_signature env = Some sig" "sig \<noteq> []" by blast
  then have key: "envelope_key_violations h env sig trusted now = Inr []"
    and named: "\<not> no_text (env_kid env)" "\<not> no_text (env_issuer env)"
    using assms by (auto simp: envelope_signature_violations_def bindE_def split: list.splits if_splits sum.splits)
  from named obtain kid iss where ids: "env_kid env = Some kid" "env_issuer env = Some iss"
    by (auto simp: no_text_def split: option.splits)
  from key ids sig show thesis
    by (auto simp: envelope_key_violations_def bindE_def intro!: that
        split: option.splits if_splits sum.splits)
qed

text \<open>A verifier has keys, and it puts them into every request.\<close>

lemma createVerifier_binds:
  assumes "createVerifier h clock config = Inr v"
  shows "vc_trustedKeySets config \<noteq> []"
    and "bv_verifyAuthorization v auth opt = verifyAuthorization h clock
           (opt\<lparr>va_strict := True, va_trustedKeySets := Some (KeySets (vc_trustedKeySets config)),
                va_expectedIssuer := or_else (va_expectedIssuer opt) (vc_expectedIssuer config)\<rparr>) auth"
    and "bv_verifyEnvelope v bytes eopt = verifyEnvelope h clock
           (eopt\<lparr>ve_mode := Some StrictMode, ve_trustedKeySets := Some (KeySets (vc_trustedKeySets config)),
                 ve_expectedIssuer := or_else (ve_expectedIssuer eopt) (vc_expectedIssuer config)\<rparr>) bytes"
  using assms by (auto simp: createVerifier_def split: if_splits)

end
