(* ===== verification/CoreProperties.thy ===== *)
theory CoreProperties
  imports EngineLaws DemoRun
begin

text \<open>
  The properties of the foundations: canonical JSON, digests and signature inputs, the modes of the
  decision phase, the velocity window and the stateful \<open>evaluate\<close>.
\<close>

section \<open>Canonical JSON\<close>

text \<open>
  C27: Canonical text is faithful: parsing it gives the normal form of the printed value (keys sorted, texts in
  NFC, bigints as text), and two values have the same text exactly if they have the same normal form.
  In particular no two different normal forms share a text, hence none shares a message to be signed.
\<close>
theorem canonical_text_faithful:
  assumes "nfc_ok h" and "canonicalJson h v = Inr s" and "canonicalJson h w = Inr t"
  shows "json_parse s = Inr (nform h v) \<and> (s = t \<longleftrightarrow> nform h v = nform h w)"
  using parse_canonical [OF assms(2)] canonical_eq_iff [OF assms] by simp

theorem canonical_text_faithful_witness:
  "json_parse ''{\"a\":1,\"b\":\"2\"}'' = Inr (nform demo_host (JObj [(''b'', JBig 2), (''a'', JNum (jint 1))]))"
proof -
  have "canonicalJson demo_host (JObj [(''b'', JBig 2), (''a'', JNum (jint 1))]) = Inr ''{\"a\":1,\"b\":\"2\"}''"
    by code_simp
  with canonical_text_faithful [OF demo_host_ok(1) this this] show ?thesis by simp
qed

text \<open>
  A message signed for one purpose is never a message for another: if two signature inputs are the same
  bytes, they have the same signing domain and payloads with the same normal form.
\<close>
theorem signature_domains_separate:
  assumes "signatureInput h d v = Inr m" and "signatureInput h e w = Inr m"
  shows "d = e \<and> nform h v = nform h w"
  using assms by (rule signatureInput_binds)

theorem signature_domains_separate_witness:
  "signatureInput demo_host AUTH_V1 (JStr ''x'') \<noteq> signatureInput demo_host ENVELOPE_V1 (JStr ''x'')"
proof -
  have "signatureInput demo_host AUTH_V1 (JStr ''x'') = Inr (domain_str AUTH_V1 @ CHR 0x0A # ''\"x\"'')"
    by code_simp
  from signature_domains_separate [OF this, of ENVELOPE_V1 "JStr ''x''"] this show ?thesis by auto
qed

text \<open>
  C28: The intent digest binds every field of the intent the policy looks at: two intents with one digest
  agree in all bound fields up to normalisation, or the two canonical texts at hand are a collision of
  the hash function.
\<close>
theorem intent_digest_binds:
  assumes "nfc_ok h" and "intentHash h i = Inr d" and "intentHash h j = Inr d"
  shows "(\<forall>k \<in> set INTENT_BINDING_FIELDS.
      nform h (getp (JObj (intent_fields i)) k) = nform h (getp (JObj (intent_fields j)) k)) \<or>
    (\<exists>s t. canonicalJson h (JObj (intent_binding i)) = Inr s \<and> canonicalJson h (JObj (intent_binding j)) = Inr t \<and>
       s \<noteq> t \<and> sha256 h s = sha256 h t)"
proof -
  from assms(2,3) have "nform h (JObj (intent_binding i)) = nform h (JObj (intent_binding j)) \<or>
      (\<exists>s t. canonicalJson h (JObj (intent_binding i)) = Inr s \<and> canonicalJson h (JObj (intent_binding j)) = Inr t \<and>
         collision h s t)"
    unfolding intentHash_def strip_binding by (rule digest_binds)
  then show ?thesis
    using nform_fields_eq [OF assms(1)] unfolding collision_def by blast
qed

theorem intent_digest_binds_witness:
  "\<exists>s t. canonicalJson demo_host (JObj (intent_binding demo_intent)) = Inr s \<and>
     canonicalJson demo_host (JObj (intent_binding (demo_intent\<lparr>amount := 3\<rparr>))) = Inr t \<and> s \<noteq> t \<and>
     sha256 demo_host s = sha256 demo_host t"
proof -
  have "intentHash demo_host (demo_intent\<lparr>amount := 3\<rparr>) = Inr demo_hash" by code_simp
  moreover have "\<not> (\<forall>k \<in> set INTENT_BINDING_FIELDS. nform demo_host (getp (JObj (intent_fields demo_intent)) k) =
      nform demo_host (getp (JObj (intent_fields (demo_intent\<lparr>amount := 3\<rparr>))) k))"
  proof -
    have "''amount'' \<in> set INTENT_BINDING_FIELDS"
      "nform demo_host (getp (JObj (intent_fields demo_intent)) ''amount'') \<noteq>
       nform demo_host (getp (JObj (intent_fields (demo_intent\<lparr>amount := 3\<rparr>))) ''amount'')"
      by code_simp+
    then show ?thesis by blast
  qed
  ultimately show ?thesis using intent_digest_binds [OF demo_host_ok(1) demo_intentHash] by blast
qed

section \<open>The two modes of a decision\<close>

lemma decide_mode:
  assumes "decide h i ih p st t mode e = (Inr (PAllow a nx), e')"
  shows "decide h i ih p st t mode' e = (Inr (PAllow a nx), e')"
  using assms
proof (rule decide_PAllowE)
  fix w
  assume w: "runDecisionModules (inputs e i st t mode) (engine_modules h i) = Inr (Permit w)"
    and a: "allow_with h i ih p st t w e = (Inr (PAllow a nx), e')"
  have upd: "(inputs e i st t x)\<lparr>di_mode := y\<rparr> = inputs e i st t y" for x y by (simp add: inputs_def)
  note agree = modes_agree(1) [OF engine_modules_good, of "inputs e i st t mode" h i w, unfolded upd]
  have "runDecisionModules (inputs e i st t mode') (engine_modules h i) = Inr (Permit w)"
    using agree w by (cases mode; cases mode') simp_all
  with a show ?thesis by (simp add: decide_def)
qed

lemma gate_mode:
  assumes "gate h i ih p st t mode e = (Inr (PAllow a nx), e')"
  shows "gate h i ih p st t mode' e = (Inr (PAllow a nx), e')"
  using assms
proof (rule gate_PAllowE)
  assume "verifyTrustedTime (timestamp i) t (to_number (maxClockSkewSeconds (opts e)))
     (to_number (maxIntentAgeSeconds (opts e))) = Inr (Allow None)"
    and d: "decide h i ih p st t mode e = (Inr (PAllow a nx), e')"
  with decide_mode [OF d, of mode'] show ?thesis by (simp add: gate_def)
qed

lemma body_mode:
  assumes "evaluate_body h i st t mode e = (Inr (PAllow a nx), e')"
  shows "evaluate_body h i st t mode' e = (Inr (PAllow a nx), e')"
proof -
  obtain ids u e1 where "bindE (intentHash h i) (\<lambda>ih. bindE (computePolicyId h e) (\<lambda>p. Inr (ih, p))) = Inr ids"
    "emitAudit h (event_intent (fst ids) i t (snd ids)) e = (Inr u, e1)"
    and g: "gate h i (fst ids) (snd ids) st t mode e1 = (Inr (PAllow a nx), e')"
    using assms unfolding evaluate_body_def then_run_Inr lift_run_Inr case_prod_beta by blast
  with gate_mode [OF g] show ?thesis
    unfolding evaluate_body_def then_run_Inr lift_run_Inr case_prod_beta by blast
qed

text \<open>
  C29: Failing fast and collecting all reasons are the same policy: an evaluation that is an ALLOW in one mode
  is the same ALLOW, with the same authorization, next state and audit log, in the other.
\<close>
theorem modes_allow_alike:
  "evaluatePure h i st t FailFast e = (Inr (PAllow a nx), e') \<longleftrightarrow>
   evaluatePure h i st t CollectAll e = (Inr (PAllow a nx), e')"
proof -
  have "evaluatePure h i st t mode' e = (Inr (PAllow a nx), e')"
    if "evaluatePure h i st t mode e = (Inr (PAllow a nx), e')" for mode mode'
  proof -
    from that have pre: "precheck e i st t = Inr None"
      by (auto simp: evaluatePure_def split: sum.splits option.splits)
    with that have "evaluate_body h i st t mode e = (Inr (PAllow a nx), e')"
      by (cases "evaluate_body h i st t mode e") (auto simp: evaluatePure_def split: sum.splits)
    from body_mode [OF this] pre show ?thesis by (simp add: evaluatePure_def)
  qed
  then show ?thesis by blast
qed

section \<open>The velocity window\<close>

text \<open>
  C30: The velocity module implements the window automaton: on a well-formed slice it returns, and its answer is
  the step of \<open>vel_step\<close> on the agent's counter. It admits exactly where the automaton steps and
  proposes exactly the automaton's next counter; it refuses a counter from the future as an invalid state
  and everything else as an exceeded limit.
\<close>
theorem velocity_refines_window:
  assumes "vel_state (getp st ''velocity'') (agent_id i) W M c"
    and "evaluationTime ctx = jint t" and "0 \<le> t" and "t \<le> max_safe"
  shows "VelocityModule i st ctx = Inr
    (case vel_step W M c t of
       Some (s, n) \<Rightarrow> Allow (Some (vel_delta (getp st ''velocity'') (agent_id i) (vel_counter (jint s) (jint n))))
     | None \<Rightarrow> Deny [if \<exists>s n. c = Some (s, n) \<and> t < s then STATE_INVALID else VELOCITY_EXCEEDED])"
  using assms by (rule VelocityModule_refines)

theorem velocity_refines_window_witness:
  "VelocityModule demo_intent demo_state demo_ctx =
     Inr (Allow (Some (vel_delta (getp demo_state ''velocity'') ''a'' (vel_counter (jint 12) (jint 1)))))"
proof -
  have a: "agent_id demo_intent = ''a''" by (simp add: demo_intent_def)
  have "vel_state (getp demo_state ''velocity'') (agent_id demo_intent) 9 2 None" unfolding a by code_simp
  from velocity_refines_window [OF this, of demo_ctx 12] show ?thesis by (simp add: demo_ctx_def a max_safe_def)
qed

section \<open>\<open>evaluate\<close>\<close>

lemma remember_cases:
  "remember h st out e = (Inr r, e') \<Longrightarrow> r = out \<and> currentState e' = Some st"
proof -
  assume r: "remember h st out e = (Inr r, e')"
  then obtain c where c: "structuredClone st = Inr c" by (auto simp: remember_def split: sum.splits)
  then have "c = st" by (auto simp: structuredClone_def split: if_splits)
  have keep: "currentState (snd (commitState h st (e\<lparr>currentState := Some st\<rparr>))) = Some st"
    by (auto simp: commitState_def split: sum.splits)
  show ?thesis
    using r c \<open>c = st\<close> keep
    by (auto simp: remember_def Let_def then_run_def lift_run_def split: if_splits prod.splits sum.splits)
qed

text \<open>
  The stateful \<open>evaluate\<close> is \<open>evaluatePure\<close> plus one assignment: a DENY leaves the caller's state
  object as it is, an ALLOW gives it every property of the next state and no other change, the caller sees
  exactly the decision of \<open>evaluatePure\<close>, and the engine remembers the state the caller now has.
\<close>
theorem evaluate_applies_decision:
  assumes "evaluate h i st t e = (Inr out, st', e')"
  shows "(\<exists>rs e1. evaluatePure h i st t FailFast e = (Inr (PDeny rs), e1) \<and> out = ODeny rs \<and> st' = st \<and>
      currentState e' = Some st) \<or>
    (\<exists>a nx e1. evaluatePure h i st t FailFast e = (Inr (PAllow a nx), e1) \<and> out = OAllow a \<and>
      st' = assign_all st nx \<and> currentState e' = Some (assign_all st nx))"
  using assms
  by (auto simp: evaluate_def Let_def split: prod.splits sum.splits pure_output.splits dest!: remember_cases)

theorem evaluate_applies_decision_witness:
  "\<exists>e'. evaluate demo_host demo_intent demo_state (jint 12) demo_engine =
      (Inr (OAllow demo_authorization), assign_all demo_state demo_next, e') \<and>
    currentState e' = Some (assign_all demo_state demo_next)"
proof -
  obtain e1 where run: "evaluatePure demo_host demo_intent demo_state (jint 12) FailFast demo_engine =
      (Inr (PAllow demo_authorization demo_next), e1)"
    using demo_run by blast
  have auto_persist: "autoPersist (opts e1) = None"
    unfolding setup_fields(8) [OF evaluatePure_setup [OF run]] by (simp add: demo_engine_def demo_opts_def)
  have "structuredClone (assign_all demo_state demo_next) = Inr (assign_all demo_state demo_next)" by code_simp
  with run auto_persist obtain e' where "evaluate demo_host demo_intent demo_state (jint 12) demo_engine =
      (Inr (OAllow demo_authorization), assign_all demo_state demo_next, e')"
    by (simp add: evaluate_def remember_def lift_run_def then_run_def Let_def)
  with evaluate_applies_decision [OF this] run show ?thesis by auto
qed

end
