(* ===== verification/RunLimits.thy ===== *)
theory RunLimits
  imports EngineRun IssuedAuthorization
begin

text \<open>
  The rate limits over a run of the engine. For each limit the slice of an agent follows its automaton:
  an admitted EXECUTE of the agent is a step, every other admission leaves the agent's part of the slice
  alone. The bounds of the automata then hold for the admissions of the whole run.
\<close>

definition executes :: "string \<Rightarrow> intent \<Rightarrow> bool" where
  "executes b i = (agent_id i = b \<and> effective_type i = EXECUTE)"

definition executed_at :: "string \<Rightarrow> (intent \<times> int) list \<Rightarrow> int list" where
  "executed_at b tr = map snd (filter (\<lambda>(i, k). executes b i) tr)"

lemma executed_at_simps [simp]:
  "executed_at b [] = []"
  "executed_at b (tr @ [(i, t)]) = executed_at b tr @ (if executes b i then [t] else [])"
  by (simp_all add: executed_at_def)

lemma evolves_sorted:
  "evolves h e0 st0 c0 tr e st c \<Longrightarrow> sorted (map snd tr)"
proof (induction rule: evolves.induct)
  case (admit tr e st c t i mode a nx e')
  from evolves_clock [OF admit.hyps(1)] admit.hyps(2) admit.IH show ?case
    by (force simp: sorted_append)
qed simp_all

lemma evolves_executed_sorted:
  assumes "evolves h e0 st0 c0 tr e st c"
  shows "sorted (executed_at b tr)"
  using sorted_filter [OF evolves_sorted [OF assms], of "\<lambda>(i, k). executes b i"]
  by (simp add: executed_at_def)

text \<open>\<open>step_path f c ts c'\<close>: the automaton \<open>f\<close> admits every time of \<open>ts\<close> and leads from \<open>c\<close> to \<open>c'\<close>.\<close>

fun step_path :: "('c \<Rightarrow> int \<Rightarrow> 'c option) \<Rightarrow> 'c \<Rightarrow> int list \<Rightarrow> 'c \<Rightarrow> bool" where
  "step_path f c [] c' = (c' = c)"
| "step_path f c (t # ts) c' = (case f c t of None \<Rightarrow> False | Some x \<Rightarrow> step_path f x ts c')"

lemma step_path_snoc: "step_path f c ts c' \<Longrightarrow> f c' t = Some x \<Longrightarrow> step_path f c (ts @ [t]) x"
  by (induction ts arbitrary: c) (auto split: option.splits)

section \<open>Actions per window\<close>

text \<open>The automaton on the optional counter, with every time of the list admitted.\<close>

abbreviation velocity_step :: "int \<Rightarrow> int \<Rightarrow> (int \<times> int) option \<Rightarrow> int \<Rightarrow> (int \<times> int) option option" where
  "velocity_step W M c t \<equiv> map_option Some (vel_step W M c t)"

lemma velocity_path_run: "step_path (velocity_step W M) c ts c' \<Longrightarrow> vel_run W M c ts = ts"
  by (induction ts arbitrary: c) (auto split: option.splits)

lemma vel_delta_inject: "vel_delta v a x = vel_delta v a y \<longleftrightarrow> x = y"
proof
  assume "vel_delta v a x = vel_delta v a y"
  then have "path (vel_delta v a x) [''velocity'', ''counters'', a] = path (vel_delta v a y) [''velocity'', ''counters'', a]"
    by simp
  then show "x = y" by (simp add: vel_delta_def)
qed simp

lemma merged_counter:
  assumes "s = jint s'" and "n = jint n'" and "0 \<le> s'" "s' \<le> max_safe" "0 \<le> n'" "n' \<le> max_safe"
  shows "counter_is (merge_val old (vel_counter s n)) (Some (s', n'))"
  using assms getp_mergeInto [of "[(''window_start'', JNum s), (''count'', JNum n)]"]
  by (cases old) (simp_all add: vel_counter_def)

lemma velocity_after:
  assumes run: "allows h e i st (jint t) mode a nx e'" and "plain_state st"
    and v: "vel_state (getp st ''velocity'') b W M c"
  shows "if executes b i then \<exists>x. vel_step W M c t = Some x \<and> vel_state (getp nx ''velocity'') b W M (Some x)
    else vel_state (getp nx ''velocity'') b W M c"
proof -
  note st = plain_stateD [OF assms(2)]
  note grow = grows_velocity [OF run assms(2)]
  have cfg: "path nx [''velocity'', ''config'', k] = path st [''velocity'', ''config'', k]" for k
    using grow by (simp add: slice_grows_def)
  have plain: "is_plain (path nx [''velocity'', ''counters''])"
    "getp (getp nx ''velocity'') ''config'' = getp (getp st ''velocity'') ''config''"
    using grow by (simp_all add: slice_grows_def)
  have keep: "vel_state (getp nx ''velocity'') b W M c'"
    if "counter_is (path nx [''velocity'', ''counters'', b]) c'" for c'
    using v that plain cfg by (simp add: vel_state_def)
  show ?thesis
  proof (cases "effective_type i")
    case RELEASE
    then have "getp nx ''velocity'' = getp st ''velocity''"
      using release_unchanged [OF run assms(2)] by simp
    with v RELEASE show ?thesis by (simp add: executes_def)
  next
    case EXECUTE
    obtain d where d: "VelocityModule i st (engine_ctx e (jint t)) = Inr (Allow d)"
      and nx: "getp nx ''velocity'' = slice_after st ''velocity'' d"
      using run assms(2) EXECUTE
      by (rule execute_module [where m = "\<lparr>m_id = ''VelocityModule'', m_eval = VelocityModule\<rparr>"])
        (simp_all add: module_lists)
    obtain x where x: "d = Some (vel_delta (getp st ''velocity'') (agent_id i) x)"
      using d by (rule velocity_delta)
    have nx': "getp nx ''velocity'' = merge_val (getp st ''velocity'') (spread_set (getp st ''velocity'') ''counters''
      (spread_set (path st [''velocity'', ''counters'']) (agent_id i) x))"
      by (simp add: nx x slice_after_def vel_delta_def)
    note look = slice_merge(2) [OF nx' st(1,6,7)]
    show ?thesis
    proof (cases "agent_id i = b")
      case False
      then have "path nx [''velocity'', ''counters'', b] = path st [''velocity'', ''counters'', b]"
        using look [of b] by (simp del: path.simps)
      moreover have "counter_is (path st [''velocity'', ''counters'', b]) c" using v by (simp add: vel_state_def)
      ultimately show ?thesis using keep False by (simp add: executes_def del: path.simps)
    next
      case True
      have t: "0 \<le> t" "t \<le> max_safe" using run by (auto elim: allow_fresh)
      have vi: "vel_state (getp st ''velocity'') (agent_id i) W M c" using v True by simp
      obtain s n where step: "vel_step W M c t = Some (s, n)" and xx: "x = vel_counter (jint s) (jint n)"
        using VelocityModule_refines [OF vi, of "engine_ctx e (jint t)" t] t d
        by (auto simp: x vel_delta_inject split: option.splits)
      have "0 \<le> s \<and> s \<le> max_safe \<and> 0 \<le> n \<and> n \<le> max_safe"
        using step v t by (cases c) (auto simp: vel_state_def split: if_splits)
      then have "counter_is (path nx [''velocity'', ''counters'', b]) (Some (s, n))"
        using look [of b] True by (simp add: xx merged_counter del: path.simps counter_is.simps)
      with keep step True EXECUTE show ?thesis by (auto simp: executes_def)
    qed
  qed
qed

lemma evolves_velocity:
  "evolves h e0 st0 c0 tr e st c \<Longrightarrow> plain_state st0 \<Longrightarrow> vel_state (getp st0 ''velocity'') b W M c1 \<Longrightarrow>
    \<exists>c2. vel_state (getp st ''velocity'') b W M c2 \<and> step_path (velocity_step W M) c1 (executed_at b tr) c2"
proof (induction rule: evolves.induct)
  case (admit tr e st c t i mode a nx e')
  then obtain c2 where c2: "vel_state (getp st ''velocity'') b W M c2"
    "step_path (velocity_step W M) c1 (executed_at b tr) c2" by blast
  from velocity_after [OF admit.hyps(3) evolves_plain [OF admit.hyps(1) admit.prems(1)] c2(1)] c2
  show ?case by (cases "executes b i") (auto intro: step_path_snoc)
qed auto

text \<open>No interval of the length of the window holds more than twice the configured number of actions.\<close>

lemma velocity_bound:
  assumes run: "evolves h e0 st0 c0 tr e st c" and "plain_state st0"
    and v: "vel_state (getp st0 ''velocity'') b W M c1"
  shows "length (filter (\<lambda>k. x \<le> k \<and> k < x + W) (executed_at b tr)) \<le> 2 * nat M"
proof -
  obtain c2 where "step_path (velocity_step W M) c1 (executed_at b tr) c2"
    using evolves_velocity [OF assms] by blast
  then have "vel_run W M c1 (executed_at b tr) = executed_at b tr" by (rule velocity_path_run)
  moreover have "0 < W" "\<And>s n. c1 = Some (s, n) \<Longrightarrow> 0 \<le> n" using v by (auto simp: vel_state_def)
  ultimately show ?thesis
    using within_any [OF evolves_executed_sorted [OF run, of b], of c1 W x M] by simp
qed

section \<open>Tool calls per window\<close>

definition tool_executes :: "string \<Rightarrow> intent \<Rightarrow> bool" where
  "tool_executes b i = (executes b i \<and> tool_name i \<noteq> None)"

definition called_at :: "string \<Rightarrow> (intent \<times> int) list \<Rightarrow> int list" where
  "called_at b tr = map snd (filter (\<lambda>(i, k). tool_executes b i) tr)"

lemma called_at_simps [simp]:
  "called_at b [] = []"
  "called_at b (tr @ [(i, t)]) = called_at b tr @ (if tool_executes b i then [t] else [])"
  by (simp_all add: called_at_def)

lemma evolves_called_sorted:
  assumes "evolves h e0 st0 c0 tr e st c"
  shows "sorted (called_at b tr)"
  using sorted_filter [OF evolves_sorted [OF assms], of "\<lambda>(i, k). tool_executes b i"]
  by (simp add: called_at_def)

definition tool_state :: "jsval \<Rightarrow> string \<Rightarrow> int \<Rightarrow> int \<Rightarrow> bool" where
  "tool_state st b W M =
     (path st [''tool_limits'', ''window_seconds''] = JNum (jint W) \<and>
      path st [''tool_limits'', ''max_calls'', b] = JNum (jint M))"

lemma limited_call:
  assumes "ToolAmplificationModule i st ctx = Inr (Allow d)" and "tool_executes (agent_id i) i"
    and "path st [''tool_limits'', ''max_calls'', agent_id i] = JNum (jint M)" and "is_plain (path st [''tool_limits''])"
  obtains x where "d = Some x"
proof -
  obtain n where n: "tool_name i = Some n" "effective_type i = EXECUTE"
    using assms(2) by (auto simp: tool_executes_def executes_def)
  have "truthy (getp st ''tool_limits'')"
    using assms(4) by (cases "getp st ''tool_limits''") auto
  then have "isRateLimitedToolCall i st = Inr True \<or> isRateLimitedToolCall i st = Inl TypeError"
    using n assms(3) by (auto simp: isRateLimitedToolCall_def propE_def)
  with assms(1) n that show thesis
    by (auto simp: ToolAmplificationModule_def bindE_eq_Inr tool_admit_def Let_def split: if_splits)
qed

lemma tool_after:
  assumes run: "allows h e i st (jint t) mode a nx e'" and "plain_state st" and s: "tool_state st b W M"
  shows "tool_state nx b W M \<and>
    (if tool_executes b i
     then tool_step W M (event_times (tool_calls st b)) t = Some (event_times (tool_calls nx b))
     else tool_calls nx b = tool_calls st b)"
proof -
  note st = plain_stateD [OF assms(2)]
  note grow = grows_tools [OF run assms(2)]
  have cfg: "tool_state nx b W M" using grow s by (simp add: slice_grows_def tool_state_def)
  have same: "tool_calls nx b = tool_calls st b"
    if "path nx [''tool_limits'', ''calls'', b] = path st [''tool_limits'', ''calls'', b]"
    using that by (simp add: tool_calls_def del: path.simps)
  show ?thesis
  proof (cases "effective_type i")
    case RELEASE
    then have "getp nx ''tool_limits'' = getp st ''tool_limits''"
      using release_unchanged [OF run assms(2)] by simp
    with RELEASE cfg same show ?thesis by (simp add: tool_executes_def executes_def)
  next
    case EXECUTE
    obtain d where d: "ToolAmplificationModule i st (engine_ctx e (jint t)) = Inr (Allow d)"
      and nx: "getp nx ''tool_limits'' = slice_after st ''tool_limits'' d"
      using run assms(2) EXECUTE
      by (rule execute_module [where m = "\<lparr>m_id = ''ToolAmplificationModule'', m_eval = ToolAmplificationModule\<rparr>"])
        (simp_all add: module_lists)
    show ?thesis
    proof (cases d)
      case None
      then have "getp nx ''tool_limits'' = getp st ''tool_limits''" using nx by (simp add: slice_after_def)
      moreover have "\<not> tool_executes b i"
      proof
        assume te: "tool_executes b i"
        then have b: "b = agent_id i" by (simp add: tool_executes_def executes_def)
        have cap: "path st [''tool_limits'', ''max_calls'', agent_id i] = JNum (jint M)"
          using s by (simp only: tool_state_def b)
        obtain x where "d = Some x" by (rule limited_call [OF d te [unfolded b] cap st(13)])
        with None show False by simp
      qed
      ultimately show ?thesis using cfg same by simp
    next
      case (Some x)
      have t: "0 \<le> t" "t \<le> max_safe" using run by (auto elim: allow_fresh)
      have et: "evaluationTime (engine_ctx e (jint t)) = jint t" by simp
      from d Some have dx: "ToolAmplificationModule i st (engine_ctx e (jint t)) = Inr (Allow (Some x))" by simp
      obtain W' M' n es where w: "path st [''tool_limits'', ''window_seconds''] = JNum (jint W')"
        "path st [''tool_limits'', ''max_calls'', agent_id i] = JNum (jint M')" "tool i = Some n"
        and step: "tool_step W' M' (event_times (tool_calls st (agent_id i))) t = Some (event_times es)"
        and x: "x = JObj [(''tool_limits'', spread_set (getp st ''tool_limits'') ''calls''
          (spread_set (path st [''tool_limits'', ''calls'']) (agent_id i) (JArr es)))]"
        by (rule tool_admitted [OF dx et t]) (rule that; assumption)
      have nx': "getp nx ''tool_limits'' = merge_val (getp st ''tool_limits'') (spread_set (getp st ''tool_limits'') ''calls''
          (spread_set (path st [''tool_limits'', ''calls'']) (agent_id i) (JArr es)))"
        by (simp add: nx Some x slice_after_def)
      note look = slice_merge(2) [OF nx' st(1,13,14), of b]
      show ?thesis
      proof (cases "agent_id i = b")
        case True
        then have "tool_calls nx b = es" using look by (simp add: tool_calls_def del: path.simps)
        moreover have "W' = W" "M' = M" using s w True by (simp_all add: tool_state_def)
        moreover have "tool_name i \<noteq> None"
          using d Some by (auto elim: ToolAmplification_AllowE)
        ultimately show ?thesis using cfg step True EXECUTE by (simp add: tool_executes_def executes_def)
      next
        case False
        then have "tool_calls nx b = tool_calls st b" using look by (intro same) (simp del: path.simps)
        with cfg False show ?thesis by (simp add: tool_executes_def executes_def)
      qed
    qed
  qed
qed

lemma evolves_tools:
  "evolves h e0 st0 c0 tr e st c \<Longrightarrow> plain_state st0 \<Longrightarrow> tool_state st0 b W M \<Longrightarrow>
    tool_state st b W M \<and>
    step_path (tool_step W M) (event_times (tool_calls st0 b)) (called_at b tr) (event_times (tool_calls st b))"
proof (induction rule: evolves.induct)
  case (admit tr e st c t i mode a nx e')
  from tool_after [OF admit.hyps(3) evolves_plain [OF admit.hyps(1) admit.prems(1)], of b W M] admit
  show ?case by (cases "tool_executes b i") (auto intro: step_path_snoc)
qed auto

lemma tool_path_run: "step_path (tool_step W M) c ts c' \<Longrightarrow> tool_run W M c ts = ts"
  by (induction ts arbitrary: c) (auto split: option.splits)

lemma tools_bound:
  assumes run: "evolves h e0 st0 c0 tr e st c" and "plain_state st0" and "tool_state st0 b W M"
  shows "length (filter (\<lambda>k. x \<le> k \<and> k < x + W) (called_at b tr)) \<le> nat M"
proof -
  let ?es = "event_times (tool_calls st0 b)"
  have p: "step_path (tool_step W M) ?es (called_at b tr) (event_times (tool_calls st b))"
    using evolves_tools [OF assms] by blast
  show ?thesis
  proof (cases "length ?es \<le> nat M")
    case True
    from tool_run_bound [OF evolves_called_sorted [OF run, of b] this, of x W] tool_path_run [OF p]
    show ?thesis by simp
  next
    case False
    with p have "called_at b tr = []"
      by (cases "called_at b tr") (auto simp: tool_step_def Let_def split: if_splits)
    then show ?thesis by simp
  qed
qed

section \<open>Leases\<close>

text \<open>
  A RELEASE that names a property every object inherits counts as a release of nothing (see
  \<open>Concurrency.release_inherited_name\<close>); the limit holds for the runs without one.
\<close>

lemma length_update_le: "length (AList.update k v kvs) \<le> Suc (length kvs)"
  by (induction kvs) auto

definition proper_release :: "intent \<Rightarrow> bool" where
  "proper_release i =
     (effective_type i = RELEASE \<longrightarrow> (\<forall>authId. authorization_id i = Some authId \<longrightarrow> authId \<notin> set object_prototype))"

lemma concurrency_after:
  assumes run: "allows h e i st (jint t) mode a nx e'" and "plain_state st" and "constructed h e"
    and s: "conc_state st b M n kvs" and proper: "proper_release i"
  obtains n' kvs' where "conc_state nx b M n' kvs'" "n' \<le> max n M"
  using run assms(2)
proof (rule after_concurrency)
  fix l k and iss :: issued
  assume l: "computeConcurrencyLeases i st (jint t) = Inr (Some l)"
    and k: "sub_num (coalesce (path st [''concurrency'', ''active'', agent_id i]) (JNum (jint 0))) (jint (removed l)) = Inr k"
    and rel: "effective_type i = RELEASE \<Longrightarrow> \<not> releaseInvalid l"
    and ex: "effective_type i = EXECUTE \<Longrightarrow>
      \<not> js_le (path st [''concurrency'', ''max_concurrent'', agent_id i]) (JNum k)"
    and grow: "slice_grows st nx ''concurrency'' [''active'', ''active_auths'']"
    and act: "\<And>b. path nx [''concurrency'', ''active'', b] = (if b = agent_id i
       then JNum (if effective_type i = RELEASE then k else num_add k (jint 1))
       else path st [''concurrency'', ''active'', b])"
    and auts: "\<And>b. path nx [''concurrency'', ''active_auths'', b] = (if b = agent_id i
       then (if effective_type i = RELEASE then JObj (auths l)
             else spread_set (JObj (auths l)) (iss_id iss) (JObj [(''expires_at'', JNum (iss_expires_at iss))]))
       else path st [''concurrency'', ''active_auths'', b])"
    and exp: "iss_expires_at iss = num_add (jint t) (authorizationTtl e)"
  have "path nx [''concurrency'', ''max_concurrent''] = path st [''concurrency'', ''max_concurrent'']"
    using grow by (simp add: slice_grows_def)
  then have mx: "path nx [''concurrency'', ''max_concurrent'', b] = path st [''concurrency'', ''max_concurrent'', b]"
    by simp
  note c = s [unfolded conc_state_def] and result = that
  show thesis
  proof (cases "agent_id i = b")
    case False
    then have "conc_state nx b M n kvs"
      using c mx act [of b] auts [of b] by (simp add: conc_state_def residents_def del: path.simps)
    then show thesis by (rule result) simp
  next
    case True
    let ?live = "filter (live_at t) kvs" and ?dead = "filter (\<lambda>e. \<not> live_at t e) kvs"
    define used where "used = n - int (length ?dead)"
    have l': "l = release_step i ?live (int (length ?dead))"
      using l leases_spec [of st i M n kvs t] s True by simp
    have count: "int (length ?live) + int (length ?dead) = int (length kvs)"
      using expired_count [of "live_at t" kvs] by linarith
    have good: "distinct (map fst ?live)" "\<forall>(k, v) \<in> set ?live. lease_ok v"
      using c by (auto simp: distinct_map_filter)
    have le: "int (length kvs) \<le> n" "n \<le> max_safe" and M: "0 \<le> M" "M \<le> max_safe" using c by simp_all
    have ac: "coalesce (path st [''concurrency'', ''active'', agent_id i]) (JNum (jint 0)) = JNum (jint n)"
      using c True by simp
    have finish: "thesis" if "path nx [''concurrency'', ''active'', b] = JNum (jint n')" "n' \<le> max n M"
      "path nx [''concurrency'', ''active_auths'', b] = JObj kvs'" "distinct (map fst kvs')"
      "\<forall>(k, v) \<in> set kvs'. lease_ok v" "int (length kvs') \<le> n'" for n' kvs'
      using that c mx le M
      by (intro result [of n' kvs']) (auto simp: conc_state_def residents_def coalesce_def nullish_def simp del: path.simps)
    show thesis
    proof (cases "effective_type i")
      case EXECUTE
      then have l2: "auths l = ?live" "removed l = int (length ?dead)" by (simp_all add: l' release_step_def)
      have "num_sub (jint n) (jint (int (length ?dead))) = jint used"
        unfolding used_def by (intro num_sub_seconds) (use le count in linarith)+
      then have k': "k = jint used" using k ac l2 by (simp add: sub_num_def)
      have below: "used < M" using ex EXECUTE k' c True by simp
      have add: "num_add (jint used) (jint 1) = jint (used + 1)"
        by (intro num_add_seconds) (use below M le count used_def in linarith)+
      obtain ttl where ttl: "authorizationTtl e = jint ttl" "0 < ttl" "ttl \<le> max_safe"
        using assms(3) by (rule constructed_ttl)
      note pre = precheck_None [OF allows_pre [OF run]]
      have t: "0 \<le> t" "t \<le> max_safe" using pre(6) by simp_all
      have "num_sub (jint max_safe) (jint ttl) = jint (max_safe - ttl)"
        using ttl by (intro num_sub_seconds) simp_all
      with pre(7) ttl have sum: "t + ttl \<le> max_safe" by simp
      then have x: "iss_expires_at iss = jint (t + ttl)" using t ttl by (simp add: exp num_add_seconds)
      let ?lease = "JObj [(''expires_at'', JNum (jint (t + ttl)))]"
      have lease: "lease_ok ?lease" using t ttl sum by (simp add: lease_ok_def)
      define kvs' where "kvs' = AList.update (iss_id iss) ?lease ?live"
      have set: "\<forall>(k, v) \<in> set kvs'. lease_ok v"
        using good(2) lease set_update_sub [of "iss_id iss" ?lease ?live] unfolding kvs'_def by fast
      have "length kvs' \<le> Suc (length ?live)" unfolding kvs'_def by (rule length_update_le)
      then have len: "int (length kvs') \<le> used + 1" using le count by (simp add: used_def)
      show thesis
      proof (rule finish [of "used + 1" kvs'])
        show "path nx [''concurrency'', ''active'', b] = JNum (jint (used + 1))"
          using act [of b] True EXECUTE k' add by simp
        show "path nx [''concurrency'', ''active_auths'', b] = JObj kvs'"
          using auts [of b] True EXECUTE l2 x by (simp add: spread_set_def kvs'_def)
        show "distinct (map fst kvs')" unfolding kvs'_def by (intro distinct_update good(1))
      qed (use below set len in auto)
    next
      case RELEASE
      then have valid: "\<not> releaseInvalid l" by (rule rel)
      obtain authId where authId: "authorization_id i = Some authId"
        using valid RELEASE by (auto simp: l' release_step_def split: option.splits)
      have named: "authId \<in> fst ` set ?live"
      proof (rule ccontr)
        assume "\<not> ?thesis"
        then have "map_of ?live authId = None" by (simp only: map_of_eq_None_iff not_False_eq_True)
        moreover have "inherited authId = JUndef"
          using proper RELEASE authId by (simp add: proper_release_def inherited_def)
        ultimately show False using valid RELEASE authId by (simp add: l' release_step_def)
      qed
      have l2: "auths l = filter (\<lambda>(k, _). k \<noteq> authId) ?live" "removed l = int (length ?dead) + 1"
        using valid RELEASE authId by (auto simp: l' release_step_def split: if_splits)
      from named obtain v where "(authId, v) \<in> set ?live" by force
      then have len: "length (auths l) < length ?live"
        unfolding l2 by (rule length_filter_less) simp
      have "num_sub (jint n) (jint (int (length ?dead) + 1)) = jint (used - 1)"
        using num_sub_seconds [of n "int (length ?dead) + 1"] le count len by (simp add: used_def)
      then have k': "k = jint (used - 1)" using k ac l2 by (simp add: sub_num_def)
      show thesis
      proof (rule finish [of "used - 1" "auths l"])
        show "path nx [''concurrency'', ''active'', b] = JNum (jint (used - 1))"
          using act [of b] True RELEASE k' by simp
        show "path nx [''concurrency'', ''active_auths'', b] = JObj (auths l)"
          using auts [of b] True RELEASE by simp
        show "distinct (map fst (auths l))" unfolding l2 by (rule distinct_map_filter [OF good(1)])
        show "\<forall>(k, v) \<in> set (auths l). lease_ok v" using good(2) by (auto simp: l2)
        show "int (length (auths l)) \<le> used - 1" using len le count by (simp add: used_def)
      qed (simp add: used_def)
    qed
  qed
qed

lemma constructed_run: "evolves h e0 st0 c0 tr e st c \<Longrightarrow> constructed h e0 \<Longrightarrow> constructed h e"
  using evolves_setup [of h e0 st0 c0 tr e st c]
  by (auto simp: constructed_def setup_fields(8) dest: same_setup_trans)

lemma evolves_leases:
  "evolves h e0 st0 c0 tr e st c \<Longrightarrow> plain_state st0 \<Longrightarrow> constructed h e0 \<Longrightarrow> conc_state st0 b M n kvs \<Longrightarrow> n \<le> M \<Longrightarrow>
    \<forall>(i, k) \<in> set tr. proper_release i \<Longrightarrow> \<exists>n' kvs'. conc_state st b M n' kvs' \<and> n' \<le> M"
proof (induction rule: evolves.induct)
  case (admit tr e st c t i mode a nx e')
  then obtain n' kvs' where s: "conc_state st b M n' kvs'" "n' \<le> M" by auto
  note constructed_run [OF admit.hyps(1) admit.prems(2)]
  moreover have "proper_release i" using admit.prems(5) by simp
  ultimately obtain n2 kvs2 where "conc_state nx b M n2 kvs2" "n2 \<le> max n' M"
    using concurrency_after [OF admit.hyps(3) evolves_plain [OF admit.hyps(1) admit.prems(1)]] s(1) by blast
  with s(2) show ?case by auto
qed auto

end
