(* ===== verification/RunAudit.thy ===== *)
theory RunAudit
  imports RunLimits VerifyLogsLaws
begin

text \<open>
  The audit trail of a run. Every event an evaluation emits is well-formed, carries the policy of the
  engine and the trusted time of the evaluation; the log only grows and stays a hash chain. The audit
  verifier therefore accepts the log of every engine that was built by the constructor and evaluated on
  a clock that does not run backwards.
\<close>

section \<open>What an evaluation writes\<close>

definition stamped :: "string \<Rightarrow> int \<Rightarrow> jsval \<Rightarrow> bool" where
  "stamped p t ev =
     (is_plain ev \<and> validateAuditEventJson ev = [] \<and> getp ev ''policyId'' = JStr p \<and>
      getp ev ''timestamp'' = JNum (jint t))"

text \<open>Every run of \<open>m\<close>, failed ones included, extends the log by events of this policy and this time.\<close>

definition writes :: "host \<Rightarrow> engine \<Rightarrow> string \<Rightarrow> int \<Rightarrow> 'a run \<Rightarrow> bool" where
  "writes h e0 p t m =
     (\<forall>e. same_setup e0 e \<longrightarrow> log_ok h (audit e) \<longrightarrow>
        same_setup e0 (snd (m e)) \<and> log_ok h (audit (snd (m e))) \<and>
        (\<exists>evs. log_events (audit (snd (m e))) = log_events (audit e) @ evs \<and> list_all (stamped p t) evs))"

lemma writesD:
  assumes "writes h e0 p t m" and "m e = (r, e')" and "same_setup e0 e" and "log_ok h (audit e)"
  obtains evs where "same_setup e0 e'" "log_ok h (audit e')" "log_events (audit e') = log_events (audit e) @ evs"
    "list_all (stamped p t) evs"
  using assms unfolding writes_def by (metis snd_conv)

lemma writes_lift [intro]: "writes h e0 p t (lift_run r)"
  by (simp add: writes_def lift_run_def)

lemma writes_then [intro]:
  assumes "writes h e0 p t m" and "\<And>a. writes h e0 p t (f a)"
  shows "writes h e0 p t (then_run m f)"
  unfolding writes_def
proof (intro allI impI)
  fix e assume e: "same_setup e0 e" "log_ok h (audit e)"
  obtain r e1 where m: "m e = (r, e1)" by (cases "m e")
  obtain evs where 1: "same_setup e0 e1" "log_ok h (audit e1)" "log_events (audit e1) = log_events (audit e) @ evs"
    "list_all (stamped p t) evs"
    using assms(1) m e by (rule writesD)
  show "same_setup e0 (snd (then_run m f e)) \<and> log_ok h (audit (snd (then_run m f e))) \<and>
    (\<exists>evs. log_events (audit (snd (then_run m f e))) = log_events (audit e) @ evs \<and> list_all (stamped p t) evs)"
  proof (cases r)
    case (Inl x)
    with m 1 show ?thesis by (auto simp: then_run_def)
  next
    case (Inr a)
    obtain r2 e2 where f: "f a e1 = (r2, e2)" by (cases "f a e1")
    obtain evs' where 2: "same_setup e0 e2" "log_ok h (audit e2)" "log_events (audit e2) = log_events (audit e1) @ evs'"
      "list_all (stamped p t) evs'"
      using assms(2) f 1(1,2) by (rule writesD)
    have "snd (then_run m f e) = e2" using m f Inr by (simp add: then_run_def)
    with 1 2 show ?thesis by auto
  qed
qed

lemma writes_lift_then:
  assumes "\<And>a. r = Inr a \<Longrightarrow> writes h e0 p t (f a)"
  shows "writes h e0 p t (then_run (lift_run r) f)"
proof (cases r)
  case (Inl x)
  then show ?thesis by (simp add: writes_def then_run_def lift_run_def)
next
  case (Inr a)
  then show ?thesis using assms by (simp add: writes_def then_run_def lift_run_def)
qed

lemma writes_at: "(\<And>e. same_setup e0 e \<Longrightarrow> writes h e0 p t (m e)) \<Longrightarrow> writes h e0 p t (\<lambda>e. m e e)"
  by (simp add: writes_def)

lemma writes_emit:
  assumes "stamped p t ev"
  shows "writes h e0 p t (emitAudit h ev)"
  unfolding writes_def
proof (intro allI impI)
  fix e assume e: "same_setup e0 e" "log_ok h (audit e)"
  have s: "same_setup e0 (snd (emitAudit h ev e))"
    using keeps_emitAudit [of h ev] same_setup_trans [OF e(1)] unfolding keeps_setup_def by blast
  show "same_setup e0 (snd (emitAudit h ev e)) \<and> log_ok h (audit (snd (emitAudit h ev e))) \<and>
    (\<exists>evs. log_events (audit (snd (emitAudit h ev e))) = log_events (audit e) @ evs \<and> list_all (stamped p t) evs)"
  proof (cases "log_append h (audit e) ev")
    case (Inl x)
    with s e show ?thesis by (simp add: emitAudit_def)
  next
    case (Inr q)
    obtain d lg where q: "q = (d, lg)" by (cases q)
    have "audit (snd (emitAudit h ev e)) = lg"
      by (simp add: emitAudit_def Inr q Let_def split: sum.split)
    with log_ok_append [OF e(2) Inr [unfolded q]] s assms show ?thesis by simp
  qed
qed

section \<open>The events of the engine\<close>

lemma stamped_intent: "ih \<noteq> [] \<Longrightarrow> 0 \<le> t \<Longrightarrow> stamped p t (event_intent ih i (jint t) p)"
  by (simp add: stamped_def event_intent_def validateAuditEventJson_def event_issues_def intNonNegative_def
      text_field_def string_field_def has_bad_def obj_keys_def)

lemma stamped_decision:
  assumes "ih \<noteq> []" and "0 \<le> t" and "is_string v" and "dec \<in> {''ALLOW'', ''DENY''}"
  shows "stamped p t (event_decision ih dec rs v (jint t) p)"
  using assms
  by (auto simp: stamped_def event_decision_def validateAuditEventJson_def event_issues_def intNonNegative_def
      text_field_def string_field_def is_decision_def has_bad_def obj_keys_def list_all_iff)

lemma stamped_auth:
  assumes "ih \<noteq> []" and "d \<noteq> []" and "0 \<le> t" and "x = jint k" and "0 \<le> k"
  shows "stamped p t (event_auth d ih x (jint t) p)"
  using assms
  by (simp add: stamped_def event_auth_def validateAuditEventJson_def event_issues_def intNonNegative_def
      text_field_def string_field_def has_bad_def obj_keys_def)

lemma stamped_checkpoint:
  assumes "d \<noteq> []" and "0 \<le> t"
  shows "stamped p t (JObj [(''type'', JStr ''STATE_CHECKPOINT''), (''stateHash'', JStr d),
    (''timestamp'', JNum (jint t)), (''policyId'', JStr p)])"
  using assms
  by (simp add: stamped_def validateAuditEventJson_def event_issues_def intNonNegative_def
      text_field_def string_field_def has_bad_def obj_keys_def)

section \<open>Every part of an evaluation\<close>

lemma digest_not_Nil:
  assumes "hex_digests h"
  shows "computeStateHashFor h e st = Inr d \<Longrightarrow> d \<noteq> []" and "intentHash h i = Inr d \<Longrightarrow> d \<noteq> []"
  using digest_text(1) [OF assms] stateHash_digest intentHash_digest by metis+

lemma writes_checkpoint:
  assumes "hex_digests h" and "0 \<le> t"
  shows "writes h e0 p t (maybeEmitCheckpoint h p (jint t) st)"
proof -
  define emit where "emit = (\<lambda>d. emitAudit h (JObj [(''type'', JStr ''STATE_CHECKPOINT''), (''stateHash'', JStr d),
        (''timestamp'', JNum (jint t)), (''policyId'', JStr p)]))"
  define m where "m = (\<lambda>e. case checkpoint_every_n_events (opts e) of
        None \<Rightarrow> lift_run (Inr ())
      | Some every \<Rightarrow>
          if \<not> is_integer every \<or> num_le every (jint 0) then lift_run (Inr ())
          else if int (auditEventCount e) mod int_of every \<noteq> 0 then lift_run (Inr ())
          else then_run (lift_run (computeStateHashFor h e st)) emit)"
  have eq: "maybeEmitCheckpoint h p (jint t) st = (\<lambda>e. m e e)"
    by (intro ext) (simp add: maybeEmitCheckpoint_def m_def emit_def lift_run_def split: option.split)
  have "writes h e0 p t (then_run (lift_run (computeStateHashFor h e st)) emit)" for e
    unfolding emit_def using assms
    by (intro writes_lift_then writes_emit stamped_checkpoint) (auto dest: digest_not_Nil)
  then have "writes h e0 p t (m e)" for e by (auto simp: m_def split: option.split)
  then show ?thesis unfolding eq by (rule writes_at)
qed

lemma writes_deny:
  assumes "hex_digests h" and "0 \<le> t" and "ih \<noteq> []" and "is_string (getp st ''policy_version'')"
  shows "writes h e0 p t (deny_with h ih p st (jint t) rs)"
  unfolding deny_with_def using assms
  by (intro writes_then writes_emit writes_checkpoint writes_lift stamped_decision) simp_all

lemma writes_conclude:
  assumes "hex_digests h" and "0 \<le> t" and "ih \<noteq> []" and "is_string (getp st ''policy_version'')"
    and "iss_id iss \<noteq> []" and "iss_expires_at iss = jint k" and "0 \<le> k"
  shows "writes h e0 p t (conclude h i ih p st (jint t) w iss)"
  unfolding conclude_def using assms
  by (intro writes_then writes_emit writes_checkpoint writes_lift stamped_decision stamped_auth [where k = k]) simp_all

lemma writes_allow:
  assumes "hex_digests h" and "0 \<le> t" and "ih \<noteq> []" and "is_string (getp st ''policy_version'')"
    and "authorizationTtl e0 = jint ttl" "0 \<le> ttl" "t + ttl \<le> max_safe"
  shows "writes h e0 p t (allow_with h i ih p st (jint t) w)"
proof -
  have "writes h e0 p t (then_run (lift_run (bindE (materialize_leases i st (jint t) w) (\<lambda>w.
                 bindE (issue h e i st w ih p (jint t)) (\<lambda>iss. Inr (w, iss)))))
       (\<lambda>(w, iss). conclude h i ih p st (jint t) w iss))" if e: "same_setup e0 e" for e
  proof (rule writes_lift_then)
    have add: "num_add (jint t) (authorizationTtl e) = jint (t + ttl)"
      using assms e by (simp add: setup_fields num_add_seconds)
    fix x assume "bindE (materialize_leases i st (jint t) w) (\<lambda>w.
                 bindE (issue h e i st w ih p (jint t)) (\<lambda>iss. Inr (w, iss))) = Inr x"
    then obtain w1 iss where x: "x = (w1, iss)" and iss: "issue h e i st w1 ih p (jint t) = Inr iss"
      by (auto simp: bindE_eq_Inr)
    from iss obtain m where "iss_id iss = sha256 h m" "iss_expires_at iss = jint (t + ttl)"
      by (rule issueE) (auto simp: add)
    then show "writes h e0 p t (case x of (w, iss) \<Rightarrow> conclude h i ih p st (jint t) w iss)"
      using assms digest_text(1) [OF assms(1)] by (simp add: x writes_conclude [where k = "t + ttl"])
  qed
  then show ?thesis unfolding allow_with_def by (rule writes_at)
qed

lemma writes_decide:
  assumes "hex_digests h" and "0 \<le> t" and "ih \<noteq> []" and "is_string (getp st ''policy_version'')"
    and "authorizationTtl e0 = jint ttl" "0 \<le> ttl" "t + ttl \<le> max_safe"
  shows "writes h e0 p t (decide h i ih p st (jint t) mode)"
  unfolding decide_def
  by (rule writes_at, rule writes_then [OF writes_lift])
    (use writes_allow [OF assms] writes_deny [OF assms(1-4)] in \<open>simp split: decision_result.split\<close>)

lemma writes_gate:
  assumes "hex_digests h" and "0 \<le> t" and "ih \<noteq> []" and "is_string (getp st ''policy_version'')"
    and "authorizationTtl e0 = jint ttl" "0 \<le> ttl" "t + ttl \<le> max_safe"
  shows "writes h e0 p t (gate h i ih p st (jint t) mode)"
  unfolding gate_def
  by (rule writes_at, rule writes_then [OF writes_lift])
    (use writes_decide [OF assms] writes_deny [OF assms(1-4)] in \<open>simp split: policy_result.split\<close>)

lemma writes_body:
  assumes "hex_digests h" and "0 \<le> t" and "is_string (getp st ''policy_version'')"
    and "authorizationTtl e0 = jint ttl" "0 \<le> ttl" "t + ttl \<le> max_safe" and "computePolicyId h e0 = Inr p"
  shows "writes h e0 p t (evaluate_body h i st (jint t) mode)"
proof -
  have "writes h e0 p t (then_run (lift_run (bindE (intentHash h i) (\<lambda>intent_hash.
                 bindE (computePolicyId h e) (\<lambda>policyId. Inr (intent_hash, policyId)))))
       (\<lambda>(intent_hash, policyId).
     then_run (emitAudit h (event_intent intent_hash i (jint t) policyId)) (\<lambda>_.
       gate h i intent_hash policyId st (jint t) mode)))" if e: "same_setup e0 e" for e
  proof (rule writes_lift_then)
    have p: "computePolicyId h e = Inr p" using assms(7) setup_computePolicyId [OF e] by simp
    fix x assume "bindE (intentHash h i) (\<lambda>intent_hash.
                 bindE (computePolicyId h e) (\<lambda>policyId. Inr (intent_hash, policyId))) = Inr x"
    then obtain ih where x: "x = (ih, p)" and "intentHash h i = Inr ih" by (auto simp: p bindE_eq_Inr)
    with assms(1) have "ih \<noteq> []" by (auto dest: digest_not_Nil)
    then show "writes h e0 p t (case x of (intent_hash, policyId) \<Rightarrow>
     then_run (emitAudit h (event_intent intent_hash i (jint t) policyId)) (\<lambda>_.
       gate h i intent_hash policyId st (jint t) mode))"
      unfolding x prod.case
      by (intro writes_then writes_emit stamped_intent writes_gate [OF assms(1,2) _ assms(3-6)] assms(2))
  qed
  then show ?thesis unfolding evaluate_body_def by (rule writes_at)
qed

text \<open>\<open>evaluatePure\<close> as a whole: nothing is written unless the checks before the body passed.\<close>

lemma evaluation_writes:
  assumes "evaluatePure h i st (jint t) mode e = (r, e')" and "constructed h e" and "hex_digests h"
    and "computePolicyId h e = Inr p" and "log_ok h (audit e)"
  obtains evs where "log_ok h (audit e')" "log_events (audit e') = log_events (audit e) @ evs"
    "list_all (stamped p t) evs" "evs \<noteq> [] \<Longrightarrow> 0 \<le> t"
proof (cases "precheck e i st (jint t) = Inr None")
  case False
  then have "e' = e" using assms(1) by (auto simp: evaluatePure_def split: sum.splits option.splits)
  with that [of "[]"] assms(5) show thesis by simp
next
  case True
  note pre = precheck_None [OF True]
  obtain ttl where ttl: "authorizationTtl e = jint ttl" "0 < ttl" "ttl \<le> max_safe"
    using assms(2) by (rule constructed_ttl)
  have t: "0 \<le> t" "t \<le> max_safe" using pre(6) by (auto simp: isProtocolSeconds_jint)
  have "num_sub (jint max_safe) (jint ttl) = jint (max_safe - ttl)"
    using ttl by (intro num_sub_seconds) simp_all
  with pre(7) ttl have "t + ttl \<le> max_safe" by simp
  then have w: "writes h e p t (evaluate_body h i st (jint t) mode)"
    using assms(3,4) t ttl runtime_objects(2) [OF pre(3)] by (intro writes_body) simp_all
  obtain r1 where b: "evaluate_body h i st (jint t) mode e = (r1, e')"
    using assms(1) True by (auto simp: evaluatePure_def split: sum.splits prod.splits)
  from w b same_setup_refl assms(5) show thesis
    by (rule writesD) (use that t in blast)
qed

section \<open>The trail of a run\<close>

definition time_of :: "jsval \<Rightarrow> int" where
  "time_of ev = int_of (to_number (getp ev ''timestamp''))"

definition trail :: "host \<Rightarrow> string \<Rightarrow> int \<Rightarrow> hash_log \<Rightarrow> bool" where
  "trail h p c lg =
     (log_ok h lg \<and> (\<forall>ev \<in> set (log_events lg). stamped p (time_of ev) ev \<and> time_of ev \<le> c) \<and>
      sorted (map time_of (log_events lg)))"

lemma stamped_time: "stamped p t ev \<Longrightarrow> time_of ev = t"
  by (simp add: stamped_def time_of_def)

lemma trail_new: "trail h p c (new_log h)"
  by (simp add: trail_def log_ok_new) (simp add: log_events_def new_log_def)

lemma trail_evaluation:
  assumes "trail h p c (audit e)" and "evaluatePure h i st (jint t) mode e = (r, e')" and "c \<le> t"
    and "constructed h e" and "hex_digests h" and "computePolicyId h e = Inr p"
  shows "trail h p t (audit e')"
proof -
  from assms(1) have old: "log_ok h (audit e)"
    "\<forall>ev \<in> set (log_events (audit e)). stamped p (time_of ev) ev \<and> time_of ev \<le> c"
    "sorted (map time_of (log_events (audit e)))"
    by (simp_all add: trail_def)
  obtain evs where new: "log_ok h (audit e')" "log_events (audit e') = log_events (audit e) @ evs"
    "list_all (stamped p t) evs"
    using assms(2,4-6) old(1) by (rule evaluation_writes)
  have evs: "stamped p t ev \<and> time_of ev = t" if "ev \<in> set evs" for ev
    using new(3) that by (auto simp: list_all_iff dest: stamped_time)
  then have "map time_of evs = replicate (length evs) t" by (auto intro: replicate_eqI)
  with old new evs assms(3) show ?thesis
    by (fastforce simp: trail_def sorted_append)
qed

lemma evolves_trail:
  assumes "evolves h e0 st0 c0 tr e st c" and "constructed h e0" and "hex_digests h"
    and "computePolicyId h e0 = Inr p" and "trail h p c0 (audit e0)"
  shows "trail h p c (audit e)"
  using assms
proof (induction rule: evolves.induct)
  case (admit tr e st c t i mode a nx e')
  note run = admit.hyps(1)
  have "computePolicyId h e = Inr p" using admit.prems(3) setup_computePolicyId [OF evolves_setup [OF run]] by simp
  with admit constructed_run [OF run] show ?case by (intro trail_evaluation [OF _ admit.hyps(3,2)]) auto
next
  case (refuse tr e st c t i mode rs e')
  note run = refuse.hyps(1)
  have "computePolicyId h e = Inr p" using refuse.prems(3) setup_computePolicyId [OF evolves_setup [OF run]] by simp
  with refuse constructed_run [OF run] show ?case by (intro trail_evaluation [OF _ refuse.hyps(3,2)]) auto
qed simp

lemma times_sorted:
  "\<forall>ev \<in> set es. stamped p (time_of ev) ev \<Longrightarrow>
     times_ok (map_option (\<lambda>k. JNum (jint k)) prev) es \<longleftrightarrow>
       sorted (map time_of es) \<and> (\<forall>k ev. prev = Some k \<longrightarrow> es \<noteq> [] \<longrightarrow> k \<le> time_of (hd es))"
proof (induction es arbitrary: prev)
  case (Cons ev es)
  have ts: "getp ev ''timestamp'' = JNum (jint (time_of ev))"
    using Cons.prems by (simp add: stamped_def)
  have "times_ok (Some (JNum (jint (time_of ev)))) es \<longleftrightarrow>
      sorted (map time_of es) \<and> (es \<noteq> [] \<longrightarrow> time_of ev \<le> time_of (hd es))"
    using Cons.IH [of "Some (time_of ev)"] Cons.prems by simp
  also have "\<dots> \<longleftrightarrow> sorted (map time_of (ev # es))" by (cases es) auto
  finally show ?case by (cases prev) (auto simp: ts)
qed simp

text \<open>The verifier accepts a trail, up to the state anchors it may ask for.\<close>

lemma trail_accepted:
  assumes "trail h p c lg" and "ao_expectedPolicyId opt \<in> {None, Some p}" and "p \<noteq> []"
  shows "vr_ok (verifyAuditEvents h opt (JArr (log_events lg))) \<longleftrightarrow>
    (needs_anchor opt \<longrightarrow> list_ex is_anchor (log_events lg))"
proof -
  from assms(1) have ok: "log_ok h lg" "\<forall>ev \<in> set (log_events lg). stamped p (time_of ev) ev"
    "sorted (map time_of (log_events lg))"
    by (simp_all add: trail_def)
  have "list_all (event_good opt) (log_events lg)"
    using ok(2) assms(2,3) by (auto simp: list_all_iff stamped_def event_good_def)
  moreover have "times_ok None (log_events lg)"
    using times_sorted [OF ok(2), of None] ok(3) by simp
  moreover have "\<not> mixed_policies (log_events lg)"
    unfolding one_policy using ok(2) by (auto simp: stamped_def)
  ultimately show ?thesis
    using log_ok_head [OF ok(1)] by (simp add: verifyAuditEvents_accepts)
qed

lemma trail_head:
  assumes "trail h p c lg" and "vr_ok (verifyAuditEvents h opt (JArr (log_events lg)))"
  shows "vr_auditHeadHash (verifyAuditEvents h opt (JArr (log_events lg))) = Some (headHash lg)"
proof -
  have "chain_head h (AUDIT_GENESIS_HASH h) (log_events lg) = Inr (headHash lg)"
    using assms(1) by (simp add: trail_def log_ok_head)
  with assms(2) show ?thesis by (elim accepted_head) simp
qed

lemma started_trail:
  assumes "evolves h e0 st0 c0 tr e st c" and "constructed h e0" and "audit e0 = new_log h" and "hex_digests h"
    and "computePolicyId h e0 = Inr p"
  shows "trail h p c (audit e)"
  by (rule evolves_trail [OF assms(1,2,4,5)]) (simp add: assms(3) trail_new)

section \<open>Every admission is on record\<close>

lemma emitAudit_logged:
  assumes "emitAudit h ev e = (Inr u, e')"
  shows "\<exists>d. log_append h (audit e) ev = Inr (d, audit e')"
  using assms by (auto simp: emitAudit_def Let_def split: sum.splits if_splits)

lemma allow_logged:
  assumes run: "evaluatePure h i st (jint t) mode e = (Inr (PAllow a nx), e')" and "constructed h e"
    and "hex_digests h" and "log_ok h (audit e)"
  obtains id ih x p where "getp a ''auth_id'' = JStr id" "getp a ''expiry'' = JNum x" "intentHash h i = Inr ih"
    "computePolicyId h e = Inr p" "event_intent ih i (jint t) p \<in> set (log_events (audit e'))"
    "event_decision ih ''ALLOW'' [] (getp st ''policy_version'') (jint t) p \<in> set (log_events (audit e'))"
    "event_auth id ih x (jint t) p \<in> set (log_events (audit e'))"
proof -
  have pre: "precheck e i st (jint t) = Inr None" using run by (rule allows_pre)
  note pre' = precheck_None [OF pre]
  from run pre have body: "evaluate_body h i st (jint t) mode e = (Inr (PAllow a nx), e')"
    by (auto simp: evaluatePure_def split: sum.splits prod.splits)
  from body obtain ih p e1 where ih: "intentHash h i = Inr ih" and p: "computePolicyId h e = Inr p"
    and em: "emitAudit h (event_intent ih i (jint t) p) e = (Inr (), e1)"
    and g: "gate h i ih p st (jint t) mode e1 = (Inr (PAllow a nx), e')"
    unfolding evaluate_body_def then_run_Inr [of "lift_run _"] by (auto simp: bindE_eq_Inr then_run_Inr)
  from g obtain w where "allow_with h i ih p st (jint t) w e1 = (Inr (PAllow a nx), e')"
    by (elim gate_PAllowE decide_PAllowE)
  then obtain w1 iss where iss: "issue h e1 i st w1 ih p (jint t) = Inr iss"
    and c: "conclude h i ih p st (jint t) w1 iss e1 = (Inr (PAllow a nx), e')"
    unfolding allow_with_def then_run_Inr by (auto simp: bindE_eq_Inr)
  let ?dec = "event_decision ih ''ALLOW'' [] (getp st ''policy_version'') (jint t) p"
  let ?au = "event_auth (iss_id iss) ih (iss_expires_at iss) (jint t) p"
  from c obtain e2 e3 u where e2: "emitAudit h ?dec e1 = (Inr u, e2)" and e3: "emitAudit h ?au e2 = (Inr u, e3)"
    and cp: "maybeEmitCheckpoint h p (jint t) nx e3 = (Inr u, e')" and a: "a = iss_authorization iss"
    unfolding conclude_def then_run_Inr by auto
  obtain d1 d2 d3 where l: "log_append h (audit e) (event_intent ih i (jint t) p) = Inr (d1, audit e1)"
    "log_append h (audit e1) ?dec = Inr (d2, audit e2)" "log_append h (audit e2) ?au = Inr (d3, audit e3)"
    using emitAudit_logged [OF em] emitAudit_logged [OF e2] emitAudit_logged [OF e3] by blast
  have ok1: "log_ok h (audit e1)" using log_ok_append(1) [OF assms(4) l(1)] .
  have ok2: "log_ok h (audit e2)" using log_ok_append(1) [OF ok1 l(2)] .
  have ok3: "log_ok h (audit e3)" using log_ok_append(1) [OF ok2 l(3)] .
  have evs3: "log_events (audit e3) = log_events (audit e) @ [event_intent ih i (jint t) p, ?dec, ?au]"
    using log_ok_append(2) [OF assms(4) l(1)] log_ok_append(2) [OF ok1 l(2)] log_ok_append(2) [OF ok2 l(3)] by simp
  have t: "0 \<le> t" using pre'(6) by (auto simp: isProtocolSeconds_jint)
  obtain evs where "log_events (audit e') = log_events (audit e3) @ evs"
    using writes_checkpoint [OF assms(3) t] cp same_setup_refl ok3 by (rule writesD)
  with evs3 have mem: "event_intent ih i (jint t) p \<in> set (log_events (audit e'))" "?dec \<in> set (log_events (audit e'))"
    "?au \<in> set (log_events (audit e'))" by simp_all
  have "getp a ''auth_id'' = JStr (iss_id iss)" "getp a ''expiry'' = JNum (iss_expires_at iss)"
    using iss by (auto elim!: issueE simp: a authorization_fields_def)
  with that ih p mem show thesis by blast
qed

end
