(* ===== verification/RunRecord.thy ===== *)
theory RunRecord
  imports RunAudit "HOL-Library.Sublist"
begin

text \<open>
  What the audit log says of a run, in both directions. \<open>answered\<close> is the run of \<open>EngineRun\<close> with every
  answer on its trace, refusals included; \<open>entry\<close> is what one answer should leave in the log. The log
  without its checkpoints is exactly the entries of the answers that passed the checks before the body,
  as long as no evaluation ended in an internal error. Before that, the outcomes of one evaluation: \<open>answer_of\<close> is
  the answer as a function of the inputs alone, and \<open>evaluatePure\<close> refines it.
\<close>

section \<open>The outcomes of an evaluation\<close>

text \<open>The exception for a trusted time that \<open>evaluatePure\<close> does not accept.\<close>

definition time_error :: "engine \<Rightarrow> jsnum \<Rightarrow> exn option" where
  "time_error e t =
     (if \<not> isProtocolSeconds (JNum t)
      then Some (Thrown ''evaluationTime must be a finite, non-negative safe integer (unix seconds)'')
      else if int_of t + int_of (authorizationTtl e) > max_safe
      then Some (Thrown ''evaluationTime + authorization_ttl_seconds must be a safe integer (unix seconds)'')
      else None)"

text \<open>The reason for which an intent and a state are refused before the time is looked at.\<close>

definition input_error :: "engine \<Rightarrow> intent \<Rightarrow> jsval \<Rightarrow> reason option" where
  "input_error e i st =
     (if validateIntent i \<noteq> None then validateIntent i
      else if validateStateForIntent st i \<noteq> Inr None then Some STATE_INVALID
      else if getp st ''policy_version'' \<noteq> JStr (o_policy_version (opts e)) then Some POLICY_VERSION_MISMATCH
      else None)"

lemma validateState_cases: "validateStateForIntent st i = Inr None \<or> validateStateForIntent st i = Inr (Some STATE_INVALID)"
proof (cases "isRuntimeState st")
  case True
  then obtain r where "validateNumericLeaves st (agent_id i) = Inr r" using leaves_total by blast
  with True show ?thesis by (cases r) (simp_all add: validateStateForIntent_def)
qed (simp add: validateStateForIntent_def)

lemma precheck_outcome:
  assumes "constructed h e"
  shows "precheck e i st t =
    (case input_error e i st of Some r \<Rightarrow> Inr (Some r)
     | None \<Rightarrow> (case time_error e t of Some x \<Rightarrow> Inl x | None \<Rightarrow> Inr None))"
proof -
  obtain ttl where ttl: "authorizationTtl e = jint ttl" "0 < ttl" "ttl \<le> max_safe"
    using assms by (rule constructed_ttl)
  have "num_sub (jint max_safe) (jint ttl) = jint (max_safe - ttl)"
    using ttl by (intro num_sub_seconds) simp_all
  then have room: "num_lt (num_sub (jint max_safe) (authorizationTtl e)) t \<longleftrightarrow> max_safe < int_of t + ttl"
    if "isProtocolSeconds (JNum t)" using that ttl(1) by (auto elim!: isProtocolSecondsE)
  show ?thesis
    using validateState_cases [of st i] room ttl(1)
    by (auto simp: precheck_def input_error_def time_error_def assertProtocolSeconds_def split: option.split)
qed

text \<open>
  The answer of the trusted body as one expression: the same steps in the same order, without the audit log. It is
  what a caller may compute from the inputs alone.
\<close>

definition answer_of :: "host \<Rightarrow> engine \<Rightarrow> intent \<Rightarrow> jsval \<Rightarrow> jsnum \<Rightarrow> mode \<Rightarrow> pure_output res" where
  "answer_of h e i st t mode =
     bindE (intentHash h i) (\<lambda>ih. bindE (computePolicyId h e) (\<lambda>p.
     bindE (verifyTrustedTime (timestamp i) t (to_number (maxClockSkewSeconds (opts e)))
              (to_number (maxIntentAgeSeconds (opts e)))) (\<lambda>fresh.
     case fresh of Deny rs \<Rightarrow> Inr (PDeny rs) | Allow _ \<Rightarrow>
     bindE (runDecisionModules (inputs e i st t mode) (engine_modules h i)) (\<lambda>d.
     case d of Refuse rs _ \<Rightarrow> Inr (PDeny rs) | Permit permitted \<Rightarrow>
     bindE (materialize_leases i st t permitted) (\<lambda>w.
     bindE (issue h e i st w ih p t) (\<lambda>iss.
     bindE (if effective_type i = EXECUTE then add_lease i (iss_id iss) (iss_expires_at iss) w else Inr w) (\<lambda>nx.
       Inr (PAllow (iss_authorization iss) nx))))))))"

lemma answer_ofE:
  assumes "answer_of h e i st t mode = Inr out"
  obtains rs where "out = PDeny rs" "verifyTrustedTime (timestamp i) t (to_number (maxClockSkewSeconds (opts e)))
      (to_number (maxIntentAgeSeconds (opts e))) = Inr (Deny rs)"
  | rs s where "out = PDeny rs" "runDecisionModules (inputs e i st t mode) (engine_modules h i) = Inr (Refuse rs s)"
  | ih p w iss nx where "out = PAllow (iss_authorization iss) nx" "issue h e i st w ih p t = Inr iss"
proof -
  from assms obtain ih p fresh where "verifyTrustedTime (timestamp i) t (to_number (maxClockSkewSeconds (opts e)))
      (to_number (maxIntentAgeSeconds (opts e))) = Inr fresh"
    and rest: "(case fresh of Deny rs \<Rightarrow> Inr (PDeny rs) | Allow _ \<Rightarrow>
     bindE (runDecisionModules (inputs e i st t mode) (engine_modules h i)) (\<lambda>d.
     case d of Refuse rs _ \<Rightarrow> Inr (PDeny rs) | Permit permitted \<Rightarrow>
     bindE (materialize_leases i st t permitted) (\<lambda>w.
     bindE (issue h e i st w ih p t) (\<lambda>iss.
     bindE (if effective_type i = EXECUTE then add_lease i (iss_id iss) (iss_expires_at iss) w else Inr w) (\<lambda>nx.
       Inr (PAllow (iss_authorization iss) nx)))))) = Inr out"
    unfolding answer_of_def bindE_eq_Inr by blast
  then show thesis
  proof (cases fresh)
    case (Allow x)
    with rest obtain d where d: "runDecisionModules (inputs e i st t mode) (engine_modules h i) = Inr d"
      and "(case d of Refuse rs _ \<Rightarrow> Inr (PDeny rs) | Permit permitted \<Rightarrow>
     bindE (materialize_leases i st t permitted) (\<lambda>w.
     bindE (issue h e i st w ih p t) (\<lambda>iss.
     bindE (if effective_type i = EXECUTE then add_lease i (iss_id iss) (iss_expires_at iss) w else Inr w) (\<lambda>nx.
       Inr (PAllow (iss_authorization iss) nx))))) = Inr out"
      unfolding Allow policy_result.case bindE_eq_Inr by blast
    then show thesis by (cases d) (auto simp: bindE_eq_Inr intro: that)
  qed (auto intro: that)
qed

lemma answer_of_reasons: "answer_of h e i st t mode = Inr (PDeny rs) \<Longrightarrow> rs \<noteq> []"
  by (erule answer_ofE) (auto simp: verifyTrustedTime_def runDecisionModules_def bindE_eq_Inr Let_def split: if_splits)

lemma answer_of_allow:
  assumes "answer_of h e i st t mode = Inr (PAllow a nx)"
  shows "getp a ''decision'' = JStr ''ALLOW'' \<and> getp a ''issued_at'' = JNum t \<and>
    getp a ''expiry'' = JNum (num_add t (authorizationTtl e))"
  using assms by (rule answer_ofE) (auto elim!: issueE simp: authorization_fields_def)

text \<open>Events of plain ASCII keys always have a canonical text.\<close>

lemma event_canonical:
  assumes "nfc_ok h" and "list_all is_ascii (map fst kvs)" and "distinct (map fst kvs)" and "''ts'' \<notin> fst ` set kvs"
    and "\<forall>(k, v) \<in> set kvs. \<exists>s. canonicalizeToJson h v = Inr s"
  shows "\<exists>s. canonicalizeToJson h (JObj kvs) = Inr s"
proof -
  have keys: "map (nfc h) (map fst kvs) = map fst kvs"
    using assms(1,2) by (intro map_idI) (auto simp: list_all_iff nfc_ascii)
  have entry: "\<exists>t. canon_entry h x = Inr t" if x_in: "x \<in> set (normalizeEntries h kvs)" for x
  proof -
    obtain k v where kv: "(k, v) \<in> set kvs" and x: "x = (nfc h k, v)"
      using x_in by (auto simp: normalizeEntries_def)
    moreover have "nfc h k = k" using kv assms(1,2) by (force simp: list_all_iff intro: nfc_ascii)
    moreover obtain s where "canonicalizeToJson h v = Inr s" using kv assms(5) by blast
    moreover have "k \<noteq> ''ts''" using kv assms(4) by force
    ultimately show ?thesis by (simp add: canon_entry_def)
  qed
  then have "\<exists>ps. mapE (canon_entry h) xs = Inr ps" if "set xs \<subseteq> set (normalizeEntries h kvs)" for xs
    using that by (induction xs) (simp, fastforce)
  from this [of "sort_key fst (normalizeEntries h kvs)"] show ?thesis
    using canon_obj [of h kvs, unfolded keys, OF assms(3)] by auto
qed

lemma events_canonical:
  assumes "nfc_ok h" and "0 \<le> k" and "k \<le> max_safe"
  shows "\<exists>s. canonicalizeEntry h (event_intent ih i (jint k) p) = Inr s"
    and "is_string v \<Longrightarrow> \<exists>s. canonicalizeEntry h (event_decision ih d rs v (jint k) p) = Inr s"
    and "0 \<le> x \<Longrightarrow> x \<le> max_safe \<Longrightarrow> \<exists>s. canonicalizeEntry h (event_auth a ih (jint x) (jint k) p) = Inr s"
proof -
  have int: "\<exists>s. canonicalizeToJson h (JNum (jint n)) = Inr s" if "0 \<le> n" "n \<le> max_safe" for n
    using that by simp
  have reasons: "\<exists>s. canonicalizeToJson h (JArr (map (JStr \<circ> reason_str) rs)) = Inr s"
    by (simp add: mapE_map comp_def mapE_Inr_map [where g = "\<lambda>r. json_str (nfc h (reason_str r))"])
  note plain = event_canonical [OF assms(1)]
  have "canonicalizeEntry h (event_intent ih i (jint k) p) = canonicalizeToJson h (event_intent ih i (jint k) p)"
    by (simp add: canonicalizeEntry_def event_intent_def propE_def spread_set_def coalesce_def nullish_def canonicalJson_def)
  moreover have "\<exists>s. canonicalizeToJson h (event_intent ih i (jint k) p) = Inr s"
    unfolding event_intent_def
    by (rule plain) (use int [OF assms(2,3)] in \<open>simp_all add: is_ascii_def del: canonicalizeToJson.simps(4)\<close>)
  ultimately show "\<exists>s. canonicalizeEntry h (event_intent ih i (jint k) p) = Inr s" by simp
  show "\<exists>s. canonicalizeEntry h (event_decision ih d rs v (jint k) p) = Inr s" if v: "is_string v"
  proof -
    obtain w where w: "v = JStr w" using v by (cases v) simp_all
    have "canonicalizeEntry h (event_decision ih d rs v (jint k) p) = canonicalizeToJson h (event_decision ih d rs v (jint k) p)"
      by (simp add: canonicalizeEntry_def event_decision_def propE_def spread_set_def coalesce_def nullish_def canonicalJson_def)
    moreover have "\<exists>s. canonicalizeToJson h (event_decision ih d rs v (jint k) p) = Inr s"
      unfolding event_decision_def w
      by (rule plain) (use int [OF assms(2,3)] reasons in \<open>simp_all add: is_ascii_def del: canonicalizeToJson.simps(4,6)\<close>)
    ultimately show ?thesis by simp
  qed
  show "\<exists>s. canonicalizeEntry h (event_auth a ih (jint x) (jint k) p) = Inr s" if x: "0 \<le> x" "x \<le> max_safe"
  proof -
    have "canonicalizeEntry h (event_auth a ih (jint x) (jint k) p) = canonicalizeToJson h (event_auth a ih (jint x) (jint k) p)"
      by (simp add: canonicalizeEntry_def event_auth_def propE_def spread_set_def coalesce_def nullish_def canonicalJson_def)
    moreover have "\<exists>s. canonicalizeToJson h (event_auth a ih (jint x) (jint k) p) = Inr s"
      unfolding event_auth_def
      by (rule plain) (use int [OF assms(2,3)] int [OF x] in \<open>simp_all add: is_ascii_def del: canonicalizeToJson.simps(4)\<close>)
    ultimately show ?thesis by simp
  qed
qed

section \<open>The trusted body answers so\<close>

text \<open>
  \<open>yields q e0 m r\<close>: whatever the log holds, \<open>m\<close> has the result \<open>r\<close>, all exceptions being alike, or it throws; and
  under the condition \<open>q\<close>, which lets every event be logged, it does have it.
\<close>

definition alike :: "'a res \<Rightarrow> 'a res \<Rightarrow> bool" where
  "alike r s = (r = s \<or> isl r \<and> isl s)"

definition yields :: "bool \<Rightarrow> engine \<Rightarrow> 'a run \<Rightarrow> 'a res \<Rightarrow> bool" where
  "yields q e0 m r = (\<forall>e. same_setup e0 e \<longrightarrow> same_setup e0 (snd (m e)) \<and>
     (alike (fst (m e)) r \<or> \<not> q \<and> isl (fst (m e))))"

lemma yieldsI:
  assumes "keeps_setup m" and "\<And>e. same_setup e0 e \<Longrightarrow> alike (fst (m e)) r \<or> \<not> q \<and> isl (fst (m e))"
  shows "yields q e0 m r"
  using assms same_setup_trans unfolding yields_def keeps_setup_def by blast

lemma yields_lift: "yields q e0 (lift_run r) r"
  by (simp add: yields_def lift_run_def alike_def)

lemma yields_bind:
  assumes m: "yields q e0 m r" and f: "\<And>a. r = Inr a \<Longrightarrow> yields q e0 (f a) s" and x: "isl r \<Longrightarrow> isl s"
  shows "yields q e0 (then_run m f) s"
  unfolding yields_def
proof (intro allI impI)
  fix e assume e: "same_setup e0 e"
  obtain r1 e1 where m1: "m e = (r1, e1)" by (cases "m e")
  from m [unfolded yields_def, rule_format, OF e] m1
  have 1: "same_setup e0 e1" "alike r1 r \<or> \<not> q \<and> isl r1" by simp_all
  show "same_setup e0 (snd (then_run m f e)) \<and>
    (alike (fst (then_run m f e)) s \<or> \<not> q \<and> isl (fst (then_run m f e)))"
  proof (cases r1)
    case (Inl y)
    with m1 1 x show ?thesis by (cases r) (auto simp: then_run_def alike_def)
  next
    case (Inr a)
    with 1(2) have "r = Inr a" by (auto simp: alike_def)
    from f [OF this, unfolded yields_def, rule_format, OF 1(1)] m1 Inr show ?thesis by (simp add: then_run_def)
  qed
qed

lemma isl_bindE: "isl m \<Longrightarrow> isl (bindE m f)"
  by (cases m) auto

lemma yields_at: "(\<And>e. same_setup e0 e \<Longrightarrow> yields q e0 (m e) r) \<Longrightarrow> yields q e0 (\<lambda>e. m e e) r"
  unfolding yields_def by blast

lemma yields_emit:
  assumes "q \<Longrightarrow> (\<exists>s. canonicalizeEntry h ev = Inr s) \<and> \<not> has_function ev"
  shows "yields q e0 (emitAudit h ev) (Inr ())"
proof (rule yieldsI [OF keeps_emitAudit])
  fix e
  show "alike (fst (emitAudit h ev e)) (Inr ()) \<or> \<not> q \<and> isl (fst (emitAudit h ev e))"
  proof (cases q)
    case True
    with assms have "emitAudit h ev e \<in> {r. fst r = Inr ()}"
      by (auto simp: emitAudit_def log_append_def computeNextHash_def structuredClone_def Let_def)
    then show ?thesis by (simp add: alike_def)
  next
    case False
    then show ?thesis by (cases "fst (emitAudit h ev e)") (simp_all add: alike_def)
  qed
qed

lemma yields_checkpoint:
  assumes "q \<Longrightarrow> checkpoint_every_n_events (opts e0) = None"
  shows "yields q e0 (maybeEmitCheckpoint h p t st) (Inr ())"
proof (rule yieldsI [OF keeps_checkpoint])
  fix e assume "same_setup e0 e"
  then have "q \<Longrightarrow> maybeEmitCheckpoint h p t st e = (Inr (), e)"
    using assms by (simp add: maybeEmitCheckpoint_def same_setup_def)
  then show "alike (fst (maybeEmitCheckpoint h p t st e)) (Inr ()) \<or>
      \<not> q \<and> isl (fst (maybeEmitCheckpoint h p t st e))"
    by (cases q; cases "fst (maybeEmitCheckpoint h p t st e)") (simp_all add: alike_def)
qed

lemma yields_deny:
  assumes "q \<Longrightarrow> nfc_ok h \<and> checkpoint_every_n_events (opts e0) = None" and "is_string (getp st ''policy_version'')"
    and "0 \<le> k" and "k \<le> max_safe"
  shows "yields q e0 (deny_with h ih p st (jint k) rs) (Inr (PDeny rs))"
proof -
  let ?v = "getp st ''policy_version''"
  have "\<not> has_function (event_decision ih ''DENY'' rs ?v (jint k) p)"
    using assms(2) by (cases ?v) (simp_all add: event_decision_def list_ex_iff)
  with assms events_canonical(2) [OF _ assms(3,4,2)] show ?thesis
    unfolding deny_with_def
    by (intro yields_bind [OF yields_emit] yields_bind [OF yields_checkpoint] yields_lift) auto
qed

lemma yields_conclude:
  assumes "q \<Longrightarrow> nfc_ok h \<and> checkpoint_every_n_events (opts e0) = None" and "is_string (getp st ''policy_version'')"
    and "0 \<le> k" and "k \<le> max_safe" and "iss_expires_at iss = jint x" and "0 \<le> x" and "x \<le> max_safe"
    and nx: "(if effective_type i = EXECUTE then add_lease i (iss_id iss) (iss_expires_at iss) w else Inr w) = r"
  shows "yields q e0 (conclude h i ih p st (jint k) w iss) (bindE r (\<lambda>nx. Inr (PAllow (iss_authorization iss) nx)))"
proof -
  let ?v = "getp st ''policy_version''"
  have has: "\<not> has_function (event_decision ih ''ALLOW'' [] ?v (jint k) p)"
    using assms(2) by (cases ?v) (simp_all add: event_decision_def)
  have d: "q \<Longrightarrow> (\<exists>s. canonicalizeEntry h (event_decision ih ''ALLOW'' [] ?v (jint k) p) = Inr s) \<and>
      \<not> has_function (event_decision ih ''ALLOW'' [] ?v (jint k) p)"
    using assms(1) events_canonical(2) [OF _ assms(3,4,2)] has by blast
  have a: "q \<Longrightarrow> (\<exists>s. canonicalizeEntry h (event_auth (iss_id iss) ih (iss_expires_at iss) (jint k) p) = Inr s) \<and>
      \<not> has_function (event_auth (iss_id iss) ih (iss_expires_at iss) (jint k) p)"
    using assms(1) events_canonical(3) [OF _ assms(3,4,6,7)] by (simp add: assms(5)) (simp add: event_auth_def)
  have c: "q \<Longrightarrow> checkpoint_every_n_events (opts e0) = None" using assms(1) by blast
  have steps: "yields q e0 (emitAudit h (event_decision ih ''ALLOW'' [] ?v (jint k) p)) (Inr ())"
    "yields q e0 (emitAudit h (event_auth (iss_id iss) ih (iss_expires_at iss) (jint k) p)) (Inr ())"
    "yields q e0 (maybeEmitCheckpoint h p (jint k) nx) (Inr ())" for nx
    by (rule yields_emit, erule d) (rule yields_emit, erule a, rule yields_checkpoint, erule c)
  have rest: "yields q e0 (then_run (emitAudit h (event_decision ih ''ALLOW'' [] ?v (jint k) p)) (\<lambda>_.
       then_run (emitAudit h (event_auth (iss_id iss) ih (iss_expires_at iss) (jint k) p)) (\<lambda>_.
       then_run (maybeEmitCheckpoint h p (jint k) nx) (\<lambda>_. lift_run (Inr (PAllow (iss_authorization iss) nx))))))
     (Inr (PAllow (iss_authorization iss) nx))" for nx
    by (rule yields_bind [OF steps(1)], rule yields_bind [OF steps(2)], rule yields_bind [OF steps(3)], rule yields_lift)
      (simp_all only: sum.disc)
  show ?thesis
    unfolding conclude_def nx by (rule yields_bind [OF yields_lift]) (auto simp: rest intro: isl_bindE)
qed

text \<open>The steps of the body, each against its part of \<open>answer_of\<close>.\<close>

lemma yields_allow:
  assumes "q \<Longrightarrow> nfc_ok h \<and> checkpoint_every_n_events (opts e0) = None" and "is_string (getp st ''policy_version'')"
    and "0 \<le> k" and "k \<le> max_safe" and "num_add (jint k) (authorizationTtl e0) = jint x" and "0 \<le> x" and "x \<le> max_safe"
  shows "yields q e0 (allow_with h i ih p st (jint k) permitted)
     (bindE (materialize_leases i st (jint k) permitted) (\<lambda>w.
      bindE (issue h e0 i st w ih p (jint k)) (\<lambda>iss.
      bindE (if effective_type i = EXECUTE then add_lease i (iss_id iss) (iss_expires_at iss) w else Inr w) (\<lambda>nx.
        Inr (PAllow (iss_authorization iss) nx)))))"
proof -
  let ?m = "\<lambda>e. bindE (materialize_leases i st (jint k) permitted) (\<lambda>w.
                 bindE (issue h e i st w ih p (jint k)) (\<lambda>iss. Inr (w, iss)))"
  let ?r = "bindE (materialize_leases i st (jint k) permitted) (\<lambda>w.
      bindE (issue h e0 i st w ih p (jint k)) (\<lambda>iss.
      bindE (if effective_type i = EXECUTE then add_lease i (iss_id iss) (iss_expires_at iss) w else Inr w) (\<lambda>nx.
        Inr (PAllow (iss_authorization iss) nx))))"
  have "yields q e0 (then_run (lift_run (?m e)) (\<lambda>(w, iss). conclude h i ih p st (jint k) w iss)) ?r"
    if e: "same_setup e0 e" for e
  proof (rule yields_bind [OF yields_lift])
    fix z assume "?m e = Inr z"
    then obtain w iss where z: "z = (w, iss)" and m: "materialize_leases i st (jint k) permitted = Inr w"
      and iss: "issue h e0 i st w ih p (jint k) = Inr iss"
      using setup_issue [OF e] by (auto simp: bindE_eq_Inr)
    have "iss_expires_at iss = jint x" using iss assms(5) by (auto elim!: issueE)
    from yields_conclude [OF assms(1-4) this assms(6,7) refl, where i = i and w = w and ih = ih and p = p]
    show "yields q e0 (case z of (w, iss) \<Rightarrow> conclude h i ih p st (jint k) w iss) ?r"
      using m iss by (simp add: z)
  next
    assume "isl (?m e)"
    then show "isl ?r" using setup_issue [OF e]
      by (cases "materialize_leases i st (jint k) permitted") (auto simp: bindE_def split: sum.splits)
  qed
  then show ?thesis unfolding allow_with_def by (rule yields_at)
qed

lemma yields_decide:
  assumes "q \<Longrightarrow> nfc_ok h \<and> checkpoint_every_n_events (opts e0) = None" and "is_string (getp st ''policy_version'')"
    and "0 \<le> k" and "k \<le> max_safe" and "num_add (jint k) (authorizationTtl e0) = jint x" and "0 \<le> x" and "x \<le> max_safe"
  shows "yields q e0 (decide h i ih p st (jint k) mode)
     (bindE (runDecisionModules (inputs e0 i st (jint k) mode) (engine_modules h i)) (\<lambda>d.
      case d of Refuse rs _ \<Rightarrow> Inr (PDeny rs) | Permit permitted \<Rightarrow>
      bindE (materialize_leases i st (jint k) permitted) (\<lambda>w.
      bindE (issue h e0 i st w ih p (jint k)) (\<lambda>iss.
      bindE (if effective_type i = EXECUTE then add_lease i (iss_id iss) (iss_expires_at iss) w else Inr w) (\<lambda>nx.
        Inr (PAllow (iss_authorization iss) nx))))))"
proof -
  let ?run = "\<lambda>e. then_run (lift_run (runDecisionModules (inputs e i st (jint k) mode) (engine_modules h i))) (\<lambda>decision.
       case decision of
         Refuse reasons _ \<Rightarrow> deny_with h ih p st (jint k) reasons
       | Permit permitted \<Rightarrow> allow_with h i ih p st (jint k) permitted)"
  let ?r = "bindE (runDecisionModules (inputs e0 i st (jint k) mode) (engine_modules h i)) (\<lambda>d.
      case d of Refuse rs _ \<Rightarrow> Inr (PDeny rs) | Permit permitted \<Rightarrow>
      bindE (materialize_leases i st (jint k) permitted) (\<lambda>w.
      bindE (issue h e0 i st w ih p (jint k)) (\<lambda>iss.
      bindE (if effective_type i = EXECUTE then add_lease i (iss_id iss) (iss_expires_at iss) w else Inr w) (\<lambda>nx.
        Inr (PAllow (iss_authorization iss) nx)))))"
  have "yields q e0 (?run e) ?r" if e: "same_setup e0 e" for e
  proof -
    have eq: "inputs e i st (jint k) mode = inputs e0 i st (jint k) mode" using e by (simp add: inputs_def setup_fields)
    show ?thesis unfolding eq
      by (intro yields_bind [OF yields_lift])
        (auto simp: yields_deny [OF assms(1-4)] yields_allow [OF assms] intro: isl_bindE split: decision_result.split)
  qed
  then show ?thesis unfolding decide_def by (rule yields_at)
qed

lemma yields_gate:
  assumes "q \<Longrightarrow> nfc_ok h \<and> checkpoint_every_n_events (opts e0) = None" and "is_string (getp st ''policy_version'')"
    and "0 \<le> k" and "k \<le> max_safe" and "num_add (jint k) (authorizationTtl e0) = jint x" and "0 \<le> x" and "x \<le> max_safe"
    and "intentHash h i = Inr ih" and "computePolicyId h e0 = Inr p"
  shows "yields q e0 (gate h i ih p st (jint k) mode) (answer_of h e0 i st (jint k) mode)"
proof -
  let ?run = "\<lambda>e. then_run (lift_run (verifyTrustedTime (timestamp i) (jint k) (to_number (maxClockSkewSeconds (opts e)))
                 (to_number (maxIntentAgeSeconds (opts e))))) (\<lambda>freshness.
       case freshness of
         Deny reasons \<Rightarrow> deny_with h ih p st (jint k) reasons
       | Allow _ \<Rightarrow> decide h i ih p st (jint k) mode)"
  have "yields q e0 (?run e) (answer_of h e0 i st (jint k) mode)" if e: "same_setup e0 e" for e
    unfolding setup_fields(8) [OF e] answer_of_def assms(8,9) bindE_simps
    by (intro yields_bind [OF yields_lift])
      (auto simp: yields_deny [OF assms(1-4)] yields_decide [OF assms(1-7)] intro: isl_bindE split: policy_result.split)
  then show ?thesis unfolding gate_def by (rule yields_at)
qed

lemma body_yields:
  assumes "q \<Longrightarrow> nfc_ok h \<and> checkpoint_every_n_events (opts e0) = None" and "is_string (getp st ''policy_version'')"
    and "0 \<le> k" and "k \<le> max_safe" and "num_add (jint k) (authorizationTtl e0) = jint x" and "0 \<le> x" and "x \<le> max_safe"
  shows "yields q e0 (evaluate_body h i st (jint k) mode) (answer_of h e0 i st (jint k) mode)"
proof -
  let ?ids = "\<lambda>e. bindE (intentHash h i) (\<lambda>ih. bindE (computePolicyId h e) (\<lambda>p. Inr (ih, p)))"
  have "yields q e0 (then_run (lift_run (?ids e)) (\<lambda>(ih, p).
     then_run (emitAudit h (event_intent ih i (jint k) p)) (\<lambda>_. gate h i ih p st (jint k) mode)))
     (answer_of h e0 i st (jint k) mode)" if e: "same_setup e0 e" for e
  proof (rule yields_bind [OF yields_lift])
    fix z assume "?ids e = Inr z"
    then obtain ih p where z: "z = (ih, p)" and ids: "intentHash h i = Inr ih" "computePolicyId h e0 = Inr p"
      using setup_computePolicyId [OF e] by (auto simp: bindE_eq_Inr)
    have "q \<Longrightarrow> (\<exists>s. canonicalizeEntry h (event_intent ih i (jint k) p) = Inr s) \<and> \<not> has_function (event_intent ih i (jint k) p)"
      using assms(1) events_canonical(1) [OF _ assms(3,4)] by (simp add: event_intent_def)
    then show "yields q e0 (case z of (ih, p) \<Rightarrow>
       then_run (emitAudit h (event_intent ih i (jint k) p)) (\<lambda>_. gate h i ih p st (jint k) mode))
       (answer_of h e0 i st (jint k) mode)"
      unfolding z prod.case by (intro yields_bind [OF yields_emit] yields_gate [OF assms ids]) auto
  next
    assume "isl (?ids e)"
    then show "isl (answer_of h e0 i st (jint k) mode)" using setup_computePolicyId [OF e]
      by (cases "intentHash h i"; cases "computePolicyId h e0") (simp_all add: answer_of_def)
  qed
  then show ?thesis unfolding evaluate_body_def by (rule yields_at)
qed

text \<open>
  \<open>evaluatePure\<close> as a whole: the checks of the input, the check of the time, then \<open>answer_of\<close>, with an exception
  as an internal error.
\<close>

definition answer_text :: "pure_output res \<Rightarrow> pure_output" where
  "answer_text r = (case r of Inl _ \<Rightarrow> PDeny [INTERNAL_ERROR] | Inr out \<Rightarrow> out)"

lemma evaluation_answers:
  assumes run: "evaluatePure h i st t mode e = (r, e')" and c: "constructed h e"
  shows "case input_error e i st of
      Some q \<Rightarrow> r = Inr (PDeny [q]) \<and> e' = e
    | None \<Rightarrow> (case time_error e t of
        Some x \<Rightarrow> r = Inl x \<and> e' = e
      | None \<Rightarrow> r \<in> {Inr (answer_text (answer_of h e i st t mode)), Inr (PDeny [INTERNAL_ERROR])} \<and>
          (nfc_ok h \<and> checkpoint_every_n_events (opts e) = None \<longrightarrow> r = Inr (answer_text (answer_of h e i st t mode))))"
proof (cases "input_error e i st")
  case (Some q)
  then show ?thesis using run by (simp add: evaluatePure_def precheck_outcome [OF c])
next
  case None
  note pre = precheck_outcome [OF c, of i st t, unfolded None option.case]
  show ?thesis
  proof (cases "time_error e t")
    case (Some x)
    then show ?thesis using run None by (simp add: evaluatePure_def pre)
  next
    case time: None
    obtain ttl where ttl: "authorizationTtl e = jint ttl" "0 < ttl" using c by (rule constructed_ttl)
    from time obtain k where k: "t = jint k" "0 \<le> k" "k \<le> max_safe" "k + ttl \<le> max_safe"
      by (auto simp: time_error_def ttl elim!: isProtocolSecondsE split: if_splits)
    have "precheck e i st t = Inr None" using pre time by simp
    then have st: "is_string (getp st ''policy_version'')" by (simp add: precheck_None(5))
    have add: "num_add (jint k) (authorizationTtl e) = jint (k + ttl)" using ttl k by (simp add: num_add_seconds)
    obtain rb eb where b: "evaluate_body h i st t mode e = (rb, eb)" by fastforce
    let ?q = "nfc_ok h \<and> checkpoint_every_n_events (opts e) = None"
    have "yields ?q e (evaluate_body h i st t mode) (answer_of h e i st t mode)"
      unfolding k(1) by (rule body_yields [OF _ st k(2,3) add]) (use ttl k in simp_all)
    from this [unfolded yields_def, rule_format, OF same_setup_refl] b
    have "alike rb (answer_of h e i st t mode) \<or> \<not> ?q \<and> isl rb" by simp
    moreover have "r = Inr (answer_text rb)"
      using run b time by (cases rb) (auto simp: evaluatePure_def pre answer_text_def)
    ultimately show ?thesis using None time
      by (cases rb; cases "answer_of h e i st t mode") (auto simp: alike_def answer_text_def)
  qed
qed

section \<open>What an evaluation adds to the record\<close>

text \<open>The log without its checkpoints, and the entry one answer should leave there.\<close>

definition is_checkpoint :: "jsval \<Rightarrow> bool" where
  "is_checkpoint ev = (getp ev ''type'' = JStr ''STATE_CHECKPOINT'')"

definition is_emission :: "jsval \<Rightarrow> bool" where
  "is_emission ev = (getp ev ''type'' = JStr ''AUTH_EMITTED'')"

definition journal :: "hash_log \<Rightarrow> jsval list" where
  "journal lg = filter (Not \<circ> is_checkpoint) (log_events lg)"

fun result_events :: "string \<Rightarrow> jsval \<Rightarrow> jsnum \<Rightarrow> string \<Rightarrow> pure_output \<Rightarrow> jsval list" where
  "result_events ih v t p (PDeny rs) = [event_decision ih ''DENY'' rs v t p]"
| "result_events ih v t p (PAllow a nx) =
     [event_decision ih ''ALLOW'' [] v t p,
      event_auth (case getp a ''auth_id'' of JStr s \<Rightarrow> s | _ \<Rightarrow> []) ih (to_number (getp a ''expiry'')) t p]"

lemma event_kinds [simp]:
  "\<not> is_checkpoint (event_intent ih i t p)" "\<not> is_emission (event_intent ih i t p)"
  "\<not> is_checkpoint (event_decision ih d rs v t p)" "\<not> is_emission (event_decision ih d rs v t p)"
  "\<not> is_checkpoint (event_auth a ih x t p)" "is_emission (event_auth a ih x t p)"
  by (simp_all add: is_checkpoint_def is_emission_def event_intent_def event_decision_def event_auth_def)

text \<open>
  \<open>adds h e0 m R\<close>: from any engine with the setup of \<open>e0\<close>, a run of \<open>m\<close> adds to the record a list of
  events that \<open>R\<close> allows for its result, failed runs included.
\<close>

definition adds :: "host \<Rightarrow> engine \<Rightarrow> 'a run \<Rightarrow> ('a res \<Rightarrow> jsval list \<Rightarrow> bool) \<Rightarrow> bool" where
  "adds h e0 m R =
     (\<forall>e r e'. same_setup e0 e \<longrightarrow> log_ok h (audit e) \<longrightarrow> m e = (r, e') \<longrightarrow>
        same_setup e0 e' \<and> log_ok h (audit e') \<and>
        (\<exists>evs. journal (audit e') = journal (audit e) @ evs \<and> R r evs))"

lemma addsD:
  assumes "adds h e0 m R" and "m e = (r, e')" and "same_setup e0 e" and "log_ok h (audit e)"
  obtains evs where "same_setup e0 e'" "log_ok h (audit e')" "journal (audit e') = journal (audit e) @ evs" "R r evs"
  using assms unfolding adds_def by blast

lemma adds_weaken: "adds h e0 m R \<Longrightarrow> (\<And>r evs. R r evs \<Longrightarrow> R' r evs) \<Longrightarrow> adds h e0 m R'"
  unfolding adds_def by meson

lemma adds_lift: "R r [] \<Longrightarrow> adds h e0 (lift_run r) R"
  by (auto simp: adds_def lift_run_def)

lemma adds_at: "(\<And>e. same_setup e0 e \<Longrightarrow> adds h e0 (m e) R) \<Longrightarrow> adds h e0 (\<lambda>e. m e e) R"
  unfolding adds_def by blast

lemma adds_then:
  assumes m: "adds h e0 m Q" and f: "\<And>a evs. Q (Inr a) evs \<Longrightarrow> adds h e0 (f a) (\<lambda>r new. R r (evs @ new))"
    and x: "\<And>x evs. Q (Inl x) evs \<Longrightarrow> R (Inl x) evs"
  shows "adds h e0 (then_run m f) R"
  unfolding adds_def
proof (intro allI impI)
  fix e r e' assume e: "same_setup e0 e" "log_ok h (audit e)" and run: "then_run m f e = (r, e')"
  obtain r1 e1 where m1: "m e = (r1, e1)" by (cases "m e")
  obtain evs where 1: "same_setup e0 e1" "log_ok h (audit e1)" "journal (audit e1) = journal (audit e) @ evs"
    "Q r1 evs"
    using m m1 e by (rule addsD)
  show "same_setup e0 e' \<and> log_ok h (audit e') \<and> (\<exists>evs. journal (audit e') = journal (audit e) @ evs \<and> R r evs)"
  proof (cases r1)
    case (Inl y)
    with run m1 1 x show ?thesis by (auto simp: then_run_def)
  next
    case (Inr a)
    have fa: "adds h e0 (f a) (\<lambda>r new. R r (evs @ new))" using f 1(4) Inr by simp
    have run': "f a e1 = (r, e')" using run m1 Inr by (simp add: then_run_def)
    obtain new where "same_setup e0 e'" "log_ok h (audit e')" "journal (audit e') = journal (audit e1) @ new"
      "R r (evs @ new)"
      using fa run' 1(1,2) by (rule addsD)
    with 1(3) show ?thesis by auto
  qed
qed

lemma adds_lift_then: "(\<And>a. r = Inr a \<Longrightarrow> adds h e0 (f a) R) \<Longrightarrow> (\<And>x. r = Inl x \<Longrightarrow> R (Inl x) []) \<Longrightarrow>
    adds h e0 (then_run (lift_run r) f) R"
  by (cases r) (auto intro!: adds_then [where Q = "\<lambda>q evs. q = r \<and> evs = []"] adds_lift)

text \<open>One event; when it is plain data the only way to fail is before it was appended.\<close>

lemma adds_emit:
  assumes "\<not> is_checkpoint ev"
  shows "adds h e0 (emitAudit h ev)
    (\<lambda>r evs. case r of Inr _ \<Rightarrow> evs = [ev] | Inl _ \<Rightarrow> evs = [] \<or> evs = [ev] \<and> has_function ev)"
  unfolding adds_def
proof (intro allI impI)
  fix e r e' assume e: "same_setup e0 e" "log_ok h (audit e)" and run: "emitAudit h ev e = (r, e')"
  have s: "same_setup e0 e'"
    using keepsD [OF keeps_emitAudit run] same_setup_trans [OF e(1)] by blast
  show "same_setup e0 e' \<and> log_ok h (audit e') \<and> (\<exists>evs. journal (audit e') = journal (audit e) @ evs \<and>
    (case r of Inr _ \<Rightarrow> evs = [ev] | Inl _ \<Rightarrow> evs = [] \<or> evs = [ev] \<and> has_function ev))"
  proof (cases "log_append h (audit e) ev")
    case (Inl x)
    with run s e show ?thesis by (auto simp: emitAudit_def)
  next
    case (Inr q)
    obtain d lg where q: "q = (d, lg)" by (cases q)
    have "audit e' = lg" using run by (auto simp: emitAudit_def Inr q Let_def split: sum.splits if_splits)
    with log_ok_append [OF e(2) Inr [unfolded q]] s run assms show ?thesis
      by (auto simp: emitAudit_def Inr q Let_def journal_def structuredClone_def split: sum.splits if_splits)
  qed
qed

lemma adds_checkpoint:
  "adds h e0 (maybeEmitCheckpoint h p t st)
    (\<lambda>r evs. evs = [] \<and> (checkpoint_every_n_events (opts e0) = None \<longrightarrow> r = Inr ()))"
  unfolding adds_def
proof (intro allI impI)
  fix e r e' assume e: "same_setup e0 e" "log_ok h (audit e)" and run: "maybeEmitCheckpoint h p t st e = (r, e')"
  have s: "same_setup e0 e'"
    using keepsD [OF keeps_checkpoint run] same_setup_trans [OF e(1)] by blast
  have none: "checkpoint_every_n_events (opts e0) = None \<longrightarrow> r = Inr ()"
    using run e(1) by (auto simp: maybeEmitCheckpoint_def same_setup_def)
  have "log_ok h (audit e') \<and> journal (audit e') = journal (audit e)"
  proof (cases "audit e' = audit e")
    case False
    then obtain d r2 e2 where em: "emitAudit h (JObj [(''type'', JStr ''STATE_CHECKPOINT''), (''stateHash'', JStr d),
        (''timestamp'', JNum t), (''policyId'', JStr p)]) e = (r2, e2)" "e2 = e'"
      using run
      by (auto simp: maybeEmitCheckpoint_def lift_run_def then_run_def split: option.splits if_splits sum.splits prod.splits)
    with False obtain d' where "log_append h (audit e) (JObj [(''type'', JStr ''STATE_CHECKPOINT''), (''stateHash'', JStr d),
        (''timestamp'', JNum t), (''policyId'', JStr p)]) = Inr (d', audit e')"
      by (auto simp: emitAudit_def Let_def split: sum.splits if_splits)
    from log_ok_append [OF e(2) this] show ?thesis by (simp add: journal_def is_checkpoint_def)
  qed (use e in simp)
  with s none show "same_setup e0 e' \<and> log_ok h (audit e') \<and> (\<exists>evs. journal (audit e') = journal (audit e) @ evs \<and>
    evs = [] \<and> (checkpoint_every_n_events (opts e0) = None \<longrightarrow> r = Inr ()))" by simp
qed

text \<open>The result of the body and what it leaves behind its receipt.\<close>

definition concludes :: "engine \<Rightarrow> string \<Rightarrow> jsval \<Rightarrow> jsnum \<Rightarrow> string \<Rightarrow> pure_output res \<Rightarrow> jsval list \<Rightarrow> bool" where
  "concludes e0 ih v t p r evs =
     (case r of
        Inr out \<Rightarrow> evs = result_events ih v t p out
      | Inl _ \<Rightarrow> checkpoint_every_n_events (opts e0) = None \<longrightarrow> filter is_emission evs = [])"

lemma adds_deny: "adds h e0 (deny_with h ih p st t rs) (concludes e0 ih (getp st ''policy_version'') t p)"
  unfolding deny_with_def
  by (rule adds_then [OF adds_emit], simp, rule adds_then [OF adds_checkpoint])
    (auto simp: concludes_def intro!: adds_lift)

lemma adds_conclude:
  assumes "issue h e1 i st w ih p t = Inr iss"
  shows "adds h e0 (conclude h i ih p st t w iss) (concludes e0 ih (getp st ''policy_version'') t p)"
proof -
  have "getp (iss_authorization iss) ''auth_id'' = JStr (iss_id iss)"
    "getp (iss_authorization iss) ''expiry'' = JNum (iss_expires_at iss)"
    using assms by (auto elim!: issueE simp: authorization_fields_def)
  moreover have "\<not> has_function (event_auth a ih x t p)" for a x by (simp add: event_auth_def)
  ultimately have "adds h e0
      (then_run (emitAudit h (event_decision ih ''ALLOW'' [] (getp st ''policy_version'') t p)) (\<lambda>_.
       then_run (emitAudit h (event_auth (iss_id iss) ih (iss_expires_at iss) t p)) (\<lambda>_.
       then_run (maybeEmitCheckpoint h p t nx) (\<lambda>_. lift_run (Inr (PAllow (iss_authorization iss) nx))))))
      (concludes e0 ih (getp st ''policy_version'') t p)" for nx
    by - (rule adds_then [OF adds_emit], simp, rule adds_then [OF adds_emit], simp, rule adds_then [OF adds_checkpoint],
      auto simp: concludes_def intro!: adds_lift)
  then show ?thesis unfolding conclude_def by (rule adds_lift_then) (simp add: concludes_def)
qed

lemma adds_allow: "adds h e0 (allow_with h i ih p st t w) (concludes e0 ih (getp st ''policy_version'') t p)"
  unfolding allow_with_def
  by (rule adds_at, rule adds_lift_then)
    (auto simp: bindE_eq_Inr concludes_def [of _ _ _ _ _ "Inl _"] intro: adds_conclude)

lemma adds_decide: "adds h e0 (decide h i ih p st t mode) (concludes e0 ih (getp st ''policy_version'') t p)"
  unfolding decide_def
  by (rule adds_at, rule adds_lift_then)
    (auto simp: concludes_def [of _ _ _ _ _ "Inl _"] adds_deny adds_allow split: decision_result.split)

lemma adds_gate: "adds h e0 (gate h i ih p st t mode) (concludes e0 ih (getp st ''policy_version'') t p)"
  unfolding gate_def
  by (rule adds_at, rule adds_lift_then)
    (auto simp: concludes_def [of _ _ _ _ _ "Inl _"] adds_deny adds_decide split: policy_result.split)

text \<open>The body as a whole: the receipt of the intent first.\<close>

lemma body_adds:
  assumes "computePolicyId h e0 = Inr p"
  shows "adds h e0 (evaluate_body h i st t mode) (\<lambda>r evs.
    case r of
      Inr out \<Rightarrow> \<exists>ih. intentHash h i = Inr ih \<and>
        evs = event_intent ih i t p # result_events ih (getp st ''policy_version'') t p out
    | Inl _ \<Rightarrow> checkpoint_every_n_events (opts e0) = None \<longrightarrow> filter is_emission evs = [])"
  unfolding evaluate_body_def
proof (rule adds_at, rule adds_lift_then)
  fix e x assume e: "same_setup e0 e" and "bindE (intentHash h i) (\<lambda>intent_hash.
      bindE (computePolicyId h e) (\<lambda>policyId. Inr (intent_hash, policyId))) = Inr x"
  then obtain ih where ih: "intentHash h i = Inr ih" and x: "x = (ih, p)"
    using assms setup_computePolicyId [OF e] by (auto simp: bindE_eq_Inr)
  have "adds h e0 (then_run (emitAudit h (event_intent ih i t p)) (\<lambda>_. gate h i ih p st t mode)) (\<lambda>r evs.
    case r of
      Inr out \<Rightarrow> \<exists>ih. intentHash h i = Inr ih \<and>
        evs = event_intent ih i t p # result_events ih (getp st ''policy_version'') t p out
    | Inl _ \<Rightarrow> checkpoint_every_n_events (opts e0) = None \<longrightarrow> filter is_emission evs = [])"
    by (rule adds_then [OF adds_emit])
      (auto simp: ih concludes_def intro!: adds_weaken [OF adds_gate] split: sum.splits)
  then show "adds h e0 (case x of (intent_hash, policyId) \<Rightarrow>
      then_run (emitAudit h (event_intent intent_hash i t policyId)) (\<lambda>_. gate h i intent_hash policyId st t mode))
    (\<lambda>r evs. case r of
      Inr out \<Rightarrow> \<exists>ih. intentHash h i = Inr ih \<and>
        evs = event_intent ih i t p # result_events ih (getp st ''policy_version'') t p out
    | Inl _ \<Rightarrow> checkpoint_every_n_events (opts e0) = None \<longrightarrow> filter is_emission evs = [])"
    by (simp add: x)
qed simp

section \<open>Runs with their answers\<close>

record given_answer =
  a_intent :: intent
  a_state :: jsval  \<comment> \<open>the state it was asked in\<close>
  a_time :: int
  a_result :: pure_output

inductive answered :: "host \<Rightarrow> engine \<Rightarrow> jsval \<Rightarrow> int \<Rightarrow> given_answer list \<Rightarrow> engine \<Rightarrow> jsval \<Rightarrow> int \<Rightarrow> bool"
  for h e0 st0 c0 where
  begins: "answered h e0 st0 c0 [] e0 st0 c0"
| answers: "answered h e0 st0 c0 xs e st c \<Longrightarrow> c \<le> t \<Longrightarrow>
    evaluatePure h i st (jint t) mode e = (Inr out, e') \<Longrightarrow>
    answered h e0 st0 c0 (xs @ [\<lparr>a_intent = i, a_state = st, a_time = t, a_result = out\<rparr>]) e'
      (case out of PAllow a nx \<Rightarrow> nx | PDeny rs \<Rightarrow> st) t"

fun admitted :: "given_answer \<Rightarrow> bool" where
  "admitted x = (case a_result x of PAllow a nx \<Rightarrow> True | PDeny rs \<Rightarrow> False)"

text \<open>The same runs as \<open>evolves\<close>, whose trace keeps the admissions only.\<close>

lemma answered_evolves:
  "answered h e0 st0 c0 xs e st c \<Longrightarrow>
    evolves h e0 st0 c0 (map (\<lambda>x. (a_intent x, a_time x)) (filter admitted xs)) e st c"
proof (induction rule: answered.induct)
  case (answers xs e st c t i mode out e')
  then show ?case by (cases out) (auto intro: admit refuse)
qed (simp add: start)

lemma evolves_answered:
  "evolves h e0 st0 c0 tr e st c \<Longrightarrow>
    \<exists>xs. answered h e0 st0 c0 xs e st c \<and> tr = map (\<lambda>x. (a_intent x, a_time x)) (filter admitted xs)"
proof (induction rule: evolves.induct)
  case (admit tr e st c t i mode a nx e')
  then obtain xs where xs: "answered h e0 st0 c0 xs e st c" "tr = map (\<lambda>x. (a_intent x, a_time x)) (filter admitted xs)"
    by blast
  have "answered h e0 st0 c0 (xs @ [\<lparr>a_intent = i, a_state = st, a_time = t, a_result = PAllow a nx\<rparr>]) e' nx t"
    using answers [OF xs(1) admit.hyps(2,3)] by simp
  moreover have "tr @ [(i, t)] = map (\<lambda>x. (a_intent x, a_time x))
      (filter admitted (xs @ [\<lparr>a_intent = i, a_state = st, a_time = t, a_result = PAllow a nx\<rparr>]))"
    by (simp add: xs(2))
  ultimately show ?case by blast
next
  case (refuse tr e st c t i mode rs e')
  then obtain xs where xs: "answered h e0 st0 c0 xs e st c" "tr = map (\<lambda>x. (a_intent x, a_time x)) (filter admitted xs)"
    by blast
  have "answered h e0 st0 c0 (xs @ [\<lparr>a_intent = i, a_state = st, a_time = t, a_result = PDeny rs\<rparr>]) e' st t"
    using answers [OF xs(1) refuse.hyps(2,3)] by simp
  moreover have "tr = map (\<lambda>x. (a_intent x, a_time x))
      (filter admitted (xs @ [\<lparr>a_intent = i, a_state = st, a_time = t, a_result = PDeny rs\<rparr>]))"
    by (simp add: xs(2))
  ultimately show ?case by blast
qed (use begins in fastforce)

lemma answered_setup: "answered h e0 st0 c0 xs e st c \<Longrightarrow> same_setup e0 e"
  by (rule evolves_setup [OF answered_evolves])

text \<open>
  What an answer should leave in the log: nothing when the checks before the body refused it, else the
  receipt, the decision with its reasons and, for an ALLOW, the authorization that was returned.
\<close>

definition considered :: "engine \<Rightarrow> given_answer \<Rightarrow> bool" where
  "considered e x = (precheck e (a_intent x) (a_state x) (jint (a_time x)) = Inr None)"

definition crashed :: "given_answer \<Rightarrow> bool" where
  "crashed x = (a_result x = PDeny [INTERNAL_ERROR])"

definition entry :: "host \<Rightarrow> string \<Rightarrow> given_answer \<Rightarrow> jsval list" where
  "entry h p x =
     (case intentHash h (a_intent x) of
        Inl _ \<Rightarrow> []
      | Inr ih \<Rightarrow> event_intent ih (a_intent x) (jint (a_time x)) p #
          result_events ih (getp (a_state x) ''policy_version'') (jint (a_time x)) p (a_result x))"

lemma entry_emission: "filter is_emission (entry h p x) \<noteq> [] \<Longrightarrow> admitted x"
  by (cases "a_result x") (auto simp: entry_def split: sum.splits)

lemma evaluation_journal:
  assumes run: "evaluatePure h i st (jint t) mode e = (Inr out, e')" and "same_setup e0 e" and "log_ok h (audit e)"
    and "computePolicyId h e0 = Inr p" and x: "x = \<lparr>a_intent = i, a_state = st, a_time = t, a_result = out\<rparr>"
  obtains evs where "log_ok h (audit e')" "journal (audit e') = journal (audit e) @ evs"
    "\<not> considered e0 x \<longrightarrow> evs = []" "considered e0 x \<and> \<not> crashed x \<longrightarrow> evs = entry h p x"
    "checkpoint_every_n_events (opts e0) = None \<longrightarrow>
       filter is_emission evs = (if admitted x then filter is_emission (entry h p x) else [])"
proof (cases "considered e0 x")
  case False
  then have "precheck e i st (jint t) \<noteq> Inr None" using setup_precheck [OF assms(2)] by (simp add: considered_def x)
  with run have "e' = e" "\<not> admitted x" by (auto simp: evaluatePure_def x split: sum.splits option.splits)
  with that [of "[]"] assms(3) False show thesis by simp
next
  case True
  then have pre: "precheck e i st (jint t) = Inr None" using setup_precheck [OF assms(2)] by (simp add: considered_def x)
  obtain r eb where b: "evaluate_body h i st (jint t) mode e = (r, eb)" by fastforce
  with run pre have e': "eb = e'" and out: "case r of Inr o' \<Rightarrow> out = o' | Inl _ \<Rightarrow> out = PDeny [INTERNAL_ERROR]"
    by (auto simp: evaluatePure_def split: sum.splits)
  obtain evs where evs: "log_ok h (audit e')" "journal (audit e') = journal (audit e) @ evs"
    "case r of
      Inr out \<Rightarrow> \<exists>ih. intentHash h i = Inr ih \<and>
        evs = event_intent ih i (jint t) p # result_events ih (getp st ''policy_version'') (jint t) p out
    | Inl _ \<Rightarrow> checkpoint_every_n_events (opts e0) = None \<longrightarrow> filter is_emission evs = []"
    using body_adds [OF assms(4)] b assms(2,3) unfolding e' by (rule addsD)
  show thesis
  proof (cases r)
    case (Inl y)
    with evs out True that [of evs] show thesis by (simp add: crashed_def x)
  next
    case (Inr o')
    with evs(3) out have "evs = entry h p x" by (auto simp: entry_def x)
    moreover have "\<not> admitted x \<Longrightarrow> filter is_emission (entry h p x) = []" using entry_emission by blast
    ultimately show thesis using evs that [of evs] True by simp
  qed
qed

lemma run_journal:
  assumes "answered h e0 st0 c0 xs e st c" and "audit e0 = new_log h" and "computePolicyId h e0 = Inr p"
  shows "log_ok h (audit e)"
    and "subseq (concat (map (entry h p) (filter (\<lambda>x. considered e0 x \<and> \<not> crashed x) xs))) (journal (audit e))"
    and "\<forall>x \<in> set xs. \<not> crashed x \<Longrightarrow> journal (audit e) = concat (map (entry h p) (filter (considered e0) xs))"
    and "checkpoint_every_n_events (opts e0) = None \<Longrightarrow>
      filter is_emission (journal (audit e)) = concat (map (filter is_emission \<circ> entry h p) (filter admitted xs))"
proof -
  have "log_ok h (audit e) \<and>
    subseq (concat (map (entry h p) (filter (\<lambda>x. considered e0 x \<and> \<not> crashed x) xs))) (journal (audit e)) \<and>
    ((\<forall>x \<in> set xs. \<not> crashed x) \<longrightarrow> journal (audit e) = concat (map (entry h p) (filter (considered e0) xs))) \<and>
    (checkpoint_every_n_events (opts e0) = None \<longrightarrow>
      filter is_emission (journal (audit e)) = concat (map (filter is_emission \<circ> entry h p) (filter admitted xs)))"
    using assms(1)
  proof (induction rule: answered.induct)
    case begins
    have "log_events (new_log h) = []" by (simp add: log_events_def new_log_def)
    then show ?case by (simp add: assms(2) log_ok_new journal_def)
  next
    case (answers xs e st c t i mode out e')
    let ?x = "\<lparr>a_intent = i, a_state = st, a_time = t, a_result = out\<rparr>"
    have s: "same_setup e0 e" using answers.hyps(1) by (rule answered_setup)
    have ok: "log_ok h (audit e)" using answers.IH by blast
    obtain evs where evs: "log_ok h (audit e')" "journal (audit e') = journal (audit e) @ evs"
      "\<not> considered e0 ?x \<longrightarrow> evs = []" "considered e0 ?x \<and> \<not> crashed ?x \<longrightarrow> evs = entry h p ?x"
      "checkpoint_every_n_events (opts e0) = None \<longrightarrow>
         filter is_emission evs = (if admitted ?x then filter is_emission (entry h p ?x) else [])"
      by (rule evaluation_journal [OF answers.hyps(3) s ok assms(3) refl])
    have "subseq (concat (map (entry h p) (filter (\<lambda>x. considered e0 x \<and> \<not> crashed x) (xs @ [?x])))) (journal (audit e'))"
      using answers.IH evs(2,4) by (cases "considered e0 ?x \<and> \<not> crashed ?x") (auto intro: list_emb_append_mono)
    with answers.IH evs show ?case by (cases "considered e0 ?x") auto
  qed
  then show "log_ok h (audit e)"
    and "subseq (concat (map (entry h p) (filter (\<lambda>x. considered e0 x \<and> \<not> crashed x) xs))) (journal (audit e))"
    and "\<forall>x \<in> set xs. \<not> crashed x \<Longrightarrow> journal (audit e) = concat (map (entry h p) (filter (considered e0) xs))"
    and "checkpoint_every_n_events (opts e0) = None \<Longrightarrow>
      filter is_emission (journal (audit e)) = concat (map (filter is_emission \<circ> entry h p) (filter admitted xs))"
    by blast+
qed

text \<open>The entry of an admission holds the id and the expiry of the very authorization that was returned.\<close>

lemma answered_step:
  "answered h e0 st0 c0 xs e st c \<Longrightarrow> x \<in> set xs \<Longrightarrow>
    \<exists>e1 e2 mode. same_setup e0 e1 \<and> evaluatePure h (a_intent x) (a_state x) (jint (a_time x)) mode e1 = (Inr (a_result x), e2)"
proof (induction rule: answered.induct)
  case (answers xs e st c t i mode out e')
  have s: "same_setup e0 e" using answers.hyps(1) by (rule answered_setup)
  show ?case
  proof (cases "x \<in> set xs")
    case False
    with answers.prems have "x = \<lparr>a_intent = i, a_state = st, a_time = t, a_result = out\<rparr>" by simp
    with s answers.hyps(3) show ?thesis by fastforce
  qed (use answers.IH in blast)
qed simp

lemma admitted_entry:
  assumes "answered h e0 st0 c0 xs e st c" and "x \<in> set xs" and a: "a_result x = PAllow a nx"
  obtains id ih k where "considered e0 x" "intentHash h (a_intent x) = Inr ih"
    "getp a ''auth_id'' = JStr id" "getp a ''expiry'' = JNum k"
    "entry h p x = [event_intent ih (a_intent x) (jint (a_time x)) p,
       event_decision ih ''ALLOW'' [] (getp (a_state x) ''policy_version'') (jint (a_time x)) p,
       event_auth id ih k (jint (a_time x)) p]"
proof -
  obtain e1 e2 mode where s: "same_setup e0 e1"
    and run: "evaluatePure h (a_intent x) (a_state x) (jint (a_time x)) mode e1 = (Inr (PAllow a nx), e2)"
    using answered_step [OF assms(1,2)] a by auto
  from run obtain ih p' w1 iss where pre: "precheck e1 (a_intent x) (a_state x) (jint (a_time x)) = Inr None"
    and ih: "intentHash h (a_intent x) = Inr ih"
    and iss: "issue h e1 (a_intent x) (a_state x) w1 ih p' (jint (a_time x)) = Inr iss" "a = iss_authorization iss"
    by (rule evaluated_allowE)
  have "considered e0 x" using pre setup_precheck [OF s] by (simp add: considered_def)
  moreover have "getp a ''auth_id'' = JStr (iss_id iss)" "getp a ''expiry'' = JNum (iss_expires_at iss)"
    using iss by (auto elim!: issueE simp: authorization_fields_def)
  ultimately show thesis using ih a that by (simp add: entry_def)
qed

end
