(* ===== verification/RunProperties.thy ===== *)
theory RunProperties
  imports RunRecord DemoRun
begin

text \<open>
  The properties of whole runs: the rate limits, the leases and the audit trail over any sequence of
  evaluations, and the outcomes one evaluation can have.
\<close>

section \<open>The run of the demo\<close>

lemma demo_steps_to:
  obtains e' where "evolves demo_host demo_engine demo_state 0 [(demo_intent, 12)] e' demo_next 12"
    "evaluatePure demo_host demo_intent demo_state (jint 12) FailFast demo_engine =
      (Inr (PAllow demo_authorization demo_next), e')"
proof -
  obtain e' where run: "evaluatePure demo_host demo_intent demo_state (jint 12) FailFast demo_engine =
      (Inr (PAllow demo_authorization demo_next), e')"
    using demo_run by blast
  then have "evolves demo_host demo_engine demo_state 0 ([] @ [(demo_intent, 12)]) e' demo_next 12"
    by (intro admit [OF start]) simp_all
  with run that show thesis by simp
qed

lemma demo_setup: "constructed demo_host demo_engine" "audit demo_engine = new_log demo_host"
  using demo_engine_new
  by (auto simp: constructed_def demo_engine_def new_log_def AUDIT_GENESIS_HASH_def demo_host_def)

section \<open>The outcomes of an evaluation\<close>



section \<open>Rate limits\<close>

text \<open>
  C13: The velocity limit over a run: for a state whose velocity configuration for the agent is
  well-typed (window \<open>W\<close>, limit \<open>M\<close>), no interval of length \<open>W\<close> holds more than twice \<open>M\<close> admitted
  EXECUTE intents of the agent. Twice, since the window is fixed: two windows meet in the interval.
\<close>
theorem run_velocity_limited:
  assumes "evolves h e0 st0 c0 tr e st c" and "plain_state st0"
    and "vel_state (getp st0 ''velocity'') b W M counter"
  shows "length (filter (\<lambda>k. x \<le> k \<and> k < x + W) (executed_at b tr)) \<le> 2 * nat M"
  using assms by (rule velocity_bound)

theorem run_velocity_limited_witness:
  "length (filter (\<lambda>k. 5 \<le> k \<and> k < 5 + 9) (executed_at ''a'' [(demo_intent, 12)])) \<le> 2 * nat 2"
proof -
  obtain e' where run: "evolves demo_host demo_engine demo_state 0 [(demo_intent, 12)] e' demo_next 12"
    by (rule demo_steps_to)
  have "vel_state (getp demo_state ''velocity'') ''a'' 9 2 None" by code_simp
  then show ?thesis by (rule run_velocity_limited [OF run demo_plain])
qed

text \<open>
  C14: The limit on tool calls over a run: no interval of the window's length holds more admitted tool
  calls of an agent than its \<open>max_calls\<close>, wherever the interval lies.
\<close>
theorem run_tool_calls_limited:
  assumes "evolves h e0 st0 c0 tr e st c" and "plain_state st0"
    and "path st0 [''tool_limits'', ''window_seconds''] = JNum (jint W)"
    and "path st0 [''tool_limits'', ''max_calls'', b] = JNum (jint M)"
  shows "length (filter (\<lambda>k. x \<le> k \<and> k < x + W) (called_at b tr)) \<le> nat M"
  using assms(3,4) by (intro tools_bound [OF assms(1,2)]) (simp add: tool_state_def)

theorem run_tool_calls_limited_witness:
  "length (filter (\<lambda>k. 5 \<le> k \<and> k < 5 + 9) (called_at ''a'' [(demo_intent, 12)])) \<le> nat 4"
proof -
  obtain e' where run: "evolves demo_host demo_engine demo_state 0 [(demo_intent, 12)] e' demo_next 12"
    by (rule demo_steps_to)
  have "path demo_state [''tool_limits'', ''window_seconds''] = JNum (jint 9)"
    "path demo_state [''tool_limits'', ''max_calls'', ''a''] = JNum (jint 4)"
    by (simp_all add: demo_state_def)
  then show ?thesis by (rule run_tool_calls_limited [OF run demo_plain])
qed

section \<open>Leases\<close>

text \<open>
  C15: The concurrency limit over a run: from a coherent state within the limit, every reachable state has
  at most \<open>max_concurrent\<close> leases of the agent and a counter that covers them, provided no admitted
  RELEASE names a property that every JavaScript object inherits.
\<close>
theorem run_leases_limited:
  assumes "evolves h e0 st0 c0 tr e st c" and "plain_state st0" and "constructed h e0"
    and "conc_state st0 b M n kvs" and "n \<le> M" and "\<forall>(i, k) \<in> set tr. proper_release i"
  shows "\<exists>n' kvs'. conc_state st b M n' kvs' \<and> int (length kvs') \<le> n' \<and> n' \<le> M"
  using evolves_leases [OF assms] by (auto simp: conc_state_def)

theorem run_leases_limited_witness:
  "\<exists>n' kvs'. conc_state demo_next ''a'' 2 n' kvs' \<and> int (length kvs') \<le> n' \<and> n' \<le> 2"
proof -
  obtain e' where run: "evolves demo_host demo_engine demo_state 0 [(demo_intent, 12)] e' demo_next 12"
    by (rule demo_steps_to)
  have "conc_state demo_state ''a'' 2 0 []"
    by (simp add: conc_state_def demo_state_def residents_def coalesce_def nullish_def max_safe_def inherited_def
        object_prototype_def)
  moreover have "\<forall>(i, k) \<in> set [(demo_intent, 12 :: int)]. proper_release i"
    by (simp add: proper_release_def demo_type)
  ultimately show ?thesis
    using run_leases_limited [OF run demo_plain demo_setup(1)] by (metis (no_types, lifting) order_refl zero_le_numeral)
qed

text \<open>
  C16: The exception is real: a RELEASE that names an inherited property, such as \<open>toString\<close>, is admitted
  without any such lease. It removes no lease and lowers the counter by one, which frees a place that is
  taken.
\<close>
theorem inherited_release_admitted:
  assumes "conc_state st (agent_id i) M n kvs" and "evaluationTime ctx = jint t"
    and "effective_type i = RELEASE" and "authorization_id i = Some authId"
    and "authId \<in> set object_prototype" and "authId \<notin> fst ` set kvs" and "\<forall>e \<in> set kvs. live_at t e"
  shows "ConcurrencyModule i st ctx = Inr (Allow (Some
    (conc_delta (getp st ''concurrency'') (agent_id i) (jint (n - 1)) kvs)))"
proof -
  have live: "filter (live_at t) kvs = kvs" "filter (\<lambda>e. \<not> live_at t e) kvs = []"
    using assms(7) by (simp_all add: filter_id_conv filter_empty_conv)
  have s: "path st [''concurrency'', ''max_concurrent'', agent_id i] = JNum (jint M)"
    "coalesce (path st [''concurrency'', ''active'', agent_id i]) (JNum (jint 0)) = JNum (jint n)" "0 \<le> n" "n \<le> max_safe"
    using assms(1) by (auto simp: conc_state_def)
  have "num_sub (jint n) (jint 1) = jint (n - 1)"
    using s(3,4) by (intro num_sub_seconds) (simp_all add: max_safe_def)
  moreover have "computeConcurrencyLeases i st (jint t) = Inr (Some \<lparr>auths = kvs, removed = 1, releaseInvalid = False\<rparr>)"
    using leases_spec [OF assms(1), of t] release_inherited_name [OF assms(3-6), of 0] by (simp add: live)
  ultimately show ?thesis
    using s assms(2,3) by (simp add: ConcurrencyModule_def propE_concurrency [OF assms(1)] sub_num_def)
qed

theorem inherited_release_admitted_witness:
  "ConcurrencyModule (demo_intent\<lparr>itype := Some RELEASE, authorization_id := Some ''toString''\<rparr>) demo_next demo_ctx =
    Inr (Allow (Some (conc_delta (getp demo_next ''concurrency'') ''a'' (jint 0)
      [(demo_hash, JObj [(''expires_at'', JNum (jint 72))])])))"
proof -
  let ?i = "demo_intent\<lparr>itype := Some RELEASE, authorization_id := Some ''toString''\<rparr>"
  let ?kvs = "[(demo_hash, JObj [(''expires_at'', JNum (jint 72))])]"
  have named: "''toString'' \<in> set object_prototype" "''toString'' \<noteq> demo_hash" by code_simp+
  have "conc_state demo_next (agent_id ?i) 2 1 ?kvs"
    by (simp add: conc_state_def demo_next_def demo_slices_def demo_intent_def residents_def coalesce_def nullish_def
        max_safe_def lease_ok_def)
  then have "ConcurrencyModule ?i demo_next demo_ctx = Inr (Allow (Some
      (conc_delta (getp demo_next ''concurrency'') (agent_id ?i) (jint (1 - 1)) ?kvs)))"
    by (rule inherited_release_admitted [where t = 12])
      (use named in \<open>simp_all add: demo_ctx_def effective_type_def live_at_def\<close>)
  then show ?thesis by (simp add: demo_intent_def)
qed

section \<open>The audit trail\<close>

text \<open>
  C19: The audit log of a run verifies: the verifier accepts the log of an engine that started with the
  constructor, whatever was evaluated, refused or failed since, for the engine's policy and up to the
  state anchors the relying party may ask for; and the head it reports is the engine's.
\<close>
theorem engine_log_verifies:
  assumes "evolves h e0 st0 c0 tr e st c" and "constructed h e0" and "audit e0 = new_log h" and "hex_digests h"
    and "computePolicyId h e0 = Inr p" and "ao_expectedPolicyId opt \<in> {None, Some p}"
  shows "let r = verifyAuditEvents h opt (JArr (log_events (audit e)))
    in (vr_ok r \<longleftrightarrow> (needs_anchor opt \<longrightarrow> list_ex is_anchor (log_events (audit e)))) \<and>
       (vr_ok r \<longrightarrow> vr_auditHeadHash r = Some (headHash (audit e)))"
proof -
  note t = started_trail [OF assms(1-5)]
  have "p \<noteq> []" using assms(4,5) by (rule policyId_text)
  from trail_accepted [OF t assms(6) this] trail_head [OF t] show ?thesis by (simp add: Let_def)
qed

theorem engine_log_verifies_witness:
  "\<exists>e'. evolves demo_host demo_engine demo_state 0 [(demo_intent, 12)] e' demo_next 12 \<and>
    vr_ok (verifyAuditEvents demo_host \<lparr>ao_expectedPolicyId = Some ''p'', ao_bestEffort = True, ao_requireStateAnchors = None\<rparr>
      (JArr (log_events (audit e'))))"
proof -
  obtain e' where run: "evolves demo_host demo_engine demo_state 0 [(demo_intent, 12)] e' demo_next 12"
    by (rule demo_steps_to)
  from engine_log_verifies [OF run demo_setup demo_host_ok(2) demo_policyId,
      of "\<lparr>ao_expectedPolicyId = Some ''p'', ao_bestEffort = True, ao_requireStateAnchors = None\<rparr>"] run
  show ?thesis by (auto simp: Let_def needs_anchor_def)
qed

text \<open>
  C21: The log is the record of the run. For the answers of a run, in order: an ALLOW has passed the checks
  before the body and its entry is the receipt of the intent, the decision and the authorization, with the
  id and the expiry of the authorization that was returned; the entries of all answers that passed these
  checks and did not end in \<open>INTERNAL_ERROR\<close> are in the log, in order; if no answer ended so, the log without
  its checkpoints is nothing but them; and without checkpointing every emitted authorization of the log,
  internal errors or not, is one of an ALLOW that was given, once, in order. The two conditions are needed: a
  checkpoint that throws turns a decision that is on record into an \<open>INTERNAL_ERROR\<close>.
\<close>
theorem run_on_record:
  assumes "answered h e0 st0 c0 xs e st c" and "audit e0 = new_log h" and "computePolicyId h e0 = Inr p"
  shows "(\<forall>x \<in> set xs. \<forall>a nx. a_result x = PAllow a nx \<longrightarrow> considered e0 x \<and>
       (\<exists>id ih k. intentHash h (a_intent x) = Inr ih \<and> getp a ''auth_id'' = JStr id \<and> getp a ''expiry'' = JNum k \<and>
          entry h p x = [event_intent ih (a_intent x) (jint (a_time x)) p,
            event_decision ih ''ALLOW'' [] (getp (a_state x) ''policy_version'') (jint (a_time x)) p,
            event_auth id ih k (jint (a_time x)) p])) \<and>
    subseq (concat (map (entry h p) (filter (\<lambda>x. considered e0 x \<and> \<not> crashed x) xs))) (journal (audit e)) \<and>
    ((\<forall>x \<in> set xs. \<not> crashed x) \<longrightarrow> journal (audit e) = concat (map (entry h p) (filter (considered e0) xs))) \<and>
    (checkpoint_every_n_events (opts e0) = None \<longrightarrow>
      filter is_emission (journal (audit e)) = concat (map (filter is_emission \<circ> entry h p) (filter admitted xs)))"
proof (intro conjI ballI allI impI)
  fix x a nx assume "x \<in> set xs" "a_result x = PAllow a nx"
  then show "considered e0 x" "\<exists>id ih k. intentHash h (a_intent x) = Inr ih \<and> getp a ''auth_id'' = JStr id \<and>
      getp a ''expiry'' = JNum k \<and> entry h p x = [event_intent ih (a_intent x) (jint (a_time x)) p,
        event_decision ih ''ALLOW'' [] (getp (a_state x) ''policy_version'') (jint (a_time x)) p,
        event_auth id ih k (jint (a_time x)) p]"
    by (auto elim!: admitted_entry [OF assms(1), where p = p])
qed (use run_journal(2-4) [OF assms] in simp_all)

theorem run_on_record_witness:
  "\<exists>e' id ih k. answered demo_host demo_engine demo_state 0
      [\<lparr>a_intent = demo_intent, a_state = demo_state, a_time = 12, a_result = PAllow demo_authorization demo_next\<rparr>]
      e' demo_next 12 \<and>
    getp demo_authorization ''auth_id'' = JStr id \<and>
    journal (audit e') = [event_intent ih demo_intent (jint 12) ''p'',
      event_decision ih ''ALLOW'' [] (getp demo_state ''policy_version'') (jint 12) ''p'', event_auth id ih k (jint 12) ''p'']"
proof -
  let ?x = "\<lparr>a_intent = demo_intent, a_state = demo_state, a_time = 12, a_result = PAllow demo_authorization demo_next\<rparr>"
  obtain e' where "evaluatePure demo_host demo_intent demo_state (jint 12) FailFast demo_engine =
      (Inr (PAllow demo_authorization demo_next), e')"
    by (rule demo_steps_to)
  then have run: "answered demo_host demo_engine demo_state 0 [?x] e' demo_next 12"
    using answers [OF begins, of 0 12] by fastforce
  note rec = run_on_record [OF run demo_setup(2) demo_policyId]
  from rec obtain id ih k where x: "considered demo_engine ?x" "getp demo_authorization ''auth_id'' = JStr id"
    and en: "entry demo_host ''p'' ?x = [event_intent ih demo_intent (jint 12) ''p'',
      event_decision ih ''ALLOW'' [] (getp demo_state ''policy_version'') (jint 12) ''p'', event_auth id ih k (jint 12) ''p'']"
    by fastforce
  have "journal (audit e') = concat (map (entry demo_host ''p'') (filter (considered demo_engine) [?x]))"
    using rec by (simp only: list.set crashed_def) simp
  then have "journal (audit e') = entry demo_host ''p'' ?x" using x(1) by simp
  with run x(2) en show ?thesis by metis
qed

end
