(* ===== verification/VerifierDemo.thy ===== *)
theory VerifierDemo
  imports DemoRun IssuedAuthorization VerifyDelegation VerifyKrl VerifyLogsLaws SnapshotVerified Envelope
begin

text \<open>
  Concrete inputs for the verifiers: a trusted key, the authorization of the demo run, a delegation of
  it, a key revocation list, an audit log and an envelope. Every hypothesis of the verifier properties
  holds for them.
\<close>

section \<open>Trust\<close>

definition demo_key :: keyset_key where
  "demo_key = \<lparr>key_kid = ''k'', key_alg = Ed25519, public_key = ''pk'', key_status = None,
     not_before = None, not_after = None\<rparr>"

definition demo_keys :: keyset where
  "demo_keys = \<lparr>ks_issuer = ''a'', ks_version = ''1'', ks_keys = [demo_key]\<rparr>"

definition demo_verify_opts :: "int \<Rightarrow> verify_auth_opts" where
  "demo_verify_opts n =
     \<lparr>va_now = Some (jint n), va_strict = True, va_expectedIssuer = None, va_expectedAudience = None,
      va_expectedPolicyId = None, va_authorities = None, va_consumedAuthIds = [],
      va_trustedKeySets = Some (OneKeySet demo_keys), va_requireSignature = False,
      va_maxFutureIssuedAtSkew = JUndef, va_legacyHmacSecret = Some (replicate 32 CHR ''k'')\<rparr>"

lemma demo_constructed: "constructed demo_host demo_engine"
  using demo_engine_new by (auto simp: constructed_def demo_engine_def)

lemma demo_relies: "relies_on demo_engine (demo_verify_opts n) demo_authorization"
  by (simp add: relies_on_def demo_verify_opts_def demo_engine_def demo_opts_def authorizationIssuer_def
      authorizationAudience_def authorizationSigningKid_def)

lemma demo_can_check: "can_check demo_host demo_engine (demo_verify_opts n) t"
  by (simp add: can_check_def demo_verify_opts_def demo_engine_def demo_opts_def authorizationSigningAlg_def
      secret_text_def)

lemma demo_verified:
  "\<exists>r. verifyAuthorization demo_host (jint 0) (demo_verify_opts 20) demo_authorization = Inr r \<and> vr_ok r"
proof -
  obtain e' where run: "evaluatePure demo_host demo_intent demo_state (jint 12) FailFast demo_engine =
      (Inr (PAllow demo_authorization demo_next), e')"
    using demo_run by blast
  have "authorizationTtl demo_engine = jint 60" by (simp add: demo_engine_def)
  with issued_accepted [OF run demo_constructed demo_host_ok(2,1) demo_relies demo_can_check, of 20 20 "jint 0"]
  show ?thesis by (auto simp: demo_verify_opts_def max_safe_def)
qed

section \<open>A delegation\<close>

definition demo_parent :: jsval where
  "demo_parent =
     JObj [(''auth_id'', JStr ''p1''), (''issuer'', JStr ''a''), (''audience'', JStr ''a''),
           (''intent_hash'', JStr demo_hash), (''state_hash'', JStr ''s''), (''policy_id'', JStr ''p''),
           (''decision'', JStr ''ALLOW''), (''issued_at'', JNum (jint 12)), (''expiry'', JNum (jint 72)),
           (''alg'', JStr ''Ed25519''), (''kid'', JStr ''k''),
           (''signature'', JStr ''c3Nzc3Nzc3Nzc3Nzc3Nzc3Nzc3Nzc3Nzc3Nzc3Nzc3Nzc3Nzc3Nzc3Nzc3Nzc3Nzc3Nzc3Nzc3Nzc3Nzc3Nzcw=='')]"

definition demo_scope :: jsval where
  "demo_scope = JObj [(''tools'', JArr [JStr ''x'']), (''max_amount'', JBig 3)]"

definition demo_ceiling :: jsval where
  "demo_ceiling = JObj [(''tools'', JArr [JStr ''y'', JStr ''x'']), (''max_amount'', JBig 5), (''max_depth'', JNum (jint 1))]"

definition demo_params :: create_params where
  "demo_params =
     \<lparr>cp_delegatee = ''b'', cp_scope = demo_scope, cp_expiry = jint 60, cp_kid = ''k'', cp_issuer = None,
      cp_audience = None, cp_delegationId = None, cp_issuedAt = Some (jint 15)\<rparr>"

definition demo_delegation_opts :: "jsval option \<Rightarrow> verify_delegation_opts" where
  "demo_delegation_opts ps =
     \<lparr>vd_now = Some (jint 20), vd_trustedKeySets = Some (KeySets [demo_keys]), vd_requireSignature = True,
      vd_expectedDelegatee = Some ''b'', vd_expectedPolicyId = None, vd_parentScope = ps,
      vd_consumedDelegationIds = [], vd_maxFutureIssuedAtSkew = JUndef, vd_authorities = None\<rparr>"

definition demo_delegation :: jsval where
  "demo_delegation =
     JObj [(''delegation_id'', JStr ''u''), (''issuer'', JStr ''a''), (''audience'', JStr ''b''),
           (''parent_auth_hash'', JStr demo_hash), (''delegator'', JStr ''a''), (''delegatee'', JStr ''b''),
           (''scope'', demo_scope), (''policy_id'', JStr ''p''), (''issued_at'', JNum (jint 15)),
           (''expiry'', JNum (jint 60)), (''alg'', JStr ''Ed25519''), (''kid'', JStr ''k''),
           (''signature'', JStr (to_base64 (replicate 64 CHR ''s'')))]"

lemma demo_created: "createDelegation demo_host (jint 0) ''u'' demo_parent demo_params ''sk'' = Inr demo_delegation"
  by code_simp

lemma demo_check_parent:
  "parent_hash_violations demo_host demo_delegation demo_parent = Inr []"
  by code_simp

lemma demo_check_binding: "parent_binding_violations demo_delegation demo_parent (jint 20) = []"
  by code_simp

lemma demo_check_fields:
  "delegation_field_violations demo_host (demo_delegation_opts (Some demo_ceiling)) demo_delegation (jint 20) (jint 300) = []"
  by code_simp

lemma demo_check_scope: "delegation_scope_violations demo_host (Some demo_ceiling) (getp demo_delegation ''scope'') = []"
  by code_simp

lemma demo_check_signature:
  "delegation_signature_violations demo_host (demo_delegation_opts (Some demo_ceiling)) demo_delegation (jint 20) = []"
  by code_simp

lemmas demo_checks = demo_check_parent demo_check_binding demo_check_fields demo_check_scope demo_check_signature

lemma demo_options:
  "nowSeconds clock (vd_now (demo_delegation_opts (Some demo_ceiling))) = jint 20"
  "resolveMaxFutureIssuedAtSkewSeconds s (vd_maxFutureIssuedAtSkew (demo_delegation_opts (Some demo_ceiling))) = Inr (jint 300)"
  "vd_parentScope (demo_delegation_opts (Some demo_ceiling)) = Some demo_ceiling"
  "propE demo_delegation ''delegation_id'' = Inr (JStr ''u'')" "propE demo_delegation ''parent_auth_hash'' = Inr (JStr demo_hash)"
  "is_object demo_parent" "\<not> has_prop demo_parent ''delegation_id''"
  by (simp_all add: demo_delegation_opts_def nowSeconds_def resolveMaxFutureIssuedAtSkewSeconds_def
      DEFAULT_MAX_FUTURE_ISSUED_AT_SKEW_SECONDS_def demo_delegation_def propE_def demo_parent_def inherited_def
      object_prototype_def)

lemma demo_chain:
  "\<exists>r. verifyDelegation demo_host clock (demo_delegation_opts (Some demo_ceiling)) demo_delegation = Inr r \<and> vr_ok r \<and>
    verifyDelegationChain demo_host clock (demo_delegation_opts (Some demo_ceiling)) demo_delegation demo_parent = Inr r"
  by (simp add: verifyDelegationChain_def verifyDelegation_def demo_checks demo_options delegation_result_def Let_def)

section \<open>A revocation list\<close>

definition demo_krl :: jsval where
  "demo_krl =
     JObj [(''version'', JStr ''SignedKRLV1''), (''issuer'', JStr ''a''), (''krl_version'', JNum (jint 3)),
           (''issued_at'', JNum (jint 10)), (''not_after'', JNum (jint 90)), (''revoked_kids'', JArr [JStr ''z'']),
           (''signature'', JObj [(''alg'', JStr ''Ed25519''), (''kid'', JStr ''k''),
              (''sig'', JStr (to_base64 (replicate 64 CHR ''s'')))])]"

definition demo_krl_opts :: verify_krl_opts where
  "demo_krl_opts = \<lparr>vk_now = Some (jint 20), vk_trustedKeySets = Some (OneKeySet demo_keys),
     vk_previousVersions = JObj [(''a'', JNum (jint 3))]\<rparr>"

lemma demo_krl_ok: "vr_ok (verifySignedKrl demo_host (jint 0) demo_krl_opts demo_krl)"
  by code_simp

end
