(* ===== verification/VerifierProperties.thy ===== *)
theory VerifierProperties
  imports VerifierDemo
begin

text \<open>
  The properties of the verifiers: what a relying party may conclude from an accepted artifact, and that
  the artifacts of the engine are accepted.
\<close>

section \<open>Authorizations\<close>

text \<open>
  C31: Strict verification never succeeds without cryptography. An accepted result in strict mode says that
  the signature was verified over the full payload, by a key of a trusted key set of the issuer that is
  active at the verification time, or by the configured shared secret; and all checks of the fields,
  the expiry, the expectations and the consumed ids hold.
\<close>
theorem strict_acceptance:
  assumes "verifyAuthorization h clock opt auth = Inr r" and "vr_ok r" and "va_strict opt"
  shows "signatureVerified r \<and> verificationCoverage r = AuthorizationV1Full \<and>
    (\<exists>skew. fields_accepted h opt auth (nowSeconds clock (va_now opt)) skew) \<and>
    ((\<exists>ks \<in> set (trusted_list (va_trustedKeySets opt)). \<exists>k \<in> set (ks_keys ks).
        getp auth ''issuer'' = JStr (ks_issuer ks) \<and> sp_kid (signatureParts auth) = JStr (key_kid k) \<and>
        key_alg k = Ed25519 \<and> keyIsActiveAt k (nowSeconds clock (va_now opt)) \<and>
        (verifyEd25519 h AUTH_V1 (authorizationSigningPayload auth) (sp_sig (signatureParts auth)) (public_key k) \<or>
         verifyEd25519Raw h (authorizationSigningPayload auth) (sp_sig (signatureParts auth)) (public_key k))) \<or>
     (\<exists>s. va_legacyHmacSecret opt = Some s \<and> s \<noteq> [] \<and> sp_alg (signatureParts auth) = JStr ''HMAC-SHA256'' \<and>
        verifyHmacDomain h AUTH_V1 (authorizationSigningPayload auth) (sp_sig (signatureParts auth)) s))"
proof -
  obtain skew where f: "fields_accepted h opt auth (nowSeconds clock (va_now opt)) skew"
    and o: "signature_outcome h opt auth (trusted_of opt) (nowSeconds clock (va_now opt)) =
      ([], signatureVerified r, verificationCoverage r)"
    using assms(1,2) by (rule verifyAuthorization_okE)
  from f have "has_text (sp_alg (signatureParts auth))" "has_text (sp_kid (signatureParts auth))"
    "has_text (sp_sig (signatureParts auth))"
    by (simp_all add: fields_accepted_def)
  from signature_outcome_ok [OF o disjI1 [OF assms(3)] this] f show ?thesis by blast
qed

theorem strict_acceptance_witness:
  "\<exists>r. verifyAuthorization demo_host (jint 0) (demo_verify_opts 20) demo_authorization = Inr r \<and> signatureVerified r"
proof -
  obtain r where "verifyAuthorization demo_host (jint 0) (demo_verify_opts 20) demo_authorization = Inr r" "vr_ok r"
    using demo_verified by blast
  with strict_acceptance [OF this] show ?thesis by (simp add: demo_verify_opts_def)
qed

text \<open>
  C32: What the engine issues, the independent verifier accepts, exactly within its lifetime. For every
  ALLOW of a properly constructed engine and a relying party that trusts its key, the verifier returns,
  and it accepts the authorization if and only if it is not from more than 300 seconds in the future and
  the time to live has not passed; an accepted one is signature-verified.
\<close>
theorem issued_authorization_verifies:
  assumes "evaluatePure h i st (jint s) mode e = (Inr (PAllow a nx), e')" and "constructed h e"
    and "hex_digests h" and "nfc_ok h" and "relies_on e opt a" and "can_check h e opt (jint n)"
    and "va_now opt = Some (jint n)" and "0 \<le> n" and "n + 300 \<le> max_safe"
  shows "\<exists>r ttl. verifyAuthorization h clock opt a = Inr r \<and> authorizationTtl e = jint ttl \<and>
    (vr_ok r \<longleftrightarrow> s \<le> n + 300 \<and> n < s + ttl) \<and> (vr_ok r \<longrightarrow> signatureVerified r)"
  using assms by (rule issued_accepted)

theorem issued_authorization_verifies_witness:
  "(\<exists>r. verifyAuthorization demo_host (jint 0) (demo_verify_opts 71) demo_authorization = Inr r \<and> vr_ok r) \<and>
   (\<exists>r. verifyAuthorization demo_host (jint 0) (demo_verify_opts 72) demo_authorization = Inr r \<and> \<not> vr_ok r)"
proof -
  obtain e' where run: "evaluatePure demo_host demo_intent demo_state (jint 12) FailFast demo_engine =
      (Inr (PAllow demo_authorization demo_next), e')"
    using demo_run by blast
  have ttl: "authorizationTtl demo_engine = jint 60" by (simp add: demo_engine_def)
  have now: "va_now (demo_verify_opts n) = Some (jint n)" for n by (simp add: demo_verify_opts_def)
  note v = issued_authorization_verifies [OF run demo_constructed demo_host_ok(2,1) demo_relies demo_can_check now,
      where clock = "jint 0"]
  from v [of 71] v [of 72] ttl show ?thesis by (auto simp: max_safe_def)
qed

text \<open>
  The engine accepts its own authorizations: against a state with the same policy version its
  verification is valid exactly before the expiry, and reports the expiry from then on.
\<close>
theorem engine_verifies_own:
  assumes "evaluatePure h i st (jint s) mode e = (Inr (PAllow a nx), e')" and "constructed h e"
    and "propE st' ''policy_version'' = Inr (getp st ''policy_version'')"
  shows "\<exists>ttl. authorizationTtl e = jint ttl \<and>
    engine_verifyAuthorization h e clock i a st' (JNum (jint n)) =
      (if n < s + ttl
       then \<lparr>valid = True, ev_reason = None, ev_signatureVerified = True, ev_mode = Permissive, ev_coverage = EngineHmacSubset\<rparr>
       else \<lparr>valid = False, ev_reason = Some reason.AUTH_EXPIRED, ev_signatureVerified = False, ev_mode = Permissive,
             ev_coverage = CovNone\<rparr>)"
  using assms by (rule engine_accepts_issued)

theorem engine_verifies_own_witness:
  "valid (engine_verifyAuthorization demo_host demo_engine (jint 0) demo_intent demo_authorization demo_state (JNum (jint 71))) \<and>
   \<not> valid (engine_verifyAuthorization demo_host demo_engine (jint 0) demo_intent demo_authorization demo_state (JNum (jint 72)))"
proof -
  obtain e' where run: "evaluatePure demo_host demo_intent demo_state (jint 12) FailFast demo_engine =
      (Inr (PAllow demo_authorization demo_next), e')"
    using demo_run by blast
  have "authorizationTtl demo_engine = jint 60" "propE demo_state ''policy_version'' = Inr (getp demo_state ''policy_version'')"
    by (simp_all add: demo_engine_def demo_state_def propE_def)
  with engine_verifies_own [OF run demo_constructed, of demo_state "jint 0"] show ?thesis by auto
qed

end
