(* ===== verification/ArtifactProperties.thy ===== *)
theory ArtifactProperties
  imports VerifierDemo
begin

text \<open>
  The properties of delegations, revocation lists, audit logs, snapshots and envelopes.
\<close>

section \<open>Delegations\<close>

text \<open>
  C33: Delegation never widens authority. If a delegation is accepted against a parent scope, its own scope
  is well-typed and its effective scope, inherited fields included, lies within the parent's in every
  field: tools are a subset, amount, actions and depth are at most the parent's.
\<close>
theorem accepted_delegation_narrows:
  assumes "verifyDelegation h clock opt d = Inr r" and "vr_ok r" and "vd_parentScope opt = Some ps"
  shows "typed_scope (getp d ''scope'') \<and> within_scope (resolveEffectiveChildScope (getp d ''scope'') ps) ps"
  using assms by (rule accepted_scope)

theorem accepted_delegation_narrows_witness:
  "typed_scope demo_scope \<and> within_scope (resolveEffectiveChildScope demo_scope demo_ceiling) demo_ceiling"
proof -
  obtain r where "verifyDelegation demo_host (jint 0) (demo_delegation_opts (Some demo_ceiling)) demo_delegation = Inr r" "vr_ok r"
    using demo_chain by blast
  from accepted_delegation_narrows [OF this demo_options(3)] show ?thesis by (simp add: demo_delegation_def)
qed

text \<open>
  C34: An accepted chain is bound to its parent: the parent is no delegation, the delegation names the hash
  of exactly the parent's public fields, the delegator is the parent's audience, the policies agree, the
  parent has not expired and the delegation does not outlive it, each where both sides state the field.
\<close>
theorem accepted_chain_bound:
  assumes "verifyDelegationChain h clock opt d parent = Inr r" and "vr_ok r"
  shows "\<not> has_prop parent ''delegation_id'' \<and>
    (\<exists>s. delegationParentHash h parent = Inr s \<and> getp d ''parent_auth_hash'' = JStr s) \<and>
    (has_text (getp parent ''audience'') \<longrightarrow> has_text (getp d ''delegator'') \<longrightarrow> getp d ''delegator'' = getp parent ''audience'') \<and>
    (has_text (getp parent ''policy_id'') \<longrightarrow> has_text (getp d ''policy_id'') \<longrightarrow> getp d ''policy_id'' = getp parent ''policy_id'') \<and>
    (\<forall>x y. getp parent ''expiry'' = JNum (jint x) \<longrightarrow> getp d ''expiry'' = JNum (jint y) \<longrightarrow>
       y \<le> x \<and> (\<forall>n. nowSeconds clock (vd_now opt) = jint n \<longrightarrow> n < x))"
  using assms
proof (rule chain_okE)
  assume "parent_binding_violations d parent (nowSeconds clock (vd_now opt)) = []"
    "\<not> has_prop parent ''delegation_id''"
    "\<exists>s. delegationParentHash h parent = Inr s \<and> getp d ''parent_auth_hash'' = JStr s"
  then show ?thesis by (auto simp: parent_binding_violations_def)
qed

theorem accepted_chain_bound_witness:
  "\<exists>s. delegationParentHash demo_host demo_parent = Inr s \<and> getp demo_delegation ''parent_auth_hash'' = JStr s"
proof -
  obtain r where "verifyDelegationChain demo_host (jint 0) (demo_delegation_opts (Some demo_ceiling)) demo_delegation demo_parent
      = Inr r" "vr_ok r"
    using demo_chain by blast
  from accepted_chain_bound [OF this] show ?thesis by blast
qed

text \<open>
  C35: What \<open>createDelegation\<close> signs, \<open>verifyDelegationChain\<close> accepts: for a parent that can be delegated,
  well-formed parameters, a relying party that trusts the signing key and any time between issue (less
  the skew) and expiry.
\<close>
theorem created_delegation_verifies:
  assumes "createDelegation h clock uuid parent params sk = Inr d" and "delegable parent x"
    and "good_params h params uuid" and "expects opt params uuid parent"
    and "trusts_key h opt (created_issuer params parent) (cp_kid params) sk (jint n)"
    and "cp_issuedAt params = Some (jint n0)" and "cp_expiry params = jint y" and "vd_now opt = Some (jint n)"
    and "0 \<le> n0" "n0 < y" "y \<le> x" "y \<le> max_safe" "0 \<le> n" "n0 \<le> n + 300" "n < y" "n + 300 \<le> max_safe"
    and "hex_digests h"
  shows "\<exists>r. verifyDelegationChain h clock' opt d parent = Inr r \<and> vr_ok r"
  using assms by (rule created_chain_accepted)

theorem created_delegation_verifies_witness:
  "\<exists>r. verifyDelegationChain demo_host (jint 7) (demo_delegation_opts None) demo_delegation demo_parent = Inr r \<and> vr_ok r"
proof (rule created_delegation_verifies [OF demo_created, where n = 20 and ?n0.0 = 15 and y = 60 and x = 72])
  have key: "wire_key demo_host (normalizePem (public_key demo_key)) = Inr (Some (replicate 64 CHR ''1''))"
    "replicate 64 CHR ''1'' \<notin> set SMALL_ORDER_ED25519"
    "findKeyInKeySets (trusted_list (vd_trustedKeySets (demo_delegation_opts None)))
       (created_issuer demo_params demo_parent) (JStr (cp_kid demo_params)) Ed25519 = Some demo_key"
    "keyIsActiveAt demo_key (jint 20)"
    by code_simp+
  with demo_host_ok(3) show "trusts_key demo_host (demo_delegation_opts None) (created_issuer demo_params demo_parent)
      (cp_kid demo_params) ''sk'' (jint 20)"
    unfolding trusts_key_def by blast
  show "delegable demo_parent 72"
    by (simp add: delegable_def demo_parent_def inherited_def object_prototype_def)
  show "good_params demo_host demo_params ''u''"
    by (simp add: good_params_def demo_params_def created_id_def created_audience_def demo_host_def typed_scope_def
        demo_scope_def inherited_def object_prototype_def)
  show "expects (demo_delegation_opts None) demo_params ''u'' demo_parent"
    by (simp add: expects_def demo_delegation_opts_def demo_params_def)
qed (simp_all add: demo_params_def demo_delegation_opts_def demo_host_ok max_safe_def)

section \<open>Revocation lists\<close>

text \<open>
  C36: An accepted key revocation list is genuine, current and monotone: it is well-formed without duplicate
  entries, it has not expired, its version is not below the last accepted version of its issuer, and its
  signature verifies under an active Ed25519 key of a trusted key set of the issuer; and the signed bytes
  determine every field that \<open>signedKrlSigningPayload\<close> covers, up to canonical form, for no other signing
  domain.
\<close>
theorem accepted_krl_genuine:
  assumes "vr_ok (verifySignedKrl h clock opt e)"
  shows "krl_wellformed e \<and> \<not> js_le (getp e ''not_after'') (JNum (nowSeconds clock (vk_now opt))) \<and>
    (\<forall>s v n. getp e ''issuer'' = JStr s \<longrightarrow> getp (vk_previousVersions opt) s = JNum (jint v) \<longrightarrow>
       getp e ''krl_version'' = JNum (jint n) \<longrightarrow> vk_previousVersions opt \<noteq> JUndef \<longrightarrow> v \<le> n) \<and>
    (\<exists>ks \<in> set (trusted_list (vk_trustedKeySets opt)). \<exists>k \<in> set (ks_keys ks).
       getp e ''issuer'' = JStr (ks_issuer ks) \<and> key_alg k = Ed25519 \<and>
       keyIsActiveAt k (nowSeconds clock (vk_now opt)) \<and>
       verifyEd25519 h KRL_V1 (signedKrlSigningPayload e) (getp (getp e ''signature'') ''sig'') (public_key k)) \<and>
    (\<forall>m d v. signatureInput h KRL_V1 (signedKrlSigningPayload e) = Inr m \<longrightarrow> signatureInput h d v = Inr m \<longrightarrow>
       d = KRL_V1 \<and> nform h v = nform h (signedKrlSigningPayload e))"
proof -
  note ok = verifySignedKrl_ok [OF assms]
  have "v \<le> n" if "getp e ''issuer'' = JStr s" "getp (vk_previousVersions opt) s = JNum (jint v)"
    "getp e ''krl_version'' = JNum (jint n)" "vk_previousVersions opt \<noteq> JUndef" for s v n
    using ok(5) that by (simp add: krl_version_violations_def)
  with ok(2,4) krl_key_Nil [OF ok(6)] krl_payload_binds [of h e] show ?thesis by blast
qed

theorem accepted_krl_genuine_witness: "krl_wellformed demo_krl"
  using accepted_krl_genuine [OF demo_krl_ok] by blast

end
