(* ===== verification/EnvelopeRoundtrip.thy ===== *)
theory EnvelopeRoundtrip
  imports Envelope SnapshotVerified
begin

text \<open>
  Encoding and decoding of envelopes: what \<open>encodeEnvelope\<close> prints, \<open>decodeEnvelope\<close> reads back as the same
  envelope, for envelopes whose texts are in normal form.
\<close>

section \<open>Base64 text\<close>

lemma b64_text_alphabet:
  "\<exists>body pad. to_base64 bs = body @ pad \<and> set body \<subseteq> set b64_alphabet \<and> (bs \<noteq> [] \<longrightarrow> body \<noteq> []) \<and>
    (pad = [] \<or> pad = ''='' \<or> pad = ''=='')"
proof -
  have al: "b64_alphabet ! i \<in> set b64_alphabet" if "i < 64" for i
    using that by (intro nth_mem) (simp add: b64_alphabet_def)
  have "\<exists>body pad. b64_encode b64_alphabet True bs = body @ pad \<and> set body \<subseteq> set b64_alphabet \<and>
      (bs \<noteq> [] \<longrightarrow> body \<noteq> []) \<and> (pad = [] \<or> pad = ''='' \<or> pad = ''=='')"
  proof (induction bs rule: induct_list3)
    case Nil
    show ?case by simp
  next
    case (one a)
    show ?case
      by (intro exI [of _ "[b64_alphabet ! (of_char a div 4), b64_alphabet ! (of_char a mod 4 * 16)]"] exI [of _ "''==''"])
        (simp add: Let_def al byte_parts)
  next
    case (two a b)
    show ?case
      by (intro exI [of _ "[b64_alphabet ! (of_char a div 4), b64_alphabet ! (of_char a mod 4 * 16 + of_char b div 16),
            b64_alphabet ! (of_char b mod 16 * 4)]"] exI [of _ "''=''"])
        (simp add: Let_def al byte_parts)
  next
    case (three a b c r)
    then obtain body pad where "b64_encode b64_alphabet True r = body @ pad" "set body \<subseteq> set b64_alphabet"
      "pad = [] \<or> pad = ''='' \<or> pad = ''==''" by blast
    then show ?case
      by (intro exI [of _ "[b64_alphabet ! (of_char a div 4), b64_alphabet ! (of_char a mod 4 * 16 + of_char b div 16),
            b64_alphabet ! (of_char b mod 16 * 4 + of_char c div 64), b64_alphabet ! (of_char c mod 64)] @ body"]
          exI [of _ pad])
        (simp add: Let_def al byte_parts)
  qed
  then show ?thesis by (simp add: to_base64_def)
qed

lemma alphabet_facts: "list_all (\<lambda>c. c \<noteq> CHR ''='' \<and> (of_char c :: nat) < 128) b64_alphabet"
  by code_simp

lemma while_parts:
  assumes "set body \<subseteq> A" and "pad = [] \<or> hd pad \<notin> A"
  shows "takeWhile (\<lambda>c. c \<in> A) (body @ pad) = body" and "dropWhile (\<lambda>c. c \<in> A) (body @ pad) = pad"
proof -
  have "\<forall>c \<in> set body. c \<in> A" using assms(1) by blast
  moreover have "takeWhile (\<lambda>c. c \<in> A) pad = []" "dropWhile (\<lambda>c. c \<in> A) pad = pad"
    using assms(2) by (cases pad; simp)+
  ultimately show "takeWhile (\<lambda>c. c \<in> A) (body @ pad) = body" "dropWhile (\<lambda>c. c \<in> A) (body @ pad) = pad"
    by simp_all
qed

lemma to_base64_text:
  shows "bs \<noteq> [] \<Longrightarrow> base64_text (to_base64 bs)" and "is_ascii (to_base64 bs)"
proof -
  obtain body pad where b: "to_base64 bs = body @ pad" "set body \<subseteq> set b64_alphabet" "bs \<noteq> [] \<longrightarrow> body \<noteq> []"
    "pad = [] \<or> pad = ''='' \<or> pad = ''==''"
    using b64_text_alphabet by blast
  have "CHR ''='' \<notin> set b64_alphabet" using alphabet_facts by (auto simp only: list_all_iff)
  then have "pad = [] \<or> hd pad \<notin> set b64_alphabet" using b(4) by auto
  note parts = while_parts [OF b(2) this]
  show "base64_text (to_base64 bs)" if "bs \<noteq> []"
    using b(3,4) that unfolding base64_text_def b(1) parts Let_def by blast
  have "is_ascii body" using b(2) alphabet_facts by (auto simp only: is_ascii_def list_all_iff)
  moreover have "is_ascii pad" using b(4) by (auto simp: is_ascii_def)
  ultimately show "is_ascii (to_base64 bs)" by (simp only: b(1) is_ascii_append)
qed

section \<open>The wire object\<close>

definition normal_text :: "host \<Rightarrow> string option \<Rightarrow> bool" where
  "normal_text h x = (case x of None \<Rightarrow> True | Some s \<Rightarrow> nfc h s = s)"

text \<open>An envelope as its type allows it, with its texts and events in normal form.\<close>

definition good_envelope :: "host \<Rightarrow> envelope \<Rightarrow> bool" where
  "good_envelope h env =
     (env_formatVersion env = JNum (jint 1) \<and> env_snapshot env \<noteq> [] \<and>
      (case env_events env of JArr es \<Rightarrow> list_all (\<lambda>e. validateAuditEventJson e = [] \<and> nform h e = e) es | _ \<Rightarrow> False) \<and>
      normal_text h (env_issuer env) \<and> normal_text h (env_kid env) \<and> normal_text h (env_signature env) \<and>
      env_alg env \<in> {None, Some ''Ed25519''} \<and>
      (env_signature env \<noteq> None \<longrightarrow>
         \<not> no_text (env_issuer env) \<and> \<not> no_text (env_kid env) \<and> env_alg env = Some ''Ed25519''))"

abbreviation wire_list :: "envelope \<Rightarrow> jsval list \<Rightarrow> (string \<times> jsval) list" where
  "wire_list env es \<equiv> wire_fields env es @ text_entry ''signature'' (env_signature env)"

lemma clone_events_Inr: "clone_events (JArr es) = Inr xs \<Longrightarrow> xs = es \<and> (\<forall>e \<in> set es. structuredClone e = Inr e)"
proof -
  have "mapE structuredClone es = Inr xs \<Longrightarrow> xs = es \<and> (\<forall>e \<in> set es. structuredClone e = Inr e)"
    by (induction es arbitrary: xs) (auto simp: bindE_eq_Inr structuredClone_def split: if_splits)
  then show "clone_events (JArr es) = Inr xs \<Longrightarrow> xs = es \<and> (\<forall>e \<in> set es. structuredClone e = Inr e)"
    by (simp add: clone_events_def)
qed

lemma valid_event_plain: "validateAuditEventJson e = [] \<Longrightarrow> is_plain e"
  by (auto simp: validateAuditEventJson_def split: if_splits)

lemma mapE_same: "\<forall>e \<in> set es. f e = Inr e \<Longrightarrow> mapE f es = Inr es"
  by (induction es) auto

lemma indexed_issues_Nil: "indexed_issues p xs = [] \<longleftrightarrow> list_all (\<lambda>e. validateAuditEventJson e = []) xs"
proof -
  have "indexed_issues p xs = [] \<longleftrightarrow> (\<forall>(i, x) \<in> set (enumerate 0 xs). validateAuditEventJson x = [])"
    by (auto simp: indexed_issues_def)
  also have "\<dots> \<longleftrightarrow> (\<forall>x \<in> snd ` set (enumerate 0 xs). validateAuditEventJson x = [])" by auto
  also have "snd ` set (enumerate 0 xs) = set xs"
    using map_snd_enumerate [of 0 xs] by (metis list.set_map)
  finally show ?thesis by (simp add: list_all_iff)
qed

lemma nform_keys: "set (obj_keys (nform h (JObj kvs))) = nfc h ` fst ` set kvs"
  by (auto simp: nform_obj obj_keys_def normalizeEntries_def image_iff simp del: nform.simps(4)) force+

section \<open>Decoding an encoded envelope\<close>

lemma wire_keys:
  "distinct (map fst (wire_list env es))" "list_all is_ascii (map fst (wire_list env es))"
  "set (map fst (wire_list env es)) \<subseteq> {''formatVersion'', ''snapshot'', ''events'', ''issuer'', ''alg'', ''kid'', ''signature''}"
  by (auto simp: wire_fields_def text_entry_def is_ascii_def split: option.split)

lemma wire_keys_normal:
  assumes "nfc_ok h"
  shows "nfc h ` fst ` set (wire_list env es) = fst ` set (wire_list env es)"
proof -
  have "nfc h k = k" if "k \<in> fst ` set (wire_list env es)" for k
    using wire_keys(2) [of env es] that nfc_ascii [OF assms] unfolding list_all_iff list.set_map by blast
  then have "nfc h ` fst ` set (wire_list env es) = (\<lambda>k. k) ` fst ` set (wire_list env es)"
    by (intro image_cong refl)
  then show ?thesis by (simp only: image_ident)
qed

lemma wire_lookup:
  "map_of (wire_list env es) k =
    (if k = ''formatVersion'' then Some (JNum (jint 1))
     else if k = ''snapshot'' then Some (JStr (to_base64 (env_snapshot env)))
     else if k = ''events'' then Some (JArr es)
     else if k = ''issuer'' then map_option JStr (env_issuer env)
     else if k = ''alg'' then map_option JStr (env_alg env)
     else if k = ''kid'' then map_option JStr (env_kid env)
     else if k = ''signature'' then map_option JStr (env_signature env) else None)"
  unfolding wire_fields_def text_entry_def
  by (cases "env_issuer env"; cases "env_alg env"; cases "env_kid env"; cases "env_signature env") simp_all

lemma wire_form:
  assumes "nfc_ok h" and "good_envelope h env" and "env_events env = JArr es"
    and k: "k \<in> {''formatVersion'', ''snapshot'', ''events'', ''issuer'', ''alg'', ''kid'', ''signature''}"
  shows "getp (nform h (JObj (wire_list env es))) k = (case map_of (wire_list env es) k of None \<Rightarrow> JUndef | Some v \<Rightarrow> v)"
    and "has_prop (nform h (JObj (wire_list env es))) k \<longleftrightarrow> map_of (wire_list env es) k \<noteq> None"
proof -
  have inh: "inherited k = JUndef" "k \<notin> set object_prototype"
    using k by (auto simp: inherited_def object_prototype_def)
  have same: "nform h v = v" if "map_of (wire_list env es) k = Some v" for v
  proof -
    have "map (nform h) es = es"
      using assms(2,3) by (intro map_idI) (auto simp: good_envelope_def list_all_iff)
    moreover have "nfc h (to_base64 (env_snapshot env)) = to_base64 (env_snapshot env)"
      by (rule nfc_ascii [OF assms(1) to_base64_text(2)])
    moreover have "nfc h ''Ed25519'' = ''Ed25519''" by (rule nfc_ascii [OF assms(1)]) (simp add: is_ascii_def)
    ultimately show ?thesis
      using that assms(2) unfolding wire_lookup
      by (auto simp: good_envelope_def normal_text_def split: if_splits option.splits)
  qed
  have "getp (nform h (JObj (wire_list env es))) k = nform h (getp (JObj (wire_list env es)) k)"
    by (rule nform_getp [OF assms(1) wire_keys(2,1) inh(1)])
  then show "getp (nform h (JObj (wire_list env es))) k = (case map_of (wire_list env es) k of None \<Rightarrow> JUndef | Some v \<Rightarrow> v)"
    using same inh(1) by (cases "map_of (wire_list env es) k") (simp_all del: nform.simps(4) map_of_append)
  obtain ms where ms: "nform h (JObj (wire_list env es)) = JObj ms" by simp
  have "fst ` set ms = nfc h ` fst ` set (wire_list env es)"
    using nform_keys [of h "wire_list env es"] by (simp add: ms obj_keys_def del: nform.simps(4))
  also have "\<dots> = fst ` set (wire_list env es)"
    by (rule wire_keys_normal [OF assms(1)])
  finally have "map_of ms k \<noteq> None \<longleftrightarrow> map_of (wire_list env es) k \<noteq> None"
    by (simp only: map_of_eq_None_iff)
  then show "has_prop (nform h (JObj (wire_list env es))) k \<longleftrightarrow> map_of (wire_list env es) k \<noteq> None"
    using inh(2) by (simp add: ms del: nform.simps(4))
qed

lemma wire_valid:
  assumes "nfc_ok h" and "good_envelope h env" and "env_events env = JArr es"
  shows "validateVerificationEnvelopeWireJson (nform h (JObj (wire_list env es))) = []"
proof -
  let ?v = "nform h (JObj (wire_list env es))"
  note f = wire_form [OF assms]
  have "set (obj_keys ?v) = nfc h ` fst ` set (wire_list env es)" by (rule nform_keys)
  also have "\<dots> = fst ` set (wire_list env es)"
    by (rule wire_keys_normal [OF assms(1)])
  also have "\<dots> \<subseteq> {''formatVersion'', ''snapshot'', ''events'', ''issuer'', ''alg'', ''kid'', ''signature''}"
    using wire_keys(3) [of env es] by (simp only: list.set_map)
  finally have keys: "set (obj_keys ?v) \<subseteq> set ([''formatVersion'', ''snapshot'', ''events''] @ [''issuer'', ''alg'', ''kid'', ''signature''])"
    by auto
  have plain: "is_plain ?v" by (simp only: nform_plain) simp
  have events: "indexed_issues ''$.events'' es = []"
    using assms(2,3) by (auto simp: indexed_issues_Nil good_envelope_def list_all_iff)
  have b64: "base64_text (to_base64 (env_snapshot env))"
    using assms(2) by (intro to_base64_text(1)) (simp add: good_envelope_def)
  have sig: "env_signature env = None \<or>
      (\<exists>i c. env_issuer env = Some i \<and> i \<noteq> [] \<and> env_kid env = Some c \<and> c \<noteq> [] \<and> env_alg env = Some ''Ed25519'')"
    using assms(2) by (auto simp: good_envelope_def no_text_def split: option.splits list.splits)
  have alg: "env_alg env = None \<or> env_alg env = Some ''Ed25519''" using assms(2) by (simp add: good_envelope_def)
  show ?thesis
    unfolding validateVerificationEnvelopeWireJson_def Let_def
    using plain keys events b64 alg sig
    by (auto simp: f wire_lookup has_bad_def simp del: nform.simps(4) map_of_append split: option.split)
qed

theorem decode_encode_envelope:
  assumes "nfc_ok h" and "good_envelope h env" and "encodeEnvelope h env = Inr bytes"
  shows "decodeEnvelope bytes = Inr env"
proof -
  obtain es where es: "env_events env = JArr es"
    using assms(2) by (auto simp: good_envelope_def split: jsval.splits)
  let ?v = "nform h (JObj (wire_list env es))"
  obtain w where w: "toWire env = Inr w" and c: "canonicalJson h w = Inr bytes"
    using assms(2,3) es by (auto simp: encodeEnvelope_def good_envelope_def bindE_eq_Inr)
  then have clone: "\<forall>e \<in> set es. structuredClone e = Inr e" and ww: "w = JObj (wire_list env es)"
    using es by (auto simp: toWire_def bindE_eq_Inr dest!: clone_events_Inr)
  note f = wire_form [OF assms(1,2) es]
  have parsed: "json_parse (text_decode bytes) = Inr ?v"
    using parse_canonical [OF c] text_decode_object [OF c [unfolded ww]] by (simp only: ww)
  have plain: "is_plain ?v" by (simp only: nform_plain) simp
  have "list_all is_plain es"
    using assms(2) es by (auto simp: good_envelope_def list_all_iff valid_event_plain)
  then have "find (\<lambda>(i, e). \<not> is_plain e) (enumerate 0 es) = None"
    by (auto simp: find_None_iff list_all_iff dest!: in_set_enumerate_eq [THEN iffD1] nth_mem)
  then have "assertEnvelope ?v = Inr \<lparr>wire_snapshot = to_base64 (env_snapshot env), wire_events = es,
      wire_issuer = env_issuer env, wire_alg = env_alg env, wire_kid = env_kid env, wire_signature = env_signature env\<rparr>"
    using assms(2) plain
    by (auto simp: assertEnvelope_def f wire_lookup text_of_def good_envelope_def simp del: nform.simps(4) map_of_append
        split: option.split)
  with parsed wire_valid [OF assms(1,2) es] mapE_same [OF clone] assms(2) es show ?thesis
    by (simp add: decodeEnvelope_def good_envelope_def del: nform.simps(4))
qed

end
