(* ===== verification/EnvelopeProperties.thy ===== *)
theory EnvelopeProperties
  imports VerifierDemo EnvelopeRoundtrip
begin

text \<open>
  The properties of audit logs, snapshots and verification envelopes, and of the verifier with a fixed
  trust boundary.
\<close>

section \<open>Concrete inputs\<close>

definition demo_snapshot :: string where
  "demo_snapshot = ''{\"engineVersion\":\"1\",\"formatVersion\":1,\"modules\":{},\"policyId\":\"p\"}''"

definition demo_event :: jsval where
  "demo_event =
     JObj [(''policyId'', JStr ''p''), (''stateHash'', JStr ''h''), (''timestamp'', JNum (jint 12)),
           (''type'', JStr ''STATE_CHECKPOINT'')]"

text \<open>The same event with its members written in another order.\<close>

definition demo_reordered :: jsval where
  "demo_reordered =
     JObj [(''type'', JStr ''STATE_CHECKPOINT''), (''timestamp'', JNum (jint 12)), (''stateHash'', JStr ''h''),
           (''policyId'', JStr ''p'')]"

definition demo_envelope :: envelope where
  "demo_envelope =
     \<lparr>env_formatVersion = JNum (jint 1), env_snapshot = demo_snapshot, env_events = JArr [demo_event],
      env_issuer = Some ''a'', env_alg = Some ''Ed25519'', env_kid = Some ''k'',
      env_signature = Some (to_base64 (replicate 64 CHR ''s''))\<rparr>"

definition demo_bytes :: string where
  "demo_bytes = (case encodeEnvelope demo_host demo_envelope of Inr b \<Rightarrow> b | Inl _ \<Rightarrow> [])"

definition demo_envelope_opts :: verify_envelope_opts where
  "demo_envelope_opts =
     \<lparr>ve_now = Some (jint 20), ve_expectedPolicyId = Some ''p'', ve_mode = Some StrictMode, ve_expectedIssuer = Some ''a'',
      ve_trustedKeySets = Some (KeySets [demo_keys]), ve_requireSignature = True\<rparr>"

definition demo_audit_opts :: audit_options where
  "demo_audit_opts = \<lparr>ao_expectedPolicyId = Some ''p'', ao_bestEffort = False, ao_requireStateAnchors = None\<rparr>"

lemma demo_encoded: "encodeEnvelope demo_host demo_envelope = Inr demo_bytes"
proof -
  have "case encodeEnvelope demo_host demo_envelope of Inr b \<Rightarrow> True | Inl _ \<Rightarrow> False"
    by code_simp
  then show ?thesis by (simp add: demo_bytes_def split: sum.splits)
qed

lemma demo_good: "good_envelope demo_host demo_envelope"
  by code_simp

lemma demo_decoded: "decodeEnvelope demo_bytes = Inr demo_envelope"
  by (rule decode_encode_envelope [OF demo_host_ok(1) demo_good demo_encoded])

lemma demo_envelope_payload:
  "case envelopeSigningPayload demo_envelope of Inr p \<Rightarrow>
     verifyEd25519 demo_host ENVELOPE_V1 p (JStr (to_base64 (replicate 64 CHR ''s''))) ''pk'' | Inl _ \<Rightarrow> False"
  by code_simp

lemma demo_found:
  "findKeyInKeySets [demo_keys] (JStr ''a'') (JStr ''k'') Ed25519 = Some demo_key" "keyIsActiveAt demo_key (jint 20)"
  by code_simp+

lemma demo_envelope_signature:
  "envelope_signature_violations demo_host demo_envelope_opts demo_envelope [demo_keys] (jint 20) = Inr []"
proof -
  have s: "to_base64 (replicate 64 CHR ''s'') \<noteq> []" by code_simp
  have "envelope_key_violations demo_host demo_envelope (to_base64 (replicate 64 CHR ''s'')) [demo_keys] (jint 20) = Inr []"
    using demo_envelope_payload demo_found
    by (auto simp: envelope_key_violations_def demo_envelope_def demo_key_def bindE_def split: sum.splits)
  with s show ?thesis
    by (auto simp: envelope_signature_violations_def demo_envelope_opts_def demo_envelope_def no_text_def bindE_def
        expected_violation_def split: list.splits)
qed

lemma demo_envelope_snapshot: "verifySnapshot demo_host (Some ''p'') demo_snapshot =
     \<lparr>vr_ok = True, vr_status = Ok, vr_violations = [], vr_policyId = JStr ''p'', vr_stateHash = JStr demo_hash,
      vr_auditHeadHash = None\<rparr>"
  by code_simp

lemma demo_envelope_events: "verifyAuditEvents demo_host demo_audit_opts (JArr [demo_event]) =
     \<lparr>vr_ok = True, vr_status = Ok, vr_violations = [], vr_policyId = JStr ''p'', vr_stateHash = JUndef,
      vr_auditHeadHash = Some demo_hash\<rparr>"
  by code_simp

lemma demo_reordered_events: "verifyAuditEvents demo_host demo_audit_opts (JArr [demo_reordered]) =
     \<lparr>vr_ok = True, vr_status = Ok, vr_violations = [], vr_policyId = JStr ''p'', vr_stateHash = JUndef,
      vr_auditHeadHash = Some demo_hash\<rparr>"
  by code_simp

lemma demo_envelope_fields:
  "ve_mode demo_envelope_opts = Some StrictMode" "trusted_list (ve_trustedKeySets demo_envelope_opts) = [demo_keys]"
  "nowSeconds c (ve_now demo_envelope_opts) = jint 20" "ve_expectedPolicyId demo_envelope_opts = Some ''p''"
  "audit_options_of demo_envelope_opts = demo_audit_opts" "ve_requireSignature demo_envelope_opts"
  "env_snapshot demo_envelope = demo_snapshot" "env_events demo_envelope = JArr [demo_event]"
  by (simp_all add: demo_envelope_opts_def demo_envelope_def audit_options_of_def demo_audit_opts_def
      nowSeconds_def)

lemma demo_envelope_verified:
  "\<exists>r. verifyEnvelope demo_host (jint 0) demo_envelope_opts demo_bytes = Inr r \<and> vr_ok r \<and> vr_stateHash r = JStr demo_hash"
  by (simp add: verifyEnvelope_def demo_decoded demo_envelope_fields demo_envelope_signature demo_envelope_snapshot
      demo_envelope_events policy_pair_violations_def envelope_outcome_def)


lemma demo_exported:
  obtains snap bytes where "exportState demo_host demo_engine (Some demo_state) = Inr snap"
    "encodeCanonicalState demo_host snap = Inr bytes"
proof -
  have "case exportState demo_host demo_engine (Some demo_state) of Inl _ \<Rightarrow> False
      | Inr snap \<Rightarrow> (case encodeCanonicalState demo_host snap of Inl _ \<Rightarrow> False | Inr _ \<Rightarrow> True)"
    by code_simp
  with that show thesis by (auto split: sum.splits)
qed

lemma demo_hashed: "computeStateHashFor demo_host demo_engine demo_state = Inr demo_hash"
  by code_simp

lemma demo_imported:
  "\<exists>snap t' e'. exportState demo_host demo_engine (Some demo_state) = Inr snap \<and>
     importState demo_host demo_engine (Some (JObj [])) snap = (Inr (), Some t', e')"
proof -
  have "case exportState demo_host demo_engine (Some demo_state) of Inl _ \<Rightarrow> False
      | Inr snap \<Rightarrow> (case importState demo_host demo_engine (Some (JObj [])) snap of
          (r, t', e') \<Rightarrow> r = Inr () \<and> t' \<noteq> None)"
    by code_simp
  then show ?thesis by (auto split: sum.splits prod.splits)
qed

lemma demo_shapes: "is_plain demo_state" "wf_js demo_state" "tools_typed demo_state" "nfc demo_host ''p'' = ''p''"
  by code_simp+

lemma demo_verifier:
  obtains v where "createVerifier demo_host (jint 0) \<lparr>vc_trustedKeySets = [demo_keys], vc_expectedIssuer = None\<rparr> = Inr v"
  by (simp add: createVerifier_def)

definition demo_signed :: jsval where
  "demo_signed =
     JObj [(''auth_id'', JStr ''p1''), (''issuer'', JStr ''a''), (''audience'', JStr ''a''),
           (''intent_hash'', JStr ''h''), (''state_hash'', JStr ''s''), (''policy_id'', JStr ''p''),
           (''decision'', JStr ''ALLOW''), (''issued_at'', JNum (jint 12)), (''expiry'', JNum (jint 72)),
           (''alg'', JStr ''Ed25519''), (''kid'', JStr ''k''),
           (''signature'', JStr (to_base64 (replicate 64 CHR ''s'')))]"

definition demo_plain_opts :: verify_auth_opts where
  "demo_plain_opts =
     \<lparr>va_now = Some (jint 20), va_strict = False, va_expectedIssuer = None, va_expectedAudience = None,
      va_expectedPolicyId = None, va_authorities = None, va_consumedAuthIds = [],
      va_trustedKeySets = None, va_requireSignature = False,
      va_maxFutureIssuedAtSkew = JUndef, va_legacyHmacSecret = None\<rparr>"

definition demo_bound_opts :: verify_auth_opts where
  "demo_bound_opts = demo_plain_opts\<lparr>va_strict := True, va_trustedKeySets := Some (KeySets [demo_keys]),
     va_expectedIssuer := None\<rparr>"

lemma demo_bound_checks:
  "fields_accepted demo_host demo_bound_opts demo_signed (jint 20) (jint 300) \<longleftrightarrow> True"
  "signature_outcome demo_host demo_bound_opts demo_signed [demo_keys] (jint 20) = ([], True, AuthorizationV1Full)"
  unfolding field_violations_Nil [symmetric] by code_simp+

lemma demo_signed_verified:
  "\<exists>r. verifyAuthorization demo_host (jint 0) demo_bound_opts demo_signed = Inr r \<and> vr_ok r"
proof -
  have o: "va_now demo_bound_opts = Some (jint 20)" "va_maxFutureIssuedAtSkew demo_bound_opts = JUndef"
    "trusted_of demo_bound_opts = [demo_keys]" "propE demo_signed ''decision'' = Inr (JStr ''ALLOW'')"
    by (simp_all add: demo_bound_opts_def demo_plain_opts_def demo_signed_def propE_def)
  have "resolveMaxFutureIssuedAtSkewSeconds ''verifyAuthorization'' (va_maxFutureIssuedAtSkew demo_bound_opts) = Inr (jint 300)"
    by (simp add: o resolveMaxFutureIssuedAtSkewSeconds_def DEFAULT_MAX_FUTURE_ISSUED_AT_SKEW_SECONDS_def)
  from verifyAuthorization_ok [OF this o(4), of "jint 20" "jint 0" demo_host] demo_bound_checks o
  show ?thesis by (auto simp: nowSeconds_def)
qed

section \<open>Audit logs\<close>

text \<open>
  C37: The audit verifier accepts exactly the logs that deserve it: every event passes the schema and names
  the expected policy, timestamps never run backwards, the hash chain can be computed from the genesis
  value, at most one policy is named, and, where an anchor is required, a state checkpoint is present.
\<close>
theorem audit_log_accepted_iff:
  "vr_ok (verifyAuditEvents h opt (JArr es)) \<longleftrightarrow>
     list_all (event_good opt) es \<and> times_ok None es \<and> (\<exists>d. chain_head h (AUDIT_GENESIS_HASH h) es = Inr d) \<and>
     \<not> mixed_policies es \<and> (case ao_requireStateAnchors opt of Some b \<Rightarrow> b | None \<Rightarrow> \<not> ao_bestEffort opt) \<le> list_ex is_anchor es"
  unfolding verifyAuditEvents_accepts needs_anchor_def le_bool_def by blast

text \<open>
  C20: The head authenticates a log. Two logs that the verifier accepts with the same head hash, each under
  whatever options, hold the same events up to canonical form, in the same order and number, or two
  different texts with the same SHA-256 digest are at hand among those the two verifications hashed. With the
  head an engine reports for its own log, whose acceptance C19 shows, a presented log is the engine's.
\<close>
theorem log_head_authenticates:
  assumes "vr_ok (verifyAuditEvents h opt (JArr es))" and "vr_ok (verifyAuditEvents h opt' (JArr fs))"
    and "vr_auditHeadHash (verifyAuditEvents h opt (JArr es)) = vr_auditHeadHash (verifyAuditEvents h opt' (JArr fs))"
    and "hex_digests h"
  shows "map (event_form h) es = map (event_form h) fs \<or>
    (\<exists>s \<in> insert genesis_text (hashed_texts h (AUDIT_GENESIS_HASH h) es).
     \<exists>t \<in> insert genesis_text (hashed_texts h (AUDIT_GENESIS_HASH h) fs). collision h s t)"
proof -
  obtain d where d: "vr_auditHeadHash (verifyAuditEvents h opt (JArr es)) = Some d"
    "chain_head h (AUDIT_GENESIS_HASH h) es = Inr d"
    using assms(1) by (rule accepted_head)
  obtain d' where "vr_auditHeadHash (verifyAuditEvents h opt' (JArr fs)) = Some d'"
    "chain_head h (AUDIT_GENESIS_HASH h) fs = Inr d'"
    using assms(2) by (rule accepted_head)
  with d assms(3) show ?thesis using genesis_head_binds [OF assms(4)] by simp
qed

theorem log_head_authenticates_witness:
  "demo_reordered \<noteq> demo_event \<and>
    (map (event_form demo_host) [demo_reordered] = map (event_form demo_host) [demo_event] \<or>
    (\<exists>s \<in> insert genesis_text (hashed_texts demo_host (AUDIT_GENESIS_HASH demo_host) [demo_reordered]).
     \<exists>t \<in> insert genesis_text (hashed_texts demo_host (AUDIT_GENESIS_HASH demo_host) [demo_event]). collision demo_host s t))"
proof -
  have "demo_reordered \<noteq> demo_event" by (simp add: demo_reordered_def demo_event_def)
  moreover have "vr_ok (verifyAuditEvents demo_host demo_audit_opts (JArr [demo_reordered]))"
    "vr_ok (verifyAuditEvents demo_host demo_audit_opts (JArr [demo_event]))"
    "vr_auditHeadHash (verifyAuditEvents demo_host demo_audit_opts (JArr [demo_reordered])) =
      vr_auditHeadHash (verifyAuditEvents demo_host demo_audit_opts (JArr [demo_event]))"
    by (simp_all add: demo_envelope_events demo_reordered_events)
  ultimately show ?thesis using log_head_authenticates demo_host_ok(2) by blast
qed

section \<open>Snapshots\<close>

text \<open>
  What the engine exports, the independent verifier accepts, with the same state hash: for every state
  the engine can export, encoding the snapshot and verifying the bytes reports the policy id and the very
  digest \<open>computeStateHash\<close> gives, although both sides hash different values with different code.
\<close>
theorem exported_snapshot_verifies:
  assumes "nfc_ok h" and "exportState h e (Some st) = Inr snap" and "encodeCanonicalState h snap = Inr bytes"
    and "is_plain st" and "computeStateHashFor h e st = Inr d" and "computePolicyId h e = Inr p" and "nfc h p \<noteq> []"
    and "expected \<in> {None, Some (nfc h p)}"
  shows "verifySnapshot h expected bytes =
    \<lparr>vr_ok = True, vr_status = Ok, vr_violations = [], vr_policyId = JStr (nfc h p), vr_stateHash = JStr d,
     vr_auditHeadHash = None\<rparr>"
  using assms by (rule export_verified)

theorem exported_snapshot_verifies_witness:
  "\<exists>snap bytes. exportState demo_host demo_engine (Some demo_state) = Inr snap \<and>
     encodeCanonicalState demo_host snap = Inr bytes \<and> vr_stateHash (verifySnapshot demo_host (Some ''p'') bytes) = JStr demo_hash"
proof -
  obtain snap bytes where s: "exportState demo_host demo_engine (Some demo_state) = Inr snap"
    "encodeCanonicalState demo_host snap = Inr bytes" by (rule demo_exported)
  from exported_snapshot_verifies [OF demo_host_ok(1) this demo_shapes(1) demo_hashed demo_policyId, of "Some ''p''"] s demo_shapes(4)
  show ?thesis by auto
qed

text \<open>
  Export and import lose nothing the state hash covers: after a successful import of an exported
  snapshot into any target object, the target has the state hash of the exported state.
\<close>
theorem import_keeps_state_hash:
  assumes "exportState h e (Some st) = Inr snap" and "importState h e (Some tgt) snap = (Inr (), Some t', e')"
    and "is_plain st" and "wf_js st" and "tools_typed st" and "is_plain tgt"
  shows "computeStateHashFor h e t' = computeStateHashFor h e st"
  using assms by (rule import_keeps_hash)

theorem import_keeps_state_hash_witness:
  "\<exists>snap t' e'. importState demo_host demo_engine (Some (JObj [])) snap = (Inr (), Some t', e') \<and>
     computeStateHashFor demo_host demo_engine t' = Inr demo_hash"
proof -
  obtain snap t' e' where "exportState demo_host demo_engine (Some demo_state) = Inr snap"
    and i: "importState demo_host demo_engine (Some (JObj [])) snap = (Inr (), Some t', e')"
    using demo_imported by blast
  from import_keeps_state_hash [OF this demo_shapes(1-3)] demo_hashed have "computeStateHashFor demo_host demo_engine t' = Inr demo_hash"
    by simp
  with i show ?thesis by blast
qed

section \<open>Envelopes\<close>

text \<open>C38: Decoding the encoding of an envelope with normalised texts gives the same envelope back.\<close>
theorem envelope_round_trip:
  assumes "nfc_ok h" and "good_envelope h env" and "encodeEnvelope h env = Inr bytes"
  shows "decodeEnvelope bytes = Inr env"
  using assms by (rule decode_encode_envelope)

theorem envelope_round_trip_witness: "decodeEnvelope demo_bytes = Inr demo_envelope"
  by (rule envelope_round_trip [OF demo_host_ok(1) demo_good demo_encoded])

text \<open>
  C39: An envelope accepted in a request that requires signatures is genuine: it is signed under the envelope
  domain by an active key of a trusted key set of the issuer it names, its snapshot and its audit log
  verify on their own, and both belong to the same policy.
\<close>
theorem accepted_envelope_genuine:
  assumes "verifyEnvelope h clock opt bytes = Inr r" and "vr_ok r" and "ve_requireSignature opt"
  shows "\<exists>env sig iss kid key payload. decodeEnvelope bytes = Inr env \<and>
    env_signature env = Some sig \<and> env_issuer env = Some iss \<and> env_kid env = Some kid \<and>
    findKeyInKeySets (trusted_list (ve_trustedKeySets opt)) (JStr iss) (JStr kid) Ed25519 = Some key \<and>
    keyIsActiveAt key (nowSeconds clock (ve_now opt)) \<and> envelopeSigningPayload env = Inr payload \<and>
    verifyEd25519 h ENVELOPE_V1 payload (JStr sig) (public_key key) \<and>
    vr_ok (verifySnapshot h (ve_expectedPolicyId opt) (env_snapshot env)) \<and>
    vr_ok (verifyAuditEvents h (audit_options_of opt) (env_events env)) \<and>
    vr_policyId (verifySnapshot h (ve_expectedPolicyId opt) (env_snapshot env)) =
      vr_policyId (verifyAuditEvents h (audit_options_of opt) (env_events env))"
  using assms(1,2)
proof (rule envelope_accepted)
  fix env
  assume env: "decodeEnvelope bytes = Inr env"
    "envelope_signature_violations h opt env (trusted_list (ve_trustedKeySets opt)) (nowSeconds clock (ve_now opt)) = Inr []"
    "vr_ok (verifySnapshot h (ve_expectedPolicyId opt) (env_snapshot env))"
    "vr_ok (verifyAuditEvents h (audit_options_of opt) (env_events env))"
    "vr_policyId (verifySnapshot h (ve_expectedPolicyId opt) (env_snapshot env)) =
       vr_policyId (verifyAuditEvents h (audit_options_of opt) (env_events env))"
  from env(2) assms(3) show ?thesis
    by (rule envelope_signature_NilE) (use env in blast)
qed

theorem accepted_envelope_genuine_witness:
  "\<exists>env key. decodeEnvelope demo_bytes = Inr env \<and> keyIsActiveAt key (jint 20) \<and>
     findKeyInKeySets [demo_keys] (JStr ''a'') (JStr ''k'') Ed25519 = Some key"
proof -
  obtain r where "verifyEnvelope demo_host (jint 0) demo_envelope_opts demo_bytes = Inr r" "vr_ok r"
    using demo_envelope_verified by blast
  from accepted_envelope_genuine [OF this demo_envelope_fields(6)]
  show ?thesis by (auto simp: demo_decoded demo_envelope_fields demo_envelope_def)
qed

section \<open>A verifier with a fixed trust boundary\<close>

text \<open>What it means for a key of the given sets, or for a shared secret, to vouch for an artifact.\<close>

definition vouched_authorization :: "host \<Rightarrow> keyset list \<Rightarrow> jsnum \<Rightarrow> jsval \<Rightarrow> bool" where
  "vouched_authorization h sets now auth =
     (\<exists>ks \<in> set sets. \<exists>k \<in> set (ks_keys ks).
        getp auth ''issuer'' = JStr (ks_issuer ks) \<and> sp_kid (signatureParts auth) = JStr (key_kid k) \<and>
        key_alg k = Ed25519 \<and> keyIsActiveAt k now \<and>
        (verifyEd25519 h AUTH_V1 (authorizationSigningPayload auth) (sp_sig (signatureParts auth)) (public_key k) \<or>
         verifyEd25519Raw h (authorizationSigningPayload auth) (sp_sig (signatureParts auth)) (public_key k)))"

definition shares_secret :: "host \<Rightarrow> string option \<Rightarrow> jsval \<Rightarrow> bool" where
  "shares_secret h secret auth =
     (\<exists>s. secret = Some s \<and> s \<noteq> [] \<and> sp_alg (signatureParts auth) = JStr ''HMAC-SHA256'' \<and>
        verifyHmacDomain h AUTH_V1 (authorizationSigningPayload auth) (sp_sig (signatureParts auth)) s)"

definition vouched_envelope :: "host \<Rightarrow> keyset list \<Rightarrow> jsnum \<Rightarrow> envelope \<Rightarrow> bool" where
  "vouched_envelope h sets now env =
     (\<exists>ks \<in> set sets. \<exists>k \<in> set (ks_keys ks). \<exists>sig payload.
        env_signature env = Some sig \<and> sig \<noteq> [] \<and> env_issuer env = Some (ks_issuer ks) \<and> env_kid env = Some (key_kid k) \<and>
        key_alg k = Ed25519 \<and> keyIsActiveAt k now \<and> envelopeSigningPayload env = Inr payload \<and>
        verifyEd25519 h ENVELOPE_V1 payload (JStr sig) (public_key k))"

text \<open>
  The signature policy of an accepted envelope, signatures required or not: an unsigned envelope passes only a
  request that asks for none, a signed one only with a key.
\<close>

lemma envelope_signature_cases:
  assumes "envelope_signature_violations h opt env trusted now = Inr []"
  shows "(env_signature env \<in> {None, Some []} \<and> \<not> ve_requireSignature opt) \<or> vouched_envelope h trusted now env"
    and "ve_expectedIssuer opt = Some s \<Longrightarrow> env_issuer env = Some s"
proof -
  show "env_issuer env = Some s" if "ve_expectedIssuer opt = Some s"
    using assms that
    by (cases "env_issuer env") (auto simp: envelope_signature_violations_def expected_violation_def bindE_def
        split: option.splits list.splits if_splits sum.splits)
  show "(env_signature env \<in> {None, Some []} \<and> \<not> ve_requireSignature opt) \<or> vouched_envelope h trusted now env"
  proof (cases "env_signature env \<in> {None, Some []}")
    case True
    then have "\<not> ve_requireSignature opt"
      using assms by (auto simp: envelope_signature_violations_def bindE_def)
    with True show ?thesis by blast
  next
    case False
    then have "envelope_signature_violations h (opt\<lparr>ve_requireSignature := True\<rparr>) env trusted now = Inr []"
      using assms by (auto simp: envelope_signature_violations_def split: option.splits list.splits)
    then obtain sig iss kid key payload where key: "env_signature env = Some sig" "env_issuer env = Some iss"
      "env_kid env = Some kid" "findKeyInKeySets trusted (JStr iss) (JStr kid) Ed25519 = Some key" "keyIsActiveAt key now"
      "envelopeSigningPayload env = Inr payload" "verifyEd25519 h ENVELOPE_V1 payload (JStr sig) (public_key key)"
      by (rule envelope_signature_NilE) simp
    obtain ks where "ks \<in> set trusted" "JStr iss = JStr (ks_issuer ks)" "key \<in> set (ks_keys ks)"
      "JStr kid = JStr (key_kid key)" "key_alg key = Ed25519"
      using key(4) by (rule findKeyInKeySets_Some)
    with key False show ?thesis unfolding vouched_envelope_def by blast
  qed
qed

text \<open>
  C40: The trust boundary of \<open>createVerifier\<close>. A verifier has at least one key set, and no request can change its
  key sets or leave strict mode, for authorizations and envelopes alike. An accepted authorization was
  signature-verified: by an active key of the configured sets that belongs to the issuer it names, or, when
  the request itself brings a shared secret, by an HMAC under that secret. An accepted envelope decodes, its
  snapshot and its audit log verify on their own, and it is signed by an active key of the configured sets of
  the issuer it names, or it is unsigned and the request did not require a signature. Both name the issuer
  that the request or else the configuration expects.
\<close>
theorem bound_verifier_authenticates:
  assumes "createVerifier h clock config = Inr v"
  shows "vc_trustedKeySets config \<noteq> [] \<and>
    (\<forall>auth opt b sets. bv_verifyAuthorization v auth (opt\<lparr>va_strict := b, va_trustedKeySets := sets\<rparr>) =
       bv_verifyAuthorization v auth opt) \<and>
    (\<forall>bytes opt m sets. bv_verifyEnvelope v bytes (opt\<lparr>ve_mode := m, ve_trustedKeySets := sets\<rparr>) =
       bv_verifyEnvelope v bytes opt) \<and>
    (\<forall>auth opt r. bv_verifyAuthorization v auth opt = Inr r \<longrightarrow> vr_ok r \<longrightarrow> signatureVerified r \<and>
       (vouched_authorization h (vc_trustedKeySets config) (nowSeconds clock (va_now opt)) auth \<or>
        shares_secret h (va_legacyHmacSecret opt) auth) \<and>
       (\<forall>s. or_else (va_expectedIssuer opt) (vc_expectedIssuer config) = Some s \<longrightarrow> getp auth ''issuer'' = JStr s)) \<and>
    (\<forall>bytes opt r. bv_verifyEnvelope v bytes opt = Inr r \<longrightarrow> vr_ok r \<longrightarrow> (\<exists>env. decodeEnvelope bytes = Inr env \<and>
       vr_ok (verifySnapshot h (ve_expectedPolicyId opt) (env_snapshot env)) \<and>
       vr_ok (verifyAuditEvents h \<lparr>ao_expectedPolicyId = ve_expectedPolicyId opt, ao_bestEffort = False,
         ao_requireStateAnchors = None\<rparr> (env_events env)) \<and>
       (vouched_envelope h (vc_trustedKeySets config) (nowSeconds clock (ve_now opt)) env \<or>
        env_signature env \<in> {None, Some []} \<and> \<not> ve_requireSignature opt) \<and>
       (\<forall>s. or_else (ve_expectedIssuer opt) (vc_expectedIssuer config) = Some s \<longrightarrow> env_issuer env = Some s)))"
proof (intro conjI allI impI)
  note binds = createVerifier_binds [OF assms]
  show "vc_trustedKeySets config \<noteq> []" by (rule binds(1))
  show "bv_verifyAuthorization v auth (opt\<lparr>va_strict := b, va_trustedKeySets := sets\<rparr>) = bv_verifyAuthorization v auth opt"
    for auth opt b sets by (simp add: binds(2))
  show "bv_verifyEnvelope v bytes (opt\<lparr>ve_mode := m, ve_trustedKeySets := sets\<rparr>) = bv_verifyEnvelope v bytes opt"
    for bytes opt m sets by (simp add: binds(3))
  fix auth opt r assume run: "bv_verifyAuthorization v auth opt = Inr r" and ok: "vr_ok r"
  let ?o = "opt\<lparr>va_strict := True, va_trustedKeySets := Some (KeySets (vc_trustedKeySets config)),
                va_expectedIssuer := or_else (va_expectedIssuer opt) (vc_expectedIssuer config)\<rparr>"
  have "verifyAuthorization h clock ?o auth = Inr r" using run binds(2) by simp
  then obtain skew where f: "fields_accepted h ?o auth (nowSeconds clock (va_now ?o)) skew"
    and o: "signature_outcome h ?o auth (trusted_of ?o) (nowSeconds clock (va_now ?o)) =
      ([], signatureVerified r, verificationCoverage r)"
    using ok by (rule verifyAuthorization_okE)
  from f have "has_text (sp_alg (signatureParts auth))" "has_text (sp_kid (signatureParts auth))"
    "has_text (sp_sig (signatureParts auth))"
    by (simp_all add: fields_accepted_def)
  note sig = signature_outcome_ok [OF o _ this]
  from sig show "signatureVerified r" by simp
  from sig show "vouched_authorization h (vc_trustedKeySets config) (nowSeconds clock (va_now opt)) auth \<or>
      shares_secret h (va_legacyHmacSecret opt) auth"
    by (simp add: vouched_authorization_def shares_secret_def)
  show "getp auth ''issuer'' = JStr s" if "or_else (va_expectedIssuer opt) (vc_expectedIssuer config) = Some s" for s
    using f that by (simp add: fields_accepted_def)
next
  note binds = createVerifier_binds [OF assms]
  fix bytes opt r assume run: "bv_verifyEnvelope v bytes opt = Inr r" and ok: "vr_ok r"
  let ?o = "opt\<lparr>ve_mode := Some StrictMode, ve_trustedKeySets := Some (KeySets (vc_trustedKeySets config)),
                ve_expectedIssuer := or_else (ve_expectedIssuer opt) (vc_expectedIssuer config)\<rparr>"
  have "verifyEnvelope h clock ?o bytes = Inr r" using run binds(3) by simp
  then obtain env where env: "decodeEnvelope bytes = Inr env"
    "envelope_signature_violations h ?o env (trusted_list (ve_trustedKeySets ?o)) (nowSeconds clock (ve_now ?o)) = Inr []"
    "vr_ok (verifySnapshot h (ve_expectedPolicyId ?o) (env_snapshot env))"
    "vr_ok (verifyAuditEvents h (audit_options_of ?o) (env_events env))"
    using ok by (rule envelope_accepted)
  from envelope_signature_cases [OF env(2)] env
  show "\<exists>env. decodeEnvelope bytes = Inr env \<and>
       vr_ok (verifySnapshot h (ve_expectedPolicyId opt) (env_snapshot env)) \<and>
       vr_ok (verifyAuditEvents h \<lparr>ao_expectedPolicyId = ve_expectedPolicyId opt, ao_bestEffort = False,
         ao_requireStateAnchors = None\<rparr> (env_events env)) \<and>
       (vouched_envelope h (vc_trustedKeySets config) (nowSeconds clock (ve_now opt)) env \<or>
        env_signature env \<in> {None, Some []} \<and> \<not> ve_requireSignature opt) \<and>
       (\<forall>s. or_else (ve_expectedIssuer opt) (vc_expectedIssuer config) = Some s \<longrightarrow> env_issuer env = Some s)"
    by (auto simp: audit_options_of_def)
qed

theorem bound_verifier_authenticates_witness:
  "\<exists>v r s. createVerifier demo_host (jint 0) \<lparr>vc_trustedKeySets = [demo_keys], vc_expectedIssuer = None\<rparr> = Inr v \<and>
     bv_verifyAuthorization v demo_signed demo_plain_opts = Inr r \<and> signatureVerified r \<and>
     vouched_authorization demo_host [demo_keys] (jint 20) demo_signed \<and>
     bv_verifyEnvelope v demo_bytes (demo_envelope_opts\<lparr>ve_mode := None, ve_trustedKeySets := None\<rparr>) = Inr s \<and>
     vouched_envelope demo_host [demo_keys] (jint 20) demo_envelope"
proof -
  obtain v where v: "createVerifier demo_host (jint 0) \<lparr>vc_trustedKeySets = [demo_keys], vc_expectedIssuer = None\<rparr> = Inr v"
    by (rule demo_verifier)
  obtain r where r: "bv_verifyAuthorization v demo_signed demo_plain_opts = Inr r" "vr_ok r"
    using demo_signed_verified unfolding createVerifier_binds(2) [OF v]
    by (auto simp: demo_bound_opts_def demo_plain_opts_def or_else_def)
  let ?eo = "demo_envelope_opts\<lparr>ve_mode := None, ve_trustedKeySets := None\<rparr>"
  obtain s where s: "bv_verifyEnvelope v demo_bytes ?eo = Inr s" "vr_ok s"
    using demo_envelope_verified unfolding createVerifier_binds(3) [OF v]
    by (auto simp: demo_envelope_opts_def or_else_def)
  note bound = bound_verifier_authenticates [OF v]
  have a: "signatureVerified r \<and>
      (vouched_authorization demo_host [demo_keys] (nowSeconds (jint 0) (va_now demo_plain_opts)) demo_signed \<or>
       shares_secret demo_host (va_legacyHmacSecret demo_plain_opts) demo_signed)"
    using bound r unfolding verifier_config.simps by blast
  have "\<exists>env. decodeEnvelope demo_bytes = Inr env \<and>
      (vouched_envelope demo_host [demo_keys] (nowSeconds (jint 0) (ve_now ?eo)) env \<or>
       env_signature env \<in> {None, Some []} \<and> \<not> ve_requireSignature ?eo)"
    using bound s unfolding verifier_config.simps by blast
  then have "vouched_envelope demo_host [demo_keys] (jint 20) demo_envelope"
    by (auto simp: demo_decoded demo_envelope_opts_def nowSeconds_def)
  moreover have "signatureVerified r" "vouched_authorization demo_host [demo_keys] (jint 20) demo_signed"
    using a by (auto simp: demo_plain_opts_def shares_secret_def nowSeconds_def)
  ultimately show ?thesis using v r(1) s(1) by blast
qed

end
