(* ===== verification/GuardEvents.thy ===== *)
theory GuardEvents
  imports Evaluate
begin

text \<open>
  The vocabulary of the guard: its errors (\<open>guard/src/errors.ts\<close>), the boundary events and the request
  lifecycle (\<open>boundaryEvent.ts\<close>), and the state a request is threaded through. A deployment's callbacks
  are functions on a world \<open>'w\<close> of their own; every call the guard makes is also written to a list
  \<open>calls\<close>, which no definition reads: it is what the ordering properties talk about.
\<close>

section \<open>Errors\<close>

text \<open>
  One constructor per error class; \<open>OxDeAIConflictError\<close>, \<open>OxDeAIProvenanceConflictError\<close>,
  \<open>OxDeAIAuthorityError\<close> and \<open>OxDeAIDelegationError\<close> extend \<open>OxDeAIAuthorizationError\<close>. \<open>Foreign\<close> is anything
  else a callback may throw.
\<close>

datatype claim_provenance = Absent | Matched | Conflict | Unverified

type_synonym provenance_record = "(string \<times> claim_provenance) list"

datatype guard_error =
    DenyError "string list"
  | AuthorizationError string
  | GuardConfigurationError string
  | NormalizationError string
  | ConflictError string
  | ProvenanceConflictError "string list" provenance_record
  | AuthorityError string
  | DelegationError "string list"
  | Foreign exn

definition comma_join :: "string list \<Rightarrow> string" where
  "comma_join xs = concat (case xs of [] \<Rightarrow> [] | y # ys \<Rightarrow> y # map (\<lambda>z. '', '' @ z) ys)"

text \<open>\<open>err instanceof Error ? err.message : String(err)\<close>\<close>

fun error_message :: "guard_error \<Rightarrow> string" where
  "error_message (DenyError rs) = ''OxDeAI guard denied execution: ['' @ comma_join rs @ '']''"
| "error_message (AuthorizationError m) = ''OxDeAI authorization error: '' @ m"
| "error_message (GuardConfigurationError m) = ''OxDeAI guard configuration error: '' @ m"
| "error_message (NormalizationError m) = ''OxDeAI normalization error: '' @ m"
| "error_message (ConflictError m) = ''OxDeAI authorization error: '' @ m"
| "error_message (ProvenanceConflictError fs p) =
     ''OxDeAI authorization error: Proposer claim conflicts with trusted execution context on ['' @ comma_join fs
       @ '']. Execution blocked.''"
| "error_message (AuthorityError m) = ''OxDeAI authorization error: '' @ m"
| "error_message (DelegationError vs) =
     ''OxDeAI authorization error: Delegation verification failed: ['' @ comma_join vs @ '']. Execution blocked.''"
| "error_message (Foreign TypeError) = ''TypeError''"
| "error_message (Foreign (Thrown m)) = m"

fun is_deny_error :: "guard_error \<Rightarrow> bool" where
  "is_deny_error (DenyError _) = True"
| "is_deny_error _ = False"

section \<open>Boundary events\<close>

datatype stage =
    TRUSTED_CONTEXT | STATE_LOAD | NORMALIZATION | PROVENANCE | DELEGATION | POLICY_EVALUATION
  | AUTHORIZATION_VERIFICATION | REPLAY | STATE_COMMIT | EXECUTION_GATE

datatype failure =
    UNTRUSTED_CONTEXT | MISSING_TENANT_ID | STATE_VERSION_MISSING | NORMALIZATION_FAILURE | PROVENANCE_CONFLICT
  | DELEGATION_INPUT_INVALID | DELEGATION_VERIFICATION_FAILED | DELEGATION_REVOKED
  | DELEGATION_REVOCATION_UNAVAILABLE | REVOCATION_STATE_UNAVAILABLE | REVOCATION_STATE_INVALID
  | DELEGATION_REPLAY | AUTHORIZATION_MISSING | AUTHORIZATION_VERIFICATION_FAILED
  | AUTHORIZATION_AUTHORITY_DENIED | AUTHORIZATION_REPLAY | REPLAY_STORE_UNAVAILABLE | INTENT_HASH_MISMATCH
  | STATE_HASH_MISMATCH | CAS_CONFLICT | ENGINE_FAILURE | UNCLASSIFIED

record lifecycle =
  at_stage :: stage
  policyEvaluated :: bool
  authorizationIssued :: bool
  authorizationConsumed :: bool
  delegationConsumed :: bool
  stateCommitted :: bool
  executionStarted :: bool
  lc_intentId :: "jsval option"
  sharedBodyEntered :: bool

definition createLifecycle :: "stage \<Rightarrow> lifecycle" where
  "createLifecycle s =
     \<lparr>at_stage = s, policyEvaluated = False, authorizationIssued = False, authorizationConsumed = False,
      delegationConsumed = False, stateCommitted = False, executionStarted = False, lc_intentId = None,
      sharedBodyEntered = False\<rparr>"

record boundary_note =
  bn_stage :: stage
  bn_failure :: failure
  bn_provenance :: "provenance_record option"
  bn_fields :: "string list option"

record boundary_event =
  be_stage :: stage
  be_failure :: failure
  be_policyEvaluated :: bool
  be_authorizationIssued :: bool
  be_authorizationConsumed :: bool
  be_delegationConsumed :: bool
  be_stateCommitted :: bool
  be_executionStarted :: bool
  be_intentId :: "jsval option"
  be_provenance :: "provenance_record option"
  be_conflictingFields :: "string list option"

text \<open>\<open>buildEvent\<close>\<close>

definition buildEvent :: "boundary_note option \<Rightarrow> lifecycle \<Rightarrow> boundary_event" where
  "buildEvent n lc =
     \<lparr>be_stage = (case n of Some b \<Rightarrow> bn_stage b | None \<Rightarrow> at_stage lc),
      be_failure = (case n of Some b \<Rightarrow> bn_failure b | None \<Rightarrow> UNCLASSIFIED),
      be_policyEvaluated = policyEvaluated lc, be_authorizationIssued = authorizationIssued lc,
      be_authorizationConsumed = authorizationConsumed lc, be_delegationConsumed = delegationConsumed lc,
      be_stateCommitted = stateCommitted lc, be_executionStarted = executionStarted lc, be_intentId = lc_intentId lc,
      be_provenance = (case n of Some b \<Rightarrow> bn_provenance b | None \<Rightarrow> None),
      be_conflictingFields = (case n of Some b \<Rightarrow> bn_fields b | None \<Rightarrow> None)\<rparr>"

section \<open>Thrown values\<close>

text \<open>
  \<open>ANNOTATIONS\<close> and \<open>EMITTED\<close> are keyed by the identity of the error object. An error the guard creates is
  fresh, so its annotation travels with it; an object thrown by a callback has an identity, because the
  callback may throw the same object again; a primitive has none.
\<close>

datatype origin = Fresh | Object nat | Primitive

record thrown =
  th_error :: guard_error
  th_origin :: origin
  th_note :: "boundary_note option"

section \<open>Requests\<close>

record decision_record =
  dr_action :: jsval
  dr_decision :: string
  dr_authorization :: "jsval option"
  dr_delegation :: "jsval option"
  dr_reasons :: "string list option"
  dr_provenance :: "provenance_record option"

datatype call =
    LoadState
  | Evaluated jsval jsval jsnum "jsval option"  \<comment> \<open>the result, unless the engine threw\<close>
  | CheckDelegation jsval "jsval option"
  | AcceptWatermark string
  | ConsumeDelegation jsval "jsval option"  \<comment> \<open>the id, and the answer unless the store threw\<close>
  | ConsumeAuth jsval "jsval option"
  | Committed jsval jsval "jsval option"  \<comment> \<open>state, expected version, answer\<close>
  | BeforeExecute jsval
  | Executed
  | Decided decision_record
  | Reported boundary_event

record 'w progress =
  world :: 'w
  life :: lifecycle
  annotated :: "(nat \<times> boundary_note) list"
  emitted :: "nat list"
  calls :: "call list"

type_synonym ('w, 'a) step = "'w progress \<Rightarrow> (thrown + 'a) \<times> 'w progress"

text \<open>A callback: it answers or throws, and changes the world.\<close>

type_synonym ('w, 'a) callback = "'w \<Rightarrow> ((guard_error \<times> origin) + 'a) \<times> 'w"

definition bindG :: "('w, 'a) step \<Rightarrow> ('a \<Rightarrow> ('w, 'b) step) \<Rightarrow> ('w, 'b) step" where
  "bindG m f = (\<lambda>p. case m p of (Inl x, p') \<Rightarrow> (Inl x, p') | (Inr a, p') \<Rightarrow> f a p')"

definition returnG :: "'a \<Rightarrow> ('w, 'a) step" where
  "returnG a = (\<lambda>p. (Inr a, p))"

definition as_thrown :: "guard_error \<times> origin \<Rightarrow> thrown" where
  "as_thrown x = \<lparr>th_error = fst x, th_origin = snd x, th_note = None\<rparr>"

definition annotation :: "stage \<Rightarrow> failure \<Rightarrow> boundary_note" where
  "annotation s f = \<lparr>bn_stage = s, bn_failure = f, bn_provenance = None, bn_fields = None\<rparr>"

text \<open>\<open>throw reject(stage, failure, new SomeError(...))\<close>\<close>

definition refuse :: "stage \<Rightarrow> failure \<Rightarrow> guard_error \<Rightarrow> ('w, 'a) step" where
  "refuse s f x = (\<lambda>p. (Inl \<lparr>th_error = x, th_origin = Fresh, th_note = Some (annotation s f)\<rparr>, p))"

text \<open>\<open>throw reject(stage, failure, err)\<close> for an error that came from a callback: the first annotation wins.\<close>

definition reject_caught :: "boundary_note \<Rightarrow> guard_error \<times> origin \<Rightarrow> ('w, 'a) step" where
  "reject_caught n x = (\<lambda>p.
     (Inl ((as_thrown x)\<lparr>th_note := (if snd x = Fresh then Some n else None)\<rparr>),
      case snd x of
        Object k \<Rightarrow> (if map_of (annotated p) k = None then p\<lparr>annotated := (k, n) # annotated p\<rparr> else p)
      | _ \<Rightarrow> p))"

text \<open>An error nobody annotates, e.g. a \<open>TypeError\<close> of the guard's own code.\<close>

definition throwG :: "guard_error \<Rightarrow> ('w, 'a) step" where
  "throwG x = (\<lambda>p. (Inl \<lparr>th_error = x, th_origin = Fresh, th_note = None\<rparr>, p))"

definition liftE :: "'a res \<Rightarrow> ('w, 'a) step" where
  "liftE r = (case r of Inl x \<Rightarrow> throwG (Foreign x) | Inr a \<Rightarrow> returnG a)"

definition advance :: "(lifecycle \<Rightarrow> lifecycle) \<Rightarrow> ('w, unit) step" where
  "advance f = (\<lambda>p. (Inr (), p\<lparr>life := f (life p)\<rparr>))"

definition enter :: "stage \<Rightarrow> ('w, unit) step" where
  "enter s = advance (\<lambda>lc. lc\<lparr>at_stage := s\<rparr>)"

text \<open>Calling a deployment callback: the outcome is a value, \<open>entry\<close> says what is written to \<open>calls\<close>.\<close>

definition invoke :: "((guard_error \<times> origin) + 'a \<Rightarrow> call list) \<Rightarrow> ('w, 'a) callback
    \<Rightarrow> ('w, (guard_error \<times> origin) + 'a) step" where
  "invoke entry cb = (\<lambda>p.
     let (r, w) = cb (world p) in (Inr r, p\<lparr>world := w, calls := calls p @ entry r\<rparr>))"

definition rethrow :: "(guard_error \<times> origin) + 'a \<Rightarrow> ('w, 'a) step" where
  "rethrow r = (case r of Inl x \<Rightarrow> (\<lambda>p. (Inl (as_thrown x), p)) | Inr a \<Rightarrow> returnG a)"

text \<open>\<open>const now = Math.floor(Date.now() / 1000)\<close>\<close>

definition read_clock :: "('w \<Rightarrow> jsnum \<times> 'w) \<Rightarrow> ('w, jsnum) step" where
  "read_clock clock = (\<lambda>p. let (t, w) = clock (world p) in (Inr t, p\<lparr>world := w\<rparr>))"

lemma bindG_simps [simp]:
  "bindG (returnG a) f = f a"
  "bindG (throwG x) f = throwG x"
  "bindG (refuse s k x) f = refuse s k x"
  "bindG (reject_caught n y) f = reject_caught n y"
  by (simp_all add: fun_eq_iff bindG_def returnG_def throwG_def refuse_def reject_caught_def)

lemma rethrow_simps [simp]:
  "rethrow (Inr a) = returnG a"
  "bindG (rethrow (Inl x)) f = rethrow (Inl x)"
  by (simp_all add: fun_eq_iff bindG_def rethrow_def)

lemma bindG_Inr: "bindG m f p = (Inr b, p'') \<longleftrightarrow> (\<exists>a p'. m p = (Inr a, p') \<and> f a p' = (Inr b, p''))"
  by (auto simp: bindG_def split: prod.splits sum.splits)

lemma bindG_InrE:
  assumes "bindG m f p = (Inr b, p'')"
  obtains a p' where "m p = (Inr a, p')" "f a p' = (Inr b, p'')"
  using assms unfolding bindG_Inr by blast

section \<open>Emission\<close>

type_synonym 'w hook = "boundary_event \<Rightarrow> ('w, unit) callback"

definition note_of :: "'w progress \<Rightarrow> thrown \<Rightarrow> boundary_note option" where
  "note_of p x = (case th_origin x of Fresh \<Rightarrow> th_note x | Object k \<Rightarrow> map_of (annotated p) k | Primitive \<Rightarrow> None)"

definition mark_emitted :: "thrown \<Rightarrow> 'w progress \<Rightarrow> 'w progress" where
  "mark_emitted x p = (case th_origin x of Object k \<Rightarrow> p\<lparr>emitted := k # emitted p\<rparr> | _ \<Rightarrow> p)"

definition already_emitted :: "thrown \<Rightarrow> 'w progress \<Rightarrow> bool" where
  "already_emitted x p = (case th_origin x of Object k \<Rightarrow> k \<in> set (emitted p) | _ \<Rightarrow> False)"

text \<open>\<open>emitBoundaryEvent\<close>: what the hook does or throws is ignored.\<close>

definition emitBoundaryEvent :: "'w hook option \<Rightarrow> thrown \<Rightarrow> 'w progress \<Rightarrow> 'w progress" where
  "emitBoundaryEvent hook x p =
     (case hook of
        None \<Rightarrow> p
      | Some call_hook \<Rightarrow>
          if is_deny_error (th_error x) then p
          else if executionStarted (life p) then mark_emitted x p
          else if sharedBodyEntered (life p) \<or> already_emitted x p then p
          else
            let p1 = mark_emitted x p;
                event = buildEvent (note_of p1 x) (life p1)
            in snd (invoke (\<lambda>_. [Reported event]) (call_hook event) p1))"

text \<open>\<open>fireDecision\<close>: errors of the audit hook are swallowed.\<close>

definition fireDecision :: "(decision_record \<Rightarrow> ('w, unit) callback) option \<Rightarrow> decision_record \<Rightarrow> ('w, unit) step" where
  "fireDecision hook rec =
     (case hook of
        None \<Rightarrow> returnG ()
      | Some cb \<Rightarrow> bindG (invoke (\<lambda>_. [Decided rec]) (cb rec)) (\<lambda>_. returnG ()))"

end
