(* ===== verification/ReplayStores.thy ===== *)
theory ReplayStores
  imports GuardEvents
begin

text \<open>
  Replay protection: the \<open>ReplayStore\<close> interface and the in-memory store of \<open>replayStore.ts\<close>, and the
  resolver of \<open>replayProtection.ts\<close>, which turns a deployment's declared posture into a store. The locale
  states what a store promises: an identifier is consumed at most once.
\<close>

section \<open>Stores\<close>

text \<open>
  The answer of a store is a JavaScript value, because the guard checks it (anything but a boolean is
  refused); \<open>rs_ephemeral\<close> is membership in the module's \<open>WeakSet\<close> of built-in stores.
\<close>

record 'w replay_store =
  rs_consumeAuthId :: "jsval \<Rightarrow> jsval \<Rightarrow> ('w, jsval) callback"
  rs_consumeDelegationId :: "(jsval \<Rightarrow> jsval \<Rightarrow> ('w, jsval) callback) option"
  rs_ephemeral :: bool

definition isEphemeralReplayStore :: "'w replay_store \<Rightarrow> bool" where
  "isEphemeralReplayStore s = rs_ephemeral s"

text \<open>The two sets of a store made by \<open>createInMemoryReplayStore\<close>, found in the world by a pair of accessors.\<close>

record consumed_ids =
  consumedAuthIds :: "jsval list"
  consumedDelegationIds :: "jsval list"

definition memory_consumeAuthId :: "jsval \<Rightarrow> jsval \<Rightarrow> (consumed_ids, jsval) callback" where
  "memory_consumeAuthId authId expiry m =
     (if authId \<in> set (consumedAuthIds m) then (Inr (JBool False), m)
      else (Inr (JBool True), m\<lparr>consumedAuthIds := consumedAuthIds m @ [authId]\<rparr>))"

definition memory_consumeDelegationId :: "jsval \<Rightarrow> jsval \<Rightarrow> (consumed_ids, jsval) callback" where
  "memory_consumeDelegationId delegationId expiry m =
     (if delegationId \<in> set (consumedDelegationIds m) then (Inr (JBool False), m)
      else (Inr (JBool True), m\<lparr>consumedDelegationIds := consumedDelegationIds m @ [delegationId]\<rparr>))"

definition within_world :: "('w \<Rightarrow> 'm) \<Rightarrow> ('m \<Rightarrow> 'w \<Rightarrow> 'w) \<Rightarrow> ('m, 'a) callback \<Rightarrow> ('w, 'a) callback" where
  "within_world get put cb w = (let (r, m) = cb (get w) in (r, put m w))"

definition createInMemoryReplayStore ::
  "('w \<Rightarrow> consumed_ids) \<Rightarrow> (consumed_ids \<Rightarrow> 'w \<Rightarrow> 'w) \<Rightarrow> 'w replay_store" where
  "createInMemoryReplayStore get put =
     \<lparr>rs_consumeAuthId = (\<lambda>i x. within_world get put (memory_consumeAuthId i x)),
      rs_consumeDelegationId = Some (\<lambda>i x. within_world get put (memory_consumeDelegationId i x)),
      rs_ephemeral = True\<rparr>"

section \<open>What a store promises\<close>

text \<open>
  \<open>spent w\<close> are the identifiers a store has given away. A store answers \<open>true\<close> only for an identifier that
  is not spent and spends it; nothing it does gives an identifier back. The interface in \<open>replayStore.ts\<close> lets a
  store forget an identifier once its artifact can no longer be accepted anywhere; this contract does not model
  the forgetting, so it speaks of the stores that keep what they granted for as long as the requests go on.
\<close>

locale once_store =
  fixes consume :: "jsval \<Rightarrow> jsval \<Rightarrow> ('w, jsval) callback" and spent :: "'w \<Rightarrow> jsval set"
  assumes grants_new: "consume i x w = (Inr (JBool True), w') \<Longrightarrow> i \<notin> spent w \<and> i \<in> spent w'"
    and keeps_spent: "consume i x w = (r, w') \<Longrightarrow> spent w \<subseteq> spent w'"
begin

text \<open>The identifiers granted by a sequence of requests, in order.\<close>

fun grants :: "(jsval \<times> jsval) list \<Rightarrow> 'w \<Rightarrow> jsval list" where
  "grants [] w = []"
| "grants ((i, x) # rs) w =
     (let (r, w') = consume i x w in (if r = Inr (JBool True) then [i] else []) @ grants rs w')"

lemma grants_fresh: "set (grants rs w) \<inter> spent w = {}"
proof (induction rs arbitrary: w)
  case (Cons q rs)
  obtain i x where q: "q = (i, x)" by (cases q)
  obtain r w' where c: "consume i x w = (r, w')" by (cases "consume i x w")
  from Cons.IH [of w'] keeps_spent [OF c] grants_new [of i x w w'] c show ?case
    by (auto simp: q)
qed simp

lemma grants_once: "distinct (grants rs w)"
proof (induction rs arbitrary: w)
  case (Cons q rs)
  obtain i x where q: "q = (i, x)" by (cases q)
  obtain r w' where c: "consume i x w = (r, w')" by (cases "consume i x w")
  from Cons.IH [of w'] grants_fresh [of rs w'] grants_new [of i x w w'] c show ?case
    by (auto simp: q)
qed simp

end

interpretation auth_store: once_store memory_consumeAuthId "\<lambda>m. set (consumedAuthIds m)"
  by unfold_locales (auto simp: memory_consumeAuthId_def split: if_splits)

interpretation delegation_store: once_store memory_consumeDelegationId "\<lambda>m. set (consumedDelegationIds m)"
  by unfold_locales (auto simp: memory_consumeDelegationId_def split: if_splits)

section \<open>The declared posture\<close>

text \<open>
  \<open>config.replayProtection\<close> and \<open>config.replayStore\<close>. A posture that is an object has a mode, which may be any
  value, and possibly a property \<open>store\<close>: absent, nullish, not a store at all, or a store.
\<close>

datatype 'w store_value = NullishStore | NotAStore | BadDelegationMethod | AStore "'w replay_store"

datatype 'w replay_posture =
    NotAnObject
  | Posture jsval "'w store_value option"  \<comment> \<open>mode, and the property \<open>store\<close> if there is one\<close>

record 'w replay_config =
  rc_replayProtection :: "'w replay_posture option"
  rc_replayStore :: "'w replay_store option"

datatype resolution_source = ExplicitShared | ExplicitProcessLocal | LegacyReplayStore | ImplicitDefault

record 'w replay_resolution =
  rr_store :: "'w replay_store"
  rr_source :: resolution_source

definition describe :: "jsval \<Rightarrow> string" where
  "describe v =
     (case v of
        JUndef \<Rightarrow> ''missing'' | JNull \<Rightarrow> ''null'' | JStr s \<Rightarrow> ''string '' @ json_str s | JArr _ \<Rightarrow> ''array''
      | JBool _ \<Rightarrow> ''boolean'' | JNum _ \<Rightarrow> ''number'' | JBig _ \<Rightarrow> ''bigint'' | JObj _ \<Rightarrow> ''object'' | JFun \<Rightarrow> ''function'')"

definition strictFromConfig :: "jsval \<Rightarrow> guard_error + bool" where
  "strictFromConfig v =
     (case v of
        JUndef \<Rightarrow> Inr False
      | JBool b \<Rightarrow> Inr b
      | _ \<Rightarrow> Inl (GuardConfigurationError
               (''requireExplicitReplayProtection must be a boolean when provided (got '' @ describe v @ '').'')))"

text \<open>\<open>mode === "shared"\<close>\<close>

definition shared_store :: "'w store_value option \<Rightarrow> guard_error + 'w replay_resolution" where
  "shared_store s =
     (case s of
        None \<Rightarrow> Inl (GuardConfigurationError ''replayProtection mode 'shared' requires a store (a durable, cross-instance replay backend).'')
      | Some NullishStore \<Rightarrow>
          Inl (GuardConfigurationError ''replayProtection mode 'shared' requires a store (a durable, cross-instance replay backend).'')
      | Some NotAStore \<Rightarrow>
          Inl (GuardConfigurationError ''replayProtection mode 'shared' requires a store implementing an async consumeAuthId(id, {expiry}) method.'')
      | Some BadDelegationMethod \<Rightarrow>
          Inl (GuardConfigurationError ''replayProtection store exposes a consumeDelegationId that is not callable.'')
      | Some (AStore st) \<Rightarrow>
          if isEphemeralReplayStore st
          then Inl (GuardConfigurationError (''replayProtection mode 'shared' requires a durable backend, but the OxDeAI built-in in-memory ''
                 @ ''store is process-local. Provide an external shared store (e.g. Redis/DynamoDB) or use ''
                 @ ''replayProtection:{mode:'process-local'} if a single-process store is intended.''))
          else Inr \<lparr>rr_store = st, rr_source = ExplicitShared\<rparr>)"

text \<open>
  \<open>local\<close> is the fresh store \<open>createInMemoryReplayStore()\<close> would return; the one-time migration warning of
  the last branch is console output and has no part in the result.
\<close>

definition resolveReplayProtection ::
  "'w replay_store \<Rightarrow> 'w replay_config \<Rightarrow> bool \<Rightarrow> guard_error + 'w replay_resolution" where
  "resolveReplayProtection local config strict =
     (if rc_replayProtection config \<noteq> None \<and> rc_replayStore config \<noteq> None
      then Inl (GuardConfigurationError ''Ambiguous replay configuration: set either replayProtection or the deprecated replayStore, not both.'')
      else case rc_replayProtection config of
        Some NotAnObject \<Rightarrow>
          Inl (GuardConfigurationError ''replayProtection must be an object: {mode:'process-local'} or {mode:'shared', store}.'')
      | Some (Posture mode st) \<Rightarrow>
          if mode \<noteq> JStr ''process-local'' \<and> mode \<noteq> JStr ''shared''
          then Inl (GuardConfigurationError
                 (''replayProtection.mode must be exactly 'process-local' or 'shared' (got '' @ describe mode @ '').''))
          else if mode = JStr ''process-local''
          then if st \<noteq> None
               then Inl (GuardConfigurationError (''replayProtection mode 'process-local' must not carry a store; use {mode:'shared', store} ''
                      @ ''to supply a backend, or drop the store property.''))
               else Inr \<lparr>rr_store = local, rr_source = ExplicitProcessLocal\<rparr>
          else shared_store st
      | None \<Rightarrow>
          (case rc_replayStore config of
             Some st \<Rightarrow> Inr \<lparr>rr_store = st, rr_source = LegacyReplayStore\<rparr>
           | None \<Rightarrow>
               if strict
               then Inl (GuardConfigurationError (''replay protection posture is required: set replayProtection to {mode:'process-local'} ''
                      @ ''(single-process in-memory) or {mode:'shared', store} (durable cross-instance backend). ''
                      @ ''There is no implicit default in strict mode.''))
               else Inr \<lparr>rr_store = local, rr_source = ImplicitDefault\<rparr>))"

text \<open>
  No unsafe posture is resolved silently: a shared posture never yields a built-in store, and a local
  store is used only if it was asked for or nothing at all was declared and strictness was not demanded.
\<close>

lemma resolved_store:
  assumes "resolveReplayProtection local config strict = Inr r"
  shows "case rr_source r of
      ExplicitShared \<Rightarrow> \<not> isEphemeralReplayStore (rr_store r) \<and>
        rc_replayProtection config = Some (Posture (JStr ''shared'') (Some (AStore (rr_store r))))
    | ExplicitProcessLocal \<Rightarrow> rr_store r = local \<and> rc_replayProtection config = Some (Posture (JStr ''process-local'') None)
    | LegacyReplayStore \<Rightarrow> rc_replayProtection config = None \<and> rc_replayStore config = Some (rr_store r)
    | ImplicitDefault \<Rightarrow> rr_store r = local \<and> rc_replayProtection config = None \<and> rc_replayStore config = None \<and> \<not> strict"
  using assms
  by (auto simp: resolveReplayProtection_def shared_store_def split: if_splits option.splits replay_posture.splits store_value.splits)

end
