(* ===== verification/ActionIntent.thy ===== *)
theory ActionIntent
  imports GuardEvents
begin

text \<open>
  From a proposed action to an intent: the default normalizer of \<open>normalizeAction.ts\<close>, the trusted
  execution context of \<open>trustedContext.ts\<close> and the reconciliation of proposer claims with it
  (\<open>provenance.ts\<close>). Actions and intents are JavaScript values, because custom normalizers and callers
  may hand over anything.
\<close>

section \<open>Action types\<close>

text \<open>
  \<open>toLowerCase\<close>, as far as ASCII letters of the result are concerned: besides \<open>A\<close> to \<open>Z\<close> these come from the
  Kelvin sign and, followed by a combining dot, from the dotted capital I.
\<close>

fun lower_ascii :: "string \<Rightarrow> string" where
  "lower_ascii (a # b # c # r) =
     (if a = CHR 0xE2 \<and> b = CHR 0x84 \<and> c = CHR 0xAA then CHR ''k'' # lower_ascii r
      else if a = CHR 0xC4 \<and> b = CHR 0xB0 then CHR ''i'' # CHR 0xCC # CHR 0x87 # lower_ascii (c # r)
      else (if 65 \<le> (of_char a :: nat) \<and> (of_char a :: nat) \<le> 90 then char_of (of_char a + 32 :: nat) else a)
             # lower_ascii (b # c # r))"
| "lower_ascii s = (if s = [CHR 0xC4, CHR 0xB0] then [CHR ''i'', CHR 0xCC, CHR 0x87]
     else map (\<lambda>a. if 65 \<le> (of_char a :: nat) \<and> (of_char a :: nat) \<le> 90 then char_of (of_char a + 32 :: nat) else a) s)"

definition inferActionType :: "string \<Rightarrow> string" where
  "inferActionType text =
     (let needle = lower_ascii text; has = (\<lambda>ws. list_ex (contains_sub needle) ws)
      in if has [''onchain'', ''blockchain'', ''chain'', ''mint'', ''swap''] then ''ONCHAIN_TX''
         else if has [''payment'', ''pay'', ''transfer'', ''send''] then ''PAYMENT''
         else if has [''purchase'', ''buy'', ''order'', ''subscribe''] then ''PURCHASE''
         else ''PROVISION'')"

definition hashArgs :: "host \<Rightarrow> jsval \<Rightarrow> string res" where
  "hashArgs h args =
     bindE (json_stringify h (JObj (map (\<lambda>k. (k, getp args k)) (sort_u16 (obj_keys args))))) (\<lambda>t.
       case t of Some s \<Rightarrow> Inr (sha256 h s) | None \<Rightarrow> Inl TypeError)"

section \<open>Numbers\<close>

text \<open>\<open>BigInt(text)\<close>\<close>

definition radix_digits :: "nat \<Rightarrow> string \<Rightarrow> int option" where
  "radix_digits b s =
     (if s \<noteq> [] \<and> list_all (\<lambda>c. case hex_val c of Some d \<Rightarrow> d < b | None \<Rightarrow> False) s
      then Some (foldl (\<lambda>acc c. acc * int b + int (the (hex_val c))) 0 s) else None)"

definition string_to_bigint :: "string \<Rightarrow> int option" where
  "string_to_bigint s =
     (let t = trim s; p = take 2 t
      in if t = [] then Some 0
         else if p = ''0x'' \<or> p = ''0X'' then radix_digits 16 (drop 2 t)
         else if p = ''0o'' \<or> p = ''0O'' then radix_digits 8 (drop 2 t)
         else if p = ''0b'' \<or> p = ''0B'' then radix_digits 2 (drop 2 t)
         else if hd t = CHR ''-'' then map_option uminus (radix_digits 10 (tl t))
         else if hd t = CHR ''+'' then radix_digits 10 (tl t)
         else radix_digits 10 t)"

text \<open>\<open>BigInt(Math.trunc(n))\<close> and \<open>BigInt(Math.round(n))\<close>; a number that is not finite is a \<open>RangeError\<close>.\<close>

fun trunc_to_bigint :: "jsnum \<Rightarrow> int option" where
  "trunc_to_bigint (Fin r) = Some (if 0 \<le> r then \<lfloor>r\<rfloor> else - \<lfloor>- r\<rfloor>)"
| "trunc_to_bigint _ = None"

fun round_to_bigint :: "jsnum \<Rightarrow> int option" where
  "round_to_bigint (Fin r) = Some \<lfloor>r + 1 / 2\<rfloor>"
| "round_to_bigint _ = None"

fun scale_by :: "jsnum \<Rightarrow> int \<Rightarrow> jsnum" where  \<comment> \<open>\<open>n * k\<close> for a positive \<open>k\<close>\<close>
  "scale_by (Fin r) k = rnd (r * of_int k)"
| "scale_by n k = n"

section \<open>The default normalizer\<close>

type_synonym 'w random = "nat \<Rightarrow> 'w \<Rightarrow> string \<times> 'w"  \<comment> \<open>\<open>randomBytes(n)\<close>, as bytes\<close>

definition hex_text :: "string \<Rightarrow> string" where
  "hex_text bs = concat (map (\<lambda>b. [hex_char (of_char b div 16), hex_char (of_char b mod 16)]) bs)"

definition normalization_error :: "string \<Rightarrow> (guard_error \<times> origin) + 'a" where
  "normalization_error m = Inl (NormalizationError m, Fresh)"

definition foreign_error :: "string \<Rightarrow> (guard_error \<times> origin) + 'a" where
  "foreign_error m = Inl (Foreign (Thrown m), Fresh)"

definition lift_foreign :: "'a res \<Rightarrow> (guard_error \<times> origin) + 'a" where
  "lift_foreign r = (case r of Inl x \<Rightarrow> Inl (Foreign x, Fresh) | Inr a \<Rightarrow> Inr a)"

definition requireContextString :: "jsval \<Rightarrow> string \<Rightarrow> (guard_error \<times> origin) + string" where
  "requireContextString ctx field =
     (case getp ctx field of
        JStr (c # s) \<Rightarrow> Inr (c # s)
      | _ \<Rightarrow> normalization_error (''ProposedAction.context.'' @ field
          @ '' is required for default normalization but was not provided or is not a non-empty string. Supply it via action.context.''
          @ field @ '' or provide a custom mapActionToIntent function.''))"

definition default_text :: "jsval \<Rightarrow> (unit \<Rightarrow> 'w \<Rightarrow> string \<times> 'w) \<Rightarrow> 'w \<Rightarrow> string \<times> 'w" where
  "default_text v otherwise w = (case v of JStr (c # s) \<Rightarrow> (c # s, w) | _ \<Rightarrow> otherwise () w)"

definition default_nonce :: "'w random \<Rightarrow> jsval \<Rightarrow> ('w, int) callback" where
  "default_nonce random v w =
     (case v of
        JBig i \<Rightarrow> (Inr i, w)
      | JNum n \<Rightarrow> ((case trunc_to_bigint n of Some i \<Rightarrow> Inr i | None \<Rightarrow> foreign_error ''RangeError''), w)
      | JStr s \<Rightarrow> ((case string_to_bigint s of Some i \<Rightarrow> Inr i | None \<Rightarrow> foreign_error ''SyntaxError''), w)
      | _ \<Rightarrow> (let (bs, w') = random 8 w in (Inr (the (string_to_bigint (''0x'' @ hex_text bs))), w')))"

definition normalized_amount :: "host \<Rightarrow> jsval \<Rightarrow> (guard_error \<times> origin) + int" where
  "normalized_amount h cost =
     (let units = coalesce cost (JNum (jint 0))
      in if \<not> v_finite units \<or> js_lt units (JNum (jint 0))
         then normalization_error (''ProposedAction.estimatedCost must be a non-negative finite number, got: '' @ js_string h units)
         else case round_to_bigint (scale_by (to_number units) 1000000) of
                Some i \<Rightarrow> Inr i | None \<Rightarrow> foreign_error ''RangeError'')"

definition normalized_timestamp :: "('w \<Rightarrow> jsnum \<times> 'w) \<Rightarrow> jsval \<Rightarrow> 'w \<Rightarrow> jsnum \<times> 'w" where
  "normalized_timestamp clock v w =
     (case v of
        JNum n \<Rightarrow> (case trunc_to_bigint n of Some i \<Rightarrow> (jint i, w) | None \<Rightarrow> clock w)
      | _ \<Rightarrow> clock w)"

definition normalized_intent :: "string \<Rightarrow> string \<Rightarrow> string \<Rightarrow> int \<Rightarrow> string \<Rightarrow> jsnum \<Rightarrow> string \<Rightarrow> int \<Rightarrow> jsval" where
  "normalized_intent iid agent ty amt tgt t m n =
     JObj [(''type'', JStr ''EXECUTE''), (''intent_id'', JStr iid), (''agent_id'', JStr agent),
           (''action_type'', JStr ty), (''amount'', JBig amt), (''target'', JStr tgt),
           (''timestamp'', JNum t), (''metadata_hash'', JStr m), (''nonce'', JBig n),
           (''signature'', JStr ''oxdeai-guard-placeholder'')]"

text \<open>\<open>resourceType ?? name\<close> is lower-cased, so a resource type that is no text is a \<open>TypeError\<close>.\<close>

definition action_type_of :: "string \<Rightarrow> jsval \<Rightarrow> (guard_error \<times> origin) + string" where
  "action_type_of name resourceType =
     (case coalesce resourceType (JStr name) of
        JStr s \<Rightarrow> Inr (inferActionType s)
      | _ \<Rightarrow> Inl (Foreign TypeError, Fresh))"

definition defaultNormalizeAction ::
  "host \<Rightarrow> 'w random \<Rightarrow> ('w \<Rightarrow> jsnum \<times> 'w) \<Rightarrow> jsval \<Rightarrow> ('w, jsval) callback" where
  "defaultNormalizeAction h random clock act w =
     (case getp act ''name'' of
        JStr (c # cs) \<Rightarrow>
          (let name = c # cs; args = getp act ''args''; ctx = getp act ''context''
           in if \<not> is_plain args
              then (normalization_error ''ProposedAction.args must be a plain object.'', w)
              else case requireContextString ctx ''agent_id'' of
                Inl x \<Rightarrow> (Inl x, w)
              | Inr agent \<Rightarrow>
                  (let (iid, w1) = default_text (getp ctx ''intent_id'')
                         (\<lambda>_ w. let (bs, w') = random 16 w in (hex_text bs, w')) w;
                       (tgt, w2) = default_text (getp ctx ''target'') (\<lambda>_ w. (name, w)) w1
                   in case default_nonce random (getp ctx ''nonce'') w2 of
                        (Inl x, w3) \<Rightarrow> (Inl x, w3)
                      | (Inr n, w3) \<Rightarrow>
                          (case normalized_amount h (getp act ''estimatedCost'') of
                             Inl x \<Rightarrow> (Inl x, w3)
                           | Inr amt \<Rightarrow>
                               (let (t, w4) = normalized_timestamp clock (getp act ''timestampSeconds'') w3
                                in (bindE (action_type_of name (getp act ''resourceType'')) (\<lambda>ty.
                                    bindE (lift_foreign (hashArgs h args)) (\<lambda>m.
                                      Inr (normalized_intent iid agent ty amt tgt t m n))), w4)))))
      | _ \<Rightarrow> (normalization_error ''ProposedAction.name must be a non-empty string.'', w))"

section \<open>The trusted execution context\<close>

text \<open>
  The brand is a symbol only \<open>createTrustedExecutionContext\<close> sets: a context with the brand is a value of
  this record, anything else the caller passes is a plain JavaScript value.
\<close>

record trusted_context =
  tc_principalId :: string
  tc_tenantId :: "string option"
  tc_agentId :: string
  tc_adapterId :: string
  tc_tool :: "string option"
  tc_routeClassification :: "string option"
  tc_depth :: jsnum

datatype context_value = Branded trusted_context | Unbranded jsval

fun isTrustedExecutionContext :: "context_value \<Rightarrow> bool" where
  "isTrustedExecutionContext (Branded _) = True"
| "isTrustedExecutionContext (Unbranded _) = False"

definition requireString :: "jsval \<Rightarrow> string \<Rightarrow> guard_error + string" where
  "requireString v field =
     (case v of
        JStr (c # s) \<Rightarrow> Inr (c # s)
      | _ \<Rightarrow> Inl (GuardConfigurationError (''TrustedExecutionContext.'' @ field
               @ '' must be a non-empty string. Context construction failed.'')))"

definition optionalString :: "jsval \<Rightarrow> string \<Rightarrow> guard_error + string option" where
  "optionalString v field = (if v = JUndef then Inr None else bindE (requireString v field) (Inr \<circ> Some))"

definition createTrustedExecutionContext :: "jsval \<Rightarrow> guard_error + trusted_context" where
  "createTrustedExecutionContext inp =
     (if \<not> is_object inp
      then Inl (GuardConfigurationError ''TrustedExecutionContext input must be an object. Context construction failed.'')
      else bindE (requireString (getp inp ''principalId'') ''principalId'') (\<lambda>principal.
           bindE (requireString (getp inp ''agentId'') ''agentId'') (\<lambda>agent.
           bindE (requireString (getp inp ''adapterId'') ''adapterId'') (\<lambda>adapter.
           bindE (optionalString (getp inp ''tenantId'') ''tenantId'') (\<lambda>tenant.
           bindE (optionalString (getp inp ''tool'') ''tool'') (\<lambda>tl.
           bindE (optionalString (getp inp ''routeClassification'') ''routeClassification'') (\<lambda>route.
             if \<not> v_safe_integer (getp inp ''depth'') \<or> js_lt (getp inp ''depth'') (JNum (jint 0))
             then Inl (GuardConfigurationError
                    (''TrustedExecutionContext.depth is required and must be a non-negative safe integer ''
                     @ ''derived from the protected execution chain. It is never defaulted: a missing depth ''
                     @ ''would silently represent a nested call as a root call. Context construction failed.''))
             else Inr \<lparr>tc_principalId = principal, tc_tenantId = tenant, tc_agentId = agent, tc_adapterId = adapter,
                       tc_tool = tl, tc_routeClassification = route, tc_depth = to_number (getp inp ''depth'')\<rparr>)))))))"

section \<open>Reconciliation\<close>

record provenance_field =
  pf_name :: string
  pf_derived :: "trusted_context \<Rightarrow> jsval option"
  pf_intent_claim :: bool  \<comment> \<open>the intent has a field of this name\<close>

text \<open>The table \<open>FIELDS\<close>: the first three have a field in the intent, the others are only compared.\<close>

definition FIELDS :: "provenance_field list" where
  "FIELDS =
     [\<lparr>pf_name = ''agent_id'', pf_derived = (\<lambda>ctx. Some (JStr (tc_agentId ctx))), pf_intent_claim = True\<rparr>,
      \<lparr>pf_name = ''tool'', pf_derived = (\<lambda>ctx. map_option JStr (tc_tool ctx)), pf_intent_claim = True\<rparr>,
      \<lparr>pf_name = ''depth'', pf_derived = (\<lambda>ctx. Some (JNum (tc_depth ctx))), pf_intent_claim = True\<rparr>,
      \<lparr>pf_name = ''principal_id'', pf_derived = (\<lambda>ctx. Some (JStr (tc_principalId ctx))), pf_intent_claim = False\<rparr>,
      \<lparr>pf_name = ''tenant_id'', pf_derived = (\<lambda>ctx. map_option JStr (tc_tenantId ctx)), pf_intent_claim = False\<rparr>,
      \<lparr>pf_name = ''adapter_id'', pf_derived = (\<lambda>ctx. Some (JStr (tc_adapterId ctx))), pf_intent_claim = False\<rparr>,
      \<lparr>pf_name = ''route_classification'', pf_derived = (\<lambda>ctx. map_option JStr (tc_routeClassification ctx)),
        pf_intent_claim = False\<rparr>]"

definition claimsOf :: "jsval list \<Rightarrow> jsval list" where
  "claimsOf vs = filter (\<lambda>v. \<not> nullish v) vs"

definition claims :: "provenance_field \<Rightarrow> jsval \<Rightarrow> jsval \<Rightarrow> jsval list res" where
  "claims f intent ctx =
     (if pf_intent_claim f
      then bindE (propE intent (pf_name f)) (\<lambda>v. Inr (claimsOf [v, getp ctx (pf_name f)]))
      else Inr (claimsOf [getp ctx (pf_name f)]))"

record reconciliation =
  rc_intent :: jsval
  rc_provenance :: provenance_record
  rc_conflicts :: "string list"

text \<open>One row of the comparison.\<close>

definition reconcile_field ::
  "trusted_context \<Rightarrow> string list \<Rightarrow> provenance_field \<Rightarrow> jsval list \<Rightarrow> reconciliation \<Rightarrow> reconciliation" where
  "reconcile_field ctx synthesized f cs r =
     (let name = pf_name f;
          outcome = (\<lambda>cp r. r\<lparr>rc_provenance := rc_provenance r @ [(name, cp)]\<rparr>);
          fill = (\<lambda>p r. if pf_intent_claim f then r\<lparr>rc_intent := spread_set (rc_intent r) name p\<rparr> else r)
      in case pf_derived f ctx of
           None \<Rightarrow> outcome (if cs \<noteq> [] then Unverified else Absent) r
         | Some premise \<Rightarrow>
             if cs = [] then fill premise (outcome Absent r)
             else if list_ex (\<lambda>c. c \<noteq> premise) cs
             then (outcome Conflict r)\<lparr>rc_conflicts := rc_conflicts r @ [name]\<rparr>
             else fill premise (outcome (if name \<in> set synthesized then Absent else Matched) r))"

fun reconcile_fields ::
  "trusted_context \<Rightarrow> string list \<Rightarrow> jsval \<Rightarrow> jsval \<Rightarrow> provenance_field list \<Rightarrow> reconciliation \<Rightarrow> reconciliation res" where
  "reconcile_fields ctx synthesized intent actx [] r = Inr r"
| "reconcile_fields ctx synthesized intent actx (f # fs) r =
     bindE (claims f intent actx) (\<lambda>cs.
       reconcile_fields ctx synthesized intent actx fs (reconcile_field ctx synthesized f cs r))"

definition reconcileWithTrustedContext ::
  "jsval \<Rightarrow> trusted_context \<Rightarrow> jsval \<Rightarrow> string list \<Rightarrow> (guard_error \<times> origin) + jsval \<times> provenance_record" where
  "reconcileWithTrustedContext intent ctx actx synthesized =
     bindE (lift_foreign (reconcile_fields ctx synthesized intent actx FIELDS
              \<lparr>rc_intent = JObj (entries intent), rc_provenance = [], rc_conflicts = []\<rparr>)) (\<lambda>r.
       if rc_conflicts r \<noteq> [] then Inl (ProvenanceConflictError (rc_conflicts r) (rc_provenance r), Fresh)
       else Inr (rc_intent r, rc_provenance r))"

end
