(* ===== verification/Revocation.thy ===== *)
theory Revocation
  imports GuardEvents VerifyKrl VerifyAuthorization
begin

text \<open>
  What the guard does before it trusts an input: settling the answer of a callback
  (\<open>settleCallback.ts\<close>), copying caller data (\<open>delegationSnapshot.ts\<close>), and enforcing signed key
  revocation lists (\<open>revocation.ts\<close>): key identities, the frozen trust snapshot, the watermark store and
  the evaluation of the revocation evidence.
\<close>

section \<open>Settling callbacks\<close>

text \<open>
  What a callback returns synchronously: it threw, it returned a plain value, or a promise, which is
  settled later, in the world as it is then.
\<close>

datatype ('w, 'a) reply = Threw "guard_error \<times> origin" | Plain 'a | Promise "('w, 'a) callback"

type_synonym ('w, 'a) async = "'w \<Rightarrow> ('w, 'a) reply \<times> 'w"

datatype 'a settled = Tampered | Settled 'a

text \<open>\<open>polluted w\<close> is \<open>builtinPrototypeHasThen()\<close> at the moment of \<open>w\<close>.\<close>

definition settleCallback :: "('w \<Rightarrow> bool) \<Rightarrow> ('w, 'a) async \<Rightarrow> ('w, 'a settled) callback" where
  "settleCallback polluted cb w =
     (if polluted w then (Inr Tampered, w)
      else case cb w of
        (Threw x, w1) \<Rightarrow> (Inl x, w1)
      | (Plain v, w1) \<Rightarrow> (Inr (if polluted w1 then Tampered else Settled v), w1)
      | (Promise p, w1) \<Rightarrow>
          if polluted w1 then (Inr Tampered, w1)
          else (case p w1 of
              (Inl x, w2) \<Rightarrow> (Inl x, w2)
            | (Inr v, w2) \<Rightarrow> (Inr (if polluted w2 then Tampered else Settled v), w2)))"

lemma settled_clean:
  assumes "settleCallback polluted cb w = (Inr (Settled v), w')"
  shows "\<not> polluted w \<and> \<not> polluted w'"
  using assms by (auto simp: settleCallback_def split: if_splits reply.splits prod.splits sum.splits)

section \<open>Snapshots of caller data\<close>

text \<open>
  A JavaScript value of this model is plain data but for functions, so what is left of
  \<open>snapshotPlainData\<close> is the refusal of functions and of deep nesting, with the position in the message;
  no limit is \<open>None\<close>.
\<close>

definition MAX_DEPTH :: nat where
  "MAX_DEPTH = 8"

definition too_deep :: "nat option \<Rightarrow> nat \<Rightarrow> bool" where
  "too_deep maxDepth d = (case maxDepth of Some m \<Rightarrow> m \<le> d | None \<Rightarrow> False)"

definition depth_error :: "nat option \<Rightarrow> string \<Rightarrow> string + 'a" where
  "depth_error maxDepth pos = Inl (pos @ '': nesting exceeds '' @ nat_str (the maxDepth))"

lemma indexed_size: "(i, x) \<in> set (enumerate n xs) \<Longrightarrow> size x < size (JArr xs)"
  using size_list_estimation' [of x xs _ size, OF _ order_refl] by (auto dest!: in_set_enumerate_eq [THEN iffD1])

function (sequential) snapshotValue :: "nat option \<Rightarrow> nat \<Rightarrow> string \<Rightarrow> jsval \<Rightarrow> string + jsval" where
  "snapshotValue maxDepth d pos JFun = Inl (pos @ '': unsupported value type function'')"
| "snapshotValue maxDepth d pos (JArr xs) =
     (if too_deep maxDepth d then depth_error maxDepth pos
      else bindE (mapE (\<lambda>(i, x). snapshotValue maxDepth (Suc d) (pos @ ''['' @ nat_str i @ '']'') x) (enumerate 0 xs))
             (\<lambda>ys. Inr (JArr ys)))"
| "snapshotValue maxDepth d pos (JObj kvs) =
     (if too_deep maxDepth d then depth_error maxDepth pos
      else bindE (mapE (\<lambda>(k, x). bindE (snapshotValue maxDepth (Suc d) (pos @ ''.'' @ k) x) (\<lambda>y. Inr (k, y))) kvs)
             (\<lambda>es. Inr (JObj es)))"
| "snapshotValue maxDepth d pos v = Inr v"
  by pat_completeness auto
termination
  by (relation "measure (\<lambda>(m, d, p, v). size v)") (auto dest: indexed_size jsobj_size)

definition snapshotPlainData :: "nat option \<Rightarrow> string \<Rightarrow> jsval \<Rightarrow> string + jsval" where
  "snapshotPlainData maxDepth pos v = snapshotValue maxDepth 0 pos v"

text \<open>The copy is the value.\<close>

lemma snapshotValue_same: "snapshotValue mx d p v = Inr w \<Longrightarrow> w = v"
proof (induction v arbitrary: d p w rule: measure_induct_rule [of size])
  case (less v)
  show ?case
  proof (cases v)
    case (JArr xs)
    with less.prems obtain ys where w: "w = JArr ys" and
      ys: "mapE (\<lambda>(i, x). snapshotValue mx (Suc d) (p @ ''['' @ nat_str i @ '']'') x) (enumerate 0 xs) = Inr ys"
      by (auto simp: depth_error_def bindE_eq_Inr split: if_splits)
    have "ys = xs"
    proof (rule nth_equalityI)
      show len: "length ys = length xs" using mapE_length [OF ys] by simp
      fix i assume i: "i < length ys"
      then have e: "enumerate 0 xs ! i = (i, xs ! i)" by (simp add: len nth_enumerate_eq)
      from ys have "list_all2 (\<lambda>q y. (case q of (i, x) \<Rightarrow> snapshotValue mx (Suc d) (p @ ''['' @ nat_str i @ '']'') x) = Inr y)
          (enumerate 0 xs) ys" by (simp add: mapE_Inr_iff)
      from list_all2_nthD2 [OF this i] e
      have "snapshotValue mx (Suc d) (p @ ''['' @ nat_str i @ '']'') (xs ! i) = Inr (ys ! i)" by simp
      moreover have "size (xs ! i) < size v"
        using indexed_size [of i "xs ! i" 0 xs] i len by (simp add: JArr in_set_enumerate_eq)
      ultimately show "ys ! i = xs ! i" using less.IH by blast
    qed
    then show ?thesis by (simp add: w JArr)
  next
    case (JObj kvs)
    with less.prems obtain es where w: "w = JObj es" and
      es: "list_all2 (\<lambda>q y. (case q of (k, x) \<Rightarrow> bindE (snapshotValue mx (Suc d) (p @ ''.'' @ k) x) (\<lambda>y. Inr (k, y))) = Inr y) kvs es"
      by (auto simp: depth_error_def bindE_eq_Inr mapE_Inr_iff split: if_splits)
    have "es = kvs"
    proof (rule nth_equalityI)
      show len: "length es = length kvs" using es by (simp add: list_all2_lengthD)
      fix i assume i: "i < length es"
      obtain k x where e: "kvs ! i = (k, x)" by (cases "kvs ! i")
      from list_all2_nthD2 [OF es i] e obtain y where
        "snapshotValue mx (Suc d) (p @ ''.'' @ k) x = Inr y" "es ! i = (k, y)"
        by (auto simp: bindE_eq_Inr)
      moreover have "size x < size v"
        using jsobj_size [of k x kvs] i len nth_mem [of i kvs] e by (simp add: JObj)
      ultimately show "es ! i = kvs ! i" using less.IH e by auto
    qed
    then show ?thesis by (simp add: w JObj)
  qed (use less.prems in auto)
qed

lemma snapshot_same: "snapshotPlainData mx p v = Inr w \<Longrightarrow> w = v"
  unfolding snapshotPlainData_def by (rule snapshotValue_same)

section \<open>Watermarks\<close>

record watermark =
  wm_krlVersion :: jsval
  wm_digest :: jsval

type_synonym 'w accept = "string \<Rightarrow> watermark \<Rightarrow> ('w, jsval) callback"

text \<open>\<open>createInMemoryKrlWatermarkStore\<close>: the marks are an association list in the world.\<close>

definition memory_accept :: "(string \<times> watermark) list accept" where
  "memory_accept krlIssuer candidate marks =
     (if krlIssuer = [] \<or> \<not> v_safe_integer (wm_krlVersion candidate)
         \<or> js_lt (wm_krlVersion candidate) (JNum (jint 0))
         \<or> (case wm_digest candidate of JStr d \<Rightarrow> \<not> (length d = 64 \<and> list_all is_lower_hex d) | _ \<Rightarrow> True)
      then (Inr (JStr ''REJECTED''), marks)
      else case map_of marks krlIssuer of
        Some current \<Rightarrow>
          if js_lt (wm_krlVersion candidate) (wm_krlVersion current) then (Inr (JStr ''REJECTED''), marks)
          else if wm_krlVersion candidate = wm_krlVersion current
          then (Inr (JStr (if wm_digest candidate = wm_digest current then ''ACCEPTED'' else ''REJECTED'')), marks)
          else (Inr (JStr ''ACCEPTED''), AList.update krlIssuer candidate marks)
      | None \<Rightarrow> (Inr (JStr ''ACCEPTED''), AList.update krlIssuer candidate marks))"

text \<open>
  What the enforcement relies on: a store never lowers the version of an issuer and never replaces the
  digest of a version.
\<close>

locale watermark_store =
  fixes accept :: "'w accept" and mark :: "'w \<Rightarrow> string \<Rightarrow> (int \<times> jsval) option"
  assumes accepted_marks: "accept i \<lparr>wm_krlVersion = v, wm_digest = d\<rparr> w = (Inr (JStr ''ACCEPTED''), w') \<Longrightarrow>
      \<exists>n. v = JNum (jint n) \<and> mark w' i = Some (n, d)"
    and marks_grow: "accept i c w = (r, w') \<Longrightarrow> mark w j = Some (n, d) \<Longrightarrow>
      \<exists>m e. mark w' j = Some (m, e) \<and> (n < m \<or> n = m \<and> d = e)"
begin

text \<open>Accepted evidence of one issuer is never older than evidence accepted before, nor a second text of its version.\<close>

lemma no_rollback:
  assumes "accept i \<lparr>wm_krlVersion = JNum (jint n), wm_digest = d\<rparr> w = (Inr (JStr ''ACCEPTED''), w1)"
    and "accept i \<lparr>wm_krlVersion = JNum (jint m), wm_digest = e\<rparr> w1 = (Inr (JStr ''ACCEPTED''), w2)"
  shows "n < m \<or> n = m \<and> d = e"
proof -
  have "mark w1 i = Some (n, d)" using accepted_marks [OF assms(1)] by auto
  moreover have "mark w2 i = Some (m, e)" using accepted_marks [OF assms(2)] by auto
  ultimately show ?thesis using marks_grow [OF assms(2), of i n d] by auto
qed

end

definition memory_mark :: "(string \<times> watermark) list \<Rightarrow> string \<Rightarrow> (int \<times> jsval) option" where
  "memory_mark marks i =
     (case map_of marks i of
        Some c \<Rightarrow> (case wm_krlVersion c of JNum n \<Rightarrow> if is_safe_integer n then Some (int_of n, wm_digest c) else None | _ \<Rightarrow> None)
      | None \<Rightarrow> None)"

lemma memory_accept_cases:
  assumes "memory_accept i c marks = (r, marks')"
  obtains "marks' = marks" "r = Inr (JStr ''REJECTED'')"
  | n cur where "wm_krlVersion c = JNum (jint n)" "\<bar>n\<bar> \<le> max_safe" "marks' = marks" "r = Inr (JStr ''ACCEPTED'')"
      "map_of marks i = Some cur" "wm_krlVersion cur = JNum (jint n)" "wm_digest cur = wm_digest c"
  | n where "wm_krlVersion c = JNum (jint n)" "\<bar>n\<bar> \<le> max_safe" "marks' = AList.update i c marks" "r = Inr (JStr ''ACCEPTED'')"
      "\<And>cur. map_of marks i = Some cur \<Longrightarrow> \<not> js_lt (JNum (jint n)) (wm_krlVersion cur) \<and> JNum (jint n) \<noteq> wm_krlVersion cur"
proof (cases "v_safe_integer (wm_krlVersion c)")
  case True
  then obtain n where n: "wm_krlVersion c = JNum (jint n)" "\<bar>n\<bar> \<le> max_safe" by (auto elim: v_safe_integerE)
  show thesis
  proof (cases "map_of marks i")
    case None
    with assms n that show thesis by (auto simp: memory_accept_def split: if_splits)
  next
    case (Some cur)
    with assms n that show thesis by (auto simp: memory_accept_def split: if_splits)
  qed
next
  case False
  with assms that(1) show thesis by (simp add: memory_accept_def)
qed

interpretation memory_watermarks: watermark_store memory_accept memory_mark
proof unfold_locales
  fix i v d w w'
  assume "memory_accept i \<lparr>wm_krlVersion = v, wm_digest = d\<rparr> w = (Inr (JStr ''ACCEPTED''), w')"
  then show "\<exists>n. v = JNum (jint n) \<and> memory_mark w' i = Some (n, d)"
    by (rule memory_accept_cases) (auto simp: memory_mark_def)
next
  fix i c w r w' j n d
  assume run: "memory_accept i c w = (r, w')" and m: "memory_mark w j = Some (n, d)"
  then obtain cur where cur: "map_of w j = Some cur" "wm_krlVersion cur = JNum (jint n)" "wm_digest cur = d" "\<bar>n\<bar> \<le> max_safe"
    by (auto simp: memory_mark_def elim!: is_safe_integerE split: option.splits jsval.splits if_splits)
  from run show "\<exists>m e. memory_mark w' j = Some (m, e) \<and> (n < m \<or> n = m \<and> d = e)"
  proof (rule memory_accept_cases)
    fix k
    assume k: "wm_krlVersion c = JNum (jint k)" "\<bar>k\<bar> \<le> max_safe" "w' = AList.update i c w"
      and new: "\<And>cur. map_of w i = Some cur \<Longrightarrow> \<not> js_lt (JNum (jint k)) (wm_krlVersion cur) \<and> JNum (jint k) \<noteq> wm_krlVersion cur"
    show ?thesis
    proof (cases "j = i")
      case True
      with new [of cur] cur have "n < k" by auto
      with True k show ?thesis by (auto simp: memory_mark_def)
    next
      case False
      with m k(3) show ?thesis by (auto simp: memory_mark_def)
    qed
  qed (use m in auto)
qed

end
