(* ===== verification/RevocationEvidence.thy ===== *)
theory RevocationEvidence
  imports Revocation
begin

text \<open>
  \<open>revocation.ts\<close>, continued: the canonical identity of a key, the validated snapshot of the trusted key
  sets, the resolved configuration, and \<open>evaluateRevocation\<close> in its phases.
\<close>

section \<open>Keys\<close>

definition resolveAuthorizationSigningKid :: "jsval \<Rightarrow> jsval option" where
  "resolveAuthorizationSigningKid auth =
     (if \<not> is_plain auth then None
      else let sig = getp auth ''signature''
           in if is_plain sig
              then (if \<not> has_text (getp sig ''kid'') then None
                    else if getp auth ''kid'' \<noteq> JUndef \<and> getp auth ''kid'' \<noteq> getp sig ''kid'' then None
                    else Some (getp sig ''kid''))
              else if is_string sig then (if has_text (getp auth ''kid'') then Some (getp auth ''kid'') else None)
              else None)"

definition pinKeySet :: "keyset list \<Rightarrow> jsval \<Rightarrow> jsval \<Rightarrow> keyset list" where
  "pinKeySet keySets issuer kid =
     (case find (\<lambda>k. JStr (ks_issuer k) = issuer) keySets of
        Some ks \<Rightarrow> [ks\<lparr>ks_keys := filter (\<lambda>k. JStr (key_kid k) = kid) (ks_keys ks)\<rparr>]
      | None \<Rightarrow> [])"

text \<open>
  \<open>ed25519PublicKeyIdentity\<close>: the digest of the SPKI DER export, which for Ed25519 is a fixed header before
  the 32 bytes of the key. The cache returns what was computed, so it does not appear.
\<close>

definition SPKI_HEADER :: string where
  "SPKI_HEADER = ''302a300506032b6570032100''"

definition ed25519PublicKeyIdentity :: "host \<Rightarrow> string \<Rightarrow> string option" where
  "ed25519PublicKeyIdentity h publicKey =
     (if publicKey = [] then None
      else let pem = normalizePem publicKey
           in if contains_sub pem ''PRIVATE KEY'' then None
              else case wire_key h pem of
                Inr (Some hex) \<Rightarrow> Some (sha256 h (hex_bytes (SPKI_HEADER @ hex)))
              | _ \<Rightarrow> None)"

section \<open>The trust snapshot\<close>

definition key_name :: "string \<Rightarrow> string \<Rightarrow> string" where  \<comment> \<open>\<open>JSON.stringify([issuer, kid])\<close>\<close>
  "key_name issuer kid = ''['' @ json_str issuer @ '','' @ json_str kid @ '']''"

definition status_text :: "key_status option \<Rightarrow> string" where
  "status_text s = (case s of None \<Rightarrow> ''undefined'' | Some Active \<Rightarrow> ''active'' | Some Retired \<Rightarrow> ''retired'' | Some Revoked \<Rightarrow> ''revoked'')"

definition registration :: "host \<Rightarrow> string \<Rightarrow> keyset_key \<Rightarrow> string" where
  "registration h i k =
     i @ ''|'' @ status_text (key_status k) @ ''|'' @ js_string h (opt_val JNum (not_before k)) @ ''|''
       @ js_string h (opt_val JNum (not_after k))"

record trust_scan =
  ownerOfKey :: "(string \<times> string) list"
  entryOfIdentity :: "(string \<times> string) list"

definition trust_error :: "string \<Rightarrow> guard_error + 'a" where
  "trust_error m = Inl (GuardConfigurationError (''trustedKeySets: '' @ m))"

definition register_key :: "host \<Rightarrow> string \<Rightarrow> string \<Rightarrow> string \<Rightarrow> keyset_key \<Rightarrow> trust_scan \<Rightarrow> guard_error + trust_scan" where
  "register_key h who name i k sc =
     (let entry = registration h i k;
          after = Inr \<lparr>ownerOfKey = AList.update i name (ownerOfKey sc),
                      entryOfIdentity = AList.update name entry (entryOfIdentity sc)\<rparr>
      in case map_of (entryOfIdentity sc) name of
           Some prior \<Rightarrow> if prior \<noteq> entry
             then trust_error (who @ '': conflicting registrations for the same (issuer, kid).'') else after
         | None \<Rightarrow> after)"

definition scan_key :: "host \<Rightarrow> string list \<Rightarrow> string \<Rightarrow> string \<Rightarrow> keyset_key \<Rightarrow> trust_scan \<Rightarrow> guard_error + trust_scan" where
  "scan_key h krl pos issuer k sc =
     (if key_kid k = [] then trust_error (pos @ '' must have a non-empty kid.'')
      else
        let name = key_name issuer (key_kid k);
            who = pos @ '' (issuer '' @ json_str issuer @ '', kid '' @ json_str (key_kid k) @ '')''
        in if key_alg k \<noteq> Ed25519
           then trust_error (who @ '': only Ed25519 keys are supported when SignedKRLV1 revocation is enabled.'')
           else case ed25519PublicKeyIdentity h (public_key k) of
             None \<Rightarrow> trust_error (who @ '': public_key is not a valid Ed25519 public key.'')
           | Some i \<Rightarrow>
               if i \<in> set krl
               then trust_error (who @ '': this key is also a trusted KRL signing key; the KRL trust domain must be separate (signed-krl-v1 ''
                      @ [CHR 0xC2, CHR 0xA7] @ ''2).'')
               else (case map_of (ownerOfKey sc) i of
                   Some owner \<Rightarrow> if owner \<noteq> name
                     then trust_error (who @ '': the same public key is already registered as (issuer, kid) '' @ owner
                            @ ''; a signing key must have exactly one identity.'')
                     else register_key h who name i k sc
                 | None \<Rightarrow> register_key h who name i k sc))"

fun scan_keys :: "host \<Rightarrow> string list \<Rightarrow> nat \<Rightarrow> nat \<Rightarrow> string \<Rightarrow> keyset_key list \<Rightarrow> trust_scan \<Rightarrow> guard_error + trust_scan" where
  "scan_keys h krl i j issuer [] sc = Inr sc"
| "scan_keys h krl i j issuer (k # ks) sc =
     bindE (scan_key h krl (''['' @ nat_str i @ ''].keys['' @ nat_str j @ '']'') issuer k sc)
       (scan_keys h krl i (Suc j) issuer ks)"

fun scan_sets :: "host \<Rightarrow> string list \<Rightarrow> nat \<Rightarrow> keyset list \<Rightarrow> trust_scan \<Rightarrow> guard_error + trust_scan" where
  "scan_sets h krl i [] sc = Inr sc"
| "scan_sets h krl i (s # ss) sc =
     (if ks_issuer s = [] then trust_error (''['' @ nat_str i @ ''] must have a non-empty issuer and a keys array.'')
      else bindE (scan_keys h krl i 0 (ks_issuer s) (ks_keys s) sc) (scan_sets h krl (Suc i) ss))"

text \<open>Key sets are typed data here, so the copy of \<open>snapshotPlainData\<close> is the value itself.\<close>

definition validatedTrustSnapshot :: "host \<Rightarrow> keyset list \<Rightarrow> string list \<Rightarrow> guard_error + keyset list" where
  "validatedTrustSnapshot h live krl =
     bindE (scan_sets h krl 0 live \<lparr>ownerOfKey = [], entryOfIdentity = []\<rparr>) (\<lambda>_. Inr live)"

section \<open>The configuration\<close>

record krl_scope =
  sc_krlIssuer :: string
  sc_keyIssuers :: "string list"

record 'w revocation_config =
  gr_trustedKrlKeySets :: "keyset list"
  gr_scopes :: "krl_scope list"
  gr_provider :: "('w, jsval) async"
  gr_accept :: "'w accept"

record 'w resolved_revocation =
  rv_trustedKrlKeySets :: "keyset list"
  rv_krlKeyIdentities :: "string list"
  rv_scopes :: "krl_scope list"
  rv_provider :: "('w, jsval) async"
  rv_accept :: "'w accept"

definition revocation_error :: "string \<Rightarrow> guard_error + 'a" where
  "revocation_error m = Inl (GuardConfigurationError (''config.revocation: '' @ m))"

definition krl_identities :: "host \<Rightarrow> keyset list \<Rightarrow> guard_error + string list" where
  "krl_identities h krlSets =
     bindE (mapE (\<lambda>(i, ks). mapE (\<lambda>(j, k). case ed25519PublicKeyIdentity h (public_key k) of
                Some d \<Rightarrow> Inr d
              | None \<Rightarrow> revocation_error (''trustedKrlKeySets['' @ nat_str i @ ''].keys['' @ nat_str j
                  @ ''] is not a valid Ed25519 public key.'')) (enumerate 0 (ks_keys ks))) (enumerate 0 krlSets)) (\<lambda>ids.
       Inr (concat ids))"

fun check_scopes :: "string list \<Rightarrow> krl_scope list \<Rightarrow> guard_error + unit" where
  "check_scopes seen [] = Inr ()"
| "check_scopes seen (s # ss) =
     (if sc_krlIssuer s = [] \<or> sc_keyIssuers s = [] \<or> [] \<in> set (sc_keyIssuers s)
      then revocation_error ''each scope must be { krlIssuer: string, keyIssuers: non-empty string[] }.''
      else if sc_krlIssuer s \<in> set seen
      then revocation_error (''duplicate scope for krlIssuer \"'' @ sc_krlIssuer s @ ''\".'')
      else check_scopes (sc_krlIssuer s # seen) ss)"

definition resolveRevocationConfig ::
  "host \<Rightarrow> 'w revocation_config option \<Rightarrow> keyset list \<Rightarrow> guard_error + 'w resolved_revocation option" where
  "resolveRevocationConfig h config trustedKeySets =
     (case config of
        None \<Rightarrow> Inr None
      | Some c \<Rightarrow>
          if gr_trustedKrlKeySets c = []
          then revocation_error ''trustedKrlKeySets must be a non-empty KeySet or KeySet array.''
          else if list_ex (\<lambda>ks. ks_issuer ks = [] \<or> ks_keys ks = []) (gr_trustedKrlKeySets c)
          then revocation_error ''each trusted KRL key set needs an issuer and keys.''
          else bindE (krl_identities h (gr_trustedKrlKeySets c)) (\<lambda>ids.
               bindE (validatedTrustSnapshot h trustedKeySets ids) (\<lambda>_.
               if gr_scopes c = [] then revocation_error ''scopes must be a non-empty array.''
               else bindE (check_scopes [] (gr_scopes c)) (\<lambda>_.
                 Inr (Some \<lparr>rv_trustedKrlKeySets = gr_trustedKrlKeySets c, rv_krlKeyIdentities = ids,
                            rv_scopes = gr_scopes c, rv_provider = gr_provider c, rv_accept = gr_accept c\<rparr>)))))"

section \<open>Evaluation\<close>

datatype key_role = ParentRole | DelegationRole

record checked_key =
  ck_role :: key_role
  ck_issuer :: jsval
  ck_kid :: jsval

datatype denial = Unavailable string | InvalidEvidence string | RevokedKey checked_key

text \<open>Which envelope belongs to which publisher: unknown and duplicate publishers are refused.\<close>

fun by_issuer :: "string list \<Rightarrow> (string \<times> jsval) list \<Rightarrow> jsval list \<Rightarrow> denial + (string \<times> jsval) list" where
  "by_issuer scopeIssuers acc [] = Inr acc"
| "by_issuer scopeIssuers acc (env # envs) =
     (case (if is_plain env then getp env ''issuer'' else JUndef) of
        JStr (c # s) \<Rightarrow>
          if c # s \<notin> set scopeIssuers then Inl (InvalidEvidence ''KRL from an unconfigured or missing issuer'')
          else if map_of acc (c # s) \<noteq> None
          then Inl (InvalidEvidence (''more than one KRL for issuer \"'' @ c # s @ ''\"''))
          else by_issuer scopeIssuers (acc @ [(c # s, env)]) envs
      | _ \<Rightarrow> Inl (InvalidEvidence ''KRL from an unconfigured or missing issuer''))"

record applied_krl =
  ak_krlIssuer :: string
  ak_keyIssuers :: "string list"
  ak_revoked :: "jsval list"
  ak_watermark :: watermark

text \<open>Phase 1: every publisher's list is there and verifies.\<close>

definition apply_scope :: "host \<Rightarrow> keyset list \<Rightarrow> jsnum \<Rightarrow> (string \<times> jsval) list \<Rightarrow> krl_scope \<Rightarrow> denial + applied_krl" where
  "apply_scope h krlSets now found s =
     (case map_of found (sc_krlIssuer s) of
        None \<Rightarrow> Inl (Unavailable (''no KRL for issuer \"'' @ sc_krlIssuer s @ ''\"''))
      | Some env \<Rightarrow>
          let r = verifySignedKrl h now \<lparr>vk_now = Some now, vk_trustedKeySets = Some (KeySets krlSets),
                    vk_previousVersions = JUndef\<rparr> env
          in if \<not> vr_ok r
             then Inl (InvalidEvidence (''KRL \"'' @ sc_krlIssuer s @ ''\" rejected: ''
                    @ comma_join (map (code_str \<circ> v_code) (vr_violations r))))
             else case sha256HexFromJson h (signedKrlSigningPayload env) of
                    Inl _ \<Rightarrow> Inl (InvalidEvidence (''KRL \"'' @ sc_krlIssuer s @ ''\" canonicalization failed''))
                  | Inr d \<Rightarrow> Inr \<lparr>ak_krlIssuer = sc_krlIssuer s, ak_keyIssuers = sc_keyIssuers s,
                      ak_revoked = (case getp env ''revoked_kids'' of JArr ks \<Rightarrow> ks | _ \<Rightarrow> []),
                      ak_watermark = \<lparr>wm_krlVersion = getp env ''krl_version'', wm_digest = JStr d\<rparr>\<rparr>)"

definition covers :: "checked_key \<Rightarrow> applied_krl \<Rightarrow> bool" where
  "covers k a = (ck_issuer k \<in> JStr ` set (ak_keyIssuers a))"

text \<open>Phase 2: every key has a publisher that may revoke it.\<close>

definition uncovered :: "checked_key list \<Rightarrow> applied_krl list \<Rightarrow> checked_key option" where
  "uncovered keys applied = find (\<lambda>k. \<not> list_ex (covers k) applied) keys"

text \<open>Phase 3: the watermarks are accepted one after another.\<close>

fun accept_watermarks :: "'w accept \<Rightarrow> applied_krl list \<Rightarrow> ('w, denial option) step" where
  "accept_watermarks accept [] = returnG None"
| "accept_watermarks accept (a # as) =
     bindG (invoke (\<lambda>_. [AcceptWatermark (ak_krlIssuer a)]) (accept (ak_krlIssuer a) (ak_watermark a))) (\<lambda>r.
       case r of
         Inl _ \<Rightarrow> returnG (Some (Unavailable ''KRL watermark store unavailable''))
       | Inr v \<Rightarrow>
           if v = JStr ''REJECTED''
           then returnG (Some (InvalidEvidence (''KRL \"'' @ ak_krlIssuer a @ ''\" version regression or digest conflict'')))
           else if v \<noteq> JStr ''ACCEPTED''
           then returnG (Some (Unavailable ''KRL watermark store returned an indeterminate result''))
           else accept_watermarks accept as)"

text \<open>Phase 4: no key is revoked by a list that covers its issuer.\<close>

definition revoked_key :: "checked_key list \<Rightarrow> applied_krl list \<Rightarrow> checked_key option" where
  "revoked_key keys applied = find (\<lambda>k. list_ex (\<lambda>a. covers k a \<and> ck_kid k \<in> set (ak_revoked a)) applied) keys"

definition apply_evidence :: "host \<Rightarrow> 'w resolved_revocation \<Rightarrow> jsnum \<Rightarrow> checked_key list \<Rightarrow> jsval list
    \<Rightarrow> denial + applied_krl list" where
  "apply_evidence h cfg now keys raw =
     bindE (by_issuer (map sc_krlIssuer (rv_scopes cfg)) [] raw) (\<lambda>found.
     bindE (mapE (apply_scope h (rv_trustedKrlKeySets cfg) now found) (rv_scopes cfg)) (\<lambda>applied.
       case uncovered keys applied of
         Some k \<Rightarrow> Inl (Unavailable ''no revocation authority configured for key issuer'')
       | None \<Rightarrow> Inr applied))"

definition evaluateRevocation ::
  "host \<Rightarrow> ('w \<Rightarrow> bool) \<Rightarrow> 'w resolved_revocation \<Rightarrow> jsnum \<Rightarrow> checked_key list \<Rightarrow> ('w, denial option) step" where
  "evaluateRevocation h polluted cfg now keys =
     bindG (invoke (\<lambda>_. []) (settleCallback polluted (rv_provider cfg))) (\<lambda>r.
       case r of
         Inl x \<Rightarrow> returnG (Some (Unavailable (''revocation provider failed: '' @ error_message (fst x))))
       | Inr Tampered \<Rightarrow> returnG (Some (Unavailable
           ''a built-in prototype defines `then` (prototype pollution); the revocation provider's answer cannot be trusted''))
       | Inr (Settled v) \<Rightarrow>
           (case v of
              JArr _ \<Rightarrow>
                (case structuredClone v of
                   Inr (JArr raw) \<Rightarrow>
                     (case apply_evidence h cfg now keys raw of
                        Inl d \<Rightarrow> returnG (Some d)
                      | Inr applied \<Rightarrow>
                          bindG (accept_watermarks (rv_accept cfg) applied) (\<lambda>refused.
                            case refused of
                              Some d \<Rightarrow> returnG (Some d)
                            | None \<Rightarrow> returnG (map_option RevokedKey (revoked_key keys applied))))
                 | _ \<Rightarrow> returnG (Some (InvalidEvidence ''KRL provider returned a non-cloneable list'')))
            | _ \<Rightarrow> returnG (Some (Unavailable ''revocation provider returned no KRL list''))))"

section \<open>What a pass means\<close>

text \<open>
  If no denial is returned, every checked key is covered by a verified list of one of its publishers and
  named by none of the verified lists that cover it.
\<close>

lemma apply_evidence_Inr:
  assumes "apply_evidence h cfg now keys raw = Inr applied"
  shows "\<forall>k \<in> set keys. \<exists>a \<in> set applied. covers k a"
  using assms
  by (auto simp: apply_evidence_def bindE_eq_Inr uncovered_def find_None_iff list_ex_iff split: option.splits)

lemma revoked_key_None: "revoked_key keys applied = None \<longleftrightarrow>
    (\<forall>k \<in> set keys. \<forall>a \<in> set applied. covers k a \<longrightarrow> ck_kid k \<notin> set (ak_revoked a))"
  by (auto simp: revoked_key_def find_None_iff list_ex_iff)

lemma evaluateRevocation_pass:
  assumes "evaluateRevocation h polluted cfg now keys p = (Inr None, p')"
  obtains raw applied where "apply_evidence h cfg now keys raw = Inr applied"
    "\<forall>k \<in> set keys. \<exists>a \<in> set applied. covers k a"
    "\<forall>k \<in> set keys. \<forall>a \<in> set applied. covers k a \<longrightarrow> ck_kid k \<notin> set (ak_revoked a)"
proof -
  obtain r p1 where 1: "invoke (\<lambda>_. []) (settleCallback polluted (rv_provider cfg)) p = (Inr r, p1)"
    and c: "(case r of
         Inl x \<Rightarrow> returnG (Some (Unavailable (''revocation provider failed: '' @ error_message (fst x))))
       | Inr Tampered \<Rightarrow> returnG (Some (Unavailable
           ''a built-in prototype defines `then` (prototype pollution); the revocation provider's answer cannot be trusted''))
       | Inr (Settled v) \<Rightarrow>
           (case v of
              JArr _ \<Rightarrow>
                (case structuredClone v of
                   Inr (JArr raw) \<Rightarrow>
                     (case apply_evidence h cfg now keys raw of
                        Inl d \<Rightarrow> returnG (Some d)
                      | Inr applied \<Rightarrow>
                          bindG (accept_watermarks (rv_accept cfg) applied) (\<lambda>refused.
                            case refused of
                              Some d \<Rightarrow> returnG (Some d)
                            | None \<Rightarrow> returnG (map_option RevokedKey (revoked_key keys applied))))
                 | _ \<Rightarrow> returnG (Some (InvalidEvidence ''KRL provider returned a non-cloneable list'')))
            | _ \<Rightarrow> returnG (Some (Unavailable ''revocation provider returned no KRL list'')))) p1 = (Inr None, p')"
    using assms unfolding evaluateRevocation_def bindG_Inr by blast
  then obtain raw applied where a: "apply_evidence h cfg now keys raw = Inr applied"
    and d: "bindG (accept_watermarks (rv_accept cfg) applied) (\<lambda>refused.
              case refused of Some d \<Rightarrow> returnG (Some d)
              | None \<Rightarrow> returnG (map_option RevokedKey (revoked_key keys applied))) p1 = (Inr None, p')"
    by (auto simp: returnG_def split: sum.splits settled.splits jsval.splits)
  from d obtain q refused where "(case refused of Some d \<Rightarrow> returnG (Some d)
              | None \<Rightarrow> returnG (map_option RevokedKey (revoked_key keys applied))) q = (Inr None, p')"
    unfolding bindG_Inr by blast
  then have "revoked_key keys applied = None" by (auto simp: returnG_def split: option.splits)
  with a apply_evidence_Inr [OF a] show thesis by (intro that) (simp_all add: revoked_key_None)
qed

end
