(* ===== verification/GuardConfig.thy ===== *)
theory GuardConfig
  imports ReplayStores ActionIntent RevocationEvidence VerifyDelegation
begin

text \<open>
  The configuration of the guard (\<open>guard.ts\<close>, \<open>types.ts\<close>) and what \<open>OxDeAIGuard(config)\<close> does with it before
  the first request: validation, the resolved replay store, signer authorities and revocation posture.
  The result is the closure the requests run in.
\<close>

section \<open>Configuration\<close>

text \<open>
  \<open>gc_trustedKeySets\<close> is read from the world, because the guard keeps the caller's array and reads it again
  in every request. \<open>gc_provider\<close> is the raw value of \<open>delegationRevocationProvider\<close>.
\<close>

datatype 'w provider_value = NoProvider | NotAProvider | CheckFunction "jsval \<Rightarrow> ('w, jsval) async"

record 'w guard_config =
  gc_evaluatePure :: "jsval \<Rightarrow> jsval \<Rightarrow> jsnum \<Rightarrow> ('w, jsval) callback"
  gc_engineStateHash :: "jsval \<Rightarrow> ('w, jsval) callback"
  gc_getState :: "('w, jsval) async"
  gc_setState :: "jsval \<Rightarrow> jsval \<Rightarrow> ('w, jsval) callback"
  gc_mapActionToIntent :: "(jsval \<Rightarrow> ('w, jsval) callback) option"
  gc_beforeExecute :: "(jsval \<Rightarrow> jsval \<Rightarrow> ('w, unit) callback) option"
  gc_onDecision :: "(decision_record \<Rightarrow> ('w, unit) callback) option"
  gc_onBoundaryEvent :: "'w hook option"
  gc_expectedAudience :: string
  gc_trustedKeySets :: "'w \<Rightarrow> keyset list"
  gc_trustedDelegationAuthorities :: "authorization_authority list option"
  gc_trustedDelegationSigners :: jsval
  gc_replay :: "'w replay_config"
  gc_requireExplicitReplayProtection :: jsval
  gc_computeStateHash :: "(jsval \<Rightarrow> ('w, jsval) callback) option"
  gc_provider :: "'w provider_value"
  gc_requireDelegationRevocation :: jsval
  gc_revocation :: "'w revocation_config option"

text \<open>What the process provides: the clock, the random source, the state of the built-in prototypes.\<close>

record 'w runtime =
  rt_clock :: "'w \<Rightarrow> jsnum \<times> 'w"
  rt_random :: "'w random"
  rt_polluted :: "'w \<Rightarrow> bool"

record 'w guard_body =
  g_host :: host
  g_runtime :: "'w runtime"
  g_config :: "'w guard_config"
  g_normalize :: "jsval \<Rightarrow> ('w, jsval) callback"
  g_replayStore :: "'w replay_store"
  g_signers :: "delegation_authority list option"
  g_check :: "(jsval \<Rightarrow> ('w, jsval) async) option"
  g_revocationRequired :: bool
  g_signedKrl :: "'w resolved_revocation option"

section \<open>Construction\<close>

definition configuration_error :: "string \<Rightarrow> guard_error + 'a" where
  "configuration_error m = Inl (GuardConfigurationError m)"

definition validateConfig :: "'w guard_config \<Rightarrow> guard_error + unit" where
  "validateConfig c =
     (if gc_expectedAudience c = []
      then configuration_error (''config.expectedAudience is required and must be a non-empty string. ''
             @ ''Set it to the agent identity this guard instance protects (matches authorization_audience in PolicyEngine).'')
      else Inr ())"

definition signer_entry :: "jsval \<Rightarrow> guard_error + delegation_authority" where
  "signer_entry e =
     (case (if is_plain e then (getp e ''delegator'', getp e ''issuer'') else (JUndef, JUndef)) of
        (JStr (c # d), JStr (c' # i)) \<Rightarrow> Inr \<lparr>da_delegator = c # d, da_issuer = c' # i\<rparr>
      | _ \<Rightarrow> configuration_error
               ''config.trustedDelegationSigners entries must be { delegator: string, issuer: string } with non-empty values.'')"

definition resolveDelegationSigners :: "jsval \<Rightarrow> guard_error + delegation_authority list option" where
  "resolveDelegationSigners v =
     (case v of
        JUndef \<Rightarrow> Inr None
      | JArr es \<Rightarrow> bindE (mapE signer_entry es) (\<lambda>as. Inr (Some as))
      | _ \<Rightarrow> configuration_error ''config.trustedDelegationSigners must be an array of { delegator, issuer } pairs when provided.'')"

text \<open>A getter of \<open>check\<close> that throws is not modelled; the other ways not to have a \<open>check()\<close> are \<open>NotAProvider\<close>.\<close>

definition resolveDelegationRevocation ::
  "'w guard_config \<Rightarrow> guard_error + (jsval \<Rightarrow> ('w, jsval) async) option \<times> bool" where
  "resolveDelegationRevocation c =
     (let required = gc_requireDelegationRevocation c
      in if required \<noteq> JUndef \<and> \<not> is_bool required
         then configuration_error ''config.requireDelegationRevocation must be a boolean when provided.''
         else case gc_provider c of
                NoProvider \<Rightarrow> Inr (None, required = JBool True)
              | NotAProvider \<Rightarrow> configuration_error ''config.delegationRevocationProvider must provide a check() function.''
              | CheckFunction f \<Rightarrow> Inr (Some f, required = JBool True))"

text \<open>\<open>OxDeAIGuard\<close>, in the world of the moment; \<open>local\<close> is the store \<open>createInMemoryReplayStore()\<close> returns.\<close>

definition OxDeAIGuard ::
  "host \<Rightarrow> 'w runtime \<Rightarrow> 'w replay_store \<Rightarrow> 'w guard_config \<Rightarrow> 'w \<Rightarrow> guard_error + 'w guard_body" where
  "OxDeAIGuard h rt local c w =
     bindE (validateConfig c) (\<lambda>_.
     if gc_trustedKeySets c w = []
     then configuration_error ''trustedKeySets are required for authorization verification and must not be empty.''
     else bindE (strictFromConfig (gc_requireExplicitReplayProtection c)) (\<lambda>strict.
          bindE (resolveReplayProtection local (gc_replay c) strict) (\<lambda>rr.
          bindE (resolveDelegationSigners (gc_trustedDelegationSigners c)) (\<lambda>signers.
          bindE (resolveDelegationRevocation c) (\<lambda>(check, required).
          bindE (resolveRevocationConfig h (gc_revocation c) (gc_trustedKeySets c w)) (\<lambda>krl.
            Inr \<lparr>g_host = h, g_runtime = rt, g_config = c,
                 g_normalize = (case gc_mapActionToIntent c of Some f \<Rightarrow> f
                   | None \<Rightarrow> defaultNormalizeAction h (rt_random rt) (rt_clock rt)),
                 g_replayStore = rr_store rr, g_signers = signers, g_check = check,
                 g_revocationRequired = required, g_signedKrl = krl\<rparr>))))))"

text \<open>
  What construction establishes: the guard is bound to a non-empty audience, and a posture that asked for
  revocation has it.
\<close>

lemma guard_built:
  assumes "OxDeAIGuard h rt local c w = Inr g"
  shows "g_config g = c" "g_host g = h" "g_runtime g = rt" "gc_expectedAudience c \<noteq> []"
    "g_signedKrl g = None \<longleftrightarrow> gc_revocation c = None"
    "g_revocationRequired g \<longleftrightarrow> gc_requireDelegationRevocation c = JBool True"
    "\<exists>strict rr. resolveReplayProtection local (gc_replay c) strict = Inr rr \<and> g_replayStore g = rr_store rr"
proof -
  from assms obtain strict rr signers check required krl where
    a: "gc_expectedAudience c \<noteq> []" and rr: "resolveReplayProtection local (gc_replay c) strict = Inr rr"
    and d: "resolveDelegationRevocation c = Inr (check, required)"
    and k: "resolveRevocationConfig h (gc_revocation c) (gc_trustedKeySets c w) = Inr krl"
    and g: "g = \<lparr>g_host = h, g_runtime = rt, g_config = c,
                 g_normalize = (case gc_mapActionToIntent c of Some f \<Rightarrow> f
                   | None \<Rightarrow> defaultNormalizeAction h (rt_random rt) (rt_clock rt)),
                 g_replayStore = rr_store rr, g_signers = signers, g_check = check,
                 g_revocationRequired = required, g_signedKrl = krl\<rparr>"
    by (auto simp: OxDeAIGuard_def validateConfig_def configuration_error_def bindE_eq_Inr split: if_splits)
  show "g_config g = c" "g_host g = h" "g_runtime g = rt" "gc_expectedAudience c \<noteq> []"
    "\<exists>strict rr. resolveReplayProtection local (gc_replay c) strict = Inr rr \<and> g_replayStore g = rr_store rr"
    using a rr by (auto simp: g)
  show "g_signedKrl g = None \<longleftrightarrow> gc_revocation c = None"
    using k by (auto simp: g resolveRevocationConfig_def revocation_error_def bindE_eq_Inr split: option.splits if_splits)
  show "g_revocationRequired g \<longleftrightarrow> gc_requireDelegationRevocation c = JBool True"
    using d by (auto simp: g resolveDelegationRevocation_def configuration_error_def Let_def
        split: if_splits provider_value.splits)
qed

end
