(* ===== verification/GuardSteps.thy ===== *)
theory GuardSteps
  imports GuardConfig
begin

text \<open>
  The steps the two paths of a guarded request share (\<open>guard.ts\<close>): reading the trust state, loading the
  policy state, normalizing the action, consuming an identifier, and the execution gate.
\<close>

section \<open>Trust\<close>

abbreviation clock_now :: "'w guard_body \<Rightarrow> ('w, jsnum) step" where
  "clock_now g \<equiv> read_clock (rt_clock (g_runtime g))"

text \<open>\<open>validatedTrust(stage)\<close>: without \<open>config.revocation\<close> there is no snapshot.\<close>

definition validatedTrust :: "'w guard_body \<Rightarrow> stage \<Rightarrow> ('w, keyset list option) step" where
  "validatedTrust g s p =
     (case g_signedKrl g of
        None \<Rightarrow> (Inr None, p)
      | Some krl \<Rightarrow>
          (case validatedTrustSnapshot (g_host g) (gc_trustedKeySets (g_config g) (world p)) (rv_krlKeyIdentities krl) of
             Inl x \<Rightarrow> refuse s AUTHORIZATION_VERIFICATION_FAILED x p
           | Inr ks \<Rightarrow> (Inr (Some ks), p)))"

text \<open>\<open>validatedTrust(stage) ?? trustedKeySets\<close>\<close>

definition trusted_now :: "'w guard_body \<Rightarrow> stage \<Rightarrow> ('w, keyset list) step" where
  "trusted_now g s =
     bindG (validatedTrust g s) (\<lambda>t p. (Inr (case t of Some ks \<Rightarrow> ks | None \<Rightarrow> gc_trustedKeySets (g_config g) (world p)), p))"

text \<open>The options both paths give the strict verifier; only the delegation path has authorities.\<close>

definition strict_options ::
  "string \<Rightarrow> authorization_authority list option \<Rightarrow> jsnum \<Rightarrow> keyset list \<Rightarrow> verify_auth_opts" where
  "strict_options audience authorities now trusted =
     \<lparr>va_now = Some now, va_strict = True, va_expectedIssuer = None,
      va_expectedAudience = Some audience, va_expectedPolicyId = None,
      va_authorities = authorities, va_consumedAuthIds = [], va_trustedKeySets = Some (KeySets trusted),
      va_requireSignature = True, va_maxFutureIssuedAtSkew = JUndef, va_legacyHmacSecret = None\<rparr>"

section \<open>State and intent\<close>

record versioned_state =
  vs_state :: jsval
  vs_version :: jsval

definition load_state :: "'w guard_body \<Rightarrow> ('w, versioned_state) step" where
  "load_state g =
     bindG (invoke (\<lambda>_. [LoadState]) (settleCallback (rt_polluted (g_runtime g)) (gc_getState (g_config g)))) (\<lambda>r.
     bindG (rethrow r) (\<lambda>settled.
       case settled of
         Tampered \<Rightarrow> refuse STATE_LOAD UNCLASSIFIED (AuthorizationError
           (''A built-in prototype defines `then` (prototype pollution); the state store's answer cannot be trusted. ''
            @ ''Execution blocked.''))
       | Settled v \<Rightarrow>
           bindG (liftE (propE v ''state'')) (\<lambda>st.
             let version = getp v ''version''
             in if nullish version
                then refuse STATE_LOAD STATE_VERSION_MISSING (AuthorizationError
                       ''State store returned no version. Cannot enforce CAS invariant. Execution blocked.'')
                else returnG \<lparr>vs_state = st, vs_version = version\<rparr>)))"

text \<open>The body of the \<open>try\<close>: the normalizer, and the check delegated requests need.\<close>

definition normalized :: "'w guard_body \<Rightarrow> jsval \<Rightarrow> bool \<Rightarrow> ('w, jsval) callback" where
  "normalized g act delegated w =
     (case g_normalize g act w of
        (Inl x, w') \<Rightarrow> (Inl x, w')
      | (Inr intent, w') \<Rightarrow>
          if delegated \<and> \<not> has_text (getp intent ''agent_id'')
          then (Inl (NormalizationError ''Delegation requires a non-empty normalized intent.agent_id.'', Fresh), w')
          else (Inr intent, w'))"

definition normalization_refused :: "guard_error \<times> origin \<Rightarrow> ('w, 'a) step" where
  "normalization_refused x =
     (case fst x of
        NormalizationError _ \<Rightarrow> reject_caught (annotation NORMALIZATION NORMALIZATION_FAILURE) x
      | ProvenanceConflictError conflicting prov \<Rightarrow>
          reject_caught \<lparr>bn_stage = PROVENANCE, bn_failure = PROVENANCE_CONFLICT, bn_provenance = Some prov,
                         bn_fields = Some conflicting\<rparr> x
      | err \<Rightarrow> refuse NORMALIZATION NORMALIZATION_FAILURE
                 (NormalizationError (''mapActionToIntent threw an unexpected error: '' @ error_message err)))"

definition normalize_action :: "'w guard_body \<Rightarrow> jsval \<Rightarrow> bool \<Rightarrow> ('w, jsval) step" where
  "normalize_action g act delegated =
     bindG (enter NORMALIZATION) (\<lambda>_.
     bindG (invoke (\<lambda>_. []) (normalized g act delegated)) (\<lambda>r.
       case r of
         Inl x \<Rightarrow> normalization_refused x
       | Inr intent \<Rightarrow>
           bindG (liftE (propE intent ''intent_id'')) (\<lambda>iid.
           bindG (advance (\<lambda>lc. lc\<lparr>lc_intentId := (if iid = JUndef then None else Some iid)\<rparr>)) (\<lambda>_.
             returnG intent))))"

section \<open>Replay\<close>

definition answer :: "(guard_error \<times> origin) + 'a \<Rightarrow> 'a option" where
  "answer r = (case r of Inr v \<Rightarrow> Some v | Inl _ \<Rightarrow> None)"

definition kind_of :: "jsval \<Rightarrow> string" where
  "kind_of v =
     (case v of
        JNull \<Rightarrow> ''null'' | JArr _ \<Rightarrow> ''array'' | JObj _ \<Rightarrow> ''object'' | JStr _ \<Rightarrow> ''string'' | JNum _ \<Rightarrow> ''number''
      | JBig _ \<Rightarrow> ''bigint'' | JBool _ \<Rightarrow> ''boolean'' | JUndef \<Rightarrow> ''undefined'' | JFun \<Rightarrow> ''function'')"

definition invalidReplayResult :: "string \<Rightarrow> jsval \<Rightarrow> ('w, 'a) step" where
  "invalidReplayResult what v =
     refuse REPLAY REPLAY_STORE_UNAVAILABLE (AuthorizationError
       (''Replay store returned a non-boolean result ('' @ kind_of v @ '') for '' @ what
        @ ''; ReplayStore must resolve to true or false. Execution blocked.''))"

definition consume_auth :: "'w guard_body \<Rightarrow> string \<Rightarrow> string \<Rightarrow> string \<Rightarrow> jsval \<Rightarrow> jsval \<Rightarrow> ('w, unit) step" where
  "consume_auth g unavailable what replayed authId expiry =
     bindG (invoke (\<lambda>r. [ConsumeAuth authId (answer r)]) (rs_consumeAuthId (g_replayStore g) authId expiry)) (\<lambda>r.
       case r of
         Inl x \<Rightarrow> refuse REPLAY REPLAY_STORE_UNAVAILABLE (AuthorizationError
                    (unavailable @ '': '' @ error_message (fst x) @ ''. Execution blocked.''))
       | Inr v \<Rightarrow>
           if \<not> is_bool v then invalidReplayResult what v
           else if v \<noteq> JBool True
           then refuse REPLAY AUTHORIZATION_REPLAY (AuthorizationError
                  (replayed @ '': auth_id already consumed. Execution blocked.''))
           else advance (\<lambda>lc. lc\<lparr>authorizationConsumed := True\<rparr>))"

text \<open>A store without \<open>consumeDelegationId\<close> counts as an answer \<open>true\<close> that consumed nothing.\<close>

definition consume_delegation :: "'w guard_body \<Rightarrow> jsval \<Rightarrow> ('w, unit) step" where
  "consume_delegation g d =
     (case rs_consumeDelegationId (g_replayStore g) of
        None \<Rightarrow> returnG ()
      | Some f \<Rightarrow>
          bindG (invoke (\<lambda>r. [ConsumeDelegation (getp d ''delegation_id'') (answer r)])
                   (f (getp d ''delegation_id'') (getp d ''expiry''))) (\<lambda>r.
            case r of
              Inl x \<Rightarrow> refuse REPLAY REPLAY_STORE_UNAVAILABLE (AuthorizationError
                  (''Replay store unavailable for delegation_id: '' @ error_message (fst x) @ ''. Execution blocked.''))
            | Inr v \<Rightarrow>
                if \<not> is_bool v then invalidReplayResult ''delegation_id'' v
                else if v \<noteq> JBool True
                then refuse REPLAY failure.DELEGATION_REPLAY
                       (AuthorizationError ''Delegation replay detected. Execution blocked.'')
                else advance (\<lambda>lc. lc\<lparr>delegationConsumed := True\<rparr>)))"

section \<open>The execution gate\<close>

definition allowed_record :: "jsval \<Rightarrow> jsval \<Rightarrow> jsval option \<Rightarrow> decision_record" where
  "allowed_record act auth d =
     \<lparr>dr_action = act, dr_decision = ''ALLOW'', dr_authorization = Some auth, dr_delegation = d,
      dr_reasons = None, dr_provenance = None\<rparr>"

definition before_execute :: "'w guard_body \<Rightarrow> jsval \<Rightarrow> jsval \<Rightarrow> ('w, unit) step" where
  "before_execute g act auth =
     (case gc_beforeExecute (g_config g) of
        None \<Rightarrow> returnG ()
      | Some f \<Rightarrow> bindG (invoke (\<lambda>_. [BeforeExecute auth]) (f act auth)) rethrow)"

text \<open>\<open>executionStarted\<close> is set before the callback is entered.\<close>

definition perform :: "'w guard_body \<Rightarrow> ('w, jsval) callback \<Rightarrow> decision_record \<Rightarrow> ('w, jsval) step" where
  "perform g execute rec =
     bindG (advance (\<lambda>lc. lc\<lparr>executionStarted := True\<rparr>)) (\<lambda>_.
     bindG (invoke (\<lambda>_. [Executed]) execute) (\<lambda>r.
     bindG (rethrow r) (\<lambda>result.
     bindG (fireDecision (gc_onDecision (g_config g)) rec) (\<lambda>_. returnG result))))"

definition execution_gate :: "'w guard_body \<Rightarrow> jsval \<Rightarrow> jsval \<Rightarrow> ('w, unit) step" where
  "execution_gate g act auth = bindG (enter EXECUTION_GATE) (\<lambda>_. before_execute g act auth)"

end
