(* ===== verification/DelegatedRequest.thy ===== *)
theory DelegatedRequest
  imports GuardSteps
begin

text \<open>
  The delegation path of \<open>guard.ts\<close>: the snapshot of the caller's input, the parent's authentication and
  authority, the chain and the scope of the action, the two revocation checks, and the consumption of both
  identifiers.
\<close>

section \<open>The input\<close>

definition isValidDelegationScope :: "jsval \<Rightarrow> bool" where
  "isValidDelegationScope s =
     (is_plain s \<and>
      (getp s ''tools'' = JUndef \<or> is_string_array (getp s ''tools'')) \<and>
      (case getp s ''max_amount'' of JUndef \<Rightarrow> True | JBig a \<Rightarrow> 0 \<le> a | _ \<Rightarrow> False) \<and>
      list_all (\<lambda>k. getp s k = JUndef \<or> v_integer (getp s k) \<and> \<not> js_lt (getp s k) (JNum (jint 0)))
        [''max_actions'', ''max_depth''])"

definition delegated_amount :: "jsval \<Rightarrow> ('w, int) step" where
  "delegated_amount intent =
     (case getp intent ''amount'' of
        JBig a \<Rightarrow> if 0 \<le> a then returnG a
          else refuse NORMALIZATION NORMALIZATION_FAILURE
                 (NormalizationError ''Delegation requires normalized intent.amount to be a non-negative bigint.'')
      | _ \<Rightarrow> refuse NORMALIZATION NORMALIZATION_FAILURE
                 (NormalizationError ''Delegation requires normalized intent.amount to be a non-negative bigint.''))"

record delegated_input =
  di_delegation :: jsval
  di_parentAuth :: jsval
  di_authorities :: "authorization_authority list"
  di_now :: jsnum
  di_parentScope :: jsval

definition delegation_input :: "'w guard_body \<Rightarrow> jsval \<Rightarrow> ('w, delegated_input) step" where
  "delegation_input g inp =
     (case snapshotPlainData (Some MAX_DEPTH) ''delegation input'' inp of
        Inl m \<Rightarrow> refuse DELEGATION DELEGATION_INPUT_INVALID (AuthorizationError
                   (''Delegation input is not supported plain data ('' @ m @ ''). Execution blocked.''))
      | Inr snapshot \<Rightarrow>
          if \<not> truthy (getp snapshot ''delegation'') \<or> \<not> truthy (getp snapshot ''parentAuth'')
          then refuse DELEGATION DELEGATION_INPUT_INVALID (AuthorizationError
                 ''Delegation input is incomplete: both delegation and parentAuth are required. Execution blocked.'')
          else case gc_trustedDelegationAuthorities (g_config g) of
            None \<Rightarrow> refuse DELEGATION AUTHORIZATION_AUTHORITY_DENIED (GuardConfigurationError
              (''config.trustedDelegationAuthorities is required for delegation calls and was not configured. ''
               @ ''A caller-supplied parent authorization cannot establish its own policy authority, and an ''
               @ ''absent authority list is not an unconstrained mode. Execution blocked.''))
          | Some authorities \<Rightarrow>
              bindG (clock_now g) (\<lambda>now.
                if \<not> isValidDelegationScope (getp snapshot ''parentScope'')
                then refuse DELEGATION DELEGATION_INPUT_INVALID
                       (AuthorizationError ''Parent authorization scope is missing or malformed. Execution blocked.'')
                else returnG \<lparr>di_delegation = getp snapshot ''delegation'',
                              di_parentAuth = getp snapshot ''parentAuth'', di_authorities = authorities,
                              di_now = now, di_parentScope = getp snapshot ''parentScope''\<rparr>))"

section \<open>The parent\<close>

definition codes_of :: "authorization_result \<Rightarrow> string list" where
  "codes_of r = map (code_str \<circ> v_code) (vr_violations r)"

text \<open>
  The sole-defect rule: an \<open>AuthorityError\<close> says that an authenticated artifact lacks authority, so it
  is raised only if nothing else is wrong.
\<close>

definition authority_is_sole_defect :: "authorization_result \<Rightarrow> bool" where
  "authority_is_sole_defect r = (set (codes_of r) = {''AUTH_ISSUER_POLICY_NOT_AUTHORIZED''})"

definition parent_options :: "'w guard_body \<Rightarrow> delegated_input \<Rightarrow> keyset list \<Rightarrow> verify_auth_opts" where
  "parent_options g inp trusted =
     strict_options (gc_expectedAudience (g_config g)) (Some (di_authorities inp)) (di_now inp) trusted"

definition reasons_of :: "authorization_result \<Rightarrow> string" where
  "reasons_of r = (if codes_of r = [] then ''invalid'' else comma_join (codes_of r))"

definition authenticate_parent :: "'w guard_body \<Rightarrow> delegated_input \<Rightarrow> keyset list \<Rightarrow> ('w, unit) step" where
  "authenticate_parent g inp trusted =
     bindG (liftE (verifyAuthorization (g_host g) (di_now inp) (parent_options g inp trusted) (di_parentAuth inp))) (\<lambda>r.
       if vr_ok r then returnG ()
       else if authority_is_sole_defect r
       then refuse AUTHORIZATION_VERIFICATION AUTHORIZATION_AUTHORITY_DENIED (AuthorityError
              (''Parent authorization issuer is not authorized for its claimed policy_id. ''
               @ ''A valid signature does not establish policy authority. Execution blocked.''))
       else refuse AUTHORIZATION_VERIFICATION AUTHORIZATION_VERIFICATION_FAILED (AuthorizationError
              (''Parent authorization verification failed: '' @ reasons_of r @ ''. Execution blocked.'')))"

section \<open>The chain and the scope\<close>

definition chain_options :: "'w guard_body \<Rightarrow> delegated_input \<Rightarrow> keyset list \<Rightarrow> jsval \<Rightarrow> verify_delegation_opts" where
  "chain_options g inp trusted intent =
     \<lparr>vd_now = Some (di_now inp), vd_trustedKeySets = Some (KeySets trusted), vd_requireSignature = True,
      vd_expectedDelegatee = (case getp intent ''agent_id'' of JStr s \<Rightarrow> Some s | _ \<Rightarrow> None),
      vd_expectedPolicyId = None, vd_parentScope = Some (di_parentScope inp), vd_consumedDelegationIds = [],
      vd_maxFutureIssuedAtSkew = JUndef, vd_authorities = g_signers g\<rparr>"

definition list_text :: "host \<Rightarrow> jsval list \<Rightarrow> string" where  \<comment> \<open>\<open>xs.join(", ")\<close>\<close>
  "list_text h xs = comma_join (map (\<lambda>v. if nullish v then [] else js_string h v) xs)"

text \<open>
  \<open>tools.includes(action.name)\<close>: a list of tools, or, for a delegation that is being refused anyway, a
  text or something that has no such method.
\<close>

definition tool_messages :: "host \<Rightarrow> jsval \<Rightarrow> jsval \<Rightarrow> string list res" where
  "tool_messages h tools act =
     (if tools = JUndef then Inr []
      else bindE (propE act ''name'') (\<lambda>name.
        case tools of
          JArr ts \<Rightarrow>
            if \<not> is_object name \<and> name \<in> set ts then Inr []
            else Inr [''action \"'' @ js_string h name @ ''\" is not permitted by delegation scope.tools [''
                      @ list_text h ts @ '']'']
        | JStr s \<Rightarrow> if contains_sub s (js_string h name) then Inr [] else Inl TypeError
        | _ \<Rightarrow> Inl TypeError))"

definition amount_messages :: "host \<Rightarrow> jsval \<Rightarrow> int \<Rightarrow> string list" where
  "amount_messages h cap amt =
     (if cap \<noteq> JUndef \<and> js_lt cap (JBig amt)
      then [''intent amount '' @ int_str amt @ '' exceeds delegation scope.max_amount '' @ js_string h cap] else [])"

text \<open>
  All messages of the chain and of the scope. The effective scope is computed from \<open>delegation.scope\<close>
  before its presence is tested, so an absent scope is a \<open>TypeError\<close>.
\<close>

definition delegation_messages ::
  "host \<Rightarrow> verify_delegation_opts \<Rightarrow> delegated_input \<Rightarrow> jsval \<Rightarrow> int \<Rightarrow> string list res" where
  "delegation_messages h opt inp act amt =
     (let d = di_delegation inp; scope = getp d ''scope''
      in bindE (verifyDelegationChain h (di_now inp) opt d (di_parentAuth inp)) (\<lambda>chain.
         if nullish scope then Inl TypeError
         else let effective = resolveEffectiveChildScope scope (di_parentScope inp)
              in bindE (tool_messages h (getp effective ''tools'') act) (\<lambda>tools.
                   Inr ((if vr_ok chain then [] else map v_message (vr_violations chain)) @ tools
                     @ amount_messages h (getp effective ''max_amount'') amt
                     @ (if truthy scope then []
                        else [''delegation.scope is required for narrowing; execution blocked.''])))))"

definition check_chain :: "'w guard_body \<Rightarrow> delegated_input \<Rightarrow> keyset list \<Rightarrow> jsval \<Rightarrow> jsval \<Rightarrow> int \<Rightarrow> ('w, unit) step" where
  "check_chain g inp trusted intent act amt =
     bindG (liftE (delegation_messages (g_host g) (chain_options g inp trusted intent) inp act amt)) (\<lambda>ms.
       if ms \<noteq> [] then refuse DELEGATION DELEGATION_VERIFICATION_FAILED (DelegationError ms) else returnG ())"

section \<open>Revocation\<close>

definition unavailable :: "string \<Rightarrow> ('w, 'a) step" where
  "unavailable m = refuse DELEGATION DELEGATION_REVOCATION_UNAVAILABLE (DelegationError [m])"

definition revocation_request :: "jsval \<Rightarrow> jsval" where
  "revocation_request d =
     JObj [(''delegationId'', getp d ''delegation_id''), (''issuer'', getp d ''issuer''),
           (''delegator'', getp d ''delegator''), (''parentAuthHash'', getp d ''parent_auth_hash'')]"

definition settled_answer :: "(guard_error \<times> origin) + jsval settled \<Rightarrow> jsval option" where
  "settled_answer r = (case r of Inr (Settled v) \<Rightarrow> Some v | _ \<Rightarrow> None)"

text \<open>Only the own property \<open>status\<close> of a plain answer counts, and only \<open>ACTIVE\<close> lets the request go on.\<close>

definition check_status :: "jsval \<Rightarrow> ('w, unit) step" where
  "check_status v =
     (if \<not> (is_plain v \<and> has_own v ''status'') then unavailable ''Invalid delegation revocation provider response.''
      else if getp v ''status'' = JStr ''REVOKED''
      then refuse DELEGATION DELEGATION_REVOKED (DelegationError [''Delegation revoked. Execution blocked.''])
      else if getp v ''status'' \<noteq> JStr ''ACTIVE''
      then unavailable ''Indeterminate delegation revocation status. Execution blocked.''
      else returnG ())"

definition check_provider :: "'w guard_body \<Rightarrow> jsval \<Rightarrow> ('w, unit) step" where
  "check_provider g d =
     bindG (enter DELEGATION) (\<lambda>_.
       case g_check g of
         None \<Rightarrow> if g_revocationRequired g
                 then unavailable ''Delegation revocation is required but no provider is configured.'' else returnG ()
       | Some check \<Rightarrow>
           bindG (invoke (\<lambda>r. [CheckDelegation (revocation_request d) (settled_answer r)])
                    (settleCallback (rt_polluted (g_runtime g)) (check (revocation_request d)))) (\<lambda>r.
             case r of
               Inl _ \<Rightarrow> unavailable ''Delegation revocation provider unavailable. Execution blocked.''
             | Inr Tampered \<Rightarrow> unavailable
                 (''A built-in prototype defines `then` (prototype pollution); the delegation revocation result ''
                  @ ''cannot be trusted. Execution blocked.'')
             | Inr (Settled v) \<Rightarrow> check_status v))"

text \<open>The parent verified again with trust narrowed to the one key its signature names.\<close>

definition parent_key_confirmed :: "'w guard_body \<Rightarrow> delegated_input \<Rightarrow> keyset list \<Rightarrow> bool" where
  "parent_key_confirmed g inp confirmTrust =
     (case resolveAuthorizationSigningKid (di_parentAuth inp) of
        None \<Rightarrow> False
      | Some kid \<Rightarrow>
          (case verifyAuthorization (g_host g) (di_now inp)
                  (parent_options g inp (pinKeySet confirmTrust (getp (di_parentAuth inp) ''issuer'') kid))
                  (di_parentAuth inp) of
             Inl _ \<Rightarrow> False
           | Inr r \<Rightarrow> vr_ok r))"

definition checked_keys :: "delegated_input \<Rightarrow> checked_key list" where
  "checked_keys inp =
     [\<lparr>ck_role = ParentRole, ck_issuer = getp (di_parentAuth inp) ''issuer'',
       ck_kid = (case resolveAuthorizationSigningKid (di_parentAuth inp) of Some kid \<Rightarrow> kid | None \<Rightarrow> JUndef)\<rparr>,
      \<lparr>ck_role = DelegationRole, ck_issuer = getp (di_delegation inp) ''issuer'', ck_kid = getp (di_delegation inp) ''kid''\<rparr>]"

definition krl_denied :: "denial \<Rightarrow> ('w, 'a) step" where
  "krl_denied d =
     (case d of
        RevokedKey k \<Rightarrow>
          if ck_role k = ParentRole
          then refuse DELEGATION AUTHORIZATION_VERIFICATION_FAILED
                 (AuthorizationError ''Signing key revoked by a verified SignedKRLV1. Execution blocked.'')
          else refuse DELEGATION DELEGATION_VERIFICATION_FAILED
                 (DelegationError [''Delegation signing key revoked by a verified SignedKRLV1. Execution blocked.''])
      | Unavailable _ \<Rightarrow> refuse DELEGATION REVOCATION_STATE_UNAVAILABLE
          (DelegationError [''SignedKRLV1 revocation verification failed. Execution blocked.''])
      | InvalidEvidence _ \<Rightarrow> refuse DELEGATION REVOCATION_STATE_INVALID
          (DelegationError [''SignedKRLV1 revocation verification failed. Execution blocked.'']))"

definition check_krl :: "'w guard_body \<Rightarrow> delegated_input \<Rightarrow> ('w, unit) step" where
  "check_krl g inp =
     (case g_signedKrl g of
        None \<Rightarrow> returnG ()
      | Some krl \<Rightarrow>
          bindG (trusted_now g DELEGATION) (\<lambda>confirmTrust.
            if \<not> parent_key_confirmed g inp confirmTrust
            then refuse DELEGATION AUTHORIZATION_VERIFICATION_FAILED (AuthorizationError
                   ''Parent authorization signing-key identity is ambiguous or unconfirmed. Execution blocked.'')
            else bindG (evaluateRevocation (g_host g) (rt_polluted (g_runtime g)) krl (di_now inp) (checked_keys inp)) (\<lambda>r.
                   case r of None \<Rightarrow> returnG () | Some d \<Rightarrow> krl_denied d)))"

section \<open>The path\<close>

text \<open>Everything up to the execution gate.\<close>

definition delegated_clearance :: "'w guard_body \<Rightarrow> jsval \<Rightarrow> jsval \<Rightarrow> jsval \<Rightarrow> ('w, delegated_input) step" where
  "delegated_clearance g act intent raw =
     bindG (enter DELEGATION) (\<lambda>_.
     bindG (delegated_amount intent) (\<lambda>amt.
     bindG (delegation_input g raw) (\<lambda>inp.
     bindG (trusted_now g AUTHORIZATION_VERIFICATION) (\<lambda>trusted.
     bindG (authenticate_parent g inp trusted) (\<lambda>_.
     bindG (check_chain g inp trusted intent act amt) (\<lambda>_.
     bindG (check_provider g (di_delegation inp)) (\<lambda>_.
     bindG (check_krl g inp) (\<lambda>_.
     bindG (consume_delegation g (di_delegation inp)) (\<lambda>_.
     bindG (consume_auth g ''Replay store unavailable for parentAuth auth_id'' ''parentAuth auth_id''
              ''Authorization replay detected on parentAuth''
              (getp (di_parentAuth inp) ''auth_id'') (getp (di_parentAuth inp) ''expiry'')) (\<lambda>_.
       returnG inp))))))))))"

definition delegated_request ::
  "'w guard_body \<Rightarrow> jsval \<Rightarrow> jsval \<Rightarrow> jsval \<Rightarrow> ('w, jsval) callback \<Rightarrow> ('w, jsval) step" where
  "delegated_request g act intent raw execute =
     bindG (delegated_clearance g act intent raw) (\<lambda>inp.
     bindG (execution_gate g act (di_parentAuth inp)) (\<lambda>_.
       perform g execute (allowed_record act (di_parentAuth inp) (Some (di_delegation inp)))))"

end
