(* ===== verification/Guard.thy ===== *)
theory Guard
  imports DelegatedRequest
begin

text \<open>
  The standard path of \<open>guard.ts\<close> and the guard itself: evaluation by the engine, strict verification of
  the issued authorization, the intent and state bindings, consumption, the commit, the execution gate,
  and the one place where a rejection is reported.
\<close>

section \<open>Evaluation\<close>

definition isValidDenyReasons :: "jsval \<Rightarrow> string list option" where
  "isValidDenyReasons v =
     (case v of
        JArr rs \<Rightarrow> if list_all is_string rs then Some (map (\<lambda>r. case r of JStr s \<Rightarrow> s | _ \<Rightarrow> []) rs) else None
      | _ \<Rightarrow> None)"

definition evaluate_policy :: "'w guard_body \<Rightarrow> jsval \<Rightarrow> jsval \<Rightarrow> ('w, jsval) step" where
  "evaluate_policy g intent st =
     bindG (enter POLICY_EVALUATION) (\<lambda>_.
     bindG (clock_now g) (\<lambda>t.
     bindG (invoke (\<lambda>r. [Evaluated intent st t (answer r)]) (gc_evaluatePure (g_config g) intent st t)) (\<lambda>r.
       case r of
         Inl x \<Rightarrow> refuse POLICY_EVALUATION ENGINE_FAILURE
                    (AuthorizationError (''PolicyEngine.evaluatePure threw: '' @ error_message (fst x)))
       | Inr v \<Rightarrow> bindG (advance (\<lambda>lc. lc\<lparr>policyEvaluated := True\<rparr>)) (\<lambda>_. returnG v))))"

definition denied_record :: "jsval \<Rightarrow> string list \<Rightarrow> decision_record" where
  "denied_record act rs =
     \<lparr>dr_action = act, dr_decision = ''DENY'', dr_authorization = None, dr_delegation = None,
      dr_reasons = Some rs, dr_provenance = None\<rparr>"

definition deny_request :: "'w guard_body \<Rightarrow> jsval \<Rightarrow> jsval \<Rightarrow> ('w, 'a) step" where
  "deny_request g act reasons =
     (case isValidDenyReasons reasons of
        None \<Rightarrow> refuse POLICY_EVALUATION ENGINE_FAILURE (AuthorizationError
          ''PolicyEngine returned DENY with malformed reasons: expected an array of strings. Execution blocked.'')
      | Some rs \<Rightarrow> bindG (fireDecision (gc_onDecision (g_config g)) (denied_record act rs)) (\<lambda>_. throwG (DenyError rs)))"

record issued_allow =
  is_authorization :: jsval
  is_nextState :: jsval

definition require_allow :: "'w guard_body \<Rightarrow> jsval \<Rightarrow> jsval \<Rightarrow> ('w, issued_allow) step" where
  "require_allow g act ev =
     bindG (liftE (propE ev ''decision'')) (\<lambda>decision.
       if decision = JStr ''DENY'' then deny_request g act (getp ev ''reasons'')
       else if \<not> truthy (getp ev ''authorization'')
       then refuse POLICY_EVALUATION AUTHORIZATION_MISSING (AuthorizationError
              ''PolicyEngine returned ALLOW without an authorization artifact. Execution blocked.'')
       else if \<not> truthy (getp ev ''nextState'')
       then refuse POLICY_EVALUATION ENGINE_FAILURE
              (AuthorizationError ''PolicyEngine returned ALLOW without a nextState. Execution blocked.'')
       else bindG (advance (\<lambda>lc. lc\<lparr>authorizationIssued := True\<rparr>)) (\<lambda>_.
              returnG \<lparr>is_authorization = getp ev ''authorization'', is_nextState = getp ev ''nextState''\<rparr>))"

section \<open>Verification and binding\<close>

definition verify_issued :: "'w guard_body \<Rightarrow> jsval \<Rightarrow> ('w, unit) step" where
  "verify_issued g auth =
     bindG (enter AUTHORIZATION_VERIFICATION) (\<lambda>_.
     bindG (clock_now g) (\<lambda>now.
     bindG (trusted_now g AUTHORIZATION_VERIFICATION) (\<lambda>trusted.
     bindG (liftE (verifyAuthorization (g_host g) now
              (strict_options (gc_expectedAudience (g_config g)) None now trusted) auth)) (\<lambda>r.
       if vr_ok r then returnG ()
       else refuse AUTHORIZATION_VERIFICATION AUTHORIZATION_VERIFICATION_FAILED
              (AuthorizationError (''Authorization verification failed: '' @ reasons_of r @ ''. Execution blocked.''))))))"

text \<open>\<open>intentHash\<close> of the core on the value a normalizer returned.\<close>

definition intentHashOf :: "host \<Rightarrow> jsval \<Rightarrow> string res" where
  "intentHashOf h intent =
     sha256HexFromJson h (stripUndefinedDeep (JObj
       (filter (\<lambda>(k, v). v \<noteq> JUndef) (map (\<lambda>k. (k, getp intent k)) INTENT_BINDING_FIELDS))))"

definition bind_intent :: "'w guard_body \<Rightarrow> jsval \<Rightarrow> jsval \<Rightarrow> ('w, unit) step" where
  "bind_intent g intent auth =
     (case intentHashOf (g_host g) intent of
        Inl x \<Rightarrow> refuse AUTHORIZATION_VERIFICATION INTENT_HASH_MISMATCH
          (AuthorizationError (''Intent canonicalization failed: '' @ error_message (Foreign x) @ ''. Execution blocked.''))
      | Inr d \<Rightarrow>
          if JStr d \<noteq> getp auth ''intent_hash''
          then refuse AUTHORIZATION_VERIFICATION INTENT_HASH_MISMATCH (AuthorizationError
                 ''Intent hash mismatch: computed hash does not match authorization.intent_hash. Execution blocked.'')
          else returnG ())"

definition state_hasher :: "'w guard_body \<Rightarrow> jsval \<Rightarrow> ('w, jsval) callback" where
  "state_hasher g =
     (case gc_computeStateHash (g_config g) of Some f \<Rightarrow> f | None \<Rightarrow> gc_engineStateHash (g_config g))"

definition bind_state :: "'w guard_body \<Rightarrow> jsval \<Rightarrow> jsval \<Rightarrow> ('w, unit) step" where
  "bind_state g st auth =
     (let expected = getp auth ''state_hash''
      in if \<not> truthy expected
         then refuse AUTHORIZATION_VERIFICATION STATE_HASH_MISMATCH
                (AuthorizationError ''Authorization is missing state_hash. Execution blocked.'')
         else bindG (invoke (\<lambda>_. []) (state_hasher g st)) (\<lambda>r.
                case r of
                  Inl x \<Rightarrow> refuse AUTHORIZATION_VERIFICATION STATE_HASH_MISMATCH (AuthorizationError
                    (''State canonicalization failed: '' @ error_message (fst x) @ ''. Execution blocked.''))
                | Inr d \<Rightarrow>
                    if d \<noteq> expected
                    then refuse AUTHORIZATION_VERIFICATION STATE_HASH_MISMATCH (AuthorizationError
                      ''Authorization state_hash does not match the current execution-time state snapshot. Execution blocked.'')
                    else returnG ()))"

section \<open>The commit\<close>

definition commit :: "'w guard_body \<Rightarrow> jsval \<Rightarrow> jsval \<Rightarrow> ('w, unit) step" where
  "commit g nextState version =
     bindG (enter STATE_COMMIT) (\<lambda>_.
     bindG (invoke (\<lambda>r. [Committed nextState version (answer r)]) (gc_setState (g_config g) nextState version)) (\<lambda>r.
     bindG (rethrow r) (\<lambda>ok.
       if \<not> truthy ok
       then refuse STATE_COMMIT CAS_CONFLICT
              (ConflictError ''State version mismatch: concurrent modification detected. Execution blocked.'')
       else advance (\<lambda>lc. lc\<lparr>stateCommitted := True\<rparr>))))"

definition standard_clearance :: "'w guard_body \<Rightarrow> jsval \<Rightarrow> jsval \<Rightarrow> versioned_state \<Rightarrow> ('w, jsval) step" where
  "standard_clearance g act intent vs =
     bindG (evaluate_policy g intent (vs_state vs)) (\<lambda>ev.
     bindG (require_allow g act ev) (\<lambda>iss.
     let auth = is_authorization iss
     in bindG (verify_issued g auth) (\<lambda>_.
        bindG (bind_intent g intent auth) (\<lambda>_.
        bindG (bind_state g (vs_state vs) auth) (\<lambda>_.
        bindG (consume_auth g ''Replay store unavailable'' ''auth_id'' ''Authorization replay detected''
                 (getp auth ''auth_id'') (coalesce (getp auth ''expiry'') (JNum (jint 0)))) (\<lambda>_.
        bindG (commit g (is_nextState iss) (vs_version vs)) (\<lambda>_.
          returnG auth)))))))"

definition standard_request ::
  "'w guard_body \<Rightarrow> jsval \<Rightarrow> jsval \<Rightarrow> versioned_state \<Rightarrow> ('w, jsval) callback \<Rightarrow> ('w, jsval) step" where
  "standard_request g act intent vs execute =
     bindG (standard_clearance g act intent vs) (\<lambda>auth.
     bindG (execution_gate g act auth) (\<lambda>_.
       perform g execute (allowed_record act auth None)))"

section \<open>The guard\<close>

text \<open>The delegation container is read once; it decides both the normalization and the path.\<close>

definition runRequest :: "'w guard_body \<Rightarrow> jsval \<Rightarrow> ('w, jsval) callback \<Rightarrow> jsval \<Rightarrow> ('w, jsval) step" where
  "runRequest g act execute options =
     (let raw = getp options ''delegation''
      in bindG (load_state g) (\<lambda>vs.
         bindG (normalize_action g act (truthy raw)) (\<lambda>intent.
           if truthy raw then delegated_request g act intent raw execute
           else standard_request g act intent vs execute)))"

text \<open>The guard a deployment calls; \<open>annotated\<close> and \<open>emitted\<close> belong to the module and outlive a request.\<close>

definition guard :: "'w guard_body \<Rightarrow> jsval \<Rightarrow> ('w, jsval) callback \<Rightarrow> jsval \<Rightarrow> ('w, jsval) step" where
  "guard g act execute options p =
     (case runRequest g act execute options (p\<lparr>life := createLifecycle STATE_LOAD\<rparr>) of
        (Inl x, p') \<Rightarrow> (Inl x, emitBoundaryEvent (gc_onBoundaryEvent (g_config g)) x p')
      | (Inr v, p') \<Rightarrow> (Inr v, p'))"

record 'w request =
  rq_action :: jsval
  rq_execute :: "('w, jsval) callback"
  rq_options :: jsval

text \<open>Requests one after another: the world, the annotations and the trace go on.\<close>

fun guard_all :: "'w guard_body \<Rightarrow> 'w request list \<Rightarrow> 'w progress \<Rightarrow> 'w progress" where
  "guard_all g [] p = p"
| "guard_all g (q # qs) p = guard_all g qs (snd (guard g (rq_action q) (rq_execute q) (rq_options q) p))"

lemma intentHashOf_intent: "intentHashOf h (JObj (intent_fields i)) = intentHash h i"
  by (simp add: intentHashOf_def intentHash_def intent_binding_def)

end
