(* ===== verification/GuardLaws.thy ===== *)
theory GuardLaws
  imports Guard
begin

text \<open>
  What the steps of the guard have in common: the trace of calls only grows, the lifecycle agrees with it
  at every step, and nothing before the gate executes. Both laws are closed under \<open>bindG\<close>, so they lift
  from the single steps to a whole request.
\<close>

section \<open>The lifecycle tells what was called\<close>

definition decided :: "call list \<Rightarrow> bool" where
  "decided cs = (\<exists>d. Decided d \<in> set cs)"

definition truthful :: "lifecycle \<Rightarrow> call list \<Rightarrow> bool" where
  "truthful lc cs =
     ((policyEvaluated lc \<longleftrightarrow> (\<exists>i s t v. Evaluated i s t (Some v) \<in> set cs)) \<and>
      (authorizationConsumed lc \<longleftrightarrow> (\<exists>i. ConsumeAuth i (Some (JBool True)) \<in> set cs)) \<and>
      (delegationConsumed lc \<longleftrightarrow> (\<exists>i. ConsumeDelegation i (Some (JBool True)) \<in> set cs)) \<and>
      (stateCommitted lc \<longleftrightarrow> (\<exists>s v a. truthy a \<and> Committed s v (Some a) \<in> set cs)) \<and>
      (executionStarted lc \<longleftrightarrow> Executed \<in> set cs) \<and>
      \<not> sharedBodyEntered lc \<and> (\<forall>e. Reported e \<notin> set cs))"

definition good_end :: "thrown + 'a \<Rightarrow> lifecycle \<Rightarrow> call list \<Rightarrow> bool" where
  "good_end r lc cs =
     (truthful lc cs \<and> (decided cs \<longrightarrow> executionStarted lc \<or> (\<exists>x. r = Inl x \<and> is_deny_error (th_error x))))"

definition keeps_honest :: "('w, 'a) step \<Rightarrow> bool" where
  "keeps_honest m = (\<forall>p r p' pre cs. m p = (r, p') \<longrightarrow> calls p = pre @ cs \<longrightarrow> good_end (Inr ()) (life p) cs \<longrightarrow>
     (\<exists>more. calls p' = pre @ cs @ more \<and> good_end r (life p') (cs @ more)))"

lemma keeps_honestI:
  assumes "\<And>p r p' pre cs. m p = (r, p') \<Longrightarrow> calls p = pre @ cs \<Longrightarrow> good_end (Inr ()) (life p) cs \<Longrightarrow>
      \<exists>more. calls p' = pre @ cs @ more \<and> good_end r (life p') (cs @ more)"
  shows "keeps_honest m"
  using assms unfolding keeps_honest_def by blast

lemma keeps_honestD:
  assumes "keeps_honest m" and "m p = (r, p')" and "calls p = pre @ cs" and "good_end (Inr ()) (life p) cs"
  obtains more where "calls p' = pre @ cs @ more" "good_end r (life p') (cs @ more)"
  using assms unfolding keeps_honest_def by blast

lemma keeps_bindG [intro!]:
  assumes "keeps_honest m" and "\<And>a. keeps_honest (f a)"
  shows "keeps_honest (bindG m f)"
proof (rule keeps_honestI)
  fix p r p' pre cs
  assume run: "bindG m f p = (r, p')" and c: "calls p = pre @ cs" and g: "good_end (Inr ()) (life p) cs"
  obtain r1 p1 where m: "m p = (r1, p1)" by (cases "m p")
  from keeps_honestD [OF assms(1) m c g] obtain more where
    c1: "calls p1 = pre @ (cs @ more)" and g1: "good_end r1 (life p1) (cs @ more)" by auto
  show "\<exists>more. calls p' = pre @ cs @ more \<and> good_end r (life p') (cs @ more)"
  proof (cases r1)
    case (Inl x)
    with run m have e: "p' = p1" "r = Inl x" by (auto simp: bindG_def)
    have "good_end r (life p') (cs @ more)"
      using g1 unfolding e Inl good_end_def by simp
    with c1 e(1) show ?thesis by auto
  next
    case (Inr a)
    with run m have f: "f a p1 = (r, p')" by (simp add: bindG_def)
    from g1 Inr have "good_end (Inr ()) (life p1) (cs @ more)"
      unfolding Inr good_end_def by simp
    from keeps_honestD [OF assms(2) f c1 this] obtain more' where
      "calls p' = pre @ (cs @ more) @ more'" "good_end r (life p') ((cs @ more) @ more')" by blast
    then have "calls p' = pre @ cs @ (more @ more') \<and> good_end r (life p') (cs @ (more @ more'))" by simp
    then show ?thesis by blast
  qed
qed

text \<open>Steps that change neither the trace nor the flags of the lifecycle.\<close>

definition still :: "('w, 'a) step \<Rightarrow> bool" where
  "still m = (\<forall>p r p'. m p = (r, p') \<longrightarrow> calls p' = calls p \<and> (\<forall>cs. truthful (life p') cs \<longleftrightarrow> truthful (life p) cs) \<and>
     executionStarted (life p') = executionStarted (life p))"

lemma still_keeps: "still m \<Longrightarrow> keeps_honest m"
proof (rule keeps_honestI)
  fix p r p' pre cs
  assume "still m" "m p = (r, p')" "calls p = pre @ cs" "good_end (Inr ()) (life p) cs"
  then have "calls p' = pre @ cs @ [] \<and> good_end r (life p') (cs @ [])"
    unfolding still_def good_end_def by auto
  then show "\<exists>more. calls p' = pre @ cs @ more \<and> good_end r (life p') (cs @ more)" by blast
qed

lemma truthful_updates [simp]:
  "truthful (lc\<lparr>at_stage := s\<rparr>) cs \<longleftrightarrow> truthful lc cs"
  "truthful (lc\<lparr>lc_intentId := i\<rparr>) cs \<longleftrightarrow> truthful lc cs"
  "truthful (lc\<lparr>authorizationIssued := b\<rparr>) cs \<longleftrightarrow> truthful lc cs"
  by (simp_all add: truthful_def)

lemma still_return [intro!]: "still (returnG a)" "still (throwG x)" "still (refuse s k x)"
  by (simp_all add: still_def returnG_def throwG_def refuse_def)

lemma still_caught [intro!]: "still (reject_caught n y)"
  by (auto simp: still_def reject_caught_def split: origin.splits)

lemma still_lift [intro!]: "still (liftE e)" "still (rethrow q)"
  by (auto simp: liftE_def rethrow_def still_def throwG_def returnG_def split: sum.split)

lemma still_life [intro!]:
  "still (enter s)" "still (advance (\<lambda>lc. lc\<lparr>lc_intentId := i\<rparr>))" "still (advance (\<lambda>lc. lc\<lparr>authorizationIssued := b\<rparr>))"
  by (simp_all add: still_def enter_def advance_def)

lemma still_clock [intro!]: "still (read_clock clk)"
  by (auto simp: still_def read_clock_def split: prod.splits)

lemma still_validated [intro!]: "still (validatedTrust g s)"
  by (auto simp: still_def validatedTrust_def refuse_def split: option.splits sum.splits)

lemma still_bindG: "still m \<Longrightarrow> (\<And>a. still (f a)) \<Longrightarrow> still (bindG m f)"
  unfolding still_def bindG_def by (fastforce split: prod.splits sum.splits)

lemma still_trusted [intro!]: "still (trusted_now g s)"
  unfolding trusted_now_def by (rule still_bindG [OF still_validated]) (simp add: still_def)

lemmas still_basic = still_return still_caught still_lift still_life still_clock still_validated still_trusted

lemmas keeps_basic [intro!] = still_basic [THEN still_keeps]

text \<open>Calls that no flag speaks of.\<close>

fun neutral :: "call \<Rightarrow> bool" where
  "neutral LoadState = True"
| "neutral (CheckDelegation _ _) = True"
| "neutral (AcceptWatermark _) = True"
| "neutral (BeforeExecute _) = True"
| "neutral (Evaluated _ _ _ a) = (a = None)"
| "neutral (ConsumeAuth _ a) = (a \<noteq> Some (JBool True))"
| "neutral (ConsumeDelegation _ a) = (a \<noteq> Some (JBool True))"
| "neutral (Committed _ _ a) = (case a of Some v \<Rightarrow> \<not> truthy v | None \<Rightarrow> True)"
| "neutral _ = False"

lemma neutral_mem:
  assumes "list_all neutral cs'" and "\<not> neutral c"
  shows "c \<in> set (cs @ cs') \<longleftrightarrow> c \<in> set cs"
  using assms by (auto simp: list_all_iff)

lemma truthful_neutral:
  assumes "list_all neutral cs'"
  shows "truthful lc (cs @ cs') \<longleftrightarrow> truthful lc cs"
  unfolding truthful_def by (simp del: set_append add: neutral_mem [OF assms] cong: conj_cong)

lemma decided_neutral: "list_all neutral cs' \<Longrightarrow> decided (cs @ cs') \<longleftrightarrow> decided cs"
  unfolding decided_def by (simp del: set_append add: neutral_mem)

lemma keeps_invoke [intro!]:
  assumes "\<And>r. list_all neutral (entry r)"
  shows "keeps_honest (invoke entry cb)"
proof (rule keeps_honestI)
  fix p r p' pre cs
  assume run: "invoke entry cb p = (r, p')" and c: "calls p = pre @ cs" and g: "good_end (Inr ()) (life p) cs"
  from run obtain q where "calls p' = calls p @ entry q" "life p' = life p"
    by (auto simp: invoke_def split: prod.splits)
  with c g assms [of q] have "calls p' = pre @ cs @ entry q \<and> good_end r (life p') (cs @ entry q)"
    by (simp add: good_end_def truthful_neutral decided_neutral)
  then show "\<exists>more. calls p' = pre @ cs @ more \<and> good_end r (life p') (cs @ more)" by blast
qed

section \<open>The steps\<close>

lemma keeps_call:
  assumes "\<And>r p q p' pre cs. f r p = (q, p') \<Longrightarrow> calls p = pre @ cs @ entry r \<Longrightarrow> good_end (Inr ()) (life p) cs \<Longrightarrow>
      \<exists>more. calls p' = pre @ cs @ entry r @ more \<and> good_end q (life p') (cs @ entry r @ more)"
  shows "keeps_honest (bindG (invoke entry cb) f)"
proof (rule keeps_honestI)
  fix p q p' pre cs
  assume run: "bindG (invoke entry cb) f p = (q, p')" and c: "calls p = pre @ cs" and g: "good_end (Inr ()) (life p) cs"
  obtain r w where cb: "cb (world p) = (r, w)" by (cases "cb (world p)")
  let ?p = "p\<lparr>world := w, calls := calls p @ entry r\<rparr>"
  have "f r ?p = (q, p')" using run by (simp add: bindG_def invoke_def cb)
  moreover have "calls ?p = pre @ cs @ entry r" using c by simp
  moreover have "good_end (Inr ()) (life ?p) cs" using g by simp
  ultimately show "\<exists>more. calls p' = pre @ cs @ more \<and> good_end q (life p') (cs @ more)"
    using assms by blast
qed

text \<open>A flag that follows an answer: how the trace with the new call relates to the flag.\<close>

lemmas flag_simps = good_end_def truthful_def decided_def refuse_def advance_def answer_def

lemma good_neutral:
  assumes "neutral c" and "good_end (Inr ()) lc cs"
  shows "good_end q lc (cs @ [c])"
proof -
  have "list_all neutral [c]" using assms(1) by simp
  from truthful_neutral [OF this] decided_neutral [OF this] assms(2) show ?thesis by (simp add: good_end_def)
qed

lemma keeps_flagged:
  assumes quiet: "\<And>r. neutral (e r) \<Longrightarrow> still (f r)"
    and flag: "\<And>r p cs. \<not> neutral (e r) \<Longrightarrow> good_end (Inr ()) (life p) cs \<Longrightarrow>
        \<exists>a p'. f r p = (Inr a, p') \<and> calls p' = calls p \<and> good_end (Inr ()) (life p') (cs @ [e r])"
  shows "keeps_honest (bindG (invoke (\<lambda>r. [e r]) cb) f)"
proof (rule keeps_call)
  fix r p q p' pre cs
  assume f: "f r p = (q, p')" and c: "calls p = pre @ cs @ [e r]" and g: "good_end (Inr ()) (life p) cs"
  have "calls p' = calls p \<and> good_end q (life p') (cs @ [e r])"
  proof (cases "neutral (e r)")
    case True
    with quiet f have s: "calls p' = calls p" "\<And>cs. truthful (life p') cs \<longleftrightarrow> truthful (life p) cs"
      "executionStarted (life p') = executionStarted (life p)" unfolding still_def by blast+
    from good_neutral [OF True g, of q] have "good_end q (life p') (cs @ [e r])"
      unfolding good_end_def s(2,3) .
    with s(1) show ?thesis by simp
  next
    case False
    from flag [OF False g] f show ?thesis by (auto simp: good_end_def)
  qed
  with c show "\<exists>more. calls p' = pre @ cs @ [e r] @ more \<and> good_end q (life p') (cs @ [e r] @ more)"
    by (intro exI [of _ "[]"]) simp
qed

lemma keeps_consume_auth [intro!]: "keeps_honest (consume_auth g u what rep i x)"
  unfolding consume_auth_def
proof (rule keeps_flagged, goal_cases)
  case (1 r)
  then show ?case by (auto simp: answer_def invalidReplayResult_def split: sum.splits)
next
  case (2 r p cs)
  then have "r = Inr (JBool True)" by (auto simp: answer_def split: sum.splits)
  with 2(2) show ?case by (auto simp: flag_simps)
qed

lemma keeps_consume_delegation [intro!]: "keeps_honest (consume_delegation g d)"
proof (cases "rs_consumeDelegationId (g_replayStore g)")
  case (Some f)
  show ?thesis
    unfolding consume_delegation_def Some option.case
  proof (rule keeps_flagged, goal_cases)
    case (1 r)
    then show ?case by (auto simp: answer_def invalidReplayResult_def split: sum.splits)
  next
    case (2 r p cs)
    then have "r = Inr (JBool True)" by (auto simp: answer_def split: sum.splits)
    with 2(2) show ?case by (auto simp: flag_simps)
  qed
qed (auto simp: consume_delegation_def)

lemma keeps_evaluate_policy [intro!]: "keeps_honest (evaluate_policy g i st)"
  unfolding evaluate_policy_def
proof (rule keeps_bindG [OF keeps_basic(7) keeps_bindG [OF keeps_basic(10) keeps_flagged]], goal_cases)
  case (1 u t r)
  then show ?case by (auto simp: answer_def split: sum.splits)
next
  case (2 u t r p cs)
  then obtain v where "r = Inr v" by (cases r) (simp_all add: answer_def)
  with 2(2) show ?case by (auto simp: flag_simps bindG_def returnG_def)
qed

lemma keeps_commit [intro!]: "keeps_honest (commit g s v)"
  unfolding commit_def
proof (rule keeps_bindG [OF keeps_basic(7) keeps_flagged], goal_cases)
  case (1 u r)
  then show ?case by (cases r) (auto simp: answer_def)
next
  case (2 u r p cs)
  then obtain a where "r = Inr a" "truthy a" by (cases r) (simp_all add: answer_def)
  with 2(2) show ?case by (auto simp: flag_simps bindG_def returnG_def)
qed

section \<open>The parts of a request\<close>

lemma truthful_Decided [simp]: "truthful lc (cs @ [Decided d]) \<longleftrightarrow> truthful lc cs"
  by (simp add: truthful_def)

lemma keeps_fireDecision:
  "executionStarted (life p) \<Longrightarrow> fireDecision hook rec p = (r, p') \<Longrightarrow> calls p = pre @ cs \<Longrightarrow>
     good_end (Inr ()) (life p) cs \<Longrightarrow> \<exists>more. calls p' = pre @ cs @ more \<and> good_end r (life p') (cs @ more)"
  by (cases hook)
    (auto simp: fireDecision_def bindG_def invoke_def returnG_def good_end_def split: prod.splits)

lemma keeps_load_state [intro!]: "keeps_honest (load_state g)"
  unfolding load_state_def Let_def by (intro keeps_bindG) (auto split: settled.split)

lemma keeps_normalize [intro!]: "keeps_honest (normalize_action g act b)"
  unfolding normalize_action_def normalization_refused_def
  by (intro keeps_bindG) (auto split: sum.split guard_error.split)

lemma keeps_bindings [intro!]: "keeps_honest (bind_intent g i a)" "keeps_honest (bind_state g st a)"
  unfolding bind_intent_def bind_state_def Let_def by (auto split: sum.split)

lemma keeps_verify_issued [intro!]: "keeps_honest (verify_issued g a)"
  unfolding verify_issued_def by (intro keeps_bindG) auto

lemma keeps_denial [intro!]: "keeps_honest (deny_request g act v)"
proof (cases "isValidDenyReasons v")
  case (Some rs)
  show ?thesis
  proof (cases "gc_onDecision (g_config g)")
    case (Some hook)
    show ?thesis
      by (rule keeps_honestI) (auto simp: deny_request_def \<open>isValidDenyReasons v = Some rs\<close> Some fireDecision_def
          bindG_def invoke_def returnG_def throwG_def good_end_def split: prod.splits)
  qed (use Some in \<open>auto simp: deny_request_def fireDecision_def\<close>)
qed (auto simp: deny_request_def)

lemma keeps_require_allow [intro!]: "keeps_honest (require_allow g act ev)"
  unfolding require_allow_def by (intro keeps_bindG) auto

lemma keeps_standard_clearance [intro!]: "keeps_honest (standard_clearance g act i vs)"
  unfolding standard_clearance_def Let_def by (intro keeps_bindG) auto

lemma keeps_accept_watermarks [intro!]: "keeps_honest (accept_watermarks acc as)"
  by (induction as) (auto split: sum.split)

lemma keeps_evaluateRevocation [intro!]: "keeps_honest (evaluateRevocation h pol cfg now ks)"
  unfolding evaluateRevocation_def
  by (auto split: sum.split settled.split jsval.split option.split)

lemma keeps_check_krl [intro!]: "keeps_honest (check_krl g inp)"
  unfolding check_krl_def krl_denied_def by (auto split: option.split denial.split)

lemma keeps_check_provider [intro!]: "keeps_honest (check_provider g d)"
  unfolding check_provider_def check_status_def unavailable_def
  by (auto split: option.split sum.split settled.split)

lemma keeps_delegation_input [intro!]: "keeps_honest (delegation_input g raw)"
  unfolding delegation_input_def by (auto split: option.split sum.split)

lemma keeps_delegated_amount [intro!]: "keeps_honest (delegated_amount i)"
  unfolding delegated_amount_def by (auto split: jsval.split)

lemma keeps_authenticate [intro!]: "keeps_honest (authenticate_parent g inp ks)" "keeps_honest (check_chain g inp ks i act amt)"
  unfolding authenticate_parent_def check_chain_def by auto

lemma keeps_delegated_clearance [intro!]: "keeps_honest (delegated_clearance g act i raw)"
  unfolding delegated_clearance_def by (intro keeps_bindG) auto

lemma keeps_execution_gate [intro!]: "keeps_honest (execution_gate g act auth)"
  unfolding execution_gate_def before_execute_def by (auto split: option.split)

lemma keeps_perform [intro!]: "keeps_honest (perform g execute rec)"
proof (rule keeps_honestI)
  fix p q p' pre cs
  assume run: "perform g execute rec p = (q, p')" and c: "calls p = pre @ cs" and g: "good_end (Inr ()) (life p) cs"
  obtain r w where cb: "execute (world p) = (r, w)" by (cases "execute (world p)")
  let ?p = "p\<lparr>life := (life p)\<lparr>executionStarted := True\<rparr>, world := w, calls := calls p @ [Executed]\<rparr>"
  have started: "executionStarted (life ?p)" "calls ?p = pre @ (cs @ [Executed])" using c by simp_all
  have good: "good_end (Inr ()) (life ?p) (cs @ [Executed])" using g by (auto simp: flag_simps)
  have k: "bindG (rethrow r) (\<lambda>result. bindG (fireDecision (gc_onDecision (g_config g)) rec) (\<lambda>_. returnG result)) ?p = (q, p')"
    using run by (simp add: perform_def bindG_def advance_def invoke_def cb)
  show "\<exists>more. calls p' = pre @ cs @ more \<and> good_end q (life p') (cs @ more)"
  proof (cases r)
    case (Inl x)
    with k have "rethrow (Inl x) ?p = (q, p')" by simp
    then have "p' = ?p" "\<exists>y. q = Inl y" by (auto simp: rethrow_def)
    with started good show ?thesis by (intro exI [of _ "[Executed]"]) (simp add: good_end_def)
  next
    case (Inr v)
    obtain s p1 where f: "fireDecision (gc_onDecision (g_config g)) rec ?p = (s, p1)"
      by (cases "fireDecision (gc_onDecision (g_config g)) rec ?p")
    from keeps_fireDecision [OF started(1) f started(2) good] obtain more where
      m: "calls p1 = pre @ (cs @ [Executed]) @ more" "good_end s (life p1) ((cs @ [Executed]) @ more)" by blast
    from k Inr f have "p' = p1" by (auto simp: bindG_def returnG_def split: sum.splits)
    moreover have "executionStarted (life p1)" using m(2) by (simp add: good_end_def truthful_def)
    ultimately show ?thesis using m by (intro exI [of _ "[Executed] @ more"]) (simp add: good_end_def)
  qed
qed

lemma keeps_runRequest: "keeps_honest (runRequest g act execute options)"
  unfolding runRequest_def delegated_request_def standard_request_def Let_def by (intro keeps_bindG) auto

end
