(* ===== verification/GuardExecution.thy ===== *)
theory GuardExecution
  imports GuardLaws
begin

text \<open>
  What a request has done when it reaches its execution gate: every step before the gate leaves
  \<open>executionStarted\<close> alone, and a step that succeeds leaves an exact piece of trace behind. At the end of a
  request the flag \<open>authorizationIssued\<close> agrees with the answers of the engine.
\<close>

section \<open>Nothing before the gate executes\<close>

definition unexecuted :: "('w, 'a) step \<Rightarrow> bool" where
  "unexecuted m = (\<forall>p r p'. m p = (r, p') \<longrightarrow> executionStarted (life p') = executionStarted (life p))"

lemma unexecuted_bindG [intro!]: "unexecuted m \<Longrightarrow> (\<And>a. unexecuted (f a)) \<Longrightarrow> unexecuted (bindG m f)"
  unfolding unexecuted_def bindG_def by (fastforce split: prod.splits sum.splits)

lemma unexecuted_still: "still m \<Longrightarrow> unexecuted m"
  by (auto simp: still_def unexecuted_def)

lemmas unexecuted_basic [intro!] = still_basic [THEN unexecuted_still]

lemma unexecuted_invoke [intro!]: "unexecuted (invoke entry cb)"
  by (auto simp: unexecuted_def invoke_def split: prod.splits)

lemma unexecuted_flags [intro!]:
  "unexecuted (advance (\<lambda>lc. lc\<lparr>policyEvaluated := b\<rparr>))" "unexecuted (advance (\<lambda>lc. lc\<lparr>authorizationConsumed := b\<rparr>))"
  "unexecuted (advance (\<lambda>lc. lc\<lparr>delegationConsumed := b\<rparr>))" "unexecuted (advance (\<lambda>lc. lc\<lparr>stateCommitted := b\<rparr>))"
  by (simp_all add: unexecuted_def advance_def)

lemma unexecuted_loads [intro!]: "unexecuted (load_state g)" "unexecuted (normalize_action g act b)"
  unfolding load_state_def normalize_action_def normalization_refused_def Let_def
  by (auto split: settled.split sum.split guard_error.split)

lemma unexecuted_fire [intro!]: "unexecuted (fireDecision hook rec)"
  unfolding fireDecision_def by (auto split: option.split)

lemma unexecuted_consume [intro!]: "unexecuted (consume_auth g u what rep i x)" "unexecuted (consume_delegation g d)"
  unfolding consume_auth_def consume_delegation_def invalidReplayResult_def
  by (auto split: sum.split option.split)

lemma unexecuted_standard [intro!]: "unexecuted (standard_clearance g act i vs)"
  unfolding standard_clearance_def evaluate_policy_def require_allow_def deny_request_def verify_issued_def
    bind_intent_def bind_state_def commit_def Let_def
  by (auto split: sum.split option.split)

lemma unexecuted_watermarks [intro!]: "unexecuted (accept_watermarks acc as)"
  by (induction as) (auto split: sum.split)

lemma unexecuted_revocation [intro!]: "unexecuted (check_provider g d)" "unexecuted (check_krl g inp)"
  unfolding check_provider_def check_status_def unavailable_def check_krl_def krl_denied_def evaluateRevocation_def
  by (auto split: sum.split option.split settled.split denial.split jsval.split)

lemma unexecuted_delegated [intro!]: "unexecuted (delegated_clearance g act i raw)"
  unfolding delegated_clearance_def delegated_amount_def delegation_input_def authenticate_parent_def check_chain_def
  by (auto split: sum.split option.split jsval.split)

lemma unexecuted_gate [intro!]: "unexecuted (execution_gate g act auth)"
  unfolding execution_gate_def before_execute_def by (auto split: option.split)

section \<open>What success leaves in the trace\<close>

lemma invoke_eq: "invoke entry cb p = (r, p') \<longleftrightarrow>
    (\<exists>q w. cb (world p) = (q, w) \<and> r = Inr q \<and> p' = p\<lparr>world := w, calls := calls p @ entry q\<rparr>)"
  by (auto simp: invoke_def split: prod.splits)

lemma step_Inr [simp]:
  "returnG a p = (Inr b, p') \<longleftrightarrow> b = a \<and> p' = p"
  "throwG x p = (Inr b, p') \<longleftrightarrow> False"
  "refuse s k x p = (Inr b, p') \<longleftrightarrow> False"
  "reject_caught n y p = (Inr b, p') \<longleftrightarrow> False"
  "advance f p = (Inr u, p') \<longleftrightarrow> p' = p\<lparr>life := f (life p)\<rparr>"
  "enter s p = (Inr u, p') \<longleftrightarrow> p' = p\<lparr>life := (life p)\<lparr>at_stage := s\<rparr>\<rparr>"
  "liftE e p = (Inr b, p') \<longleftrightarrow> e = Inr b \<and> p' = p"
  "rethrow q p = (Inr b, p') \<longleftrightarrow> q = Inr b \<and> p' = p"
  "read_clock clk p = (Inr t, p') \<longleftrightarrow> (\<exists>w. clk (world p) = (t, w) \<and> p' = p\<lparr>world := w\<rparr>)"
  by (auto simp: returnG_def throwG_def refuse_def reject_caught_def advance_def enter_def liftE_def rethrow_def
      read_clock_def split: sum.splits prod.splits)

lemma trusted_now_Inr: "trusted_now g s p = (Inr ks, p') \<Longrightarrow>
    p' = p \<and> ks = gc_trustedKeySets (g_config g) (world p)"
  by (auto elim!: bindG_InrE simp: trusted_now_def validatedTrust_def validatedTrustSnapshot_def bindE_eq_Inr
      split: option.splits sum.splits)

lemma load_state_Inr: "load_state g p = (Inr vs, p') \<Longrightarrow> calls p' = calls p @ [LoadState]"
  by (auto elim!: bindG_InrE simp: load_state_def invoke_eq Let_def split: settled.splits if_splits)

lemma normalize_Inr: "normalize_action g act b p = (Inr i, p') \<Longrightarrow> calls p' = calls p"
  by (auto elim!: bindG_InrE simp: normalize_action_def normalization_refused_def invoke_eq
      split: sum.splits guard_error.splits)

lemma evaluate_policy_Inr:
  "evaluate_policy g i st p = (Inr ev, p') \<Longrightarrow> \<exists>t. calls p' = calls p @ [Evaluated i st t (Some ev)]"
  by (auto elim!: bindG_InrE simp: evaluate_policy_def invoke_eq answer_def split: sum.splits)

lemma require_allow_Inr:
  assumes "require_allow g act ev p = (Inr iss, p')"
  shows "calls p' = calls p \<and> getp ev ''decision'' \<noteq> JStr ''DENY'' \<and> is_authorization iss = getp ev ''authorization'' \<and>
    is_nextState iss = getp ev ''nextState''"
  using assms by (auto elim!: bindG_InrE simp: require_allow_def deny_request_def propE_def split: if_splits option.splits)

lemma verify_issued_Inr:
  assumes "verify_issued g auth p = (Inr u, p')"
  shows "calls p' = calls p \<and> (\<exists>now w r. verifyAuthorization (g_host g) now
      (strict_options (gc_expectedAudience (g_config g)) None now (gc_trustedKeySets (g_config g) w)) auth = Inr r \<and> vr_ok r)"
  using assms by (fastforce elim!: bindG_InrE simp: verify_issued_def dest!: trusted_now_Inr split: if_splits)

lemma bind_intent_Inr:
  "bind_intent g i auth p = (Inr u, p') \<Longrightarrow> p' = p \<and> (\<exists>d. intentHashOf (g_host g) i = Inr d \<and> getp auth ''intent_hash'' = JStr d)"
  by (auto simp: bind_intent_def split: sum.splits if_splits)

lemma bind_state_Inr:
  "bind_state g st auth p = (Inr u, p') \<Longrightarrow>
     calls p' = calls p \<and> (\<exists>w w'. state_hasher g st w = (Inr (getp auth ''state_hash''), w'))"
  by (fastforce elim!: bindG_InrE simp: bind_state_def Let_def invoke_eq split: sum.splits if_splits)

lemma consume_auth_Inr:
  "consume_auth g u what rep i x p = (Inr y, p') \<Longrightarrow> calls p' = calls p @ [ConsumeAuth i (Some (JBool True))]"
  by (auto elim!: bindG_InrE simp: consume_auth_def invoke_eq answer_def invalidReplayResult_def split: sum.splits if_splits)

lemma consume_delegation_Inr:
  "consume_delegation g d p = (Inr y, p') \<Longrightarrow> calls p' = calls p @
     (if rs_consumeDelegationId (g_replayStore g) = None then []
      else [ConsumeDelegation (getp d ''delegation_id'') (Some (JBool True))])"
  by (auto elim!: bindG_InrE simp: consume_delegation_def invoke_eq answer_def invalidReplayResult_def
      split: option.splits sum.splits if_splits)

lemma commit_Inr:
  "commit g s v p = (Inr y, p') \<Longrightarrow> \<exists>ok. truthy ok \<and> calls p' = calls p @ [Committed s v (Some ok)]"
  by (auto elim!: bindG_InrE simp: commit_def invoke_eq answer_def split: if_splits)

text \<open>The trace of the gate and of the execution, however they end.\<close>

definition gate_call :: "call \<Rightarrow> bool" where
  "gate_call c = (case c of BeforeExecute _ \<Rightarrow> True | Executed \<Rightarrow> True | Decided _ \<Rightarrow> True | _ \<Rightarrow> False)"

definition gated :: "('w, 'a) step \<Rightarrow> bool" where
  "gated m = (\<forall>p r p'. m p = (r, p') \<longrightarrow> (\<exists>cs. calls p' = calls p @ cs \<and> list_all gate_call cs))"

lemma gated_bindG [intro!]:
  assumes "gated m" "\<And>a. gated (f a)"
  shows "gated (bindG m f)"
  unfolding gated_def
proof (intro allI impI)
  fix p r p' assume run: "bindG m f p = (r, p')"
  obtain q p1 where m: "m p = (q, p1)" by (cases "m p")
  with assms(1) obtain cs where cs: "calls p1 = calls p @ cs" "list_all gate_call cs" unfolding gated_def by blast
  show "\<exists>cs. calls p' = calls p @ cs \<and> list_all gate_call cs"
  proof (cases q)
    case (Inl x)
    with run m have "p' = p1" by (simp add: bindG_def)
    with cs show ?thesis by blast
  next
    case (Inr a)
    with run m have "f a p1 = (r, p')" by (simp add: bindG_def)
    with assms(2) obtain ds where "calls p' = calls p1 @ ds" "list_all gate_call ds" unfolding gated_def by blast
    with cs show ?thesis by (intro exI [of _ "cs @ ds"]) simp
  qed
qed

lemma gated_still: "still m \<Longrightarrow> gated m"
  by (auto simp: still_def gated_def)

lemmas gated_basic [intro!] = still_basic [THEN gated_still]

lemma gated_invoke [intro!]: "(\<And>r. list_all gate_call (entry r)) \<Longrightarrow> gated (invoke entry cb)"
  by (auto simp: gated_def invoke_eq)

lemma gated_gate [intro!]: "gated (execution_gate g act auth)"
  unfolding execution_gate_def before_execute_def by (auto simp: gate_call_def split: option.split)

lemma gated_started [intro!]: "gated (advance (\<lambda>lc. lc\<lparr>executionStarted := True\<rparr>))"
  by (simp add: gated_def advance_def)

lemma gated_perform [intro!]: "gated (perform g execute rec)"
  unfolding perform_def fireDecision_def by (auto simp: gate_call_def split: option.split)

section \<open>An executed request\<close>

text \<open>The conditions under which the standard path lets an authorization through.\<close>

definition properly_bound :: "'w guard_body \<Rightarrow> jsval \<Rightarrow> jsval \<Rightarrow> jsval \<Rightarrow> bool" where
  "properly_bound g intent st auth =
     ((\<exists>now w r. verifyAuthorization (g_host g) now
         (strict_options (gc_expectedAudience (g_config g)) None now (gc_trustedKeySets (g_config g) w)) auth = Inr r \<and> vr_ok r) \<and>
      (\<exists>d. intentHashOf (g_host g) intent = Inr d \<and> getp auth ''intent_hash'' = JStr d) \<and>
      (\<exists>w w'. state_hasher g st w = (Inr (getp auth ''state_hash''), w')))"

lemma standard_clearance_Inr:
  assumes "standard_clearance g act intent vs p = (Inr auth, p')"
  obtains t ev ok where "calls p' = calls p @ [Evaluated intent (vs_state vs) t (Some ev),
        ConsumeAuth (getp auth ''auth_id'') (Some (JBool True)),
        Committed (getp ev ''nextState'') (vs_version vs) (Some ok)]"
    "getp ev ''decision'' \<noteq> JStr ''DENY''" "auth = getp ev ''authorization''" "truthy ok"
    "properly_bound g intent (vs_state vs) auth"
proof -
  from assms obtain ev p1 iss p2 u p3 v p4 x p5 y p6 z where
    1: "evaluate_policy g intent (vs_state vs) p = (Inr ev, p1)" and
    2: "require_allow g act ev p1 = (Inr iss, p2)" and
    3: "verify_issued g auth p2 = (Inr u, p3)" and 4: "bind_intent g intent auth p3 = (Inr v, p4)" and
    5: "bind_state g (vs_state vs) auth p4 = (Inr x, p5)" and
    6: "consume_auth g ''Replay store unavailable'' ''auth_id'' ''Authorization replay detected''
          (getp auth ''auth_id'') (coalesce (getp auth ''expiry'') (JNum (jint 0))) p5 = (Inr y, p6)" and
    7: "commit g (is_nextState iss) (vs_version vs) p6 = (Inr z, p')" and auth: "auth = is_authorization iss"
    by (auto simp: standard_clearance_def Let_def elim!: bindG_InrE)
  have "properly_bound g intent (vs_state vs) auth"
    using verify_issued_Inr [OF 3] bind_intent_Inr [OF 4] bind_state_Inr [OF 5] unfolding properly_bound_def by blast
  moreover from evaluate_policy_Inr [OF 1] obtain t where "calls p1 = calls p @ [Evaluated intent (vs_state vs) t (Some ev)]" ..
  moreover from commit_Inr [OF 7] obtain ok where "truthy ok"
    "calls p' = calls p6 @ [Committed (is_nextState iss) (vs_version vs) (Some ok)]" by blast
  ultimately show thesis
    using require_allow_Inr [OF 2] verify_issued_Inr [OF 3] bind_intent_Inr [OF 4]
      bind_state_Inr [OF 5] consume_auth_Inr [OF 6] auth by (intro that [of t ev ok]) simp_all
qed

text \<open>A request that executed got through every step before its execution.\<close>

lemma executed_step:
  assumes run: "bindG m f p = (r, p')" and m: "keeps_honest m" "unexecuted m"
    and start: "calls p = pre @ cs0" "good_end (Inr ()) (life p) cs0" "\<not> executionStarted (life p)"
    and new: "calls p' = pre @ cs" and ex: "Executed \<in> set cs"
  obtains a p1 more where "m p = (Inr a, p1)" "f a p1 = (r, p')" "calls p1 = pre @ (cs0 @ more)"
    "good_end (Inr ()) (life p1) (cs0 @ more)" "\<not> executionStarted (life p1)"
proof (cases "m p")
  case (Pair q p1)
  from keeps_honestD [OF m(1) Pair start(1,2)] obtain more where
    more: "calls p1 = pre @ (cs0 @ more)" and good: "good_end q (life p1) (cs0 @ more)" by auto
  have un: "\<not> executionStarted (life p1)" using m(2) Pair start(3) unfolding unexecuted_def by metis
  with good have no: "Executed \<notin> set (cs0 @ more)" by (simp add: good_end_def truthful_def)
  show thesis
  proof (cases q)
    case (Inl y)
    with run Pair have "p' = p1" by (simp add: bindG_def)
    with more new no ex show thesis by simp
  next
    case (Inr a)
    have "f a p1 = (r, p')" using run Pair Inr by (simp add: bindG_def)
    moreover have "good_end (Inr ()) (life p1) (cs0 @ more)" using good unfolding Inr good_end_def by simp
    ultimately show thesis using Pair Inr more un that by blast
  qed
qed

lemma gated_rest:
  assumes "bindG (execution_gate g act a) (\<lambda>_. perform g execute rec) p = (r, p')"
  obtains tail where "calls p' = calls p @ tail" "list_all gate_call tail"
proof -
  have "gated (bindG (execution_gate g act a) (\<lambda>_. perform g execute rec))" by blast
  with assms that show thesis unfolding gated_def by blast
qed

lemma fresh_lifecycle: "good_end (Inr ()) (createLifecycle s) []" "\<not> executionStarted (createLifecycle s)"
  by (simp_all add: good_end_def truthful_def decided_def createLifecycle_def)

section \<open>The guard's own wrapper\<close>

lemma emit_cases:
  obtains "calls (emitBoundaryEvent hook x p) = calls p"
      "hook = None \<or> is_deny_error (th_error x) \<or> executionStarted (life p) \<or> sharedBodyEntered (life p) \<or> already_emitted x p"
  | call_hook n where "hook = Some call_hook" "\<not> is_deny_error (th_error x)" "\<not> executionStarted (life p)"
      "calls (emitBoundaryEvent hook x p) = calls p @ [Reported (buildEvent n (life p))]"
proof (cases "hook = None \<or> is_deny_error (th_error x) \<or> executionStarted (life p) \<or> sharedBodyEntered (life p) \<or> already_emitted x p")
  case True
  then have "calls (emitBoundaryEvent hook x p) = calls p"
    by (auto simp: emitBoundaryEvent_def mark_emitted_def split: option.split origin.split)
  with True that(1) show thesis by blast
next
  case False
  then obtain call_hook where h: "hook = Some call_hook" by (cases hook) simp_all
  have m: "life (mark_emitted x p) = life p" "calls (mark_emitted x p) = calls p"
    by (simp_all add: mark_emitted_def split: origin.split)
  have "calls (emitBoundaryEvent hook x p) = calls p @ [Reported (buildEvent (note_of (mark_emitted x p) x) (life p))]"
    using False m by (simp add: emitBoundaryEvent_def h Let_def invoke_def split: prod.split)
  with False h that(2) show thesis by blast
qed

lemma guard_run:
  assumes "guard g act execute options p = (r, p')"
  obtains p1 cs where "runRequest g act execute options (p\<lparr>life := createLifecycle STATE_LOAD\<rparr>) = (r, p1)"
    "calls p1 = calls p @ cs" "good_end r (life p1) cs"
    "p' = (case r of Inl x \<Rightarrow> emitBoundaryEvent (gc_onBoundaryEvent (g_config g)) x p1 | Inr _ \<Rightarrow> p1)"
proof -
  let ?p = "p\<lparr>life := createLifecycle STATE_LOAD\<rparr>"
  obtain p1 where run: "runRequest g act execute options ?p = (r, p1)"
    and e: "p' = (case r of Inl x \<Rightarrow> emitBoundaryEvent (gc_onBoundaryEvent (g_config g)) x p1 | Inr _ \<Rightarrow> p1)"
    using assms by (auto simp: guard_def split: prod.splits sum.splits)
  have "calls ?p = calls p @ []" "good_end (Inr ()) (life ?p) []" using fresh_lifecycle by simp_all
  from keeps_honestD [OF keeps_runRequest run this] obtain cs where
    "calls p1 = calls p @ cs" "good_end r (life p1) cs" by auto
  with run e that show thesis by blast
qed

text \<open>If the request executed, no boundary event follows: its trace is the trace of the body.\<close>

lemma guard_executed:
  assumes "guard g act execute options p = (r, p')" and "calls p' = calls p @ cs" and "Executed \<in> set cs"
  obtains p1 where "runRequest g act execute options (p\<lparr>life := createLifecycle STATE_LOAD\<rparr>) = (r, p1)"
    "calls p1 = calls p @ cs"
  using assms(1)
proof (rule guard_run)
  fix p1 ds
  assume run: "runRequest g act execute options (p\<lparr>life := createLifecycle STATE_LOAD\<rparr>) = (r, p1)"
    and ds: "calls p1 = calls p @ ds" and good: "good_end r (life p1) ds"
    and e: "p' = (case r of Inl x \<Rightarrow> emitBoundaryEvent (gc_onBoundaryEvent (g_config g)) x p1 | Inr _ \<Rightarrow> p1)"
  have "calls p' = calls p1"
  proof (cases r)
    case (Inl x)
    have "p' = emitBoundaryEvent (gc_onBoundaryEvent (g_config g)) x p1" using e Inl by simp
    then show ?thesis
    proof (cases rule: emit_cases [of "gc_onBoundaryEvent (g_config g)" x p1])
      case (2 hook n)
      from 2(4) ds assms(2) e Inl have "cs = ds @ [Reported (buildEvent n (life p1))]" by simp
      with assms(3) have "Executed \<in> set ds" by simp
      with good 2(3) show ?thesis by (simp add: good_end_def truthful_def)
    qed simp
  qed (use e in simp)
  with ds assms(2) run that show thesis by simp
qed

section \<open>The flag \<open>authorizationIssued\<close>\<close>

text \<open>
  The flag is set exactly when the engine answered with an ALLOW the guard can use. It follows the call by two
  checks, so it is not part of the invariant of \<open>GuardLaws\<close>; every other step leaves it alone and asks the
  engine nothing, and the pair of steps that evaluates and requires the ALLOW keeps the agreement.
\<close>

definition usable_allow :: "jsval \<Rightarrow> bool" where
  "usable_allow v =
     (getp v ''decision'' \<noteq> JStr ''DENY'' \<and> truthy (getp v ''authorization'') \<and> truthy (getp v ''nextState''))"

definition issuing :: "call list \<Rightarrow> bool" where
  "issuing cs = (\<exists>i s t v. Evaluated i s t (Some v) \<in> set cs \<and> usable_allow v)"

fun unasked :: "call \<Rightarrow> bool" where
  "unasked (Evaluated i s t a) = (a = None)"
| "unasked _ = True"

lemma issuing_append: "issuing (cs @ ds) \<longleftrightarrow> issuing cs \<or> issuing ds"
  by (auto simp: issuing_def)

lemma issuing_unasked: "list_all unasked cs \<Longrightarrow> \<not> issuing cs"
  by (force simp: issuing_def list_all_iff)

section \<open>Steps that leave the flag alone\<close>

definition quiet :: "('w, 'a) step \<Rightarrow> bool" where
  "quiet m = (\<forall>p r p'. m p = (r, p') \<longrightarrow> authorizationIssued (life p') = authorizationIssued (life p) \<and>
     (\<exists>new. calls p' = calls p @ new \<and> list_all unasked new))"

lemma quietD:
  assumes "quiet m" and "m p = (r, p')"
  obtains new where "authorizationIssued (life p') = authorizationIssued (life p)" "calls p' = calls p @ new"
    "list_all unasked new"
  using assms unfolding quiet_def by blast

lemma quiet_same:
  assumes "\<And>p r p'. m p = (r, p') \<Longrightarrow> calls p' = calls p \<and> authorizationIssued (life p') = authorizationIssued (life p)"
  shows "quiet m"
  unfolding quiet_def
proof (intro allI impI conjI exI [of _ "[]"])
  fix p r p' assume "m p = (r, p')"
  from assms [OF this] show "authorizationIssued (life p') = authorizationIssued (life p)" "calls p' = calls p @ []"
    by simp_all
qed simp

lemma quiet_bindG [intro!]:
  assumes "quiet m" and "\<And>a. quiet (f a)"
  shows "quiet (bindG m f)"
  unfolding quiet_def
proof (intro allI impI)
  fix p r p' assume run: "bindG m f p = (r, p')"
  obtain q p1 where m: "m p = (q, p1)" by (cases "m p")
  obtain new where 1: "authorizationIssued (life p1) = authorizationIssued (life p)" "calls p1 = calls p @ new"
    "list_all unasked new" using assms(1) m by (rule quietD)
  show "authorizationIssued (life p') = authorizationIssued (life p) \<and> (\<exists>new. calls p' = calls p @ new \<and> list_all unasked new)"
  proof (cases q)
    case (Inl x)
    with run m have "p' = p1" by (simp add: bindG_def)
    with 1 show ?thesis by blast
  next
    case (Inr a)
    with run m have f: "f a p1 = (r, p')" by (simp add: bindG_def)
    obtain new' where "authorizationIssued (life p') = authorizationIssued (life p1)" "calls p' = calls p1 @ new'"
      "list_all unasked new'" using assms(2) f by (rule quietD)
    with 1 show ?thesis by (intro conjI exI [of _ "new @ new'"]) simp_all
  qed
qed

lemma quiet_return [intro!]: "quiet (returnG a)" "quiet (throwG x)" "quiet (refuse s k x)"
  by (intro quiet_same; simp add: returnG_def throwG_def refuse_def)+

lemma quiet_caught [intro!]: "quiet (reject_caught n y)"
  by (rule quiet_same) (auto simp: reject_caught_def split: origin.splits)

lemma quiet_lift [intro!]: "quiet (liftE e)" "quiet (rethrow q)"
  by (intro quiet_same; auto simp: liftE_def rethrow_def throwG_def returnG_def split: sum.splits)+

lemma quiet_life [intro!]:
  "quiet (enter s)" "quiet (advance (\<lambda>lc. lc\<lparr>lc_intentId := i\<rparr>))" "quiet (advance (\<lambda>lc. lc\<lparr>policyEvaluated := b\<rparr>))"
  "quiet (advance (\<lambda>lc. lc\<lparr>authorizationConsumed := b\<rparr>))" "quiet (advance (\<lambda>lc. lc\<lparr>delegationConsumed := b\<rparr>))"
  "quiet (advance (\<lambda>lc. lc\<lparr>stateCommitted := b\<rparr>))" "quiet (advance (\<lambda>lc. lc\<lparr>executionStarted := b\<rparr>))"
  by (intro quiet_same; auto simp: enter_def advance_def)+

lemma quiet_clock [intro!]: "quiet (read_clock clk)"
  by (rule quiet_same) (auto simp: read_clock_def split: prod.splits)

lemma quiet_trust [intro!]: "quiet (validatedTrust g s)" "quiet (trusted_now g s)"
proof -
  show v: "quiet (validatedTrust g s)"
    by (rule quiet_same) (auto simp: validatedTrust_def refuse_def split: option.splits sum.splits)
  show "quiet (trusted_now g s)"
    unfolding trusted_now_def by (rule quiet_bindG [OF v]) (rule quiet_same, auto)
qed

lemma quiet_invoke [intro!]: "(\<And>r. list_all unasked (entry r)) \<Longrightarrow> quiet (invoke entry cb)"
  by (auto simp: quiet_def invoke_eq)

lemma quiet_loads [intro!]: "quiet (load_state g)" "quiet (normalize_action g act b)"
  unfolding load_state_def normalize_action_def normalization_refused_def Let_def
  by (auto split: settled.split sum.split guard_error.split)

lemma quiet_fire [intro!]: "quiet (fireDecision hook rec)"
  unfolding fireDecision_def by (auto split: option.split)

lemma quiet_consume [intro!]: "quiet (consume_auth g u what rep i x)" "quiet (consume_delegation g d)"
  unfolding consume_auth_def consume_delegation_def invalidReplayResult_def
  by (auto split: sum.split option.split)

lemma quiet_bindings [intro!]: "quiet (bind_intent g i a)" "quiet (bind_state g st a)" "quiet (verify_issued g a)"
  unfolding bind_intent_def bind_state_def verify_issued_def Let_def by (auto split: sum.split)

lemma quiet_commit [intro!]: "quiet (commit g s v)" "quiet (deny_request g act v)"
  unfolding commit_def deny_request_def by (auto split: option.split)

lemma quiet_watermarks [intro!]: "quiet (accept_watermarks acc as)"
  by (induction as) (auto split: sum.split)

lemma quiet_revocation [intro!]: "quiet (check_provider g d)" "quiet (check_krl g inp)"
  unfolding check_provider_def check_status_def unavailable_def check_krl_def krl_denied_def evaluateRevocation_def
  by (auto split: sum.split option.split settled.split denial.split jsval.split)

lemma quiet_delegated [intro!]: "quiet (delegated_clearance g act i raw)"
  unfolding delegated_clearance_def delegated_amount_def delegation_input_def authenticate_parent_def check_chain_def
  by (auto split: sum.split option.split jsval.split)

lemma quiet_execution [intro!]: "quiet (execution_gate g act auth)" "quiet (perform g execute rec)"
  unfolding execution_gate_def before_execute_def perform_def by (auto split: option.split)

section \<open>The flag over a request\<close>

text \<open>Any suffix of the trace that agrees with the flag stays so.\<close>

definition tells :: "('w, 'a) step \<Rightarrow> bool" where
  "tells m = (\<forall>p r p' pre cs. m p = (r, p') \<longrightarrow> calls p = pre @ cs \<longrightarrow> authorizationIssued (life p) = issuing cs \<longrightarrow>
     (\<exists>more. calls p' = pre @ cs @ more \<and> authorizationIssued (life p') = issuing (cs @ more)))"

lemma tellsD:
  assumes "tells m" and "m p = (r, p')" and "calls p = pre @ cs" and "authorizationIssued (life p) = issuing cs"
  obtains more where "calls p' = pre @ cs @ more" "authorizationIssued (life p') = issuing (cs @ more)"
  using assms unfolding tells_def by blast

lemma tells_quiet:
  assumes "quiet m"
  shows "tells m"
  unfolding tells_def
proof (intro allI impI)
  fix p r p' pre cs assume run: "m p = (r, p')" and c: "calls p = pre @ cs" "authorizationIssued (life p) = issuing cs"
  obtain new where "authorizationIssued (life p') = authorizationIssued (life p)" "calls p' = calls p @ new"
    "list_all unasked new" using assms run by (rule quietD)
  with c show "\<exists>more. calls p' = pre @ cs @ more \<and> authorizationIssued (life p') = issuing (cs @ more)"
    by (intro exI [of _ new]) (simp add: issuing_append issuing_unasked)
qed

lemma tells_bindG:
  assumes "tells m" and "\<And>a. tells (f a)"
  shows "tells (bindG m f)"
  unfolding tells_def
proof (intro allI impI)
  fix p r p' pre cs
  assume run: "bindG m f p = (r, p')" and c: "calls p = pre @ cs" "authorizationIssued (life p) = issuing cs"
  obtain q p1 where m: "m p = (q, p1)" by (cases "m p")
  obtain more where 1: "calls p1 = pre @ cs @ more" "authorizationIssued (life p1) = issuing (cs @ more)"
    using assms(1) m c by (rule tellsD)
  show "\<exists>more. calls p' = pre @ cs @ more \<and> authorizationIssued (life p') = issuing (cs @ more)"
  proof (cases q)
    case (Inl x)
    with run m have "p' = p1" by (simp add: bindG_def)
    with 1 show ?thesis by blast
  next
    case (Inr a)
    with run m have f: "f a p1 = (r, p')" by (simp add: bindG_def)
    obtain more' where "calls p' = pre @ (cs @ more) @ more'" "authorizationIssued (life p') = issuing ((cs @ more) @ more')"
      using assms(2) f 1 by (rule tellsD [where cs = "cs @ more"]) simp
    then show ?thesis by (intro exI [of _ "more @ more'"]) simp
  qed
qed

text \<open>What \<open>require_allow\<close> makes of an answer of the engine.\<close>

lemma require_allow_flag:
  assumes "require_allow g act ev p = (r, p')"
  obtains new where "calls p' = calls p @ new" "list_all unasked new"
    "authorizationIssued (life p') = (authorizationIssued (life p) \<or> usable_allow ev)" "(\<exists>iss. r = Inr iss) = usable_allow ev"
proof (cases "usable_allow ev")
  case True
  then have "propE ev ''decision'' = Inr (getp ev ''decision'')"
    by (cases ev) (auto simp: usable_allow_def propE_def)
  with True assms have "r = Inr \<lparr>is_authorization = getp ev ''authorization'', is_nextState = getp ev ''nextState''\<rparr>"
    "calls p' = calls p" "authorizationIssued (life p')"
    by (auto simp: usable_allow_def require_allow_def bindG_def liftE_def returnG_def advance_def)
  with True that [of "[]"] show thesis by simp
next
  case False
  let ?m = "bindG (liftE (propE ev ''decision'')) (\<lambda>decision.
       if decision = JStr ''DENY'' then deny_request g act (getp ev ''reasons'')
       else if \<not> truthy (getp ev ''authorization'')
       then refuse POLICY_EVALUATION AUTHORIZATION_MISSING (AuthorizationError
              ''PolicyEngine returned ALLOW without an authorization artifact. Execution blocked.'')
       else refuse POLICY_EVALUATION ENGINE_FAILURE
              (AuthorizationError ''PolicyEngine returned ALLOW without a nextState. Execution blocked.''))
     :: ('a, issued_allow) step"
  have eq: "require_allow g act ev p = ?m p"
  proof (cases "propE ev ''decision''")
    case (Inl x)
    then show ?thesis by (simp add: require_allow_def bindG_def liftE_def throwG_def)
  next
    case (Inr d)
    then have "d = getp ev ''decision''" by (auto dest: propE_InrD)
    with Inr False show ?thesis by (auto simp: require_allow_def bindG_def liftE_def returnG_def usable_allow_def)
  qed
  have "quiet ?m" by auto
  then obtain new where "authorizationIssued (life p') = authorizationIssued (life p)" "calls p' = calls p @ new"
    "list_all unasked new" using assms unfolding eq by (rule quietD)
  moreover have "\<not> (\<exists>iss. r = Inr iss)"
    using require_allow_Inr [of g act ev p _ p'] assms False eq
    by (auto simp: bindG_def liftE_def returnG_def throwG_def deny_request_def refuse_def usable_allow_def
        split: sum.splits option.splits if_splits prod.splits)
  ultimately show thesis using False that [of new] by simp
qed

lemma evaluate_policy_flag:
  assumes "evaluate_policy g i st p = (r, p')"
  shows "authorizationIssued (life p') = authorizationIssued (life p) \<and>
    (case r of
       Inr ev \<Rightarrow> \<exists>t. calls p' = calls p @ [Evaluated i st t (Some ev)]
     | Inl _ \<Rightarrow> \<exists>t. calls p' = calls p @ [Evaluated i st t None])"
  using assms
  by (auto simp: evaluate_policy_def bindG_def enter_def advance_def read_clock_def invoke_def answer_def refuse_def returnG_def
      split: prod.splits sum.splits)

lemma tells_standard_clearance: "tells (standard_clearance g act i vs)"
  unfolding tells_def
proof (intro allI impI)
  fix p r p' pre cs
  assume run: "standard_clearance g act i vs p = (r, p')"
    and c: "calls p = pre @ cs" "authorizationIssued (life p) = issuing cs"
  obtain q p1 where ep: "evaluate_policy g i (vs_state vs) p = (q, p1)" by fastforce
  note flag = evaluate_policy_flag [OF ep]
  show "\<exists>more. calls p' = pre @ cs @ more \<and> authorizationIssued (life p') = issuing (cs @ more)"
  proof (cases q)
    case (Inl x)
    with run ep have "p' = p1" by (simp add: standard_clearance_def bindG_def)
    moreover obtain t where "calls p1 = calls p @ [Evaluated i (vs_state vs) t None]" using flag Inl by auto
    ultimately show ?thesis using flag c
      by (intro exI [of _ "[Evaluated i (vs_state vs) t None]"]) (simp add: issuing_append issuing_unasked)
  next
    case (Inr ev)
    then obtain t where t: "calls p1 = calls p @ [Evaluated i (vs_state vs) t (Some ev)]" using flag by auto
    obtain s p2 where ra: "require_allow g act ev p1 = (s, p2)" by fastforce
    obtain new where new: "calls p2 = calls p1 @ new" "list_all unasked new"
      "authorizationIssued (life p2) = (authorizationIssued (life p1) \<or> usable_allow ev)"
      using ra by (rule require_allow_flag)
    have "issuing [Evaluated i (vs_state vs) t (Some ev)] = usable_allow ev" by (auto simp: issuing_def)
    with new t flag c have 2: "calls p2 = pre @ (cs @ Evaluated i (vs_state vs) t (Some ev) # new)"
      "authorizationIssued (life p2) = issuing (cs @ Evaluated i (vs_state vs) t (Some ev) # new)"
      using issuing_append [of cs "[Evaluated i (vs_state vs) t (Some ev)] @ new"]
        issuing_append [of "[Evaluated i (vs_state vs) t (Some ev)]" new] issuing_unasked [of new] by simp_all
    show ?thesis
    proof (cases s)
      case (Inl x)
      with run ep Inr ra have "p' = p2" by (simp add: standard_clearance_def bindG_def)
      with 2 show ?thesis by auto
    next
      case iss: (Inr iss)
      let ?rest = "\<lambda>iss. let auth = is_authorization iss
         in bindG (verify_issued g auth) (\<lambda>_.
            bindG (bind_intent g i auth) (\<lambda>_.
            bindG (bind_state g (vs_state vs) auth) (\<lambda>_.
            bindG (consume_auth g ''Replay store unavailable'' ''auth_id'' ''Authorization replay detected''
                     (getp auth ''auth_id'') (coalesce (getp auth ''expiry'') (JNum (jint 0)))) (\<lambda>_.
            bindG (commit g (is_nextState iss) (vs_version vs)) (\<lambda>_.
              returnG auth)))))"
      have r: "?rest iss p2 = (r, p')" using run ep Inr ra iss by (simp add: standard_clearance_def bindG_def)
      have "tells (?rest iss)" unfolding Let_def by (rule tells_quiet) auto
      then obtain more where "calls p' = pre @ (cs @ Evaluated i (vs_state vs) t (Some ev) # new) @ more"
        "authorizationIssued (life p') = issuing ((cs @ Evaluated i (vs_state vs) t (Some ev) # new) @ more)"
        using r 2 by (rule tellsD)
      then show ?thesis by (intro exI [of _ "Evaluated i (vs_state vs) t (Some ev) # new @ more"]) simp
    qed
  qed
qed

lemma tells_runRequest: "tells (runRequest g act execute options)"
proof -
  have d: "tells (delegated_request g act i raw execute)" for i raw
    unfolding delegated_request_def by (rule tells_quiet) auto
  have s: "tells (standard_request g act i vs execute)" for i vs
    unfolding standard_request_def by (rule tells_bindG [OF tells_standard_clearance], rule tells_quiet) auto
  show ?thesis
    unfolding runRequest_def Let_def
    by (rule tells_bindG [OF tells_quiet [OF quiet_loads(1)]], rule tells_bindG [OF tells_quiet [OF quiet_loads(2)]])
      (use d s in simp)
qed

text \<open>At the end of a request the flag agrees with the calls of the request.\<close>

lemma request_issued:
  assumes "runRequest g act execute options (p\<lparr>life := createLifecycle s\<rparr>) = (r, p1)" and "calls p1 = calls p @ cs"
  shows "authorizationIssued (life p1) \<longleftrightarrow> issuing cs"
proof -
  have "calls (p\<lparr>life := createLifecycle s\<rparr>) = calls p @ []"
    "authorizationIssued (life (p\<lparr>life := createLifecycle s\<rparr>)) = issuing []"
    by (simp_all add: createLifecycle_def issuing_def)
  with tells_runRequest assms(1) obtain more where "calls p1 = calls p @ [] @ more" "authorizationIssued (life p1) = issuing ([] @ more)"
    by (rule tellsD)
  with assms(2) show ?thesis by simp
qed

end
