(* ===== verification/DelegationExecution.thy ===== *)
theory DelegationExecution
  imports GuardExecution
begin

text \<open>
  What holds when a delegated request passes its clearance: each step of \<open>delegated_clearance\<close>, and the
  conditions of all of them together.
\<close>

lemma delegated_amount_Inr:
  "delegated_amount intent p = (Inr amt, p') \<Longrightarrow> p' = p \<and> getp intent ''amount'' = JBig amt \<and> 0 \<le> amt"
  by (auto simp: delegated_amount_def split: jsval.splits if_splits)

lemma delegation_input_Inr:
  assumes "delegation_input g raw p = (Inr inp, p')"
  shows "calls p' = calls p \<and> di_delegation inp = getp raw ''delegation'' \<and> di_parentAuth inp = getp raw ''parentAuth'' \<and>
    di_parentScope inp = getp raw ''parentScope'' \<and> gc_trustedDelegationAuthorities (g_config g) = Some (di_authorities inp)"
proof -
  obtain snapshot where "snapshotPlainData (Some MAX_DEPTH) ''delegation input'' raw = Inr snapshot"
    using assms by (cases "snapshotPlainData (Some MAX_DEPTH) ''delegation input'' raw") (auto simp: delegation_input_def)
  with snapshot_same [OF this] assms show ?thesis
    by (auto simp: delegation_input_def elim!: bindG_InrE split: if_splits option.splits)
qed

lemma authenticate_parent_Inr:
  "authenticate_parent g inp trusted p = (Inr u, p') \<Longrightarrow> p' = p \<and>
     (\<exists>r. verifyAuthorization (g_host g) (di_now inp) (parent_options g inp trusted) (di_parentAuth inp) = Inr r \<and> vr_ok r)"
  by (auto simp: authenticate_parent_def elim!: bindG_InrE split: if_splits)

definition in_scope :: "jsval \<Rightarrow> jsval \<Rightarrow> int \<Rightarrow> bool" where
  "in_scope effective act amt =
     ((\<forall>ts. getp effective ''tools'' = JArr ts \<longrightarrow> getp act ''name'' \<in> set ts) \<and>
      (\<forall>m. getp effective ''max_amount'' = JBig m \<longrightarrow> amt \<le> m))"

lemma messages_Nil:
  assumes "delegation_messages h opt inp act amt = Inr []"
  shows "(\<exists>r. verifyDelegationChain h (di_now inp) opt (di_delegation inp) (di_parentAuth inp) = Inr r \<and>
      (vr_ok r \<or> vr_violations r = [])) \<and>
    in_scope (resolveEffectiveChildScope (getp (di_delegation inp) ''scope'') (di_parentScope inp)) act amt"
proof -
  let ?e = "resolveEffectiveChildScope (getp (di_delegation inp) ''scope'') (di_parentScope inp)"
  from assms obtain r where r: "verifyDelegationChain h (di_now inp) opt (di_delegation inp) (di_parentAuth inp) = Inr r"
    and ok: "vr_ok r \<or> vr_violations r = []" and t: "tool_messages h (getp ?e ''tools'') act = Inr []"
    and a: "amount_messages h (getp ?e ''max_amount'') amt = []"
    by (auto simp: delegation_messages_def bindE_eq_Inr Let_def split: if_splits)
  from t have "getp ?e ''tools'' = JArr ts \<Longrightarrow> getp act ''name'' \<in> set ts" for ts
    by (auto simp: tool_messages_def bindE_eq_Inr propE_def split: if_splits)
  moreover from a have "getp ?e ''max_amount'' = JBig m \<Longrightarrow> amt \<le> m" for m
    by (auto simp: amount_messages_def js_lt_def split: if_splits)
  ultimately show ?thesis using r ok by (auto simp: in_scope_def)
qed

lemma sortByCode_Nil [simp]: "sortByCode vs = [] \<longleftrightarrow> vs = []"
  using set_sortByCode [of vs] by (metis set_empty)

lemma unrefused_chain:
  "verifyDelegationChain h clock opt d parent = Inr r \<Longrightarrow> vr_violations r = [] \<Longrightarrow> vr_ok r"
  by (auto simp: verifyDelegationChain_def verifyDelegation_def delegation_result_def bindE_eq_Inr Let_def
      split: if_splits)

lemma check_chain_Inr:
  assumes "check_chain g inp trusted intent act amt p = (Inr u, p')"
  shows "p' = p \<and> (\<exists>r. verifyDelegationChain (g_host g) (di_now inp) (chain_options g inp trusted intent)
        (di_delegation inp) (di_parentAuth inp) = Inr r \<and> vr_ok r) \<and>
    in_scope (resolveEffectiveChildScope (getp (di_delegation inp) ''scope'') (di_parentScope inp)) act amt"
proof -
  from assms have "p' = p" and m: "delegation_messages (g_host g) (chain_options g inp trusted intent) inp act amt = Inr []"
    by (auto simp: check_chain_def elim!: bindG_InrE split: if_splits)
  with messages_Nil [OF m] unrefused_chain show ?thesis by blast
qed

lemma check_provider_Inr:
  assumes "check_provider g d p = (Inr u, p')"
  shows "(g_check g = None \<and> \<not> g_revocationRequired g \<and> calls p' = calls p) \<or>
    (\<exists>v. calls p' = calls p @ [CheckDelegation (revocation_request d) (Some v)] \<and> getp v ''status'' = JStr ''ACTIVE'')"
  using assms
  by (auto simp: check_provider_def check_status_def unavailable_def invoke_eq settled_answer_def
      elim!: bindG_InrE split: option.splits sum.splits settled.splits if_splits)

text \<open>The key revocation lists: only watermarks are called, and no list revokes a signing key.\<close>

definition mark_call :: "call \<Rightarrow> bool" where
  "mark_call c = (case c of AcceptWatermark _ \<Rightarrow> True | _ \<Rightarrow> False)"

lemma accept_watermarks_calls:
  "accept_watermarks acc as p = (Inr x, p') \<Longrightarrow> \<exists>cs. calls p' = calls p @ cs \<and> list_all mark_call cs"
proof (induction as arbitrary: p)
  case (Cons a as)
  from Cons.prems obtain q p1 where inv: "invoke (\<lambda>_. [AcceptWatermark (ak_krlIssuer a)])
      (acc (ak_krlIssuer a) (ak_watermark a)) p = (Inr q, p1)"
    and rest: "p' = p1 \<or> accept_watermarks acc as p1 = (Inr x, p')"
    by (auto elim!: bindG_InrE split: sum.splits if_splits)
  from inv have c1: "calls p1 = calls p @ [AcceptWatermark (ak_krlIssuer a)]" by (auto simp: invoke_eq)
  from rest show ?case
  proof
    assume "accept_watermarks acc as p1 = (Inr x, p')"
    from Cons.IH [OF this] c1 show ?case by (auto simp: mark_call_def)
  qed (use c1 in \<open>auto simp: mark_call_def\<close>)
qed (simp add: mark_call_def)

lemma evaluateRevocation_calls:
  assumes "evaluateRevocation h pol cfg now keys p = (Inr x, p')"
  obtains cs where "calls p' = calls p @ cs" "list_all mark_call cs"
proof -
  from assms obtain q p1 where inv: "invoke (\<lambda>_. []) (settleCallback pol (rv_provider cfg)) p = (Inr q, p1)"
    and rest: "p' = p1 \<or> (\<exists>applied y. accept_watermarks (rv_accept cfg) applied p1 = (Inr y, p'))"
    unfolding evaluateRevocation_def
    by (elim bindG_InrE) (auto elim!: bindG_InrE split: sum.splits settled.splits jsval.splits option.splits, blast+)
  from inv have "calls p1 = calls p" by (auto simp: invoke_eq)
  from rest have "\<exists>cs. calls p' = calls p1 @ cs \<and> list_all mark_call cs"
  proof
    assume "p' = p1"
    then show ?thesis by (intro exI [of _ "[]"]) simp
  next
    assume "\<exists>applied y. accept_watermarks (rv_accept cfg) applied p1 = (Inr y, p')"
    then show ?thesis using accept_watermarks_calls by blast
  qed
  with \<open>calls p1 = calls p\<close> that show thesis by auto
qed

text \<open>No signing key of the two artifacts is revoked, by verified lists that cover both.\<close>

definition keys_unrevoked :: "'w guard_body \<Rightarrow> delegated_input \<Rightarrow> bool" where
  "keys_unrevoked g inp =
     (case g_signedKrl g of
        None \<Rightarrow> True
      | Some krl \<Rightarrow>
          (\<exists>raw applied. apply_evidence (g_host g) krl (di_now inp) (checked_keys inp) raw = Inr applied \<and>
             (\<forall>k \<in> set (checked_keys inp). (\<exists>a \<in> set applied. covers k a) \<and>
                (\<forall>a \<in> set applied. covers k a \<longrightarrow> ck_kid k \<notin> set (ak_revoked a)))))"

lemma check_krl_Inr:
  assumes "check_krl g inp p = (Inr u, p')"
  obtains cs where "calls p' = calls p @ cs" "list_all mark_call cs" "keys_unrevoked g inp"
proof (cases "g_signedKrl g")
  case None
  with assms that [of "[]"] show thesis by (simp add: check_krl_def keys_unrevoked_def)
next
  case (Some krl)
  with assms obtain ks p1 r p2 where "trusted_now g DELEGATION p = (Inr ks, p1)"
    and ev: "evaluateRevocation (g_host g) (rt_polluted (g_runtime g)) krl (di_now inp) (checked_keys inp) p1 = (Inr r, p2)"
    and fin: "(case r of None \<Rightarrow> returnG () | Some d \<Rightarrow> krl_denied d) p2 = (Inr u, p')"
    by (auto simp: check_krl_def elim!: bindG_InrE split: if_splits)
  then have p1: "p1 = p" by (auto dest: trusted_now_Inr)
  from fin have r: "r = None" "p' = p2" by (auto simp: krl_denied_def split: option.splits denial.splits if_splits)
  from ev obtain cs where "calls p2 = calls p1 @ cs" "list_all mark_call cs" by (rule evaluateRevocation_calls)
  moreover from ev [unfolded r(1)] have "keys_unrevoked g inp"
    by (rule evaluateRevocation_pass) (unfold keys_unrevoked_def Some option.case, blast)
  ultimately show thesis using that p1 r(2) by blast
qed

section \<open>The clearance\<close>

definition duly_delegated :: "'w guard_body \<Rightarrow> jsval \<Rightarrow> jsval \<Rightarrow> jsval \<Rightarrow> bool" where
  "duly_delegated g act intent raw =
     (let d = getp raw ''delegation''; parent = getp raw ''parentAuth''; ps = getp raw ''parentScope''
      in \<exists>inp amt w rp rc.
           di_delegation inp = d \<and> di_parentAuth inp = parent \<and> di_parentScope inp = ps \<and>
           gc_trustedDelegationAuthorities (g_config g) = Some (di_authorities inp) \<and>
           verifyAuthorization (g_host g) (di_now inp) (parent_options g inp (gc_trustedKeySets (g_config g) w)) parent = Inr rp \<and>
           vr_ok rp \<and>
           verifyDelegationChain (g_host g) (di_now inp) (chain_options g inp (gc_trustedKeySets (g_config g) w) intent)
             d parent = Inr rc \<and> vr_ok rc \<and>
           within_scope (resolveEffectiveChildScope (getp d ''scope'') ps) ps \<and>
           getp intent ''amount'' = JBig amt \<and> 0 \<le> amt \<and>
           in_scope (resolveEffectiveChildScope (getp d ''scope'') ps) act amt \<and>
           keys_unrevoked g inp)"

text \<open>The identifiers are consumed after every other call, and the delegation's before the parent's.\<close>

definition delegated_calls :: "'w guard_body \<Rightarrow> jsval \<Rightarrow> call list \<Rightarrow> bool" where
  "delegated_calls g raw cs =
     (let d = getp raw ''delegation''; parent = getp raw ''parentAuth''
      in \<exists>checks marks consumed.
           cs = checks @ marks @ consumed @ [ConsumeAuth (getp parent ''auth_id'') (Some (JBool True))] \<and>
           (checks = [] \<and> g_check g = None \<and> \<not> g_revocationRequired g \<or>
            (\<exists>v. checks = [CheckDelegation (revocation_request d) (Some v)] \<and> getp v ''status'' = JStr ''ACTIVE'')) \<and>
           list_all mark_call marks \<and>
           consumed = (if rs_consumeDelegationId (g_replayStore g) = None then []
             else [ConsumeDelegation (getp d ''delegation_id'') (Some (JBool True))]))"

lemma delegated_clearance_Inr:
  assumes "delegated_clearance g act intent raw p = (Inr inp, p')"
  obtains cs where "calls p' = calls p @ cs" "delegated_calls g raw cs" "duly_delegated g act intent raw"
proof -
  from assms obtain u0 p0 amt p1 p2 trusted p3 u4 p4 u5 p5 u6 p6 u7 p7 u8 p8 u9 where
    0: "enter DELEGATION p = (Inr u0, p0)" and 1: "delegated_amount intent p0 = (Inr amt, p1)" and
    2: "delegation_input g raw p1 = (Inr inp, p2)" and
    3: "trusted_now g AUTHORIZATION_VERIFICATION p2 = (Inr trusted, p3)" and
    4: "authenticate_parent g inp trusted p3 = (Inr u4, p4)" and
    5: "check_chain g inp trusted intent act amt p4 = (Inr u5, p5)" and
    6: "check_provider g (di_delegation inp) p5 = (Inr u6, p6)" and
    7: "check_krl g inp p6 = (Inr u7, p7)" and
    8: "consume_delegation g (di_delegation inp) p7 = (Inr u8, p8)" and
    9: "consume_auth g ''Replay store unavailable for parentAuth auth_id'' ''parentAuth auth_id''
         ''Authorization replay detected on parentAuth''
         (getp (di_parentAuth inp) ''auth_id'') (getp (di_parentAuth inp) ''expiry'') p8 = (Inr u9, p')"
    unfolding delegated_clearance_def by (elim bindG_InrE, simp only: step_Inr(1))
  note inp = delegation_input_Inr [OF 2]
  have t: "p3 = p2" "trusted = gc_trustedKeySets (g_config g) (world p2)" using trusted_now_Inr [OF 3] by simp_all
  obtain rp where rp: "p4 = p3" "verifyAuthorization (g_host g) (di_now inp) (parent_options g inp trusted) (di_parentAuth inp) = Inr rp"
    "vr_ok rp" using authenticate_parent_Inr [OF 4] by blast
  obtain rc where rc: "p5 = p4" "verifyDelegationChain (g_host g) (di_now inp) (chain_options g inp trusted intent)
      (di_delegation inp) (di_parentAuth inp) = Inr rc" "vr_ok rc"
    "in_scope (resolveEffectiveChildScope (getp (di_delegation inp) ''scope'') (di_parentScope inp)) act amt"
    using check_chain_Inr [OF 5] by blast
  from 7 obtain marks where marks: "calls p7 = calls p6 @ marks" "list_all mark_call marks" "keys_unrevoked g inp"
    by (rule check_krl_Inr)
  have ps: "vd_parentScope (chain_options g inp trusted intent) = Some (di_parentScope inp)" by (simp add: chain_options_def)
  from rc(2,3) have "within_scope (resolveEffectiveChildScope (getp (di_delegation inp) ''scope'') (di_parentScope inp))
      (di_parentScope inp)"
    by (rule chain_okE) (use accepted_scope [OF _ rc(3) ps] in blast)
  then have "duly_delegated g act intent raw"
    using inp rp rc marks(3) t(2) delegated_amount_Inr [OF 1] unfolding duly_delegated_def Let_def by metis
  moreover have "\<exists>cs. calls p' = calls p @ cs \<and> delegated_calls g raw cs"
  proof -
    have "calls p5 = calls p" using 0 delegated_amount_Inr [OF 1] inp t(1) rp(1) rc(1) by simp
    moreover obtain checks where checks: "calls p6 = calls p5 @ checks"
      "checks = [] \<and> g_check g = None \<and> \<not> g_revocationRequired g \<or>
         (\<exists>v. checks = [CheckDelegation (revocation_request (di_delegation inp)) (Some v)] \<and> getp v ''status'' = JStr ''ACTIVE'')"
      using check_provider_Inr [OF 6] by (metis append_Nil2)
    let ?consumed = "if rs_consumeDelegationId (g_replayStore g) = None then []
      else [ConsumeDelegation (getp (di_delegation inp) ''delegation_id'') (Some (JBool True))]"
    let ?cs = "checks @ marks @ ?consumed @ [ConsumeAuth (getp (di_parentAuth inp) ''auth_id'') (Some (JBool True))]"
    have "calls p' = calls p5 @ ?cs"
      using marks(1) checks(1) consume_delegation_Inr [OF 8] consume_auth_Inr [OF 9] by simp
    moreover have "delegated_calls g raw ?cs"
      unfolding delegated_calls_def Let_def using inp marks(2) checks(2)
      by (intro exI [of _ checks] exI [of _ marks] exI [of _ ?consumed]) simp
    ultimately show ?thesis by auto
  qed
  ultimately show thesis using that by blast
qed

end
