(* ===== verification/GuardShapes.thy ===== *)
theory GuardShapes
  imports DelegationExecution
begin

text \<open>
  The trace of a request that executed, on either path: the exact sequence of calls up to the gate, and the
  one execution behind it.
\<close>

section \<open>The gate\<close>

text \<open>What follows the clearance: the hook, the execution, the decision record.\<close>

definition gate_tail :: "jsval \<Rightarrow> call list \<Rightarrow> bool" where
  "gate_tail auth tail =
     (\<exists>hooks records. tail = hooks @ [Executed] @ records \<and>
        (hooks = [] \<or> hooks = [BeforeExecute auth]) \<and> (records = [] \<or> (\<exists>d. records = [Decided d])))"

lemma gate_calls:
  assumes "execution_gate g act auth p = (r, p')"
  obtains hooks where "calls p' = calls p @ hooks" "hooks = [] \<or> hooks = [BeforeExecute auth]"
proof (cases "gc_beforeExecute (g_config g)")
  case None
  with assms that [of "[]"] show thesis by (auto simp: execution_gate_def before_execute_def enter_def advance_def bindG_def returnG_def)
next
  case (Some f)
  with assms that [of "[BeforeExecute auth]"] show thesis
    by (auto simp: execution_gate_def before_execute_def enter_def advance_def bindG_def invoke_def rethrow_def returnG_def
        split: prod.splits sum.splits)
qed

lemma fireDecision_calls:
  "fireDecision hook rec p = (r, p') \<Longrightarrow> calls p' = calls p \<or> calls p' = calls p @ [Decided rec]"
  by (auto simp: fireDecision_def bindG_def invoke_def returnG_def split: option.splits prod.splits)

lemma perform_calls:
  assumes "perform g execute rec p = (r, p')"
  obtains records where "calls p' = calls p @ [Executed] @ records" "records = [] \<or> (\<exists>d. records = [Decided d])"
proof -
  obtain q w where cb: "execute (world p) = (q, w)" by (cases "execute (world p)")
  let ?p = "p\<lparr>life := (life p)\<lparr>executionStarted := True\<rparr>, world := w, calls := calls p @ [Executed]\<rparr>"
  have k: "bindG (rethrow q) (\<lambda>result. bindG (fireDecision (gc_onDecision (g_config g)) rec) (\<lambda>_. returnG result)) ?p = (r, p')"
    using assms by (simp add: perform_def bindG_def advance_def invoke_def cb)
  show thesis
  proof (cases q)
    case (Inl x)
    with k have "rethrow (Inl x) ?p = (r, p')" by simp
    then have "p' = ?p" by (auto simp: rethrow_def)
    with that [of "[]"] show thesis by simp
  next
    case (Inr v)
    obtain s p1 where f: "fireDecision (gc_onDecision (g_config g)) rec ?p = (s, p1)"
      by (cases "fireDecision (gc_onDecision (g_config g)) rec ?p")
    from k Inr f have "p' = p1" by (auto simp: bindG_def returnG_def split: sum.splits)
    with fireDecision_calls [OF f] that [of "[]"] that [of "[Decided rec]"] show thesis by auto
  qed
qed

lemma gate_tailI:
  assumes "bindG (execution_gate g act auth) (\<lambda>_. perform g execute rec) p = (r, p')"
    and "calls p = pre @ cs0" "Executed \<notin> set cs0" and "calls p' = pre @ cs" "Executed \<in> set cs"
  obtains tail where "calls p' = calls p @ tail" "gate_tail auth tail"
proof (cases "execution_gate g act auth p")
  case (Pair q p1)
  from Pair obtain hooks where h: "calls p1 = calls p @ hooks" "hooks = [] \<or> hooks = [BeforeExecute auth]" by (rule gate_calls)
  show thesis
  proof (cases q)
    case (Inl x)
    with assms(1) Pair have "p' = p1" by (simp add: bindG_def)
    with h assms(2-5) show thesis by auto
  next
    case (Inr u)
    with assms(1) Pair have "perform g execute rec p1 = (r, p')" by (simp add: bindG_def)
    then obtain records where "calls p' = calls p1 @ [Executed] @ records" "records = [] \<or> (\<exists>d. records = [Decided d])"
      by (rule perform_calls)
    with h that [of "hooks @ [Executed] @ records"] show thesis by (auto simp: gate_tail_def)
  qed
qed

section \<open>The two paths\<close>

text \<open>Both paths after loading and normalizing: the clearance passed, the gate followed.\<close>

lemma executed_path:
  assumes run: "guard g act execute options p = (r, p')" and new: "calls p' = calls p @ cs"
    and ex: "Executed \<in> set cs"
    and body: "\<And>intent vs. (if truthy (getp options ''delegation'')
        then delegated_request g act intent (getp options ''delegation'') execute
        else standard_request g act intent vs execute) =
      bindG (m intent vs) (\<lambda>a. bindG (execution_gate g act (auth a)) (\<lambda>_. perform g execute (rec a)))"
    and m: "\<And>intent vs. keeps_honest (m intent vs)" "\<And>intent vs. unexecuted (m intent vs)"
  obtains intent vs a p1 p2 tail where "m intent vs p1 = (Inr a, p2)" "calls p1 = calls p @ [LoadState]"
    "calls p' = calls p2 @ tail" "gate_tail (auth a) tail" "\<exists>w w'. g_normalize g act w = (Inr intent, w')"
  using run new ex
proof (rule guard_executed)
  fix q
  let ?p = "p\<lparr>life := createLifecycle STATE_LOAD\<rparr>"
  let ?raw = "getp options ''delegation''"
  assume run: "runRequest g act execute options ?p = (r, q)" and c: "calls q = calls p @ cs"
  have start: "calls ?p = calls p @ []" "good_end (Inr ()) (life ?p) []" "\<not> executionStarted (life ?p)"
    using fresh_lifecycle by simp_all
  have b1: "bindG (load_state g) (\<lambda>vs. bindG (normalize_action g act (truthy ?raw)) (\<lambda>intent.
      bindG (m intent vs) (\<lambda>a. bindG (execution_gate g act (auth a)) (\<lambda>_. perform g execute (rec a))))) ?p = (r, q)"
    using run unfolding runRequest_def Let_def body .
  from executed_step [OF b1 _ _ start c ex] obtain vs p1 m1 where
    1: "load_state g ?p = (Inr vs, p1)" and b2: "bindG (normalize_action g act (truthy ?raw)) (\<lambda>intent.
      bindG (m intent vs) (\<lambda>a. bindG (execution_gate g act (auth a)) (\<lambda>_. perform g execute (rec a)))) p1 = (r, q)"
    and s1: "calls p1 = calls p @ ([] @ m1)" "good_end (Inr ()) (life p1) ([] @ m1)" "\<not> executionStarted (life p1)" by blast
  from executed_step [OF b2 _ _ s1 c ex] obtain intent p2 m2 where
    2: "normalize_action g act (truthy ?raw) p1 = (Inr intent, p2)"
    and b3: "bindG (m intent vs) (\<lambda>a. bindG (execution_gate g act (auth a)) (\<lambda>_. perform g execute (rec a))) p2 = (r, q)"
    and s2: "calls p2 = calls p @ (([] @ m1) @ m2)" "good_end (Inr ()) (life p2) (([] @ m1) @ m2)"
      "\<not> executionStarted (life p2)" by blast
  from executed_step [OF b3 m s2 c ex] obtain a p3 m3 where
    3: "m intent vs p2 = (Inr a, p3)" and b4: "bindG (execution_gate g act (auth a)) (\<lambda>_. perform g execute (rec a)) p3 = (r, q)"
    and s3: "calls p3 = calls p @ ((([] @ m1) @ m2) @ m3)" "good_end (Inr ()) (life p3) ((([] @ m1) @ m2) @ m3)"
      "\<not> executionStarted (life p3)" by blast
  from s3(2,3) have "Executed \<notin> set ((([] @ m1) @ m2) @ m3)" by (simp add: good_end_def truthful_def)
  from gate_tailI [OF b4 s3(1) this c ex] obtain tail where "calls q = calls p3 @ tail" "gate_tail (auth a) tail" .
  moreover have "calls p2 = calls p @ [LoadState]" using load_state_Inr [OF 1] normalize_Inr [OF 2] by simp
  moreover have "\<exists>w w'. g_normalize g act w = (Inr intent, w')"
    using 2 by - (auto simp: normalize_action_def normalization_refused_def normalized_def invoke_eq elim!: bindG_InrE
        split: sum.splits guard_error.splits prod.splits if_splits, blast+)
  ultimately show thesis using that 3 c new by simp
qed

lemma standard_shape:
  assumes run: "guard g act execute options p = (r, p')" and new: "calls p' = calls p @ cs"
    and ex: "Executed \<in> set cs" and standard: "\<not> truthy (getp options ''delegation'')"
  shows "\<exists>intent st version t ev ok tail.
      cs = [LoadState, Evaluated intent st t (Some ev),
            ConsumeAuth (getp (getp ev ''authorization'') ''auth_id'') (Some (JBool True)),
            Committed (getp ev ''nextState'') version (Some ok)] @ tail \<and>
      gate_tail (getp ev ''authorization'') tail \<and> truthy ok \<and> getp ev ''decision'' \<noteq> JStr ''DENY'' \<and>
      properly_bound g intent st (getp ev ''authorization'') \<and> (\<exists>w w'. g_normalize g act w = (Inr intent, w'))"
  using run new ex
proof (rule executed_path [where m = "standard_clearance g act" and auth = "\<lambda>a. a" and rec = "\<lambda>a. allowed_record act a None"])
  fix intent vs a p1 p2 tail
  assume m: "standard_clearance g act intent vs p1 = (Inr a, p2)" and c: "calls p1 = calls p @ [LoadState]"
    "calls p' = calls p2 @ tail" and tail: "gate_tail a tail" and n: "\<exists>w w'. g_normalize g act w = (Inr intent, w')"
  from m show ?thesis
  proof (rule standard_clearance_Inr)
    fix t ev ok
    assume "calls p2 = calls p1 @ [Evaluated intent (vs_state vs) t (Some ev),
        ConsumeAuth (getp a ''auth_id'') (Some (JBool True)), Committed (getp ev ''nextState'') (vs_version vs) (Some ok)]"
      and f: "getp ev ''decision'' \<noteq> JStr ''DENY''" "a = getp ev ''authorization''" "truthy ok"
      "properly_bound g intent (vs_state vs) a"
    with c new have "cs = [LoadState, Evaluated intent (vs_state vs) t (Some ev),
            ConsumeAuth (getp (getp ev ''authorization'') ''auth_id'') (Some (JBool True)),
            Committed (getp ev ''nextState'') (vs_version vs) (Some ok)] @ tail" by simp
    with tail f n show ?thesis by blast
  qed
qed (use standard in \<open>auto simp: standard_request_def\<close>)

lemma delegated_shape:
  assumes run: "guard g act execute options p = (r, p')" and new: "calls p' = calls p @ cs"
    and ex: "Executed \<in> set cs" and delegated: "truthy (getp options ''delegation'')"
  shows "\<exists>intent checks tail. cs = [LoadState] @ checks @ tail \<and>
      delegated_calls g (getp options ''delegation'') checks \<and>
      gate_tail (getp (getp options ''delegation'') ''parentAuth'') tail \<and>
      duly_delegated g act intent (getp options ''delegation'') \<and> (\<exists>w w'. g_normalize g act w = (Inr intent, w'))"
  using run new ex
proof (rule executed_path [where m = "\<lambda>intent vs. delegated_clearance g act intent (getp options ''delegation'')"
      and auth = di_parentAuth and rec = "\<lambda>inp. allowed_record act (di_parentAuth inp) (Some (di_delegation inp))"])
  fix intent vs inp p1 p2 tail
  assume m: "delegated_clearance g act intent (getp options ''delegation'') p1 = (Inr inp, p2)"
    and c: "calls p1 = calls p @ [LoadState]" "calls p' = calls p2 @ tail" and tail: "gate_tail (di_parentAuth inp) tail"
    and n: "\<exists>w w'. g_normalize g act w = (Inr intent, w')"
  from m have "di_parentAuth inp = getp (getp options ''delegation'') ''parentAuth''"
    by (auto simp: delegated_clearance_def elim!: bindG_InrE dest!: delegation_input_Inr)
  moreover from m obtain checks where "calls p2 = calls p1 @ checks" "delegated_calls g (getp options ''delegation'') checks"
    "duly_delegated g act intent (getp options ''delegation'')" by (rule delegated_clearance_Inr)
  ultimately show ?thesis using c tail new n by (intro exI [of _ intent] exI [of _ checks] exI [of _ tail]) simp
qed (use delegated in \<open>auto simp: delegated_request_def\<close>)

end
