(* ===== verification/GuardReplay.thy ===== *)
theory GuardReplay
  imports GuardShapes
begin

text \<open>
  Replay over many requests. The store is any \<open>once_store\<close>; every other callback leaves the spent identifiers
  alone. Then the identifiers under which requests executed are all different.
\<close>

section \<open>Traces\<close>

fun granted :: "call list \<Rightarrow> jsval list" where
  "granted [] = []"
| "granted (ConsumeAuth i a # cs) = (if a = Some (JBool True) then i # granted cs else granted cs)"
| "granted (c # cs) = granted cs"

text \<open>The authorization each execution runs under: the one consumed since the last execution, if any.\<close>

fun executed_under :: "jsval option \<Rightarrow> call list \<Rightarrow> jsval option list" where
  "executed_under a [] = []"
| "executed_under a (ConsumeAuth i x # cs) = executed_under (if x = Some (JBool True) then Some i else a) cs"
| "executed_under a (Executed # cs) = a # executed_under None cs"
| "executed_under a (c # cs) = executed_under a cs"

fun holding :: "jsval option \<Rightarrow> call list \<Rightarrow> jsval option" where
  "holding a [] = a"
| "holding a (ConsumeAuth i x # cs) = holding (if x = Some (JBool True) then Some i else a) cs"
| "holding a (Executed # cs) = holding None cs"
| "holding a (c # cs) = holding a cs"

lemma granted_append [simp]: "granted (cs @ ds) = granted cs @ granted ds"
  by (induction cs rule: granted.induct) auto

lemma executed_append [simp]: "executed_under a (cs @ ds) = executed_under a cs @ executed_under (holding a cs) ds"
  by (induction a cs rule: executed_under.induct) auto

lemma executed_none: "Executed \<notin> set cs \<Longrightarrow> executed_under a cs = []"
  by (induction a cs rule: executed_under.induct) auto

lemma executed_plain:
  "list_all (\<lambda>c. c \<noteq> Executed \<and> (\<forall>i x. c \<noteq> ConsumeAuth i x)) cs \<Longrightarrow> executed_under a cs = [] \<and> holding a cs = a"
  by (induction a cs rule: executed_under.induct) auto

lemma executed_tail: "gate_tail auth tail \<Longrightarrow> executed_under a tail = [a]"
  by (auto simp: gate_tail_def)

text \<open>A request executes at most once, and then under an identifier it was granted.\<close>

lemma executed_in_request:
  assumes "guard g act execute options p = (r, p')" and "calls p' = calls p @ cs"
  shows "executed_under a cs = [] \<or> (\<exists>i \<in> set (granted cs). executed_under a cs = [Some i])"
proof (cases "Executed \<in> set cs")
  case True
  show ?thesis
  proof (cases "truthy (getp options ''delegation'')")
    case False
    from standard_shape [OF assms True False] executed_tail show ?thesis by fastforce
  next
    case delegated: True
    from delegated_shape [OF assms True delegated] obtain checks tail where
      cs: "cs = [LoadState] @ checks @ tail" and d: "delegated_calls g (getp options ''delegation'') checks"
      and t: "gate_tail (getp (getp options ''delegation'') ''parentAuth'') tail" by blast
    from d obtain front i where f: "checks = front @ [ConsumeAuth i (Some (JBool True))]"
      and plain: "list_all (\<lambda>c. c \<noteq> Executed \<and> (\<forall>i x. c \<noteq> ConsumeAuth i x)) front"
      by (auto simp: delegated_calls_def Let_def list_all_iff mark_call_def split: call.splits if_splits; blast)
    from executed_plain [OF plain] executed_tail [OF t] show ?thesis by (auto simp: cs f)
  qed
qed (simp add: executed_none)

section \<open>Isolation\<close>

definition keeps_spent :: "('w \<Rightarrow> jsval set) \<Rightarrow> ('w \<Rightarrow> 'x \<times> 'w) \<Rightarrow> bool" where
  "keeps_spent spent cb = (\<forall>w. spent w \<subseteq> spent (snd (cb w)))"

definition keeps_spent_async :: "('w \<Rightarrow> jsval set) \<Rightarrow> ('w, 'a) async \<Rightarrow> bool" where
  "keeps_spent_async spent cb =
     (\<forall>w. spent w \<subseteq> spent (snd (cb w)) \<and> (case fst (cb w) of Promise f \<Rightarrow> keeps_spent spent f | _ \<Rightarrow> True))"

definition isolated :: "('w \<Rightarrow> jsval set) \<Rightarrow> 'w guard_body \<Rightarrow> bool" where
  "isolated spent g =
     (let c = g_config g
      in keeps_spent spent (rt_clock (g_runtime g)) \<and> (\<forall>a. keeps_spent spent (g_normalize g a)) \<and>
         (\<forall>i s t. keeps_spent spent (gc_evaluatePure c i s t)) \<and> (\<forall>s. keeps_spent spent (state_hasher g s)) \<and>
         keeps_spent_async spent (gc_getState c) \<and> (\<forall>s v. keeps_spent spent (gc_setState c s v)) \<and>
         (\<forall>f. gc_beforeExecute c = Some f \<longrightarrow> (\<forall>a b. keeps_spent spent (f a b))) \<and>
         (\<forall>f. gc_onDecision c = Some f \<longrightarrow> (\<forall>a. keeps_spent spent (f a))) \<and>
         (\<forall>f. gc_onBoundaryEvent c = Some f \<longrightarrow> (\<forall>a. keeps_spent spent (f a))) \<and>
         (\<forall>f. g_check g = Some f \<longrightarrow> (\<forall>a. keeps_spent_async spent (f a))) \<and>
         (\<forall>f. rs_consumeDelegationId (g_replayStore g) = Some f \<longrightarrow> (\<forall>i x. keeps_spent spent (f i x))) \<and>
         (\<forall>k. g_signedKrl g = Some k \<longrightarrow> keeps_spent_async spent (rv_provider k) \<and>
            (\<forall>i m. keeps_spent spent (rv_accept k i m))))"

text \<open>A step spends only what it is granted, and is granted only what was not spent.\<close>

definition spends :: "('w \<Rightarrow> jsval set) \<Rightarrow> ('w, 'a) step \<Rightarrow> bool" where
  "spends spent m =
     (\<forall>p r p'. m p = (r, p') \<longrightarrow> (\<exists>cs. calls p' = calls p @ cs \<and> spent (world p) \<subseteq> spent (world p') \<and>
        distinct (granted cs) \<and> set (granted cs) \<inter> spent (world p) = {} \<and> set (granted cs) \<subseteq> spent (world p')))"

lemma spendsE:
  assumes "spends spent m" and "m p = (r, p')"
  obtains cs where "calls p' = calls p @ cs" "spent (world p) \<subseteq> spent (world p')" "distinct (granted cs)"
    "set (granted cs) \<inter> spent (world p) = {}" "set (granted cs) \<subseteq> spent (world p')"
  using assms unfolding spends_def by blast

lemma spends_bindG [intro!]:
  assumes "spends spent m" and "\<And>a. spends spent (f a)"
  shows "spends spent (bindG m f)"
  unfolding spends_def
proof (intro allI impI)
  fix p r p'
  assume run: "bindG m f p = (r, p')"
  obtain q p1 where m: "m p = (q, p1)" by (cases "m p")
  from spendsE [OF assms(1) m] obtain cs where cs: "calls p1 = calls p @ cs" "spent (world p) \<subseteq> spent (world p1)"
    "distinct (granted cs)" "set (granted cs) \<inter> spent (world p) = {}" "set (granted cs) \<subseteq> spent (world p1)" .
  show "\<exists>cs. calls p' = calls p @ cs \<and> spent (world p) \<subseteq> spent (world p') \<and> distinct (granted cs) \<and>
      set (granted cs) \<inter> spent (world p) = {} \<and> set (granted cs) \<subseteq> spent (world p')"
  proof (cases q)
    case (Inl x)
    with run m have "p' = p1" by (simp add: bindG_def)
    with cs show ?thesis by blast
  next
    case (Inr a)
    with run m have f: "f a p1 = (r, p')" by (simp add: bindG_def)
    from spendsE [OF assms(2) f] obtain ds where ds: "calls p' = calls p1 @ ds" "spent (world p1) \<subseteq> spent (world p')"
      "distinct (granted ds)" "set (granted ds) \<inter> spent (world p1) = {}" "set (granted ds) \<subseteq> spent (world p')" .
    have "calls p' = calls p @ cs @ ds" using cs(1) ds(1) by simp
    moreover have "distinct (granted (cs @ ds))" using cs(3,5) ds(3,4) by auto
    moreover have "set (granted (cs @ ds)) \<inter> spent (world p) = {}" using cs(2,4) ds(4) by auto
    moreover have "set (granted (cs @ ds)) \<subseteq> spent (world p')" using cs(5) ds(2,5) by auto
    moreover have "spent (world p) \<subseteq> spent (world p')" using cs(2) ds(2) by blast
    ultimately show ?thesis by blast
  qed
qed

lemma spends_pure: "(\<And>p r p'. m p = (r, p') \<Longrightarrow> calls p' = calls p \<and> world p' = world p) \<Longrightarrow> spends spent m"
  unfolding spends_def by (metis append_Nil2 distinct.simps(1) granted.simps(1) inf_bot_left list.set(1) subset_refl empty_subsetI)

lemma spends_basic [intro!]:
  "spends spent (returnG a)" "spends spent (throwG x)" "spends spent (refuse s k x)" "spends spent (reject_caught n y)"
  "spends spent (liftE e)" "spends spent (rethrow q)" "spends spent (advance f)" "spends spent (enter s)"
  "spends spent (trusted_now g s)"
  by (auto intro!: spends_pure simp: returnG_def throwG_def refuse_def reject_caught_def liftE_def rethrow_def
      advance_def enter_def trusted_now_def validatedTrust_def bindG_def split: sum.splits option.splits if_splits origin.splits)

lemma spends_clock [intro!]: "keeps_spent spent clk \<Longrightarrow> spends spent (read_clock clk)"
  unfolding spends_def keeps_spent_def read_clock_def
  by (clarsimp split: prod.splits) (metis snd_conv subsetD)

lemma spends_invoke [intro!]:
  assumes "keeps_spent spent cb" and "\<And>r. granted (entry r) = []"
  shows "spends spent (invoke entry cb)"
  unfolding spends_def
proof (intro allI impI)
  fix p r p'
  assume "invoke entry cb p = (r, p')"
  then obtain q w where "cb (world p) = (q, w)" "p' = p\<lparr>world := w, calls := calls p @ entry q\<rparr>"
    by (auto simp: invoke_eq)
  moreover from this(1) assms(1) have "spent (world p) \<subseteq> spent w" unfolding keeps_spent_def by (metis snd_conv)
  ultimately show "\<exists>cs. calls p' = calls p @ cs \<and> spent (world p) \<subseteq> spent (world p') \<and> distinct (granted cs) \<and>
      set (granted cs) \<inter> spent (world p) = {} \<and> set (granted cs) \<subseteq> spent (world p')"
    using assms(2) [of q] by (intro exI [of _ "entry q"]) simp
qed

lemma settle_keeps [intro!]: "keeps_spent_async spent cb \<Longrightarrow> keeps_spent spent (settleCallback pol cb)"
  unfolding keeps_spent_def
proof
  fix w
  assume a: "keeps_spent_async spent cb"
  obtain rep w1 where cb: "cb w = (rep, w1)" by (cases "cb w")
  from a have 1: "spent w \<subseteq> spent w1" unfolding keeps_spent_async_def using cb by (metis snd_conv)
  show "spent w \<subseteq> spent (snd (settleCallback pol cb w))"
  proof (cases rep)
    case (Promise f)
    obtain q w2 where f: "f w1 = (q, w2)" by (cases "f w1")
    from a have "keeps_spent spent f" unfolding keeps_spent_async_def using cb Promise by (metis fst_conv reply.simps(12))
    then have "spent w1 \<subseteq> spent w2" unfolding keeps_spent_def using f by (metis snd_conv)
    with 1 show ?thesis by (auto simp: settleCallback_def cb Promise f split: sum.splits)
  qed (use 1 in \<open>simp_all add: settleCallback_def cb\<close>)
qed

section \<open>The steps of a request\<close>

lemma spends_consume_auth:
  assumes "once_store (rs_consumeAuthId (g_replayStore g)) spent"
  shows "spends spent (consume_auth g u what rep i x)"
  unfolding spends_def
proof (intro allI impI)
  fix p r p'
  assume run: "consume_auth g u what rep i x p = (r, p')"
  obtain q w where c: "rs_consumeAuthId (g_replayStore g) i x (world p) = (q, w)"
    by (cases "rs_consumeAuthId (g_replayStore g) i x (world p)")
  have mono: "spent (world p) \<subseteq> spent w" using once_store.keeps_spent [OF assms c] .
  have p': "calls p' = calls p @ [ConsumeAuth i (answer q)]" "world p' = w"
    using run by (auto simp: consume_auth_def bindG_def invoke_def c invalidReplayResult_def refuse_def advance_def
        split: sum.splits if_splits)
  show "\<exists>cs. calls p' = calls p @ cs \<and> spent (world p) \<subseteq> spent (world p') \<and> distinct (granted cs) \<and>
      set (granted cs) \<inter> spent (world p) = {} \<and> set (granted cs) \<subseteq> spent (world p')"
  proof (cases "q = Inr (JBool True)")
    case True
    with once_store.grants_new [OF assms] c have "i \<notin> spent (world p) \<and> i \<in> spent w" by simp
    with p' mono True show ?thesis by (intro exI [of _ "[ConsumeAuth i (answer q)]"]) (simp add: answer_def)
  next
    case False
    then have "granted [ConsumeAuth i (answer q)] = []" by (cases q) (simp_all add: answer_def)
    with p' mono show ?thesis by (intro exI [of _ "[ConsumeAuth i (answer q)]"]) simp
  qed
qed

lemma isolatedD:
  assumes "isolated spent g"
  shows "keeps_spent spent (rt_clock (g_runtime g))" "keeps_spent spent (g_normalize g a)"
    "keeps_spent spent (gc_evaluatePure (g_config g) i s t)" "keeps_spent spent (state_hasher g s)"
    "keeps_spent_async spent (gc_getState (g_config g))" "keeps_spent spent (gc_setState (g_config g) s v)"
    "gc_beforeExecute (g_config g) = Some fb \<Longrightarrow> keeps_spent spent (fb a b)"
    "gc_onDecision (g_config g) = Some fd \<Longrightarrow> keeps_spent spent (fd d)"
    "gc_onBoundaryEvent (g_config g) = Some fe \<Longrightarrow> keeps_spent spent (fe e)"
    "g_check g = Some fc \<Longrightarrow> keeps_spent_async spent (fc a)"
    "rs_consumeDelegationId (g_replayStore g) = Some fr \<Longrightarrow> keeps_spent spent (fr i x)"
    "g_signedKrl g = Some k \<Longrightarrow> keeps_spent_async spent (rv_provider k)"
    "g_signedKrl g = Some k \<Longrightarrow> keeps_spent spent (rv_accept k j m)"
  using assms by (simp_all add: isolated_def Let_def)

lemma spends_fire: "isolated spent g \<Longrightarrow> spends spent (fireDecision (gc_onDecision (g_config g)) rec)"
  unfolding fireDecision_def by (auto split: option.split intro: isolatedD)

lemma normalized_keeps: "isolated spent g \<Longrightarrow> keeps_spent spent (normalized g act b)"
  unfolding keeps_spent_def normalized_def
  using isolatedD(2) [of spent g act] unfolding keeps_spent_def
  by (auto split: prod.splits sum.splits if_splits) (metis snd_conv subsetD)+

lemma spends_loads:
  assumes "isolated spent g"
  shows "spends spent (load_state g)" "spends spent (normalize_action g act b)"
  unfolding load_state_def normalize_action_def normalization_refused_def Let_def
  using isolatedD(5) [OF assms] normalized_keeps [OF assms]
  by (auto split: settled.split sum.split guard_error.split)

lemma spends_consume_delegation: "isolated spent g \<Longrightarrow> spends spent (consume_delegation g d)"
  unfolding consume_delegation_def invalidReplayResult_def
  by (auto split: option.split sum.split intro: isolatedD)

lemma spends_standard:
  assumes "once_store (rs_consumeAuthId (g_replayStore g)) spent" and i: "isolated spent g"
  shows "spends spent (standard_clearance g act intent vs)"
  unfolding standard_clearance_def evaluate_policy_def require_allow_def deny_request_def verify_issued_def
    bind_intent_def bind_state_def commit_def Let_def
  using isolatedD(1,3,4,6) [OF i] spends_consume_auth [OF assms(1)] spends_fire [OF i]
  by (auto split: sum.split option.split)

lemma spends_watermarks:
  "(\<And>j m. keeps_spent spent (acc j m)) \<Longrightarrow> spends spent (accept_watermarks acc as)"
  by (induction as) (auto split: sum.split)

lemma spends_check_krl:
  assumes "isolated spent g"
  shows "spends spent (check_krl g inp)"
proof (cases "g_signedKrl g")
  case (Some k)
  have "spends spent (accept_watermarks (rv_accept k) as)" for as
    by (rule spends_watermarks) (rule isolatedD(13) [OF assms Some])
  with isolatedD(12) [OF assms Some] show ?thesis
    unfolding check_krl_def Some option.case krl_denied_def evaluateRevocation_def
    by (auto split: sum.split option.split settled.split denial.split jsval.split)
qed (auto simp: check_krl_def)

lemma spends_check_provider: "isolated spent g \<Longrightarrow> spends spent (check_provider g d)"
  unfolding check_provider_def check_status_def unavailable_def
  by (auto split: sum.split option.split settled.split intro: isolatedD)

lemma spends_delegated:
  assumes "once_store (rs_consumeAuthId (g_replayStore g)) spent" and i: "isolated spent g"
  shows "spends spent (delegated_clearance g act intent raw)"
  unfolding delegated_clearance_def delegated_amount_def delegation_input_def authenticate_parent_def check_chain_def
  using isolatedD(1) [OF i] spends_consume_auth [OF assms(1)] spends_check_krl [OF i] spends_check_provider [OF i]
    spends_consume_delegation [OF i]
  by (auto split: sum.split option.split jsval.split)

lemma spends_gate: "isolated spent g \<Longrightarrow> spends spent (execution_gate g act auth)"
  unfolding execution_gate_def before_execute_def by (auto split: option.split intro: isolatedD)

lemma spends_perform:
  assumes "isolated spent g" and "keeps_spent spent execute"
  shows "spends spent (perform g execute rec)"
  unfolding perform_def using assms(2) spends_fire [OF assms(1)] by auto

lemma spends_runRequest:
  assumes "once_store (rs_consumeAuthId (g_replayStore g)) spent" "isolated spent g" "keeps_spent spent execute"
  shows "spends spent (runRequest g act execute options)"
  unfolding runRequest_def delegated_request_def standard_request_def Let_def
  using spends_loads [OF assms(2)] spends_standard [OF assms(1,2)] spends_delegated [OF assms(1,2)]
    spends_gate [OF assms(2)] spends_perform [OF assms(2,3)]
  by auto

lemma emit_world:
  obtains "world (emitBoundaryEvent hook x p) = world p"
  | f ev where "hook = Some f" "world (emitBoundaryEvent hook x p) = snd (f ev (world p))"
proof -
  have m: "world (mark_emitted x p) = world p" by (simp add: mark_emitted_def split: origin.split)
  show thesis
  proof (cases hook)
    case (Some f)
    then have "world (emitBoundaryEvent hook x p) = world p \<or>
        (\<exists>ev. world (emitBoundaryEvent hook x p) = snd (f ev (world p)))"
      by (auto simp: emitBoundaryEvent_def Let_def invoke_def m split: prod.split) (metis snd_conv)+
    with Some that show thesis by blast
  qed (use that(1) in \<open>simp add: emitBoundaryEvent_def\<close>)
qed

lemma spends_guard:
  assumes "once_store (rs_consumeAuthId (g_replayStore g)) spent" "isolated spent g" "keeps_spent spent execute"
  shows "spends spent (guard g act execute options)"
  unfolding spends_def
proof (intro allI impI)
  fix p r p'
  assume "guard g act execute options p = (r, p')"
  then obtain p1 where run: "runRequest g act execute options (p\<lparr>life := createLifecycle STATE_LOAD\<rparr>) = (r, p1)"
    and e: "p' = (case r of Inl x \<Rightarrow> emitBoundaryEvent (gc_onBoundaryEvent (g_config g)) x p1 | Inr _ \<Rightarrow> p1)"
    by (rule guard_run)
  from spendsE [OF spends_runRequest [OF assms] run] obtain cs where
    cs: "calls p1 = calls p @ cs" "spent (world p) \<subseteq> spent (world p1)" "distinct (granted cs)"
      "set (granted cs) \<inter> spent (world p) = {}" "set (granted cs) \<subseteq> spent (world p1)" by auto
  have "\<exists>ds. calls p' = calls p1 @ ds \<and> granted ds = [] \<and> spent (world p1) \<subseteq> spent (world p')"
  proof (cases r)
    case (Inl x)
    let ?e = "emitBoundaryEvent (gc_onBoundaryEvent (g_config g)) x p1"
    have "spent (world p1) \<subseteq> spent (world ?e)"
    proof (cases rule: emit_world [of "gc_onBoundaryEvent (g_config g)" x p1])
      case (2 f ev)
      with isolatedD(9) [OF assms(2) 2(1), of ev] show ?thesis by (simp add: keeps_spent_def)
    qed simp
    moreover have "\<exists>ds. calls ?e = calls p1 @ ds \<and> granted ds = []"
      by (cases rule: emit_cases [of "gc_onBoundaryEvent (g_config g)" x p1]) auto
    ultimately show ?thesis using e Inl by auto
  qed (use e in simp)
  then obtain ds where "calls p' = calls p1 @ ds" "granted ds = []" "spent (world p1) \<subseteq> spent (world p')" by blast
  with cs show "\<exists>cs. calls p' = calls p @ cs \<and> spent (world p) \<subseteq> spent (world p') \<and> distinct (granted cs) \<and>
      set (granted cs) \<inter> spent (world p) = {} \<and> set (granted cs) \<subseteq> spent (world p')"
    by (intro exI [of _ "cs @ ds"]) auto
qed

section \<open>Many requests\<close>

lemma guard_all_once:
  assumes "once_store (rs_consumeAuthId (g_replayStore g)) spent" "isolated spent g"
    and "\<forall>q \<in> set qs. keeps_spent spent (rq_execute q)"
  shows "\<exists>cs. calls (guard_all g qs p) = calls p @ cs \<and> (\<forall>a. \<exists>is. executed_under a cs = map Some is \<and>
      distinct is \<and> set is \<inter> spent (world p) = {})"
  using assms(3)
proof (induction qs arbitrary: p)
  case Nil
  show ?case by (intro exI [of _ "[]"]) simp
next
  case (Cons q qs)
  obtain r p1 where run: "guard g (rq_action q) (rq_execute q) (rq_options q) p = (r, p1)"
    by (cases "guard g (rq_action q) (rq_execute q) (rq_options q) p")
  from Cons.prems have "keeps_spent spent (rq_execute q)" by simp
  from spendsE [OF spends_guard [OF assms(1,2) this] run] obtain cs where
    cs: "calls p1 = calls p @ cs" "spent (world p) \<subseteq> spent (world p1)" "distinct (granted cs)"
      "set (granted cs) \<inter> spent (world p) = {}" "set (granted cs) \<subseteq> spent (world p1)" .
  from Cons.IH [of p1] Cons.prems obtain ds where
    ds: "calls (guard_all g qs p1) = calls p1 @ ds" "\<And>a. \<exists>is. executed_under a ds = map Some is \<and> distinct is \<and>
      set is \<inter> spent (world p1) = {}" by auto
  have "\<exists>is. executed_under a (cs @ ds) = map Some is \<and> distinct is \<and> set is \<inter> spent (world p) = {}" for a
  proof -
    from ds(2) obtain "is" where "is": "executed_under (holding a cs) ds = map Some is" "distinct is"
      "set is \<inter> spent (world p1) = {}" by blast
    consider "executed_under a cs = []" | i where "i \<in> set (granted cs)" "executed_under a cs = [Some i]"
      using executed_in_request [OF run cs(1), of a] by blast
    then show ?thesis
    proof cases
      case 1
      with "is" cs(2) show ?thesis by (intro exI [of _ "is"]) auto
    next
      case 2
      with "is" cs(2,4,5) show ?thesis by (intro exI [of _ "i # is"]) auto
    qed
  qed
  with ds(1) cs(1) show ?case by (intro exI [of _ "cs @ ds"]) (simp add: run)
qed

end
