(* ===== verification/SecureGuard.thy ===== *)
theory SecureGuard
  imports Guard
begin

text \<open>
  \<open>secureGuard.ts\<close>: the guard behind a trusted execution context. The configuration is read and resolved once,
  at construction; each request runs the same enforcement body with a normalizer that reconciles the
  proposer's claims with the context. \<open>captureSecureGuardConfig\<close> copies the options of the caller, which are
  plain values here, so the copy is the configuration itself; the checks for polluted prototypes guard
  property reads that this model does not have.
\<close>

section \<open>Construction\<close>

text \<open>
  The closure variable \<open>provenance\<close> of a request lives in the world, behind a pair of accessors.
\<close>

record 'w provenance_cell =
  pc_get :: "'w \<Rightarrow> provenance_record option"
  pc_put :: "provenance_record option \<Rightarrow> 'w \<Rightarrow> 'w"

record 'w secure_guard =
  sg_host :: host
  sg_runtime :: "'w runtime"
  sg_store :: "'w replay_store"
  sg_multiTenant :: bool
  sg_template :: "'w guard_config"
  sg_normalize :: "jsval \<Rightarrow> ('w, jsval) callback"
  sg_cell :: "'w provenance_cell"

text \<open>The options every later body is built from: resolved signers, revocation posture and replay store.\<close>

definition unresolved_config :: "'w guard_config \<Rightarrow> 'w replay_store \<Rightarrow> 'w guard_config" where
  "unresolved_config c store = c\<lparr>gc_replay := \<lparr>rc_replayProtection = None, rc_replayStore = Some store\<rparr>\<rparr>"

definition template_config ::
  "'w guard_config \<Rightarrow> 'w replay_store \<Rightarrow> (jsval \<Rightarrow> ('w, jsval) async) option \<Rightarrow> bool \<Rightarrow> 'w guard_config" where
  "template_config c store check required =
     (unresolved_config c store)
       \<lparr>gc_provider := (case check of Some f \<Rightarrow> CheckFunction f | None \<Rightarrow> NoProvider),
        gc_requireDelegationRevocation := JBool required\<rparr>"

definition createSecureGuard ::
  "host \<Rightarrow> 'w runtime \<Rightarrow> 'w replay_store \<Rightarrow> 'w provenance_cell \<Rightarrow> 'w guard_config \<Rightarrow> jsval \<Rightarrow> 'w
     \<Rightarrow> guard_error + 'w secure_guard" where
  "createSecureGuard h rt local cell c options w =
     (let tenancy = getp options ''tenancy''
      in if tenancy \<noteq> JStr ''single-tenant'' \<and> tenancy \<noteq> JStr ''multi-tenant''
         then configuration_error
                (''Secure guard requires an explicit tenancy posture: \"single-tenant\" or \"multi-tenant\". ''
                 @ ''It is not defaulted, because a multi-tenant deployment that has not wired tenant identity ''
                 @ ''would otherwise be indistinguishable from a legitimate single-tenant one.'')
         else bindE (strictFromConfig (gc_requireExplicitReplayProtection c)) (\<lambda>strict.
              bindE (resolveReplayProtection local (gc_replay c) strict) (\<lambda>rr.
              bindE (OxDeAIGuard h rt local (unresolved_config c (rr_store rr)) w) (\<lambda>_.
              bindE (resolveDelegationRevocation c) (\<lambda>(check, required).
              let template = template_config c (rr_store rr) check required
              in bindE (OxDeAIGuard h rt local template w) (\<lambda>_.
                 Inr \<lparr>sg_host = h, sg_runtime = rt, sg_store = local,
                      sg_multiTenant = (tenancy = JStr ''multi-tenant''), sg_template = template,
                      sg_normalize = (case gc_mapActionToIntent c of Some f \<Rightarrow> f
                        | None \<Rightarrow> defaultNormalizeAction h (rt_random rt) (rt_clock rt)),
                      sg_cell = cell\<rparr>))))))"

section \<open>A request\<close>

text \<open>
  The normalizer of a request. The agent of the context stands in for an absent claim, so that the default
  normalizer can run; the reconciliation sees the claims the proposer really made.
\<close>

definition for_normalization :: "trusted_context \<Rightarrow> jsval \<Rightarrow> jsval" where
  "for_normalization ctx act =
     (if nullish (getp (getp act ''context'') ''agent_id'')
      then spread_set act ''context'' (spread_set (getp act ''context'') ''agent_id'' (JStr (tc_agentId ctx)))
      else act)"

definition synthesized :: "jsval \<Rightarrow> string list" where
  "synthesized act = (if nullish (getp (getp act ''context'') ''agent_id'') then [''agent_id''] else [])"

definition secure_normalize :: "'w secure_guard \<Rightarrow> trusted_context \<Rightarrow> jsval \<Rightarrow> ('w, jsval) callback" where
  "secure_normalize sg ctx act w =
     (if nullish act then (Inl (Foreign TypeError, Fresh), w)
      else case sg_normalize sg (for_normalization ctx act) w of
        (Inl x, w') \<Rightarrow> (Inl x, w')
      | (Inr proposed, w') \<Rightarrow>
          (case reconcileWithTrustedContext proposed ctx (getp act ''context'') (synthesized act) of
             Inl x \<Rightarrow> (Inl x, w')
           | Inr (intent, prov) \<Rightarrow> (Inr intent, pc_put (sg_cell sg) (Some prov) w')))"

definition with_provenance ::
  "'w provenance_cell \<Rightarrow> (decision_record \<Rightarrow> ('w, unit) callback) \<Rightarrow> decision_record \<Rightarrow> ('w, unit) callback" where
  "with_provenance cell hook rec w =
     hook (case pc_get cell w of Some prov \<Rightarrow> rec\<lparr>dr_provenance := Some prov\<rparr> | None \<Rightarrow> rec) w"

definition secure_config :: "'w secure_guard \<Rightarrow> trusted_context \<Rightarrow> 'w guard_config" where
  "secure_config sg ctx =
     (sg_template sg)
       \<lparr>gc_mapActionToIntent := Some (secure_normalize sg ctx),
        gc_onDecision := map_option (with_provenance (sg_cell sg)) (gc_onDecision (sg_template sg))\<rparr>"

text \<open>The prelude: the brand of the context and the tenancy posture, then the shared body of this request.\<close>

definition untrusted_context :: guard_error where
  "untrusted_context = AuthorizationError
     (''Secure guard requires a TrustedExecutionContext built by createTrustedExecutionContext(). ''
      @ ''A plain object '' @ [CHR 0xE2, CHR 0x80, CHR 0x94]
      @ '' including one deserialized from request JSON '' @ [CHR 0xE2, CHR 0x80, CHR 0x94]
      @ '' is not accepted. Execution blocked.'')"

definition missing_tenant :: guard_error where
  "missing_tenant = AuthorizationError
     (''Deployment is configured multi-tenant but the trusted execution context carries no tenantId. ''
      @ ''Execution blocked.'')"

definition secure_body :: "'w secure_guard \<Rightarrow> context_value \<Rightarrow> ('w, 'w guard_body) step" where
  "secure_body sg ctx =
     (case ctx of
        Unbranded _ \<Rightarrow> refuse TRUSTED_CONTEXT UNTRUSTED_CONTEXT untrusted_context
      | Branded c \<Rightarrow>
          if sg_multiTenant sg \<and> tc_tenantId c = None
          then refuse TRUSTED_CONTEXT MISSING_TENANT_ID missing_tenant
          else (\<lambda>p. case OxDeAIGuard (sg_host sg) (sg_runtime sg) (sg_store sg) (secure_config sg c) (world p) of
                      Inl x \<Rightarrow> throwG x p
                    | Inr g \<Rightarrow> (Inr g, p)))"

text \<open>The outer catch has a lifecycle of its own, which knows whether the shared body was entered.\<close>

definition secureGuard ::
  "'w secure_guard \<Rightarrow> context_value \<Rightarrow> jsval \<Rightarrow> ('w, jsval) callback \<Rightarrow> jsval \<Rightarrow> ('w, jsval) step" where
  "secureGuard sg ctx act execute options p =
     (let outer = createLifecycle TRUSTED_CONTEXT;
          report = (\<lambda>x lc p. emitBoundaryEvent (gc_onBoundaryEvent (sg_template sg)) x (p\<lparr>life := lc\<rparr>))
      in case secure_body sg ctx (p\<lparr>world := pc_put (sg_cell sg) None (world p), life := outer\<rparr>) of
           (Inl x, p1) \<Rightarrow> (Inl x, report x outer p1)
         | (Inr g, p1) \<Rightarrow>
             (case guard g act execute options p1 of
                (Inl x, p2) \<Rightarrow> (Inl x, report x (outer\<lparr>sharedBodyEntered := True\<rparr>) p2)
              | (Inr v, p2) \<Rightarrow> (Inr v, p2)))"

section \<open>Reconciled intents\<close>

text \<open>What \<open>reconcileWithTrustedContext\<close> returns agrees with the context wherever the context speaks.\<close>

definition agrees_with :: "jsval \<Rightarrow> trusted_context \<Rightarrow> bool" where
  "agrees_with intent ctx =
     (getp intent ''agent_id'' = JStr (tc_agentId ctx) \<and> getp intent ''depth'' = JNum (tc_depth ctx) \<and>
      (\<forall>t. tc_tool ctx = Some t \<longrightarrow> getp intent ''tool'' = JStr t))"

lemma getp_spread [simp]: "getp (spread_set v k x) j = (if j = k then x else getp (JObj (entries v)) j)"
  by (simp add: spread_set_def)

lemma reconcile_field_facts:
  assumes "rc_intent r = JObj kvs" and "r' = reconcile_field ctx syn f cs r" and "rc_conflicts r' = []"
  shows "rc_conflicts r = []" "\<exists>kvs'. rc_intent r' = JObj kvs'"
    "k \<noteq> pf_name f \<Longrightarrow> getp (rc_intent r') k = getp (rc_intent r) k"
    "pf_intent_claim f \<Longrightarrow> pf_derived f ctx = Some v \<Longrightarrow> getp (rc_intent r') (pf_name f) = v"
    "fst ` set (rc_provenance r') \<subseteq> insert (pf_name f) (fst ` set (rc_provenance r))"
    "\<forall>e \<in> set (rc_provenance r). snd e \<noteq> Conflict \<Longrightarrow> \<forall>e \<in> set (rc_provenance r'). snd e \<noteq> Conflict"
  using assms
  by (auto simp: reconcile_field_def Let_def spread_set_def split: option.splits if_splits)

lemma reconcile_fields_facts:
  assumes "reconcile_fields ctx syn intent actx fs r = Inr r'" and "rc_conflicts r' = []"
    and "rc_intent r = JObj kvs" and "distinct (map pf_name fs)"
    and "\<forall>e \<in> set (rc_provenance r). snd e \<noteq> Conflict"
  shows "rc_conflicts r = [] \<and> (\<forall>k. k \<notin> pf_name ` set fs \<longrightarrow> getp (rc_intent r') k = getp (rc_intent r) k) \<and>
    (\<forall>f \<in> set fs. \<forall>v. pf_intent_claim f \<longrightarrow> pf_derived f ctx = Some v \<longrightarrow> getp (rc_intent r') (pf_name f) = v) \<and>
    (\<forall>e \<in> set (rc_provenance r'). snd e \<noteq> Conflict)"
  using assms
proof (induction fs arbitrary: r kvs)
  case (Cons f fs)
  from Cons.prems(1) obtain cs where rest: "reconcile_fields ctx syn intent actx fs (reconcile_field ctx syn f cs r) = Inr r'"
    by (auto simp: bindE_eq_Inr)
  define r1 where "r1 = reconcile_field ctx syn f cs r"
  have obj: "\<exists>kvs'. rc_intent r1 = JObj kvs'"
    using Cons.prems(3) by (auto simp: r1_def reconcile_field_def Let_def spread_set_def split: option.splits)
  have mono: "rc_conflicts r1 = [] \<Longrightarrow> \<forall>e \<in> set (rc_provenance r1). snd e \<noteq> Conflict"
    using reconcile_field_facts(6) [OF Cons.prems(3) r1_def] Cons.prems(5) by blast
  have c1: "rc_conflicts r1 = []"
  proof -
    have "reconcile_fields ctx syn intent actx fs q = Inr r' \<Longrightarrow> rc_conflicts q = []" for q
      using Cons.prems(2)
    proof (induction fs arbitrary: q)
      case (Cons g gs)
      from Cons.prems(1) obtain ds where "reconcile_fields ctx syn intent actx gs (reconcile_field ctx syn g ds q) = Inr r'"
        by (auto simp: bindE_eq_Inr)
      with Cons.IH Cons.prems(2) have "rc_conflicts (reconcile_field ctx syn g ds q) = []" by blast
      then show ?case by (auto simp: reconcile_field_def Let_def split: option.splits if_splits)
    qed simp
    with rest show ?thesis by (simp add: r1_def)
  qed
  from obj obtain kvs1 where k1: "rc_intent r1 = JObj kvs1" ..
  from Cons.IH [OF rest [folded r1_def] Cons.prems(2) k1 _ mono [OF c1]] Cons.prems(4)
  have ih: "(\<forall>k. k \<notin> pf_name ` set fs \<longrightarrow> getp (rc_intent r') k = getp (rc_intent r1) k)"
    "\<forall>f \<in> set fs. \<forall>v. pf_intent_claim f \<longrightarrow> pf_derived f ctx = Some v \<longrightarrow> getp (rc_intent r') (pf_name f) = v"
    "\<forall>e \<in> set (rc_provenance r'). snd e \<noteq> Conflict" by simp_all
  note facts = reconcile_field_facts [OF Cons.prems(3) r1_def c1]
  from ih facts Cons.prems(4) show ?case by auto
qed simp

lemma reconciled:
  assumes "reconcileWithTrustedContext intent ctx actx syn = Inr (i, prov)"
  shows "agrees_with i ctx \<and> (\<forall>e \<in> set prov. snd e \<noteq> Conflict)"
proof -
  from assms obtain r where r: "reconcile_fields ctx syn intent actx FIELDS
      \<lparr>rc_intent = JObj (entries intent), rc_provenance = [], rc_conflicts = []\<rparr> = Inr r"
    and c: "rc_conflicts r = []" and i: "i = rc_intent r" "prov = rc_provenance r"
    by (auto simp: reconcileWithTrustedContext_def lift_foreign_def bindE_eq_Inr split: sum.splits if_splits)
  have "distinct (map pf_name FIELDS)" by (simp add: FIELDS_def)
  with reconcile_fields_facts [OF r c, of "entries intent"] show ?thesis
    by (auto simp: i agrees_with_def FIELDS_def simp del: getp.simps)
qed

lemma secure_normalize_Inr:
  assumes "secure_normalize sg ctx act w = (Inr intent, w')"
  shows "agrees_with intent ctx"
  using assms by (auto simp: secure_normalize_def split: if_splits prod.splits sum.splits dest!: reconciled)

section \<open>The shared body\<close>

lemma secure_body_Inr:
  assumes "secure_body sg ctx p = (Inr g, p')"
  obtains c where "ctx = Branded c" "sg_multiTenant sg \<Longrightarrow> tc_tenantId c \<noteq> None" "p' = p"
    "OxDeAIGuard (sg_host sg) (sg_runtime sg) (sg_store sg) (secure_config sg c) (world p) = Inr g"
  using assms by (auto simp: secure_body_def refuse_def throwG_def split: context_value.splits sum.splits if_splits)

lemma built_normalize: "OxDeAIGuard h rt local c w = Inr g \<Longrightarrow> gc_mapActionToIntent c = Some f \<Longrightarrow> g_normalize g = f"
  by (auto simp: OxDeAIGuard_def configuration_error_def bindE_eq_Inr split: if_splits)

lemma guard_any_life: "guard g act execute options (p\<lparr>life := l\<rparr>) = guard g act execute options p"
  by (simp add: guard_def)

text \<open>The secure guard adds no call of its own once the body is entered.\<close>

lemma secure_calls:
  assumes "secure_body sg ctx (p\<lparr>world := pc_put (sg_cell sg) None (world p), life := createLifecycle TRUSTED_CONTEXT\<rparr>) = (Inr g, q)"
  shows "calls (snd (secureGuard sg ctx act execute options p)) =
    calls (snd (guard g act execute options (p\<lparr>world := pc_put (sg_cell sg) None (world p)\<rparr>)))"
proof -
  have q: "q = p\<lparr>world := pc_put (sg_cell sg) None (world p), life := createLifecycle TRUSTED_CONTEXT\<rparr>"
    using assms by (rule secure_body_Inr)
  have "calls (emitBoundaryEvent hook x (p2\<lparr>life := (createLifecycle TRUSTED_CONTEXT)\<lparr>sharedBodyEntered := True\<rparr>\<rparr>)) = calls p2"
    for hook x and p2 :: "'a progress"
    by (simp add: emitBoundaryEvent_def createLifecycle_def split: option.split)
  then show ?thesis
    using guard_any_life [where p = "p\<lparr>world := pc_put (sg_cell sg) None (world p)\<rparr>" and l = "createLifecycle TRUSTED_CONTEXT"]
    by (auto simp: secureGuard_def Let_def assms q split: prod.split sum.split)
qed

lemma secure_executed:
  assumes run: "secureGuard sg ctx act execute options p = (r, p')" and new: "calls p' = calls p @ cs"
    and ex: "Executed \<in> set cs"
  obtains c g where "ctx = Branded c" "sg_multiTenant sg \<Longrightarrow> tc_tenantId c \<noteq> None"
    "g_config g = secure_config sg c" "g_normalize g = secure_normalize sg c"
    "calls (snd (guard g act execute options (p\<lparr>world := pc_put (sg_cell sg) None (world p)\<rparr>))) = calls p @ cs"
proof -
  let ?p = "p\<lparr>world := pc_put (sg_cell sg) None (world p), life := createLifecycle TRUSTED_CONTEXT\<rparr>"
  obtain q p1 where b: "secure_body sg ctx ?p = (q, p1)" by (cases "secure_body sg ctx ?p")
  show thesis
  proof (cases q)
    case (Inl x)
    have "calls p1 = calls p \<and> life p1 = createLifecycle TRUSTED_CONTEXT" using b
      by (auto simp: secure_body_def refuse_def throwG_def split: context_value.splits sum.splits if_splits)
    moreover have "p' = emitBoundaryEvent (gc_onBoundaryEvent (sg_template sg)) x (p1\<lparr>life := createLifecycle TRUSTED_CONTEXT\<rparr>)"
      using run b Inl by (simp add: secureGuard_def Let_def)
    ultimately have "set cs \<subseteq> {c. \<exists>e. c = Reported e}"
      using new by (auto simp: emitBoundaryEvent_def mark_emitted_def invoke_def Let_def
          split: option.splits origin.splits prod.splits if_splits)
    with ex show thesis by auto
  next
    case (Inr g)
    with b have body: "secure_body sg ctx ?p = (Inr g, p1)" by simp
    then obtain c where c: "ctx = Branded c" "sg_multiTenant sg \<Longrightarrow> tc_tenantId c \<noteq> None"
      "OxDeAIGuard (sg_host sg) (sg_runtime sg) (sg_store sg) (secure_config sg c) (world ?p) = Inr g"
      by (rule secure_body_Inr) blast
    have "g_normalize g = secure_normalize sg c" by (rule built_normalize [OF c(3)]) (simp add: secure_config_def)
    moreover have "calls (snd (guard g act execute options (p\<lparr>world := pc_put (sg_cell sg) None (world p)\<rparr>))) = calls p @ cs"
      using secure_calls [OF body, of act execute options] run new by simp
    ultimately show thesis using that c guard_built(1) [OF c(3)] by blast
  qed
qed

end
