(* ===== verification/GuardDemo.thy ===== *)
theory GuardDemo
  imports GuardReplay SecureGuard VerifierDemo
begin

text \<open>
  A concrete deployment of the secure guard: the built-in replay store as the world, one trusted key, a
  multi-tenant context, and an engine that allows every intent with a signed authorization. The guard of the
  demonstration is the shared body of its requests; one action runs through both paths.
\<close>

type_synonym demo_ids = consumed_ids

definition demo_world :: demo_ids where
  "demo_world = \<lparr>consumedAuthIds = [], consumedDelegationIds = []\<rparr>"

definition demo_store :: "demo_ids replay_store" where
  "demo_store = createInMemoryReplayStore (\<lambda>w. w) (\<lambda>m w. m)"

definition demo_proposed :: jsval where
  "demo_proposed = JObj [(''intent_id'', JStr ''i''), (''agent_id'', JStr ''b''), (''amount'', JBig 2)]"

definition demo_normalized :: jsval where
  "demo_normalized =
     JObj [(''intent_id'', JStr ''i''), (''agent_id'', JStr ''b''), (''amount'', JBig 2), (''depth'', JNum (jint 0))]"

definition demo_action :: jsval where
  "demo_action = JObj [(''name'', JStr ''x''), (''args'', JObj [])]"

definition demo_allowed :: jsval where
  "demo_allowed = JObj [(''decision'', JStr ''ALLOW''), (''authorization'', demo_parent), (''nextState'', JObj [])]"

definition demo_guard_config :: "demo_ids guard_config" where
  "demo_guard_config =
     \<lparr>gc_evaluatePure = (\<lambda>_ _ _ w. (Inr demo_allowed, w)), gc_engineStateHash = (\<lambda>_ w. (Inr (JStr ''s''), w)),
      gc_getState = (\<lambda>w. (Plain (JObj [(''state'', JObj []), (''version'', JNum (jint 1))]), w)),
      gc_setState = (\<lambda>_ _ w. (Inr (JBool True), w)), gc_mapActionToIntent = Some (\<lambda>_ w. (Inr demo_proposed, w)),
      gc_beforeExecute = None, gc_onDecision = Some (\<lambda>_ w. (Inr (), w)), gc_onBoundaryEvent = Some (\<lambda>_ w. (Inr (), w)),
      gc_expectedAudience = ''a'', gc_trustedKeySets = (\<lambda>_. [demo_keys]),
      gc_trustedDelegationAuthorities = Some [\<lparr>aa_issuer = ''a'', aa_policyId = ''p''\<rparr>],
      gc_trustedDelegationSigners = JUndef,
      gc_replay = \<lparr>rc_replayProtection = Some (Posture (JStr ''process-local'') None), rc_replayStore = None\<rparr>,
      gc_requireExplicitReplayProtection = JBool True, gc_computeStateHash = None,
      gc_provider = CheckFunction (\<lambda>_ w. (Plain (JObj [(''status'', JStr ''ACTIVE'')]), w)),
      gc_requireDelegationRevocation = JBool True, gc_revocation = None\<rparr>"

definition demo_runtime :: "demo_ids runtime" where
  "demo_runtime = \<lparr>rt_clock = (\<lambda>w. (jint 20, w)), rt_random = (\<lambda>n w. (replicate n CHR ''r'', w)), rt_polluted = (\<lambda>_. False)\<rparr>"

definition demo_cell :: "demo_ids provenance_cell" where
  "demo_cell = \<lparr>pc_get = (\<lambda>_. None), pc_put = (\<lambda>_ w. w)\<rparr>"

definition demo_secure :: "demo_ids secure_guard" where
  "demo_secure =
     \<lparr>sg_host = demo_host, sg_runtime = demo_runtime, sg_store = demo_store, sg_multiTenant = True,
      sg_template = template_config demo_guard_config demo_store
        (Some (\<lambda>_ w. (Plain (JObj [(''status'', JStr ''ACTIVE'')]), w))) True,
      sg_normalize = (\<lambda>_ w. (Inr demo_proposed, w)), sg_cell = demo_cell\<rparr>"

definition demo_tenancy :: jsval where
  "demo_tenancy = JObj [(''tenancy'', JStr ''multi-tenant'')]"

lemmas construction_defs = OxDeAIGuard_def validateConfig_def strictFromConfig_def resolveReplayProtection_def
  resolveDelegationSigners_def resolveDelegationRevocation_def resolveRevocationConfig_def Let_def

lemma demo_secure_built:
  "createSecureGuard demo_host demo_runtime demo_store demo_cell demo_guard_config demo_tenancy demo_world = Inr demo_secure"
  by (simp add: createSecureGuard_def construction_defs demo_tenancy_def demo_guard_config_def demo_secure_def
      template_config_def unresolved_config_def)

definition demo_context :: trusted_context where
  "demo_context =
     \<lparr>tc_principalId = ''r'', tc_tenantId = Some ''t'', tc_agentId = ''b'', tc_adapterId = ''d'', tc_tool = None,
      tc_routeClassification = None, tc_depth = jint 0\<rparr>"

definition demo_guard :: "demo_ids guard_body" where
  "demo_guard =
     \<lparr>g_host = demo_host, g_runtime = demo_runtime, g_config = secure_config demo_secure demo_context,
      g_normalize = secure_normalize demo_secure demo_context, g_replayStore = demo_store, g_signers = None,
      g_check = Some (\<lambda>_ w. (Plain (JObj [(''status'', JStr ''ACTIVE'')]), w)), g_revocationRequired = True,
      g_signedKrl = None\<rparr>"

lemma demo_guard_built:
  "OxDeAIGuard demo_host demo_runtime demo_store (secure_config demo_secure demo_context) w = Inr demo_guard"
  by (simp add: construction_defs demo_guard_config_def demo_guard_def demo_secure_def secure_config_def
      template_config_def unresolved_config_def)

lemma demo_config [simp]:
  "gc_onBoundaryEvent (secure_config demo_secure demo_context) = Some (\<lambda>_ w. (Inr (), w))"
  by (simp add: secure_config_def demo_secure_def template_config_def unresolved_config_def demo_guard_config_def)

lemma demo_body: "secure_body demo_secure (Branded demo_context) p = (Inr demo_guard, p)"
proof -
  have "sg_multiTenant demo_secure \<and> tc_tenantId demo_context = None \<longleftrightarrow> False" by (simp add: demo_context_def)
  moreover have "sg_host demo_secure = demo_host" "sg_runtime demo_secure = demo_runtime" "sg_store demo_secure = demo_store"
    by (simp_all add: demo_secure_def)
  ultimately show ?thesis by (simp add: secure_body_def demo_guard_built)
qed

definition demo_execute :: "(demo_ids, jsval) callback" where
  "demo_execute w = (Inr (JStr ''done''), w)"

definition demo_start :: "demo_ids progress" where
  "demo_start = \<lparr>world = demo_world, life = createLifecycle STATE_LOAD, annotated = [], emitted = [], calls = []\<rparr>"

definition demo_input :: jsval where
  "demo_input = JObj [(''delegation'', JObj [(''delegation'', demo_delegation), (''parentAuth'', demo_parent),
     (''parentScope'', demo_ceiling)])]"

lemma demo_start_calls: "calls demo_start = []"
  by (simp add: demo_start_def)

lemma demo_input_delegated: "truthy (getp demo_input ''delegation'')"
  by (simp add: demo_input_def)

section \<open>Facts about the inputs\<close>

lemma demo_parent_signed:
  "ed25519_outcome demo_host demo_parent (signatureParts demo_parent) [demo_keys] (jint 20) = ([], True, AuthorizationV1Full)"
  by code_simp

lemma demo_parent_ok:
  assumes "as = None \<or> as = Some [\<lparr>aa_issuer = ''a'', aa_policyId = ''p''\<rparr>]"
  shows "\<exists>r. verifyAuthorization demo_host (jint 20) (strict_options ''a'' as (jint 20) [demo_keys]) demo_parent = Inr r \<and> vr_ok r"
proof -
  let ?o = "strict_options ''a'' as (jint 20) [demo_keys]"
  have p: "\<And>k. getp demo_parent k = (case map_of (entries demo_parent) k of Some v \<Rightarrow> v | None \<Rightarrow> inherited k)"
    by (simp add: demo_parent_def)
  have f: "fields_accepted demo_host ?o demo_parent (jint 20) (jint 300)"
    using assms
    by (auto simp: fields_accepted_def strict_options_def demo_parent_def signatureParts_def demo_host_def inherited_def
        object_prototype_def effective_expiry_def has_text_def isTrustedAuthorizationAuthority_def max_safe_def demo_hash_def num_add_jint)
  have s: "signature_outcome demo_host ?o demo_parent [demo_keys] (jint 20) = ([], True, AuthorizationV1Full)"
    by (simp add: signature_outcome_def Let_def demo_parent_signed)
      (simp add: demo_parent_def signatureParts_def inherited_def object_prototype_def)
  have "\<exists>r. verifyAuthorization demo_host (jint 20) ?o demo_parent = Inr r \<and>
      (vr_ok r \<longleftrightarrow> (va_strict ?o \<longrightarrow> trusted_of ?o \<noteq> []) \<and> fields_accepted demo_host ?o demo_parent (jint 20) (jint 300) \<and>
         fst (signature_outcome demo_host ?o demo_parent (trusted_of ?o) (jint 20)) = []) \<and>
      (vr_ok r \<longrightarrow> signatureVerified r = fst (snd (signature_outcome demo_host ?o demo_parent (trusted_of ?o) (jint 20))) \<and>
         verificationCoverage r = snd (snd (signature_outcome demo_host ?o demo_parent (trusted_of ?o) (jint 20))))"
    by (rule verifyAuthorization_ok [where d = "JStr ''ALLOW''"])
      (simp_all add: strict_options_def resolveMaxFutureIssuedAtSkewSeconds_def DEFAULT_MAX_FUTURE_ISSUED_AT_SKEW_SECONDS_def
        demo_parent_def propE_def nowSeconds_def)
  moreover have "trusted_of ?o = [demo_keys]" by (simp add: strict_options_def)
  ultimately show ?thesis using f s by auto
qed

lemma demo_normalized_hash: "intentHashOf demo_host demo_normalized = Inr demo_hash"
  by code_simp

definition demo_provenance :: provenance_record where
  "demo_provenance =
     [(''agent_id'', Absent), (''tool'', Absent), (''depth'', Absent), (''principal_id'', Absent),
      (''tenant_id'', Absent), (''adapter_id'', Absent), (''route_classification'', Absent)]"

lemma demo_reconcile:
  "reconcileWithTrustedContext demo_proposed demo_context JUndef [''agent_id''] = Inr (demo_normalized, demo_provenance)"
proof -
  let ?r = "\<lparr>rc_intent = demo_proposed, rc_provenance = [], rc_conflicts = []\<rparr>"
  have c: "list_all2 (\<lambda>f cs. claims f demo_proposed JUndef = Inr cs) FIELDS [[JStr ''b''], [], [], [], [], [], []]"
    by (simp add: FIELDS_def claims_def claimsOf_def propE_def demo_proposed_def inherited_def object_prototype_def)
  have s: "reconcile_fields ctx syn intent actx fs r = Inr (fold (\<lambda>(f, cs). reconcile_field ctx syn f cs) (zip fs css) r)"
    if "list_all2 (\<lambda>f cs. claims f intent actx = Inr cs) fs css" for ctx syn intent actx fs css r
    using that by (induction arbitrary: r rule: list_all2_induct) simp_all
  have "fold (\<lambda>(f, cs). reconcile_field demo_context [''agent_id''] f cs) (zip FIELDS [[JStr ''b''], [], [], [], [], [], []]) ?r
      = \<lparr>rc_intent = demo_normalized, rc_provenance = demo_provenance, rc_conflicts = []\<rparr>"
    by (simp add: FIELDS_def reconcile_field_def demo_context_def demo_provenance_def demo_normalized_def demo_proposed_def
        spread_set_def Let_def)
  with s [OF c] show ?thesis
    by (simp add: reconcileWithTrustedContext_def lift_foreign_def) (simp add: demo_proposed_def)
qed

lemma demo_reconciled: "secure_normalize demo_secure demo_context demo_action w = (Inr demo_normalized, w)"
proof -
  have "getp demo_action ''context'' = JUndef" by (simp add: demo_action_def inherited_def object_prototype_def)
  then show ?thesis
    by (simp add: secure_normalize_def for_normalization_def synthesized_def demo_secure_def demo_cell_def demo_reconcile)
      (simp add: demo_action_def)
qed

section \<open>The two runs\<close>

text \<open>A step that answers, what it calls and what it does to the world; closed under sequencing.\<close>

definition yields :: "('w, 'a) step \<Rightarrow> 'a \<Rightarrow> call list \<Rightarrow> 'w \<Rightarrow> 'w \<Rightarrow> bool" where
  "yields m v cs w w' =
     (\<forall>p. world p = w \<longrightarrow> (\<exists>p'. m p = (Inr v, p') \<and> calls p' = calls p @ cs \<and> world p' = w'))"

lemma yields_bindG:
  assumes "yields m v cs w w'" and "yields (f v) v' cs' w' w''"
  shows "yields (bindG m f) v' (cs @ cs') w w''"
  using assms unfolding yields_def bindG_def by fastforce

lemma yields_simple:
  "yields (returnG v) v [] w w"
  "yields (advance h) () [] w w"
  "yields (enter s) () [] w w"
  "yields (liftE (Inr v)) v [] w w"
  "clock w = (t, w') \<Longrightarrow> yields (read_clock clock) t [] w w'"
  "cb w = (r, w') \<Longrightarrow> yields (invoke entry cb) r (entry r) w w'"
  by (auto simp: yields_def returnG_def advance_def enter_def liftE_def read_clock_def invoke_def)

lemma demo_guard_simps [simp]:
  "g_host demo_guard = demo_host" "g_runtime demo_guard = demo_runtime" "g_replayStore demo_guard = demo_store"
  "g_normalize demo_guard = secure_normalize demo_secure demo_context" "g_signedKrl demo_guard = None"
  "g_signers demo_guard = None" "g_revocationRequired demo_guard = True"
  "g_check demo_guard = Some (\<lambda>_ w. (Plain (JObj [(''status'', JStr ''ACTIVE'')]), w))"
  "rt_polluted demo_runtime = (\<lambda>_. False)" "rt_clock demo_runtime = (\<lambda>w. (jint 20, w))"
  "gc_getState (g_config demo_guard) = (\<lambda>w. (Plain (JObj [(''state'', JObj []), (''version'', JNum (jint 1))]), w))"
  "gc_evaluatePure (g_config demo_guard) = (\<lambda>_ _ _ w. (Inr demo_allowed, w))"
  "gc_engineStateHash (g_config demo_guard) = (\<lambda>_ w. (Inr (JStr ''s''), w))"
  "gc_computeStateHash (g_config demo_guard) = None" "gc_beforeExecute (g_config demo_guard) = None"
  "gc_setState (g_config demo_guard) = (\<lambda>_ _ w. (Inr (JBool True), w))"
  "gc_expectedAudience (g_config demo_guard) = ''a''" "gc_trustedKeySets (g_config demo_guard) = (\<lambda>_. [demo_keys])"
  "gc_trustedDelegationAuthorities (g_config demo_guard) = Some [\<lparr>aa_issuer = ''a'', aa_policyId = ''p''\<rparr>]"
  by (simp_all add: demo_guard_def demo_runtime_def secure_config_def demo_secure_def template_config_def
      unresolved_config_def demo_guard_config_def)

lemma demo_decides: "yields (fireDecision (gc_onDecision (g_config demo_guard)) rec) () [Decided rec] w w"
  by (simp add: yields_def fireDecision_def demo_guard_def secure_config_def demo_secure_def template_config_def
      unresolved_config_def demo_guard_config_def with_provenance_def demo_cell_def bindG_def invoke_def returnG_def)

lemma demo_loads: "yields (load_state demo_guard) \<lparr>vs_state = JObj [], vs_version = JNum (jint 1)\<rparr> [LoadState] w w"
  by (simp add: yields_def load_state_def bindG_def invoke_def settleCallback_def returnG_def liftE_def propE_def)

lemma demo_normalizes: "yields (normalize_action demo_guard demo_action delegated) demo_normalized [] w w"
  by (simp add: yields_def normalize_action_def normalized_def bindG_def invoke_def enter_def advance_def demo_reconciled
      liftE_def propE_def returnG_def demo_normalized_def)

lemma demo_performs:
  "yields (perform demo_guard demo_execute rec) (JStr ''done'') [Executed, Decided rec] w w"
proof -
  have "yields (invoke (\<lambda>_. [Executed]) demo_execute) (Inr (JStr ''done'')) [Executed] w w"
    by (rule yields_simple) (simp add: demo_execute_def)
  then have "yields (bindG (invoke (\<lambda>_. [Executed]) demo_execute) (\<lambda>r. bindG (rethrow r) (\<lambda>result.
      bindG (fireDecision (gc_onDecision (g_config demo_guard)) rec) (\<lambda>_. returnG result))))
      (JStr ''done'') ([Executed] @ [Decided rec] @ []) w w"
    by (rule yields_bindG) (simp only: rethrow_simps bindG_simps, rule yields_bindG [OF demo_decides], rule yields_simple)
  from yields_bindG [OF yields_simple(2) this] show ?thesis by (simp add: perform_def)
qed

lemma demo_gates: "yields (execution_gate demo_guard demo_action auth) () [] w w"
  by (simp add: yields_def execution_gate_def before_execute_def bindG_def enter_def advance_def returnG_def)

definition demo_spent :: "jsval list \<Rightarrow> jsval list \<Rightarrow> demo_ids" where
  "demo_spent as ds = \<lparr>consumedAuthIds = as, consumedDelegationIds = ds\<rparr>"

lemma demo_consumes:
  "yields (consume_auth demo_guard m1 m2 m3 (JStr ''p1'') x) () [ConsumeAuth (JStr ''p1'') (Some (JBool True))]
     (demo_spent [] ds) (demo_spent [JStr ''p1''] ds)"
  "yields (consume_delegation demo_guard demo_delegation) () [ConsumeDelegation (JStr ''u'') (Some (JBool True))]
     (demo_spent [] []) (demo_spent [] [JStr ''u''])"
  by (simp_all add: yields_def consume_auth_def consume_delegation_def demo_store_def createInMemoryReplayStore_def
      within_world_def memory_consumeAuthId_def memory_consumeDelegationId_def demo_spent_def bindG_def invoke_def
      advance_def answer_def demo_delegation_def)

text \<open>The standard path.\<close>

lemma demo_evaluates:
  "yields (evaluate_policy demo_guard demo_normalized (JObj [])) demo_allowed
     [Evaluated demo_normalized (JObj []) (jint 20) (Some demo_allowed)] w w"
  by (simp add: yields_def evaluate_policy_def bindG_def enter_def advance_def read_clock_def invoke_def answer_def returnG_def)

lemma demo_allows:
  "yields (require_allow demo_guard demo_action demo_allowed) \<lparr>is_authorization = demo_parent, is_nextState = JObj []\<rparr> [] w w"
  by (simp add: yields_def require_allow_def demo_allowed_def demo_parent_def bindG_def advance_def liftE_def propE_def returnG_def)

lemma demo_verifies: "yields (verify_issued demo_guard demo_parent) () [] w w"
proof -
  obtain r where "verifyAuthorization demo_host (jint 20) (strict_options ''a'' None (jint 20) [demo_keys]) demo_parent = Inr r"
    and "vr_ok r" using demo_parent_ok [of None] by blast
  then show ?thesis
    by (simp add: yields_def verify_issued_def trusted_now_def validatedTrust_def bindG_def enter_def advance_def read_clock_def
        liftE_def returnG_def)
qed

lemma demo_binds:
  "yields (bind_intent demo_guard demo_normalized demo_parent) () [] w w"
  "yields (bind_state demo_guard (JObj []) demo_parent) () [] w w"
  by (simp_all add: yields_def bind_intent_def bind_state_def demo_normalized_hash state_hasher_def bindG_def invoke_def
      returnG_def demo_parent_def)

lemma demo_commits:
  "yields (commit demo_guard (JObj []) (JNum (jint 1))) () [Committed (JObj []) (JNum (jint 1)) (Some (JBool True))] w w"
  by (simp add: yields_def commit_def bindG_def enter_def advance_def invoke_def answer_def returnG_def)

lemmas demo_standard_steps = demo_evaluates demo_allows demo_verifies demo_binds demo_commits demo_consumes demo_gates demo_performs

lemma demo_standard:
  "yields (runRequest demo_guard demo_action demo_execute JUndef) (JStr ''done'')
     ([LoadState] @ [] @
      ([Evaluated demo_normalized (JObj []) (jint 20) (Some demo_allowed)] @ [] @ [] @ [] @ [] @
       [ConsumeAuth (JStr ''p1'') (Some (JBool True))] @ [Committed (JObj []) (JNum (jint 1)) (Some (JBool True))] @ []) @
      [] @ [Executed, Decided (allowed_record demo_action demo_parent None)])
     (demo_spent [] []) (demo_spent [JStr ''p1''] [])"
proof -
  have i: "getp demo_parent ''auth_id'' = JStr ''p1''" by (simp add: demo_parent_def)
  have d: "truthy (getp JUndef ''delegation'') = False" by simp
  show ?thesis
    unfolding runRequest_def standard_request_def standard_clearance_def Let_def d if_False
    apply (rule yields_bindG, rule demo_loads)
    apply (rule yields_bindG, rule demo_normalizes)
    apply (rule yields_bindG)
     apply (rule yields_bindG, simp only: versioned_state.simps, rule demo_evaluates)
     apply (rule yields_bindG, rule demo_allows, unfold issued_allow.simps versioned_state.simps i)
     apply (rule yields_bindG demo_verifies demo_binds demo_consumes demo_commits yields_simple demo_gates demo_performs)+
    done
qed

text \<open>The delegated path.\<close>

definition demo_given :: delegated_input where
  "demo_given =
     \<lparr>di_delegation = demo_delegation, di_parentAuth = demo_parent, di_authorities = [\<lparr>aa_issuer = ''a'', aa_policyId = ''p''\<rparr>],
      di_now = jint 20, di_parentScope = demo_ceiling\<rparr>"

lemma demo_given_simps [simp]:
  "di_delegation demo_given = demo_delegation" "di_parentAuth demo_given = demo_parent" "di_now demo_given = jint 20"
  "di_parentScope demo_given = demo_ceiling" "di_authorities demo_given = [\<lparr>aa_issuer = ''a'', aa_policyId = ''p''\<rparr>]"
  by (simp_all add: demo_given_def)

lemma demo_input_plain:
  "snapshotPlainData (Some MAX_DEPTH) ''delegation input'' (getp demo_input ''delegation'') = Inr (getp demo_input ''delegation'')"
  by code_simp

lemma demo_scopes: "isValidDelegationScope demo_ceiling" "getp demo_delegation ''scope'' = demo_scope"
  "tool_messages demo_host (getp (resolveEffectiveChildScope demo_scope demo_ceiling) ''tools'') demo_action = Inr []"
  "amount_messages demo_host (getp (resolveEffectiveChildScope demo_scope demo_ceiling) ''max_amount'') 2 = []"
  "truthy demo_scope" "\<not> nullish demo_scope"
  by code_simp+

lemma demo_amount: "yields (delegated_amount demo_normalized) 2 [] w w"
  by (simp add: yields_def delegated_amount_def demo_normalized_def returnG_def)

lemma demo_gives: "yields (delegation_input demo_guard (getp demo_input ''delegation'')) demo_given [] w w"
proof -
  have "truthy (getp (getp demo_input ''delegation'') ''delegation'')" "truthy (getp (getp demo_input ''delegation'') ''parentAuth'')"
    "getp (getp demo_input ''delegation'') ''parentScope'' = demo_ceiling"
    "getp (getp demo_input ''delegation'') ''delegation'' = demo_delegation"
    "getp (getp demo_input ''delegation'') ''parentAuth'' = demo_parent"
    by (simp_all add: demo_input_def demo_delegation_def demo_parent_def)
  then show ?thesis
    by (simp add: yields_def delegation_input_def demo_input_plain demo_scopes bindG_def read_clock_def returnG_def demo_given_def)
qed

lemma demo_trusts: "yields (trusted_now demo_guard s) [demo_keys] [] w w"
  by (simp add: yields_def trusted_now_def validatedTrust_def bindG_def)

lemma demo_authenticates: "yields (authenticate_parent demo_guard demo_given [demo_keys]) () [] w w"
proof -
  obtain r where "verifyAuthorization demo_host (jint 20) (parent_options demo_guard demo_given [demo_keys]) demo_parent = Inr r"
    and "vr_ok r"
    using demo_parent_ok [of "Some [\<lparr>aa_issuer = ''a'', aa_policyId = ''p''\<rparr>]"] by (auto simp: parent_options_def)
  then show ?thesis by (simp add: yields_def authenticate_parent_def bindG_def liftE_def returnG_def)
qed

lemma demo_chained: "yields (check_chain demo_guard demo_given [demo_keys] demo_normalized demo_action 2) () [] w w"
proof -
  have o: "chain_options demo_guard demo_given [demo_keys] demo_normalized = demo_delegation_opts (Some demo_ceiling)"
    by (simp add: chain_options_def demo_delegation_opts_def demo_normalized_def)
  obtain r where "vr_ok r" and
    "verifyDelegationChain demo_host (jint 20) (demo_delegation_opts (Some demo_ceiling)) demo_delegation demo_parent = Inr r"
    using demo_chain by blast
  then show ?thesis
    by (simp add: yields_def check_chain_def delegation_messages_def Let_def o demo_scopes bindG_def liftE_def returnG_def)
qed

lemma demo_checked:
  "yields (check_provider demo_guard demo_delegation) ()
     [CheckDelegation (revocation_request demo_delegation) (Some (JObj [(''status'', JStr ''ACTIVE'')]))] w w"
  by (simp add: yields_def check_provider_def check_status_def settleCallback_def settled_answer_def bindG_def enter_def
      advance_def invoke_def returnG_def has_own_def)

lemma demo_unlisted: "yields (check_krl demo_guard demo_given) () [] w w"
  by (simp add: yields_def check_krl_def returnG_def)

lemma demo_delegated:
  "yields (runRequest demo_guard demo_action demo_execute demo_input) (JStr ''done'')
     ([LoadState] @ [] @
      ([] @ [] @ [] @ [] @ [] @ [] @
       [CheckDelegation (revocation_request demo_delegation) (Some (JObj [(''status'', JStr ''ACTIVE'')]))] @ [] @
       [ConsumeDelegation (JStr ''u'') (Some (JBool True))] @ [ConsumeAuth (JStr ''p1'') (Some (JBool True))] @ []) @
      [] @ [Executed, Decided (allowed_record demo_action demo_parent (Some demo_delegation))])
     (demo_spent [] []) (demo_spent [JStr ''p1''] [JStr ''u''])"
proof -
  have i: "getp demo_parent ''auth_id'' = JStr ''p1''" by (simp add: demo_parent_def)
  show ?thesis
    unfolding runRequest_def delegated_request_def delegated_clearance_def Let_def demo_input_delegated [THEN eqTrueI] if_True
    apply (rule yields_bindG, rule demo_loads)
    apply (rule yields_bindG, rule demo_normalizes)
    apply (rule yields_bindG)
     apply (rule yields_bindG, rule yields_simple, rule yields_bindG, rule demo_amount, rule yields_bindG, rule demo_gives,
        unfold demo_given_simps i)
     apply (rule yields_bindG demo_trusts demo_authenticates demo_chained demo_checked demo_unlisted demo_consumes yields_simple
        demo_gates)+
    apply (unfold demo_given_simps)
    apply (rule yields_bindG demo_gates demo_performs)+
    done
qed

section \<open>The traces\<close>

lemma demo_trace:
  assumes "yields (runRequest demo_guard demo_action demo_execute options) v cs (demo_spent [] []) w"
  shows "calls (snd (guard demo_guard demo_action demo_execute options demo_start)) = cs"
proof -
  let ?p = "demo_start\<lparr>life := createLifecycle STATE_LOAD\<rparr>"
  have "world ?p = demo_spent [] []" "calls ?p = []"
    by (simp_all add: demo_start_def demo_spent_def demo_world_def)
  from assms [unfolded yields_def, rule_format, OF this(1)] this(2)
  obtain p' where "runRequest demo_guard demo_action demo_execute options ?p = (Inr v, p')" "calls p' = cs" by auto
  then show ?thesis by (simp add: guard_def)
qed

lemma demo_standard_calls:
  "calls (snd (guard demo_guard demo_action demo_execute JUndef demo_start)) =
     [LoadState, Evaluated demo_normalized (JObj []) (jint 20) (Some demo_allowed), ConsumeAuth (JStr ''p1'') (Some (JBool True)),
      Committed (JObj []) (JNum (jint 1)) (Some (JBool True)), Executed, Decided (allowed_record demo_action demo_parent None)]"
  using demo_trace [OF demo_standard] by simp

lemma demo_delegated_calls:
  "calls (snd (guard demo_guard demo_action demo_execute demo_input demo_start)) =
     [LoadState, CheckDelegation (revocation_request demo_delegation) (Some (JObj [(''status'', JStr ''ACTIVE'')])),
      ConsumeDelegation (JStr ''u'') (Some (JBool True)), ConsumeAuth (JStr ''p1'') (Some (JBool True)),
      Executed, Decided (allowed_record demo_action demo_parent (Some demo_delegation))]"
  using demo_trace [OF demo_delegated] by simp

section \<open>A guard without a state version\<close>

definition demo_unversioned :: "demo_ids guard_body" where
  "demo_unversioned =
     demo_guard\<lparr>g_config := (g_config demo_guard)\<lparr>gc_getState := (\<lambda>w. (Plain (JObj []), w))\<rparr>\<rparr>"

section \<open>The store is isolated\<close>

lemma demo_once: "once_store (rs_consumeAuthId (g_replayStore demo_guard)) (\<lambda>w. set (consumedAuthIds w))"
  by unfold_locales
    (auto simp: demo_guard_def demo_store_def createInMemoryReplayStore_def within_world_def
      dest: auth_store.grants_new auth_store.keeps_spent split: prod.splits)

lemma demo_normalize_keeps: "keeps_spent spent (secure_normalize demo_secure demo_context act)"
  by (auto simp: keeps_spent_def secure_normalize_def demo_secure_def demo_cell_def split: sum.split prod.split)

lemma demo_isolated: "isolated (\<lambda>w. set (consumedAuthIds w)) demo_guard"
  by (auto simp: isolated_def Let_def demo_guard_def demo_normalize_keeps)
    (auto simp: keeps_spent_def keeps_spent_async_def secure_config_def demo_secure_def template_config_def
      unresolved_config_def demo_guard_config_def with_provenance_def demo_cell_def
      demo_runtime_def state_hasher_def demo_store_def createInMemoryReplayStore_def within_world_def
      memory_consumeDelegationId_def)

lemma demo_secure_calls:
  "calls (snd (secureGuard demo_secure (Branded demo_context) act execute options demo_start)) =
     calls (snd (guard demo_guard act execute options demo_start))"
proof -
  have "demo_start\<lparr>world := pc_put (sg_cell demo_secure) None (world demo_start)\<rparr> = demo_start"
    by (simp add: demo_secure_def demo_cell_def)
  with secure_calls [OF demo_body, where p = demo_start] show ?thesis by simp
qed

lemma demo_execute_keeps: "keeps_spent spent demo_execute"
  by (simp add: keeps_spent_def demo_execute_def)

end
