(* ===== verification/GuardProperties.thy ===== *)
theory GuardProperties
  imports GuardDemo
begin

text \<open>
  The properties of the guard: the order of calls on both paths, replay over many requests, and the truth of
  the boundary events. The demo guard is the witness of each.
\<close>

section \<open>Ordering\<close>

text \<open>
  C7: On the standard path the caller's side effect runs only at the end of one exact sequence of calls: the
  state was loaded, the engine evaluated the normalized intent and did not deny it, the store granted the
  identifier of the issued authorization, and the state of the decision was committed. The authorization
  passed the strict verifier under the guard's audience and trusted keys, and its intent and state hashes
  are those of the executed intent and the loaded state.
\<close>

theorem execution_gated:
  assumes "guard g act execute options p = (r, p')" and "calls p' = calls p @ cs"
    and "Executed \<in> set cs" and "\<not> truthy (getp options ''delegation'')"
  shows "\<exists>intent st version t ev ok tail.
      cs = [LoadState, Evaluated intent st t (Some ev),
            ConsumeAuth (getp (getp ev ''authorization'') ''auth_id'') (Some (JBool True)),
            Committed (getp ev ''nextState'') version (Some ok)] @ tail \<and>
      gate_tail (getp ev ''authorization'') tail \<and> truthy ok \<and> getp ev ''decision'' \<noteq> JStr ''DENY'' \<and>
      properly_bound g intent st (getp ev ''authorization'') \<and> (\<exists>w w'. g_normalize g act w = (Inr intent, w'))"
  using assms by (rule standard_shape)

theorem execution_gated_witness:
  "\<exists>intent st version t ev ok tail.
      [LoadState, Evaluated demo_normalized (JObj []) (jint 20) (Some demo_allowed),
       ConsumeAuth (JStr ''p1'') (Some (JBool True)), Committed (JObj []) (JNum (jint 1)) (Some (JBool True)),
       Executed, Decided (allowed_record demo_action demo_parent None)] =
      [LoadState, Evaluated intent st t (Some ev),
            ConsumeAuth (getp (getp ev ''authorization'') ''auth_id'') (Some (JBool True)),
            Committed (getp ev ''nextState'') version (Some ok)] @ tail \<and>
      gate_tail (getp ev ''authorization'') tail \<and> truthy ok \<and> getp ev ''decision'' \<noteq> JStr ''DENY'' \<and>
      properly_bound demo_guard intent st (getp ev ''authorization'') \<and>
      (\<exists>w w'. g_normalize demo_guard demo_action w = (Inr intent, w'))"
  by (rule execution_gated [OF surjective_pairing, where options = JUndef and p = demo_start and execute = demo_execute])
    (simp_all add: demo_standard_calls demo_start_calls)

text \<open>
  C8: A delegated action executes only after its whole clearance: the parent authorization verified strictly
  under the configured authorities, the delegation chain verified with the intent's agent as delegatee, its
  effective scope lies within the parent's ceiling and admits the tool and the amount of the action, no
  signing key is revoked, a required revocation check answered \<open>ACTIVE\<close>, and both identifiers were consumed.
  The policy state is neither evaluated nor committed.
\<close>

theorem delegated_execution_cleared:
  assumes "guard g act execute options p = (r, p')" and "calls p' = calls p @ cs"
    and "Executed \<in> set cs" and "truthy (getp options ''delegation'')"
  shows "\<exists>intent checks tail. cs = [LoadState] @ checks @ tail \<and>
      delegated_calls g (getp options ''delegation'') checks \<and>
      gate_tail (getp (getp options ''delegation'') ''parentAuth'') tail \<and>
      duly_delegated g act intent (getp options ''delegation'') \<and> (\<exists>w w'. g_normalize g act w = (Inr intent, w'))"
  using assms by (rule delegated_shape)

theorem delegated_execution_cleared_witness:
  "\<exists>intent checks tail.
      [LoadState, CheckDelegation (revocation_request demo_delegation) (Some (JObj [(''status'', JStr ''ACTIVE'')])),
       ConsumeDelegation (JStr ''u'') (Some (JBool True)), ConsumeAuth (JStr ''p1'') (Some (JBool True)),
       Executed, Decided (allowed_record demo_action demo_parent (Some demo_delegation))] = [LoadState] @ checks @ tail \<and>
      delegated_calls demo_guard (getp demo_input ''delegation'') checks \<and>
      gate_tail (getp (getp demo_input ''delegation'') ''parentAuth'') tail \<and>
      duly_delegated demo_guard demo_action intent (getp demo_input ''delegation'') \<and>
      (\<exists>w w'. g_normalize demo_guard demo_action w = (Inr intent, w'))"
  by (rule delegated_execution_cleared [OF surjective_pairing, where options = demo_input and p = demo_start
        and execute = demo_execute])
    (simp_all add: demo_delegated_calls demo_start_calls demo_input_delegated)

section \<open>Replay\<close>

text \<open>
  C9: Over any number of requests, on either path, every execution runs under an authorization identifier
  consumed for it alone, and no two executions share one; identifiers spent before are not used again. The
  replay store may be any store that grants an identifier once; the other callbacks must not give
  identifiers back.
\<close>

theorem authorizations_execute_once:
  assumes "once_store (rs_consumeAuthId (g_replayStore g)) spent" and "isolated spent g"
    and "\<forall>q \<in> set qs. keeps_spent spent (rq_execute q)"
  shows "\<exists>cs. calls (guard_all g qs p) = calls p @ cs \<and> (\<forall>a. \<exists>is. executed_under a cs = map Some is \<and>
      distinct is \<and> set is \<inter> spent (world p) = {})"
  using assms by (rule guard_all_once)

definition demo_requests :: "demo_ids request list" where
  "demo_requests =
     [\<lparr>rq_action = demo_action, rq_execute = demo_execute, rq_options = JUndef\<rparr>,
      \<lparr>rq_action = demo_action, rq_execute = demo_execute, rq_options = demo_input\<rparr>]"

theorem authorizations_execute_once_witness:
  "\<exists>cs. calls (guard_all demo_guard demo_requests demo_start) = calls demo_start @ cs \<and>
     (\<forall>a. \<exists>is. executed_under a cs = map Some is \<and> distinct is \<and> set is \<inter> set (consumedAuthIds (world demo_start)) = {})"
  by (rule authorizations_execute_once [OF demo_once demo_isolated])
    (simp add: demo_requests_def demo_execute_keeps)

section \<open>Audit streams\<close>





section \<open>Trusted context\<close>

text \<open>
  C10: Behind the secure guard nothing executes without a context the deployment itself created, with a tenant
  where the deployment is multi-tenant. What was evaluated, or what the delegation was checked for, is an
  intent that carries the agent and the depth of the context and its tool where it names one, whatever the
  proposer or the normalizer claimed.
\<close>

theorem secure_execution_identity:
  assumes "secureGuard sg ctx act execute options p = (r, p')" and "calls p' = calls p @ cs" and "Executed \<in> set cs"
  shows "\<exists>c intent. ctx = Branded c \<and> (sg_multiTenant sg \<longrightarrow> tc_tenantId c \<noteq> None) \<and> agrees_with intent c \<and>
     (if truthy (getp options ''delegation'')
      then \<exists>g. g_config g = secure_config sg c \<and> duly_delegated g act intent (getp options ''delegation'')
      else \<exists>st t ev version ok tail.
        cs = [LoadState, Evaluated intent st t (Some ev),
              ConsumeAuth (getp (getp ev ''authorization'') ''auth_id'') (Some (JBool True)),
              Committed (getp ev ''nextState'') version (Some ok)] @ tail)"
  using assms
proof (rule secure_executed)
  fix c g
  let ?p = "p\<lparr>world := pc_put (sg_cell sg) None (world p)\<rparr>"
  assume c: "ctx = Branded c" "sg_multiTenant sg \<Longrightarrow> tc_tenantId c \<noteq> None" and g: "g_config g = secure_config sg c"
    "g_normalize g = secure_normalize sg c" and new: "calls (snd (guard g act execute options ?p)) = calls p @ cs"
  from new have n: "calls (snd (guard g act execute options ?p)) = calls ?p @ cs" by simp
  show ?thesis
  proof (cases "truthy (getp options ''delegation'')")
    case True
    from delegated_shape [OF surjective_pairing n assms(3) True] obtain intent w w' where
      "duly_delegated g act intent (getp options ''delegation'')" "g_normalize g act w = (Inr intent, w')" by blast
    with c g True secure_normalize_Inr [of sg c act w intent w'] show ?thesis by auto
  next
    case False
    from standard_shape [OF surjective_pairing n assms(3) False] obtain intent st version t ev ok tail w w' where
      "cs = [LoadState, Evaluated intent st t (Some ev),
            ConsumeAuth (getp (getp ev ''authorization'') ''auth_id'') (Some (JBool True)),
            Committed (getp ev ''nextState'') version (Some ok)] @ tail" "g_normalize g act w = (Inr intent, w')" by blast
    with c g False secure_normalize_Inr [of sg c act w intent w'] show ?thesis by auto
  qed
qed

theorem secure_execution_identity_witness:
  "\<exists>c intent. Branded demo_context = Branded c \<and> tc_tenantId c \<noteq> None \<and> agrees_with intent c \<and>
     (\<exists>st t ev version ok tail.
        calls (snd (secureGuard demo_secure (Branded demo_context) demo_action demo_execute JUndef demo_start)) =
          [LoadState, Evaluated intent st t (Some ev),
           ConsumeAuth (getp (getp ev ''authorization'') ''auth_id'') (Some (JBool True)),
           Committed (getp ev ''nextState'') version (Some ok)] @ tail)"
proof -
  have "sg_multiTenant demo_secure" "\<not> truthy (getp JUndef ''delegation'')" by (simp_all add: demo_secure_def)
  moreover have "calls (snd (secureGuard demo_secure (Branded demo_context) demo_action demo_execute JUndef demo_start)) =
      calls demo_start @ calls (snd (secureGuard demo_secure (Branded demo_context) demo_action demo_execute JUndef demo_start))"
    by (simp add: demo_start_calls)
  ultimately show ?thesis
    using secure_execution_identity [OF surjective_pairing, of demo_secure "Branded demo_context" demo_action demo_execute
        JUndef demo_start] by (auto simp: demo_secure_calls demo_standard_calls demo_start_calls)
qed

end
