(* ===== verification/Gateway.thy ===== *)
theory Gateway
  imports DelegatedRequest
begin

text \<open>
  The PEP gateway of \<open>gateway.ts\<close>: an executor that dispatches an action to a protected upstream only under a
  verified, unspent authorization for exactly this action, and reports one of three outcomes; the token check
  of the upstream; the two HTTP handlers. Network I/O (\<open>createHttpUpstreamExecutor\<close>, the servers' sockets) is
  outside: the upstream is a parameter, and a handler maps a request to a status and a text.
\<close>

section \<open>Results\<close>

datatype outcome = NOT_DISPATCHED | EXECUTED | INDETERMINATE

fun outcome_str :: "outcome \<Rightarrow> string" where
  "outcome_str NOT_DISPATCHED = ''NOT_DISPATCHED''"
| "outcome_str EXECUTED = ''EXECUTED''"
| "outcome_str INDETERMINATE = ''INDETERMINATE''"

text \<open>\<open>pr_executed\<close> is \<open>None\<close> for \<open>null\<close>; \<open>pr_extra\<close> are the members present for some outcomes only.\<close>

record pep_result =
  pr_status :: nat
  pr_upstreamCalled :: bool
  pr_ok :: bool
  pr_decision :: string
  pr_outcome :: outcome
  pr_executed :: "bool option"
  pr_reason :: "string option"
  pr_extra :: "(string \<times> jsval) list"

definition gateway_deny :: "nat \<Rightarrow> string \<Rightarrow> pep_result" where
  "gateway_deny s why =
     \<lparr>pr_status = s, pr_upstreamCalled = False, pr_ok = False, pr_decision = ''DENY'', pr_outcome = NOT_DISPATCHED,
      pr_executed = Some False, pr_reason = Some why, pr_extra = []\<rparr>"

definition response_body :: "pep_result \<Rightarrow> jsval" where
  "response_body r =
     JObj ([(''ok'', JBool (pr_ok r)), (''decision'', JStr (pr_decision r)), (''outcome'', JStr (outcome_str (pr_outcome r))),
            (''executed'', case pr_executed r of Some b \<Rightarrow> JBool b | None \<Rightarrow> JNull)]
       @ (case pr_reason r of Some why \<Rightarrow> [(''reason'', JStr why)] | None \<Rightarrow> []) @ pr_extra r)"

section \<open>The upstream\<close>

text \<open>A dispatched call settles after some milliseconds, or never.\<close>

datatype dispatched = Settles jsnum "(guard_error \<times> origin) + jsval" | Pending

datatype gateway_call =
    Consumed jsval "jsval option"
  | Dispatched jsval "(string \<times> string) list"

definition defaultUpstreamSuccess :: "jsval \<Rightarrow> (guard_error \<times> origin) + bool" where
  "defaultUpstreamSuccess upstream =
     (let s = getp upstream ''status''
      in Inr (v_integer s \<and> \<not> js_lt s (JNum (jint 200)) \<and> \<not> js_lt (JNum (jint 299)) s))"

definition upstream_timeout :: "guard_error \<times> origin" where
  "upstream_timeout = (Foreign (Thrown ''UPSTREAM_TIMEOUT''), Fresh)"

text \<open>\<open>withTimeout\<close>; \<open>None\<close> is a promise that never settles. A timer and an answer due together: the timer fires first.\<close>

definition withTimeout :: "jsnum \<Rightarrow> dispatched \<Rightarrow> ((guard_error \<times> origin) + jsval) option" where
  "withTimeout timeoutMs d =
     (if \<not> is_finite timeoutMs \<or> num_le timeoutMs (jint 0)
      then (case d of Settles _ r \<Rightarrow> Some r | Pending \<Rightarrow> None)
      else (case d of
          Settles ms r \<Rightarrow> Some (if num_lt ms timeoutMs then r else Inl upstream_timeout)
        | Pending \<Rightarrow> Some (Inl upstream_timeout)))"

section \<open>Configuration\<close>

record 'w gateway_options =
  go_expectedAudience :: string
  go_trustedKeySets :: "'w \<Rightarrow> keyset list"
  go_internalExecutorToken :: string
  go_executeUpstream :: "jsval \<Rightarrow> (string \<times> string) list \<Rightarrow> 'w \<Rightarrow> dispatched \<times> 'w"
  go_authorities :: jsval
  go_replay :: "'w replay_config"
  go_requireExplicitReplayProtection :: jsval
  go_now :: "('w \<Rightarrow> jsnum \<times> 'w) option"
  go_timeoutMs :: "jsnum option"
  go_hashAction :: "(jsval \<Rightarrow> (guard_error \<times> origin) + jsval) option"
  go_isUpstreamSuccess :: "(jsval \<Rightarrow> (guard_error \<times> origin) + bool) option"

record 'w gateway =
  gw_host :: host
  gw_options :: "'w gateway_options"
  gw_authorities :: "authorization_authority list"
  gw_store :: "'w replay_store"
  gw_now :: "'w \<Rightarrow> jsnum \<times> 'w"
  gw_hashAction :: "jsval \<Rightarrow> (guard_error \<times> origin) + jsval"
  gw_timeoutMs :: jsnum
  gw_isUpstreamSuccess :: "jsval \<Rightarrow> (guard_error \<times> origin) + bool"

definition plain_error :: "string \<Rightarrow> guard_error + 'a" where
  "plain_error m = Inl (Foreign (Thrown m))"

definition requireText :: "string \<Rightarrow> string \<Rightarrow> guard_error + unit" where
  "requireText v name = (if v = [] then plain_error (name @ '' is required'') else Inr ())"

definition authority_entry :: "jsval \<Rightarrow> guard_error + authorization_authority" where
  "authority_entry e =
     (case (if is_plain e then (getp e ''issuer'', getp e ''policyId'') else (JUndef, JUndef)) of
        (JStr (c # i), JStr (c' # q)) \<Rightarrow> Inr \<lparr>aa_issuer = c # i, aa_policyId = c' # q\<rparr>
      | _ \<Rightarrow> plain_error
          ''trustedAuthorizationAuthorities entries must be { issuer: string, policyId: string } with non-empty values.'')"

definition resolveTrustedAuthorizationAuthorities :: "jsval \<Rightarrow> guard_error + authorization_authority list" where
  "resolveTrustedAuthorizationAuthorities v =
     (if \<not> is_array v
      then plain_error
             (''trustedAuthorizationAuthorities is required: the gateway accepts authorizations from untrusted ''
              @ ''request input and cannot infer which issuer is authorized for which policy_id. ''
              @ ''An absent authority list is not an unconstrained mode.'')
      else case snapshotPlainData (Some MAX_DEPTH) ''trustedAuthorizationAuthorities'' v of
        Inl m \<Rightarrow> plain_error (''trustedAuthorizationAuthorities must be a plain array of plain { issuer, policyId } objects: '' @ m)
      | Inr (JArr es) \<Rightarrow> mapE authority_entry es
      | Inr _ \<Rightarrow> Inr [])"

definition createPepGatewayExecutor ::
  "host \<Rightarrow> ('w \<Rightarrow> jsnum \<times> 'w) \<Rightarrow> 'w replay_store \<Rightarrow> 'w gateway_options \<Rightarrow> 'w \<Rightarrow> guard_error + 'w gateway" where
  "createPepGatewayExecutor h clock local c w =
     bindE (requireText (go_expectedAudience c) ''expectedAudience'') (\<lambda>_.
     bindE (requireText (go_internalExecutorToken c) ''internalExecutorToken'') (\<lambda>_.
     if go_trustedKeySets c w = [] then plain_error ''trustedKeySets are required''
     else bindE (resolveTrustedAuthorizationAuthorities (go_authorities c)) (\<lambda>authorities.
          bindE (strictFromConfig (go_requireExplicitReplayProtection c)) (\<lambda>strict.
          bindE (resolveReplayProtection local (go_replay c) strict) (\<lambda>rr.
            Inr \<lparr>gw_host = h, gw_options = c, gw_authorities = authorities, gw_store = rr_store rr,
                 gw_now = (case go_now c of Some f \<Rightarrow> f | None \<Rightarrow> clock),
                 gw_hashAction = (case go_hashAction c of Some f \<Rightarrow> f
                   | None \<Rightarrow> (\<lambda>v. case sha256HexFromJson h v of Inl x \<Rightarrow> Inl (Foreign x, Fresh) | Inr d \<Rightarrow> Inr (JStr d))),
                 gw_timeoutMs = (case go_timeoutMs c of Some t \<Rightarrow> t | None \<Rightarrow> jint 30000),
                 gw_isUpstreamSuccess = (case go_isUpstreamSuccess c of Some f \<Rightarrow> f | None \<Rightarrow> defaultUpstreamSuccess)\<rparr>)))))"

section \<open>A request\<close>

record 'w gateway_state =
  gs_world :: 'w
  gs_calls :: "gateway_call list"

fun mutableCopyOfSnapshot :: "jsval \<Rightarrow> jsval" where
  "mutableCopyOfSnapshot (JArr xs) = JArr (map mutableCopyOfSnapshot xs)"
| "mutableCopyOfSnapshot (JObj kvs) = JObj (map (\<lambda>(k, v). (k, mutableCopyOfSnapshot v)) kvs)"
| "mutableCopyOfSnapshot v = v"

text \<open>The copy is the value.\<close>

lemma mutableCopy_same [simp]: "mutableCopyOfSnapshot v = v"
proof (induction v rule: mutableCopyOfSnapshot.induct)
  case (1 xs)
  then show ?case by (simp add: map_idI)
next
  case (2 kvs)
  then have "map (\<lambda>(k, v). (k, mutableCopyOfSnapshot v)) kvs = kvs" by (intro map_idI) auto
  then show ?case by simp
qed simp_all

definition INTERNAL_EXECUTOR_TOKEN_HEADER :: string where
  "INTERNAL_EXECUTOR_TOKEN_HEADER = ''x-internal-executor-token''"

text \<open>The checks before any store or upstream is touched: a refusal, or the verified request.\<close>

record verified_request =
  vq_action :: jsval
  vq_authorization :: jsval
  vq_intentHash :: jsval

definition request_parts :: "jsval \<Rightarrow> pep_result + jsval \<times> jsval" where
  "request_parts inp =
     (if \<not> is_plain inp then Inl (gateway_deny 403 ''INVALID_REQUEST'')
      else case snapshotPlainData None ''request'' inp of
        Inl m \<Rightarrow> Inl (gateway_deny 403 (''INVALID_REQUEST_INPUT:'' @ m))
      | Inr body \<Rightarrow>
          if getp body ''action'' = JUndef \<or> \<not> truthy (getp body ''authorization'')
          then Inl (gateway_deny 403 ''INVALID_REQUEST'')
          else Inr (getp body ''action'', getp body ''authorization''))"

definition gateway_options_at :: "'w gateway \<Rightarrow> jsnum \<Rightarrow> 'w \<Rightarrow> verify_auth_opts" where
  "gateway_options_at g now w =
     strict_options (go_expectedAudience (gw_options g)) (Some (gw_authorities g)) now (go_trustedKeySets (gw_options g) w)"

definition verify_request :: "'w gateway \<Rightarrow> jsval \<Rightarrow> jsval \<Rightarrow> 'w \<Rightarrow> exn + pep_result + verified_request" where
  "verify_request g act auth w =
     (case gw_hashAction g act of
        Inl x \<Rightarrow> Inr (Inl (gateway_deny 403 (''ACTION_CANONICALIZATION_FAILED:'' @ error_message (fst x))))
      | Inr d \<Rightarrow>
          (let (now, w') = gw_now g w
           in bindE (verifyAuthorization (gw_host g) now (gateway_options_at g now w') auth) (\<lambda>r.
                if \<not> vr_ok r
                then Inr (Inl (gateway_deny 403 (if codes_of r = [] then ''AUTHORIZATION_INVALID'' else commas (codes_of r))))
                else if getp auth ''intent_hash'' \<noteq> d then Inr (Inl (gateway_deny 403 ''INTENT_HASH_MISMATCH''))
                else Inr (Inr \<lparr>vq_action = act, vq_authorization = auth, vq_intentHash = d\<rparr>))))"

definition after_clock :: "'w gateway \<Rightarrow> jsval \<Rightarrow> 'w gateway_state \<Rightarrow> 'w gateway_state" where
  "after_clock g act s = (case gw_hashAction g act of Inl _ \<Rightarrow> s | Inr _ \<Rightarrow> s\<lparr>gs_world := snd (gw_now g (gs_world s))\<rparr>)"

text \<open>The consumption of the identifier: \<open>None\<close> if it was granted.\<close>

definition consume_request :: "'w gateway \<Rightarrow> jsval \<Rightarrow> 'w gateway_state \<Rightarrow> pep_result option \<times> 'w gateway_state" where
  "consume_request g auth s =
     (let (r, w) = rs_consumeAuthId (gw_store g) (getp auth ''auth_id'') (getp auth ''expiry'') (gs_world s);
          s' = \<lparr>gs_world = w, gs_calls = gs_calls s @ [Consumed (getp auth ''auth_id'') (case r of Inr v \<Rightarrow> Some v | Inl _ \<Rightarrow> None)]\<rparr>
      in case r of
           Inl x \<Rightarrow> (Some (gateway_deny 403 (''REPLAY_STORE_UNAVAILABLE:'' @ error_message (fst x))), s')
         | Inr v \<Rightarrow>
             if \<not> is_bool v then (Some (gateway_deny 403 ''REPLAY_STORE_UNAVAILABLE:INVALID_RESULT''), s')
             else if v \<noteq> JBool True then (Some (gateway_deny 403 ''AUTH_REPLAY''), s')
             else (None, s'))"

text \<open>The outcome of a dispatched request; whatever happens from here on, the gate was open.\<close>

definition dispatched_result ::
  "nat \<Rightarrow> outcome \<Rightarrow> string option \<Rightarrow> verified_request \<Rightarrow> (string \<times> jsval) list \<Rightarrow> pep_result" where
  "dispatched_result s out why q extra =
     \<lparr>pr_status = s, pr_upstreamCalled = True, pr_ok = (out = EXECUTED), pr_decision = ''ALLOW'', pr_outcome = out,
      pr_executed = (if out = EXECUTED then Some True else None), pr_reason = why,
      pr_extra = [(''auth_id'', getp (vq_authorization q) ''auth_id''), (''intent_hash'', vq_intentHash q)] @ extra\<rparr>"

text \<open>
  A thrown object is known by its message. The code also looks at its member \<open>code\<close>, which a thrown value of this
  model does not have; the gateway's own timer sets both. Either answer says that the outcome is in doubt.
\<close>

definition caught_result :: "verified_request \<Rightarrow> guard_error \<times> origin \<Rightarrow> pep_result" where
  "caught_result q x =
     (if snd x \<noteq> Primitive \<and> error_message (fst x) = ''UPSTREAM_TIMEOUT'' then dispatched_result 504 INDETERMINATE (Some ''UPSTREAM_TIMEOUT'') q []
      else dispatched_result 502 INDETERMINATE (Some ''UPSTREAM_ERROR'') q [(''upstream_error'', JStr (error_message (fst x)))])"

definition upstream_result :: "'w gateway \<Rightarrow> verified_request \<Rightarrow> (guard_error \<times> origin) + jsval \<Rightarrow> pep_result" where
  "upstream_result g q r =
     (case r of
        Inl x \<Rightarrow> caught_result q x
      | Inr upstream \<Rightarrow>
          (case gw_isUpstreamSuccess g upstream of
             Inl x \<Rightarrow> caught_result q x
           | Inr success \<Rightarrow>
               if \<not> success
               then dispatched_result 502 INDETERMINATE (Some ''UPSTREAM_ERROR'') q
                      [(''upstream_status'', getp upstream ''status''), (''upstream_error'', getp upstream ''body'')]
               else (case propE upstream ''body'' of
                   Inl x \<Rightarrow> caught_result q (Foreign x, Fresh)
                 | Inr b \<Rightarrow> dispatched_result 200 EXECUTED None q [(''upstream_result'', b)])))"

definition dispatch :: "'w gateway \<Rightarrow> verified_request \<Rightarrow> 'w gateway_state \<Rightarrow> pep_result option \<times> 'w gateway_state" where
  "dispatch g q s =
     (let act = mutableCopyOfSnapshot (vq_action q);
          headers = [(INTERNAL_EXECUTOR_TOKEN_HEADER, go_internalExecutorToken (gw_options g))];
          (d, w) = go_executeUpstream (gw_options g) act headers (gs_world s)
      in (map_option (upstream_result g q) (withTimeout (gw_timeoutMs g) d),
          \<lparr>gs_world = w, gs_calls = gs_calls s @ [Dispatched act headers]\<rparr>))"

text \<open>\<open>executeThroughPep\<close>: an exception, or a result; no result is a request that never returns.\<close>

definition executeThroughPep :: "'w gateway \<Rightarrow> jsval \<Rightarrow> 'w gateway_state \<Rightarrow> (exn + pep_result) option \<times> 'w gateway_state" where
  "executeThroughPep g inp s =
     (case request_parts inp of
        Inl r \<Rightarrow> (Some (Inr r), s)
      | Inr (act, auth) \<Rightarrow>
          (case verify_request g act auth (gs_world s) of
             Inl x \<Rightarrow> (Some (Inl x), after_clock g act s)
           | Inr (Inl r) \<Rightarrow> (Some (Inr r), after_clock g act s)
           | Inr (Inr q) \<Rightarrow>
               (case consume_request g auth (after_clock g act s) of
                  (Some r, s') \<Rightarrow> (Some (Inr r), s')
                | (None, s') \<Rightarrow> (case dispatch g q s' of (r, s'') \<Rightarrow> (map_option Inr r, s'')))))"

section \<open>The protected upstream\<close>

definition headerValue :: "jsval \<Rightarrow> string \<Rightarrow> jsval" where
  "headerValue headers name =
     (case getp headers (lower_ascii name) of
        JArr [v] \<Rightarrow> v
      | JArr _ \<Rightarrow> JUndef
      | raw \<Rightarrow> raw)"

definition hasValidInternalExecutorToken :: "jsval \<Rightarrow> string \<Rightarrow> guard_error + bool" where
  "hasValidInternalExecutorToken headers expected =
     bindE (requireText expected ''expectedToken'') (\<lambda>_.
       Inr (headerValue headers INTERNAL_EXECUTOR_TOKEN_HEADER = JStr expected))"

record protected_result =
  pu_status :: nat
  pu_executed :: bool
  pu_body :: jsval

definition failed_body :: "jsval \<Rightarrow> jsval" where
  "failed_body e = JObj [(''ok'', JBool False), (''executed'', JBool False), (''error'', e)]"

definition protectUpstreamExecution ::
  "string \<Rightarrow> (jsval \<Rightarrow> ('w, jsval) callback) \<Rightarrow> jsval \<Rightarrow> jsval \<Rightarrow> 'w \<Rightarrow> (guard_error + protected_result) \<times> 'w" where
  "protectUpstreamExecution expected execute body headers w =
     (case hasValidInternalExecutorToken headers expected of
        Inl x \<Rightarrow> (Inl x, w)
      | Inr accepted \<Rightarrow>
          if \<not> accepted
          then (Inr \<lparr>pu_status = 403, pu_executed = False,
                     pu_body = failed_body (JStr ''missing or invalid internal executor token'')\<rparr>, w)
          else (case execute body w of
              (Inr v, w') \<Rightarrow> (Inr \<lparr>pu_status = 200, pu_executed = True, pu_body = v\<rparr>, w')
            | (Inl x, w') \<Rightarrow> (Inr \<lparr>pu_status = 500, pu_executed = False,
                                 pu_body = failed_body (JStr (error_message (fst x)))\<rparr>, w')))"

section \<open>The HTTP handlers\<close>

record http_request =
  hr_method :: string
  hr_url :: string
  hr_headers :: jsval
  hr_body :: "string option"  \<comment> \<open>\<open>None\<close>: reading the body failed\<close>

datatype parsed = Parsed jsval | BadJson | Unread

definition readJson :: "string option \<Rightarrow> parsed" where
  "readJson raw =
     (case raw of
        None \<Rightarrow> Unread
      | Some t \<Rightarrow> if trim t = [] then Parsed (JObj []) else (case json_parse t of Inl _ \<Rightarrow> BadJson | Inr v \<Rightarrow> Parsed v))"

definition health :: "string \<Rightarrow> jsval" where
  "health route = JObj [(''ok'', JBool True), (''route'', JStr route), (''status'', JStr ''healthy'')]"

definition not_found :: jsval where
  "not_found = JObj [(''ok'', JBool False), (''error'', JStr ''not found'')]"

definition undispatched_body :: "string \<Rightarrow> jsval" where
  "undispatched_body why = response_body (gateway_deny 403 why)"

definition unknown_body :: jsval where
  "unknown_body =
     JObj [(''ok'', JBool False), (''decision'', JStr ''UNKNOWN''), (''outcome'', JStr ''INDETERMINATE''),
           (''executed'', JNull), (''reason'', JStr ''GATEWAY_ERROR'')]"

text \<open>\<open>sendJson\<close> of a result fails where \<open>JSON.stringify\<close> throws; the handler then answers with the backstop.\<close>

definition gateway_handler ::
  "'w gateway \<Rightarrow> http_request \<Rightarrow> 'w gateway_state \<Rightarrow> (nat \<times> jsval) option \<times> 'w gateway_state" where
  "gateway_handler g q s =
     (if hr_method q = ''GET'' \<and> hr_url q = ''/healthz'' then (Some (200, health ''gateway''), s)
      else if hr_method q \<noteq> ''POST'' \<or> hr_url q \<noteq> ''/execute'' then (Some (404, not_found), s)
      else case readJson (hr_body q) of
        BadJson \<Rightarrow> (Some (403, undispatched_body ''INVALID_JSON''), s)
      | Unread \<Rightarrow> (Some (400, undispatched_body ''REQUEST_READ_ERROR''), s)
      | Parsed body \<Rightarrow>
          (case executeThroughPep g body s of
             (None, s') \<Rightarrow> (None, s')
           | (Some (Inl _), s') \<Rightarrow> (Some (500, unknown_body), s')
           | (Some (Inr r), s') \<Rightarrow>
               (Some (case json_stringify (gw_host g) (response_body r) of
                  Inl _ \<Rightarrow> (500, unknown_body) | Inr _ \<Rightarrow> (pr_status r, response_body r)), s')))"

definition upstream_error_body :: "string \<Rightarrow> jsval" where
  "upstream_error_body m = failed_body (JStr m)"

definition protected_handler ::
  "host \<Rightarrow> string \<Rightarrow> string \<Rightarrow> (jsval \<Rightarrow> ('w, jsval) callback) \<Rightarrow> http_request \<Rightarrow> 'w \<Rightarrow> (nat \<times> jsval) \<times> 'w" where
  "protected_handler h route expected execute q w =
     (if hr_method q = ''GET'' \<and> hr_url q = ''/healthz'' then ((200, health ''upstream''), w)
      else if hr_method q \<noteq> ''POST'' \<or> hr_url q \<noteq> route then ((404, not_found), w)
      else case readJson (hr_body q) of
        BadJson \<Rightarrow> ((500, upstream_error_body ''invalid JSON''), w)
      | Unread \<Rightarrow> ((500, upstream_error_body ''upstream error''), w)
      | Parsed body \<Rightarrow>
          (case protectUpstreamExecution expected execute body (hr_headers q) w of
             (Inl _, w') \<Rightarrow> ((500, upstream_error_body ''upstream error''), w')
           | (Inr r, w') \<Rightarrow>
               (case json_stringify h (pu_body r) of
                  Inl _ \<Rightarrow> ((500, upstream_error_body ''upstream error''), w')
                | Inr _ \<Rightarrow> ((pu_status r, pu_body r), w'))))"

end
