(* ===== verification/GatewayProperties.thy ===== *)
theory GatewayProperties
  imports Gateway GuardDemo
begin

text \<open>
  The properties of the gateway: what a dispatched action went through, and that the answer of the gateway
  never claims more than it knows about the upstream.
\<close>

section \<open>A deployment\<close>

text \<open>A gateway over the built-in store whose upstream answers after five milliseconds, and one POST request.\<close>

definition demo_request :: jsval where
  "demo_request = JObj [(''action'', demo_action), (''authorization'', demo_parent)]"

definition demo_http :: http_request where
  "demo_http =
     \<lparr>hr_method = ''POST'', hr_url = ''/execute'', hr_headers = JObj [],
      hr_body = Some (''{\"action\":{\"name\":\"x\",\"args\":{}},\"authorization\":{\"auth_id\":\"p1\",\"issuer\":\"a\",''
        @ ''\"audience\":\"a\",\"intent_hash\":\"'' @ demo_hash @ ''\",\"state_hash\":\"s\",\"policy_id\":\"p\",''
        @ ''\"decision\":\"ALLOW\",\"issued_at\":12,\"expiry\":72,\"alg\":\"Ed25519\",\"kid\":\"k\",\"signature\":''
        @ ''\"c3Nzc3Nzc3Nzc3Nzc3Nzc3Nzc3Nzc3Nzc3Nzc3Nzc3Nzc3Nzc3Nzc3Nzc3Nzc3Nzc3Nzc3Nzc3Nzc3Nzc3Nzcw==\"}}'')\<rparr>"

lemma demo_http_body: "readJson (hr_body demo_http) = Parsed demo_request"
  by code_simp

lemma demo_request_plain: "snapshotPlainData None ''request'' demo_request = Inr demo_request"
  by code_simp

lemma demo_action_hash: "sha256HexFromJson demo_host demo_action = Inr demo_hash"
  by code_simp

definition demo_gateway_options :: "demo_ids gateway_options" where
  "demo_gateway_options =
     \<lparr>go_expectedAudience = ''a'', go_trustedKeySets = (\<lambda>_. [demo_keys]), go_internalExecutorToken = ''t'',
      go_executeUpstream = (\<lambda>act hs w. (Settles (jint 5) (Inr (JObj [(''status'', JNum (jint 200)), (''body'', JStr ''done'')])), w)),
      go_authorities = JArr [JObj [(''issuer'', JStr ''a''), (''policyId'', JStr ''p'')]],
      go_replay = \<lparr>rc_replayProtection = Some (Posture (JStr ''process-local'') None), rc_replayStore = None\<rparr>,
      go_requireExplicitReplayProtection = JBool True, go_now = None, go_timeoutMs = None, go_hashAction = None,
      go_isUpstreamSuccess = None\<rparr>"

definition demo_gateway :: "demo_ids gateway" where
  "demo_gateway =
     \<lparr>gw_host = demo_host, gw_options = demo_gateway_options,
      gw_authorities = [\<lparr>aa_issuer = ''a'', aa_policyId = ''p''\<rparr>], gw_store = demo_store, gw_now = (\<lambda>w. (jint 20, w)),
      gw_hashAction = (\<lambda>v. case sha256HexFromJson demo_host v of Inl x \<Rightarrow> Inl (Foreign x, Fresh) | Inr d \<Rightarrow> Inr (JStr d)),
      gw_timeoutMs = jint 30000, gw_isUpstreamSuccess = defaultUpstreamSuccess\<rparr>"

lemma demo_gateway_built:
  "createPepGatewayExecutor demo_host (\<lambda>w. (jint 20, w)) demo_store demo_gateway_options w = Inr demo_gateway"
proof -
  have "resolveTrustedAuthorizationAuthorities (go_authorities demo_gateway_options) = Inr [\<lparr>aa_issuer = ''a'', aa_policyId = ''p''\<rparr>]"
    by code_simp
  then show ?thesis
    by (simp add: createPepGatewayExecutor_def requireText_def demo_gateway_options_def demo_gateway_def strictFromConfig_def
        resolveReplayProtection_def)
qed

definition demo_headers :: "(string \<times> string) list" where
  "demo_headers = [(INTERNAL_EXECUTOR_TOKEN_HEADER, ''t'')]"

definition demo_idle :: "demo_ids gateway_state" where
  "demo_idle = \<lparr>gs_world = demo_spent [] [], gs_calls = []\<rparr>"

definition demo_dispatched :: "demo_ids gateway_state" where
  "demo_dispatched =
     \<lparr>gs_world = demo_spent [JStr ''p1''] [], gs_calls = [Consumed (JStr ''p1'') (Some (JBool True)), Dispatched demo_action demo_headers]\<rparr>"

definition demo_answer :: pep_result where
  "demo_answer =
     \<lparr>pr_status = 200, pr_upstreamCalled = True, pr_ok = True, pr_decision = ''ALLOW'', pr_outcome = EXECUTED,
      pr_executed = Some True, pr_reason = None,
      pr_extra = [(''auth_id'', JStr ''p1''), (''intent_hash'', JStr demo_hash), (''upstream_result'', JStr ''done'')]\<rparr>"

lemma demo_dispatches: "executeThroughPep demo_gateway demo_request demo_idle = (Some (Inr demo_answer), demo_dispatched)"
proof -
  obtain r where "verifyAuthorization demo_host (jint 20) (strict_options ''a'' (Some [\<lparr>aa_issuer = ''a'', aa_policyId = ''p''\<rparr>])
      (jint 20) [demo_keys]) demo_parent = Inr r" "vr_ok r"
    using demo_parent_ok [of "Some [\<lparr>aa_issuer = ''a'', aa_policyId = ''p''\<rparr>]"] by blast
  moreover have "getp demo_parent ''intent_hash'' = JStr demo_hash" "getp demo_parent ''auth_id'' = JStr ''p1''"
    by (simp_all add: demo_parent_def)
  ultimately have v: "verify_request demo_gateway demo_action demo_parent w =
      Inr (Inr \<lparr>vq_action = demo_action, vq_authorization = demo_parent, vq_intentHash = JStr demo_hash\<rparr>)" for w
    by (simp add: verify_request_def demo_gateway_def demo_action_hash gateway_options_at_def demo_gateway_options_def)
  have q: "request_parts demo_request = Inr (demo_action, demo_parent)"
    using demo_request_plain by (simp add: request_parts_def) (simp add: demo_request_def demo_action_def demo_parent_def)
  have c: "consume_request demo_gateway demo_parent (after_clock demo_gateway demo_action demo_idle) =
      (None, \<lparr>gs_world = demo_spent [JStr ''p1''] [], gs_calls = [Consumed (JStr ''p1'') (Some (JBool True))]\<rparr>)"
    by (simp add: consume_request_def after_clock_def demo_gateway_def demo_action_hash demo_idle_def demo_store_def
        createInMemoryReplayStore_def within_world_def memory_consumeAuthId_def demo_spent_def)
      (simp add: demo_parent_def)
  show ?thesis
    by (simp add: executeThroughPep_def q v c)
      (simp add: dispatch_def demo_gateway_def demo_gateway_options_def withTimeout_def upstream_result_def
        defaultUpstreamSuccess_def dispatched_result_def demo_answer_def demo_dispatched_def demo_headers_def propE_def Let_def,
       simp add: demo_parent_def)
qed

section \<open>Dispatch\<close>

lemma request_parts_Inr:
  assumes "request_parts inp = Inr (act, auth)"
  shows "act = getp inp ''action''" "auth = getp inp ''authorization''" "truthy auth"
  using assms by (auto simp: request_parts_def dest: snapshot_same split: if_splits sum.splits)

text \<open>A request dispatches only after the three checks; its result is then that of the upstream.\<close>

lemma executor_cases:
  assumes "executeThroughPep g inp s = (res, s')"
  obtains (undispatched) cs where "gs_calls s' = gs_calls s @ cs" "\<And>a hs. Dispatched a hs \<notin> set cs"
      "\<And>r. res = Some (Inr r) \<Longrightarrow> \<exists>why. r = gateway_deny 403 why" "res \<noteq> None"
    | (dispatched) act auth q w s1 d w' headers where "act = getp inp ''action''" "auth = getp inp ''authorization''"
      "verify_request g act auth w = Inr (Inr q)" "vq_action q = act" "vq_authorization q = auth"
      "headers = [(INTERNAL_EXECUTOR_TOKEN_HEADER, go_internalExecutorToken (gw_options g))]"
      "go_executeUpstream (gw_options g) act headers s1 = (d, w')"
      "res = map_option (Inr \<circ> upstream_result g q) (withTimeout (gw_timeoutMs g) d)"
      "gs_calls s' = gs_calls s @ [Consumed (getp auth ''auth_id'') (Some (JBool True)), Dispatched act headers]"
proof -
  have deny: "\<exists>why. r = gateway_deny 403 why" if "request_parts inp = Inl r" for r
    using that by (auto simp: request_parts_def split: if_splits sum.splits)
  have deny': "\<exists>why. r = gateway_deny 403 why" if "verify_request g act auth w = Inr (Inl r)" for r act auth w
    using that by (auto simp: verify_request_def Let_def bindE_eq_Inr split: if_splits sum.splits prod.splits)
  have [simp]: "gs_calls (after_clock g act s) = gs_calls s" for act
    by (simp add: after_clock_def split: sum.split)
  show thesis
  proof (cases "request_parts inp")
    case (Inl r)
    then show thesis using assms deny by (intro undispatched [of "[]"]) (auto simp: executeThroughPep_def)
  next
    case (Inr parts)
    obtain act auth where p: "request_parts inp = Inr (act, auth)" using Inr by (cases parts) simp
    note at = request_parts_Inr [OF p]
    show thesis
    proof (cases "\<exists>q. verify_request g act auth (gs_world s) = Inr (Inr q)")
      case False
      then show thesis using assms deny' [of act auth "gs_world s"]
        by (intro undispatched [of "[]"]) (auto simp: executeThroughPep_def p split: sum.splits)
    next
      case True
      then obtain q where q: "verify_request g act auth (gs_world s) = Inr (Inr q)" ..
      then have vq: "vq_action q = act" "vq_authorization q = auth"
        by (auto simp: verify_request_def Let_def bindE_eq_Inr split: if_splits sum.splits prod.splits)
      obtain c s1 where c: "consume_request g auth (after_clock g act s) = (c, s1)" by (cases "consume_request g auth (after_clock g act s)")
      obtain x w1 where rs: "rs_consumeAuthId (gw_store g) (getp auth ''auth_id'') (getp auth ''expiry'')
          (gs_world (after_clock g act s)) = (x, w1)" by fastforce
      show thesis
      proof (cases c)
        case (Some r)
        have "\<exists>why. r = gateway_deny 403 why" "gs_calls s1 = gs_calls s @ [Consumed (getp auth ''auth_id'') (case x of Inr v \<Rightarrow> Some v | Inl _ \<Rightarrow> None)]"
          using c Some by (auto simp: consume_request_def rs Let_def split: sum.splits if_splits)
        with assms show thesis by (intro undispatched) (auto simp: executeThroughPep_def p q c Some)
      next
        case None
        obtain d w' where d: "go_executeUpstream (gw_options g) act
            [(INTERNAL_EXECUTOR_TOKEN_HEADER, go_internalExecutorToken (gw_options g))] (gs_world s1) = (d, w')" by fastforce
        have "gs_calls s1 = gs_calls s @ [Consumed (getp auth ''auth_id'') (Some (JBool True))]"
          using c None by (auto simp: consume_request_def rs Let_def split: sum.splits if_splits)
        moreover have "(case dispatch g q s1 of (r, s'') \<Rightarrow> (map_option Inr r, s'')) = (res, s')"
          using assms by (simp add: executeThroughPep_def p q c None)
        ultimately show thesis using at q vq d
          by (intro dispatched [OF at(1,2) q vq refl]) (auto simp: dispatch_def Let_def option.map_comp)
      qed
    qed
  qed
qed

lemma verify_request_Inr:
  assumes "verify_request g act auth w = Inr (Inr q)"
  obtains now w1 r where "gw_hashAction g act = Inr (getp auth ''intent_hash'')"
    "verifyAuthorization (gw_host g) now (gateway_options_at g now w1) auth = Inr r" "vr_ok r"
  using assms by (auto simp: verify_request_def Let_def bindE_eq_Inr split: if_splits sum.splits prod.splits)

lemma built_gateway:
  assumes "createPepGatewayExecutor h clock local c w0 = Inr g"
  shows "gw_host g = h" "gw_options g = c" "go_internalExecutorToken c \<noteq> []"
    "resolveTrustedAuthorizationAuthorities (go_authorities c) = Inr (gw_authorities g)"
    "go_hashAction c = None \<Longrightarrow> gw_hashAction g v = (case sha256HexFromJson h v of
        Inl x \<Rightarrow> Inl (Foreign x, Fresh) | Inr d \<Rightarrow> Inr (JStr d))"
  using assms by (auto simp: createPepGatewayExecutor_def requireText_def plain_error_def bindE_eq_Inr split: if_splits)

text \<open>
  C11: A gateway dispatches at most one call per request, and only the very action of the request, with the
  executor token, right after its store granted the identifier of the authorization of the request. That
  authorization passed the strict verifier for the audience of the gateway, under the authorities it was
  configured with, and its intent hash is the digest of the dispatched action.
\<close>

theorem dispatch_gated:
  assumes "createPepGatewayExecutor h clock local c w0 = Inr g"
    and "executeThroughPep g inp s = (res, s')" and "gs_calls s' = gs_calls s @ cs" and "Dispatched act headers \<in> set cs"
  shows "\<exists>auth authorities now w r. act = getp inp ''action'' \<and> auth = getp inp ''authorization'' \<and>
     cs = [Consumed (getp auth ''auth_id'') (Some (JBool True)), Dispatched act headers] \<and>
     headers = [(INTERNAL_EXECUTOR_TOKEN_HEADER, go_internalExecutorToken c)] \<and> go_internalExecutorToken c \<noteq> [] \<and>
     resolveTrustedAuthorizationAuthorities (go_authorities c) = Inr authorities \<and>
     verifyAuthorization h now
       (strict_options (go_expectedAudience c) (Some authorities) now (go_trustedKeySets c w)) auth = Inr r \<and> vr_ok r \<and>
     (go_hashAction c = None \<longrightarrow> (\<exists>d. sha256HexFromJson h act = Inr d \<and> getp auth ''intent_hash'' = JStr d))"
  using assms(2)
proof (cases rule: executor_cases)
  case (undispatched cs')
  with assms(3,4) show ?thesis by auto
next
  case (dispatched act' auth q w s1 d w' headers')
  note built = built_gateway [OF assms(1)]
  from dispatched(9) assms(3) have cs: "cs = [Consumed (getp auth ''auth_id'') (Some (JBool True)), Dispatched act' headers']" by simp
  with assms(4) have same: "act = act'" "headers = headers'" by simp_all
  from dispatched(3) obtain now w1 r where v: "gw_hashAction g act' = Inr (getp auth ''intent_hash'')"
    "verifyAuthorization (gw_host g) now (gateway_options_at g now w1) auth = Inr r" "vr_ok r"
    by (rule verify_request_Inr)
  have "\<exists>d. sha256HexFromJson h act = Inr d \<and> getp auth ''intent_hash'' = JStr d" if "go_hashAction c = None"
    using v(1) built(5) [OF that, of act'] by (auto simp: same split: sum.splits)
  with v dispatched(1,2,6) cs built same show ?thesis by (auto simp: gateway_options_at_def)
qed

theorem dispatch_gated_witness:
  "\<exists>authorities now w r. resolveTrustedAuthorizationAuthorities (go_authorities demo_gateway_options) = Inr authorities \<and>
     verifyAuthorization demo_host now
       (strict_options (go_expectedAudience demo_gateway_options) (Some authorities) now (go_trustedKeySets demo_gateway_options w))
       (getp demo_request ''authorization'') = Inr r \<and> vr_ok r"
proof -
  have "Dispatched demo_action demo_headers \<in> set [Consumed (JStr ''p1'') (Some (JBool True)), Dispatched demo_action demo_headers]"
    by simp
  from dispatch_gated [OF demo_gateway_built demo_dispatches _ this] show ?thesis
    by (simp add: demo_dispatched_def demo_idle_def) blast
qed

section \<open>Answers\<close>

lemma upstream_result_facts:
  "pr_decision (upstream_result g q x) = ''ALLOW''" "pr_executed (upstream_result g q x) \<noteq> Some False"
  "pr_outcome (upstream_result g q x) = (if pr_executed (upstream_result g q x) = Some True then EXECUTED else INDETERMINATE)"
  "pr_executed (upstream_result g q x) = Some True \<Longrightarrow>
     pr_status (upstream_result g q x) = 200 \<and> (\<exists>up. x = Inr up \<and> gw_isUpstreamSuccess g up = Inr True)"
  by (auto simp: upstream_result_def caught_result_def dispatched_result_def split: sum.splits if_splits)

lemma answer_fields:
  "getp (response_body r) ''executed'' = (case pr_executed r of Some b \<Rightarrow> JBool b | None \<Rightarrow> JNull)"
  "getp (response_body r) ''decision'' = JStr (pr_decision r)"
  "getp (response_body r) ''outcome'' = JStr (outcome_str (pr_outcome r))"
  by (simp_all add: response_body_def)

lemma handler_cases:
  assumes "gateway_handler g q s = (Some (st, body), s')"
  obtains "s' = s" "getp body ''executed'' \<noteq> JBool True" | "body = unknown_body"
    | inp r where "executeThroughPep g inp s = (Some (Inr r), s')" "body = response_body r" "st = pr_status r"
  using assms
  by (auto simp: gateway_handler_def health_def not_found_def undispatched_body_def answer_fields gateway_deny_def
      inherited_def object_prototype_def split: if_splits parsed.splits option.splits prod.splits sum.splits)

text \<open>
  C18: The answer of the gateway's HTTP handler never claims more than is known. An answer that says not
  executed, or denied, is given only if nothing was dispatched; an answer that says executed is a 200 whose
  upstream answered in time with what the success contract accepts; everything in between is reported as
  indeterminate.
\<close>

theorem gateway_answers_honest:
  assumes "gateway_handler g q s = (Some (st, body), s')" and "gs_calls s' = gs_calls s @ cs"
  shows "(getp body ''executed'' = JBool False \<or> getp body ''decision'' = JStr ''DENY'' \<longrightarrow>
        (\<forall>act hs. Dispatched act hs \<notin> set cs)) \<and>
     (getp body ''executed'' = JBool True \<longrightarrow> st = 200 \<and> (\<exists>act hs w d w' up. Dispatched act hs \<in> set cs \<and>
        go_executeUpstream (gw_options g) act hs w = (d, w') \<and> withTimeout (gw_timeoutMs g) d = Some (Inr up) \<and>
        gw_isUpstreamSuccess g up = Inr True)) \<and>
     ((\<exists>act hs. Dispatched act hs \<in> set cs) \<and> getp body ''executed'' \<noteq> JBool True \<longrightarrow>
        getp body ''executed'' = JNull \<and> getp body ''outcome'' = JStr ''INDETERMINATE'')"
  using assms(1)
proof (cases rule: handler_cases)
  case 1
  with assms(2) show ?thesis by simp
next
  case 2
  then show ?thesis by (simp add: unknown_body_def)
next
  case (3 inp r)
  from 3(1) show ?thesis
  proof (cases rule: executor_cases)
    case (undispatched cs')
    with assms(2) 3(2) show ?thesis by (auto simp: answer_fields gateway_deny_def)
  next
    case (dispatched act auth v w s1 d w' headers)
    from dispatched(8) obtain x where x: "withTimeout (gw_timeoutMs g) d = Some x" "r = upstream_result g v x"
      by (cases "withTimeout (gw_timeoutMs g) d") auto
    from dispatched(9) assms(2) have "Dispatched act headers \<in> set cs" by simp
    moreover have "pr_executed r = Some True \<Longrightarrow> \<exists>up. withTimeout (gw_timeoutMs g) d = Some (Inr up) \<and>
        gw_isUpstreamSuccess g up = Inr True"
      using x upstream_result_facts(4) [of g v x] by auto
    moreover note dispatched(7) x(2) 3(2,3) upstream_result_facts [of g v x]
    ultimately show ?thesis
      by (cases "pr_executed r = Some True") (blast | auto simp: answer_fields split: option.splits)+
  qed
qed

theorem gateway_answers_honest_witness:
  "\<exists>act hs w d w' up. Dispatched act hs \<in> set (gs_calls demo_dispatched) \<and>
     go_executeUpstream (gw_options demo_gateway) act hs w = (d, w') \<and>
     withTimeout (gw_timeoutMs demo_gateway) d = Some (Inr up) \<and> gw_isUpstreamSuccess demo_gateway up = Inr True"
proof -
  have "case json_stringify demo_host (response_body demo_answer) of Inr _ \<Rightarrow> True | Inl _ \<Rightarrow> False" by code_simp
  then have "gateway_handler demo_gateway demo_http demo_idle = (Some (200, response_body demo_answer), demo_dispatched)"
    by (auto simp: gateway_handler_def demo_http_body demo_dispatches split: sum.splits) (simp_all add: demo_http_def demo_gateway_def demo_answer_def)
  from gateway_answers_honest [OF this, of "gs_calls demo_dispatched"] show ?thesis
    by (simp add: demo_idle_def answer_fields) (simp add: demo_answer_def)
qed

end
