(* ===== verification/SiftCanonical.thy ===== *)
theory SiftCanonical
  imports Signatures DeepMerge
begin

text \<open>
  \<open>packages/sift/src/siftCanonical.ts\<close> and \<open>smallOrderEd25519.ts\<close>: the canonical form of the receipts of the
  Sift service, which is JSON with sorted keys and ASCII escapes, its digest, and raw Ed25519 keys. A key
  object is represented by the text of its PEM export.
\<close>

section \<open>Canonical form\<close>

function (sequential) siftCanonicalize :: "jsval \<Rightarrow> jsval res" where
  "siftCanonicalize JUndef = Inr JNull"
| "siftCanonicalize JNull = Inr JNull"
| "siftCanonicalize (JBool b) = Inr (JBool b)"
| "siftCanonicalize (JStr s) = Inr (JStr s)"
| "siftCanonicalize (JNum n) = (if is_finite n then Inr (JNum n) else Inl TypeError)"
| "siftCanonicalize (JArr xs) = bindE (mapE siftCanonicalize xs) (\<lambda>ys. Inr (JArr ys))"
| "siftCanonicalize (JObj kvs) =
     bindE (mapE (\<lambda>(k, v). bindE (siftCanonicalize v) (\<lambda>w. Inr (k, w))) (sort_key (u16_key \<circ> fst) kvs))
       (\<lambda>es. Inr (JObj es))"
| "siftCanonicalize (JBig i) = Inl TypeError"
| "siftCanonicalize JFun = Inl TypeError"
  by pat_completeness auto
termination
  by (relation "measure size") (auto dest: jsobj_size intro: size_list_estimation' simp: less_Suc_eq_le)

text \<open>
  \<open>applyEnsureAscii\<close> runs over the UTF-16 code units. A unit above \<open>0x7f\<close> is written as an escape with four
  hexadecimal digits; \<open>unit_code\<close> reads the number of a unit off its UTF-8 form.
\<close>

fun unit_code :: "string \<Rightarrow> nat" where
  "unit_code [a] = of_char a"
| "unit_code [a, b] = (of_char a mod 32) * 64 + of_char b mod 64"
| "unit_code [a, b, c] = (of_char a mod 16) * 4096 + (of_char b mod 64) * 64 + of_char c mod 64"
| "unit_code _ = 0"

definition escape_unit :: "string \<Rightarrow> string" where
  "escape_unit u =
     (let n = unit_code u
      in if 127 < n then CHR 0x5C # CHR ''u'' # map hex_char [n div 4096 mod 16, n div 256 mod 16, n div 16 mod 16, n mod 16] else u)"

definition applyEnsureAscii :: "string \<Rightarrow> string" where
  "applyEnsureAscii json = concat (map escape_unit (units json))"

definition siftCanonicalJsonBytes :: "host \<Rightarrow> jsval \<Rightarrow> string res" where
  "siftCanonicalJsonBytes h v =
     bindE (siftCanonicalize v) (\<lambda>c. bindE (json_stringify h c) (\<lambda>t.
       case t of Some s \<Rightarrow> Inr (applyEnsureAscii s) | None \<Rightarrow> Inl TypeError))"

definition siftCanonicalJsonHash :: "host \<Rightarrow> jsval \<Rightarrow> string res" where
  "siftCanonicalJsonHash h v = bindE (siftCanonicalJsonBytes h v) (\<lambda>bs. Inr (sha256 h bs))"

section \<open>Keys\<close>

text \<open>The three replacements: to the URL alphabet, without padding.\<close>

definition to_url :: "string \<Rightarrow> string" where
  "to_url s = filter (\<lambda>c. c \<noteq> CHR ''='')
     (map (\<lambda>c. if c = CHR ''+'' then CHR ''-'' else if c = CHR ''/'' then CHR ''_'' else c) s)"

definition b64uEncode :: "string \<Rightarrow> string" where
  "b64uEncode bs = to_url (to_base64 bs)"

definition b64uDecode :: "string \<Rightarrow> string" where
  "b64uDecode s = b64_decode (to_url s)"

datatype raw_key = KeyText string | KeyBytes string

definition ED25519_SPKI_PREFIX :: string where
  "ED25519_SPKI_PREFIX = [CHR 0x30, CHR 0x2A, CHR 0x30, CHR 0x05, CHR 0x06, CHR 0x03, CHR 0x2B, CHR 0x65, CHR 0x70, CHR 0x03, CHR 0x21, CHR 0x00]"

definition spki_pem :: "string \<Rightarrow> string" where
  "spki_pem der = ''-----BEGIN PUBLIC KEY-----'' @ CHR 0x0A # to_base64 der @ CHR 0x0A # ''-----END PUBLIC KEY-----'' @ [CHR 0x0A]"

definition key_bytes :: "raw_key \<Rightarrow> string" where
  "key_bytes k = (case k of KeyText s \<Rightarrow> b64uDecode s | KeyBytes bs \<Rightarrow> bs)"

definition publicKeyFromRaw :: "host \<Rightarrow> raw_key \<Rightarrow> string res" where
  "publicKeyFromRaw h k =
     (if length (key_bytes k) \<noteq> 32 then Inl TypeError
      else let pem = spki_pem (ED25519_SPKI_PREFIX @ key_bytes k)
           in bindE (wire_key h pem) (\<lambda>_. Inr pem))"

text \<open>
  The set of small-order encodings is a copy of the one of the core. A key of another type, and a key whose
  export fails, counts as small-order.
\<close>

definition isSmallOrderEd25519Key :: "host \<Rightarrow> string \<Rightarrow> bool" where
  "isSmallOrderEd25519Key h key =
     (case wire_key h key of Inr (Some hex) \<Rightarrow> hex \<in> set SMALL_ORDER_ED25519 | _ \<Rightarrow> True)"

section \<open>What is canonicalised\<close>

lemma sift_object: "is_plain v \<Longrightarrow> siftCanonicalize v = Inr w \<Longrightarrow> is_plain w"
  by (cases v) (auto simp: bindE_eq_Inr)

lemma sift_stringify_total: "siftCanonicalize v = Inr w \<Longrightarrow> \<exists>t. json_stringify h w = Inr (Some t)"
proof (induction v arbitrary: w rule: siftCanonicalize.induct)
  case (6 xs)
  then obtain ys where ys: "mapE siftCanonicalize xs = Inr ys" and w: "w = JArr ys" by (auto simp: bindE_eq_Inr)
  have "\<exists>ts. mapE (json_stringify h) ys = Inr ts"
  proof (intro mapE_total ballI)
    fix y assume "y \<in> set ys"
    with mapE_InrD2 [OF ys] obtain x where "x \<in> set xs" "siftCanonicalize x = Inr y" by blast
    with 6(1) show "\<exists>t. json_stringify h y = Inr t" by blast
  qed
  with w show ?case by auto
next
  case (7 kvs)
  then obtain es where es: "mapE (\<lambda>(k, v). bindE (siftCanonicalize v) (\<lambda>w. Inr (k, w))) (sort_key (u16_key \<circ> fst) kvs) = Inr es"
    and w: "w = JObj es" by (auto simp: bindE_eq_Inr)
  have "\<exists>ts. mapE (\<lambda>(k, v). bindE (json_stringify h v) (\<lambda>p. Inr (map_option (\<lambda>s. json_str k @ CHR '':'' # s) p))) es = Inr ts"
  proof (intro mapE_total ballI)
    fix e assume "e \<in> set es"
    with mapE_InrD2 [OF es] obtain k v x where "(k, v) \<in> set kvs" "siftCanonicalize v = Inr x" "e = (k, x)"
      by (fastforce simp: bindE_eq_Inr)
    moreover from this 7(1) have "\<exists>t. json_stringify h x = Inr (Some t)" by fastforce
    ultimately show "\<exists>t. (case e of (k, v) \<Rightarrow> bindE (json_stringify h v) (\<lambda>p. Inr (map_option (\<lambda>s. json_str k @ CHR '':'' # s) p))) = Inr t"
      by auto
  qed
  with w show ?case by auto
qed (auto split: if_splits)

lemma sift_bytes_total: "siftCanonicalize v = Inr w \<Longrightarrow> \<exists>bs. siftCanonicalJsonBytes h v = Inr bs"
  using sift_stringify_total [of v w h] by (auto simp: siftCanonicalJsonBytes_def)

end
