(* ===== verification/SiftReceipt.thy ===== *)
theory SiftReceipt
  imports SiftCanonical GuardEvents ActionIntent
begin

text \<open>
  \<open>packages/sift/src/verifyReceipt.ts\<close>: the receipts a Sift service signs for its decisions, and their
  verification with a given key or with the keys of a key store. Times are milliseconds; \<open>Date.parse\<close> is the
  parameter \<open>parse_date\<close>, and an ISO text of a time is represented by the time itself.
\<close>

section \<open>Receipts\<close>

datatype sift_decision = SIFT_ALLOW | SIFT_DENY

record sift_receipt =
  sr_receipt_version :: string
  sr_tenant_id :: string
  sr_agent_id :: string
  sr_action :: string
  sr_tool :: string
  sr_decision :: sift_decision
  sr_risk_tier :: jsnum
  sr_timestamp :: string
  sr_nonce :: string
  sr_policy_matched :: string
  sr_receipt_hash :: string
  sr_signature :: string

datatype receipt_code =
    MALFORMED_RECEIPT | UNSUPPORTED_RECEIPT_VERSION | INVALID_DECISION | DENY_DECISION | INVALID_RECEIPT_TIMESTAMP
  | STALE_RECEIPT | INVALID_RECEIPT_HASH | INVALID_SIGNATURE | UNSUPPORTED_PUBLIC_KEY | VERIFICATION_ERROR
  | MISSING_KID | REVOKED_KID | UNKNOWN_KID | JWKS_FETCH_FAILED | KRL_FETCH_FAILED | KEYSTORE_REFRESH_FAILED

record accepted_receipt =
  ar_receipt :: sift_receipt
  ar_verifiedAt :: jsnum
  ar_receiptHash :: string

type_synonym receipt_failure = "receipt_code \<times> string"

definition quoted :: "string \<Rightarrow> string" where
  "quoted s = CHR 0x27 # s @ [CHR 0x27]"

definition required_text :: "jsval \<Rightarrow> string \<Rightarrow> receipt_failure + string" where
  "required_text r field =
     (case getp r field of
        JStr (c # s) \<Rightarrow> Inr (c # s)
      | _ \<Rightarrow> Inl (MALFORMED_RECEIPT, ''Field '' @ quoted field @ '' must be a non-empty string''))"

definition receipt_fields :: "string list" where
  "receipt_fields =
     [''receipt_version'', ''tenant_id'', ''agent_id'', ''action'', ''tool'', ''timestamp'', ''nonce'',
      ''policy_matched'', ''receipt_hash'', ''signature'']"

definition field_text :: "jsval \<Rightarrow> string" where
  "field_text v = (case v of JStr s \<Rightarrow> s | _ \<Rightarrow> [])"

definition parseReceipt :: "host \<Rightarrow> jsval \<Rightarrow> receipt_failure + sift_receipt" where
  "parseReceipt h raw =
     (if \<not> is_plain raw then Inl (MALFORMED_RECEIPT, ''Receipt must be a non-null object'')
      else bindE (mapE (required_text raw) receipt_fields) (\<lambda>_.
        let d = getp raw ''decision''
        in if d \<noteq> JStr ''ALLOW'' \<and> d \<noteq> JStr ''DENY''
           then Inl (INVALID_DECISION, ''Field '' @ quoted ''decision'' @ '' must be \"ALLOW\" or \"DENY\", got: '' @ js_string h d)
           else case getp raw ''risk_tier'' of
             JNum n \<Rightarrow>
               if \<not> is_safe_integer n \<or> num_lt n (jint 0)
               then Inl (MALFORMED_RECEIPT, ''Field '' @ quoted ''risk_tier'' @ '' must be a finite non-negative integer'')
               else Inr \<lparr>sr_receipt_version = field_text (getp raw ''receipt_version''), sr_tenant_id = field_text (getp raw ''tenant_id''),
                 sr_agent_id = field_text (getp raw ''agent_id''), sr_action = field_text (getp raw ''action''),
                 sr_tool = field_text (getp raw ''tool''), sr_decision = (if d = JStr ''ALLOW'' then SIFT_ALLOW else SIFT_DENY),
                 sr_risk_tier = n, sr_timestamp = field_text (getp raw ''timestamp''), sr_nonce = field_text (getp raw ''nonce''),
                 sr_policy_matched = field_text (getp raw ''policy_matched''), sr_receipt_hash = field_text (getp raw ''receipt_hash''),
                 sr_signature = field_text (getp raw ''signature'')\<rparr>
           | _ \<Rightarrow> Inl (MALFORMED_RECEIPT, ''Field '' @ quoted ''risk_tier'' @ '' must be a finite non-negative integer'')))"

text \<open>The object without \<open>signature\<close> is what is signed; without \<open>receipt_hash\<close> too, what is hashed.\<close>

definition receipt_payload :: "sift_receipt \<Rightarrow> (string \<times> jsval) list" where
  "receipt_payload r =
     [(''receipt_version'', JStr (sr_receipt_version r)), (''tenant_id'', JStr (sr_tenant_id r)),
      (''agent_id'', JStr (sr_agent_id r)), (''action'', JStr (sr_action r)), (''tool'', JStr (sr_tool r)),
      (''decision'', JStr (case sr_decision r of SIFT_ALLOW \<Rightarrow> ''ALLOW'' | SIFT_DENY \<Rightarrow> ''DENY'')),
      (''risk_tier'', JNum (sr_risk_tier r)), (''timestamp'', JStr (sr_timestamp r)), (''nonce'', JStr (sr_nonce r)),
      (''policy_matched'', JStr (sr_policy_matched r))]"

definition signed_payload :: "sift_receipt \<Rightarrow> jsval" where
  "signed_payload r = JObj (receipt_payload r @ [(''receipt_hash'', JStr (sr_receipt_hash r))])"

definition computeReceiptHash :: "host \<Rightarrow> sift_receipt \<Rightarrow> string res" where
  "computeReceiptHash h r = siftCanonicalJsonHash h (JObj (receipt_payload r))"

definition normalizeHashHex :: "string \<Rightarrow> string" where
  "normalizeHashHex raw =
     (let lower = lower_ascii raw in if take 7 lower = ''sha256:'' then drop 7 lower else lower)"

section \<open>Verification\<close>

record receipt_options =
  ro_publicKeyRaw :: "raw_key option"
  ro_publicKeyPem :: "string option"
  ro_now :: "jsnum option"
  ro_maxAgeMs :: "jsnum option"
  ro_requireAllowDecision :: "bool option"

definition MAX_FUTURE_SKEW_MS :: jsnum where
  "MAX_FUTURE_SKEW_MS = jint 5000"

definition DEFAULT_MAX_AGE_MS :: jsnum where
  "DEFAULT_MAX_AGE_MS = jint 30000"

definition receipt_key :: "host \<Rightarrow> receipt_options \<Rightarrow> receipt_failure + string" where
  "receipt_key h opt =
     (case ro_publicKeyRaw opt of
        Some raw \<Rightarrow>
          (case publicKeyFromRaw h raw of
             Inl _ \<Rightarrow> Inl (UNSUPPORTED_PUBLIC_KEY, ''Failed to import Ed25519 public key from raw bytes'')
           | Inr key \<Rightarrow> Inr key)
      | None \<Rightarrow>
          (case ro_publicKeyPem opt of
             Some pem \<Rightarrow>
               (case wire_key h pem of
                  Inl _ \<Rightarrow> Inl (UNSUPPORTED_PUBLIC_KEY, ''Failed to parse Ed25519 public key from PEM'')
                | Inr _ \<Rightarrow> Inr pem)
           | None \<Rightarrow> Inl (UNSUPPORTED_PUBLIC_KEY, ''Either publicKeyRaw or publicKeyPem must be provided'')))"

definition is_url_char :: "char \<Rightarrow> bool" where
  "is_url_char c = (c \<in> set b64url_alphabet)"

definition check_signature :: "host \<Rightarrow> string \<Rightarrow> sift_receipt \<Rightarrow> receipt_failure + unit" where
  "check_signature h key r =
     (let sig = to_url (sr_signature r)
      in if length sig \<noteq> 86 \<or> \<not> list_all is_url_char sig
         then Inl (INVALID_SIGNATURE, ''Signature must be exactly 86 base64url characters (encoding a 64-byte Ed25519 signature)'')
         else case bindE (siftCanonicalJsonBytes h (signed_payload r)) (\<lambda>m. ed_verify h key m (b64_decode sig)) of
           Inl _ \<Rightarrow> Inl (VERIFICATION_ERROR, ''An error occurred during signature verification'')
         | Inr ok \<Rightarrow> if \<not> ok then Inl (INVALID_SIGNATURE, ''Ed25519 signature verification failed'') else Inr ())"

text \<open>The age of the receipt; a comparison with an age that is no number is false.\<close>

definition num_abs :: "jsnum \<Rightarrow> jsnum" where
  "num_abs n = (if num_lt n (jint 0) then num_neg n else n)"

definition ms_text :: "host \<Rightarrow> jsnum \<Rightarrow> string" where
  "ms_text h n = js_string h (JNum n)"

definition check_age :: "host \<Rightarrow> (string \<Rightarrow> jsnum) \<Rightarrow> jsnum \<Rightarrow> jsnum \<Rightarrow> sift_receipt \<Rightarrow> receipt_failure + unit" where
  "check_age h parse_date now maxAge r =
     (let ms = parse_date (sr_timestamp r); age = num_sub now ms
      in if \<not> is_finite ms
         then Inl (INVALID_RECEIPT_TIMESTAMP, ''Cannot parse timestamp as ISO-8601: '' @ sr_timestamp r)
         else if num_lt age (num_neg MAX_FUTURE_SKEW_MS)
         then Inl (INVALID_RECEIPT_TIMESTAMP, ''Receipt timestamp is too far in the future (delta: '' @ ms_text h (num_abs age)
                @ ''ms, max skew: '' @ ms_text h MAX_FUTURE_SKEW_MS @ ''ms)'')
         else if num_lt maxAge age
         then Inl (STALE_RECEIPT, ''Receipt is stale (age: '' @ ms_text h age @ ''ms, maxAgeMs: '' @ ms_text h maxAge @ '')'')
         else Inr ())"

definition unexpected :: "exn \<Rightarrow> receipt_failure" where
  "unexpected x = (VERIFICATION_ERROR, ''Unexpected error during verification: '' @ error_message (Foreign x))"

definition verifyReceipt ::
  "host \<Rightarrow> (string \<Rightarrow> jsnum) \<Rightarrow> jsnum \<Rightarrow> jsval \<Rightarrow> receipt_options \<Rightarrow> receipt_failure + accepted_receipt" where
  "verifyReceipt h parse_date clock raw opt =
     bindE (parseReceipt h raw) (\<lambda>r.
       if sr_receipt_version r \<noteq> ''1.0''
       then Inl (UNSUPPORTED_RECEIPT_VERSION, ''Receipt version '' @ quoted (sr_receipt_version r) @ '' is not supported'')
       else case computeReceiptHash h r of
         Inl x \<Rightarrow> Inl (unexpected x)
       | Inr d \<Rightarrow>
           if normalizeHashHex (sr_receipt_hash r) \<noteq> d
           then Inl (INVALID_RECEIPT_HASH, ''Receipt hash does not match recomputed canonical hash'')
           else bindE (receipt_key h opt) (\<lambda>key.
             if isSmallOrderEd25519Key h key
             then Inl (UNSUPPORTED_PUBLIC_KEY, ''Ed25519 public key is a small-order point and cannot be trusted'')
             else bindE (check_signature h key r) (\<lambda>_.
               if ro_requireAllowDecision opt \<noteq> Some False \<and> sr_decision r \<noteq> SIFT_ALLOW
               then Inl (DENY_DECISION, ''Receipt decision is DENY'')
               else let now = (case ro_now opt of Some t \<Rightarrow> t | None \<Rightarrow> clock);
                        maxAge = (case ro_maxAgeMs opt of Some m \<Rightarrow> m | None \<Rightarrow> DEFAULT_MAX_AGE_MS)
                    in bindE (check_age h parse_date now maxAge r) (\<lambda>_.
                         if is_nan now then Inl (unexpected (Thrown ''Invalid time value''))
                         else Inr \<lparr>ar_receipt = r, ar_verifiedAt = now, ar_receiptHash = d\<rparr>))))"

section \<open>Verification with a key store\<close>

text \<open>A key store answers or throws, a \<open>KeyStoreError\<close> with a code or another error.\<close>

datatype store_error = KeyStoreError receipt_code string | OtherError string

record 'w sift_key_store =
  ks_isKidRevoked :: "string \<Rightarrow> 'w \<Rightarrow> (store_error + bool) \<times> 'w"
  ks_getPublicKeyByKid :: "string \<Rightarrow> 'w \<Rightarrow> (store_error + string option) \<times> 'w"
  ks_refresh :: "'w \<Rightarrow> (store_error + unit) \<times> 'w"

definition store_failure :: "receipt_code \<Rightarrow> string \<Rightarrow> store_error \<Rightarrow> receipt_failure" where
  "store_failure fallback what x =
     (case x of KeyStoreError c m \<Rightarrow> (c, m) | OtherError m \<Rightarrow> (fallback, what @ m))"

definition keystore_failed :: "store_error \<Rightarrow> receipt_failure" where
  "keystore_failed = store_failure VERIFICATION_ERROR ''Unexpected error during keystore-based verification: ''"

definition revoked_failure :: "string \<Rightarrow> receipt_failure" where
  "revoked_failure kid = (REVOKED_KID, ''Key '' @ quoted kid @ '' is revoked'')"

text \<open>The key of a kid that is not revoked: \<open>None\<close> if the store does not know the kid.\<close>

definition unrevoked_key :: "'w sift_key_store \<Rightarrow> string \<Rightarrow> 'w \<Rightarrow> (receipt_failure + string option) \<times> 'w" where
  "unrevoked_key ks kid w =
     (case ks_isKidRevoked ks kid w of
        (Inl x, w1) \<Rightarrow> (Inl (keystore_failed x), w1)
      | (Inr True, w1) \<Rightarrow> (Inl (revoked_failure kid), w1)
      | (Inr False, w1) \<Rightarrow>
          (case ks_getPublicKeyByKid ks kid w1 of
             (Inl x, w2) \<Rightarrow> (Inl (keystore_failed x), w2)
           | (Inr k, w2) \<Rightarrow> (Inr k, w2)))"

definition refreshed_key :: "'w sift_key_store \<Rightarrow> string \<Rightarrow> 'w \<Rightarrow> (receipt_failure + string) \<times> 'w" where
  "refreshed_key ks kid w =
     (case ks_refresh ks w of
        (Inl x, w1) \<Rightarrow>
          (Inl (store_failure KEYSTORE_REFRESH_FAILED ''Unexpected error during keystore refresh: '' x), w1)
      | (Inr _, w1) \<Rightarrow>
          (case unrevoked_key ks kid w1 of
             (Inl x, w2) \<Rightarrow> (Inl x, w2)
           | (Inr None, w2) \<Rightarrow> (Inl (UNKNOWN_KID, ''Key '' @ quoted kid @ '' not found in JWKS after refresh''), w2)
           | (Inr (Some k), w2) \<Rightarrow> (Inr k, w2)))"

definition keystore_key :: "'w sift_key_store \<Rightarrow> string \<Rightarrow> 'w \<Rightarrow> (receipt_failure + string) \<times> 'w" where
  "keystore_key ks kid w =
     (case unrevoked_key ks kid w of
        (Inl x, w1) \<Rightarrow> (Inl x, w1)
      | (Inr (Some k), w1) \<Rightarrow> (Inr k, w1)
      | (Inr None, w1) \<Rightarrow> refreshed_key ks kid w1)"

definition verifyReceiptWithKeyStore ::
  "host \<Rightarrow> (string \<Rightarrow> jsnum) \<Rightarrow> jsnum \<Rightarrow> 'w sift_key_store \<Rightarrow> string \<Rightarrow> jsval \<Rightarrow> receipt_options \<Rightarrow> 'w
     \<Rightarrow> (receipt_failure + accepted_receipt) \<times> 'w" where
  "verifyReceiptWithKeyStore h parse_date clock ks kid raw opt w =
     (if kid = [] then (Inl (MISSING_KID, ''A non-empty kid must be provided for keystore verification''), w)
      else case keystore_key ks kid w of
        (Inl x, w1) \<Rightarrow> (Inl x, w1)
      | (Inr k, w1) \<Rightarrow> (verifyReceipt h parse_date clock raw (opt\<lparr>ro_publicKeyRaw := Some (KeyBytes k)\<rparr>), w1))"

end
