(* ===== verification/SiftKeyStore.thy ===== *)
theory SiftKeyStore
  imports SiftReceipt
begin

text \<open>
  \<open>packages/sift/src/siftKeyStore.ts\<close>: the key store that fetches the keys and the revocation list of a Sift service, with
  the interfaces \<open>krlWatermarkStore.ts\<close> and \<open>signedKrlCache.ts\<close> and their in-memory implementations. A step takes the
  world of the callbacks and the object and answers or throws; the error of a callback is its text. The two
  fetches of a refresh settle in the order they are made. Warnings on the console are not kept.
\<close>

section \<open>Vocabulary\<close>

datatype krl_mode = Signed_Required | Signed_Preferred | Unsigned_Legacy

datatype krl_integrity = Signed_List | Unsigned_Fallback | Legacy_List | Failed_List | No_List

datatype watermark_kind = In_Memory | Persistent

type_synonym versions = "(string \<times> jsnum) list"

record krl_verdict =
  kv_ok :: bool
  kv_violations :: "(string \<times> string option) list"
  kv_accepted :: "(string \<times> jsnum) option"

type_synonym krl_verify_fn = "jsval \<Rightarrow> jsnum \<Rightarrow> versions \<Rightarrow> string + krl_verdict"

record krl_status =
  st_mode :: krl_mode
  st_lastIntegrity :: krl_integrity
  st_lastReason :: "string option"
  st_unsignedFallbackActive :: bool
  st_lastVerifiedAt :: "jsnum option"
  st_lastKrlVersionByIssuer :: versions
  st_watermarkStore :: watermark_kind
  st_lkgCacheActive :: bool
  st_lkgVerifiedAt :: "jsnum option"

record http_response =
  res_ok :: bool
  res_status :: jsnum
  res_json :: "string + jsval"

record 'w krl_watermarks =
  kw_get :: "string \<Rightarrow> 'w \<Rightarrow> (string + jsnum option) \<times> 'w"
  kw_set :: "string \<Rightarrow> jsnum \<Rightarrow> 'w \<Rightarrow> (string + unit) \<times> 'w"
  kw_list :: "'w \<Rightarrow> (string + versions) \<times> 'w"

record 'w signed_krl_cache =
  lc_get :: "'w \<Rightarrow> (string + (jsval \<times> jsnum) option) \<times> 'w"
  lc_set :: "jsval \<Rightarrow> jsnum \<Rightarrow> 'w \<Rightarrow> (string + unit) \<times> 'w"

record 'w key_store_options =
  ko_jwksUrl :: string
  ko_krlUrl :: string
  ko_fetch :: "string \<Rightarrow> 'w \<Rightarrow> (string + http_response) \<times> 'w"
  ko_krlMode :: "krl_mode option"
  ko_verifyKrl :: "krl_verify_fn option"
  ko_now :: "'w \<Rightarrow> jsnum"
  ko_krlWatermarkStore :: "'w krl_watermarks option"
  ko_signedKrlCache :: "'w signed_krl_cache option"

definition mode_of :: "'w key_store_options \<Rightarrow> krl_mode" where
  "mode_of opt = (case ko_krlMode opt of Some m \<Rightarrow> m | None \<Rightarrow> Signed_Preferred)"

definition watermark_kind_of :: "'w key_store_options \<Rightarrow> watermark_kind" where
  "watermark_kind_of opt = (if ko_krlWatermarkStore opt = None then In_Memory else Persistent)"

section \<open>In-memory stores\<close>

text \<open>\<open>createInMemoryKrlWatermarkStore\<close> on the part of the world that \<open>get\<close> and \<open>put\<close> give access to.\<close>

definition raise_version :: "string \<Rightarrow> jsnum \<Rightarrow> versions \<Rightarrow> versions" where
  "raise_version issuer v vs =
     AList.update issuer (num_max (case map_of vs issuer of Some c \<Rightarrow> c | None \<Rightarrow> jint 0) v) vs"

definition createInMemoryKrlWatermarkStore :: "('w \<Rightarrow> versions) \<Rightarrow> (versions \<Rightarrow> 'w \<Rightarrow> 'w) \<Rightarrow> 'w krl_watermarks" where
  "createInMemoryKrlWatermarkStore rd wr =
     \<lparr>kw_get = (\<lambda>issuer w. (Inr (map_of (rd w) issuer), w)),
      kw_set = (\<lambda>issuer v w. (Inr (), wr (raise_version issuer v (rd w)) w)),
      kw_list = (\<lambda>w. (Inr (rd w), w))\<rparr>"

definition createInMemorySignedKrlCache ::
  "('w \<Rightarrow> (jsval \<times> jsnum) option) \<Rightarrow> ((jsval \<times> jsnum) option \<Rightarrow> 'w \<Rightarrow> 'w) \<Rightarrow> 'w signed_krl_cache" where
  "createInMemorySignedKrlCache rd wr =
     \<lparr>lc_get = (\<lambda>w. (Inr (rd w), w)), lc_set = (\<lambda>payload verifiedAt w. (Inr (), wr (Some (payload, verifiedAt)) w))\<rparr>"

section \<open>Parsing\<close>

definition jwks_key :: "jsval \<Rightarrow> (string \<times> string) option" where
  "jwks_key e =
     (if \<not> is_object e \<or> getp e ''kty'' \<noteq> JStr ''OKP'' \<or> getp e ''crv'' \<noteq> JStr ''Ed25519'' then None
      else case (getp e ''kid'', getp e ''x'') of
        (JStr (k # kid), JStr (c # x)) \<Rightarrow>
          if length (b64uDecode (c # x)) \<noteq> 32 then None else Some (k # kid, b64uDecode (c # x))
      | _ \<Rightarrow> None)"

fun jwks_keys :: "(string \<times> string) list \<Rightarrow> jsval list \<Rightarrow> (string \<times> string) list" where
  "jwks_keys found [] = found"
| "jwks_keys found (e # es) =
     jwks_keys (case jwks_key e of Some (kid, raw) \<Rightarrow> AList.update kid raw found | None \<Rightarrow> found) es"

definition parseJwks :: "jsval \<Rightarrow> receipt_failure + (string \<times> string) list" where
  "parseJwks body =
     (case (is_object body, getp body ''keys'') of
        (True, JArr es) \<Rightarrow> Inr (jwks_keys [] es)
      | _ \<Rightarrow> Inl (JWKS_FETCH_FAILED, ''JWKS response missing required '' @ quoted ''keys'' @ '' array''))"

definition kids_of :: "jsval list \<Rightarrow> string set" where
  "kids_of ks = field_text ` set (filter is_string ks)"

definition parseKrl :: "jsval \<Rightarrow> receipt_failure + string set" where
  "parseKrl body =
     (if \<not> is_object body then Inl (KRL_FETCH_FAILED, ''KRL response is not a JSON object'')
      else case getp body ''revoked_kids'' of
        JArr ks \<Rightarrow> Inr (kids_of ks)
      | _ \<Rightarrow> Inl (KRL_FETCH_FAILED, ''KRL response missing required '' @ quoted ''revoked_kids'' @ '' array''))"

definition hasSignatureField :: "jsval \<Rightarrow> bool" where
  "hasSignatureField body = (is_plain body \<and> has_prop body ''signature'')"

definition extractRevokedKidsFromVerified :: "jsval \<Rightarrow> string set" where
  "extractRevokedKidsFromVerified body =
     (if \<not> is_object body then {}
      else case getp body ''revoked_kids'' of JArr ks \<Rightarrow> kids_of ks | _ \<Rightarrow> {})"

section \<open>The object\<close>

record key_store =
  keyCache :: "(string \<times> string) list"
  revokedKids :: "string set"
  krlVersionByIssuer :: versions
  krlStatus :: krl_status
  unsignedFallbackWarned :: bool

definition SiftHttpKeyStore :: "'w key_store_options \<Rightarrow> exn + key_store" where
  "SiftHttpKeyStore opt =
     (if mode_of opt = Signed_Required \<and> ko_verifyKrl opt = None then Inl TypeError
      else Inr \<lparr>keyCache = [], revokedKids = {}, krlVersionByIssuer = [],
        krlStatus = \<lparr>st_mode = mode_of opt, st_lastIntegrity = No_List, st_lastReason = None, st_unsignedFallbackActive = False,
          st_lastVerifiedAt = None, st_lastKrlVersionByIssuer = [], st_watermarkStore = watermark_kind_of opt,
          st_lkgCacheActive = False, st_lkgVerifiedAt = None\<rparr>,
        unsignedFallbackWarned = False\<rparr>)"

definition getPublicKeyByKid :: "string \<Rightarrow> key_store \<Rightarrow> string option" where
  "getPublicKeyByKid kid st = map_of (keyCache st) kid"

definition isKidRevoked :: "string \<Rightarrow> key_store \<Rightarrow> bool" where
  "isKidRevoked kid st = (kid \<in> revokedKids st)"

section \<open>Steps\<close>

type_synonym ('e, 'w, 'a) store_step = "'w \<times> key_store \<Rightarrow> ('e + 'a) \<times> ('w \<times> key_store)"

definition returnK :: "'a \<Rightarrow> ('e, 'w, 'a) store_step" where
  "returnK a = (\<lambda>s. (Inr a, s))"

definition throwK :: "'e \<Rightarrow> ('e, 'w, 'a) store_step" where
  "throwK x = (\<lambda>s. (Inl x, s))"

definition bindK :: "('e, 'w, 'a) store_step \<Rightarrow> ('a \<Rightarrow> ('e, 'w, 'b) store_step) \<Rightarrow> ('e, 'w, 'b) store_step" where
  "bindK m f = (\<lambda>s. case m s of (Inl x, s') \<Rightarrow> (Inl x, s') | (Inr a, s') \<Rightarrow> f a s')"

definition catchK :: "('e, 'w, 'a) store_step \<Rightarrow> ('e \<Rightarrow> ('d, 'w, 'a) store_step) \<Rightarrow> ('d, 'w, 'a) store_step" where
  "catchK m f = (\<lambda>s. case m s of (Inl x, s') \<Rightarrow> f x s' | (Inr a, s') \<Rightarrow> (Inr a, s'))"

definition askK :: "('w \<Rightarrow> ('e + 'a) \<times> 'w) \<Rightarrow> ('e, 'w, 'a) store_step" where
  "askK f = (\<lambda>(w, st). case f w of (r, w') \<Rightarrow> (r, (w', st)))"

definition updateK :: "(key_store \<Rightarrow> key_store) \<Rightarrow> ('e, 'w, unit) store_step" where
  "updateK f = (\<lambda>(w, st). (Inr (), (w, f st)))"

definition ofK :: "(key_store \<Rightarrow> 'e + 'a) \<Rightarrow> ('e, 'w, 'a) store_step" where
  "ofK f = (\<lambda>(w, st). (f st, (w, st)))"

section \<open>The revocation list\<close>

record processed_list =
  pl_revoked :: "string set"
  pl_integrity :: krl_integrity
  pl_updatedVersion :: "(string \<times> jsnum) option"

type_synonym list_failure = "string \<times> receipt_failure"

definition runVerifyKrl :: "'w key_store_options \<Rightarrow> jsval \<Rightarrow> jsnum \<Rightarrow> key_store \<Rightarrow> list_failure + processed_list" where
  "runVerifyKrl opt body now st =
     (case (case ko_verifyKrl opt of Some f \<Rightarrow> f body now (krlVersionByIssuer st) | None \<Rightarrow> Inl ''this.verifyKrl is not a function'') of
        Inl x \<Rightarrow> Inl (''KRL_VERIFY_CALLBACK_ERROR'', (KRL_FETCH_FAILED, ''verifyKrl callback threw unexpectedly: '' @ x))
      | Inr v \<Rightarrow>
          if \<not> kv_ok v
          then let code = (case kv_violations v of (c, _) # _ \<Rightarrow> c | [] \<Rightarrow> ''KRL_SIG_INVALID'');
                   msg = (case kv_violations v of (_, Some m) # _ \<Rightarrow> m | _ \<Rightarrow> ''signed KRL verification failed'')
               in Inl (code, (KRL_FETCH_FAILED, code @ '': '' @ msg))
          else case kv_accepted v of
            None \<Rightarrow> Inl (''KRL_VERIFY_RESULT_INCOMPLETE'', (KRL_FETCH_FAILED, ''KRL_VERIFY_RESULT_INCOMPLETE: verifyKrl returned ok: true but did not include ''
              @ ''accepted issuer/krl_version metadata. Production wiring must populate ''
              @ ''result.accepted from the verified SignedKRLV1 payload fields.''))
          | Some a \<Rightarrow> Inr \<lparr>pl_revoked = extractRevokedKidsFromVerified body, pl_integrity = Signed_List, pl_updatedVersion = Some a\<rparr>)"

definition unsigned_list :: "krl_integrity \<Rightarrow> jsval \<Rightarrow> list_failure + processed_list" where
  "unsigned_list integrity body =
     (case parseKrl body of
        Inl x \<Rightarrow> Inl (''KRL_FETCH_FAILED'', x)
      | Inr ks \<Rightarrow> Inr \<lparr>pl_revoked = ks, pl_integrity = integrity, pl_updatedVersion = None\<rparr>)"

definition processKrlForMode :: "'w key_store_options \<Rightarrow> jsval \<Rightarrow> jsnum \<Rightarrow> key_store \<Rightarrow> list_failure + processed_list" where
  "processKrlForMode opt body now st =
     (case mode_of opt of
        Unsigned_Legacy \<Rightarrow> unsigned_list Legacy_List body
      | Signed_Required \<Rightarrow>
          if \<not> hasSignatureField body
          then Inl (''KRL_UNSIGNED_IN_SIGNED_REQUIRED'', (KRL_FETCH_FAILED, ''KRL_UNSIGNED_IN_SIGNED_REQUIRED: The fetched KRL does not contain a ''
            @ ''signature field. Configure the KRL publisher to produce signed KRLs ''
            @ ''(SignedKRLV1), or downgrade to \"signed_preferred\" or \"unsigned_legacy\" mode.''))
          else runVerifyKrl opt body now st
      | Signed_Preferred \<Rightarrow>
          if hasSignatureField body
          then if ko_verifyKrl opt = None
               then Inl (''KRL_MISSING_VERIFY_CALLBACK'', (KRL_FETCH_FAILED, ''KRL_MISSING_VERIFY_CALLBACK: The fetched KRL contains a signature field ''
                 @ ''but no verifyKrl callback is configured. Provide a verifyKrl callback to ''
                 @ ''verify signed KRLs, or configure krlMode \"unsigned_legacy\" if signature ''
                 @ ''verification is not yet required.''))
               else runVerifyKrl opt body now st
          else unsigned_list Unsigned_Fallback body)"

section \<open>Refreshing\<close>

text \<open>The status after a failure at the list; everything about the active list stays, and so do the mode and the kind of store, which are fixed at construction.\<close>

definition list_failed :: "string \<Rightarrow> key_store \<Rightarrow> key_store" where
  "list_failed reason st =
     st\<lparr>krlStatus := (krlStatus st)\<lparr>st_lastIntegrity := Failed_List, st_lastReason := Some reason,
          st_lastKrlVersionByIssuer := krlVersionByIssuer st\<rparr>\<rparr>"

definition fail_list :: "string \<Rightarrow> receipt_failure \<Rightarrow> (receipt_failure, 'w, 'a) store_step" where
  "fail_list reason x = bindK (updateK (list_failed reason)) (\<lambda>_. throwK x)"

definition merge_version :: "string \<times> jsnum \<Rightarrow> versions \<Rightarrow> versions" where
  "merge_version e vs =
     (case map_of vs (fst e) of
        None \<Rightarrow> AList.update (fst e) (snd e) vs
      | Some current \<Rightarrow> if num_lt current (snd e) then AList.update (fst e) (snd e) vs else vs)"

definition mergeWatermarks :: "'w key_store_options \<Rightarrow> (receipt_failure, 'w, unit) store_step" where
  "mergeWatermarks opt =
     (case ko_krlWatermarkStore opt of
        None \<Rightarrow> returnK ()
      | Some kw \<Rightarrow>
          if mode_of opt = Unsigned_Legacy then returnK ()
          else bindK (catchK (askK (kw_list kw)) (\<lambda>x. fail_list ''KRL_WATERMARK_LOAD_FAILED''
                  (KEYSTORE_REFRESH_FAILED, ''KRL_WATERMARK_LOAD_FAILED: Persistent watermark store could not be loaded ''
                    @ ''before KRL verification '' @ [CHR 0xE2, CHR 0x80, CHR 0x94] @ '' refresh fails closed. Error: '' @ x)))
               (\<lambda>persisted. updateK (\<lambda>st. st\<lparr>krlVersionByIssuer := fold merge_version persisted (krlVersionByIssuer st)\<rparr>)))"

definition network_error :: "string \<Rightarrow> receipt_failure" where
  "network_error x = (KEYSTORE_REFRESH_FAILED, ''Network error during JWKS/KRL refresh: '' @ x)"

text \<open>Both fetches are made, also when the first one fails; then the first error counts.\<close>

definition fetch_both :: "'w key_store_options \<Rightarrow> (receipt_failure, 'w, http_response \<times> http_response) store_step" where
  "fetch_both opt =
     (\<lambda>(w, st). case ko_fetch opt (ko_jwksUrl opt) w of (r1, w1) \<Rightarrow>
        (case ko_fetch opt (ko_krlUrl opt) w1 of (r2, w2) \<Rightarrow>
          (case (r1, r2) of
             (Inl x, _) \<Rightarrow> Inl (network_error x)
           | (_, Inl x) \<Rightarrow> Inl (network_error x)
           | (Inr a, Inr b) \<Rightarrow> Inr (a, b), (w2, st))))"

definition bodies :: "host \<Rightarrow> http_response \<times> http_response \<Rightarrow> receipt_failure + jsval \<times> jsval" where
  "bodies h rs =
     (case rs of (jwks, krl) \<Rightarrow>
        if \<not> res_ok jwks
        then Inl (JWKS_FETCH_FAILED, ''JWKS endpoint returned HTTP '' @ ms_text h (res_status jwks))
        else if \<not> res_ok krl
        then Inl (KRL_FETCH_FAILED, ''KRL endpoint returned HTTP '' @ ms_text h (res_status krl))
        else case (res_json jwks, res_json krl) of
          (Inl x, _) \<Rightarrow> Inl (KEYSTORE_REFRESH_FAILED, ''Failed to parse JWKS/KRL JSON: '' @ x)
        | (_, Inl x) \<Rightarrow> Inl (KEYSTORE_REFRESH_FAILED, ''Failed to parse JWKS/KRL JSON: '' @ x)
        | (Inr a, Inr b) \<Rightarrow> Inr (a, b))"

text \<open>
  A fresh refresh up to the verified list, and the rest of it. Between the two the code waits for the watermark
  store, so two refreshes under way at once can interleave there.
\<close>

record verified_refresh =
  vf_keys :: "(string \<times> string) list"
  vf_body :: jsval
  vf_list :: processed_list
  vf_now :: jsnum

definition verify_refresh :: "host \<Rightarrow> 'w key_store_options \<Rightarrow> jsnum \<Rightarrow> (receipt_failure, 'w, verified_refresh) store_step" where
  "verify_refresh h opt now =
     bindK (fetch_both opt) (\<lambda>rs.
     bindK (ofK (\<lambda>_. bodies h rs)) (\<lambda>(jwks, krl).
     bindK (ofK (\<lambda>_. parseJwks jwks)) (\<lambda>keys.
     bindK (mergeWatermarks opt) (\<lambda>_.
     bindK (catchK (ofK (processKrlForMode opt krl now)) (\<lambda>x. fail_list (fst x) (snd x))) (\<lambda>l.
     returnK \<lparr>vf_keys = keys, vf_body = krl, vf_list = l, vf_now = now\<rparr>)))))"

definition persist_watermark :: "'w key_store_options \<Rightarrow> verified_refresh \<Rightarrow> (receipt_failure, 'w, unit) store_step" where
  "persist_watermark opt vf =
     (case (ko_krlWatermarkStore opt, pl_updatedVersion (vf_list vf)) of
        (Some kw, Some (issuer, v)) \<Rightarrow>
          catchK (askK (kw_set kw issuer v)) (\<lambda>x. fail_list ''KRL_WATERMARK_PERSIST_FAILED''
            (KRL_FETCH_FAILED, ''KRL_WATERMARK_PERSIST_FAILED: Signed KRL verified successfully but persisting ''
              @ ''the krl_version watermark to the configured KrlWatermarkStore failed. ''
              @ ''Refresh is blocked to prevent accepting a KRL whose version was not durably recorded. ''
              @ ''Error: '' @ x))
      | _ \<Rightarrow> returnK ())"

definition note_version :: "(string \<times> jsnum) option \<Rightarrow> versions \<Rightarrow> versions" where
  "note_version u vs = (case u of Some (issuer, v) \<Rightarrow> AList.update issuer v vs | None \<Rightarrow> vs)"

definition swap_caches :: "'w key_store_options \<Rightarrow> verified_refresh \<Rightarrow> key_store \<Rightarrow> key_store" where
  "swap_caches opt vf st =
     (let l = vf_list vf; vs = note_version (pl_updatedVersion l) (krlVersionByIssuer st)
      in \<lparr>keyCache = vf_keys vf, revokedKids = pl_revoked l, krlVersionByIssuer = vs,
          krlStatus = \<lparr>st_mode = mode_of opt, st_lastIntegrity = pl_integrity l, st_lastReason = None,
            st_unsignedFallbackActive = (pl_integrity l = Unsigned_Fallback), st_lastVerifiedAt = Some (vf_now vf),
            st_lastKrlVersionByIssuer = vs, st_watermarkStore = watermark_kind_of opt,
            st_lkgCacheActive = False, st_lkgVerifiedAt = None\<rparr>,
          unsignedFallbackWarned = (unsignedFallbackWarned st \<or> pl_integrity l = Unsigned_Fallback)\<rparr>)"

text \<open>A failure to write the cache is a warning.\<close>

definition write_cache :: "'w key_store_options \<Rightarrow> verified_refresh \<Rightarrow> (receipt_failure, 'w, unit) store_step" where
  "write_cache opt vf =
     (case ko_signedKrlCache opt of
        Some lc \<Rightarrow>
          if pl_integrity (vf_list vf) = Signed_List
          then catchK (askK (lc_set lc (vf_body vf) (vf_now vf))) (\<lambda>_. returnK ()) else returnK ()
      | None \<Rightarrow> returnK ())"

text \<open>
  The second half of a refresh. Its first action, the call of the watermark store's \<open>set\<close>, happens without a
  pause after the verification; the code waits for the answer of the store. An overlap with another refresh
  therefore needs a configured watermark store, and cutting before the call instead of before its answer moves
  only the store's own bookkeeping, never the swap.
\<close>

definition accept_refresh :: "'w key_store_options \<Rightarrow> verified_refresh \<Rightarrow> (receipt_failure, 'w, unit) store_step" where
  "accept_refresh opt vf =
     bindK (persist_watermark opt vf) (\<lambda>_. bindK (updateK (swap_caches opt vf)) (\<lambda>_. write_cache opt vf))"

definition doFreshRefresh :: "host \<Rightarrow> 'w key_store_options \<Rightarrow> jsnum \<Rightarrow> (receipt_failure, 'w, unit) store_step" where
  "doFreshRefresh h opt now = bindK (verify_refresh h opt now) (accept_refresh opt)"

section \<open>The last known good list\<close>

definition cache_entry :: "'w key_store_options \<Rightarrow> (receipt_failure, 'w, jsval \<times> jsnum) store_step" where
  "cache_entry opt =
     bindK (catchK (askK (case ko_signedKrlCache opt of Some lc \<Rightarrow> lc_get lc | None \<Rightarrow> (\<lambda>w. (Inr None, w))))
        (\<lambda>x. bindK (updateK (\<lambda>st. st\<lparr>krlStatus := (krlStatus st)\<lparr>st_lastIntegrity := Failed_List,
                 st_lastReason := Some ''KRL_LKG_READ_FAILED'', st_lkgCacheActive := False\<rparr>\<rparr>))
             (\<lambda>_. throwK (KEYSTORE_REFRESH_FAILED, ''LKG cache read failed during fallback: '' @ x))))
       (\<lambda>e. case e of
          None \<Rightarrow> throwK (KEYSTORE_REFRESH_FAILED, ''No last-known-good signed KRL available in the configured cache.'')
        | Some en \<Rightarrow> returnK en)"

definition cached_failed :: "string \<Rightarrow> key_store \<Rightarrow> key_store" where
  "cached_failed reason st =
     st\<lparr>krlStatus := (krlStatus st)\<lparr>st_lastIntegrity := Failed_List, st_lastReason := Some reason,
          st_unsignedFallbackActive := False, st_lastKrlVersionByIssuer := krlVersionByIssuer st, st_lkgCacheActive := False\<rparr>\<rparr>"

definition use_cached :: "'w key_store_options \<Rightarrow> jsnum \<Rightarrow> jsnum \<Rightarrow> processed_list \<Rightarrow> key_store \<Rightarrow> key_store" where
  "use_cached opt now verifiedAt l st =
     (let vs = note_version (pl_updatedVersion l) (krlVersionByIssuer st)
      in st\<lparr>revokedKids := pl_revoked l, krlVersionByIssuer := vs,
           krlStatus := \<lparr>st_mode = mode_of opt, st_lastIntegrity = Signed_List, st_lastReason = None,
             st_unsignedFallbackActive = False, st_lastVerifiedAt = Some now, st_lastKrlVersionByIssuer = vs,
             st_watermarkStore = watermark_kind_of opt, st_lkgCacheActive = True, st_lkgVerifiedAt = Some verifiedAt\<rparr>\<rparr>)"

definition doLkgFallback :: "'w key_store_options \<Rightarrow> jsnum \<Rightarrow> (receipt_failure, 'w, unit) store_step" where
  "doLkgFallback opt now =
     (if ko_verifyKrl opt = None
      then bindK (updateK (\<lambda>st. st\<lparr>krlStatus := (krlStatus st)\<lparr>st_lastIntegrity := Failed_List,
               st_lastReason := Some ''KRL_MISSING_VERIFY_CALLBACK''\<rparr>\<rparr>))
             (\<lambda>_. throwK (KRL_FETCH_FAILED, ''KRL_MISSING_VERIFY_CALLBACK: Fresh KRL fetch failed and an LKG cache entry ''
                @ ''was found, but no verifyKrl callback is configured to re-verify it.''))
      else bindK (mergeWatermarks opt) (\<lambda>_.
           bindK (cache_entry opt) (\<lambda>(payload, verifiedAt).
           bindK (catchK (ofK (runVerifyKrl opt payload now))
                    (\<lambda>x. bindK (updateK (cached_failed (fst x))) (\<lambda>_. throwK (snd x)))) (\<lambda>l.
           updateK (use_cached opt now verifiedAt l)))))"

definition may_fall_back :: "'w key_store_options \<Rightarrow> bool" where
  "may_fall_back opt = (ko_signedKrlCache opt \<noteq> None \<and> mode_of opt \<noteq> Unsigned_Legacy)"

definition refresh_at :: "host \<Rightarrow> 'w key_store_options \<Rightarrow> jsnum \<Rightarrow> (receipt_failure, 'w, unit) store_step" where
  "refresh_at h opt now =
     catchK (doFreshRefresh h opt now) (\<lambda>primary.
       if may_fall_back opt
       then catchK (doLkgFallback opt now) (\<lambda>x. throwK (if mode_of opt = Signed_Required then x else primary))
       else throwK primary)"

definition refresh :: "host \<Rightarrow> 'w key_store_options \<Rightarrow> (receipt_failure, 'w, unit) store_step" where
  "refresh h opt = (\<lambda>s. refresh_at h opt (ko_now opt (fst s)) s)"

text \<open>The interface the receipts are verified with.\<close>

definition http_key_store :: "host \<Rightarrow> 'w key_store_options \<Rightarrow> ('w \<times> key_store) sift_key_store" where
  "http_key_store h opt =
     \<lparr>ks_isKidRevoked = (\<lambda>kid. ofK (\<lambda>st. Inr (isKidRevoked kid st))),
      ks_getPublicKeyByKid = (\<lambda>kid. ofK (\<lambda>st. Inr (getPublicKeyByKid kid st))),
      ks_refresh = catchK (refresh h opt) (\<lambda>x. throwK (KeyStoreError (fst x) (snd x)))\<rparr>"

end
