(* ===== verification/SiftRefresh.thy ===== *)
theory SiftRefresh
  imports SiftKeyStore VerifyKrl
begin

text \<open>
  What the refreshes of a \<open>SiftHttpKeyStore\<close> do to the list in force. The verifier of the lists is an interface, the
  locale \<open>krl_verifier\<close>; the production wiring, \<open>verifySignedKrl\<close> of the core, is its interpretation.
\<close>

section \<open>Production wiring\<close>

text \<open>
  The repository holds no code for this function: the comment at \<open>KrlVerifyFn\<close> in \<open>siftKeyStore.ts\<close> and the
  package's README tell the deployment to pass \<open>verifySignedKrl\<close> in this way. The properties that need it name it
  in a hypothesis on the options of the store.
\<close>

definition core_krl_verifier :: "host \<Rightarrow> jsnum \<Rightarrow> trusted_key_sets \<Rightarrow> krl_verify_fn" where
  "core_krl_verifier h clock keysets body now previous =
     (let r = verifySignedKrl h clock \<lparr>vk_now = Some now, vk_trustedKeySets = Some keysets,
                vk_previousVersions = JObj (map (\<lambda>(i, v). (i, JNum v)) previous)\<rparr> body
      in Inr \<lparr>kv_ok = vr_ok r, kv_violations = map (\<lambda>v. (code_str (v_code v), Some (v_message v))) (vr_violations r),
              kv_accepted = (if \<not> vr_ok r then None
                else case (getp body ''issuer'', getp body ''krl_version'') of (JStr i, JNum n) \<Rightarrow> Some (i, n) | _ \<Rightarrow> None)\<rparr>)"

text \<open>A list the core accepted, at some time and after some versions, from a key of the given sets.\<close>

definition genuine_list :: "host \<Rightarrow> trusted_key_sets \<Rightarrow> jsval \<Rightarrow> string \<Rightarrow> jsnum \<Rightarrow> bool" where
  "genuine_list h keysets body i n =
     ((\<exists>clock opt. vk_trustedKeySets opt = Some keysets \<and> vr_ok (verifySignedKrl h clock opt body)) \<and>
      getp body ''issuer'' = JStr i \<and> getp body ''krl_version'' = JNum n)"

section \<open>Steps\<close>

lemma bindK_eq: "bindK m f s = (r, s') \<longleftrightarrow>
    (\<exists>x. m s = (Inl x, s') \<and> r = Inl x) \<or> (\<exists>a s1. m s = (Inr a, s1) \<and> f a s1 = (r, s'))"
  by (auto simp: bindK_def split: prod.splits sum.splits)

lemma catchK_eq: "catchK m f s = (r, s') \<longleftrightarrow>
    (\<exists>a. m s = (Inr a, s') \<and> r = Inr a) \<or> (\<exists>x s1. m s = (Inl x, s1) \<and> f x s1 = (r, s'))"
  by (auto simp: catchK_def split: prod.splits sum.splits)

lemma step_eqs:
  "returnK a s = (r, s') \<longleftrightarrow> r = Inr a \<and> s' = s"
  "throwK x s = (r1, s') \<longleftrightarrow> r1 = Inl x \<and> s' = s"
  "updateK g s = (r2, s') \<longleftrightarrow> r2 = Inr () \<and> s' = (fst s, g (snd s))"
  "ofK q s = (r3, s') \<longleftrightarrow> q (snd s) = r3 \<and> s' = s"
  by (auto simp: returnK_def throwK_def updateK_def ofK_def split: prod.splits)

lemma askK_eq: "askK f s = (r, s') \<longleftrightarrow> (\<exists>w'. f (fst s) = (r, w') \<and> s' = (w', snd s))"
  by (auto simp: askK_def split: prod.splits)

lemmas store_steps = bindK_eq catchK_eq step_eqs askK_eq

section \<open>What a refresh keeps\<close>

text \<open>The watermarks only rise.\<close>

definition raised :: "versions \<Rightarrow> versions \<Rightarrow> bool" where
  "raised vs vs' = (\<forall>i a. map_of vs i = Some a \<longrightarrow> \<not> is_nan a \<longrightarrow> (\<exists>b. map_of vs' i = Some b \<and> num_le a b))"

definition same_list :: "key_store \<Rightarrow> key_store \<Rightarrow> bool" where
  "same_list st st' =
     (keyCache st' = keyCache st \<and> revokedKids st' = revokedKids st \<and> raised (krlVersionByIssuer st) (krlVersionByIssuer st'))"

lemma num_le_refl: "\<not> is_nan a \<Longrightarrow> num_le a a"
  by (cases a) (auto simp: num_le_def num_eq_def)

lemma num_less_le: "num_lt a b \<Longrightarrow> num_le a b"
  by (simp add: num_le_def)

lemma num_le_finite: "num_le a b \<Longrightarrow> \<not> is_nan b"
  by (cases a; cases b) (auto simp: num_le_def num_eq_def)

lemma raised_refl [simp]: "raised vs vs"
  by (auto simp: raised_def num_le_refl)

lemma raised_trans: "raised a b \<Longrightarrow> raised b c \<Longrightarrow> raised a c"
  unfolding raised_def by (meson num_le_finite num_le_trans)

lemma same_list_refl [simp]: "same_list st st"
  by (simp add: same_list_def)

lemma same_list_trans: "same_list a b \<Longrightarrow> same_list b c \<Longrightarrow> same_list a c"
  unfolding same_list_def by (metis raised_trans)

lemma same_list_status [simp]:
  "same_list st (list_failed x st)" "same_list st (cached_failed x st)" "same_list st (st\<lparr>krlStatus := s\<rparr>)"
  by (simp_all add: same_list_def list_failed_def cached_failed_def)

lemma raised_merge: "raised vs (merge_version e vs)"
  by (auto simp: raised_def merge_version_def num_le_refl num_less_le split: option.splits)

lemma raised_fold: "raised vs (fold merge_version es vs)"
  by (induction es arbitrary: vs) (auto intro: raised_trans raised_merge)

lemma merge_keeps:
  assumes "mergeWatermarks opt s = (r, s')"
  shows "same_list (snd s) (snd s')"
  using assms
  by (auto simp: mergeWatermarks_def store_steps fail_list_def same_list_def raised_fold list_failed_def split: option.splits if_splits)

lemma fetch_keeps: "fetch_both opt s = (r, s') \<Longrightarrow> snd s' = snd s"
  by (auto simp: fetch_both_def split: prod.splits)

lemma verify_refresh_keeps:
  assumes "verify_refresh h opt now s = (r, s')"
  shows "same_list (snd s) (snd s')"
    and "r = Inr vf \<Longrightarrow> processKrlForMode opt (vf_body vf) now (snd s') = Inr (vf_list vf) \<and> vf_now vf = now"
  using assms
  by (auto simp: verify_refresh_def store_steps fail_list_def split: prod.splits
      dest!: fetch_keeps merge_keeps intro: same_list_trans)

lemma persist_keeps:
  assumes "persist_watermark opt vf s = (r, s')"
  shows "same_list (snd s) (snd s')" and "r = Inr u \<Longrightarrow> snd s' = snd s"
  using assms
  by (auto simp: persist_watermark_def store_steps fail_list_def split: option.splits prod.splits)

lemma write_keeps: "write_cache opt vf s = (r, s') \<Longrightarrow> r = Inr () \<and> snd s' = snd s"
  by (auto simp: write_cache_def store_steps split: option.splits if_splits)

lemma accept_cases:
  assumes "accept_refresh opt vf s = (r, s')"
  shows "(\<exists>x. r = Inl x \<and> same_list (snd s) (snd s')) \<or> (r = Inr () \<and> snd s' = swap_caches opt vf (snd s))"
  using assms by (auto simp: accept_refresh_def store_steps dest: persist_keeps dest!: write_keeps)

lemma cache_entry_keeps:
  assumes "cache_entry opt s = (r, s')"
  shows "same_list (snd s) (snd s')" and "r = Inr e \<Longrightarrow> snd s' = snd s"
  using assms by (auto simp: cache_entry_def store_steps split: option.splits)

text \<open>The list a successful refresh puts in force was verified against the merged watermarks.\<close>

definition accepted_from :: "'w key_store_options \<Rightarrow> jsnum \<Rightarrow> key_store \<Rightarrow> key_store \<Rightarrow> bool" where
  "accepted_from opt now st st' =
     (\<exists>st1 body l. same_list st st1 \<and>
        (processKrlForMode opt body now st1 = Inr l \<or>
         mode_of opt \<noteq> Unsigned_Legacy \<and> runVerifyKrl opt body now st1 = Inr l \<and> keyCache st' = keyCache st) \<and>
        revokedKids st' = pl_revoked l \<and> krlVersionByIssuer st' = note_version (pl_updatedVersion l) (krlVersionByIssuer st1) \<and>
        st_lastIntegrity (krlStatus st') = pl_integrity l)"

lemma fresh_cases:
  assumes "doFreshRefresh h opt now s = (r, s')"
  shows "(\<exists>x. r = Inl x \<and> same_list (snd s) (snd s')) \<or> (r = Inr () \<and> accepted_from opt now (snd s) (snd s'))"
proof -
  from assms consider x where "verify_refresh h opt now s = (Inl x, s')" "r = Inl x"
    | vf s1 where "verify_refresh h opt now s = (Inr vf, s1)" "accept_refresh opt vf s1 = (r, s')"
    by (auto simp: doFreshRefresh_def store_steps)
  then show ?thesis
  proof cases
    case 1
    with verify_refresh_keeps(1) [OF 1(1)] show ?thesis by simp
  next
    case 2
    note v = verify_refresh_keeps [OF 2(1)]
    from accept_cases [OF 2(2)] show ?thesis
    proof (elim disjE exE conjE)
      fix x assume "r = Inl x" "same_list (snd s1) (snd s')"
      with v(1) show ?thesis by (auto intro: same_list_trans)
    next
      assume r: "r = Inr ()" "snd s' = swap_caches opt vf (snd s1)"
      then have "accepted_from opt now (snd s) (snd s')"
        unfolding accepted_from_def using v(1) v(2) [of vf]
        by (intro exI [of _ "snd s1"] exI [of _ "vf_body vf"] exI [of _ "vf_list vf"]) (simp add: swap_caches_def Let_def)
      with r show ?thesis by simp
    qed
  qed
qed

lemma runVerify_integrity: "runVerifyKrl opt body now st = Inr l \<Longrightarrow> pl_integrity l = Signed_List"
  by (auto simp: runVerifyKrl_def Let_def split: option.splits sum.splits if_splits)

lemma fallback_cases:
  assumes "doLkgFallback opt now s = (r, s')" and "may_fall_back opt"
  shows "(\<exists>x. r = Inl x \<and> same_list (snd s) (snd s')) \<or> (r = Inr () \<and> accepted_from opt now (snd s) (snd s'))"
proof (cases "ko_verifyKrl opt = None")
  case True
  with assms(1) show ?thesis by (auto simp: doLkgFallback_def store_steps)
next
  case False
  with assms(1) consider x where "mergeWatermarks opt s = (Inl x, s')" "r = Inl x"
    | x s1 where "mergeWatermarks opt s = (Inr (), s1)" "cache_entry opt s1 = (Inl x, s')" "r = Inl x"
    | payload t s1 s2 x where "mergeWatermarks opt s = (Inr (), s1)" "cache_entry opt s1 = (Inr (payload, t), s2)"
      "r = Inl (snd x)" "snd s' = cached_failed (fst x) (snd s2)"
    | payload t s1 s2 l where "mergeWatermarks opt s = (Inr (), s1)" "cache_entry opt s1 = (Inr (payload, t), s2)"
      "runVerifyKrl opt payload now (snd s2) = Inr l" "r = Inr ()" "snd s' = use_cached opt now t l (snd s2)"
    by (auto simp: doLkgFallback_def store_steps split: prod.splits)
  then show ?thesis
  proof cases
    case 1
    with merge_keeps [OF 1(1)] show ?thesis by simp
  next
    case 2
    with merge_keeps [OF 2(1)] cache_entry_keeps(1) [OF 2(2)] show ?thesis by (auto intro: same_list_trans)
  next
    case 3
    with merge_keeps [OF 3(1)] cache_entry_keeps(1) [OF 3(2)] show ?thesis
      by (auto intro: same_list_trans same_list_status)
  next
    case 4
    from 4(1,2) have s: "same_list (snd s) (snd s2)"
      using merge_keeps [OF 4(1)] cache_entry_keeps(1) [OF 4(2)] by (auto intro: same_list_trans)
    with 4(3-5) assms(2) have "accepted_from opt now (snd s) (snd s')"
      unfolding accepted_from_def
      by (intro exI [of _ "snd s2"] exI [of _ payload] exI [of _ l])
        (auto simp: use_cached_def Let_def may_fall_back_def same_list_def dest: runVerify_integrity)
    with 4 show ?thesis by simp
  qed
qed

lemma same_then_accepted: "same_list st st1 \<Longrightarrow> accepted_from opt now st1 st' \<Longrightarrow> accepted_from opt now st st'"
proof -
  assume s: "same_list st st1" and "accepted_from opt now st1 st'"
  then obtain st2 body l where "same_list st1 st2"
    and l: "processKrlForMode opt body now st2 = Inr l \<or>
      mode_of opt \<noteq> Unsigned_Legacy \<and> runVerifyKrl opt body now st2 = Inr l \<and> keyCache st' = keyCache st1"
      "revokedKids st' = pl_revoked l" "krlVersionByIssuer st' = note_version (pl_updatedVersion l) (krlVersionByIssuer st2)"
      "st_lastIntegrity (krlStatus st') = pl_integrity l"
    unfolding accepted_from_def by blast
  then have "same_list st st2" using s by (blast intro: same_list_trans)
  moreover have "keyCache st1 = keyCache st" using s by (simp add: same_list_def)
  ultimately show ?thesis
    unfolding accepted_from_def using l by (intro exI [of _ st2] exI [of _ body] exI [of _ l]) simp
qed

lemma refresh_cases:
  assumes "refresh h opt (w, st) = (r, (w', st'))"
  shows "(\<exists>x. r = Inl x \<and> same_list st st') \<or> (r = Inr () \<and> accepted_from opt (ko_now opt w) st st')"
proof -
  let ?now = "ko_now opt w"
  obtain q w1 st1 where f: "doFreshRefresh h opt ?now (w, st) = (q, (w1, st1))" by (metis surj_pair)
  note fresh = fresh_cases [OF f, unfolded snd_conv]
  show ?thesis
  proof (cases q)
    case (Inr u)
    with f assms fresh show ?thesis by (simp add: refresh_def refresh_at_def catchK_def)
  next
    case (Inl x)
    with fresh have s: "same_list st st1" by simp
    show ?thesis
    proof (cases "may_fall_back opt")
      case False
      with f Inl assms s show ?thesis by (auto simp: refresh_def refresh_at_def catchK_def throwK_def)
    next
      case True
      obtain q' w2 st2 where g: "doLkgFallback opt ?now (w1, st1) = (q', (w2, st2))" by (metis surj_pair)
      from f g Inl True assms have "w2 = w' \<and> st2 = st' \<and> (case q' of Inl _ \<Rightarrow> \<exists>y. r = Inl y | Inr _ \<Rightarrow> r = Inr ())"
        by (auto simp: refresh_def refresh_at_def catchK_def throwK_def split: sum.splits)
      with fallback_cases [OF g True] s show ?thesis
        by (auto intro: same_list_trans same_then_accepted)
    qed
  qed
qed

section \<open>Verified lists\<close>

text \<open>
  What the store relies on: an accepted list is genuine, has the issuer and the version it is reported with, and
  its version is not below the one handed in for its issuer.
\<close>

locale krl_verifier =
  fixes verify :: krl_verify_fn and genuine :: "jsval \<Rightarrow> string \<Rightarrow> jsnum \<Rightarrow> bool"
  assumes accepted: "verify body now vs = Inr v \<Longrightarrow> kv_ok v \<Longrightarrow> kv_accepted v = Some (i, n) \<Longrightarrow> genuine body i n \<and> \<not> is_nan n"
    and no_regression: "verify body now vs = Inr v \<Longrightarrow> kv_ok v \<Longrightarrow> kv_accepted v = Some (i, n) \<Longrightarrow>
      map_of vs i = Some m \<Longrightarrow> \<not> num_lt n m"
begin

definition in_force :: "key_store \<Rightarrow> string \<Rightarrow> jsnum \<Rightarrow> bool" where
  "in_force st i n =
     ((\<exists>body. genuine body i n \<and> revokedKids st = extractRevokedKidsFromVerified body) \<and>
      (\<exists>b. map_of (krlVersionByIssuer st) i = Some b \<and> num_le n b))"

lemma run_verified:
  assumes "ko_verifyKrl opt = Some verify" and "runVerifyKrl opt body now st = Inr l"
  obtains i n where "genuine body i n" "\<not> is_nan n" "pl_revoked l = extractRevokedKidsFromVerified body"
    "pl_updatedVersion l = Some (i, n)" "pl_integrity l = Signed_List"
    "\<And>m. map_of (krlVersionByIssuer st) i = Some m \<Longrightarrow> \<not> num_lt n m"
proof -
  from assms obtain v i n where v: "verify body now (krlVersionByIssuer st) = Inr v" "kv_ok v" "kv_accepted v = Some (i, n)"
    and l: "l = \<lparr>pl_revoked = extractRevokedKidsFromVerified body, pl_integrity = Signed_List, pl_updatedVersion = Some (i, n)\<rparr>"
    by (auto simp: runVerifyKrl_def Let_def split: sum.splits option.splits if_splits)
  show thesis by (rule that [of i n]) (use accepted [OF v] no_regression [OF v] l in auto)
qed

lemma accepted_in_force:
  assumes "mode_of opt = Signed_Required" and "ko_verifyKrl opt = Some verify" and "accepted_from opt now st st'"
  obtains i n where "in_force st' i n" "raised (krlVersionByIssuer st) (krlVersionByIssuer st')"
    "\<And>a. map_of (krlVersionByIssuer st) i = Some a \<Longrightarrow> \<not> is_nan a \<Longrightarrow> num_le a n"
    "st_lastIntegrity (krlStatus st') = Signed_List"
proof -
  from assms(3) obtain st1 body l where s: "same_list st st1"
    and p: "processKrlForMode opt body now st1 = Inr l \<or> runVerifyKrl opt body now st1 = Inr l"
    and st': "revokedKids st' = pl_revoked l" "krlVersionByIssuer st' = note_version (pl_updatedVersion l) (krlVersionByIssuer st1)"
      "st_lastIntegrity (krlStatus st') = pl_integrity l"
    unfolding accepted_from_def by blast
  from p assms(1) have "runVerifyKrl opt body now st1 = Inr l"
    by (auto simp: processKrlForMode_def split: if_splits)
  then show thesis
  proof (rule run_verified [OF assms(2)])
    fix i n
    assume g: "genuine body i n" "\<not> is_nan n" "pl_revoked l = extractRevokedKidsFromVerified body"
      "pl_updatedVersion l = Some (i, n)" "pl_integrity l = Signed_List"
      and r: "\<And>m. map_of (krlVersionByIssuer st1) i = Some m \<Longrightarrow> \<not> num_lt n m"
    have vs: "krlVersionByIssuer st' = AList.update i n (krlVersionByIssuer st1)" using st'(2) g(4) by (simp add: note_version_def)
    have r': "num_le a n" if "map_of (krlVersionByIssuer st1) i = Some a" "\<not> is_nan a" for a
      using r [OF that(1)] that(2) g(2) by (simp add: num_le_not_less)
    have "raised (krlVersionByIssuer st1) (krlVersionByIssuer st')"
      unfolding raised_def vs using r' by (auto simp: num_le_refl)
    with s have up: "raised (krlVersionByIssuer st) (krlVersionByIssuer st')" by (auto simp: same_list_def intro: raised_trans)
    have below: "num_le a n" if "map_of (krlVersionByIssuer st) i = Some a" "\<not> is_nan a" for a
    proof -
      from s that obtain b where "map_of (krlVersionByIssuer st1) i = Some b" "num_le a b"
        unfolding same_list_def raised_def by blast
      with r' show ?thesis using num_le_finite num_le_trans by blast
    qed
    have "in_force st' i n" unfolding in_force_def using g st'(1) vs by (auto simp: num_le_refl)
    then show thesis using that up below st'(3) g(5) by simp
  qed
qed

lemma kept_in_force: "same_list st st' \<Longrightarrow> in_force st i n \<Longrightarrow> in_force st' i n"
  unfolding in_force_def same_list_def raised_def by (metis num_le_finite num_le_trans)

end

lemma core_accepted:
  assumes "core_krl_verifier h clock keysets body now vs = Inr v" and "kv_ok v" and "kv_accepted v = Some (i, n)"
  shows "vr_ok (verifySignedKrl h clock \<lparr>vk_now = Some now, vk_trustedKeySets = Some keysets,
           vk_previousVersions = JObj (map (\<lambda>(i, v). (i, JNum v)) vs)\<rparr> body)"
    "getp body ''issuer'' = JStr i" "getp body ''krl_version'' = JNum n"
  using assms by (auto simp: core_krl_verifier_def Let_def split: jsval.splits if_splits)

lemma map_of_numbers: "map_of (map (\<lambda>(i, v). (i, JNum v)) vs) i = map_option JNum (map_of vs i)"
  by (induction vs) auto

interpretation core: krl_verifier "core_krl_verifier h clock keysets" "genuine_list h keysets" for h clock keysets
proof unfold_locales
  fix body now vs v i n
  assume a: "core_krl_verifier h clock keysets body now vs = Inr v" "kv_ok v" "kv_accepted v = Some (i, n)"
  note ok = core_accepted [OF a]
  have "genuine_list h keysets body i n" unfolding genuine_list_def using ok by (intro conjI exI) simp_all
  moreover have "\<not> is_nan n" using verifySignedKrl_ok(2) [OF ok(1)] ok(3) by (auto simp: krl_wellformed_def)
  ultimately show "genuine_list h keysets body i n \<and> \<not> is_nan n" ..
next
  fix body now vs v i n m
  assume a: "core_krl_verifier h clock keysets body now vs = Inr v" "kv_ok v" "kv_accepted v = Some (i, n)"
    and m: "map_of vs i = Some m"
  note ok = core_accepted [OF a]
  from verifySignedKrl_ok(5) [OF ok(1)] ok(2,3) m show "\<not> num_lt n m"
    by (simp add: krl_version_violations_def Let_def map_of_numbers)
qed

section \<open>Runs\<close>

text \<open>Any number of refreshes, one after another; in between the world may change in any way.\<close>

inductive refreshes :: "host \<Rightarrow> 'w key_store_options \<Rightarrow> key_store \<Rightarrow> key_store \<Rightarrow> bool" for h opt st where
  start: "refreshes h opt st st"
| step: "refreshes h opt st st1 \<Longrightarrow> refresh h opt (w, st1) = (r, (w', st')) \<Longrightarrow> refreshes h opt st st'"

definition list_in_force :: "host \<Rightarrow> trusted_key_sets \<Rightarrow> key_store \<Rightarrow> string \<Rightarrow> jsnum \<Rightarrow> bool" where
  "list_in_force h keysets st i n =
     ((\<exists>body. genuine_list h keysets body i n \<and> revokedKids st = extractRevokedKidsFromVerified body) \<and>
      (\<exists>b. map_of (krlVersionByIssuer st) i = Some b \<and> num_le n b))"

lemma list_in_force_eq: "core.in_force h keysets = list_in_force h keysets"
  by (simp add: fun_eq_iff core.in_force_def list_in_force_def)

lemma refresh_in_force:
  assumes "mode_of opt = Signed_Required" and "ko_verifyKrl opt = Some (core_krl_verifier h clock keysets)"
    and "refresh h opt (w, st) = (r, (w', st'))"
  shows "(\<exists>x. r = Inl x \<and> same_list st st') \<or>
    (r = Inr () \<and> raised (krlVersionByIssuer st) (krlVersionByIssuer st') \<and>
     (\<exists>i n. list_in_force h keysets st' i n \<and>
        (\<forall>a. map_of (krlVersionByIssuer st) i = Some a \<longrightarrow> \<not> is_nan a \<longrightarrow> num_le a n)))"
  using refresh_cases [OF assms(3)]
proof
  assume "r = Inr () \<and> accepted_from opt (ko_now opt w) st st'"
  with core.accepted_in_force [OF assms(1,2)] show ?thesis unfolding list_in_force_eq by metis
qed simp

lemma refreshes_raise:
  assumes "refreshes h opt st st'" and "mode_of opt = Signed_Required"
    and "ko_verifyKrl opt = Some (core_krl_verifier h clock keysets)"
  shows "raised (krlVersionByIssuer st) (krlVersionByIssuer st')"
  using assms(1)
proof induction
  case (step st1 w r w' st')
  from refresh_in_force [OF assms(2,3) step.hyps(2)] have "raised (krlVersionByIssuer st1) (krlVersionByIssuer st')"
    by (auto simp: same_list_def)
  with step.IH show ?case by (rule raised_trans)
qed simp

lemma refreshes_keep_list:
  assumes "refreshes h opt st st'" and "mode_of opt = Signed_Required"
    and "ko_verifyKrl opt = Some (core_krl_verifier h clock keysets)" and "list_in_force h keysets st i n"
  shows "\<exists>j m. list_in_force h keysets st' j m \<and> (j = i \<longrightarrow> num_le n m)"
  using assms(1)
proof induction
  case start
  from assms(4) have "num_le n n" using num_le_refl [of n] by (cases n) (auto simp: list_in_force_def)
  with assms(4) show ?case by blast
next
  case (step st1 w r w' st')
  from refresh_in_force [OF assms(2,3) step.hyps(2)] show ?case
  proof (elim disjE exE conjE)
    fix x assume "same_list st1 st'"
    with step.IH show ?case using core.kept_in_force unfolding list_in_force_eq by blast
  next
    fix j m
    assume l: "list_in_force h keysets st' j m" and a: "\<forall>a. map_of (krlVersionByIssuer st1) j = Some a \<longrightarrow> \<not> is_nan a \<longrightarrow> num_le a m"
    have "num_le n m" if "j = i"
    proof -
      from assms(4) refreshes_raise [OF step.hyps(1) assms(2,3)] obtain b where
        "map_of (krlVersionByIssuer st1) i = Some b" "num_le n b"
        by (auto simp: list_in_force_def raised_def) (metis num_le_finite num_le_trans)
      with a that show ?thesis using num_le_finite num_le_trans by blast
    qed
    with l show ?case by blast
  qed
qed

text \<open>A store has no key before it has a list in force.\<close>

lemma constructed_list:
  assumes "SiftHttpKeyStore opt = Inr st" and "refreshes h opt st st'" and "mode_of opt = Signed_Required"
    and "ko_verifyKrl opt = Some (core_krl_verifier h clock keysets)"
  shows "keyCache st' = [] \<or> (\<exists>i n. list_in_force h keysets st' i n)"
  using assms(2)
proof induction
  case start
  with assms(1) show ?case by (auto simp: SiftHttpKeyStore_def split: if_splits)
next
  case (step st1 w r w' st')
  from refresh_in_force [OF assms(3,4) step.hyps(2)] show ?case
  proof (elim disjE exE conjE)
    fix x assume "same_list st1 st'"
    with step.IH show ?case
      using core.kept_in_force unfolding list_in_force_eq same_list_def by metis
  qed blast
qed

lemma refreshes_append: "refreshes h opt st st1 \<Longrightarrow> refreshes h opt st1 st2 \<Longrightarrow> refreshes h opt st st2"
  by (rotate_tac, induction rule: refreshes.induct) (auto intro: refreshes.intros)

lemma kids_of_iff: "kid \<in> kids_of ks \<longleftrightarrow> JStr kid \<in> set ks"
proof -
  have "is_string v \<Longrightarrow> v = JStr (field_text v)" for v by (cases v) (auto simp: field_text_def)
  then show ?thesis by (force simp: kids_of_def field_text_def)
qed

lemma genuine_kids:
  assumes "genuine_list h keysets body i n"
  shows "\<exists>ks. getp body ''revoked_kids'' = JArr ks \<and> extractRevokedKidsFromVerified body = {kid. JStr kid \<in> set ks}"
proof -
  from assms obtain clock opt where ok: "vr_ok (verifySignedKrl h clock opt body)" by (auto simp: genuine_list_def)
  from verifySignedKrl_ok(2) [OF ok] obtain ks where "getp body ''revoked_kids'' = JArr ks" by (auto simp: krl_wellformed_def)
  with is_plain_object [OF verifySignedKrl_ok(1) [OF ok]] show ?thesis
    by (auto simp: extractRevokedKidsFromVerified_def kids_of_iff)
qed

end
