(* ===== verification/SiftBinding.thy ===== *)
theory SiftBinding
  imports SiftReceipt
begin

text \<open>
  From a verified receipt to an authorization payload: \<open>normalizeIntent.ts\<close>, \<open>state.ts\<close> and
  \<open>receiptToAuthorization.ts\<close> of \<open>packages/sift/src\<close>.
\<close>

section \<open>Plain values\<close>

text \<open>
  Both files carry the same \<open>normalizeValue\<close>, up to the codes: \<open>unsupported\<close> for a value of another type and
  \<open>emptykey\<close> for an empty key.
\<close>

definition type_label :: "jsval \<Rightarrow> string" where
  "type_label v = (case v of JBig _ \<Rightarrow> ''bigint'' | JUndef \<Rightarrow> ''undefined'' | JFun \<Rightarrow> ''function'' | _ \<Rightarrow> ''object'')"

function (sequential) normalizeValue :: "'c \<Rightarrow> 'c \<Rightarrow> string \<Rightarrow> jsval \<Rightarrow> ('c \<times> string) + jsval" where
  "normalizeValue u e pos JNull = Inr JNull"
| "normalizeValue u e pos (JBool b) = Inr (JBool b)"
| "normalizeValue u e pos (JStr s) = Inr (JStr s)"
| "normalizeValue u e pos (JNum n) =
     (if is_safe_integer n then Inr (JNum n)
      else Inl (u, ''Value at '' @ quoted pos @ '' is not a safe integer (floats, NaN, and Infinity are not allowed)''))"
| "normalizeValue u e pos (JArr xs) =
     bindE (mapE (\<lambda>(i, x). normalizeValue u e (pos @ ''['' @ nat_str i @ '']'') x) (enumerate 0 xs)) (\<lambda>ys. Inr (JArr ys))"
| "normalizeValue u e pos (JObj kvs) =
     bindE (mapE (\<lambda>(k, x). if k = [] then Inl (e, ''Empty string key found at '' @ quoted pos)
                         else bindE (normalizeValue u e (pos @ ''.'' @ k) x) (\<lambda>y. Inr (k, y))) kvs)
       (\<lambda>es. Inr (JObj es))"
| "normalizeValue u e pos v = Inl (u, ''Value at '' @ quoted pos @ '' has an unsupported type: '' @ type_label v)"
  by pat_completeness auto
termination
  by (relation "measure (\<lambda>(u, e, p, v). size v)")
    (auto dest: jsobj_size simp: in_set_enumerate_eq less_Suc_eq_le intro: size_list_estimation' [OF nth_mem order_refl])

text \<open>The members of the top-level object, each at its own key.\<close>

definition normalize_members :: "'c \<Rightarrow> 'c \<Rightarrow> string \<Rightarrow> (string \<times> jsval) list \<Rightarrow> ('c \<times> string) + (string \<times> jsval) list" where
  "normalize_members u e empty_text kvs =
     mapE (\<lambda>(k, x). if k = [] then Inl (e, empty_text) else bindE (normalizeValue u e k x) (\<lambda>y. Inr (k, y))) kvs"

section \<open>The intent\<close>

datatype intent_code =
    INVALID_PARAMS | AMBIGUOUS_INTENT | ACTION_MISMATCH | TOOL_MISMATCH | UNSUPPORTED_PARAM_TYPE

definition mismatch :: "string option \<Rightarrow> string \<Rightarrow> bool" where
  "mismatch expected v = (case expected of Some s \<Rightarrow> v \<noteq> s | None \<Rightarrow> False)"

definition mismatch_text :: "string \<Rightarrow> string option \<Rightarrow> string \<Rightarrow> string" where
  "mismatch_text what expected v = ''Expected '' @ what @ '' '' @ quoted (the expected) @ '' but receipt has '' @ quoted v"

definition normalizeIntent ::
  "sift_receipt \<Rightarrow> jsval \<Rightarrow> string option \<Rightarrow> string option \<Rightarrow> (intent_code \<times> string) + jsval" where
  "normalizeIntent r params expectedAction expectedTool =
     (if mismatch expectedAction (sr_action r)
      then Inl (ACTION_MISMATCH, mismatch_text ''action'' expectedAction (sr_action r))
      else if mismatch expectedTool (sr_tool r)
      then Inl (TOOL_MISMATCH, mismatch_text ''tool'' expectedTool (sr_tool r))
      else if sr_tool r = [] then Inl (AMBIGUOUS_INTENT, ''Receipt tool is missing or empty'')
      else if nullish params
      then Inl (AMBIGUOUS_INTENT,
             ''Explicit params are required; a Sift receipt alone is not sufficient to construct executable intent'')
      else if \<not> is_plain params
      then Inl (INVALID_PARAMS, ''params must be a plain object; arrays and primitives are not allowed at the top level'')
      else bindE (normalize_members UNSUPPORTED_PARAM_TYPE INVALID_PARAMS ''Empty string keys are not allowed in params''
                    (entries params)) (\<lambda>ps.
        Inr (JObj [(''type'', JStr ''EXECUTE''), (''tool'', JStr (sr_tool r)), (''params'', JObj ps)])))"

section \<open>The state\<close>

datatype state_code = MISSING_STATE | INVALID_STATE | MISSING_REQUIRED_STATE_KEY | UNSUPPORTED_STATE_VALUE

definition require_keys :: "string list \<Rightarrow> (string \<times> jsval) list \<Rightarrow> (state_code \<times> string) + unit" where
  "require_keys ks es =
     (case find (\<lambda>k. k \<notin> fst ` set es) ks of
        Some k \<Rightarrow> Inl (MISSING_REQUIRED_STATE_KEY, ''Required state key '' @ quoted k @ '' is missing'')
      | None \<Rightarrow> Inr ())"

definition normalizeState :: "jsval \<Rightarrow> string list option \<Rightarrow> (state_code \<times> string) + jsval" where
  "normalizeState st requiredKeys =
     (if nullish st then Inl (MISSING_STATE, ''State is required; null and undefined are not accepted'')
      else if \<not> is_plain st
      then Inl (INVALID_STATE,
             ''State must be a plain object; arrays, primitives, and class instances are not allowed at the top level'')
      else bindE (normalize_members UNSUPPORTED_STATE_VALUE INVALID_STATE ''Empty string keys are not allowed in state''
                    (entries st)) (\<lambda>es.
           bindE (require_keys (case requiredKeys of Some ks \<Rightarrow> ks | None \<Rightarrow> []) es) (\<lambda>_. Inr (JObj es))))"

section \<open>The authorization\<close>

record binding_input =
  bi_receipt :: sift_receipt
  bi_intent :: jsval
  bi_state :: jsval
  bi_issuer :: string
  bi_audience :: string
  bi_keyId :: string
  bi_ttlSeconds :: "jsnum option"
  bi_now :: "jsnum option"

datatype binding_code =
    INVALID_RECEIPT_DECISION | INVALID_BINDING_INPUT | INVALID_AUDIENCE | INVALID_ISSUER | INVALID_KEY_ID
  | INVALID_POLICY_ID | INVALID_NOW | INVALID_TTL | INTENT_HASH_FAILED | STATE_HASH_FAILED

definition DEFAULT_TTL_SECONDS :: jsnum where
  "DEFAULT_TTL_SECONDS = jint 30"

definition seconds_of :: "jsnum \<Rightarrow> jsnum" where  \<comment> \<open>\<open>Math.floor(ms / 1000)\<close>\<close>
  "seconds_of ms =
     (case ms of
        Fin r \<Rightarrow> (case rnd (r / 1000) of Fin q \<Rightarrow> jint \<lfloor>q\<rfloor> | n \<Rightarrow> n)
      | n \<Rightarrow> n)"

record sift_binding =
  sb_authorization :: jsval
  sb_signingPayload :: jsval

definition binding_fields ::
  "binding_input \<Rightarrow> string \<Rightarrow> string \<Rightarrow> jsnum \<Rightarrow> jsnum \<Rightarrow> (string \<times> jsval) list" where
  "binding_fields b ih sh issuedAt expiresAt =
     [(''version'', JStr ''AuthorizationV1''), (''auth_id'', JStr (sr_nonce (bi_receipt b))), (''issuer'', JStr (bi_issuer b)),
      (''audience'', JStr (bi_audience b)), (''decision'', JStr ''ALLOW''), (''intent_hash'', JStr ih),
      (''state_hash'', JStr sh), (''policy_id'', JStr (sr_policy_matched (bi_receipt b))),
      (''issued_at'', JNum issuedAt), (''expires_at'', JNum expiresAt)]"

definition signature_of :: "string \<Rightarrow> (string \<times> jsval) list \<Rightarrow> jsval" where
  "signature_of kid rest = JObj ([(''alg'', JStr ''ed25519''), (''kid'', JStr kid)] @ rest)"

definition hash_failed :: "binding_code \<Rightarrow> string \<Rightarrow> 'a res \<Rightarrow> (binding_code \<times> string) + 'a" where
  "hash_failed c what r = (case r of Inl x \<Rightarrow> Inl (c, what @ error_message (Foreign x)) | Inr d \<Rightarrow> Inr d)"

definition receiptToAuthorization ::
  "host \<Rightarrow> jsnum \<Rightarrow> binding_input \<Rightarrow> (binding_code \<times> string) + sift_binding" where
  "receiptToAuthorization h clock b =
     (let r = bi_receipt b;
          ttl = (case bi_ttlSeconds b of Some t \<Rightarrow> t | None \<Rightarrow> DEFAULT_TTL_SECONDS);
          nowMs = (case bi_now b of Some t \<Rightarrow> t | None \<Rightarrow> clock)
      in if sr_decision r \<noteq> SIFT_ALLOW
         then Inl (INVALID_RECEIPT_DECISION, ''Receipt decision must be ALLOW, got: DENY'')
         else if bi_issuer b = [] then Inl (INVALID_ISSUER, ''issuer must be a non-empty string'')
         else if bi_audience b = [] then Inl (INVALID_AUDIENCE, ''audience must be a non-empty string'')
         else if bi_keyId b = [] then Inl (INVALID_KEY_ID, ''keyId must be a non-empty string'')
         else if sr_policy_matched r = [] then Inl (INVALID_POLICY_ID, ''receipt.policy_matched must be a non-empty string'')
         else if \<not> is_object (bi_intent b) then Inl (INVALID_BINDING_INPUT, ''intent must be a non-null object'')
         else if \<not> is_object (bi_state b) then Inl (INVALID_BINDING_INPUT, ''state must be a non-null object'')
         else if \<not> is_safe_integer ttl \<or> num_le ttl (jint 0) then Inl (INVALID_TTL, ''ttlSeconds must be a positive safe integer'')
         else if \<not> is_finite nowMs then Inl (INVALID_NOW, ''now must be a valid Date'')
         else let issuedAt = seconds_of nowMs; expiresAt = num_add issuedAt ttl
              in bindE (hash_failed INTENT_HASH_FAILED ''Failed to canonicalize intent: '' (siftCanonicalJsonHash h (bi_intent b))) (\<lambda>ih.
                 bindE (hash_failed STATE_HASH_FAILED ''Failed to canonicalize state: '' (siftCanonicalJsonHash h (bi_state b))) (\<lambda>sh.
                 let fs = binding_fields b ih sh issuedAt expiresAt
                 in Inr \<lparr>sb_authorization = JObj (fs @ [(''signature'', signature_of (bi_keyId b) [(''sig'', JStr [])])]),
                         sb_signingPayload = JObj (fs @ [(''signature'', signature_of (bi_keyId b) [])])\<rparr>)))"

section \<open>Normalised values\<close>

text \<open>What normalisation accepts it returns unchanged, and it has a canonical form.\<close>

lemma mapE_map_Inr:
  assumes "mapE f xs = Inr ys" and "\<And>x y. x \<in> set xs \<Longrightarrow> f x = Inr y \<Longrightarrow> y = g x"
  shows "ys = map g xs"
  using assms by (induction xs arbitrary: ys) (auto simp: bindE_eq_Inr)

lemma sift_array:
  assumes "\<And>x. x \<in> set xs \<Longrightarrow> \<exists>c. siftCanonicalize x = Inr c"
  shows "\<exists>c. siftCanonicalize (JArr xs) = Inr c"
  using mapE_total [of xs siftCanonicalize] assms by auto

lemma sift_members:
  assumes "\<And>k x. (k, x) \<in> set kvs \<Longrightarrow> \<exists>c. siftCanonicalize x = Inr c"
  shows "\<exists>c. siftCanonicalize (JObj kvs) = Inr c"
  using mapE_total [of "sort_key (u16_key \<circ> fst) kvs" "\<lambda>(k, v). bindE (siftCanonicalize v) (\<lambda>w. Inr (k, w))"] assms
  by fastforce

lemma normalizeValue_same: "normalizeValue u e pos v = Inr w \<Longrightarrow> w = v \<and> (\<exists>c. siftCanonicalize v = Inr c)"
proof (induction u e pos v arbitrary: w rule: normalizeValue.induct)
  case (5 u e pos xs)
  then obtain ys where ys: "mapE (\<lambda>(i, x). normalizeValue u e (pos @ ''['' @ nat_str i @ '']'') x) (enumerate 0 xs) = Inr ys"
    and w: "w = JArr ys" by (auto simp: bindE_eq_Inr)
  have "ys = map snd (enumerate 0 xs)"
    by (rule mapE_map_Inr [OF ys]) (use 5(1) in fastforce)
  moreover have "\<exists>c. siftCanonicalize x = Inr c" if "x \<in> set xs" for x
  proof -
    from that obtain i where "i < length xs" "xs ! i = x" by (auto simp: in_set_conv_nth)
    then have i: "(i, x) \<in> set (enumerate 0 xs)" by (simp add: in_set_enumerate_eq)
    with mapE_InrD [OF ys] obtain y where "normalizeValue u e (pos @ ''['' @ nat_str i @ '']'') x = Inr y" by fastforce
    with 5(1) i show ?thesis by blast
  qed
  ultimately show ?case using sift_array [of xs] w by (simp del: siftCanonicalize.simps)
next
  case (6 u e pos kvs)
  let ?f = "\<lambda>(k, x). if k = [] then Inl (e, ''Empty string key found at '' @ quoted pos)
      else bindE (normalizeValue u e (pos @ ''.'' @ k) x) (\<lambda>y. Inr (k, y))"
  from 6(2) obtain es where es: "mapE ?f kvs = Inr es" and w: "w = JObj es" by (auto simp: bindE_eq_Inr)
  have "es = map id kvs"
    by (rule mapE_map_Inr [OF es]) (use 6(1) in \<open>fastforce simp: bindE_eq_Inr split: if_splits\<close>)
  moreover have "\<exists>c. siftCanonicalize x = Inr c" if "(k, x) \<in> set kvs" for k x
    using mapE_InrD [OF es that] 6(1) [OF that refl] by (auto simp: bindE_eq_Inr split: if_splits)
  ultimately show ?case using sift_members [of kvs] w by (simp del: siftCanonicalize.simps)
qed (auto split: if_splits simp: is_safe_integer_jint)

lemma normalize_members_same:
  assumes "normalize_members u e m kvs = Inr es"
  shows "es = kvs" "\<exists>c. siftCanonicalize (JObj kvs) = Inr c"
proof -
  let ?f = "\<lambda>(k, x). if k = [] then Inl (e, m) else bindE (normalizeValue u e k x) (\<lambda>y. Inr (k, y))"
  have es: "mapE ?f kvs = Inr es" using assms by (simp add: normalize_members_def)
  have "es = map id kvs"
    by (rule mapE_map_Inr [OF es]) (auto simp: bindE_eq_Inr dest: normalizeValue_same split: if_splits)
  then show "es = kvs" by simp
  show "\<exists>c. siftCanonicalize (JObj kvs) = Inr c"
  proof (rule sift_members)
    fix k x assume "(k, x) \<in> set kvs"
    from mapE_InrD [OF es this] show "\<exists>c. siftCanonicalize x = Inr c"
      by (auto simp: bindE_eq_Inr dest: normalizeValue_same split: if_splits)
  qed
qed

lemma normalizeIntent_Inr:
  assumes "normalizeIntent r params ea et = Inr intent"
  shows "intent = JObj [(''type'', JStr ''EXECUTE''), (''tool'', JStr (sr_tool r)), (''params'', params)]"
    "\<not> mismatch ea (sr_action r)" "\<not> mismatch et (sr_tool r)" "\<exists>c. siftCanonicalize intent = Inr c"
proof -
  from assms obtain kvs ps where p: "params = JObj kvs" and
    n: "normalize_members UNSUPPORTED_PARAM_TYPE INVALID_PARAMS ''Empty string keys are not allowed in params'' kvs = Inr ps" and
    i: "intent = JObj [(''type'', JStr ''EXECUTE''), (''tool'', JStr (sr_tool r)), (''params'', JObj ps)]" and
    m: "\<not> mismatch ea (sr_action r)" "\<not> mismatch et (sr_tool r)"
    by (cases params) (auto simp: normalizeIntent_def bindE_eq_Inr split: if_splits)
  note same = normalize_members_same [OF n]
  show "intent = JObj [(''type'', JStr ''EXECUTE''), (''tool'', JStr (sr_tool r)), (''params'', params)]"
    using i p same by simp
  show "\<not> mismatch ea (sr_action r)" "\<not> mismatch et (sr_tool r)" by fact+
  show "\<exists>c. siftCanonicalize intent = Inr c"
    unfolding i by (rule sift_members) (use same in \<open>auto simp del: siftCanonicalize.simps(7)\<close>)
qed

lemma normalizeState_Inr:
  assumes "normalizeState st keys = Inr st'"
  shows "st' = st" "is_plain st" "\<exists>c. siftCanonicalize st = Inr c"
    "\<And>ks. keys = Some ks \<Longrightarrow> \<forall>k \<in> set ks. has_own st k"
proof -
  from assms obtain kvs es where s: "st = JObj kvs" and
    n: "normalize_members UNSUPPORTED_STATE_VALUE INVALID_STATE ''Empty string keys are not allowed in state'' kvs = Inr es" and
    r: "require_keys (case keys of Some ks \<Rightarrow> ks | None \<Rightarrow> []) es = Inr ()" and st': "st' = JObj es"
    by (cases st) (auto simp: normalizeState_def bindE_eq_Inr split: if_splits)
  note same = normalize_members_same [OF n]
  show "st' = st" "is_plain st" "\<exists>c. siftCanonicalize st = Inr c" using s st' same by simp_all
  show "\<forall>k \<in> set ks. has_own st k" if "keys = Some ks" for ks
    using r that s same by (auto simp: require_keys_def has_own_def find_None_iff split: option.splits)
qed

section \<open>The binding\<close>

lemma siftHash_total: "siftCanonicalize v = Inr c \<Longrightarrow> \<exists>d. siftCanonicalJsonHash h v = Inr d"
  using sift_bytes_total [of v c h] by (auto simp: siftCanonicalJsonHash_def)

text \<open>A payload that was constructed says what the receipt, the intent and the state said.\<close>

lemma receiptToAuthorization_Inr:
  assumes "receiptToAuthorization h clock b = Inr p"
  obtains ih sh where "siftCanonicalJsonHash h (bi_intent b) = Inr ih" "siftCanonicalJsonHash h (bi_state b) = Inr sh"
    "sr_decision (bi_receipt b) = SIFT_ALLOW"
  using assms by (auto simp: receiptToAuthorization_def Let_def bindE_eq_Inr hash_failed_def split: if_splits sum.splits)

end
