(* ===== verification/SiftProperties.thy ===== *)
theory SiftProperties
  imports SiftBinding VerifierDemo
begin

text \<open>
  The properties of the Sift receipt path: what an accepted receipt is worth, and that an accepted receipt with
  plain parameters and a plain state always gives the authorization payload it stands for.
\<close>

section \<open>Accepted receipts\<close>

lemma mapE_required:
  assumes "mapE (required_text raw) fs = Inr ts" and "f \<in> set fs"
  shows "getp raw f = JStr (field_text (getp raw f)) \<and> field_text (getp raw f) \<noteq> []"
  using mapE_InrD [OF assms]
  by (auto simp: required_text_def field_text_def split: jsval.splits list.splits)

lemma parseReceipt_Inr:
  assumes "parseReceipt h raw = Inr r"
  shows "getp raw ''tenant_id'' = JStr (sr_tenant_id r)" "getp raw ''agent_id'' = JStr (sr_agent_id r)"
    "getp raw ''action'' = JStr (sr_action r)" "getp raw ''tool'' = JStr (sr_tool r)"
    "getp raw ''nonce'' = JStr (sr_nonce r)" "getp raw ''policy_matched'' = JStr (sr_policy_matched r)"
    "sr_policy_matched r \<noteq> []" "sr_decision r = SIFT_ALLOW \<longleftrightarrow> getp raw ''decision'' = JStr ''ALLOW''"
proof -
  from assms obtain ts where "mapE (required_text raw) receipt_fields = Inr ts"
    by (auto simp: parseReceipt_def bindE_eq_Inr split: if_splits)
  note req = mapE_required [OF this]
  have e: "sr_tenant_id r = field_text (getp raw ''tenant_id'')" "sr_agent_id r = field_text (getp raw ''agent_id'')"
    "sr_action r = field_text (getp raw ''action'')" "sr_tool r = field_text (getp raw ''tool'')"
    "sr_nonce r = field_text (getp raw ''nonce'')" "sr_policy_matched r = field_text (getp raw ''policy_matched'')"
    "sr_decision r = SIFT_ALLOW \<longleftrightarrow> getp raw ''decision'' = JStr ''ALLOW''"
    using assms by (auto simp: parseReceipt_def bindE_eq_Inr Let_def split: if_splits jsval.splits)
  show "getp raw ''tenant_id'' = JStr (sr_tenant_id r)" "getp raw ''agent_id'' = JStr (sr_agent_id r)"
    "getp raw ''action'' = JStr (sr_action r)" "getp raw ''tool'' = JStr (sr_tool r)"
    "getp raw ''nonce'' = JStr (sr_nonce r)" "getp raw ''policy_matched'' = JStr (sr_policy_matched r)"
    "sr_policy_matched r \<noteq> []" "sr_decision r = SIFT_ALLOW \<longleftrightarrow> getp raw ''decision'' = JStr ''ALLOW''"
    unfolding e using req by (auto simp: receipt_fields_def)
qed

text \<open>The signature of a receipt under a key: a key of full order, and a signature over the canonical payload.\<close>

definition signed_under :: "host \<Rightarrow> string \<Rightarrow> sift_receipt \<Rightarrow> bool" where
  "signed_under h key r =
     ((\<exists>hex. wire_key h key = Inr (Some hex) \<and> hex \<notin> set SMALL_ORDER_ED25519) \<and>
      (\<exists>m. siftCanonicalJsonBytes h (signed_payload r) = Inr m \<and> ed_verify h key m (b64uDecode (sr_signature r)) = Inr True))"

definition in_age :: "(string \<Rightarrow> jsnum) \<Rightarrow> jsnum \<Rightarrow> jsnum \<Rightarrow> sift_receipt \<Rightarrow> bool" where
  "in_age parse_date now maxAge r =
     (let ms = parse_date (sr_timestamp r)
      in is_finite ms \<and> \<not> num_lt (num_sub now ms) (num_neg MAX_FUTURE_SKEW_MS) \<and> \<not> num_lt maxAge (num_sub now ms))"

lemma check_signature_Inr:
  assumes "check_signature h key r = Inr ()" and "\<not> isSmallOrderEd25519Key h key"
  shows "signed_under h key r"
  using assms
  by (auto simp: check_signature_def signed_under_def Let_def isSmallOrderEd25519Key_def bindE_eq_Inr b64uDecode_def
      split: if_splits sum.splits option.splits)

lemma verifyReceipt_Inr:
  assumes "verifyReceipt h parse_date clock raw opt = Inr a"
  obtains key where "parseReceipt h raw = Inr (ar_receipt a)" "receipt_key h opt = Inr key" "signed_under h key (ar_receipt a)"
    "siftCanonicalJsonHash h (JObj (receipt_payload (ar_receipt a))) = Inr (ar_receiptHash a)"
    "normalizeHashHex (sr_receipt_hash (ar_receipt a)) = ar_receiptHash a"
    "ro_requireAllowDecision opt \<noteq> Some False \<Longrightarrow> sr_decision (ar_receipt a) = SIFT_ALLOW"
    "in_age parse_date (ar_verifiedAt a) (case ro_maxAgeMs opt of Some m \<Rightarrow> m | None \<Rightarrow> DEFAULT_MAX_AGE_MS) (ar_receipt a)"
    "ar_verifiedAt a = (case ro_now opt of Some t \<Rightarrow> t | None \<Rightarrow> clock)"
  using assms
  by (auto simp: verifyReceipt_def bindE_eq_Inr Let_def computeReceiptHash_def check_age_def in_age_def
      split: if_splits sum.splits dest: check_signature_Inr)

lemma keystore_key_Inr:
  assumes "keystore_key ks kid w = (Inr k, w')"
  obtains w1 w2 where "ks_isKidRevoked ks kid w1 = (Inr False, w2)" "ks_getPublicKeyByKid ks kid w2 = (Inr (Some k), w')"
  using assms
  by (auto simp: keystore_key_def refreshed_key_def unrevoked_key_def split: prod.splits sum.splits bool.splits option.splits)

text \<open>
  C22: A receipt accepted with a key store was signed by the key the store gave for the kid, after the store had
  said, at the last look and with nothing in between, that the kid is not revoked. The key has full order; the
  signature covers the canonical form of every field but itself; the receipt hash is the digest of the rest;
  the decision is ALLOW unless the caller asked for less; and the receipt is neither older than the limit nor
  more than five seconds in the future.
\<close>

theorem accepted_sift_receipt_genuine:
  assumes "verifyReceiptWithKeyStore h parse_date clock ks kid raw opt w = (Inr a, w')"
  shows "\<exists>k w1 w2 key. ks_isKidRevoked ks kid w1 = (Inr False, w2) \<and> ks_getPublicKeyByKid ks kid w2 = (Inr (Some k), w') \<and>
     length k = 32 \<and> key = spki_pem (ED25519_SPKI_PREFIX @ k) \<and> signed_under h key (ar_receipt a) \<and>
     parseReceipt h raw = Inr (ar_receipt a) \<and>
     siftCanonicalJsonHash h (JObj (receipt_payload (ar_receipt a))) = Inr (normalizeHashHex (sr_receipt_hash (ar_receipt a))) \<and>
     (ro_requireAllowDecision opt \<noteq> Some False \<longrightarrow> getp raw ''decision'' = JStr ''ALLOW'') \<and>
     in_age parse_date (case ro_now opt of Some t \<Rightarrow> t | None \<Rightarrow> clock)
       (case ro_maxAgeMs opt of Some m \<Rightarrow> m | None \<Rightarrow> DEFAULT_MAX_AGE_MS) (ar_receipt a)"
proof -
  from assms obtain k where k: "keystore_key ks kid w = (Inr k, w')"
    and v: "verifyReceipt h parse_date clock raw (opt\<lparr>ro_publicKeyRaw := Some (KeyBytes k)\<rparr>) = Inr a"
    by (auto simp: verifyReceiptWithKeyStore_def split: if_splits prod.splits sum.splits)
  from k obtain w1 w2 where s: "ks_isKidRevoked ks kid w1 = (Inr False, w2)" "ks_getPublicKeyByKid ks kid w2 = (Inr (Some k), w')"
    by (rule keystore_key_Inr)
  from v show ?thesis
  proof (rule verifyReceipt_Inr)
    fix key
    assume p: "parseReceipt h raw = Inr (ar_receipt a)"
      and key: "receipt_key h (opt\<lparr>ro_publicKeyRaw := Some (KeyBytes k)\<rparr>) = Inr key" "signed_under h key (ar_receipt a)"
      and rest: "siftCanonicalJsonHash h (JObj (receipt_payload (ar_receipt a))) = Inr (ar_receiptHash a)"
      "normalizeHashHex (sr_receipt_hash (ar_receipt a)) = ar_receiptHash a"
      "ro_requireAllowDecision (opt\<lparr>ro_publicKeyRaw := Some (KeyBytes k)\<rparr>) \<noteq> Some False \<Longrightarrow> sr_decision (ar_receipt a) = SIFT_ALLOW"
      "in_age parse_date (ar_verifiedAt a)
         (case ro_maxAgeMs (opt\<lparr>ro_publicKeyRaw := Some (KeyBytes k)\<rparr>) of Some m \<Rightarrow> m | None \<Rightarrow> DEFAULT_MAX_AGE_MS) (ar_receipt a)"
      "ar_verifiedAt a = (case ro_now (opt\<lparr>ro_publicKeyRaw := Some (KeyBytes k)\<rparr>) of Some t \<Rightarrow> t | None \<Rightarrow> clock)"
    from key(1) have "length k = 32 \<and> key = spki_pem (ED25519_SPKI_PREFIX @ k)"
      by (auto simp: receipt_key_def publicKeyFromRaw_def key_bytes_def Let_def bindE_eq_Inr split: sum.splits if_splits)
    with s p key(2) rest parseReceipt_Inr(8) [OF p] show ?thesis by (intro exI conjI) auto
  qed
qed

section \<open>The authorization of a receipt\<close>

text \<open>
  C26: An accepted ALLOW receipt, parameters and a state that normalise, and named parties always give an
  authorization payload. Its identifier is the nonce of the receipt, its policy the matched policy, its hashes
  are the digests of exactly the tool of the receipt with the given parameters and of the given state, and it
  lives for the requested time from the second it was built. What is to be signed is the payload without the
  signature value.
\<close>

theorem receipt_binding_complete:
  assumes "verifyReceipt h parse_date clock raw opt = Inr a" and "ro_requireAllowDecision opt \<noteq> Some False"
    and "normalizeIntent (ar_receipt a) params ea et = Inr intent" and "normalizeState st keys = Inr st'"
    and "issuer \<noteq> []" and "audience \<noteq> []" and "keyId \<noteq> []"
    and "0 < ttl" and "ttl \<le> max_safe" and "is_finite now"
  shows "\<exists>ih sh fs. siftCanonicalJsonHash h (JObj [(''type'', JStr ''EXECUTE''), (''tool'', getp raw ''tool''), (''params'', params)]) = Inr ih \<and>
     siftCanonicalJsonHash h st = Inr sh \<and>
     fs = [(''version'', JStr ''AuthorizationV1''), (''auth_id'', getp raw ''nonce''), (''issuer'', JStr issuer),
           (''audience'', JStr audience), (''decision'', JStr ''ALLOW''), (''intent_hash'', JStr ih), (''state_hash'', JStr sh),
           (''policy_id'', getp raw ''policy_matched''), (''issued_at'', JNum (seconds_of now)),
           (''expires_at'', JNum (num_add (seconds_of now) (jint ttl)))] \<and>
     receiptToAuthorization h clock
       \<lparr>bi_receipt = ar_receipt a, bi_intent = intent, bi_state = st', bi_issuer = issuer, bi_audience = audience,
        bi_keyId = keyId, bi_ttlSeconds = Some (jint ttl), bi_now = Some now\<rparr> =
       Inr \<lparr>sb_authorization = JObj (fs @ [(''signature'', JObj [(''alg'', JStr ''ed25519''), (''kid'', JStr keyId), (''sig'', JStr [])])]),
            sb_signingPayload = JObj (fs @ [(''signature'', JObj [(''alg'', JStr ''ed25519''), (''kid'', JStr keyId)])])\<rparr>"
  using assms(1)
proof (rule verifyReceipt_Inr)
  fix key
  assume p: "parseReceipt h raw = Inr (ar_receipt a)"
    and d: "ro_requireAllowDecision opt \<noteq> Some False \<Longrightarrow> sr_decision (ar_receipt a) = SIFT_ALLOW"
  note fields = parseReceipt_Inr [OF p]
  note intent = normalizeIntent_Inr [OF assms(3)]
  note state = normalizeState_Inr [OF assms(4)]
  from intent(4) obtain ih where ih: "siftCanonicalJsonHash h intent = Inr ih" using siftHash_total by blast
  from state(3) obtain sh where sh: "siftCanonicalJsonHash h st = Inr sh" using siftHash_total by blast
  have t: "is_safe_integer (jint ttl) \<and> \<not> num_le (jint ttl) (jint 0)" using assms(8,9) by simp
  have o: "is_object intent" "is_object st'" using intent(1) state(1,2) is_plain_object [of st] by simp_all
  show ?thesis
    by (rule exI [of _ ih], rule exI [of _ sh])
      (use ih sh t o d assms(2,5-10) fields(4-7) intent(1) state(1) in
        \<open>simp add: receiptToAuthorization_def Let_def hash_failed_def binding_fields_def signature_of_def\<close>)
qed

section \<open>A receipt\<close>

definition demo_receipt :: jsval where
  "demo_receipt =
     JObj [(''receipt_version'', JStr ''1.0''), (''tenant_id'', JStr ''t''), (''agent_id'', JStr ''b''), (''action'', JStr ''call''),
           (''tool'', JStr ''x''), (''decision'', JStr ''ALLOW''), (''risk_tier'', JNum (jint 1)), (''timestamp'', JStr ''now''),
           (''nonce'', JStr ''n''), (''policy_matched'', JStr ''p''), (''receipt_hash'', JStr (''SHA256:'' @ demo_hash)),
           (''signature'', JStr (to_base64 (replicate 64 CHR ''s'')))]"

definition demo_receipt_options :: receipt_options where
  "demo_receipt_options =
     \<lparr>ro_publicKeyRaw = None, ro_publicKeyPem = Some ''pk'', ro_now = Some (jint 1020), ro_maxAgeMs = None,
      ro_requireAllowDecision = None\<rparr>"

text \<open>A store that learns the key only by refreshing; the world says whether it has.\<close>

definition demo_key_store :: "bool sift_key_store" where
  "demo_key_store =
     \<lparr>ks_isKidRevoked = (\<lambda>_ w. (Inr False, w)),
      ks_getPublicKeyByKid = (\<lambda>_ w. (Inr (if w then Some (replicate 32 CHR ''q'') else None), w)),
      ks_refresh = (\<lambda>_. (Inr (), True))\<rparr>"

lemma demo_receipt_checked:
  "case verifyReceipt demo_host (\<lambda>_. jint 1000) (jint 0) demo_receipt demo_receipt_options of Inr _ \<Rightarrow> True | Inl _ \<Rightarrow> False"
  by code_simp

lemma demo_stored_receipt_checked:
  "case verifyReceipt demo_host (\<lambda>_. jint 1000) (jint 0) demo_receipt
     (demo_receipt_options\<lparr>ro_publicKeyRaw := Some (KeyBytes (replicate 32 CHR ''q''))\<rparr>) of Inr _ \<Rightarrow> True | Inl _ \<Rightarrow> False"
  by code_simp

lemma demo_store_accepts:
  "\<exists>a. verifyReceiptWithKeyStore demo_host (\<lambda>_. jint 1000) (jint 0) demo_key_store ''k'' demo_receipt demo_receipt_options False = (Inr a, True)"
proof -
  have "keystore_key demo_key_store ''k'' False = (Inr (replicate 32 CHR ''q''), True)"
    by (simp add: keystore_key_def refreshed_key_def unrevoked_key_def demo_key_store_def)
  then show ?thesis
    using demo_stored_receipt_checked by (simp add: verifyReceiptWithKeyStore_def split: sum.splits)
qed

theorem accepted_sift_receipt_genuine_witness:
  "\<exists>k w1 w2 r. ks_isKidRevoked demo_key_store ''k'' w1 = (Inr False, w2) \<and>
     ks_getPublicKeyByKid demo_key_store ''k'' w2 = (Inr (Some k), True) \<and> length k = 32 \<and>
     signed_under demo_host (spki_pem (ED25519_SPKI_PREFIX @ k)) r"
proof -
  from demo_store_accepts obtain a where
    "verifyReceiptWithKeyStore demo_host (\<lambda>_. jint 1000) (jint 0) demo_key_store ''k'' demo_receipt demo_receipt_options False = (Inr a, True)" ..
  from accepted_sift_receipt_genuine [OF this] show ?thesis by blast
qed

definition demo_sift_params :: jsval where
  "demo_sift_params = JObj [(''n'', JArr [JNum (jint 2), JStr ''v'']), (''m'', JNull)]"

lemma demo_sift_params_normal: "normalize_members u e m (entries demo_sift_params) = Inr (entries demo_sift_params)"
  by (simp add: normalize_members_def demo_sift_params_def max_safe_def)

theorem receipt_binding_complete_witness:
  "\<exists>a ih sh b. verifyReceipt demo_host (\<lambda>_. jint 1000) (jint 0) demo_receipt demo_receipt_options = Inr a \<and>
     siftCanonicalJsonHash demo_host (JObj [(''type'', JStr ''EXECUTE''), (''tool'', getp demo_receipt ''tool''), (''params'', demo_sift_params)]) = Inr ih \<and>
     siftCanonicalJsonHash demo_host demo_sift_params = Inr sh \<and>
     receiptToAuthorization demo_host (jint 0)
       \<lparr>bi_receipt = ar_receipt a, bi_intent = JObj [(''type'', JStr ''EXECUTE''), (''tool'', JStr (sr_tool (ar_receipt a))), (''params'', demo_sift_params)],
        bi_state = demo_sift_params, bi_issuer = ''a'', bi_audience = ''b'', bi_keyId = ''k'', bi_ttlSeconds = Some (jint 60),
        bi_now = Some (jint 1020)\<rparr> = Inr b"
proof -
  from demo_receipt_checked obtain a where
    a: "verifyReceipt demo_host (\<lambda>_. jint 1000) (jint 0) demo_receipt demo_receipt_options = Inr a"
    by (auto split: sum.splits)
  have tool: "sr_tool (ar_receipt a) = ''x''"
    using a by (rule verifyReceipt_Inr) (auto dest!: parseReceipt_Inr(4) simp: demo_receipt_def)
  have i: "normalizeIntent (ar_receipt a) demo_sift_params None (Some ''x'') =
      Inr (JObj [(''type'', JStr ''EXECUTE''), (''tool'', JStr (sr_tool (ar_receipt a))), (''params'', demo_sift_params)])"
    using demo_sift_params_normal [of UNSUPPORTED_PARAM_TYPE] by (simp add: normalizeIntent_def mismatch_def tool) (simp add: demo_sift_params_def)
  have s: "normalizeState demo_sift_params (Some [''n'']) = Inr demo_sift_params"
    using demo_sift_params_normal [of UNSUPPORTED_STATE_VALUE] by (simp add: normalizeState_def require_keys_def demo_sift_params_def)
  have "ro_requireAllowDecision demo_receipt_options \<noteq> Some False" by (simp add: demo_receipt_options_def)
  from receipt_binding_complete [OF a this i s, of "''a''" "''b''" "''k''" 60 "jint 1020"] a show ?thesis
    by (simp add: max_safe_def) blast
qed

end
