(* ===== verification/SiftStoreProperties.thy ===== *)
theory SiftStoreProperties
  imports SiftRefresh SiftProperties
begin

text \<open>
  The properties of the key store that fetches its lists: refreshes one after another never bring an older
  revocation list into force, refreshes that overlap can, and an accepted receipt is signed by a key that a
  genuine list in force does not revoke.
\<close>

section \<open>Lists in force\<close>

text \<open>
  C24: In the mode that requires signatures, with the verifier of the core, the revocation list in force never
  gets older: over any number of refreshes, one after another, with any answers of the network, the watermark
  store and the cache, there is always a genuine list in force once there was one, and it has at least the
  version of the earlier one if it is of the same issuer. Its revoked keys are exactly those of that list.
\<close>

theorem revocation_list_never_older:
  assumes "mode_of opt = Signed_Required" and "ko_verifyKrl opt = Some (core_krl_verifier h clock keysets)"
    and "refreshes h opt st st'" and "list_in_force h keysets st i n"
  shows "\<exists>body j m. genuine_list h keysets body j m \<and> (j = i \<longrightarrow> num_le n m) \<and>
     (\<exists>ks. getp body ''revoked_kids'' = JArr ks \<and> revokedKids st' = {kid. JStr kid \<in> set ks}) \<and>
     (\<exists>b. map_of (krlVersionByIssuer st') j = Some b \<and> num_le m b)"
proof -
  from refreshes_keep_list [OF assms(3,1,2,4)] obtain j m body where g: "genuine_list h keysets body j m"
    and "j = i \<longrightarrow> num_le n m" "revokedKids st' = extractRevokedKidsFromVerified body"
    "\<exists>b. map_of (krlVersionByIssuer st') j = Some b \<and> num_le m b"
    by (auto simp: list_in_force_def)
  with genuine_kids [OF g] show ?thesis by metis
qed

section \<open>Receipts\<close>

lemma http_unrevoked:
  "unrevoked_key (http_key_store h opt) kid (w, st) =
     (if kid \<in> revokedKids st then Inl (revoked_failure kid) else Inr (map_of (keyCache st) kid), (w, st))"
  by (simp add: unrevoked_key_def http_key_store_def ofK_def isKidRevoked_def getPublicKeyByKid_def)

lemma http_refresh:
  "ks_refresh (http_key_store h opt) s =
     (case refresh h opt s of (Inl x, s') \<Rightarrow> (Inl (KeyStoreError (fst x) (snd x)), s') | (Inr u, s') \<Rightarrow> (Inr u, s'))"
  by (simp add: http_key_store_def catchK_def throwK_def)

lemma http_key:
  assumes "keystore_key (http_key_store h opt) kid (w, st) = (Inr k, (w', st'))"
  shows "refreshes h opt st st' \<and> kid \<notin> revokedKids st' \<and> map_of (keyCache st') kid = Some k"
proof (cases "map_of (keyCache st) kid")
  case (Some k')
  with assms show ?thesis
    by (auto simp: keystore_key_def http_unrevoked intro: refreshes.start split: if_splits)
next
  case None
  obtain r w1 st1 where r: "refresh h opt (w, st) = (r, (w1, st1))" by (metis surj_pair)
  from assms None r have "kid \<notin> revokedKids st1 \<and> map_of (keyCache st1) kid = Some k \<and> st' = st1"
    by (auto simp: keystore_key_def http_unrevoked refreshed_key_def http_refresh
        split: if_splits sum.splits option.splits)
  with refreshes.step [OF refreshes.start r] show ?thesis by simp
qed

text \<open>
  C23: End to end, from a constructed store in the mode that requires signatures: a receipt accepted after any
  number of refreshes is signed by the 32-byte key the published key set holds for the kid, and a genuine
  revocation list is in force at that moment that does not revoke it. No receipt is accepted before such a list
  was loaded.
\<close>

theorem receipt_key_not_revoked:
  assumes "SiftHttpKeyStore opt = Inr st0" and "refreshes h opt st0 st"
    and "mode_of opt = Signed_Required" and "ko_verifyKrl opt = Some (core_krl_verifier h clock keysets)"
    and "verifyReceiptWithKeyStore h parse_date t (http_key_store h opt) kid raw ropt (w, st) = (Inr a, (w', st'))"
  shows "\<exists>body i n ks k. genuine_list h keysets body i n \<and> getp body ''revoked_kids'' = JArr ks \<and> JStr kid \<notin> set ks \<and>
     revokedKids st' = {s. JStr s \<in> set ks} \<and> map_of (keyCache st') kid = Some k \<and> length k = 32 \<and>
     signed_under h (spki_pem (ED25519_SPKI_PREFIX @ k)) (ar_receipt a)"
proof -
  from assms(5) obtain k where k: "keystore_key (http_key_store h opt) kid (w, st) = (Inr k, (w', st'))"
    and v: "verifyReceipt h parse_date t raw (ropt\<lparr>ro_publicKeyRaw := Some (KeyBytes k)\<rparr>) = Inr a"
    by (auto simp: verifyReceiptWithKeyStore_def split: if_splits prod.splits sum.splits)
  note key = http_key [OF k]
  have "length k = 32 \<and> signed_under h (spki_pem (ED25519_SPKI_PREFIX @ k)) (ar_receipt a)"
    using v
  proof (rule verifyReceipt_Inr)
    fix key assume "receipt_key h (ropt\<lparr>ro_publicKeyRaw := Some (KeyBytes k)\<rparr>) = Inr key" "signed_under h key (ar_receipt a)"
    then show ?thesis
      by (auto simp: receipt_key_def publicKeyFromRaw_def key_bytes_def Let_def bindE_eq_Inr split: sum.splits if_splits)
  qed
  moreover obtain i n where "list_in_force h keysets st' i n"
    using constructed_list [OF assms(1) refreshes_append [OF assms(2)] assms(3,4)] key by fastforce
  then obtain body where g: "genuine_list h keysets body i n" and "revokedKids st' = extractRevokedKidsFromVerified body"
    by (auto simp: list_in_force_def)
  with genuine_kids [OF g] obtain ks where "getp body ''revoked_kids'' = JArr ks" "revokedKids st' = {s. JStr s \<in> set ks}" by auto
  ultimately show ?thesis using key g by blast
qed

section \<open>Overlapping refreshes\<close>

text \<open>
  C25: Two refreshes that overlap can bring the older list back. Both verify their list before either has swapped
  its caches, which the wait for the watermark store allows; the one with the newer list of the issuer finishes
  first. Then the list in force, genuine as it is, is the older one, its revoked keys replace those of the newer
  list, and the watermark in memory has fallen below a version that was in force before.
\<close>

theorem overlapping_refreshes_roll_back:
  assumes "mode_of opt = Signed_Required" and "ko_verifyKrl opt = Some (core_krl_verifier h clock keysets)"
    and "verify_refresh h opt t1 (w1, st) = (Inr old, (w1', st1))"
    and "verify_refresh h opt t2 (w2, st1) = (Inr new, (w2', st2))"
    and "pl_updatedVersion (vf_list old) = Some (i, n)" and "pl_updatedVersion (vf_list new) = Some (i, m)" and "num_lt n m"
    and "accept_refresh opt new (w3, st2) = (Inr (), (w3', st3))"
    and "accept_refresh opt old (w4, st3) = (Inr (), (w4', st4))"
  shows "list_in_force h keysets st3 i m \<and> revokedKids st3 = extractRevokedKidsFromVerified (vf_body new) \<and>
     list_in_force h keysets st4 i n \<and> revokedKids st4 = extractRevokedKidsFromVerified (vf_body old) \<and>
     map_of (krlVersionByIssuer st3) i = Some m \<and> map_of (krlVersionByIssuer st4) i = Some n"
proof -
  have in_force: "list_in_force h keysets st'' i v \<and> revokedKids st'' = extractRevokedKidsFromVerified (vf_body vf) \<and>
      map_of (krlVersionByIssuer st'') i = Some v"
    if "verify_refresh h opt t (w, s) = (Inr vf, (w', s'))" "pl_updatedVersion (vf_list vf) = Some (i, v)"
      "accept_refresh opt vf (u, s'') = (Inr (), (u', st''))" for t w s vf w' s' v u s'' u' st''
  proof -
    from verify_refresh_keeps(2) [OF that(1)] assms(1) have "runVerifyKrl opt (vf_body vf) t s' = Inr (vf_list vf)"
      by (auto simp: processKrlForMode_def split: if_splits)
    then show ?thesis
    proof (rule core.run_verified [OF assms(2)])
      fix j v'
      assume g: "genuine_list h keysets (vf_body vf) j v'" "\<not> is_nan v'"
        "pl_revoked (vf_list vf) = extractRevokedKidsFromVerified (vf_body vf)" "pl_updatedVersion (vf_list vf) = Some (j, v')"
      from accept_cases [OF that(3)] have "st'' = swap_caches opt vf s''" by simp
      with g that(2) show ?thesis
        by (auto simp: list_in_force_def swap_caches_def Let_def note_version_def num_le_refl)
    qed
  qed
  from in_force [OF assms(4,6,8)] in_force [OF assms(3,5,9)] show ?thesis by simp
qed

section \<open>A store\<close>

text \<open>The world is the list the service publishes and the content of the watermark store.\<close>

definition demo_jwks :: jsval where
  "demo_jwks =
     JObj [(''keys'', JArr [JNull, JObj [(''kty'', JStr ''OKP''), (''crv'', JStr ''Ed25519''), (''kid'', JStr ''k''),
        (''x'', JStr (b64uEncode (replicate 32 CHR ''q'')))]])]"

definition demo_newer_krl :: jsval where
  "demo_newer_krl = spread_set (spread_set demo_krl ''krl_version'' (JNum (jint 4))) ''revoked_kids'' (JArr [JStr ''z'', JStr ''y''])"

definition demo_store_options :: "(jsval \<times> versions) key_store_options" where
  "demo_store_options =
     \<lparr>ko_jwksUrl = ''j'', ko_krlUrl = ''l'',
      ko_fetch = (\<lambda>url w. (Inr \<lparr>res_ok = True, res_status = jint 200,
                            res_json = Inr (if url = ''j'' then demo_jwks else fst w)\<rparr>, w)),
      ko_krlMode = Some Signed_Required, ko_verifyKrl = Some (core_krl_verifier demo_host (jint 0) (OneKeySet demo_keys)),
      ko_now = (\<lambda>_. jint 20), ko_krlWatermarkStore = Some (createInMemoryKrlWatermarkStore snd (\<lambda>vs w. (fst w, vs))),
      ko_signedKrlCache = None\<rparr>"

definition demo_versions :: "versions \<Rightarrow> verify_krl_opts" where
  "demo_versions vs =
     \<lparr>vk_now = Some (jint 20), vk_trustedKeySets = Some (OneKeySet demo_keys),
      vk_previousVersions = JObj (map (\<lambda>(i, v). (i, JNum v)) vs)\<rparr>"

lemma demo_jwks_parsed: "parseJwks demo_jwks = Inr [(''k'', replicate 32 CHR ''q'')]"
  by code_simp

lemma accepted_after:
  assumes "vr_ok (verifySignedKrl h clock opt e)" and "krl_version_violations h e vs = []"
  shows "vr_ok (verifySignedKrl h clock (opt\<lparr>vk_previousVersions := vs\<rparr>) e)"
  using assms by (auto simp: verifySignedKrl_def krl_invalid_def Let_def split: if_splits)

lemma demo_newer_ok: "vr_ok (verifySignedKrl demo_host (jint 0) demo_krl_opts demo_newer_krl)"
  by code_simp

lemma demo_newer_entries:
  "demo_newer_krl = JObj [(''version'', JStr ''SignedKRLV1''), (''issuer'', JStr ''a''), (''krl_version'', JNum (jint 4)),
     (''issued_at'', JNum (jint 10)), (''not_after'', JNum (jint 90)), (''revoked_kids'', JArr [JStr ''z'', JStr ''y'']),
     (''signature'', getp demo_krl ''signature'')]"
  by (simp add: demo_newer_krl_def demo_krl_def spread_set_def)

lemma demo_lists_ok:
  "vr_ok (verifySignedKrl demo_host (jint 0) (demo_versions []) demo_krl)"
  "vr_ok (verifySignedKrl demo_host (jint 0) (demo_versions []) demo_newer_krl)"
  "vr_ok (verifySignedKrl demo_host (jint 0) (demo_versions [(''a'', jint 3)]) demo_newer_krl)"
proof -
  have v: "krl_version_violations demo_host demo_krl (JObj []) = []" "krl_version_violations demo_host demo_newer_krl (JObj []) = []"
    "krl_version_violations demo_host demo_newer_krl (JObj [(''a'', JNum (jint 3))]) = []"
    by (simp_all add: krl_version_violations_def demo_krl_def demo_newer_entries inherited_def object_prototype_def)
  show "vr_ok (verifySignedKrl demo_host (jint 0) (demo_versions []) demo_krl)"
    "vr_ok (verifySignedKrl demo_host (jint 0) (demo_versions []) demo_newer_krl)"
    "vr_ok (verifySignedKrl demo_host (jint 0) (demo_versions [(''a'', jint 3)]) demo_newer_krl)"
    using accepted_after [OF demo_krl_ok v(1)] accepted_after [OF demo_newer_ok v(2)] accepted_after [OF demo_newer_ok v(3)]
    by (simp_all add: demo_versions_def demo_krl_opts_def)
qed

lemma demo_verdicts:
  "krlVersionByIssuer st = [] \<Longrightarrow> runVerifyKrl demo_store_options demo_krl (jint 20) st =
     Inr \<lparr>pl_revoked = {''z''}, pl_integrity = Signed_List, pl_updatedVersion = Some (''a'', jint 3)\<rparr>"
  "krlVersionByIssuer st = [] \<or> krlVersionByIssuer st = [(''a'', jint 3)] \<Longrightarrow> runVerifyKrl demo_store_options demo_newer_krl (jint 20) st =
     Inr \<lparr>pl_revoked = {''z'', ''y''}, pl_integrity = Signed_List, pl_updatedVersion = Some (''a'', jint 4)\<rparr>"
  using demo_lists_ok
  by (auto simp: runVerifyKrl_def demo_store_options_def core_krl_verifier_def Let_def demo_versions_def demo_krl_def
      demo_newer_entries extractRevokedKidsFromVerified_def kids_of_def field_text_def)

lemma demo_processed:
  "hasSignatureField body \<Longrightarrow> processKrlForMode demo_store_options body now st = runVerifyKrl demo_store_options body now st"
  by (simp add: processKrlForMode_def demo_store_options_def mode_of_def)

lemma demo_signature_fields: "hasSignatureField demo_krl" "hasSignatureField demo_newer_krl"
  by (simp_all add: hasSignatureField_def demo_krl_def demo_newer_entries)

definition demo_verified_list :: "jsval \<Rightarrow> processed_list \<Rightarrow> verified_refresh" where
  "demo_verified_list body l = \<lparr>vf_keys = [(''k'', replicate 32 CHR ''q'')], vf_body = body, vf_list = l, vf_now = jint 20\<rparr>"

lemma demo_verify_refresh:
  assumes "hasSignatureField body" and "runVerifyKrl demo_store_options body (jint 20) st = Inr l"
    and "fold merge_version vs (krlVersionByIssuer st) = krlVersionByIssuer st"
  shows "verify_refresh demo_host demo_store_options (jint 20) ((body, vs), st) = (Inr (demo_verified_list body l), ((body, vs), st))"
  using assms demo_processed [OF assms(1)]
  by (simp add: verify_refresh_def bindK_def catchK_def ofK_def returnK_def fetch_both_def bodies_def mergeWatermarks_def
      askK_def updateK_def createInMemoryKrlWatermarkStore_def demo_jwks_parsed demo_verified_list_def mode_of_def
      demo_store_options_def [THEN arg_cong, of ko_fetch] demo_store_options_def [THEN arg_cong, of ko_jwksUrl]
      demo_store_options_def [THEN arg_cong, of ko_krlUrl] demo_store_options_def [THEN arg_cong, of ko_krlMode]
      demo_store_options_def [THEN arg_cong, of ko_krlWatermarkStore])

lemma demo_accept_refresh:
  assumes "pl_updatedVersion l = Some (i, v)"
  shows "accept_refresh demo_store_options (demo_verified_list body l) ((w, vs), st) =
     (Inr (), ((w, raise_version i v vs), swap_caches demo_store_options (demo_verified_list body l) st))"
  using assms
  by (simp add: accept_refresh_def bindK_def catchK_def askK_def updateK_def returnK_def persist_watermark_def write_cache_def
      createInMemoryKrlWatermarkStore_def demo_verified_list_def
      demo_store_options_def [THEN arg_cong, of ko_krlWatermarkStore] demo_store_options_def [THEN arg_cong, of ko_signedKrlCache])

lemma demo_refresh:
  assumes "hasSignatureField body" and "runVerifyKrl demo_store_options body (jint 20) st = Inr l"
    and "fold merge_version vs (krlVersionByIssuer st) = krlVersionByIssuer st" and "pl_updatedVersion l = Some (i, v)"
  shows "refresh demo_host demo_store_options ((body, vs), st) =
     (Inr (), ((body, raise_version i v vs), swap_caches demo_store_options (demo_verified_list body l) st))"
  using demo_verify_refresh [OF assms(1-3)] demo_accept_refresh [OF assms(4)]
  by (simp add: refresh_def refresh_at_def doFreshRefresh_def catchK_def bindK_def demo_store_options_def [THEN arg_cong, of ko_now])

lemma demo_constructed_store: "\<exists>st. SiftHttpKeyStore demo_store_options = Inr st \<and> krlVersionByIssuer st = [] \<and> keyCache st = [] \<and> revokedKids st = {}"
  by (simp add: SiftHttpKeyStore_def demo_store_options_def)

text \<open>Two refreshes, with a newer list published in between.\<close>

lemma demo_swapped:
  "krlVersionByIssuer (swap_caches opt (demo_verified_list body \<lparr>pl_revoked = ks, pl_integrity = g, pl_updatedVersion = Some (i, v)\<rparr>) st)
     = AList.update i v (krlVersionByIssuer st)"
  "revokedKids (swap_caches opt (demo_verified_list body \<lparr>pl_revoked = ks, pl_integrity = g, pl_updatedVersion = Some (i, v)\<rparr>) st) = ks"
  "keyCache (swap_caches opt (demo_verified_list body l) st) = [(''k'', replicate 32 CHR ''q'')]"
  by (simp_all add: swap_caches_def Let_def demo_verified_list_def note_version_def)

lemma demo_settings:
  "mode_of demo_store_options = Signed_Required"
  "ko_verifyKrl demo_store_options = Some (core_krl_verifier demo_host (jint 0) (OneKeySet demo_keys))"
  by (simp_all add: demo_store_options_def mode_of_def)

lemma demo_first_refresh:
  assumes "krlVersionByIssuer st = []"
  obtains st' where "refresh demo_host demo_store_options ((demo_krl, []), st) = (Inr (), ((demo_krl, [(''a'', jint 3)]), st'))"
    "krlVersionByIssuer st' = [(''a'', jint 3)]" "revokedKids st' = {''z''}" "keyCache st' = [(''k'', replicate 32 CHR ''q'')]"
proof -
  note r = demo_refresh [OF demo_signature_fields(1) demo_verdicts(1) [OF assms], of "[]"]
  have "raise_version ''a'' (jint 3) [] = [(''a'', jint 3)]" by (simp add: raise_version_def)
  with r have "refresh demo_host demo_store_options ((demo_krl, []), st) = (Inr (), ((demo_krl, [(''a'', jint 3)]),
      swap_caches demo_store_options (demo_verified_list demo_krl
        \<lparr>pl_revoked = {''z''}, pl_integrity = Signed_List, pl_updatedVersion = Some (''a'', jint 3)\<rparr>) st))"
    by simp
  then show thesis by (rule that) (simp_all add: demo_swapped assms)
qed

lemma demo_genuine: "genuine_list demo_host (OneKeySet demo_keys) demo_krl ''a'' (jint 3)"
  unfolding genuine_list_def
  by (intro conjI exI [of _ "jint 0"] exI [of _ "demo_versions []"])
    (simp add: demo_versions_def, rule demo_lists_ok(1), simp_all add: demo_krl_def)

theorem revocation_list_never_older_witness:
  "\<exists>st st' body j m ks. refreshes demo_host demo_store_options st st' \<and>
     genuine_list demo_host (OneKeySet demo_keys) body j m \<and> getp body ''revoked_kids'' = JArr ks \<and>
     revokedKids st' = {kid. JStr kid \<in> set ks} \<and> ''y'' \<in> revokedKids st' \<and> ''y'' \<notin> revokedKids st"
proof -
  from demo_constructed_store obtain st0 where st0: "krlVersionByIssuer (st0 :: key_store) = []" by blast
  obtain st1 where r1: "refresh demo_host demo_store_options ((demo_krl, []), st0) = (Inr (), ((demo_krl, [(''a'', jint 3)]), st1))"
    and st1: "krlVersionByIssuer st1 = [(''a'', jint 3)]" "revokedKids st1 = {''z''}"
    using demo_first_refresh [OF st0] by blast
  have "extractRevokedKidsFromVerified demo_krl = {''z''}"
    by (simp add: demo_krl_def extractRevokedKidsFromVerified_def kids_of_def field_text_def)
  with demo_genuine st1 have l: "list_in_force demo_host (OneKeySet demo_keys) st1 ''a'' (jint 3)"
    unfolding list_in_force_def by auto
  obtain w st2 where r2: "refresh demo_host demo_store_options ((demo_newer_krl, [(''a'', jint 3)]), st1) = (Inr (), (w, st2))"
    and st2: "revokedKids st2 = {''z'', ''y''}"
    using demo_refresh [OF demo_signature_fields(2) demo_verdicts(2), of st1 "[(''a'', jint 3)]"] st1
    by (auto simp: merge_version_def demo_swapped)
  note run = refreshes.step [OF refreshes.start r2]
  from revocation_list_never_older [OF demo_settings run l] st2 st1 run show ?thesis by fastforce
qed

theorem overlapping_refreshes_roll_back_witness:
  "\<exists>old st st'. list_in_force demo_host (OneKeySet demo_keys) st ''a'' (jint 4) \<and>
     list_in_force demo_host (OneKeySet demo_keys) st' ''a'' (jint 3) \<and>
     accept_refresh demo_store_options old ((demo_newer_krl, [(''a'', jint 4)]), st) =
       (Inr (), ((demo_newer_krl, [(''a'', jint 4)]), st')) \<and>
     ''y'' \<in> revokedKids st \<and> ''y'' \<notin> revokedKids st'"
proof -
  from demo_constructed_store obtain st0 where st0: "krlVersionByIssuer (st0 :: key_store) = []" by blast
  let ?l = "\<lparr>pl_revoked = {''z''}, pl_integrity = Signed_List, pl_updatedVersion = Some (''a'', jint 3)\<rparr>"
  let ?m = "\<lparr>pl_revoked = {''z'', ''y''}, pl_integrity = Signed_List, pl_updatedVersion = Some (''a'', jint 4)\<rparr>"
  let ?old = "demo_verified_list demo_krl ?l" and ?new = "demo_verified_list demo_newer_krl ?m"
  let ?st1 = "swap_caches demo_store_options ?new st0"
  let ?st2 = "swap_caches demo_store_options ?old ?st1"
  have v: "verify_refresh demo_host demo_store_options (jint 20) ((demo_krl, []), st0) = (Inr ?old, ((demo_krl, []), st0))"
    "verify_refresh demo_host demo_store_options (jint 20) ((demo_newer_krl, []), st0) = (Inr ?new, ((demo_newer_krl, []), st0))"
    using demo_verify_refresh [OF demo_signature_fields(1) demo_verdicts(1) [OF st0], of "[]"]
      demo_verify_refresh [OF demo_signature_fields(2) demo_verdicts(2), of st0 "[]"] st0 by simp_all
  have a: "accept_refresh demo_store_options ?new ((demo_newer_krl, []), st0) = (Inr (), ((demo_newer_krl, [(''a'', jint 4)]), ?st1))"
    "accept_refresh demo_store_options ?old ((demo_newer_krl, [(''a'', jint 4)]), ?st1) =
       (Inr (), ((demo_newer_krl, [(''a'', jint 4)]), ?st2))"
    by (simp_all add: demo_accept_refresh raise_version_def)
  have u: "pl_updatedVersion (vf_list ?old) = Some (''a'', jint 3)" "pl_updatedVersion (vf_list ?new) = Some (''a'', jint 4)"
    by (simp_all add: demo_verified_list_def)
  have "num_lt (jint 3) (jint 4)" by simp
  from overlapping_refreshes_roll_back [OF demo_settings v u this a]
  have f: "list_in_force demo_host (OneKeySet demo_keys) ?st1 ''a'' (jint 4) \<and> list_in_force demo_host (OneKeySet demo_keys) ?st2 ''a'' (jint 3)"
    by (elim conjE) (rule conjI)
  have y: "''y'' \<in> revokedKids ?st1 \<and> ''y'' \<notin> revokedKids ?st2"
    by (simp add: demo_swapped)
  show ?thesis
    by (rule exI [of _ ?old], rule exI [of _ ?st1], rule exI [of _ ?st2], intro conjI)
      (rule conjunct1 [OF f] conjunct2 [OF f] a(2) y [THEN conjunct1] y [THEN conjunct2])+
qed

theorem receipt_key_not_revoked_witness:
  "\<exists>st a w st' k. verifyReceiptWithKeyStore demo_host (\<lambda>_. jint 1000) (jint 0) (http_key_store demo_host demo_store_options) ''k''
       demo_receipt demo_receipt_options ((demo_krl, []), st) = (Inr a, (w, st')) \<and>
     ''k'' \<notin> revokedKids st' \<and> map_of (keyCache st') ''k'' = Some k \<and>
     signed_under demo_host (spki_pem (ED25519_SPKI_PREFIX @ k)) (ar_receipt a)"
proof -
  from demo_constructed_store obtain st0 where st0: "SiftHttpKeyStore demo_store_options = Inr st0"
    "krlVersionByIssuer st0 = []" "keyCache st0 = []" "revokedKids st0 = {}" by (elim exE conjE)
  obtain st1 where r: "refresh demo_host demo_store_options ((demo_krl, []), st0) = (Inr (), ((demo_krl, [(''a'', jint 3)]), st1))"
    and st1: "revokedKids st1 = {''z''}" "keyCache st1 = [(''k'', replicate 32 CHR ''q'')]"
    using demo_first_refresh [OF st0(2)] by blast
  have k: "keystore_key (http_key_store demo_host demo_store_options) ''k'' ((demo_krl, []), st0) =
      (Inr (replicate 32 CHR ''q''), ((demo_krl, [(''a'', jint 3)]), st1))"
    using r st1 st0 by (simp add: keystore_key_def http_unrevoked refreshed_key_def http_refresh)
  then obtain a where a: "verifyReceiptWithKeyStore demo_host (\<lambda>_. jint 1000) (jint 0) (http_key_store demo_host demo_store_options) ''k''
       demo_receipt demo_receipt_options ((demo_krl, []), st0) = (Inr a, ((demo_krl, [(''a'', jint 3)]), st1))"
    using demo_stored_receipt_checked by (simp add: verifyReceiptWithKeyStore_def split: sum.splits)
  from receipt_key_not_revoked [OF st0(1) refreshes.start demo_settings this] a st1 show ?thesis by fastforce
qed

end
