(* ===== verification/Spec2Isabelle.thy ===== *)
theory Spec2Isabelle
  imports EngineProperties IssuedAuthorization VerifyDelegation VerifyKrl VerifyLogsLaws SnapshotVerified Envelope
    CoreProperties RunProperties VerifierProperties ArtifactProperties EnvelopeProperties GuardProperties GatewayProperties SiftStoreProperties
begin

text \<open>
  A verification library for OxDeAI, a deterministic authorization layer between an agent and the tools it
  calls. The repository is a TypeScript monorepo; the code modelled here is \<open>packages/core/src\<close>, the policy
  engine and its verifiers, \<open>packages/guard/src\<close>, the enforcement points in front of a side effect, and
  \<open>packages/sift/src\<close>, which turns the receipts of another service into authorizations.

  \<^bold>\<open>The program.\<close> An agent proposes an action; a guard maps it to an intent and asks the engine. The engine
  (\<open>PolicyEngine.evaluatePure\<close>) checks the state and the trusted time, runs eight policy modules over the state,
  merges their deltas, and answers DENY with reasons or ALLOW with a signed authorization and the next state.
  Every decision goes to a hash-chained audit log. The guard verifies the authorization as a stranger would,
  binds it to the intent and the state it loaded, spends its identifier, commits the next state by
  compare-and-set, and only then runs the side effect; or it accepts a delegation of an earlier authorization,
  with scopes that only narrow and keys that may be revoked. A gateway does the same in front of an HTTP
  upstream. Relying parties verify authorizations, delegations, revocation lists, snapshots, audit logs and
  envelopes without the engine.

  \<^bold>\<open>Foundations.\<close>
  \<^item> \<open>Prelude\<close>: computations that may throw, as sums; loops that may throw (\<open>mapE\<close>, \<open>filterE\<close>, \<open>someE\<close>).
  \<^item> \<open>JsNum\<close>, \<open>JsValue\<close>, \<open>JsonText\<close>, \<open>Host\<close>: the language the code is written in. Numbers are IEEE doubles with
    rounding written out, values a datatype, texts UTF-8 byte lists; \<open>JSON.parse\<close>, number coercions, base64.
    A record \<open>host\<close> holds the primitives the code calls and does not define: SHA-256, HMAC, Ed25519, NFC.
  \<^item> \<open>Canonical\<close>, \<open>Roundtrip\<close>, \<open>DeepMerge\<close>: \<open>crypto/hashes.ts\<close> and \<open>utils/\<close>. Canonical text parses back to the normal
    form; the digests built on it identify their content or exhibit a collision.
  \<^item> \<open>Types\<close>, \<open>TrustedTime\<close>, \<open>Signatures\<close>: intents, reasons, results; the freshness gate; domain-separated signing.

  \<^bold>\<open>The engine.\<close>
  \<^item> \<open>PolicyModule\<close> states the contract of a module as the locale \<open>policy_module\<close>; \<open>SimpleModules\<close> (kill switch,
    allow list, recursion depth, budget), \<open>Velocity\<close>, \<open>NonceReplay\<close>, \<open>Concurrency\<close> and \<open>ToolCalls\<close> hold the modules of
    \<open>policy/modules/\<close>, each an interpretation, the limits with an abstract automaton they refine.
  \<^item> \<open>Decision\<close>: the pipeline of \<open>policy/decision/\<close>. \<open>StateGuards\<close>, \<open>StateShape\<close>, \<open>Preservation\<close>: the structural checks of
    the state and that an ALLOW keeps them.
  \<^item> \<open>CodecBase\<close>, \<open>Codecs\<close>, \<open>HistoryCodecs\<close>, \<open>Snapshot\<close>: the codecs of \<open>policy/modules/_codec.ts\<close> (locale \<open>module_codec\<close>)
    and canonical snapshots.
  \<^item> \<open>AuditLog\<close>: the hash chain, under the locale \<open>event_chain\<close>; the audit verifier and the replay verifier interpret
    it with their own hash functions.
  \<^item> \<open>Engine\<close>, \<open>Evaluate\<close>: \<open>policy/PolicyEngine.ts\<close>. The object is a record passed through every method; an exception
    of the body becomes INTERNAL_ERROR, and the audit entries written before it stay. \<open>EngineLaws\<close>: what an ALLOW
    shows. \<open>EngineRun\<close>, \<open>RunLimits\<close>, \<open>RunAudit\<close>: whole runs, as a step relation with rule induction. \<open>RunRecord\<close>:
    the answer of an evaluation as a function of its inputs, and the log of a run as the record of its answers, in
    both directions.

  \<^bold>\<open>The verifiers.\<close> \<open>VerificationTypes\<close>, \<open>Schemas\<close>, \<open>VerifyAuthorization\<close>, \<open>VerifyDelegation\<close>, \<open>VerifyKrl\<close>, \<open>VerifyLogs\<close>,
  \<open>Envelope\<close> follow the files of the same name under \<open>verification/\<close>, \<open>schemas/\<close> and \<open>replay/\<close>. \<open>IssuedAuthorization\<close>,
  \<open>VerifyLogsLaws\<close>, \<open>SnapshotVerified\<close> and \<open>EnvelopeRoundtrip\<close> connect them with what the engine writes.

  \<^bold>\<open>The guard.\<close>
  \<^item> \<open>GuardEvents\<close>: errors, request lifecycle and boundary events (\<open>errors.ts\<close>, \<open>boundaryEvent.ts\<close>), and the shape of a
    step: it takes the world, the lifecycle and the two identity-keyed collections of the module, and answers or
    throws. The field \<open>calls\<close> is a ghost trace of the deployment callbacks in the order they were called.
  \<^item> \<open>ReplayStores\<close> (locale \<open>once_store\<close>), \<open>ActionIntent\<close>, \<open>Revocation\<close> (locale \<open>watermark_store\<close>), \<open>RevocationEvidence\<close>: the
    parts a guard is built from. \<open>GuardConfig\<close>: its construction. \<open>GuardSteps\<close>, \<open>DelegatedRequest\<close>, \<open>Guard\<close>: \<open>guard.ts\<close> step
    by step. \<open>SecureGuard\<close>: \<open>secureGuard.ts\<close>. \<open>Gateway\<close>: \<open>gateway.ts\<close>.
  \<^item> \<open>GuardLaws\<close> lifts two laws from single steps to requests: the trace only grows and the lifecycle tells the
    truth about it. \<open>GuardExecution\<close>, \<open>DelegationExecution\<close>, \<open>GuardShapes\<close>: the exact trace of a request that executed;
    the first also has the flag for an issued authorization, which is set two checks after the engine's answer.
    \<open>GuardReplay\<close>: many requests over one store.

  \<^bold>\<open>Sift.\<close> Receipts of the Sift service are verified with its published keys and become authorization payloads.
  \<^item> \<open>SiftCanonical\<close>: \<open>siftCanonical.ts\<close>, \<open>smallOrderEd25519.ts\<close>. \<open>SiftReceipt\<close>: \<open>verifyReceipt.ts\<close>, with the key store as a
    record of operations. \<open>SiftBinding\<close>: \<open>normalizeIntent.ts\<close>, \<open>state.ts\<close>, \<open>receiptToAuthorization.ts\<close>.
  \<^item> \<open>SiftKeyStore\<close>: \<open>siftKeyStore.ts\<close>, the store that fetches keys and revocation lists, with \<open>krlWatermarkStore.ts\<close> and
    \<open>signedKrlCache.ts\<close>. A refresh is one state step, split where the code waits between verification and swap, so
    that overlapping refreshes can be written down. \<open>SiftRefresh\<close>: what a refresh keeps, the locale \<open>krl_verifier\<close> for
    the injected verifier with the core's \<open>verifySignedKrl\<close> as its interpretation, and runs of refreshes.

  \<^bold>\<open>The properties\<close> are in \<open>CoreProperties\<close>, \<open>EngineProperties\<close>, \<open>RunProperties\<close>, \<open>VerifierProperties\<close>, \<open>ArtifactProperties\<close>,
  \<open>EnvelopeProperties\<close>, \<open>GuardProperties\<close>, \<open>GatewayProperties\<close>, \<open>SiftProperties\<close> and \<open>SiftStoreProperties\<close>. Their witnesses are evaluated on the inputs of \<open>Demo\<close>,
  \<open>DemoRun\<close>, \<open>VerifierDemo\<close> and \<open>GuardDemo\<close>: a host with concrete primitives, an engine that admits one intent, a
  signed delegation, and a guard that executes one action on either path.

  \<^bold>\<open>Hypotheses.\<close> Where a property needs the platform it says so: digests are 64 hexadecimal digits, NFC is the
  identity on ASCII, a signature made with a key verifies under its public key. Injectivity of the hash is
  never assumed; the conclusion offers the collision instead. The replay properties hold for every store that
  satisfies \<open>once_store\<close>, which never forgets what it granted, and the in-memory store is proved to; the
  interface lets a store forget identifiers of artifacts that can no longer be accepted. The revocation properties
  of the key store assume that its verifier is \<open>verifySignedKrl\<close>, wired as the package documents it
  (\<open>core_krl_verifier\<close>; the repository has no code for that wiring).

  \<^bold>\<open>Fuel and loops.\<close> \<open>json_parse\<close> recurses on fuel, two units per byte and two more, which \<open>parse_enough\<close> shows to be
  enough: it never ends for lack of fuel. Every other recursion terminates on the structure or size of its data.

  \<^bold>\<open>Idealisations.\<close> The two zeros are one number. Object keys keep insertion order, also those that look like
  array indices; \<open>__proto__\<close> is an ordinary key; properties inherited from \<open>Object.prototype\<close> are modelled where
  the code reads objects by computed keys. Proxies, accessors, cycles and invalid UTF-8 do not exist. Messages
  of built-in errors stand for themselves by name. Adapters of the engine are queues of pending operations.
  Guard requests run one after another; a configuration is not changed after construction, except the live
  key sets. In the gateway a timer that is due together with the answer fires first. The two fetches of a key
  store settle in the order they are made; a value thrown by an upstream is known by its message, not by a member
  \<open>code\<close>; and a time printed as ISO text is represented by the time.

  \<^bold>\<open>Not modelled.\<close> Network and file I/O: the Redis store, the sockets of the gateway, the file adapters of the core,
  the file-backed stores of \<open>sift\<close>, and console output.
  \<open>secureConfig.ts\<close>, which defends the copy of a configuration against mutation and polluted intrinsics that plain
  values do not have. The packages around these: \<open>sdk\<close>, \<open>cli\<close>, \<open>conformance\<close> (a test harness), the framework
  adapters, scripts, benchmarks and examples.
\<close>

end
